(* ===== verification/Kvm_Prelude.thy ===== *)
theory Kvm_Prelude
  imports Main "HOL-Library.AList" "HOL-Library.Word" "HOL-Library.Sublist"
begin

text \<open>
  Shared ground of the development: results as sums, hash maps as association lists behind a
  locale, the fragment of Rust's string and integer library the firmware uses (trimming, ASCII
  case, splitting, decimal printing and parsing, saturating arithmetic), and the generic lemmas
  about them. A Rust string is the list of its UTF-8 bytes; \<open>trim\<close> removes ASCII white
  space, the only white space the firmware's own inputs carry.
\<close>

named_theorems hm_simps \<open>lookup laws of the hash-map operations\<close>
named_theorems inv_intros \<open>preservation of the component invariants\<close>

section \<open>Results\<close>

type_synonym ('e, 'a) result = "'e + 'a"

fun bind_res :: "('e, 'a) result \<Rightarrow> ('a \<Rightarrow> ('e, 'b) result) \<Rightarrow> ('e, 'b) result" where
  "bind_res (Inl e) f = Inl e"
| "bind_res (Inr a) f = f a"

fun is_ok :: "('e, 'a) result \<Rightarrow> bool" where
  "is_ok (Inl e) = False"
| "is_ok (Inr a) = True"

section \<open>Hash maps\<close>

text \<open>
  A \<open>HashMap\<close> is an association list with distinct keys. The order of the list stands for
  the (unspecified) iteration order of the map.
\<close>

type_synonym ('k, 'v) hmap = "('k \<times> 'v) list"

definition hm_get :: "('k, 'v) hmap \<Rightarrow> 'k \<Rightarrow> 'v option" where
  "hm_get m k = map_of m k"

definition hm_insert :: "'k \<Rightarrow> 'v \<Rightarrow> ('k, 'v) hmap \<Rightarrow> ('k, 'v) hmap" where
  "hm_insert k v m = AList.update k v m"

definition hm_remove :: "'k \<Rightarrow> ('k, 'v) hmap \<Rightarrow> ('k, 'v) hmap" where
  "hm_remove k m = AList.delete k m"

definition hm_retain :: "('k \<Rightarrow> 'v \<Rightarrow> bool) \<Rightarrow> ('k, 'v) hmap \<Rightarrow> ('k, 'v) hmap" where
  "hm_retain P m = filter (\<lambda>(k, v). P k v) m"

definition hm_count :: "('v \<Rightarrow> bool) \<Rightarrow> ('k, 'v) hmap \<Rightarrow> nat" where
  "hm_count Q m = length (filter Q (map snd m))"

definition hm_wf :: "('k, 'v) hmap \<Rightarrow> bool" where
  "hm_wf m = distinct (map fst m)"

locale hash_map =
  fixes get :: "'m \<Rightarrow> 'k \<Rightarrow> 'v option"
    and ins :: "'k \<Rightarrow> 'v \<Rightarrow> 'm \<Rightarrow> 'm"
    and rem :: "'k \<Rightarrow> 'm \<Rightarrow> 'm"
    and ret :: "('k \<Rightarrow> 'v \<Rightarrow> bool) \<Rightarrow> 'm \<Rightarrow> 'm"
    and cnt :: "('v \<Rightarrow> bool) \<Rightarrow> 'm \<Rightarrow> nat"
    and wf :: "'m \<Rightarrow> bool"
  assumes get_ins: "get (ins k v m) = (get m)(k \<mapsto> v)"
    and get_rem: "get (rem k m) = (get m)(k := None)"
    and get_ret: "wf m \<Longrightarrow> get (ret P m) k =
          (case get m k of None \<Rightarrow> None | Some v \<Rightarrow> if P k v then Some v else None)"
    and cnt_ins: "wf m \<Longrightarrow> get m k = None \<Longrightarrow> cnt Q (ins k v m) = cnt Q m + (if Q v then 1 else 0)"
    and cnt_ins_le: "cnt Q (ins k v m) \<le> cnt Q m + (if Q v then 1 else 0)"
    and cnt_rem: "cnt Q (rem k m) \<le> cnt Q m"
    and cnt_ret: "cnt Q (ret P m) \<le> cnt Q m"
    and cnt_zero: "wf m \<Longrightarrow> cnt Q m = 0 \<longleftrightarrow> (\<forall>k v. get m k = Some v \<longrightarrow> \<not> Q v)"
    and wf_ins: "wf m \<Longrightarrow> wf (ins k v m)"
    and wf_rem: "wf m \<Longrightarrow> wf (rem k m)"
    and wf_ret: "wf m \<Longrightarrow> wf (ret P m)"
begin

lemma ret_Some: "wf m \<Longrightarrow> get (ret P m) k = Some v \<longleftrightarrow> get m k = Some v \<and> P k v"
  by (auto simp: get_ret split: option.splits)

lemma quota_ins:
  assumes "\<And>Q. Q \<in> Qs \<Longrightarrow> cnt Q m \<le> n" and "\<And>Q. Q \<in> Qs \<Longrightarrow> Q v \<Longrightarrow> cnt Q m < n" and "Q \<in> Qs"
  shows "cnt Q (ins k v m) \<le> n"
  using assms(1) [of Q] assms(2) [of Q] assms(3) cnt_ins_le [of Q k v m] by (auto split: if_splits)

lemma ret_drops_all:
  assumes "wf m"
  shows "cnt Q (ret (\<lambda>k v. \<not> Q v) m) = 0"
  using assms by (simp add: cnt_zero wf_ret ret_Some)

lemma rem_ins_same: "get (rem k (ins k v m)) = (get m)(k := None)"
  by (simp add: get_rem get_ins)

end

lemma hm_count_update_le:
  "hm_wf m \<Longrightarrow> map_of m k = None \<Longrightarrow> AList.update k v m = m @ [(k, v)]"
  by (induction m) (auto simp: hm_wf_def split: if_splits)

interpretation hm: hash_map hm_get hm_insert hm_remove hm_retain hm_count hm_wf
proof
  fix k :: 'k and v :: 'v and m :: "('k, 'v) hmap" and P :: "'k \<Rightarrow> 'v \<Rightarrow> bool" and Q :: "'v \<Rightarrow> bool"
  show "hm_get (hm_insert k v m) = (hm_get m)(k \<mapsto> v)"
    by (simp add: hm_get_def hm_insert_def update_conv' fun_eq_iff)
  show "hm_get (hm_remove k m) = (hm_get m)(k := None)"
    by (simp add: hm_get_def hm_remove_def delete_conv' fun_eq_iff)
  show "hm_get (hm_retain P m) k =
      (case hm_get m k of None \<Rightarrow> None | Some v \<Rightarrow> if P k v then Some v else None)" if "hm_wf m"
    using that by (induction m) (force simp: hm_get_def hm_retain_def hm_wf_def image_iff
        split: option.splits dest: map_of_SomeD)+
  show "hm_count Q (hm_insert k v m) = hm_count Q m + (if Q v then 1 else 0)"
    if "hm_wf m" "hm_get m k = None"
    using that by (simp add: hm_count_def hm_insert_def hm_get_def hm_count_update_le)
  show "hm_count Q (hm_insert k v m) \<le> hm_count Q m + (if Q v then 1 else 0)"
    by (induction m) (auto simp: hm_count_def hm_insert_def)
  show "hm_count Q (hm_remove k m) \<le> hm_count Q m"
    by (induction m) (auto simp: hm_count_def hm_remove_def AList.delete_eq)
  show "hm_count Q (hm_retain P m) \<le> hm_count Q m"
    by (induction m) (auto simp: hm_count_def hm_retain_def)
  show "hm_count Q m = 0 \<longleftrightarrow> (\<forall>k v. hm_get m k = Some v \<longrightarrow> \<not> Q v)" if "hm_wf m"
    using that by (fastforce simp: hm_count_def hm_get_def hm_wf_def filter_empty_conv
        dest: map_of_SomeD)
  show "hm_wf (hm_insert k v m)" if "hm_wf m"
    using that by (simp add: hm_wf_def hm_insert_def distinct_update)
  show "hm_wf (hm_remove k m)" if "hm_wf m"
    using that by (simp add: hm_wf_def hm_remove_def distinct_delete)
  show "hm_wf (hm_retain P m)" if "hm_wf m"
    using that by (simp add: hm_wf_def hm_retain_def distinct_map_filter)
qed

declare hm.get_ins [simp, hm_simps] hm.get_rem [simp, hm_simps]
declare hm.ret_Some [simp, hm_simps]
declare hm.wf_ins [simp, intro] hm.wf_rem [simp, intro] hm.wf_ret [simp, intro]

lemma hm_empty [simp]: "hm_get [] k = None" "hm_wf []" "hm_count Q [] = 0"
  by (simp_all add: hm_get_def hm_wf_def hm_count_def)

lemma hm_Cons [simp]: "hm_get ((k', v) # m) k = (if k = k' then Some v else hm_get m k)"
  by (simp add: hm_get_def)

section \<open>Strings\<close>

definition is_ascii_space :: "char \<Rightarrow> bool" where
  "is_ascii_space c = (let n = (of_char c :: nat) in n = 32 \<or> (9 \<le> n \<and> n \<le> 13))"

definition trim_start :: "string \<Rightarrow> string" where
  "trim_start s = dropWhile is_ascii_space s"

definition trim :: "string \<Rightarrow> string" where
  "trim s = rev (trim_start (rev (trim_start s)))"

definition ascii_lower :: "char \<Rightarrow> char" where
  "ascii_lower c = (let n = (of_char c :: nat) in if 65 \<le> n \<and> n \<le> 90 then char_of (n + 32) else c)"

definition to_ascii_lowercase :: "string \<Rightarrow> string" where
  "to_ascii_lowercase s = map ascii_lower s"

definition eq_ignore_ascii_case :: "string \<Rightarrow> string \<Rightarrow> bool" where
  "eq_ignore_ascii_case a b = (to_ascii_lowercase a = to_ascii_lowercase b)"

definition starts_with :: "string \<Rightarrow> string \<Rightarrow> bool" where
  "starts_with s p = prefix p s"

fun str_contains :: "string \<Rightarrow> string \<Rightarrow> bool" where
  "str_contains [] p = (p = [])"
| "str_contains (c # s) p = (prefix p (c # s) \<or> str_contains s p)"

fun split_on :: "char \<Rightarrow> string \<Rightarrow> string list" where
  "split_on d [] = [[]]"
| "split_on d (c # s) =
     (if c = d then [] # split_on d s
      else (case split_on d s of [] \<Rightarrow> [[c]] | p # ps \<Rightarrow> (c # p) # ps))"

lemma split_on_nonempty [simp]: "split_on d s \<noteq> []"
  by (cases s) (auto split: list.splits)

lemma split_on_no_sep: "d \<notin> set s \<Longrightarrow> split_on d s = [s]"
  by (induction s) auto

lemma split_on_append: "d \<notin> set s \<Longrightarrow> split_on d (s @ d # t) = s # split_on d t"
  by (induction s) auto

lemma str_contains_prefix: "starts_with s p \<Longrightarrow> str_contains s p"
  by (cases s) (auto simp: starts_with_def)

lemma dropWhile_hd: "xs = [] \<or> \<not> P (hd xs) \<Longrightarrow> dropWhile P xs = xs"
  by (cases xs) auto

lemma trim_id:
  assumes "\<forall>c \<in> set s. \<not> is_ascii_space c"
  shows "trim s = s"
proof -
  have "trim_start t = t" if "\<forall>c \<in> set t. \<not> is_ascii_space c" for t
    using that by (cases t) (auto simp: trim_start_def)
  with assms show ?thesis by (simp add: trim_def)
qed

lemma trim_keeps: "s \<noteq> [] \<Longrightarrow> \<not> is_ascii_space (hd s) \<Longrightarrow> \<not> is_ascii_space (last s) \<Longrightarrow> trim s = s"
proof -
  assume s: "s \<noteq> []" "\<not> is_ascii_space (hd s)" "\<not> is_ascii_space (last s)"
  have "trim_start s = s" using s(1,2) by (cases s) (simp_all add: trim_start_def)
  moreover have "trim_start (rev s) = rev s" using s(1,3) by (cases "rev s") (auto simp: trim_start_def last_rev [symmetric] hd_rev)
  ultimately show ?thesis by (simp add: trim_def)
qed

lemma trim_start_idem: "trim_start (trim_start s) = trim_start s"
  by (simp add: trim_start_def)

text \<open>
  \<open>{:?}\<close> of a string: quoted, with the escapes of the printable ASCII range and the common
  control characters.
\<close>

definition debug_char :: "char \<Rightarrow> string" where
  "debug_char c =
     (let n = (of_char c :: nat); bs = char_of (92 :: nat) in
      if n = 34 \<or> n = 92 then [bs, c]
      else if n = 9 then [bs, CHR ''t'']
      else if n = 10 then [bs, CHR ''n'']
      else if n = 13 then [bs, CHR ''r'']
      else if n = 0 then [bs, CHR ''0''] else [c])"

definition debug_str :: "string \<Rightarrow> string" where
  "debug_str s = [char_of (34 :: nat)] @ concat (map debug_char s) @ [char_of (34 :: nat)]"

section \<open>Decimal numbers\<close>

definition digit_char :: "nat \<Rightarrow> char" where
  "digit_char n = char_of (48 + n)"

definition is_digit :: "char \<Rightarrow> bool" where
  "is_digit c = (let n = (of_char c :: nat) in 48 \<le> n \<and> n \<le> 57)"

definition digit_value :: "char \<Rightarrow> nat" where
  "digit_value c = of_char c - 48"

fun nat_to_dec :: "nat \<Rightarrow> string" where
  "nat_to_dec n = (if n < 10 then [digit_char n] else nat_to_dec (n div 10) @ [digit_char (n mod 10)])"

declare nat_to_dec.simps [simp del]

definition dec_value :: "string \<Rightarrow> nat" where
  "dec_value s = foldl (\<lambda>a c. a * 10 + digit_value c) 0 s"

lemma of_char_digit_char: "n < 10 \<Longrightarrow> of_char (digit_char n) = 48 + n"
  by (simp add: digit_char_def)

lemma digit_char_simps [simp]:
  "n < 10 \<Longrightarrow> digit_value (digit_char n) = n"
  "n < 10 \<Longrightarrow> is_digit (digit_char n)"
  by (simp_all add: digit_value_def is_digit_def of_char_digit_char)

lemma nat_to_dec_digits: "list_all is_digit (nat_to_dec n)"
proof (induction n rule: nat_to_dec.induct)
  case (1 n)
  then show ?case by (subst nat_to_dec.simps) auto
qed

lemma dec_value_nat_to_dec: "dec_value (nat_to_dec n) = n"
proof (induction n rule: nat_to_dec.induct)
  case (1 n)
  then show ?case by (subst nat_to_dec.simps) (auto simp: dec_value_def)
qed

lemma nat_to_dec_nonempty [simp]: "nat_to_dec n \<noteq> []"
  by (subst nat_to_dec.simps) simp

lemma nat_to_dec_no_leading_zero: "hd (nat_to_dec n) = digit_char 0 \<Longrightarrow> n = 0"
proof (induction n rule: nat_to_dec.induct)
  case (1 n)
  show ?case
  proof (cases "n < 10")
    case True
    with 1 show ?thesis
      using of_char_digit_char [of n] of_char_digit_char [of 0] by (simp add: nat_to_dec.simps [of n])
  next
    case False
    with 1 have "n div 10 = 0" by (simp add: nat_to_dec.simps [of n])
    with False show ?thesis by simp
  qed
qed

lemma length_nat_to_dec_byte: "n < 256 \<Longrightarrow> length (nat_to_dec n) \<le> 3"
  by (subst nat_to_dec.simps, simp, subst nat_to_dec.simps, simp, subst nat_to_dec.simps, simp)

lemma is_digit_not_dot: "is_digit c \<Longrightarrow> c \<noteq> CHR ''.''"
  by (auto simp: is_digit_def)

lemma is_digit_not_space: "is_digit c \<Longrightarrow> \<not> is_ascii_space c"
  by (auto simp: is_digit_def is_ascii_space_def Let_def)

section \<open>Parsing unsigned integers\<close>

text \<open>
  \<open>from_str_radix\<close> and \<open>parse\<close> of Rust's unsigned types: one optional plus sign, at least
  one digit of the radix, no overflow.
\<close>

definition hex_digit :: "char \<Rightarrow> nat option" where
  "hex_digit c =
     (let n = (of_char c :: nat) in
      if 48 \<le> n \<and> n \<le> 57 then Some (n - 48)
      else if 97 \<le> n \<and> n \<le> 102 then Some (n - 87)
      else if 65 \<le> n \<and> n \<le> 70 then Some (n - 55) else None)"

definition radix_digit :: "nat \<Rightarrow> char \<Rightarrow> nat option" where
  "radix_digit radix c =
     (case hex_digit c of None \<Rightarrow> None | Some d \<Rightarrow> if d < radix then Some d else None)"

fun radix_value :: "nat \<Rightarrow> nat \<Rightarrow> string \<Rightarrow> nat option" where
  "radix_value radix acc [] = Some acc"
| "radix_value radix acc (c # s) =
     (case radix_digit radix c of None \<Rightarrow> None | Some d \<Rightarrow> radix_value radix (acc * radix + d) s)"

definition parse_radix :: "nat \<Rightarrow> nat \<Rightarrow> string \<Rightarrow> nat option" where
  "parse_radix radix bound s =
     (let t = (case s of c # r \<Rightarrow> if c = CHR ''+'' then r else s | [] \<Rightarrow> []) in
      if t = [] then None
      else case radix_value radix 0 t of
             None \<Rightarrow> None
           | Some n \<Rightarrow> if n < bound then Some n else None)"

definition parse_u8 :: "string \<Rightarrow> nat option" where
  "parse_u8 s = parse_radix 10 256 s"

definition parse_u16 :: "string \<Rightarrow> nat option" where
  "parse_u16 s = parse_radix 10 65536 s"

definition parse_u32 :: "string \<Rightarrow> nat option" where
  "parse_u32 s = parse_radix 10 4294967296 s"

lemma parse_radix_bound: "parse_radix radix bound s = Some n \<Longrightarrow> n < bound"
  by (auto simp: parse_radix_def Let_def split: list.splits if_splits option.splits)

lemma radix_digit_dec: "is_digit c \<Longrightarrow> radix_digit 10 c = Some (digit_value c)"
  by (auto simp: radix_digit_def hex_digit_def is_digit_def digit_value_def Let_def)

lemma radix_value_dec:
  "list_all is_digit s \<Longrightarrow> radix_value 10 acc s = Some (foldl (\<lambda>a c. a * 10 + digit_value c) acc s)"
  by (induction s arbitrary: acc) (auto simp: radix_digit_dec)

lemma parse_radix_dec:
  assumes "n < bound"
  shows "parse_radix 10 bound (nat_to_dec n) = Some n"
proof -
  have d: "list_all is_digit (nat_to_dec n)" by (rule nat_to_dec_digits)
  obtain c r where cr: "nat_to_dec n = c # r" by (cases "nat_to_dec n") auto
  with d have "c \<noteq> CHR ''+''" by (auto simp: is_digit_def)
  with d cr assms dec_value_nat_to_dec [of n] show ?thesis
    by (simp add: parse_radix_def Let_def radix_digit_dec radix_value_dec dec_value_def)
qed

section \<open>Integers\<close>

type_synonym u8 = "8 word"
type_synonym u16 = "16 word"
type_synonym u32 = "32 word"
type_synonym u64 = "64 word"

definition sat_add_u8 :: "u8 \<Rightarrow> u8 \<Rightarrow> u8" where
  "sat_add_u8 a b = (if unat a + unat b < 256 then a + b else 255)"

definition sat_sub_u32 :: "u32 \<Rightarrow> u32 \<Rightarrow> u32" where
  "sat_sub_u32 a b = (if a < b then 0 else a - b)"

lemma unat_sat_add_u8: "unat (sat_add_u8 a b) = min 255 (unat a + unat b)"
proof -
  have "unat (255 :: u8) = 255" by simp
  moreover have "unat (a + b) = unat a + unat b" if "unat a + unat b < 256"
    using that by (simp add: unat_word_ariths)
  ultimately show ?thesis by (auto simp: sat_add_u8_def)
qed

fun be_bytes :: "u8 list \<Rightarrow> nat" where
  "be_bytes [] = 0"
| "be_bytes (b # bs) = unat b * 256 ^ length bs + be_bytes bs"

lemma be_bytes_bound: "be_bytes bs < 256 ^ length bs"
proof (induction bs)
  case (Cons b bs)
  have "unat b < 256" using unsigned_less [of b, where 'a = nat] by simp
  then have "(unat b + 1) * 256 ^ length bs \<le> 256 * 256 ^ length bs"
    by (intro mult_le_mono1) simp
  with Cons.IH show ?case by (simp only: be_bytes.simps length_Cons power_Suc add_mult_distrib)
qed simp

section \<open>UTF-8\<close>

text \<open>
  \<open>String::from_utf8_lossy\<close>: valid sequences are kept; every maximal prefix of a sequence that
  cannot be completed becomes one replacement character.
\<close>

definition utf8_width :: "nat \<Rightarrow> nat" where
  "utf8_width b =
     (if b < 128 then 1 else if 194 \<le> b \<and> b \<le> 223 then 2
      else if 224 \<le> b \<and> b \<le> 239 then 3 else if 240 \<le> b \<and> b \<le> 244 then 4 else 0)"

definition utf8_second_ok :: "nat \<Rightarrow> nat \<Rightarrow> bool" where
  "utf8_second_ok b c =
     (if b = 224 then 160 \<le> c \<and> c \<le> 191
      else if b = 237 then 128 \<le> c \<and> c \<le> 159
      else if b = 240 then 144 \<le> c \<and> c \<le> 191
      else if b = 244 then 128 \<le> c \<and> c \<le> 143
      else 128 \<le> c \<and> c \<le> 191)"

fun take_cont :: "nat \<Rightarrow> u8 list \<Rightarrow> u8 list" where
  "take_cont 0 bs = []"
| "take_cont (Suc n) [] = []"
| "take_cont (Suc n) (b # bs) = (if 128 \<le> unat b \<and> unat b \<le> 191 then b # take_cont n bs else [])"

definition utf8_tail :: "u8 \<Rightarrow> u8 list \<Rightarrow> u8 list" where
  "utf8_tail b bs =
     (case bs of
        [] \<Rightarrow> []
      | c # cs \<Rightarrow> if utf8_width (unat b) < 2 \<or> \<not> utf8_second_ok (unat b) (unat c) then []
                  else c # take_cont (utf8_width (unat b) - 2) cs)"

definition REPLACEMENT :: "u8 list" where
  "REPLACEMENT = [239, 191, 189]"

lemma length_take_cont: "length (take_cont n bs) \<le> length bs"
  by (induction n bs rule: take_cont.induct) auto

lemma take_cont_take: "take_cont n bs = take (length (take_cont n bs)) bs"
  by (induction n bs rule: take_cont.induct) auto

lemma length_utf8_tail: "length (utf8_tail b bs) \<le> length bs"
  by (cases bs) (auto simp: utf8_tail_def length_take_cont)

function utf8_lossy :: "u8 list \<Rightarrow> u8 list" where
  "utf8_lossy [] = []"
| "utf8_lossy (b # bs) =
     (let tail = utf8_tail b bs; rest = drop (length tail) bs in
      if utf8_width (unat b) = length tail + 1 then (b # tail) @ utf8_lossy rest
      else REPLACEMENT @ utf8_lossy rest)"
  by pat_completeness auto

termination
  by (relation "measure length") (auto simp: le_imp_less_Suc)

definition bytes_to_string :: "u8 list \<Rightarrow> string" where
  "bytes_to_string bs = map (\<lambda>b. char_of (unat b)) bs"

definition string_bytes :: "string \<Rightarrow> u8 list" where
  "string_bytes s = map (\<lambda>c. word_of_nat (of_char c)) s"

text \<open>\<open>String::from_utf8\<close> accepts exactly the sequences that need no replacement.\<close>

function utf8_valid :: "u8 list \<Rightarrow> bool" where
  "utf8_valid [] = True"
| "utf8_valid (b # bs) =
     (let tail = utf8_tail b bs in
      utf8_width (unat b) = length tail + 1 \<and> utf8_valid (drop (length tail) bs))"
  by pat_completeness auto

termination
  by (relation "measure length") (auto simp: le_imp_less_Suc)

lemma utf8_valid_lossy: "utf8_valid bs \<Longrightarrow> utf8_lossy bs = bs"
proof (induction bs rule: utf8_valid.induct)
  case (2 b bs)
  have t: "utf8_tail b bs = take (length (utf8_tail b bs)) bs"
    by (cases bs) (auto simp: utf8_tail_def take_cont_take [symmetric])
  have "utf8_lossy (drop (length (utf8_tail b bs)) bs) = drop (length (utf8_tail b bs)) bs"
    using 2 by (simp add: Let_def)
  then have "utf8_tail b bs @ utf8_lossy (drop (length (utf8_tail b bs)) bs) = bs"
    using t append_take_drop_id by metis
  with 2(2) show ?case by (simp add: Let_def)
qed simp

lemma unat_of_char: "unat (word_of_nat (of_char (c :: char)) :: u8) = of_char c"
  by (simp add: unsigned_of_nat take_bit_nat_eq_self)

lemma bytes_of_string: "bytes_to_string (string_bytes s) = s"
  by (simp add: bytes_to_string_def string_bytes_def o_def unat_of_char)

end
