(* ===== verification/Kvm_Session.thy ===== *)
theory Kvm_Session
  imports Kvm_Prelude "HOL-Library.Multiset"
begin

text \<open>
  \<^verbatim>\<open>arkkvm/src/session.rs\<close>: the two client roles, the session object and the terminal
  slot a session owns. Peer connections, data channels and terminal handles are identified by
  numbers, which stand for the identity of the \<open>Arc\<close> the code holds.
\<close>

section \<open>Roles\<close>

datatype session_role = User | Agent

fun role_as_str :: "session_role \<Rightarrow> string" where
  "role_as_str User = ''user''"
| "role_as_str Agent = ''agent''"

definition role_parse :: "string \<Rightarrow> session_role option" where
  "role_parse s = (let t = to_ascii_lowercase (trim s) in
     if t = ''user'' then Some User else if t = ''agent'' then Some Agent else None)"

definition role_from_str :: "string \<Rightarrow> (string, session_role) result" where
  "role_from_str s = (case role_parse s of
     Some r \<Rightarrow> Inr r | None \<Rightarrow> Inl (''invalid session role: '' @ s))"

fun other_role :: "session_role \<Rightarrow> session_role" where
  "other_role User = Agent"
| "other_role Agent = User"

section \<open>Sessions\<close>

datatype terminal_slot = Open "nat option" | Closed

datatype ice_state = Unspecified | New | Checking | Connected | Completed | Disconnected | Failed | IceClosed

record session =
  s_id :: string
  s_role :: session_role
  s_peer :: "nat option"
  s_video_track :: "nat option"
  s_audio_track :: "nat option"
  s_video_ssrc :: "u32 option"
  s_audio_ssrc :: "u32 option"
  s_ice :: ice_state
  s_control_channel :: "nat option"
  s_rpc_channel :: "nat option"
  s_hid_channel :: "nat option"
  s_disk_channel :: "nat option"
  s_should_unmount :: bool
  s_is_cloud :: bool
  s_cloud_client_id :: "string option"
  s_channel_cache :: "(string, nat) hmap"
  s_username_fragment :: "string option"
  s_created_at :: nat
  s_terminal :: terminal_slot

definition session_new_with_role :: "nat \<Rightarrow> string \<Rightarrow> session_role \<Rightarrow> bool \<Rightarrow> session" where
  "session_new_with_role now i r is_cloud =
     \<lparr>s_id = i, s_role = r, s_peer = None, s_video_track = None, s_audio_track = None,
      s_video_ssrc = None, s_audio_ssrc = None, s_ice = Unspecified, s_control_channel = None,
      s_rpc_channel = None, s_hid_channel = None, s_disk_channel = None,
      s_should_unmount = False, s_is_cloud = is_cloud, s_cloud_client_id = None,
      s_channel_cache = [], s_username_fragment = None, s_created_at = now,
      s_terminal = Open None\<rparr>"

definition session_new :: "nat \<Rightarrow> string \<Rightarrow> session" where
  "session_new now i = session_new_with_role now i User False"

definition session_new_with_cloud :: "nat \<Rightarrow> string \<Rightarrow> bool \<Rightarrow> session" where
  "session_new_with_cloud now i is_cloud = session_new_with_role now i User is_cloud"

definition cache_channel :: "string \<Rightarrow> nat \<Rightarrow> session \<Rightarrow> session" where
  "cache_channel label c s = s\<lparr>s_channel_cache := hm_insert label c (s_channel_cache s)\<rparr>"

definition remove_channel :: "string \<Rightarrow> session \<Rightarrow> session" where
  "remove_channel label s = s\<lparr>s_channel_cache := hm_remove label (s_channel_cache s)\<rparr>"

section \<open>The terminal slot\<close>

text \<open>
  \<open>install_terminal\<close> returns the slot after the call, \<open>Inl h\<close> when the handle is handed
  back to the caller, and the handles the call stopped. \<open>stop_terminal\<close> closes the slot
  and returns the handle it stops and waits for.
\<close>

fun install_terminal :: "nat \<Rightarrow> terminal_slot \<Rightarrow> terminal_slot \<times> (nat, unit) result \<times> nat list" where
  "install_terminal h Closed = (Closed, Inl h, [])"
| "install_terminal h (Open None) = (Open (Some h), Inr (), [])"
| "install_terminal h (Open (Some prev)) = (Open (Some h), Inr (), [prev])"

fun stop_terminal :: "terminal_slot \<Rightarrow> terminal_slot \<times> nat option" where
  "stop_terminal (Open h) = (Closed, h)"
| "stop_terminal Closed = (Closed, None)"

text \<open>
  A slot's life: attach requests and teardowns in any order. The caller of a refused
  installation stops the handle it got back (\<open>handle_terminal_channel\<close>), so a refused
  handle counts as stopped.
\<close>

datatype terminal_op = InstallTerminal nat | StopTerminal

fun terminal_step :: "terminal_slot \<times> nat list \<Rightarrow> terminal_op \<Rightarrow> terminal_slot \<times> nat list" where
  "terminal_step (slot, stopped) (InstallTerminal h) =
     (case install_terminal h slot of
        (slot', Inl back, st) \<Rightarrow> (slot', stopped @ st @ [back])
      | (slot', Inr _, st) \<Rightarrow> (slot', stopped @ st))"
| "terminal_step (slot, stopped) StopTerminal =
     (case stop_terminal slot of
        (slot', Some h) \<Rightarrow> (slot', stopped @ [h])
      | (slot', None) \<Rightarrow> (slot', stopped))"

definition terminal_run :: "terminal_op list \<Rightarrow> terminal_slot \<times> nat list" where
  "terminal_run ops = foldl terminal_step (Open None, []) ops"

fun slot_handles :: "terminal_slot \<Rightarrow> nat list" where
  "slot_handles (Open (Some h)) = [h]"
| "slot_handles (Open None) = []"
| "slot_handles Closed = []"

fun installed_handles :: "terminal_op list \<Rightarrow> nat list" where
  "installed_handles [] = []"
| "installed_handles (InstallTerminal h # ops) = h # installed_handles ops"
| "installed_handles (StopTerminal # ops) = installed_handles ops"

section \<open>SDP user fragment\<close>

text \<open>
  \<open>exchange_offer\<close> caches the ICE user fragment of the local description: the first line
  with the attribute, without the attribute name and trimmed. \<open>str::lines\<close> splits at line
  feeds, drops one trailing carriage return of a line and a final empty line.
\<close>

definition strip_cr :: "string \<Rightarrow> string" where
  "strip_cr l = (if l \<noteq> [] \<and> of_char (last l) = (13::nat) then butlast l else l)"

definition str_lines :: "string \<Rightarrow> string list" where
  "str_lines s = (let ls = split_on (char_of (10::nat)) s in
     map strip_cr (if last ls = [] then butlast ls else ls))"

definition UFRAG_ATTR :: string where
  "UFRAG_ATTR = ''a=ice-ufrag:''"

definition cache_username_fragment :: "string \<Rightarrow> session \<Rightarrow> session" where
  "cache_username_fragment sdp s =
     (case find (\<lambda>l. starts_with l UFRAG_ATTR) (str_lines sdp) of
        None \<Rightarrow> s
      | Some l \<Rightarrow> s\<lparr>s_username_fragment := Some (trim (drop (length UFRAG_ATTR) l))\<rparr>)"

section \<open>Lemmas\<close>

lemma other_role_simps [simp]:
  "other_role (other_role r) = r" "other_role r \<noteq> r" "r \<noteq> other_role r"
  by (cases r; simp)+

lemma other_role_iff: "r \<noteq> r' \<longleftrightarrow> r = other_role r'"
  by (cases r; cases r'; simp)

lemma role_parse_as_str: "role_parse (role_as_str r) = Some r"
  by (cases r; hypsubst; code_simp)

lemma terminal_step_balance:
  assumes "terminal_step (slot, stopped) op = (slot', stopped')"
  shows "mset (slot_handles slot') + mset stopped' =
         mset (slot_handles slot) + mset stopped + mset (installed_handles [op])"
  using assms by (cases op; cases slot rule: slot_handles.cases) (auto split: prod.splits sum.splits option.splits)

lemma terminal_run_balance_from:
  "mset (slot_handles (fst (foldl terminal_step st ops))) + mset (snd (foldl terminal_step st ops)) =
   mset (slot_handles (fst st)) + mset (snd st) + mset (installed_handles ops)"
proof (induction ops arbitrary: st)
  case (Cons op ops)
  obtain slot stopped slot' stopped' where st: "st = (slot, stopped)"
    and st': "terminal_step st op = (slot', stopped')"
    by (cases st, cases "terminal_step st op") auto
  from terminal_step_balance [of slot stopped op slot' stopped'] st st' Cons.IH [of "terminal_step st op"]
  show ?case by (cases op) (auto simp: ac_simps)
qed simp

lemma closed_stays_closed: "fst (foldl terminal_step (Closed, st) ops) = Closed"
proof (induction ops arbitrary: st)
  case (Cons op ops)
  have "\<exists>st'. terminal_step (Closed, st) op = (Closed, st')"
    by (cases op) auto
  with Cons.IH show ?case by auto
qed simp

text \<open>
  No terminal leaks. In every interleaving of attach requests and teardowns that ends with
  a teardown, the handles stopped are exactly the handles that were ever handed to the session,
  each once: a handle that arrives after the teardown is refused and stopped by its caller, and
  a replaced handle is stopped on replacement.
\<close>

theorem terminal_no_leak:
  "mset (snd (terminal_run (ops @ [StopTerminal]))) = mset (installed_handles ops)
   \<and> fst (terminal_run (ops @ [StopTerminal])) = Closed"
proof -
  obtain slot stopped where r: "foldl terminal_step (Open None, []) ops = (slot, stopped)"
    by (cases "foldl terminal_step (Open None, []) ops")
  have "mset (slot_handles slot) + mset stopped = mset (installed_handles ops)"
    using terminal_run_balance_from [of "(Open None, [])" ops] r by simp
  then show ?thesis
    unfolding terminal_run_def foldl_append r
    by (cases slot rule: slot_handles.cases) (auto simp: ac_simps)
qed

end
