(* ===== verification/App_State.thy ===== *)
theory App_State
  imports Kvm_Session
begin

text \<open>
  \<^verbatim>\<open>arkkvm/src/state.rs\<close>: the registry of sessions, the per-role slots and the queue of
  ICE candidates. Sessions are shared objects (\<open>Arc<Session>\<close>) with interior mutability, so
  the model keeps them in a store \<open>heap\<close> and the registry maps ids to store addresses;
  \<open>Arc::ptr_eq\<close> is equality of addresses. The calls \<open>remove_session_inner\<close> and
  \<open>update_session_rpc_channel\<close> make into other modules are added in the theory that composes
  the components.
\<close>

datatype claim_role_result =
    Accepted "nat option"
  | RejectedOccupied
  | RejectedMcpDisabled
  | NotRegistered

datatype app_effect = FirstSessionConnected | LastSessionDisconnected

record app_state =
  heap :: "nat \<Rightarrow> session option"
  sessions :: "(string, nat) hmap"
  role_sessions :: "(session_role, string) hmap"
  websocket_ice_queue :: "(string, string list) hmap"

definition app_new :: app_state where
  "app_new = \<lparr>heap = (\<lambda>_. None), sessions = [], role_sessions = [], websocket_ice_queue = []\<rparr>"

section \<open>Lookups\<close>

definition get_session_by_id :: "app_state \<Rightarrow> string \<Rightarrow> nat option" where
  "get_session_by_id a i = hm_get (sessions a) i"

definition session_at :: "app_state \<Rightarrow> string \<Rightarrow> session option" where
  "session_at a i = Option.bind (get_session_by_id a i) (heap a)"

definition get_session_for_role :: "app_state \<Rightarrow> session_role \<Rightarrow> nat option" where
  "get_session_for_role a r =
     (case hm_get (role_sessions a) r of None \<Rightarrow> None | Some i \<Rightarrow> get_session_by_id a i)"

definition get_role_slot_id :: "app_state \<Rightarrow> session_role \<Rightarrow> string option" where
  "get_role_slot_id a r = hm_get (role_sessions a) r"

definition has_any_session :: "app_state \<Rightarrow> bool" where
  "has_any_session a = (sessions a \<noteq> [] \<or> role_sessions a \<noteq> [])"

definition is_role_slot_holder :: "app_state \<Rightarrow> string \<Rightarrow> bool" where
  "is_role_slot_holder a i = list_ex (\<lambda>j. j = i) (map snd (role_sessions a))"

definition session_count :: "app_state \<Rightarrow> nat" where
  "session_count a = length (sessions a)"

definition session_owns_peer :: "app_state \<Rightarrow> string \<Rightarrow> nat \<Rightarrow> bool" where
  "session_owns_peer a i peer =
     (case session_at a i of None \<Rightarrow> False | Some s \<Rightarrow> s_peer s = Some peer)"

section \<open>Registration\<close>

definition add_session :: "nat \<Rightarrow> session \<Rightarrow> app_state \<Rightarrow> app_state \<times> nat option \<times> app_effect list" where
  "add_session p s a =
     (let previous = hm_get (sessions a) (s_id s);
          sess = hm_insert (s_id s) p (sessions a);
          count = length sess;
          a' = a\<lparr>heap := (heap a)(p \<mapsto> s), sessions := sess\<rparr>
      in (a', previous,
          if previous = None \<and> count = 1 then [FirstSessionConnected] else []))"

definition matches_expected_peer :: "app_state \<Rightarrow> string \<Rightarrow> nat option \<Rightarrow> bool" where
  "matches_expected_peer a i expected =
     (case session_at a i of
        None \<Rightarrow> False
      | Some s \<Rightarrow> (case expected of None \<Rightarrow> True | Some e \<Rightarrow> s_peer s = Some e))"

definition remove_session_app ::
  "string \<Rightarrow> nat option \<Rightarrow> app_state \<Rightarrow> app_state \<times> nat option \<times> app_effect list" where
  "remove_session_app i expected a =
     (if matches_expected_peer a i expected
      then let removed = hm_get (sessions a) i;
               sess = hm_remove i (sessions a);
               a' = a\<lparr>sessions := sess,
                      role_sessions := hm_retain (\<lambda>_ j. j \<noteq> i) (role_sessions a)\<rparr>
           in (a', removed, if length sess = 0 then [LastSessionDisconnected] else [])
      else (a, None, []))"

section \<open>Role slots\<close>

definition claim_role_slot :: "nat \<Rightarrow> app_state \<Rightarrow> app_state \<times> claim_role_result" where
  "claim_role_slot p a =
     (case heap a p of
        None \<Rightarrow> (a, NotRegistered)
      | Some s \<Rightarrow>
          if hm_get (sessions a) (s_id s) \<noteq> Some p then (a, NotRegistered)
          else let r = s_role s;
                   a' = a\<lparr>role_sessions := hm_insert r (s_id s) (role_sessions a)\<rparr>
               in case hm_get (role_sessions a) r of
                    None \<Rightarrow> (a', Accepted None)
                  | Some existing \<Rightarrow>
                      if existing = s_id s then (a, Accepted None)
                      else if r = Agent then (a, RejectedOccupied)
                      else (a', Accepted (hm_get (sessions a) existing)))"

definition set_role_slot_if_none :: "session_role \<Rightarrow> string \<Rightarrow> app_state \<Rightarrow> app_state \<times> bool" where
  "set_role_slot_if_none r i a =
     (case hm_get (role_sessions a) r of
        Some _ \<Rightarrow> (a, False)
      | None \<Rightarrow> (a\<lparr>role_sessions := hm_insert r i (role_sessions a)\<rparr>, True))"

definition clear_role_slot_if :: "session_role \<Rightarrow> string \<Rightarrow> app_state \<Rightarrow> app_state \<times> bool" where
  "clear_role_slot_if r i a =
     (if hm_get (role_sessions a) r \<noteq> Some i then (a, False)
      else (a\<lparr>role_sessions := hm_remove r (role_sessions a)\<rparr>, True))"

section \<open>RPC channel and ICE candidates\<close>

definition set_rpc_channel :: "string \<Rightarrow> nat \<Rightarrow> app_state \<Rightarrow> app_state \<times> nat option" where
  "set_rpc_channel i c a =
     (case get_session_by_id a i of
        None \<Rightarrow> (a, None)
      | Some p \<Rightarrow>
          (a\<lparr>heap := (heap a)(p := map_option (\<lambda>s. s\<lparr>s_rpc_channel := Some c\<rparr>) (heap a p))\<rparr>, Some p))"

definition MAX_ICE_CANDIDATES :: nat where
  "MAX_ICE_CANDIDATES = 20"

definition queue_ice_candidate :: "string \<Rightarrow> string \<Rightarrow> app_state \<Rightarrow> app_state" where
  "queue_ice_candidate i c a =
     (let q = (case hm_get (websocket_ice_queue a) i of None \<Rightarrow> [] | Some q \<Rightarrow> q);
          q' = (if length q \<ge> MAX_ICE_CANDIDATES then tl q else q)
      in a\<lparr>websocket_ice_queue := hm_insert i (q' @ [c]) (websocket_ice_queue a)\<rparr>)"

definition get_ice_candidates :: "string \<Rightarrow> app_state \<Rightarrow> app_state \<times> string list" where
  "get_ice_candidates i a =
     (a\<lparr>websocket_ice_queue := hm_remove i (websocket_ice_queue a)\<rparr>,
      case hm_get (websocket_ice_queue a) i of None \<Rightarrow> [] | Some q \<Rightarrow> q)"

section \<open>Invariant\<close>

text \<open>
  Registered addresses are live and filed under the id of their session; a role slot names a
  registered session of that role; no ICE queue is longer than its limit.
\<close>

definition registry_ok :: "app_state \<Rightarrow> bool" where
  "registry_ok a = (hm_wf (sessions a) \<and>
     (\<forall>i p. hm_get (sessions a) i = Some p \<longrightarrow> (\<exists>s. heap a p = Some s \<and> s_id s = i)))"

definition slots_ok :: "app_state \<Rightarrow> bool" where
  "slots_ok a = (hm_wf (role_sessions a) \<and>
     (\<forall>r i. hm_get (role_sessions a) r = Some i \<longrightarrow> (\<exists>s. session_at a i = Some s \<and> s_role s = r)))"

definition ice_ok :: "app_state \<Rightarrow> bool" where
  "ice_ok a = (hm_wf (websocket_ice_queue a) \<and>
     (\<forall>i q. hm_get (websocket_ice_queue a) i = Some q \<longrightarrow> length q \<le> MAX_ICE_CANDIDATES))"

definition app_inv :: "app_state \<Rightarrow> bool" where
  "app_inv a = (registry_ok a \<and> slots_ok a \<and> ice_ok a)"

text \<open>
  What the registry relies on when a session is added: the \<open>Arc\<close> is a new object, and an offer that
  reuses the id of a registered session has its role. The second is not checked by the code: the
  signalling connection takes the role from each offer.
\<close>

definition keeps_role :: "session \<Rightarrow> app_state \<Rightarrow> bool" where
  "keeps_role s a = (\<forall>s'. session_at a (s_id s) = Some s' \<longrightarrow> s_role s' = s_role s)"

definition steady_registration :: "nat \<Rightarrow> session \<Rightarrow> app_state \<Rightarrow> bool" where
  "steady_registration p s a = (heap a p = None \<and> keeps_role s a)"

lemmas app_defs = get_session_by_id_def session_at_def get_session_for_role_def
  add_session_def remove_session_app_def claim_role_slot_def set_role_slot_if_none_def
  clear_role_slot_if_def set_rpc_channel_def queue_ice_candidate_def get_ice_candidates_def
  matches_expected_peer_def

lemma is_role_slot_holder_iff:
  "hm_wf (role_sessions a) \<Longrightarrow> is_role_slot_holder a i \<longleftrightarrow> (\<exists>r. hm_get (role_sessions a) r = Some i)"
  by (force simp: is_role_slot_holder_def list_ex_iff hm_get_def hm_wf_def)

lemma app_inv_new: "app_inv app_new"
  by (simp add: app_inv_def registry_ok_def slots_ok_def ice_ok_def app_new_def)

lemma registry_live:
  "registry_ok a \<Longrightarrow> hm_get (sessions a) i = Some p \<Longrightarrow> \<exists>s. heap a p = Some s \<and> s_id s = i"
  by (simp add: registry_ok_def)

lemma session_at_id: "app_inv a \<Longrightarrow> session_at a i = Some s \<Longrightarrow> s_id s = i"
  by (auto simp: app_inv_def session_at_def get_session_by_id_def bind_eq_Some_conv dest!: registry_live)

lemma session_at_registered:
  "app_inv a \<Longrightarrow> hm_get (sessions a) i = Some p \<Longrightarrow> \<exists>s. session_at a i = Some s \<and> heap a p = Some s"
  by (auto simp: app_inv_def registry_ok_def session_at_def get_session_by_id_def)

lemma slot_role:
  "app_inv a \<Longrightarrow> hm_get (role_sessions a) r = Some i \<Longrightarrow> \<exists>s. session_at a i = Some s \<and> s_role s = r"
  by (auto simp: app_inv_def slots_ok_def)

lemma slot_wf: "app_inv a \<Longrightarrow> hm_wf (role_sessions a)"
  by (simp add: app_inv_def slots_ok_def)

text \<open>Every operation of the registry keeps the invariant.\<close>

lemma session_at_add:
  assumes "steady_registration p s a" "registry_ok a"
  shows "session_at (fst (add_session p s a)) i = (if i = s_id s then Some s else session_at a i)"
proof -
  have "hm_get (sessions a) i \<noteq> Some p"
    using assms registry_live [of a i p] by (auto simp: steady_registration_def keeps_role_def)
  then show ?thesis
    by (cases "hm_get (sessions a) i")
       (auto simp: session_at_def get_session_by_id_def add_session_def Let_def)
qed

lemma add_session_inv [inv_intros]:
  assumes "app_inv a" "steady_registration p s a"
  shows "app_inv (fst (add_session p s a))"
proof -
  from assms have wf: "registry_ok a" "slots_ok a" "ice_ok a" by (auto simp: app_inv_def)
  let ?a = "fst (add_session p s a)"
  have "registry_ok ?a"
    unfolding registry_ok_def
  proof (intro conjI allI impI)
    show "hm_wf (sessions ?a)" using wf(1) by (simp add: registry_ok_def add_session_def Let_def)
    fix i q assume "hm_get (sessions ?a) i = Some q"
    with registry_live [OF wf(1), of i q] assms(2) show "\<exists>s'. heap ?a q = Some s' \<and> s_id s' = i"
      by (auto simp: add_session_def Let_def steady_registration_def keeps_role_def split: if_splits)
  qed
  moreover have "slots_ok ?a"
    unfolding slots_ok_def session_at_add [OF assms(2) wf(1)]
  proof (intro conjI allI impI)
    have roles: "role_sessions ?a = role_sessions a" by (simp add: add_session_def Let_def)
    with wf(2) show "hm_wf (role_sessions ?a)" by (simp add: slots_ok_def)
    fix r i assume "hm_get (role_sessions ?a) r = Some i"
    with roles wf(2) obtain s' where "session_at a i = Some s'" "s_role s' = r"
      by (auto simp: slots_ok_def)
    with assms(2) show "\<exists>s'. (if i = s_id s then Some s else session_at a i) = Some s' \<and> s_role s' = r"
      by (auto simp: steady_registration_def keeps_role_def)
  qed
  moreover have "ice_ok ?a"
    using wf(3) by (simp add: ice_ok_def add_session_def Let_def)
  ultimately show ?thesis by (simp add: app_inv_def)
qed

lemma remove_session_app_inv [inv_intros]:
  assumes "app_inv a"
  shows "app_inv (fst (remove_session_app i e a))"
  using assms
  by (auto simp: app_inv_def registry_ok_def slots_ok_def ice_ok_def remove_session_app_def Let_def
      session_at_def get_session_by_id_def)

lemma insert_slot_inv:
  assumes "app_inv a" "session_at a i = Some s" "s_role s = r"
  shows "app_inv (a\<lparr>role_sessions := hm_insert r i (role_sessions a)\<rparr>)"
  using assms by (auto simp: app_inv_def registry_ok_def slots_ok_def ice_ok_def session_at_def
      get_session_by_id_def)

lemma claim_role_slot_inv [inv_intros]:
  assumes "app_inv a"
  shows "app_inv (fst (claim_role_slot p a))"
proof -
  have "app_inv (a\<lparr>role_sessions := hm_insert (s_role s) (s_id s) (role_sessions a)\<rparr>)"
    if "heap a p = Some s" "hm_get (sessions a) (s_id s) = Some p" for s
    by (rule insert_slot_inv [OF assms]) (use that in \<open>auto simp: session_at_def get_session_by_id_def\<close>)
  with assms show ?thesis
    by (auto simp: claim_role_slot_def Let_def split: option.splits)
qed

lemma set_role_slot_inv [inv_intros]:
  "app_inv a \<Longrightarrow> session_at a i = Some s \<Longrightarrow> s_role s = r \<Longrightarrow>
   app_inv (fst (set_role_slot_if_none r i a))"
  by (auto simp: set_role_slot_if_none_def insert_slot_inv split: option.splits)

lemma clear_role_slot_inv [inv_intros]: "app_inv a \<Longrightarrow> app_inv (fst (clear_role_slot_if r i a))"
  by (auto simp: clear_role_slot_if_def app_inv_def registry_ok_def slots_ok_def ice_ok_def
      session_at_def get_session_by_id_def)

text \<open>Interior mutation of a session that keeps its id and role keeps the invariant.\<close>

lemma heap_update_inv:
  assumes "app_inv a"
    and "\<And>p s. heap a p = Some s \<Longrightarrow> \<exists>s'. h p = Some s' \<and> s_id s' = s_id s \<and> s_role s' = s_role s"
  shows "app_inv (a\<lparr>heap := h\<rparr>)"
proof -
  from assms(1) have wf: "registry_ok a" "slots_ok a" "ice_ok a" by (auto simp: app_inv_def)
  have "registry_ok (a\<lparr>heap := h\<rparr>)"
    using wf(1) assms(2) by (auto simp: registry_ok_def) metis
  moreover have "slots_ok (a\<lparr>heap := h\<rparr>)"
    using wf(2) assms(2)
    by (auto simp: slots_ok_def session_at_def get_session_by_id_def bind_eq_Some_conv) metis
  moreover have "ice_ok (a\<lparr>heap := h\<rparr>)" using wf(3) by (simp add: ice_ok_def)
  ultimately show ?thesis by (simp add: app_inv_def)
qed

lemma set_rpc_channel_inv [inv_intros]: "app_inv a \<Longrightarrow> app_inv (fst (set_rpc_channel i c a))"
  by (auto simp: set_rpc_channel_def intro!: heap_update_inv split: option.splits)

lemma queue_ice_candidate_inv [inv_intros]:
  assumes "app_inv a"
  shows "app_inv (queue_ice_candidate i c a)"
proof -
  define q where "q = (case hm_get (websocket_ice_queue a) i of None \<Rightarrow> [] | Some q \<Rightarrow> q)"
  have "length q \<le> 20"
    using assms by (auto simp: q_def app_inv_def ice_ok_def MAX_ICE_CANDIDATES_def split: option.splits)
  then have "length ((if length q \<ge> MAX_ICE_CANDIDATES then tl q else q) @ [c]) \<le> MAX_ICE_CANDIDATES"
    by (simp add: MAX_ICE_CANDIDATES_def)
  with assms show ?thesis
    by (simp add: queue_ice_candidate_def q_def [symmetric] Let_def app_inv_def registry_ok_def
        slots_ok_def ice_ok_def session_at_def get_session_by_id_def split: if_splits del: length_append)
qed

lemma get_ice_candidates_inv [inv_intros]: "app_inv a \<Longrightarrow> app_inv (fst (get_ice_candidates i a))"
  by (auto simp: get_ice_candidates_def app_inv_def registry_ok_def slots_ok_def ice_ok_def
      session_at_def get_session_by_id_def split: option.splits)

section \<open>Behaviour of the operations\<close>

text \<open>
  The bounded candidate queue as a list function: append, and when the queue is full drop its
  oldest entry first.
\<close>

lemma queue_ice_candidate_get:
  "hm_get (websocket_ice_queue (queue_ice_candidate i c a)) j =
     (if j = i
      then Some ((let q = snd (get_ice_candidates i a)
                  in if MAX_ICE_CANDIDATES \<le> length q then tl q else q) @ [c])
      else hm_get (websocket_ice_queue a) j)"
  by (auto simp: queue_ice_candidate_def get_ice_candidates_def Let_def split: option.splits)

lemma queue_ice_candidates_window:
  assumes "length (snd (get_ice_candidates i a)) \<le> MAX_ICE_CANDIDATES"
  shows "snd (get_ice_candidates i (fold (queue_ice_candidate i) cs a)) =
    (let q = snd (get_ice_candidates i a) @ cs in drop (length q - MAX_ICE_CANDIDATES) q)"
  using assms
proof (induction cs arbitrary: a)
  case (Cons c cs)
  let ?q = "snd (get_ice_candidates i a)"
  let ?a = "queue_ice_candidate i c a"
  have q': "snd (get_ice_candidates i ?a) = (if MAX_ICE_CANDIDATES \<le> length ?q then tl ?q else ?q) @ [c]"
    using queue_ice_candidate_get [of i c a i] by (simp add: get_ice_candidates_def Let_def)
  have "length (snd (get_ice_candidates i ?a)) \<le> MAX_ICE_CANDIDATES"
    using Cons.prems by (auto simp: q' MAX_ICE_CANDIDATES_def)
  with Cons.IH [of ?a] have "snd (get_ice_candidates i (fold (queue_ice_candidate i) (c # cs) a)) =
    (let q = snd (get_ice_candidates i ?a) @ cs in drop (length q - MAX_ICE_CANDIDATES) q)"
    by simp
  also have "\<dots> = (let q = ?q @ c # cs in drop (length q - MAX_ICE_CANDIDATES) q)"
  proof (cases "MAX_ICE_CANDIDATES \<le> length ?q")
    case True
    with Cons.prems have "length ?q = MAX_ICE_CANDIDATES" by simp
    then show ?thesis
      by (cases ?q) (auto simp: q' Let_def MAX_ICE_CANDIDATES_def)
  next
    case False
    then show ?thesis by (simp add: q' Let_def)
  qed
  finally show ?case .
qed (simp add: Let_def)

text \<open>
  The ICE candidate queue is a sliding window. From a consistent state with nothing queued
  for a connection, queueing any list of candidates and collecting them returns the last twenty
  in their order (all of them when there are at most twenty), and a second collection returns
  nothing.
\<close>

theorem ice_queue_window:
  assumes "app_inv a" and "snd (get_ice_candidates i a) = []"
  shows "snd (get_ice_candidates i (fold (queue_ice_candidate i) cs a)) = drop (length cs - 20) cs
    \<and> snd (get_ice_candidates i (fst (get_ice_candidates i (fold (queue_ice_candidate i) cs a)))) = []
    \<and> app_inv (fold (queue_ice_candidate i) cs a)"
proof -
  have "app_inv (fold (queue_ice_candidate i) cs a)" using assms(1)
    by (induction cs arbitrary: a) (auto intro: inv_intros)
  moreover have "snd (get_ice_candidates i (fst (get_ice_candidates i b))) = []" for b
    by (simp add: get_ice_candidates_def)
  ultimately show ?thesis
    using queue_ice_candidates_window [of i a cs] assms(2) by (simp add: MAX_ICE_CANDIDATES_def Let_def)
qed

theorem ice_queue_window_witness:
  "snd (get_ice_candidates ''s'' (fold (queue_ice_candidate ''s'') (replicate 21 ''c'') app_new))
     = replicate 20 ''c''"
proof -
  have "snd (get_ice_candidates ''s'' app_new) = []"
    by (simp add: get_ice_candidates_def app_new_def)
  from ice_queue_window [OF app_inv_new this, of "replicate 21 ''c''"] show ?thesis
    by (simp add: eval_nat_numeral)
qed

text \<open>
  Slot claims. A claim by a registered session is answered according to the role: a free
  slot or the session's own slot is accepted without a predecessor, an agent never displaces
  another agent, and a user takes over and gets the registered session it displaced. When the
  claim is accepted the slot names the claiming session, otherwise nothing changes; the other
  role's slot is untouched in every case.
\<close>

theorem claim_role_slot_cases:
  assumes "heap a p = Some s" and "hm_get (sessions a) (s_id s) = Some p"
  shows "case claim_role_slot p a of (a', res) \<Rightarrow>
     (case get_role_slot_id a (s_role s) of
        None \<Rightarrow> res = Accepted None
      | Some i \<Rightarrow> if i = s_id s then res = Accepted None
                  else if s_role s = Agent then res = RejectedOccupied
                  else res = Accepted (get_session_by_id a i))
     \<and> (res \<noteq> RejectedOccupied \<longrightarrow> get_role_slot_id a' (s_role s) = Some (s_id s))
     \<and> (res = RejectedOccupied \<longrightarrow> a' = a)
     \<and> get_role_slot_id a' (other_role (s_role s)) = get_role_slot_id a (other_role (s_role s))
     \<and> sessions a' = sessions a"
  using assms
  by (auto simp: claim_role_slot_def get_role_slot_id_def get_session_by_id_def Let_def
      split: option.splits)

theorem claim_role_slot_cases_witness:
  "let s1 = session_new 0 ''u1''; s2 = session_new 0 ''u2'';
       a = fst (claim_role_slot 1 (fst (add_session 2 s2 (fst (add_session 1 s1 app_new)))))
   in snd (claim_role_slot 2 a) = Accepted (Some 1)"
  using claim_role_slot_cases [of "fst (claim_role_slot 1 (fst (add_session 2 (session_new 0 ''u2'')
    (fst (add_session 1 (session_new 0 ''u1'') app_new)))))" 2 "session_new 0 ''u2''"]
  by (simp add: claim_role_slot_def add_session_def app_new_def session_new_def Let_def
      session_new_with_role_def get_role_slot_id_def get_session_by_id_def)

text \<open>
  Delayed callbacks are harmless. Removing a session on behalf of a peer connection that is
  not the one registered under the id leaves the whole registry as it was and reports nothing
  removed, so a late callback of an old connection cannot evict the session that replaced it.
\<close>

theorem stale_peer_removal_noop:
  assumes "\<not> session_owns_peer a i peer"
  shows "remove_session_app i (Some peer) a = (a, None, [])"
  using assms
  by (auto simp: remove_session_app_def matches_expected_peer_def session_owns_peer_def
      split: option.splits)

theorem stale_peer_removal_noop_witness:
  "let s = (session_new 0 ''x'')\<lparr>s_peer := Some 7\<rparr>; a = fst (add_session 1 s app_new)
   in remove_session_app ''x'' (Some 6) a = (a, None, []) \<and> snd (snd (remove_session_app ''x'' (Some 7) a)) = [LastSessionDisconnected]"
  using stale_peer_removal_noop [of "fst (add_session 1 ((session_new 0 ''x'')\<lparr>s_peer := Some 7\<rparr>) app_new)" "''x''" 6]
  by (simp add: session_owns_peer_def session_at_def get_session_by_id_def add_session_def app_new_def
      session_new_def session_new_with_role_def Let_def remove_session_app_def matches_expected_peer_def
      hm_remove_def hm_insert_def)

end
