(* ===== verification/Control_Lease.thy ===== *)
theory Control_Lease
  imports App_State
begin

text \<open>
  \<^verbatim>\<open>arkkvm/src/control_lease.rs\<close>: which role may inject input. The lease has an owner
  and at most one pending request with a cancellable 120 s timer. Every public handler reads the
  facts it needs from the application state and then runs one section under the lease lock; the
  section is a function of its own here (\<open>..._locked\<close>), with the facts read before the lock
  (who is online, whether MCP is enabled, the clock, the new UUID) as arguments, so the
  properties of the sections hold for stale facts too. Instants are nanoseconds.
\<close>

section \<open>State\<close>

datatype timeout_policy = GrantRequester | DenyRequester

record pending_request =
  pr_request_id :: string
  pr_requester :: session_role
  pr_policy :: timeout_policy
  pr_generation :: u64
  pr_deadline :: nat
  pr_reason :: string

text \<open>\<open>ControlState\<close> together with the static counter \<open>GENERATION\<close>.\<close>

record lease =
  l_owner :: "session_role option"
  l_pending :: "pending_request option"
  l_generation :: u64

definition lease_default :: lease where
  "lease_default = \<lparr>l_owner = None, l_pending = None, l_generation = 1\<rparr>"

definition CONTROL_TIMEOUT :: nat where
  "CONTROL_TIMEOUT = 120 * 10 ^ 9"

definition CONTROL_DENIED :: string where "CONTROL_DENIED = ''controlDenied''"

definition CONTROL_BUSY :: string where "CONTROL_BUSY = ''controlBusy''"

definition CONTROL_STALE :: string where "CONTROL_STALE = ''controlStale''"

definition MCP_DISABLED :: string where "MCP_DISABLED = ''mcpDisabled''"

record pending_view =
  pv_request_id :: string
  pv_requester :: string
  pv_reason :: string
  pv_deadline_ms :: nat
  pv_timeout_policy :: string

record control_state_view =
  cv_owner :: "string option"
  cv_pending :: "pending_view option"

datatype control_event =
    Changed "session_role option" string
  | Conflict control_state_view
  | ConflictHint control_state_view string

fun policy_str :: "timeout_policy \<Rightarrow> string" where
  "policy_str GrantRequester = ''grantRequester''"
| "policy_str DenyRequester = ''denyRequester''"

definition snapshot :: "nat \<Rightarrow> lease \<Rightarrow> control_state_view" where
  "snapshot now l =
     \<lparr>cv_owner = map_option role_as_str (l_owner l),
      cv_pending = map_option (\<lambda>p.
        \<lparr>pv_request_id = pr_request_id p, pv_requester = role_as_str (pr_requester p),
         pv_reason = pr_reason p,
         pv_deadline_ms = ((pr_deadline p - now) div 10 ^ 6) mod 2 ^ 64,
         pv_timeout_policy = policy_str (pr_policy p)\<rparr>) (l_pending l)\<rparr>"

section \<open>Shared helpers\<close>

definition next_generation :: "lease \<Rightarrow> u64 \<times> lease" where
  "next_generation l = (l_generation l, l\<lparr>l_generation := l_generation l + 1\<rparr>)"

definition clear_pending_locked :: "lease \<Rightarrow> lease" where
  "clear_pending_locked l =
     (case l_pending l of
        None \<Rightarrow> l
      | Some _ \<Rightarrow> snd (next_generation (l\<lparr>l_pending := None\<rparr>)))"

definition make_pending ::
  "nat \<Rightarrow> string \<Rightarrow> session_role \<Rightarrow> timeout_policy \<Rightarrow> string \<Rightarrow> lease \<Rightarrow> pending_request \<times> lease" where
  "make_pending now uuid r pol reason l =
     (case next_generation l of (g, l') \<Rightarrow>
        (\<lparr>pr_request_id = uuid, pr_requester = r, pr_policy = pol, pr_generation = g,
          pr_deadline = now + CONTROL_TIMEOUT, pr_reason = reason\<rparr>, l'))"

definition can_grant :: "session_role \<Rightarrow> session_role \<Rightarrow> bool" where
  "can_grant requester responder = (requester \<noteq> responder)"

definition role_still_online :: "app_state \<Rightarrow> session_role \<Rightarrow> bool" where
  "role_still_online a r = (get_session_for_role a r \<noteq> None)"

definition owner_online :: "bool \<Rightarrow> bool \<Rightarrow> session_role option \<Rightarrow> bool" where
  "owner_online user_online agent_online ow =
     (case ow of Some User \<Rightarrow> user_online | Some Agent \<Rightarrow> agent_online | None \<Rightarrow> False)"

section \<open>Claims and departures\<close>

definition on_role_claimed_locked ::
  "nat \<Rightarrow> session_role \<Rightarrow> bool \<Rightarrow> bool \<Rightarrow> bool \<Rightarrow> lease \<Rightarrow> lease \<times> control_event list" where
  "on_role_claimed_locked now r previous_user user_online agent_online l =
     (case r of
        User \<Rightarrow>
          if previous_user
          then ((clear_pending_locked l)\<lparr>l_owner := Some User\<rparr>, [Changed (Some User) ''userTakeover''])
          else if l_owner l = Some Agent \<and> agent_online
          then (l, [ConflictHint (snapshot now l) ''agentHasControl''])
          else ((clear_pending_locked l)\<lparr>l_owner := Some User\<rparr>, [Changed (Some User) ''userClaimed''])
      | Agent \<Rightarrow>
          if l_owner l = None \<or> \<not> owner_online user_online agent_online (l_owner l)
          then ((clear_pending_locked l)\<lparr>l_owner := Some Agent\<rparr>, [Changed (Some Agent) ''agentClaimed''])
          else (l, []))"

definition on_session_removed_locked ::
  "session_role \<Rightarrow> bool \<Rightarrow> bool \<Rightarrow> lease \<Rightarrow> lease \<times> control_event list" where
  "on_session_removed_locked r user_online agent_online l =
     (let role_online = (case r of User \<Rightarrow> user_online | Agent \<Rightarrow> agent_online);
          owner_gone = (l_owner l = Some r \<and> \<not> role_online);
          requester_gone = (case l_pending l of
             None \<Rightarrow> False | Some p \<Rightarrow> pr_requester p = r \<and> \<not> role_online);
          (l1, ev1) = (if requester_gone
             then (clear_pending_locked l, [Changed (l_owner l) ''requesterDisconnected''])
             else (l, []))
      in if owner_gone
         then let new_owner = (if user_online then Some User
                               else if agent_online then Some Agent else None)
              in ((clear_pending_locked l1)\<lparr>l_owner := new_owner\<rparr>,
                  ev1 @ [Changed new_owner ''ownerDisconnected''])
         else (l1, ev1))"

section \<open>Arbitration\<close>

definition request_policy :: "session_role option \<Rightarrow> session_role \<Rightarrow> timeout_policy" where
  "request_policy ow r = (if ow = Some User \<and> r = Agent then GrantRequester else DenyRequester)"

definition request_reason :: "session_role option \<Rightarrow> session_role \<Rightarrow> string" where
  "request_reason ow r =
     (if ow = Some User \<and> r = Agent then ''humanHasControl''
      else if ow = Some Agent \<and> r = User then ''agentHasControl''
      else ''controlConflict'')"

text \<open>
  The result of a request: the reply, the lease, the timer to spawn (generation and request id)
  and the notifications in the order they are sent.
\<close>

definition request_control_locked ::
  "session_role \<Rightarrow> bool \<Rightarrow> bool \<Rightarrow> nat \<Rightarrow> string \<Rightarrow> lease
     \<Rightarrow> (string, control_state_view) result \<times> lease \<times> (u64 \<times> string) option \<times> control_event list" where
  "request_control_locked r user_online agent_online now uuid l =
     (if l_owner l = Some r then (Inr (snapshot now l), l, None, [])
      else if l_owner l = None \<or> \<not> owner_online user_online agent_online (l_owner l)
      then let l' = (clear_pending_locked l)\<lparr>l_owner := Some r\<rparr>
           in (Inr (snapshot now l'), l', None, [Changed (Some r) ''requestControlVacant''])
      else case l_pending l of
        Some p \<Rightarrow>
          if pr_requester p = r then (Inr (snapshot now l), l, None, [])
          else (Inl (CONTROL_BUSY @ '': arbitration already in progress''), l, None, [])
      | None \<Rightarrow>
          (case make_pending now uuid r (request_policy (l_owner l) r) (request_reason (l_owner l) r) l of
             (p, l1) \<Rightarrow>
               let l' = l1\<lparr>l_pending := Some p\<rparr>; view = snapshot now l'
               in (Inr view, l', Some (pr_generation p, pr_request_id p), [Conflict view])))"

definition request_control ::
  "app_state \<Rightarrow> bool \<Rightarrow> nat \<Rightarrow> string \<Rightarrow> string \<Rightarrow> lease
     \<Rightarrow> (string, control_state_view) result \<times> lease \<times> (u64 \<times> string) option \<times> control_event list" where
  "request_control a mcp_enabled now uuid sid l =
     (case session_at a sid of
        None \<Rightarrow> (Inl ''session not found'', l, None, [])
      | Some s \<Rightarrow>
          if \<not> is_role_slot_holder a sid
          then (Inl ''session is not the role slot holder'', l, None, [])
          else if s_role s = Agent \<and> \<not> mcp_enabled
          then (Inl (MCP_DISABLED @ '': enable MCP on the device before agent control''), l, None, [])
          else request_control_locked (s_role s) (role_still_online a User)
                 (role_still_online a Agent) now uuid l)"

definition resolve_pending_locked ::
  "nat \<Rightarrow> session_role \<Rightarrow> string option \<Rightarrow> bool \<Rightarrow> lease
     \<Rightarrow> (string, control_state_view) result \<times> lease \<times> control_event list" where
  "resolve_pending_locked now responder request_id grant l =
     (case l_pending l of
        None \<Rightarrow> (Inl (CONTROL_STALE @ '': no pending control request''), l, [])
      | Some p \<Rightarrow>
          if (case request_id of None \<Rightarrow> False | Some i \<Rightarrow> i \<noteq> pr_request_id p)
          then (Inl (CONTROL_STALE @ '': requestId mismatch''), l, [])
          else if grant \<and> \<not> can_grant (pr_requester p) responder
          then (Inl (CONTROL_DENIED @ '': requester cannot grant its own arbitration; wait for the user decision or the 120s timeout''), l, [])
          else let l1 = clear_pending_locked l;
                   l' = (if grant then l1\<lparr>l_owner := Some (pr_requester p)\<rparr> else l1)
               in (Inr (snapshot now l'), l',
                   [if grant then Changed (Some (pr_requester p)) ''granted''
                    else Changed (l_owner l1) ''denied'']))"

definition resolve_pending ::
  "app_state \<Rightarrow> nat \<Rightarrow> string \<Rightarrow> string option \<Rightarrow> bool \<Rightarrow> lease
     \<Rightarrow> (string, control_state_view) result \<times> lease \<times> control_event list" where
  "resolve_pending a now sid request_id grant l =
     (case session_at a sid of
        None \<Rightarrow> (Inl ''session not found'', l, [])
      | Some s \<Rightarrow> resolve_pending_locked now (s_role s) request_id grant l)"

definition grant_control where
  "grant_control a now sid request_id l = resolve_pending a now sid request_id True l"

definition deny_control where
  "deny_control a now sid request_id l = resolve_pending a now sid request_id False l"

definition take_over_control ::
  "app_state \<Rightarrow> nat \<Rightarrow> string \<Rightarrow> lease
     \<Rightarrow> (string, control_state_view) result \<times> lease \<times> control_event list" where
  "take_over_control a now sid l =
     (case session_at a sid of
        None \<Rightarrow> (Inl ''session not found'', l, [])
      | Some s \<Rightarrow>
          if s_role s \<noteq> User then (Inl ''only user can takeOverControl'', l, [])
          else if \<not> is_role_slot_holder a sid
          then (Inl ''session is not the user slot holder'', l, [])
          else let l' = (clear_pending_locked l)\<lparr>l_owner := Some User\<rparr>
               in (Inr (snapshot now l'), l', [Changed (Some User) ''takeOver'']))"

definition release_control_locked ::
  "nat \<Rightarrow> session_role \<Rightarrow> bool \<Rightarrow> bool \<Rightarrow> lease
     \<Rightarrow> (string, control_state_view) result \<times> lease \<times> control_event list" where
  "release_control_locked now r user_online agent_online l =
     (if l_owner l \<noteq> Some r
      then (Inl (CONTROL_DENIED @ '': caller is not control owner''), l, [])
      else let new_owner = (case r of
                  User \<Rightarrow> if agent_online then Some Agent else None
                | Agent \<Rightarrow> if user_online then Some User else None);
               l' = (clear_pending_locked l)\<lparr>l_owner := new_owner\<rparr>
           in (Inr (snapshot now l'), l', [Changed new_owner ''released'']))"

definition release_control ::
  "app_state \<Rightarrow> nat \<Rightarrow> string \<Rightarrow> lease
     \<Rightarrow> (string, control_state_view) result \<times> lease \<times> control_event list" where
  "release_control a now sid l =
     (case session_at a sid of
        None \<Rightarrow> (Inl ''session not found'', l, [])
      | Some s \<Rightarrow> release_control_locked now (s_role s) (role_still_online a User)
                    (role_still_online a Agent) l)"

definition on_timeout :: "bool \<Rightarrow> u64 \<Rightarrow> string \<Rightarrow> lease \<Rightarrow> lease \<times> control_event list" where
  "on_timeout mcp_enabled generation request_id l =
     (case l_pending l of
        None \<Rightarrow> (l, [])
      | Some p \<Rightarrow>
          if pr_generation p \<noteq> generation \<or> pr_request_id p \<noteq> request_id then (l, [])
          else let l1 = clear_pending_locked l in
            (case pr_policy p of
               GrantRequester \<Rightarrow>
                 if pr_requester p \<noteq> Agent \<or> mcp_enabled
                 then (l1\<lparr>l_owner := Some (pr_requester p)\<rparr>,
                       [Changed (Some (pr_requester p)) ''timeoutGranted''])
                 else (l1, [Changed (l_owner l1) ''timeoutDeniedMcpDisabled''])
             | DenyRequester \<Rightarrow> (l1, [Changed (l_owner l1) ''timeoutDenied''])))"

section \<open>Gate, notifications, errors\<close>

definition allows_hid :: "app_state \<Rightarrow> bool \<Rightarrow> lease \<Rightarrow> string \<Rightarrow> bool" where
  "allows_hid a mcp_enabled l sid =
     (case session_at a sid of
        None \<Rightarrow> False
      | Some s \<Rightarrow> is_role_slot_holder a sid
          \<and> \<not> (s_role s = Agent \<and> \<not> mcp_enabled)
          \<and> l_owner l = Some (s_role s))"

text \<open>The counter of denied input and whether this denial is logged.\<close>

definition note_hid_denied :: "u64 \<Rightarrow> u64 \<times> bool" where
  "note_hid_denied n = (n + 1, n mod 50 = 0)"

datatype control_payload =
    ChangedParams "string option" string
  | StateParams control_state_view
  | HintParams control_state_view string

definition notify_roles ::
  "app_state \<Rightarrow> string \<Rightarrow> control_payload \<Rightarrow> session_role list \<Rightarrow> (nat \<times> string \<times> control_payload) list" where
  "notify_roles a meth params rs =
     List.map_filter (\<lambda>r. map_option (\<lambda>p. (p, meth, params)) (get_session_for_role a r)) rs"

fun dispatch_event :: "app_state \<Rightarrow> control_event \<Rightarrow> (nat \<times> string \<times> control_payload) list" where
  "dispatch_event a (Changed ow reason) =
     notify_roles a ''controlChanged'' (ChangedParams (map_option role_as_str ow) reason) [User, Agent]"
| "dispatch_event a (Conflict view) =
     notify_roles a ''controlConflict'' (StateParams view) [User, Agent]"
| "dispatch_event a (ConflictHint view reason) =
     notify_roles a ''controlConflict'' (HintParams view reason) [User, Agent]"

definition dispatch_events :: "app_state \<Rightarrow> control_event list \<Rightarrow> (nat \<times> string \<times> control_payload) list" where
  "dispatch_events a evs = concat (map (dispatch_event a) evs)"

definition on_rpc_ready :: "nat \<Rightarrow> nat \<Rightarrow> session_role \<Rightarrow> lease \<Rightarrow> (nat \<times> string \<times> control_payload) list" where
  "on_rpc_ready now p r l =
     (let view = snapshot now l in
      (p, ''controlChanged'', StateParams view) #
      (if r = User \<and> cv_owner view = Some ''agent'' \<and> cv_pending view = None
       then [(p, ''controlConflict'', HintParams view ''agentHasControl'')] else []))"

definition control_error_data :: "string \<Rightarrow> (string \<times> string) option" where
  "control_error_data msg =
     map_option (\<lambda>code. (code, msg))
       (find (\<lambda>code. str_contains msg code) [CONTROL_DENIED, CONTROL_BUSY, CONTROL_STALE, MCP_DISABLED])"

section \<open>The lease as a state machine\<close>

text \<open>
  Handlers interleave arbitrarily, timers fire no earlier than they were set for, the clock
  moves forward and UUIDs are not reused. \<open>ls_issued\<close> records when each request id was
  issued. The online flags of an action are the facts its handler read before it took the lock;
  they need not be current.
\<close>

record lease_sys =
  ls_lease :: lease
  ls_timers :: "(nat \<times> u64 \<times> string) list"
  ls_now :: nat
  ls_issued :: "string \<Rightarrow> nat option"

datatype lease_action =
    RoleClaimed session_role bool bool bool
  | SessionRemoved session_role bool bool
  | RequestControl session_role bool bool string
  | ResolvePending session_role "string option" bool
  | TakeOver
  | ReleaseControl session_role bool bool
  | TimerFires u64 string bool
  | Tick nat

definition lease_sys_init :: lease_sys where
  "lease_sys_init = \<lparr>ls_lease = lease_default, ls_timers = [], ls_now = 0, ls_issued = (\<lambda>_. None)\<rparr>"

inductive lease_step :: "lease_sys \<Rightarrow> lease_action \<Rightarrow> lease_sys \<Rightarrow> bool" where
  claimed: "lease_step s (RoleClaimed r prev uo ao)
     (s\<lparr>ls_lease := fst (on_role_claimed_locked (ls_now s) r prev uo ao (ls_lease s))\<rparr>)"
| removed: "lease_step s (SessionRemoved r uo ao)
     (s\<lparr>ls_lease := fst (on_session_removed_locked r uo ao (ls_lease s))\<rparr>)"
| requested: "request_control_locked r uo ao (ls_now s) i (ls_lease s) = (res, l', None, ev) \<Longrightarrow>
     lease_step s (RequestControl r uo ao i) (s\<lparr>ls_lease := l'\<rparr>)"
| request_pending: "request_control_locked r uo ao (ls_now s) i (ls_lease s) = (res, l', Some (g, j), ev) \<Longrightarrow>
     ls_issued s i = None \<Longrightarrow>
     lease_step s (RequestControl r uo ao i)
       (s\<lparr>ls_lease := l', ls_timers := (ls_now s + CONTROL_TIMEOUT, g, j) # ls_timers s,
          ls_issued := (ls_issued s)(i \<mapsto> ls_now s)\<rparr>)"
| resolved: "lease_step s (ResolvePending r rid grant)
     (s\<lparr>ls_lease := fst (snd (resolve_pending_locked (ls_now s) r rid grant (ls_lease s)))\<rparr>)"
| taken_over: "lease_step s TakeOver
     (s\<lparr>ls_lease := (clear_pending_locked (ls_lease s))\<lparr>l_owner := Some User\<rparr>\<rparr>)"
| released: "lease_step s (ReleaseControl r uo ao)
     (s\<lparr>ls_lease := fst (snd (release_control_locked (ls_now s) r uo ao (ls_lease s)))\<rparr>)"
| fired: "(t, g, i) \<in> set (ls_timers s) \<Longrightarrow> t \<le> ls_now s \<Longrightarrow>
     lease_step s (TimerFires g i mcp)
       (s\<lparr>ls_lease := fst (on_timeout mcp g i (ls_lease s)), ls_timers := remove1 (t, g, i) (ls_timers s)\<rparr>)"
| ticked: "lease_step s (Tick d) (s\<lparr>ls_now := ls_now s + d\<rparr>)"

inductive_simps lease_step_timer: "lease_step s (TimerFires g i mcp) s'"

inductive lease_reachable :: "lease_sys \<Rightarrow> bool" where
  start: "lease_reachable lease_sys_init"
| step: "lease_reachable s \<Longrightarrow> lease_step s a s' \<Longrightarrow> lease_reachable s'"

section \<open>Invariant\<close>

text \<open>
  Every section except a request that opens an arbitration either leaves the lease alone or
  leaves it without a pending request.
\<close>

definition settles :: "lease \<Rightarrow> lease \<Rightarrow> bool" where
  "settles l l' = (l' = l \<or> l_pending l' = None)"

definition arbitration_ok :: "lease \<Rightarrow> bool" where
  "arbitration_ok l = (case l_pending l of
     None \<Rightarrow> True
   | Some p \<Rightarrow> l_owner l = Some (other_role (pr_requester p))
       \<and> pr_policy p = (if pr_requester p = Agent then GrantRequester else DenyRequester))"

definition timers_ok :: "lease_sys \<Rightarrow> bool" where
  "timers_ok s =
     ((\<forall>(t, g, i) \<in> set (ls_timers s). \<exists>t0. ls_issued s i = Some t0 \<and> t = t0 + CONTROL_TIMEOUT) \<and>
      (case l_pending (ls_lease s) of
         None \<Rightarrow> True
       | Some p \<Rightarrow> (pr_deadline p, pr_generation p, pr_request_id p) \<in> set (ls_timers s)))"

definition lease_inv :: "lease_sys \<Rightarrow> bool" where
  "lease_inv s = (arbitration_ok (ls_lease s) \<and> timers_ok s)"

lemma clear_pending_simps [simp]:
  "l_pending (clear_pending_locked l) = None"
  "l_owner (clear_pending_locked l) = l_owner l"
  by (simp_all add: clear_pending_locked_def next_generation_def split: option.splits)

lemma settles_clear: "settles l (clear_pending_locked l)" "settles l ((clear_pending_locked l)\<lparr>l_owner := ow\<rparr>)"
  by (simp_all add: settles_def)

lemma settles_claimed: "settles l (fst (on_role_claimed_locked now r prev uo ao l))"
  by (auto simp: on_role_claimed_locked_def settles_def split: session_role.splits)

lemma settles_removed: "settles l (fst (on_session_removed_locked r uo ao l))"
  by (auto simp: on_session_removed_locked_def settles_def Let_def)

lemma settles_resolved: "settles l (fst (snd (resolve_pending_locked now r rid grant l)))"
  by (auto simp: resolve_pending_locked_def settles_def Let_def split: option.splits)

lemma settles_released: "settles l (fst (snd (release_control_locked now r uo ao l)))"
  by (auto simp: release_control_locked_def settles_def Let_def)

lemma settles_timeout: "settles l (fst (on_timeout mcp g i l))"
  by (auto simp: on_timeout_def settles_def Let_def split: option.splits timeout_policy.splits)

lemma settles_request:
  "request_control_locked r uo ao now i l = (res, l', None, ev) \<Longrightarrow> settles l l'"
  by (auto simp: request_control_locked_def settles_def Let_def split: if_splits option.splits prod.splits)

lemmas settles_rules = settles_clear settles_claimed settles_removed settles_resolved
  settles_released settles_timeout settles_request

lemma settles_inv:
  assumes "lease_inv s" "settles (ls_lease s) l'"
  shows "lease_inv (s\<lparr>ls_lease := l'\<rparr>)"
  using assms by (auto simp: lease_inv_def arbitration_ok_def timers_ok_def settles_def split: option.splits)

lemma request_opens:
  assumes "request_control_locked r uo ao now i l = (res, l', Some (g, j), ev)"
  shows "j = i \<and> l_owner l' = Some (other_role r) \<and> l_owner l = Some (other_role r) \<and> l_pending l = None
    \<and> g = l_generation l \<and> l_generation l' = l_generation l + 1
    \<and> l_pending l' = Some \<lparr>pr_request_id = i, pr_requester = r,
         pr_policy = (if r = Agent then GrantRequester else DenyRequester), pr_generation = g,
         pr_deadline = now + CONTROL_TIMEOUT, pr_reason = request_reason (l_owner l) r\<rparr>"
  using assms
  by (cases "l_owner l"; cases r)
     (auto simp: request_control_locked_def make_pending_def next_generation_def request_policy_def
       Let_def other_role_iff split: if_splits option.splits prod.splits)

lemma lease_step_inv:
  assumes "lease_step s a s'" "lease_inv s"
  shows "lease_inv s'"
  using assms
proof (induction rule: lease_step.induct)
  case (request_pending r uo ao s i res l' g j ev)
  note o = request_opens [OF request_pending(1)]
  have "timers_ok (s\<lparr>ls_lease := l', ls_timers := (ls_now s + CONTROL_TIMEOUT, g, j) # ls_timers s,
          ls_issued := (ls_issued s)(i \<mapsto> ls_now s)\<rparr>)"
    using o request_pending(2,3) by (auto simp: lease_inv_def timers_ok_def)
  with o show ?case by (auto simp: lease_inv_def arbitration_ok_def)
next
  case (fired t g i s mcp)
  let ?l = "fst (on_timeout mcp g i (ls_lease s))"
  have "lease_inv (s\<lparr>ls_lease := ?l\<rparr>)"
    by (rule settles_inv [OF fired(3) settles_timeout])
  moreover have "(pr_deadline p, pr_generation p, pr_request_id p) \<in> set (remove1 (t, g, i) (ls_timers s))"
    if "l_pending ?l = Some p" for p
  proof -
    from that have p: "l_pending (ls_lease s) = Some p" "(pr_generation p, pr_request_id p) \<noteq> (g, i)"
      by (auto simp: on_timeout_def Let_def split: option.splits if_splits timeout_policy.splits)
    with fired(3) have "(pr_deadline p, pr_generation p, pr_request_id p) \<in> set (ls_timers s)"
      by (simp add: lease_inv_def timers_ok_def)
    with p(2) show ?thesis by (auto simp: in_set_remove1)
  qed
  ultimately show ?case
    using set_remove1_subset [of "(t, g, i)" "ls_timers s"]
    by (auto simp: lease_inv_def timers_ok_def split: option.splits)
next
  case (ticked s d)
  then show ?case by (auto simp: lease_inv_def timers_ok_def split: option.splits)
qed (auto intro: settles_inv settles_rules)

lemma lease_reachable_inv: "lease_reachable s \<Longrightarrow> lease_inv s"
proof (induction rule: lease_reachable.induct)
  case start
  show ?case by (simp add: lease_inv_def arbitration_ok_def timers_ok_def lease_sys_init_def lease_default_def)
next
  case (step s a s')
  then show ?case by (blast intro: lease_step_inv)
qed

text \<open>Ownership effects of the sections, used by the transfer properties.\<close>

lemma removed_owner:
  "l_owner l = Some r' \<Longrightarrow> l_owner (fst (on_session_removed_locked r uo ao l)) \<noteq> Some r' \<Longrightarrow>
   r = r' \<and> \<not> (case r of User \<Rightarrow> uo | Agent \<Rightarrow> ao)"
  by (auto simp: on_session_removed_locked_def Let_def split: if_splits option.splits)

lemma on_timeout_owner:
  assumes "l_owner (fst (on_timeout mcp g i l)) \<noteq> l_owner l"
  shows "\<exists>p. l_pending l = Some p \<and> pr_generation p = g \<and> pr_request_id p = i
     \<and> pr_policy p = GrantRequester \<and> (pr_requester p = Agent \<longrightarrow> mcp)"
  using assms by (auto simp: on_timeout_def Let_def split: option.splits if_splits timeout_policy.splits)

section \<open>Lease properties\<close>

text \<open>
  C6: A human keeps control unless they consent, leave or stay silent. In every reachable state
  of the lease, whatever the interleaving and however stale the facts a handler read, a step
  that takes control away from the user is one of: a grant by a user session; the time-out of an
  agent's request, with MCP enabled, at least 120 seconds after that request was issued; a
  release by a user session; the removal of a user session when no user is online; or an agent
  claiming or requesting control when it saw no user online.
\<close>

theorem user_loses_control_only_if:
  assumes "lease_reachable s" and "lease_step s a s'"
    and "l_owner (ls_lease s) = Some User" and "l_owner (ls_lease s') \<noteq> Some User"
  shows "(\<exists>rid. a = ResolvePending User rid True)
    \<or> (\<exists>g i t0 p. a = TimerFires g i True \<and> l_pending (ls_lease s) = Some p
         \<and> pr_request_id p = i \<and> pr_requester p = Agent
         \<and> ls_issued s i = Some t0 \<and> t0 + 120 * 10 ^ 9 \<le> ls_now s)
    \<or> (\<exists>uo ao. a = ReleaseControl User uo ao)
    \<or> (\<exists>ao. a = SessionRemoved User False ao)
    \<or> (\<exists>prev ao. a = RoleClaimed Agent prev False ao)
    \<or> (\<exists>ao i. a = RequestControl Agent False ao i)"
proof -
  have inv: "lease_inv s" by (rule lease_reachable_inv [OF assms(1)])
  from assms(2) show ?thesis
  proof cases
    case (claimed r prev uo ao)
    with assms(3,4) show ?thesis
      by (auto simp: on_role_claimed_locked_def owner_online_def split: session_role.splits if_splits)
  next
    case (removed r uo ao)
    with assms(3,4) removed_owner [of "ls_lease s" User r uo ao] show ?thesis by auto
  next
    case (requested r uo ao i res l' ev)
    with assms(3,4) show ?thesis
      by (cases r) (auto simp: request_control_locked_def owner_online_def Let_def
          split: if_splits option.splits prod.splits)
  next
    case (request_pending r uo ao i res l' g j ev)
    with assms(3,4) request_opens [OF request_pending(3)] show ?thesis by auto
  next
    case (resolved r rid grant)
    with assms(3,4) inv show ?thesis
      by (cases r) (auto simp: resolve_pending_locked_def can_grant_def lease_inv_def arbitration_ok_def
          Let_def other_role_iff split: option.splits if_splits)
  next
    case (released r uo ao)
    with assms(3,4) show ?thesis
      by (cases r) (auto simp: release_control_locked_def Let_def split: if_splits)
  next
    case (fired t g i mcp)
    with assms(3,4) have "l_owner (fst (on_timeout mcp g i (ls_lease s))) \<noteq> l_owner (ls_lease s)"
      by simp
    from on_timeout_owner [OF this] obtain p where p: "l_pending (ls_lease s) = Some p"
      "pr_generation p = g" "pr_request_id p = i" "pr_policy p = GrantRequester"
      "pr_requester p = Agent \<longrightarrow> mcp" by blast
    with inv have "pr_requester p = Agent" by (auto simp: lease_inv_def arbitration_ok_def split: if_splits)
    moreover from inv fired obtain t0 where "ls_issued s i = Some t0" "t = t0 + CONTROL_TIMEOUT"
      by (auto simp: lease_inv_def timers_ok_def)
    ultimately show ?thesis using fired p by (simp add: CONTROL_TIMEOUT_def)
  qed (use assms in auto)
qed


text \<open>
  A run of the lease: a sequence of actions with the states they lead to. The run below has a
  user claim control, an agent ask for it and the user grant it.
\<close>

definition lease_user :: lease_sys where
  "lease_user = lease_sys_init\<lparr>ls_lease := \<lparr>l_owner = Some User, l_pending = None, l_generation = 1\<rparr>\<rparr>"

definition lease_asked :: lease_sys where
  "lease_asked = \<lparr>ls_lease = \<lparr>l_owner = Some User,
       l_pending = Some \<lparr>pr_request_id = ''r1'', pr_requester = Agent, pr_policy = GrantRequester,
         pr_generation = 1, pr_deadline = CONTROL_TIMEOUT, pr_reason = ''humanHasControl''\<rparr>,
       l_generation = 2\<rparr>,
     ls_timers = [(CONTROL_TIMEOUT, 1, ''r1'')], ls_now = 0, ls_issued = [''r1'' \<mapsto> 0]\<rparr>"

lemma lease_user_reachable: "lease_reachable lease_user"
proof (rule lease_reachable.step [OF start])
  show "lease_step lease_sys_init (RoleClaimed User False False False) lease_user"
    using lease_step.claimed [of lease_sys_init User False False False]
    by (simp add: on_role_claimed_locked_def lease_user_def lease_sys_init_def lease_default_def
        clear_pending_locked_def)
qed

lemma lease_asked_reachable: "lease_reachable lease_asked"
proof (rule lease_reachable.step [OF lease_user_reachable])
  have "\<exists>res ev. request_control_locked Agent True True (ls_now lease_user) ''r1'' (ls_lease lease_user)
      = (res, ls_lease lease_asked, Some (1, ''r1''), ev)"
    by (simp add: request_control_locked_def lease_user_def lease_asked_def lease_sys_init_def
        owner_online_def make_pending_def next_generation_def request_policy_def request_reason_def Let_def)
  then obtain res ev where "request_control_locked Agent True True (ls_now lease_user) ''r1''
      (ls_lease lease_user) = (res, ls_lease lease_asked, Some (1, ''r1''), ev)" by blast
  from lease_step.request_pending [OF this]
  show "lease_step lease_user (RequestControl Agent True True ''r1'') lease_asked"
    by (simp add: lease_user_def lease_asked_def lease_sys_init_def)
qed

theorem user_loses_control_only_if_witness:
  "\<exists>a s'. lease_step lease_asked a s' \<and> l_owner (ls_lease s') = Some Agent \<and>
     ((\<exists>rid. a = ResolvePending User rid True)
    \<or> (\<exists>g i t0 p. a = TimerFires g i True \<and> l_pending (ls_lease lease_asked) = Some p
         \<and> pr_request_id p = i \<and> pr_requester p = Agent
         \<and> ls_issued lease_asked i = Some t0 \<and> t0 + 120 * 10 ^ 9 \<le> ls_now lease_asked)
    \<or> (\<exists>uo ao. a = ReleaseControl User uo ao)
    \<or> (\<exists>ao. a = SessionRemoved User False ao)
    \<or> (\<exists>prev ao. a = RoleClaimed Agent prev False ao)
    \<or> (\<exists>ao i. a = RequestControl Agent False ao i))"
proof -
  let ?a = "ResolvePending User (Some ''r1'') True"
  let ?s' = "lease_asked\<lparr>ls_lease :=
      fst (snd (resolve_pending_locked (ls_now lease_asked) User (Some ''r1'') True (ls_lease lease_asked)))\<rparr>"
  have st: "lease_step lease_asked ?a ?s'" by (rule lease_step.resolved)
  have ow: "l_owner (ls_lease ?s') = Some Agent"
    by (simp add: lease_asked_def resolve_pending_locked_def can_grant_def Let_def)
  have us: "l_owner (ls_lease lease_asked) = Some User" by (simp add: lease_asked_def)
  from ow have "l_owner (ls_lease ?s') \<noteq> Some User" by simp
  from user_loses_control_only_if [OF lease_asked_reachable st us this] st ow show ?thesis by blast
qed

text \<open>
  C7: An arbitration always ends. In every reachable state with a request pending whose deadline
  has passed, the timer of that very request is still there and may fire; every firing of it
  clears the request and hands control to the requester exactly when the requester is the agent
  and MCP is enabled, and otherwise leaves the owner as it was.
\<close>

theorem arbitration_times_out:
  assumes "lease_reachable s" and "l_pending (ls_lease s) = Some p" and "pr_deadline p \<le> ls_now s"
  shows "(\<exists>s'. lease_step s (TimerFires (pr_generation p) (pr_request_id p) mcp) s')
    \<and> (\<forall>s'. lease_step s (TimerFires (pr_generation p) (pr_request_id p) mcp) s' \<longrightarrow>
         l_pending (ls_lease s') = None
         \<and> l_owner (ls_lease s') = (if pr_requester p = Agent \<and> mcp then Some Agent else l_owner (ls_lease s)))"
proof -
  have inv: "lease_inv s" by (rule lease_reachable_inv [OF assms(1)])
  with assms(2) have "(pr_deadline p, pr_generation p, pr_request_id p) \<in> set (ls_timers s)"
    and pol: "pr_policy p = (if pr_requester p = Agent then GrantRequester else DenyRequester)"
    by (simp_all add: lease_inv_def timers_ok_def arbitration_ok_def)
  with assms(3) show ?thesis
    by (cases "pr_requester p") (auto simp: lease_step_timer on_timeout_def assms(2) Let_def)
qed

theorem arbitration_times_out_witness:
  "l_pending (ls_lease (lease_asked\<lparr>ls_now := CONTROL_TIMEOUT\<rparr>)) \<noteq> None
   \<and> (\<exists>s'. lease_step (lease_asked\<lparr>ls_now := CONTROL_TIMEOUT\<rparr>) (TimerFires 1 ''r1'' True) s'
        \<and> l_owner (ls_lease s') = Some Agent)"
proof -
  let ?s = "lease_asked\<lparr>ls_now := CONTROL_TIMEOUT\<rparr>"
  have "lease_step lease_asked (Tick CONTROL_TIMEOUT) ?s"
    using lease_step.ticked [of lease_asked CONTROL_TIMEOUT] by (simp add: lease_asked_def)
  then have "lease_reachable ?s" by (rule lease_reachable.step [OF lease_asked_reachable])
  then show ?thesis
    using arbitration_times_out [of ?s _ True] by (fastforce simp: lease_asked_def)
qed

text \<open>
  The requester cannot decide its own arbitration. Whatever the arguments, a grant by a
  session whose role is the requester's is refused with the typed error \<open>controlDenied\<close> (or,
  for a wrong request id, \<open>controlStale\<close>) and leaves the lease unchanged, with no event.
\<close>

theorem requester_cannot_grant:
  assumes "session_at a sid = Some s" and "l_pending l = Some p" and "s_role s = pr_requester p"
  shows "\<exists>e code. grant_control a now sid rid l = (Inl e, l, [])
     \<and> control_error_data e = Some (code, e) \<and> code \<in> {CONTROL_DENIED, CONTROL_STALE}
     \<and> (rid = None \<or> rid = Some (pr_request_id p) \<longrightarrow> code = CONTROL_DENIED)"
  using assms
  by (auto simp: grant_control_def resolve_pending_def resolve_pending_locked_def can_grant_def
      control_error_data_def CONTROL_DENIED_def CONTROL_STALE_def CONTROL_BUSY_def MCP_DISABLED_def
      split: option.splits)


text \<open>One registered agent session, which has asked for control.\<close>

definition one_agent :: app_state where
  "one_agent = fst (claim_role_slot 7 (fst (add_session 7 (session_new_with_role 0 ''a'' Agent False) app_new)))"

theorem requester_cannot_grant_witness:
  "\<exists>e. grant_control one_agent 5 ''a'' None (ls_lease lease_asked) = (Inl e, ls_lease lease_asked, [])
     \<and> control_error_data e = Some (CONTROL_DENIED, e)"
proof -
  have "session_at one_agent ''a'' = Some (session_new_with_role 0 ''a'' Agent False)"
    by (simp add: one_agent_def session_at_def get_session_by_id_def add_session_def claim_role_slot_def
        session_new_with_role_def app_new_def Let_def)
  moreover have "l_pending (ls_lease lease_asked) = Some \<lparr>pr_request_id = ''r1'', pr_requester = Agent,
      pr_policy = GrantRequester, pr_generation = 1, pr_deadline = CONTROL_TIMEOUT,
      pr_reason = ''humanHasControl''\<rparr>" by (simp add: lease_asked_def)
  ultimately show ?thesis
    using requester_cannot_grant [of one_agent "''a''" _ "ls_lease lease_asked" _ 5 None]
    by (fastforce simp: session_new_with_role_def)
qed

end
