(* ===== verification/Ip_Forward.thy ===== *)
theory Ip_Forward
  imports App_State
begin

text \<open>
  \<^verbatim>\<open>arkkvm/src/ip_forward/{ticket,resolve}.rs\<close>: one-shot tickets for forwarding data
  channels. A ticket is issued to a session, names a resolved destination, lives for sixty
  seconds and is consumed by the first data channel of that session that carries its label.
  Instants are nanoseconds of the monotonic clock; the places where the code reads the clock
  twice take both readings. The UUID of a label is an argument.
\<close>

section \<open>Destination\<close>

datatype ip_forward_error =
    UsbNetworkDisabled | UsbPeerNotLeased | ConnectFailed | TicketInvalid | ForwardBridgeFailed

fun forward_error_code :: "ip_forward_error \<Rightarrow> string" where
  "forward_error_code UsbNetworkDisabled = ''usb_network_disabled''"
| "forward_error_code UsbPeerNotLeased = ''usb_peer_not_leased''"
| "forward_error_code ConnectFailed = ''connect_failed''"
| "forward_error_code TicketInvalid = ''ticket_invalid''"
| "forward_error_code ForwardBridgeFailed = ''forward_bridge_failed''"

definition forward_err_msg :: "ip_forward_error \<Rightarrow> string \<Rightarrow> string" where
  "forward_err_msg code detail = ''['' @ forward_error_code code @ ''] '' @ detail"

record usb_lease =
  ul_ip :: string
  ul_mac :: string
  ul_hostname :: string
  ul_expires_in_secs :: u32

text \<open>
  What \<open>resolve_usb_peer\<close> reads of the rest of the system: two configuration flags and the
  answer of the USB sidecar (\<open>None\<close>: not available, \<open>Inl\<close>: the query failed).
\<close>

record forward_env =
  ssh_forwarding_enabled :: bool
  network_adapter_enable :: bool
  usb_leases :: "(string, usb_lease list) result option"

fun max_by_key_from :: "('a \<Rightarrow> 'b::linorder) \<Rightarrow> 'a \<Rightarrow> 'a list \<Rightarrow> 'a" where
  "max_by_key_from f b [] = b"
| "max_by_key_from f b (x # xs) = max_by_key_from f (if f b \<le> f x then x else b) xs"

fun max_by_key :: "('a \<Rightarrow> 'b::linorder) \<Rightarrow> 'a list \<Rightarrow> 'a option" where
  "max_by_key f [] = None"
| "max_by_key f (x # xs) = Some (max_by_key_from f x xs)"

definition select_usb_peer :: "usb_lease list \<Rightarrow> usb_lease option" where
  "select_usb_peer leases =
     Option.bind (max_by_key ul_expires_in_secs leases)
       (\<lambda>best. find (\<lambda>l. ul_expires_in_secs l = ul_expires_in_secs best) leases)"

definition resolve_usb_peer :: "forward_env \<Rightarrow> (string, string) result" where
  "resolve_usb_peer e =
     (if \<not> ssh_forwarding_enabled e
      then Inl (forward_err_msg UsbNetworkDisabled
        ''SSH Forwarding is not enabled; enable MCP + SSH Forwarding to use USB peer forwarding'')
      else if \<not> network_adapter_enable e
      then Inl (forward_err_msg UsbNetworkDisabled
        ''USB network adapter is not enabled; enable SSH Forwarding to reach the HDMI-controlled host (or use startIpForward with an explicit host after user confirmation)'')
      else case usb_leases e of
        None \<Rightarrow> Inl (forward_err_msg ForwardBridgeFailed ''USB sidecar not available'')
      | Some (Inl err) \<Rightarrow> Inl (forward_err_msg ForwardBridgeFailed (''failed to query USB DHCP leases: '' @ err))
      | Some (Inr leases) \<Rightarrow>
          (case select_usb_peer leases of
             None \<Rightarrow> Inl (forward_err_msg UsbPeerNotLeased
               ''no active USB DHCP lease; wait for the controlled host to obtain an address or enable/check USB network'')
           | Some l \<Rightarrow> if trim (ul_ip l) = []
                       then Inl (forward_err_msg UsbPeerNotLeased ''USB DHCP lease has empty IP'')
                       else Inr (trim (ul_ip l))))"

definition resolve_forward_host ::
  "forward_env \<Rightarrow> string option \<Rightarrow> string option \<Rightarrow> (string, string) result" where
  "resolve_forward_host e target host =
     (let target_usb = (case target of None \<Rightarrow> False | Some t \<Rightarrow> eq_ignore_ascii_case t ''usb'');
          h = (case map_option trim host of Some h \<Rightarrow> if h = [] then None else Some h | None \<Rightarrow> None)
      in if target_usb
         then (if h \<noteq> None
               then Inl ''[invalid_argument] target=usb must not include host; peer IP comes from USB DHCP''
               else resolve_usb_peer e)
         else case h of
                Some h \<Rightarrow> Inr h
              | None \<Rightarrow> Inl ''[invalid_argument] either target=usb or a non-empty host is required'')"

section \<open>Tickets\<close>

datatype forward_protocol = Tcp | Udp

definition forward_protocol_parse :: "string \<Rightarrow> (string, forward_protocol) result" where
  "forward_protocol_parse s = (let t = to_ascii_lowercase (trim s) in
     if t = ''tcp'' \<or> t = '''' then Inr Tcp
     else if t = ''udp'' then Inr Udp
     else Inl (''[invalid_argument] protocol must be tcp or udp, got '' @ t))"

fun forward_protocol_as_str :: "forward_protocol \<Rightarrow> string" where
  "forward_protocol_as_str Tcp = ''tcp''"
| "forward_protocol_as_str Udp = ''udp''"

record start_params =
  sp_target :: "string option"
  sp_host :: "string option"
  sp_port :: u16
  sp_protocol :: string

record start_response =
  sr_data_channel :: string
  sr_resolved_host :: string
  sr_port :: u16
  sr_protocol :: string

record forward_params =
  fp_host :: string
  fp_port :: u16
  fp_protocol :: forward_protocol

record pending_ticket =
  pt_session_id :: string
  pt_params :: forward_params
  pt_expires_at :: nat

type_synonym tickets = "(string, pending_ticket) hmap"

definition IP_FORWARD_PREFIX :: string where
  "IP_FORWARD_PREFIX = ''ip_forward_''"

definition TICKET_TTL :: nat where
  "TICKET_TTL = 60 * 10 ^ 9"

definition MAX_PENDING_PER_SESSION :: nat where
  "MAX_PENDING_PER_SESSION = 4"

definition is_ip_forward_label :: "string \<Rightarrow> bool" where
  "is_ip_forward_label label = starts_with label IP_FORWARD_PREFIX"

definition purge_expired :: "nat \<Rightarrow> tickets \<Rightarrow> tickets" where
  "purge_expired now m = hm_retain (\<lambda>_ t. pt_expires_at t > now) m"

definition start_forward ::
  "forward_env \<Rightarrow> string \<Rightarrow> nat \<Rightarrow> nat \<Rightarrow> string \<Rightarrow> start_params \<Rightarrow> tickets
     \<Rightarrow> (string, start_response) result \<times> tickets" where
  "start_forward e uuid t_issue t_lock sid ps m =
     (if sp_port ps = 0 then (Inl ''[invalid_argument] port must be in 1..=65535'', m)
      else case forward_protocol_parse (sp_protocol ps) of
        Inl err \<Rightarrow> (Inl err, m)
      | Inr proto \<Rightarrow>
          (case resolve_forward_host e (sp_target ps) (sp_host ps) of
             Inl err \<Rightarrow> (Inl err, m)
           | Inr host \<Rightarrow>
               let label = IP_FORWARD_PREFIX @ uuid;
                   ticket = \<lparr>pt_session_id = sid,
                             pt_params = \<lparr>fp_host = host, fp_port = sp_port ps, fp_protocol = proto\<rparr>,
                             pt_expires_at = t_issue + TICKET_TTL\<rparr>;
                   m1 = purge_expired t_lock m
               in if hm_count (\<lambda>t. pt_session_id t = sid) m1 \<ge> MAX_PENDING_PER_SESSION
                  then (Inl ''[invalid_argument] too many pending ip forward tickets for this session (max 4)'', m1)
                  else (Inr \<lparr>sr_data_channel = label, sr_resolved_host = host, sr_port = sp_port ps,
                             sr_protocol = forward_protocol_as_str proto\<rparr>,
                        hm_insert label ticket m1)))"

definition consume_ticket ::
  "nat \<Rightarrow> nat \<Rightarrow> string \<Rightarrow> string \<Rightarrow> tickets \<Rightarrow> (string, forward_params) result \<times> tickets" where
  "consume_ticket t_purge t_check label sid m =
     (let m1 = purge_expired t_purge m
      in case hm_get m1 label of
           None \<Rightarrow> (Inl ''[ticket_invalid] ip forward ticket not found or already used'', m1)
         | Some t \<Rightarrow>
             let m2 = hm_remove label m1
             in if t_check \<ge> pt_expires_at t
                then (Inl ''[ticket_invalid] ip forward ticket expired'', m2)
                else if pt_session_id t \<noteq> sid
                then (Inl ''[ticket_invalid] ip forward ticket session mismatch'', hm_insert label t m2)
                else (Inr (pt_params t), m2))"

definition clear_session :: "string \<Rightarrow> tickets \<Rightarrow> tickets" where
  "clear_session sid m = hm_retain (\<lambda>_ t. pt_session_id t \<noteq> sid) m"

section \<open>Selection of the lease\<close>

lemma max_by_key_from_ge:
  "f b \<le> f (max_by_key_from f b xs) \<and> (\<forall>x \<in> set xs. f x \<le> f (max_by_key_from f b xs))
   \<and> max_by_key_from f b xs \<in> insert b (set xs)"
  by (induction xs arbitrary: b) (auto intro: order_trans, (meson order_trans linear)+)

lemma max_by_key_Some:
  assumes "max_by_key f xs = Some y"
  shows "y \<in> set xs" "\<forall>x \<in> set xs. f x \<le> f y"
  using assms max_by_key_from_ge [of f] by (cases xs; fastforce)+

lemma find_split:
  "\<forall>u \<in> set us. \<not> P u \<Longrightarrow> P y \<Longrightarrow> find P (us @ y # vs) = Some y"
  by (induction us) auto

lemma find_SomeE:
  assumes "find P xs = Some y"
  obtains us vs where "xs = us @ y # vs" "P y" "\<forall>u \<in> set us. \<not> P u"
  using assms
proof (induction xs arbitrary: thesis)
  case (Cons x xs)
  show ?case
  proof (cases "P x")
    case True
    with Cons.prems show ?thesis by (metis append_Nil find.simps(2) list.set(1) empty_iff option.inject)
  next
    case False
    with Cons.prems(2) obtain us vs where "xs = us @ y # vs" "P y" "\<forall>u \<in> set us. \<not> P u"
      using Cons.IH by auto
    with False show ?thesis by (intro Cons.prems(1) [of "x # us" vs]) auto
  qed
qed simp

lemma select_usb_peer_spec:
  "select_usb_peer ls = Some l \<longleftrightarrow>
     (\<exists>us vs. ls = us @ l # vs \<and> (\<forall>x \<in> set ls. ul_expires_in_secs x \<le> ul_expires_in_secs l)
        \<and> (\<forall>u \<in> set us. ul_expires_in_secs u < ul_expires_in_secs l))" (is "?L \<longleftrightarrow> ?R")
proof (cases ls)
  case Nil
  then show ?thesis by (simp add: select_usb_peer_def)
next
  case (Cons x xs)
  then obtain b where b: "max_by_key ul_expires_in_secs ls = Some b" by simp
  note mx = max_by_key_Some [OF b]
  show ?thesis
  proof
    assume ?L
    then have "find (\<lambda>l. ul_expires_in_secs l = ul_expires_in_secs b) ls = Some l"
      by (simp add: select_usb_peer_def b)
    then obtain us vs where ls: "ls = us @ l # vs" and l: "ul_expires_in_secs l = ul_expires_in_secs b"
      and us: "\<forall>u \<in> set us. ul_expires_in_secs u \<noteq> ul_expires_in_secs b"
      by (rule find_SomeE)
    have "\<forall>u \<in> set us. ul_expires_in_secs u < ul_expires_in_secs l"
      using us mx(2) ls l by (auto simp: order_less_le)
    with ls mx(2) l show ?R by auto
  next
    assume ?R
    then obtain us vs where ls: "ls = us @ l # vs"
      and top: "\<forall>x \<in> set ls. ul_expires_in_secs x \<le> ul_expires_in_secs l"
      and us: "\<forall>u \<in> set us. ul_expires_in_secs u < ul_expires_in_secs l" by blast
    have "ul_expires_in_secs b = ul_expires_in_secs l"
      using mx top ls by (meson antisym in_set_conv_decomp)
    then have "find (\<lambda>x. ul_expires_in_secs x = ul_expires_in_secs b) ls = Some l"
      unfolding ls using us by (intro find_split) auto
    then show ?L by (simp add: select_usb_peer_def b)
  qed
qed

section \<open>Ticket invariant\<close>

text \<open>
  The store is a proper map and no session has more than four tickets. Operations in any order,
  with any clock readings, keep it.
\<close>

definition tickets_inv :: "tickets \<Rightarrow> bool" where
  "tickets_inv m = (hm_wf m \<and> (\<forall>sid. hm_count (\<lambda>t. pt_session_id t = sid) m \<le> MAX_PENDING_PER_SESSION))"

datatype ticket_op =
    StartForward forward_env string nat nat string start_params
  | ConsumeTicket nat nat string string
  | ClearSession string

fun ticket_step :: "ticket_op \<Rightarrow> tickets \<Rightarrow> tickets" where
  "ticket_step (StartForward e uuid t1 t2 sid ps) m = snd (start_forward e uuid t1 t2 sid ps m)"
| "ticket_step (ConsumeTicket t1 t2 label sid) m = snd (consume_ticket t1 t2 label sid m)"
| "ticket_step (ClearSession sid) m = clear_session sid m"

lemma tickets_inv_retain: "tickets_inv m \<Longrightarrow> tickets_inv (hm_retain P m)"
  unfolding tickets_inv_def using hm.cnt_ret order_trans by (metis hm.wf_ret)

lemma tickets_inv_remove: "tickets_inv m \<Longrightarrow> tickets_inv (hm_remove k m)"
  unfolding tickets_inv_def using hm.cnt_rem order_trans by (metis hm.wf_rem)

lemma tickets_inv_insert:
  assumes "tickets_inv m" "hm_count (\<lambda>t. pt_session_id t = pt_session_id x) m < MAX_PENDING_PER_SESSION"
  shows "tickets_inv (hm_insert k x m)"
  unfolding tickets_inv_def
proof (intro conjI allI)
  show "hm_wf (hm_insert k x m)" using assms(1) by (auto simp: tickets_inv_def)
  fix sid
  show "hm_count (\<lambda>t. pt_session_id t = sid) (hm_insert k x m) \<le> MAX_PENDING_PER_SESSION"
    by (rule hm.quota_ins [where Qs = "range (\<lambda>sid t. pt_session_id t = sid)"])
       (use assms in \<open>auto simp: tickets_inv_def\<close>)
qed

text \<open>
  Putting back a ticket that was just taken out restores the count, because its key was there.
\<close>

lemma count_remove_less:
  assumes "hm_wf m" "hm_get m k = Some x" "Q x"
  shows "hm_count Q (hm_remove k m) < hm_count Q m"
  using assms
proof (induction m)
  case (Cons y m)
  obtain k' v where y: "y = (k', v)" by (cases y)
  show ?case
  proof (cases "k' = k")
    case True
    with Cons.prems y have "k \<notin> fst ` set m" "v = x" by (auto simp: hm_wf_def)
    then have "AList.delete k m = m" by (simp add: delete_idem)
    with True y \<open>v = x\<close> Cons.prems(3) show ?thesis
      by (simp add: hm_remove_def hm_count_def AList.delete_eq)
  next
    case False
    with Cons y show ?thesis by (auto simp: hm_remove_def hm_count_def AList.delete_eq hm_wf_def)
  qed
qed simp

lemma purge_expired_inv: "tickets_inv m \<Longrightarrow> tickets_inv (purge_expired now m)"
  by (simp add: purge_expired_def tickets_inv_retain)

lemma start_forward_inv:
  assumes "tickets_inv m"
  shows "tickets_inv (snd (start_forward e uuid t1 t2 sid ps m))"
  using assms
  by (auto simp: start_forward_def Let_def purge_expired_inv not_le intro!: tickets_inv_insert
      split: sum.splits)

lemma consume_ticket_inv:
  assumes "tickets_inv m"
  shows "tickets_inv (snd (consume_ticket t1 t2 label sid m))"
proof -
  let ?m = "purge_expired t1 m"
  have inv: "tickets_inv ?m" by (rule purge_expired_inv [OF assms])
  have "tickets_inv (hm_insert label t (hm_remove label ?m))" if "hm_get ?m label = Some t" for t
  proof (rule tickets_inv_insert [OF tickets_inv_remove [OF inv]])
    let ?Q = "\<lambda>u. pt_session_id u = pt_session_id t"
    have "hm_count ?Q (hm_remove label ?m) < hm_count ?Q ?m"
      by (rule count_remove_less) (use inv that in \<open>auto simp: tickets_inv_def\<close>)
    also have "\<dots> \<le> MAX_PENDING_PER_SESSION" using inv by (simp add: tickets_inv_def)
    finally show "hm_count ?Q (hm_remove label ?m) < MAX_PENDING_PER_SESSION" .
  qed
  with inv show ?thesis
    by (auto simp: consume_ticket_def Let_def tickets_inv_remove split: option.splits)
qed

lemma ticket_step_inv: "tickets_inv m \<Longrightarrow> tickets_inv (ticket_step op m)"
  by (cases op) (auto simp: start_forward_inv consume_ticket_inv clear_session_def tickets_inv_retain)

section \<open>Ticket properties\<close>

text \<open>
  Ticket quota. However starts, consumptions and session clean-ups are interleaved and
  whatever the clock reads, no session ever has more than four tickets in the store.
\<close>

theorem ticket_quota:
  "hm_count (\<lambda>t. pt_session_id t = sid) (fold ticket_step ops []) \<le> 4"
proof -
  have "tickets_inv m \<Longrightarrow> tickets_inv (fold ticket_step ops m)" for m
    by (induction ops arbitrary: m) (auto intro: ticket_step_inv)
  then have "tickets_inv (fold ticket_step ops [])" by (simp add: tickets_inv_def)
  then show ?thesis by (simp add: tickets_inv_def MAX_PENDING_PER_SESSION_def)
qed

text \<open>
  A ticket is a one-shot capability of its session. After a successful start, a consumption
  by the same session before the ticket expires returns exactly the destination that was
  resolved at the start; whoever presents the same label again, at any later time, is refused.
\<close>

theorem ticket_one_shot:
  assumes "hm_wf m"
    and "start_forward e uuid t0 t1 sid ps m = (Inr resp, m1)"
    and "t2 < t0 + TICKET_TTL" and "t3 < t0 + TICKET_TTL"
    and "consume_ticket t2 t3 (sr_data_channel resp) sid m1 = (res, m2)"
  shows "(\<exists>proto. forward_protocol_parse (sp_protocol ps) = Inr proto \<and>
           res = Inr \<lparr>fp_host = sr_resolved_host resp, fp_port = sp_port ps, fp_protocol = proto\<rparr>)
    \<and> resolve_forward_host e (sp_target ps) (sp_host ps) = Inr (sr_resolved_host resp)
    \<and> \<not> is_ok (fst (consume_ticket t4 t5 (sr_data_channel resp) sid' m2))"
proof -
  let ?l = "sr_data_channel resp"
  from assms(2) obtain proto host where proto: "forward_protocol_parse (sp_protocol ps) = Inr proto"
    and host: "resolve_forward_host e (sp_target ps) (sp_host ps) = Inr host"
    and resp: "sr_resolved_host resp = host"
    and m1: "m1 = hm_insert ?l \<lparr>pt_session_id = sid,
        pt_params = \<lparr>fp_host = host, fp_port = sp_port ps, fp_protocol = proto\<rparr>,
        pt_expires_at = t0 + TICKET_TTL\<rparr> (purge_expired t1 m)"
    by (auto simp: start_forward_def Let_def split: if_splits sum.splits)
  have wf: "hm_wf m1" using assms(1) by (simp add: m1 purge_expired_def)
  have get: "hm_get (purge_expired t2 m1) ?l = Some \<lparr>pt_session_id = sid,
        pt_params = \<lparr>fp_host = host, fp_port = sp_port ps, fp_protocol = proto\<rparr>,
        pt_expires_at = t0 + TICKET_TTL\<rparr>"
    using wf assms(3) unfolding purge_expired_def [of t2] by (simp add: m1)
  with assms(4,5) have res: "res = Inr \<lparr>fp_host = host, fp_port = sp_port ps, fp_protocol = proto\<rparr>"
    and m2: "m2 = hm_remove ?l (purge_expired t2 m1)"
    by (auto simp: consume_ticket_def Let_def)
  have "hm_wf m2" using wf by (simp add: m2 purge_expired_def)
  then have "hm_get (purge_expired t4 m2) ?l = None"
    unfolding purge_expired_def [of t4] by (simp add: hm.get_ret m2)
  then have "\<not> is_ok (fst (consume_ticket t4 t5 ?l sid' m2))"
    by (simp add: consume_ticket_def Let_def)
  with proto res resp host show ?thesis by auto
qed

theorem ticket_one_shot_witness:
  "\<exists>resp m1 m2. start_forward \<lparr>ssh_forwarding_enabled = False, network_adapter_enable = False, usb_leases = None\<rparr>
      ''id'' 0 0 ''s'' \<lparr>sp_target = None, sp_host = Some ''10.0.0.9'', sp_port = 22, sp_protocol = ''''\<rparr> [] = (Inr resp, m1)
   \<and> consume_ticket 1 1 (sr_data_channel resp) ''s'' m1
       = (Inr \<lparr>fp_host = ''10.0.0.9'', fp_port = 22, fp_protocol = Tcp\<rparr>, m2)
   \<and> \<not> is_ok (fst (consume_ticket 2 2 (sr_data_channel resp) ''s'' m2))"
proof -
  let ?e = "\<lparr>ssh_forwarding_enabled = False, network_adapter_enable = False, usb_leases = None\<rparr>"
  let ?ps = "\<lparr>sp_target = None, sp_host = Some ''10.0.0.9'', sp_port = (22::u16), sp_protocol = ''''\<rparr>"
  have host: "resolve_forward_host ?e None (Some ''10.0.0.9'') = Inr ''10.0.0.9''"
    by code_simp
  have proto: "forward_protocol_parse '''' = Inr Tcp" by code_simp
  obtain resp m1 where st: "start_forward ?e ''id'' 0 0 ''s'' ?ps [] = (Inr resp, m1)"
    using host proto by (simp add: start_forward_def Let_def purge_expired_def hm_retain_def
        MAX_PENDING_PER_SESSION_def)
  obtain res m2 where co: "consume_ticket 1 1 (sr_data_channel resp) ''s'' m1 = (res, m2)"
    by fastforce
  from ticket_one_shot [OF _ st _ _ co, of 2 2 "''s''"] host proto st co show ?thesis
    by (auto simp: TICKET_TTL_def)
qed

text \<open>
  A stranger cannot use or destroy a ticket. When a live ticket is presented by a session it
  was not issued to, the presentation fails and the owner can still consume the ticket with the
  same result.
\<close>

theorem ticket_wrong_session:
  assumes "hm_wf m" and "hm_get m label = Some t" and "pt_session_id t \<noteq> sid"
    and "t1 \<le> t2" and "t2 \<le> t3" and "t3 \<le> t4" and "t4 < pt_expires_at t"
  shows "\<not> is_ok (fst (consume_ticket t1 t2 label sid m))
    \<and> fst (consume_ticket t3 t4 label (pt_session_id t) (snd (consume_ticket t1 t2 label sid m)))
        = Inr (pt_params t)"
proof -
  have get: "hm_get (purge_expired t1 m) label = Some t"
    using assms by (simp add: purge_expired_def)
  have m1: "consume_ticket t1 t2 label sid m =
      (Inl ''[ticket_invalid] ip forward ticket session mismatch'',
       hm_insert label t (hm_remove label (purge_expired t1 m)))" (is "_ = (_, ?m1)")
    using assms get by (simp add: consume_ticket_def Let_def)
  have "hm_wf ?m1" using assms(1) by (simp add: purge_expired_def)
  then have "hm_get (purge_expired t3 ?m1) label = Some t"
    using assms unfolding purge_expired_def [of t3] hm.ret_Some [OF \<open>hm_wf ?m1\<close>] by simp
  then have "fst (consume_ticket t3 t4 label (pt_session_id t) ?m1) = Inr (pt_params t)"
    using assms by (simp add: consume_ticket_def Let_def)
  with m1 show ?thesis by simp
qed

theorem ticket_wrong_session_witness:
  "fst (consume_ticket 3 4 ''l'' ''owner''
      (snd (consume_ticket 1 2 ''l'' ''thief''
        [(''l'', \<lparr>pt_session_id = ''owner'', pt_params = \<lparr>fp_host = ''h'', fp_port = 1, fp_protocol = Udp\<rparr>, pt_expires_at = 9\<rparr>)])))
   = Inr \<lparr>fp_host = ''h'', fp_port = 1, fp_protocol = Udp\<rparr>"
  using ticket_wrong_session [of "[(''l'', \<lparr>pt_session_id = ''owner'', pt_params = \<lparr>fp_host = ''h'', fp_port = 1, fp_protocol = Udp\<rparr>, pt_expires_at = 9\<rparr>)]"
      "''l''" "\<lparr>pt_session_id = ''owner'', pt_params = \<lparr>fp_host = ''h'', fp_port = 1, fp_protocol = Udp\<rparr>, pt_expires_at = 9\<rparr>"
      "''thief''" 1 2 3 4]
  by (simp add: hm_wf_def)

end
