(* ===== verification/Kvm_Device.thy ===== *)
theory Kvm_Device
  imports Control_Lease Ip_Forward
begin

text \<open>
  The session side of the device put together: \<^verbatim>\<open>arkkvm/src/webrtc/mod.rs\<close> (claiming a role,
  closing sessions, media sinks), \<^verbatim>\<open>webrtc/handler.rs\<close> (ICE callbacks),
  \<open>remove_session_inner\<close> of \<^verbatim>\<open>state.rs\<close> with the calls it makes into the lease and the ticket
  store, and \<^verbatim>\<open>hardware/usb/mcp_ssh.rs\<close> (the MCP and SSH switches). A handler runs to its end
  before the next one starts; interleavings of the lease's own critical sections are covered in
  \<^theory_text>\<open>Control_Lease\<close>. What the handlers ask of the WebRTC stack and of the USB sidecar is in the
  environment records.
\<close>

section \<open>State\<close>

datatype codec_kind = Video | Audio

record rtp_codec =
  c_mime_type :: string
  c_payload_type :: u8

text \<open>A sender of a peer connection: the kind of its track and, unless the call fails, its codecs.\<close>

record rtp_sender =
  snd_kind :: codec_kind
  snd_codecs :: "rtp_codec list option"

record webrtc_env =
  we_senders :: "nat \<Rightarrow> rtp_sender list"
  we_media_is_webrtc :: bool

record sink_entry =
  se_session_id :: string
  se_track :: nat
  se_ssrc :: u32
  se_payload_type :: u8

datatype network_adapter_kind = Ncm | Rndis

record network_adapter_l3 =
  l3_ip_address :: string
  l3_subnet_mask :: string
  l3_gateway :: "string option"
  l3_dns_servers :: "string list option"

record network_adapter_pref =
  na_enable :: bool
  na_adapter_type :: network_adapter_kind
  na_l3_config :: network_adapter_l3

record usb_devices_pref =
  ud_absolute_mouse :: bool
  ud_relative_mouse :: bool
  ud_keyboard :: bool
  ud_mass_storage_vm :: bool
  ud_mass_storage_ft :: bool
  ud_microphone :: bool
  ud_camera :: bool
  ud_network_adapter :: network_adapter_pref

text \<open>Calls into other parts whose result is ignored.\<close>

datatype side_call = SetMicProcess bool | UninitVirtualMic | UnmountFileImg

record device =
  d_app :: app_state
  d_lease :: lease
  d_timers :: "(nat \<times> u64 \<times> string) list"
  d_tickets :: tickets
  d_video_sinks :: "(session_role, sink_entry) hmap"
  d_audio_sinks :: "(session_role, sink_entry) hmap"
  d_closers :: "(nat \<times> string \<times> nat) list"
  d_mcp :: bool
  d_ssh :: bool
  d_usb_devices :: usb_devices_pref
  d_mic_emulation :: bool
  d_calls :: "side_call list"
  d_now :: nat

datatype effect =
    AppEffect app_effect
  | ControlNotice nat string control_payload
  | SessionCountChanged nat nat
  | OtherSessionConnected nat
  | TerminalStopped nat
  | PeerClosed nat
  | MediaUnmounted

section \<open>Media sinks\<close>

fun preferred_mime :: "codec_kind \<Rightarrow> string" where
  "preferred_mime Video = ''video/H264''"
| "preferred_mime Audio = ''audio/opus''"

fun negotiated_payload_type :: "codec_kind \<Rightarrow> rtp_sender list \<Rightarrow> u8 option" where
  "negotiated_payload_type k [] = None"
| "negotiated_payload_type k (x # xs) =
     (if snd_kind x \<noteq> k then negotiated_payload_type k xs
      else case snd_codecs x of
        None \<Rightarrow> None
      | Some cs \<Rightarrow>
          (case find (\<lambda>c. eq_ignore_ascii_case (c_mime_type c) (preferred_mime k)) cs of
             Some c \<Rightarrow> Some (c_payload_type c)
           | None \<Rightarrow> (case cs of [] \<Rightarrow> None | c # _ \<Rightarrow> Some (c_payload_type c))))"

definition payload_type_for :: "webrtc_env \<Rightarrow> codec_kind \<Rightarrow> u8 \<Rightarrow> nat option \<Rightarrow> u8" where
  "payload_type_for e k dflt peer =
     (case peer of
        None \<Rightarrow> dflt
      | Some pc \<Rightarrow> (case negotiated_payload_type k (we_senders e pc) of None \<Rightarrow> dflt | Some pt \<Rightarrow> pt))"

definition attach_webrtc_sink ::
  "session_role \<Rightarrow> string \<Rightarrow> nat \<Rightarrow> u32 \<Rightarrow> u8 \<Rightarrow> (session_role, sink_entry) hmap \<Rightarrow> (session_role, sink_entry) hmap" where
  "attach_webrtc_sink r sid track ssrc pt sinks =
     hm_insert r \<lparr>se_session_id = sid, se_track = track, se_ssrc = ssrc, se_payload_type = pt\<rparr> sinks"

definition detach_if_session ::
  "session_role \<Rightarrow> string \<Rightarrow> (session_role, sink_entry) hmap \<Rightarrow> (session_role, sink_entry) hmap" where
  "detach_if_session r sid sinks =
     (case hm_get sinks r of
        None \<Rightarrow> sinks
      | Some x \<Rightarrow> if se_session_id x = sid then hm_remove r sinks else sinks)"

definition is_connected :: "ice_state \<Rightarrow> bool" where
  "is_connected st = (st = Connected \<or> st = Completed)"

definition attach_role_session_sinks_if_connected ::
  "webrtc_env \<Rightarrow> session \<Rightarrow> ice_state \<Rightarrow> device \<Rightarrow> device" where
  "attach_role_session_sinks_if_connected e s st d =
     (if \<not> is_role_slot_holder (d_app d) (s_id s) \<or> \<not> is_connected st then d
      else let d1 = (case (s_video_track s, s_video_ssrc s) of
                 (Some t, Some ssrc) \<Rightarrow>
                   d\<lparr>d_video_sinks := attach_webrtc_sink (s_role s) (s_id s) t ssrc
                       (payload_type_for e Video 102 (s_peer s)) (d_video_sinks d)\<rparr>
               | _ \<Rightarrow> d)
           in (case (s_audio_track s, s_audio_ssrc s) of
                 (Some t, Some ssrc) \<Rightarrow>
                   d1\<lparr>d_audio_sinks := attach_webrtc_sink (s_role s) (s_id s) t ssrc
                       (payload_type_for e Audio 111 (s_peer s)) (d_audio_sinks d1)\<rparr>
               | _ \<Rightarrow> d1))"

section \<open>Notifications and the lease\<close>

definition on_active_sessions_changed :: "device \<Rightarrow> effect list" where
  "on_active_sessions_changed d =
     (case get_session_for_role (d_app d) User of
        None \<Rightarrow> []
      | Some p \<Rightarrow> [SessionCountChanged p (session_count (d_app d))])"

definition notices :: "device \<Rightarrow> control_event list \<Rightarrow> effect list" where
  "notices d evs = map (\<lambda>(p, m, x). ControlNotice p m x) (dispatch_events (d_app d) evs)"

definition on_role_claimed :: "session_role \<Rightarrow> bool \<Rightarrow> device \<Rightarrow> device \<times> effect list" where
  "on_role_claimed r previous_user d =
     (let (l, evs) = on_role_claimed_locked (d_now d) r previous_user
            (role_still_online (d_app d) User) (role_still_online (d_app d) Agent) (d_lease d)
      in (d\<lparr>d_lease := l\<rparr>, notices d evs))"

definition on_session_removed :: "session_role \<Rightarrow> device \<Rightarrow> device \<times> effect list" where
  "on_session_removed r d =
     (let (l, evs) = on_session_removed_locked r (role_still_online (d_app d) User)
            (role_still_online (d_app d) Agent) (d_lease d)
      in (d\<lparr>d_lease := l\<rparr>, notices d evs))"

section \<open>Removal\<close>

definition remove_session_inner ::
  "string \<Rightarrow> nat option \<Rightarrow> device \<Rightarrow> device \<times> nat option \<times> effect list" where
  "remove_session_inner i expected d =
     (case remove_session_app i expected (d_app d) of
        (a, None, _) \<Rightarrow> (d, None, [])
      | (a, Some p, effs) \<Rightarrow>
          let d1 = d\<lparr>d_app := a, d_tickets := clear_session i (d_tickets d)\<rparr>;
              (d2, ns) = (case heap a p of
                 None \<Rightarrow> (d1, [])
               | Some s \<Rightarrow> on_session_removed (s_role s) d1)
          in (d2, Some p, ns @ map AppEffect effs))"

definition remove_session :: "string \<Rightarrow> device \<Rightarrow> device \<times> nat option \<times> effect list" where
  "remove_session i d = remove_session_inner i None d"

definition remove_session_for_peer :: "string \<Rightarrow> nat \<Rightarrow> device \<Rightarrow> device \<times> nat option \<times> effect list" where
  "remove_session_for_peer i peer d = remove_session_inner i (Some peer) d"

definition close_removed_session :: "nat \<Rightarrow> device \<Rightarrow> device \<times> effect list" where
  "close_removed_session p d =
     (case heap (d_app d) p of
        None \<Rightarrow> (d, [])
      | Some s \<Rightarrow>
          let (slot, h) = stop_terminal (s_terminal s)
          in (d\<lparr>d_app := (d_app d)\<lparr>heap := (heap (d_app d))(p \<mapsto> s\<lparr>s_terminal := slot\<rparr>)\<rparr>\<rparr>,
              (case h of None \<Rightarrow> [] | Some t \<Rightarrow> [TerminalStopped t]) @
              (case s_peer s of None \<Rightarrow> [] | Some pc \<Rightarrow> [PeerClosed pc])))"

definition cleanup_last_session_resources :: "webrtc_env \<Rightarrow> device \<Rightarrow> device \<times> effect list" where
  "cleanup_last_session_resources e d =
     (if session_count (d_app d) \<noteq> 0 then (d, [])
      else (d\<lparr>d_video_sinks := [], d_audio_sinks := []\<rparr>,
            if we_media_is_webrtc e then [MediaUnmounted] else []))"

definition remove_and_close_with ::
  "webrtc_env \<Rightarrow> string \<Rightarrow> nat option \<Rightarrow> device \<Rightarrow> device \<times> bool \<times> effect list" where
  "remove_and_close_with e i expected d =
     (case remove_session_inner i expected d of
        (d1, None, e1) \<Rightarrow> (d1, False, e1)
      | (d1, Some p, e1) \<Rightarrow>
          let (d2, e2) = close_removed_session p d1;
              (d3, e3) = cleanup_last_session_resources e d2
          in (d3, True, e1 @ e2 @ e3))"

definition remove_and_close_session :: "webrtc_env \<Rightarrow> string \<Rightarrow> device \<Rightarrow> device \<times> bool \<times> effect list" where
  "remove_and_close_session e i d = remove_and_close_with e i None d"

definition remove_and_close_session_for_peer ::
  "webrtc_env \<Rightarrow> string \<Rightarrow> nat \<Rightarrow> device \<Rightarrow> device \<times> bool \<times> effect list" where
  "remove_and_close_session_for_peer e i peer d = remove_and_close_with e i (Some peer) d"

section \<open>Registration and claims\<close>

text \<open>The end of \<open>new_session_with_config\<close>: register, and close a session of the same id it replaces.\<close>

definition register_session :: "nat \<Rightarrow> session \<Rightarrow> device \<Rightarrow> device \<times> effect list" where
  "register_session p s d =
     (case add_session p s (d_app d) of
        (a, previous, effs) \<Rightarrow>
          let d1 = d\<lparr>d_app := a\<rparr>;
              (d2, e2) = (case previous of None \<Rightarrow> (d1, []) | Some q \<Rightarrow> close_removed_session q d1)
          in (d2, map AppEffect effs @ e2))"

definition TAKEOVER_CLOSE_DELAY :: nat where
  "TAKEOVER_CLOSE_DELAY = 10 ^ 9"

definition activate_claimed :: "webrtc_env \<Rightarrow> nat \<Rightarrow> session \<Rightarrow> nat option \<Rightarrow> device \<Rightarrow> device \<times> effect list" where
  "activate_claimed e p s previous d =
     (let st = (case session_at (d_app d) (s_id s) of None \<Rightarrow> Unspecified | Some reg \<Rightarrow> s_ice reg);
          d1 = attach_role_session_sinks_if_connected e s st d;
          e1 = on_active_sessions_changed d
      in case previous of
           None \<Rightarrow> (d1, e1)
         | Some q \<Rightarrow>
             if q = p then (d1, e1)
             else (case heap (d_app d1) q of
                     None \<Rightarrow> (d1, e1 @ [OtherSessionConnected q])
                   | Some old \<Rightarrow>
                       (case s_peer old of
                          None \<Rightarrow> (d1, e1 @ [OtherSessionConnected q])
                        | Some pc \<Rightarrow>
                            (d1\<lparr>d_closers := (d_now d1 + TAKEOVER_CLOSE_DELAY, s_id old, pc) # d_closers d1\<rparr>,
                             e1 @ [OtherSessionConnected q]))))"

definition claim_and_activate_session ::
  "webrtc_env \<Rightarrow> nat \<Rightarrow> device \<Rightarrow> device \<times> claim_role_result \<times> effect list" where
  "claim_and_activate_session e p d =
     (case heap (d_app d) p of
        None \<Rightarrow> (d, NotRegistered, [])
      | Some s \<Rightarrow>
          if s_role s = Agent \<and> \<not> d_mcp d then (d, RejectedMcpDisabled, [])
          else case claim_role_slot p (d_app d) of
            (a, Accepted previous) \<Rightarrow>
              let (d1, e1) = activate_claimed e p s previous (d\<lparr>d_app := a\<rparr>);
                  prev = (previous \<noteq> None \<and> previous \<noteq> Some p);
                  (d2, e2) = on_role_claimed (s_role s) prev d1
              in (d2, Accepted previous, e1 @ e2)
          | (a, res) \<Rightarrow> (d\<lparr>d_app := a\<rparr>, res, []))"

definition handle_session_takeover ::
  "webrtc_env \<Rightarrow> nat \<Rightarrow> device \<Rightarrow> device \<times> (string, unit) result \<times> effect list" where
  "handle_session_takeover e p d =
     (case claim_and_activate_session e p d of
        (d', Accepted _, effs) \<Rightarrow> (d', Inr (), effs)
      | (d', RejectedOccupied, effs) \<Rightarrow> (d', Inl ''agent session slot is already occupied'', effs)
      | (d', RejectedMcpDisabled, effs) \<Rightarrow> (d', Inl ''MCP is disabled on the device'', effs)
      | (d', NotRegistered, effs) \<Rightarrow> (d', Inl ''session is no longer registered'', effs))"

definition close_previous_session_after_delay ::
  "webrtc_env \<Rightarrow> nat \<times> string \<times> nat \<Rightarrow> device \<Rightarrow> device \<times> effect list" where
  "close_previous_session_after_delay e job d =
     (case job of (t, old_id, old_peer) \<Rightarrow>
        if job \<in> set (d_closers d) \<and> t \<le> d_now d
        then case remove_and_close_session_for_peer e old_id old_peer (d\<lparr>d_closers := remove1 job (d_closers d)\<rparr>)
               of (d', _, effs) \<Rightarrow> (d', effs)
        else (d, []))"

definition update_session_rpc_channel :: "string \<Rightarrow> nat \<Rightarrow> device \<Rightarrow> device \<times> effect list" where
  "update_session_rpc_channel i c d =
     (case set_rpc_channel i c (d_app d) of
        (a, None) \<Rightarrow> (d, [])
      | (a, Some p) \<Rightarrow>
          (d\<lparr>d_app := a\<rparr>,
           case heap a p of
             None \<Rightarrow> []
           | Some s \<Rightarrow> map (\<lambda>(q, m, x). ControlNotice q m x) (on_rpc_ready (d_now d) p (s_role s) (d_lease d))))"


section \<open>ICE callbacks\<close>

text \<open>
  The callback of the connection built for session object \<open>p\<close>; \<open>alive\<close> says whether the
  weak reference to the peer connection can still be upgraded. The connection-state cell is
  shared between the handler and the session object.
\<close>

definition on_ice_connected :: "webrtc_env \<Rightarrow> nat \<Rightarrow> session \<Rightarrow> bool \<Rightarrow> device \<Rightarrow> device \<times> effect list" where
  "on_ice_connected e p s alive d =
     (case (if alive then s_peer s else None) of
        None \<Rightarrow> (d, [])
      | Some peer \<Rightarrow>
          if \<not> session_owns_peer (d_app d) (s_id s) peer then (d, [])
          else let (a, wrote) = set_role_slot_if_none (s_role s) (s_id s) (d_app d);
                   d1 = d\<lparr>d_app := a\<rparr>;
                   e1 = (if wrote then on_active_sessions_changed d1 else [])
               in if \<not> is_role_slot_holder a (s_id s) then (d1, e1)
                  else case heap a p of
                    None \<Rightarrow> (d1, e1)
                  | Some s1 \<Rightarrow>
                      if \<not> is_connected (s_ice s1) then (d1, e1)
                      else case session_at a (s_id s) of
                        None \<Rightarrow> (d1, e1)
                      | Some reg \<Rightarrow> (attach_role_session_sinks_if_connected e reg (s_ice s1) d1, e1))"

definition on_ice_disconnected :: "session \<Rightarrow> bool \<Rightarrow> device \<Rightarrow> device" where
  "on_ice_disconnected s alive d =
     (case (if alive then s_peer s else None) of
        None \<Rightarrow> d
      | Some peer \<Rightarrow>
          if \<not> session_owns_peer (d_app d) (s_id s) peer then d
          else d\<lparr>d_video_sinks := detach_if_session (s_role s) (s_id s) (d_video_sinks d),
                 d_audio_sinks := detach_if_session (s_role s) (s_id s) (d_audio_sinks d)\<rparr>)"

definition on_ice_failed :: "webrtc_env \<Rightarrow> session \<Rightarrow> bool \<Rightarrow> device \<Rightarrow> device \<times> effect list" where
  "on_ice_failed e s alive d =
     (case (if alive then s_peer s else None) of
        None \<Rightarrow> (d, [])
      | Some peer \<Rightarrow>
          (case remove_session_for_peer (s_id s) peer d of
             (d1, None, e1) \<Rightarrow> (d1, e1)
           | (d1, Some q, e1) \<Rightarrow>
               let (d2, e2) = close_removed_session q d1;
                   e3 = on_active_sessions_changed d2;
                   (d4, e4) = cleanup_last_session_resources e d2
               in (d4, e1 @ e2 @ e3 @ e4)))"

definition on_ice_connection_state_change ::
  "webrtc_env \<Rightarrow> nat \<Rightarrow> bool \<Rightarrow> ice_state \<Rightarrow> device \<Rightarrow> device \<times> effect list" where
  "on_ice_connection_state_change e p alive st d =
     (case heap (d_app d) p of
        None \<Rightarrow> (d, [])
      | Some s \<Rightarrow>
          let d1 = d\<lparr>d_app := (d_app d)\<lparr>heap := (heap (d_app d))(p \<mapsto> s\<lparr>s_ice := st\<rparr>)\<rparr>\<rparr>
          in (case st of
                Connected \<Rightarrow> on_ice_connected e p s alive d1
              | Disconnected \<Rightarrow> (on_ice_disconnected s alive d1, [])
              | Failed \<Rightarrow> on_ice_failed e s alive d1
              | IceClosed \<Rightarrow> on_ice_failed e s alive d1
              | _ \<Rightarrow> (d1, [])))"

section \<open>MCP and SSH forwarding\<close>

definition devices_for_apply :: "usb_devices_pref \<Rightarrow> bool \<Rightarrow> usb_devices_pref" where
  "devices_for_apply pref ssh =
     (let d = pref\<lparr>ud_network_adapter := (ud_network_adapter pref)\<lparr>na_enable := ssh\<rparr>\<rparr>
      in if ssh then d\<lparr>ud_relative_mouse := False, ud_microphone := False\<rparr> else d)"

definition devices_for_persist :: "usb_devices_pref \<Rightarrow> bool \<Rightarrow> usb_devices_pref" where
  "devices_for_persist pref ssh =
     pref\<lparr>ud_network_adapter := (ud_network_adapter pref)\<lparr>na_enable := ssh\<rparr>\<rparr>"

text \<open>
  What the environment decides: what the sidecar answers to the devices on the n-th attempt,
  whether each write of the configuration succeeds, and whether the USB client exists. An update
  changes the configuration in memory, which is what later calls read, before it validates and
  saves it: when that fails the new value stays and the call reports an error.
\<close>

record ssh_env =
  sv_reconcile :: "nat \<Rightarrow> usb_devices_pref \<Rightarrow> (string, unit) result"
  sv_save_devices :: bool
  sv_save_mcp :: bool
  sv_save_ssh :: bool
  sv_save_mic :: bool
  sv_has_usb :: bool

definition update_config :: "bool \<Rightarrow> (device \<Rightarrow> device) \<Rightarrow> device \<Rightarrow> device \<times> (string, unit) result" where
  "update_config saved updater d = (updater d, if saved then Inr () else Inl ''config'')"

text \<open>
  A write of the flag that cannot be saved is only logged: the flag in memory is off all the same. The
  calls into other parts, whose failures are only logged too, are recorded in order.
\<close>

definition stop_mic_process_if_running :: "ssh_env \<Rightarrow> device \<Rightarrow> device" where
  "stop_mic_process_if_running v d =
     (if d_mic_emulation d \<and> sv_has_usb v
      then fst (update_config (sv_save_mic v) (\<lambda>x. x\<lparr>d_mic_emulation := False\<rparr>)
             (d\<lparr>d_calls := d_calls d @ [SetMicProcess False, UninitVirtualMic]\<rparr>))
      else d)"

text \<open>The three writes after a successful reconcile; the first failure ends the call.\<close>

definition persist_ssh_state ::
  "ssh_env \<Rightarrow> usb_devices_pref \<Rightarrow> bool \<Rightarrow> bool \<Rightarrow> device \<Rightarrow> device \<times> (string, unit) result" where
  "persist_ssh_state v devs mcp ssh d =
     (case update_config (sv_save_devices v) (\<lambda>x. x\<lparr>d_usb_devices := devs\<rparr>) d of
        (d1, Inl err) \<Rightarrow> (d1, Inl err)
      | (d1, Inr _) \<Rightarrow>
          (case update_config (sv_save_mcp v) (\<lambda>x. x\<lparr>d_mcp := mcp\<rparr>) d1 of
             (d2, Inl err) \<Rightarrow> (d2, Inl err)
           | (d2, Inr _) \<Rightarrow> update_config (sv_save_ssh v) (\<lambda>x. x\<lparr>d_ssh := ssh\<rparr>) d2))"

fun apply_attempts ::
  "ssh_env \<Rightarrow> nat \<Rightarrow> nat \<Rightarrow> string option \<Rightarrow> usb_devices_pref \<Rightarrow> usb_devices_pref \<Rightarrow> bool \<Rightarrow> bool \<Rightarrow> device
     \<Rightarrow> device \<times> (string, unit) result" where
  "apply_attempts v 0 attempt last_err apply_devs persist_devs mcp ssh d =
     (d, Inl (case last_err of Some e \<Rightarrow> e | None \<Rightarrow> ''mcp_ssh apply failed''))"
| "apply_attempts v (Suc n) attempt last_err apply_devs persist_devs mcp ssh d =
     (case sv_reconcile v attempt apply_devs of
        Inr _ \<Rightarrow> persist_ssh_state v persist_devs mcp ssh d
      | Inl e \<Rightarrow> apply_attempts v n (attempt + 1) (Some e) apply_devs persist_devs mcp ssh d)"

definition apply_ssh_forwarding_state ::
  "ssh_env \<Rightarrow> bool \<Rightarrow> bool \<Rightarrow> device \<Rightarrow> device \<times> (string, unit) result" where
  "apply_ssh_forwarding_state v mcp ssh d =
     (let pref = d_usb_devices d;
          d1 = (if ssh then let x = stop_mic_process_if_running v d in x\<lparr>d_calls := d_calls x @ [UnmountFileImg]\<rparr> else d)
      in apply_attempts v 5 1 None (devices_for_apply pref ssh) (devices_for_persist pref ssh) mcp ssh d1)"

definition reconcile_with_ssh_overlay :: "ssh_env \<Rightarrow> device \<Rightarrow> device \<times> (string, unit) result" where
  "reconcile_with_ssh_overlay v d =
     (let pref = d_usb_devices d; persist = devices_for_persist pref (d_ssh d)
      in case sv_reconcile v 1 (devices_for_apply pref (d_ssh d)) of
           Inl err \<Rightarrow> (d, Inl err)
         | Inr _ \<Rightarrow>
             if na_enable (ud_network_adapter pref) \<noteq> na_enable (ud_network_adapter persist)
             then update_config (sv_save_devices v) (\<lambda>x. x\<lparr>d_usb_devices := persist\<rparr>) d
             else (d, Inr ()))"

definition disconnect_agent_for_mcp_off :: "webrtc_env \<Rightarrow> device \<Rightarrow> device \<times> effect list" where
  "disconnect_agent_for_mcp_off e d =
     (case get_session_for_role (d_app d) Agent of
        None \<Rightarrow> (d, [])
      | Some p \<Rightarrow>
          (case heap (d_app d) p of
             None \<Rightarrow> (d, [])
           | Some s \<Rightarrow> (case remove_and_close_session e (s_id s) d of (d', _, effs) \<Rightarrow> (d', effs))))"

definition set_mcp_enabled ::
  "webrtc_env \<Rightarrow> ssh_env \<Rightarrow> bool \<Rightarrow> device \<Rightarrow> device \<times> (string, unit) result \<times> effect list" where
  "set_mcp_enabled e v enabled d =
     (if enabled = d_mcp d then (d, Inr (), [])
      else if \<not> enabled
      then case (if d_ssh d then apply_ssh_forwarding_state v False False d
                 else update_config (sv_save_mcp v) (\<lambda>x. x\<lparr>d_mcp := False\<rparr>) d) of
             (d1, Inl err) \<Rightarrow> (d1, Inl err, [])
           | (d1, Inr _) \<Rightarrow>
               (case disconnect_agent_for_mcp_off e d1 of (d2, effs) \<Rightarrow> (d2, Inr (), effs))
      else case update_config (sv_save_mcp v) (\<lambda>x. x\<lparr>d_mcp := True\<rparr>) d of (d1, r) \<Rightarrow> (d1, r, []))"

definition set_ssh_forwarding ::
  "ssh_env \<Rightarrow> bool \<Rightarrow> device \<Rightarrow> device \<times> (string, unit) result" where
  "set_ssh_forwarding v enabled d =
     (if enabled \<and> \<not> d_mcp d then (d, Inl ''mcp_disabled: enable MCP before SSH Forwarding'')
      else if enabled = d_ssh d then (d, Inr ())
      else apply_ssh_forwarding_state v (d_mcp d) enabled d)"


section \<open>The device as a state machine\<close>

definition lift_lease ::
  "(string, control_state_view) result \<times> lease \<times> control_event list \<Rightarrow> device \<Rightarrow> device" where
  "lift_lease r d = d\<lparr>d_lease := fst (snd r)\<rparr>"

definition rpc_request_control :: "string \<Rightarrow> string \<Rightarrow> device \<Rightarrow> device" where
  "rpc_request_control sid uuid d =
     (case request_control (d_app d) (d_mcp d) (d_now d) uuid sid (d_lease d) of
        (_, l, None, _) \<Rightarrow> d\<lparr>d_lease := l\<rparr>
      | (_, l, Some (g, i), _) \<Rightarrow>
          d\<lparr>d_lease := l, d_timers := (d_now d + CONTROL_TIMEOUT, g, i) # d_timers d\<rparr>)"

definition timer_fires :: "nat \<times> u64 \<times> string \<Rightarrow> device \<Rightarrow> device" where
  "timer_fires tm d =
     (case tm of (t, g, i) \<Rightarrow>
        if tm \<in> set (d_timers d) \<and> t \<le> d_now d
        then d\<lparr>d_lease := fst (on_timeout (d_mcp d) g i (d_lease d)), d_timers := remove1 tm (d_timers d)\<rparr>
        else d)"

datatype device_action =
    Register nat session
  | Claim nat
  | IceChange nat bool ice_state
  | RemoveById string
  | CloserFires "nat \<times> string \<times> nat"
  | RpcChannel string nat
  | RpcRequestControl string string
  | RpcResolve string "string option" bool
  | RpcTakeOver string
  | RpcRelease string
  | LeaseTimer "nat \<times> u64 \<times> string"
  | SetMcp bool
  | SetSsh bool
  | Reconcile
  | StartForward string string start_params
  | ConsumeTicket string string
  | Wait nat

record kvm_env =
  ke_webrtc :: webrtc_env
  ke_ssh :: ssh_env
  ke_forward :: forward_env

text \<open>The two flags the forward resolver reads are the device's own configuration.\<close>

definition forward_env_of :: "kvm_env \<Rightarrow> device \<Rightarrow> forward_env" where
  "forward_env_of e d = (ke_forward e)\<lparr>ssh_forwarding_enabled := d_ssh d,
     network_adapter_enable := na_enable (ud_network_adapter (d_usb_devices d))\<rparr>"

fun device_step :: "kvm_env \<Rightarrow> device_action \<Rightarrow> device \<Rightarrow> device" where
  "device_step e (Register p s) d = fst (register_session p s d)"
| "device_step e (Claim p) d = fst (claim_and_activate_session (ke_webrtc e) p d)"
| "device_step e (IceChange p alive st) d = fst (on_ice_connection_state_change (ke_webrtc e) p alive st d)"
| "device_step e (RemoveById i) d = fst (remove_and_close_session (ke_webrtc e) i d)"
| "device_step e (CloserFires job) d = fst (close_previous_session_after_delay (ke_webrtc e) job d)"
| "device_step e (RpcChannel i c) d = fst (update_session_rpc_channel i c d)"
| "device_step e (RpcRequestControl sid uuid) d = rpc_request_control sid uuid d"
| "device_step e (RpcResolve sid rid grant) d =
     lift_lease (resolve_pending (d_app d) (d_now d) sid rid grant (d_lease d)) d"
| "device_step e (RpcTakeOver sid) d = lift_lease (take_over_control (d_app d) (d_now d) sid (d_lease d)) d"
| "device_step e (RpcRelease sid) d = lift_lease (release_control (d_app d) (d_now d) sid (d_lease d)) d"
| "device_step e (LeaseTimer tm) d = timer_fires tm d"
| "device_step e (SetMcp b) d = fst (set_mcp_enabled (ke_webrtc e) (ke_ssh e) b d)"
| "device_step e (SetSsh b) d = fst (set_ssh_forwarding (ke_ssh e) b d)"
| "device_step e Reconcile d = fst (reconcile_with_ssh_overlay (ke_ssh e) d)"
| "device_step e (StartForward sid uuid ps) d =
     d\<lparr>d_tickets := snd (start_forward (forward_env_of e d) uuid (d_now d) (d_now d) sid ps (d_tickets d))\<rparr>"
| "device_step e (ConsumeTicket label sid) d =
     d\<lparr>d_tickets := snd (consume_ticket (d_now d) (d_now d) label sid (d_tickets d))\<rparr>"
| "device_step e (Wait n) d = d\<lparr>d_now := d_now d + n\<rparr>"

definition device_init :: "usb_devices_pref \<Rightarrow> device" where
  "device_init pref = \<lparr>d_app = app_new, d_lease = lease_default, d_timers = [], d_tickets = [],
     d_video_sinks = [], d_audio_sinks = [], d_closers = [], d_mcp = False, d_ssh = False,
     d_usb_devices = pref, d_mic_emulation = False, d_calls = [], d_now = 0\<rparr>"

text \<open>
  A new session object is new and so is its peer connection: this is how the signalling code builds
  sessions. \<open>device_reachable\<close> are all states it can then reach. Nothing in the code makes an offer on a
  connection keep the role of the session it replaces; \<open>device_steady\<close> are the states of runs in which every
  offer does.
\<close>

definition fresh_peer :: "session \<Rightarrow> app_state \<Rightarrow> bool" where
  "fresh_peer s a = (\<forall>q t. heap a q = Some t \<longrightarrow> s_peer t \<noteq> None \<longrightarrow> s_peer t \<noteq> s_peer s)"

fun action_ok :: "device_action \<Rightarrow> device \<Rightarrow> bool" where
  "action_ok (Register p s) d = (heap (d_app d) p = None \<and> fresh_peer s (d_app d))"
| "action_ok _ d = True"

inductive device_reachable :: "device \<Rightarrow> bool" where
  boot: "device_reachable (device_init pref)"
| act: "device_reachable d \<Longrightarrow> action_ok a d \<Longrightarrow> device_reachable (device_step e a d)"

fun steady_action :: "device_action \<Rightarrow> device \<Rightarrow> bool" where
  "steady_action (Register p s) d = (steady_registration p s (d_app d) \<and> fresh_peer s (d_app d))"
| "steady_action _ d = True"

inductive device_steady :: "device \<Rightarrow> bool" where
  init: "device_steady (device_init pref)"
| step: "device_steady d \<Longrightarrow> steady_action a d \<Longrightarrow> device_steady (device_step e a d)"

lemma device_steady_reachable: "device_steady d \<Longrightarrow> device_reachable d"
proof (induction rule: device_steady.induct)
  case (step d a e)
  then have "action_ok a d" by (cases a) (auto simp: steady_registration_def)
  with step.IH show ?case by (rule device_reachable.act)
qed (rule device_reachable.boot)

section \<open>Invariant\<close>

text \<open>
  The registry is consistent; a peer connection belongs to one session object; an arbitration is
  between the owner and the other role; the owner and a pending requester are roles whose slot
  is held by a registered session.
\<close>

definition lease_online :: "app_state \<Rightarrow> lease \<Rightarrow> bool" where
  "lease_online a l = (arbitration_ok l
     \<and> (\<forall>r. l_owner l = Some r \<longrightarrow> role_still_online a r)
     \<and> (\<forall>p. l_pending l = Some p \<longrightarrow> role_still_online a (pr_requester p)))"

definition peers_ok :: "app_state \<Rightarrow> bool" where
  "peers_ok a = (\<forall>p q s t pc. heap a p = Some s \<longrightarrow> heap a q = Some t \<longrightarrow>
      s_peer s = Some pc \<longrightarrow> s_peer t = Some pc \<longrightarrow> p = q)"

definition dev_inv :: "device \<Rightarrow> bool" where
  "dev_inv d = (app_inv (d_app d) \<and> peers_ok (d_app d) \<and> lease_online (d_app d) (d_lease d))"

lemma peers_ok_update:
  assumes "peers_ok a" "\<And>p s'. heap a' p = Some s' \<Longrightarrow> \<exists>s. heap a p = Some s \<and> s_peer s' = s_peer s"
  shows "peers_ok a'"
  using assms unfolding peers_ok_def by metis

lemma role_still_online_iff:
  assumes "app_inv a"
  shows "role_still_online a r \<longleftrightarrow> hm_get (role_sessions a) r \<noteq> None"
  using assms slot_role [OF assms, of r]
  by (fastforce simp: role_still_online_def get_session_for_role_def session_at_def get_session_by_id_def
      bind_eq_Some_conv split: option.splits)

lemma settles_arbitration: "arbitration_ok l \<Longrightarrow> settles l l' \<Longrightarrow> arbitration_ok l'"
  by (auto simp: settles_def arbitration_ok_def split: option.splits)

lemma lease_online_mono:
  "lease_online a l \<Longrightarrow> (\<And>r. role_still_online a r \<Longrightarrow> role_still_online a' r) \<Longrightarrow> lease_online a' l"
  by (auto simp: lease_online_def)

lemma lease_online_claimed:
  assumes "lease_online a l" "role_still_online a r"
  shows "lease_online a (fst (on_role_claimed_locked now r prev uo ao l))"
  using assms settles_arbitration [OF _ settles_claimed, of l now r prev uo ao]
  by (auto simp: lease_online_def on_role_claimed_locked_def split: session_role.splits if_splits)

lemma lease_online_removed:
  assumes "arbitration_ok l"
    and "\<forall>r'. l_owner l = Some r' \<longrightarrow> r' = r \<or> role_still_online a r'"
    and "\<forall>p. l_pending l = Some p \<longrightarrow> pr_requester p = r \<or> role_still_online a (pr_requester p)"
  shows "lease_online a
    (fst (on_session_removed_locked r (role_still_online a User) (role_still_online a Agent) l))"
  using assms settles_arbitration [OF _ settles_removed, of l r "role_still_online a User" "role_still_online a Agent"]
  by (cases r) (auto simp: lease_online_def on_session_removed_locked_def Let_def split: option.splits if_splits)

lemma lease_online_resolved:
  assumes "lease_online a l"
  shows "lease_online a (fst (snd (resolve_pending_locked now r rid grant l)))"
  using assms settles_arbitration [OF _ settles_resolved, of l now r rid grant]
  by (auto simp: lease_online_def resolve_pending_locked_def Let_def split: option.splits)

lemma lease_online_released:
  assumes "lease_online a l"
  shows "lease_online a (fst (snd (release_control_locked now r (role_still_online a User) (role_still_online a Agent) l)))"
  using assms settles_arbitration [OF _ settles_released, of l now r "role_still_online a User" "role_still_online a Agent"]
  by (cases r) (auto simp: lease_online_def release_control_locked_def Let_def)

lemma lease_online_timeout:
  assumes "lease_online a l"
  shows "lease_online a (fst (on_timeout mcp g i l))"
  using assms settles_arbitration [OF _ settles_timeout, of l mcp g i]
  by (auto simp: lease_online_def on_timeout_def Let_def split: option.splits timeout_policy.splits)

lemma lease_online_request:
  assumes "lease_online a l" "role_still_online a r"
    and "request_control_locked r uo ao now i l = (res, l', t, ev)"
  shows "lease_online a l'"
proof (cases t)
  case None
  with assms settles_arbitration [OF _ settles_request, of l r uo ao now i res l' ev] show ?thesis
    by (auto simp: lease_online_def request_control_locked_def Let_def split: if_splits option.splits prod.splits)
next
  case (Some gi)
  with assms(3) obtain g j where "request_control_locked r uo ao now i l = (res, l', Some (g, j), ev)"
    by (cases gi) auto
  from request_opens [OF this] assms(1,2) show ?thesis
    by (auto simp: lease_online_def arbitration_ok_def)
qed


lemma attach_sinks_app [simp]:
  "d_app (attach_role_session_sinks_if_connected e s st d) = d_app d"
  "d_lease (attach_role_session_sinks_if_connected e s st d) = d_lease d"
  by (auto simp: attach_role_session_sinks_if_connected_def Let_def split: option.splits)

lemma cleanup_app [simp]:
  "d_app (fst (cleanup_last_session_resources e d)) = d_app d"
  "d_lease (fst (cleanup_last_session_resources e d)) = d_lease d"
  by (simp_all add: cleanup_last_session_resources_def)

lemma dev_inv_cong: "d_app d' = d_app d \<Longrightarrow> d_lease d' = d_lease d \<Longrightarrow> dev_inv d' = dev_inv d"
  by (simp add: dev_inv_def)

lemma online_same_slots:
  assumes "sessions a' = sessions a" "role_sessions a' = role_sessions a"
  shows "role_still_online a' r = role_still_online a r"
  using assms by (simp add: role_still_online_def get_session_for_role_def get_session_by_id_def
      cong: option.case_cong)

lemma dev_inv_app:
  assumes "dev_inv d" "app_inv a" "peers_ok a" "\<And>r. role_still_online (d_app d) r \<Longrightarrow> role_still_online a r"
  shows "dev_inv (d\<lparr>d_app := a\<rparr>)"
  using assms lease_online_mono [of "d_app d" "d_lease d" a] by (auto simp: dev_inv_def)

lemma dev_inv_lease: "dev_inv d \<Longrightarrow> lease_online (d_app d) l \<Longrightarrow> dev_inv (d\<lparr>d_lease := l\<rparr>)"
  by (simp add: dev_inv_def)

lemma dev_inv_heap:
  assumes "dev_inv d"
    and "\<And>p s. heap (d_app d) p = Some s \<Longrightarrow> \<exists>s'. h p = Some s' \<and> s_id s' = s_id s \<and> s_role s' = s_role s"
    and "\<And>p s'. h p = Some s' \<Longrightarrow> \<exists>s. heap (d_app d) p = Some s \<and> s_peer s' = s_peer s"
  shows "dev_inv (d\<lparr>d_app := (d_app d)\<lparr>heap := h\<rparr>\<rparr>)"
proof (rule dev_inv_app [OF assms(1)])
  show "app_inv ((d_app d)\<lparr>heap := h\<rparr>)"
    by (rule heap_update_inv) (use assms in \<open>auto simp: dev_inv_def\<close>)
  show "peers_ok ((d_app d)\<lparr>heap := h\<rparr>)"
    by (rule peers_ok_update [of "d_app d"]) (use assms in \<open>auto simp: dev_inv_def\<close>)
qed (simp add: online_same_slots [of "(d_app d)\<lparr>heap := h\<rparr>" "d_app d"])

lemma close_removed_session_inv: "dev_inv d \<Longrightarrow> dev_inv (fst (close_removed_session p d))"
  by (auto simp: close_removed_session_def Let_def split_beta intro!: dev_inv_heap
      split: option.splits if_splits)

lemma register_session_inv:
  assumes "dev_inv d" "steady_registration p s (d_app d)" "fresh_peer s (d_app d)"
  shows "dev_inv (fst (register_session p s d))"
proof -
  obtain a prev effs where a: "add_session p s (d_app d) = (a, prev, effs)"
    by (cases "add_session p s (d_app d)") auto
  have ai: "app_inv (d_app d)" using assms(1) by (simp add: dev_inv_def)
  have "app_inv a" using add_session_inv [OF ai assms(2)] a by simp
  moreover have "role_sessions a = role_sessions (d_app d)"
    using a by (auto simp: add_session_def Let_def)
  moreover have "heap a = (heap (d_app d))(p \<mapsto> s)"
    using a by (auto simp: add_session_def Let_def)
  then have "peers_ok a"
    using assms(1,3) by (fastforce simp: peers_ok_def dev_inv_def fresh_peer_def split: if_splits)
  ultimately have "dev_inv (d\<lparr>d_app := a\<rparr>)"
    using assms(1) ai by (intro dev_inv_app) (simp_all add: role_still_online_iff)
  with a show ?thesis
    by (auto simp: register_session_def Let_def split_beta close_removed_session_inv split: option.splits)
qed

lemma remove_session_inner_inv:
  assumes "dev_inv d"
  shows "dev_inv (fst (remove_session_inner i expected d))"
proof -
  obtain a rm effs where a: "remove_session_app i expected (d_app d) = (a, rm, effs)"
    by (cases "remove_session_app i expected (d_app d)") auto
  show ?thesis
  proof (cases rm)
    case None
    with a assms show ?thesis by (simp add: remove_session_inner_def)
  next
    case (Some p)
    have ai: "app_inv (d_app d)" and lo: "lease_online (d_app d) (d_lease d)"
      using assms by (simp_all add: dev_inv_def)
    have ai': "app_inv a" using remove_session_app_inv [OF ai, of i expected] a by simp
    from a Some have reg: "hm_get (sessions (d_app d)) i = Some p" and hp: "heap a = heap (d_app d)"
      and rs: "role_sessions a = hm_retain (\<lambda>_ j. j \<noteq> i) (role_sessions (d_app d))"
      by (auto simp: remove_session_app_def Let_def split: if_splits)
    from session_at_registered [OF ai reg] obtain s where s: "session_at (d_app d) i = Some s" "heap (d_app d) p = Some s"
      by auto
    have other: "role_still_online (d_app d) r \<Longrightarrow> r = s_role s \<or> role_still_online a r" for r
      using slot_role [OF ai, of r] s(1) slot_wf [OF ai]
      by (auto simp: role_still_online_iff [OF ai] role_still_online_iff [OF ai'] rs hm.get_ret split: option.splits)
    have "lease_online a (fst (on_session_removed_locked (s_role s) (role_still_online a User)
             (role_still_online a Agent) (d_lease d)))"
      by (rule lease_online_removed) (use lo other in \<open>auto simp: lease_online_def\<close>)
    moreover have "peers_ok a"
      by (rule peers_ok_update [of "d_app d"]) (use assms hp in \<open>auto simp: dev_inv_def\<close>)
    ultimately show ?thesis using a Some ai' s(2) hp
      by (simp add: remove_session_inner_def on_session_removed_def dev_inv_def Let_def split_beta)
  qed
qed

lemma remove_and_close_inv: "dev_inv d \<Longrightarrow> dev_inv (fst (remove_and_close_with e i expected d))"
proof -
  assume inv: "dev_inv d"
  obtain d1 rm e1 where r: "remove_session_inner i expected d = (d1, rm, e1)"
    by (cases "remove_session_inner i expected d") auto
  from remove_session_inner_inv [OF inv, of i expected] r have "dev_inv d1" by simp
  then have "dev_inv (fst (cleanup_last_session_resources e (fst (close_removed_session p d1))))" for p
    using close_removed_session_inv [of d1 p] by (simp add: dev_inv_def)
  with r \<open>dev_inv d1\<close> show ?thesis
    by (auto simp: remove_and_close_with_def Let_def split_beta split: option.splits)
qed


lemma claim_role_slot_online:
  assumes "app_inv a" "heap a p = Some s" "claim_role_slot p a = (a', Accepted prev)"
  shows "app_inv a'" "heap a' = heap a" "role_still_online a' (s_role s)"
    "role_still_online a r \<Longrightarrow> role_still_online a' r"
proof -
  show ai: "app_inv a'" using claim_role_slot_inv [OF assms(1), of p] assms(3) by simp
  show "heap a' = heap a"
    using assms by (auto simp: claim_role_slot_def Let_def split: if_splits option.splits)
  show "role_still_online a' (s_role s)"
    using assms by (auto simp: role_still_online_iff [OF ai] claim_role_slot_def Let_def split: if_splits option.splits)
  show "role_still_online a r \<Longrightarrow> role_still_online a' r"
    using assms by (auto simp: role_still_online_iff [OF ai] role_still_online_iff [OF assms(1)]
        claim_role_slot_def Let_def split: if_splits option.splits)
qed

lemma activate_claimed_app [simp]:
  "d_app (fst (activate_claimed e p s prev d)) = d_app d"
  "d_lease (fst (activate_claimed e p s prev d)) = d_lease d"
  by (auto simp: activate_claimed_def Let_def split: option.splits)

lemma claim_and_activate_inv:
  assumes "dev_inv d"
  shows "dev_inv (fst (claim_and_activate_session e p d))"
proof (cases "heap (d_app d) p")
  case None
  with assms show ?thesis by (simp add: claim_and_activate_session_def)
next
  case (Some s)
  have ai: "app_inv (d_app d)" and lo: "lease_online (d_app d) (d_lease d)"
    using assms by (simp_all add: dev_inv_def)
  obtain a res where a: "claim_role_slot p (d_app d) = (a, res)"
    by (cases "claim_role_slot p (d_app d)")
  show ?thesis
  proof (cases res)
    case (Accepted prev)
    note c = claim_role_slot_online [OF ai Some a [unfolded Accepted]]
    have "lease_online a (d_lease d)" by (rule lease_online_mono [OF lo]) (rule c(4))
    note l = lease_online_claimed [OF this c(3)]
    have "peers_ok a"
      by (rule peers_ok_update [of "d_app d"]) (use assms c(2) in \<open>auto simp: dev_inv_def\<close>)
    with l c(1) assms Accepted a Some show ?thesis
      by (simp add: claim_and_activate_session_def on_role_claimed_def dev_inv_def Let_def split_beta)
  qed (use assms a Some in \<open>auto simp: claim_and_activate_session_def claim_role_slot_def Let_def
         split: option.splits if_splits\<close>)
qed

lemma set_role_slot_online:
  "role_still_online a r' \<Longrightarrow> app_inv a \<Longrightarrow> app_inv (fst (set_role_slot_if_none r i a)) \<Longrightarrow>
   role_still_online (fst (set_role_slot_if_none r i a)) r'"
  by (auto simp: role_still_online_iff set_role_slot_if_none_def split: option.splits)

lemma session_owns_peer_registered:
  "session_owns_peer a i peer \<Longrightarrow> \<exists>s. session_at a i = Some s \<and> s_peer s = Some peer"
  by (auto simp: session_owns_peer_def split: option.splits)


lemma set_role_slot_dev_inv:
  assumes "dev_inv d" "session_at (d_app d) i = Some s" "s_role s = r"
  shows "dev_inv (d\<lparr>d_app := fst (set_role_slot_if_none r i (d_app d))\<rparr>)"
proof (rule dev_inv_app [OF assms(1)])
  have ai: "app_inv (d_app d)" using assms(1) by (simp add: dev_inv_def)
  show i: "app_inv (fst (set_role_slot_if_none r i (d_app d)))"
    by (rule set_role_slot_inv [OF ai assms(2,3)])
  show "peers_ok (fst (set_role_slot_if_none r i (d_app d)))"
    by (rule peers_ok_update [of "d_app d"])
       (use assms(1) in \<open>auto simp: dev_inv_def set_role_slot_if_none_def split: option.splits\<close>)
  show "role_still_online (fst (set_role_slot_if_none r i (d_app d))) r'"
    if "role_still_online (d_app d) r'" for r'
    by (rule set_role_slot_online [OF that ai i])
qed

lemma owner_of_peer:
  assumes "dev_inv d" "heap (d_app d) p = Some s" "s_peer s = Some pc" "session_owns_peer (d_app d) i pc"
  shows "session_at (d_app d) i = Some s"
proof -
  from session_owns_peer_registered [OF assms(4)] obtain t q where
    t: "session_at (d_app d) i = Some t" "s_peer t = Some pc" "heap (d_app d) q = Some t"
    by (auto simp: session_at_def get_session_by_id_def bind_eq_Some_conv)
  from assms(1) have "peers_ok (d_app d)" by (simp add: dev_inv_def)
  with assms(2,3) t have "p = q" unfolding peers_ok_def by blast
  with t assms(2) show ?thesis by simp
qed

lemma on_ice_connected_inv:
  assumes "dev_inv d" "heap (d_app d) p = Some s0" "s_peer s0 = s_peer s" "s_role s0 = s_role s"
  shows "dev_inv (fst (on_ice_connected e p s alive d))"
proof (cases "alive \<and> (\<exists>pc. s_peer s = Some pc \<and> session_owns_peer (d_app d) (s_id s) pc)")
  case False
  with assms show ?thesis by (auto simp: on_ice_connected_def split: option.splits)
next
  case True
  then obtain pc where pc: "s_peer s = Some pc" "session_owns_peer (d_app d) (s_id s) pc" and alive by auto
  from owner_of_peer [OF assms(1,2) _ pc(2)] pc(1) assms(3) have "session_at (d_app d) (s_id s) = Some s0" by simp
  from set_role_slot_dev_inv [OF assms(1) this assms(4)]
  have "dev_inv (d\<lparr>d_app := fst (set_role_slot_if_none (s_role s) (s_id s) (d_app d))\<rparr>)" .
  with pc \<open>alive\<close> show ?thesis
    by (auto simp: on_ice_connected_def Let_def split_beta dev_inv_def split: option.splits)
qed

lemma on_ice_failed_inv: "dev_inv d \<Longrightarrow> dev_inv (fst (on_ice_failed e s alive d))"
proof -
  assume inv: "dev_inv d"
  have "dev_inv (fst (cleanup_last_session_resources e (fst (close_removed_session q d1))))"
    if "dev_inv d1" for q d1
    using close_removed_session_inv [OF that, of q] by (simp add: dev_inv_def)
  with inv remove_session_inner_inv [OF inv] show ?thesis
    by (auto simp: on_ice_failed_def remove_session_for_peer_def Let_def split_beta split: option.splits)
qed

lemma on_ice_change_inv:
  assumes "dev_inv d"
  shows "dev_inv (fst (on_ice_connection_state_change e p alive st d))"
proof (cases "heap (d_app d) p")
  case None
  with assms show ?thesis by (simp add: on_ice_connection_state_change_def)
next
  case (Some s)
  let ?d = "d\<lparr>d_app := (d_app d)\<lparr>heap := (heap (d_app d))(p \<mapsto> s\<lparr>s_ice := st\<rparr>)\<rparr>\<rparr>"
  have d: "dev_inv ?d" by (rule dev_inv_heap [OF assms]) (use Some in \<open>auto split: if_splits\<close>)
  have "dev_inv (on_ice_disconnected s alive ?d)"
    using d by (auto simp: on_ice_disconnected_def dev_inv_def split: option.splits)
  moreover have "dev_inv (fst (on_ice_connected e p s alive ?d))"
    by (rule on_ice_connected_inv [OF d, of p "s\<lparr>s_ice := st\<rparr>"]) auto
  ultimately show ?thesis
    using d on_ice_failed_inv [OF d, of e s alive] Some
    by (auto simp: on_ice_connection_state_change_def Let_def split: ice_state.splits)
qed

lemma persist_ssh_app [simp]:
  "d_app (fst (persist_ssh_state v devs mcp ssh d)) = d_app d"
  "d_lease (fst (persist_ssh_state v devs mcp ssh d)) = d_lease d"
  by (simp_all add: persist_ssh_state_def update_config_def Let_def)

lemma apply_attempts_app [simp]:
  "d_app (fst (apply_attempts v n k le ad pd mcp ssh d)) = d_app d"
  "d_lease (fst (apply_attempts v n k le ad pd mcp ssh d)) = d_lease d"
  by (induction n arbitrary: k le) (simp_all split: sum.splits)

lemma apply_ssh_app [simp]:
  "d_app (fst (apply_ssh_forwarding_state v mcp ssh d)) = d_app d"
  "d_lease (fst (apply_ssh_forwarding_state v mcp ssh d)) = d_lease d"
  by (simp_all add: apply_ssh_forwarding_state_def stop_mic_process_if_running_def update_config_def Let_def)


lemma set_mcp_enabled_inv:
  assumes "dev_inv d"
  shows "dev_inv (fst (set_mcp_enabled e v enabled d))"
proof -
  have dis: "dev_inv (fst (disconnect_agent_for_mcp_off e d1))" if "dev_inv d1" for d1
    using that remove_and_close_inv [OF that, of e]
    by (auto simp: disconnect_agent_for_mcp_off_def remove_and_close_session_def split_beta split: option.splits)
  have "dev_inv (fst (apply_ssh_forwarding_state v m b d))" for m b
    using assms by (simp add: dev_inv_def)
  with dis assms show ?thesis
    by (auto simp: set_mcp_enabled_def update_config_def split_beta dev_inv_def split: sum.splits)
qed

lemma request_control_online:
  assumes "dev_inv d" "request_control (d_app d) mcp now uuid sid (d_lease d) = (res, l, t, ev)"
  shows "lease_online (d_app d) l"
proof (cases "session_at (d_app d) sid")
  case None
  with assms show ?thesis by (simp add: request_control_def dev_inv_def)
next
  case (Some s)
  have ai: "app_inv (d_app d)" and lo: "lease_online (d_app d) (d_lease d)"
    using assms(1) by (simp_all add: dev_inv_def)
  show ?thesis
  proof (cases "is_role_slot_holder (d_app d) sid \<and> \<not> (s_role s = Agent \<and> \<not> mcp)")
    case True
    then obtain r where r: "hm_get (role_sessions (d_app d)) r = Some sid"
      using is_role_slot_holder_iff [OF slot_wf [OF ai]] by blast
    with slot_role [OF ai r] Some have "role_still_online (d_app d) (s_role s)"
      by (auto simp: role_still_online_iff [OF ai])
    from lease_online_request [OF lo this] True Some assms(2) show ?thesis
      by (auto simp: request_control_def)
  qed (use Some assms(2) lo in \<open>auto simp: request_control_def split: if_splits\<close>)
qed

lemma take_over_online:
  assumes "dev_inv d"
  shows "lease_online (d_app d) (fst (snd (take_over_control (d_app d) now sid (d_lease d))))"
proof -
  have ai: "app_inv (d_app d)" and lo: "lease_online (d_app d) (d_lease d)"
    using assms by (simp_all add: dev_inv_def)
  have "role_still_online (d_app d) User"
    if "session_at (d_app d) sid = Some s" "s_role s = User" "is_role_slot_holder (d_app d) sid" for s
  proof -
    from that(3) obtain r where r: "hm_get (role_sessions (d_app d)) r = Some sid"
      using is_role_slot_holder_iff [OF slot_wf [OF ai]] by blast
    with slot_role [OF ai r] that show ?thesis by (auto simp: role_still_online_iff [OF ai])
  qed
  with lo show ?thesis
    by (auto simp: take_over_control_def lease_online_def arbitration_ok_def Let_def split: option.splits)
qed

lemma device_step_inv:
  assumes "dev_inv d" "steady_action a d"
  shows "dev_inv (device_step e a d)"
proof (cases a)
  case (RpcRequestControl sid uuid)
  obtain res l t ev where "request_control (d_app d) (d_mcp d) (d_now d) uuid sid (d_lease d) = (res, l, t, ev)"
    by (cases "request_control (d_app d) (d_mcp d) (d_now d) uuid sid (d_lease d)") auto
  with request_control_online [OF assms(1) this] assms(1) RpcRequestControl show ?thesis
    by (auto simp: rpc_request_control_def dev_inv_def split: option.splits)
next
  case (RpcResolve sid rid grant)
  with assms(1) lease_online_resolved [of "d_app d" "d_lease d"] show ?thesis
    by (auto simp: lift_lease_def dev_inv_def resolve_pending_def split: option.splits)
next
  case (RpcRelease sid)
  with assms(1) lease_online_released [of "d_app d" "d_lease d"] show ?thesis
    by (auto simp: lift_lease_def dev_inv_def release_control_def split: option.splits)
next
  case (RpcTakeOver sid)
  with assms(1) take_over_online [OF assms(1)] show ?thesis by (simp add: lift_lease_def dev_inv_def)
next
  case (RpcChannel i c)
  have "dev_inv (d\<lparr>d_app := fst (set_rpc_channel i c (d_app d))\<rparr>)"
    using assms(1) by (auto simp: set_rpc_channel_def intro!: dev_inv_heap split: option.splits if_splits)
  with RpcChannel assms(1) show ?thesis
    by (auto simp: update_session_rpc_channel_def split_beta split: option.splits prod.splits)
next
  case (CloserFires job)
  have "dev_inv (d\<lparr>d_closers := cs\<rparr>)" for cs using assms(1) by (simp add: dev_inv_def)
  from remove_and_close_inv [OF this] CloserFires assms(1) show ?thesis
    by (auto simp: close_previous_session_after_delay_def remove_and_close_session_for_peer_def split_beta)
next
  case (LeaseTimer tm)
  with assms(1) lease_online_timeout show ?thesis
    by (auto simp: timer_fires_def dev_inv_def split_beta)
next
  case (SetSsh b)
  with assms(1) show ?thesis by (simp add: set_ssh_forwarding_def dev_inv_def)
next
  case Reconcile
  with assms(1) show ?thesis by (auto simp: reconcile_with_ssh_overlay_def update_config_def Let_def dev_inv_def split: sum.splits)
qed (use assms register_session_inv claim_and_activate_inv on_ice_change_inv remove_and_close_inv
       set_mcp_enabled_inv in \<open>auto simp: remove_and_close_session_def dev_inv_def [of "d\<lparr>d_tickets := _\<rparr>"]
       dev_inv_def [of "d\<lparr>d_now := _\<rparr>"], auto simp: dev_inv_def\<close>)

lemma device_init_inv: "dev_inv (device_init pref)"
  using app_inv_new
  by (simp add: dev_inv_def device_init_def lease_online_def arbitration_ok_def lease_default_def peers_ok_def app_new_def)

lemma device_steady_inv: "device_steady d \<Longrightarrow> dev_inv d"
  by (induction rule: device_steady.induct) (auto intro: device_step_inv device_init_inv)


section \<open>Device properties\<close>

text \<open>
  A sample device for the concrete instances: MCP on, a user session and an agent session
  registered and holding their slots, both connected.
\<close>

definition env0 :: kvm_env where
  "env0 = \<lparr>ke_webrtc = \<lparr>we_senders = (\<lambda>_. []), we_media_is_webrtc = False\<rparr>,
     ke_ssh = \<lparr>sv_reconcile = (\<lambda>_ _. Inr ()), sv_save_devices = True, sv_save_mcp = True, sv_save_ssh = True, sv_save_mic = True,
       sv_has_usb = True\<rparr>,
     ke_forward = \<lparr>ssh_forwarding_enabled = False, network_adapter_enable = False, usb_leases = None\<rparr>\<rparr>"

definition pref0 :: usb_devices_pref where
  "pref0 = \<lparr>ud_absolute_mouse = True, ud_relative_mouse = True, ud_keyboard = True, ud_mass_storage_vm = True,
     ud_mass_storage_ft = True, ud_microphone = True, ud_camera = False,
     ud_network_adapter = \<lparr>na_enable = False, na_adapter_type = Ncm,
       na_l3_config = \<lparr>l3_ip_address = ''172.16.0.1'', l3_subnet_mask = ''255.255.255.0'',
         l3_gateway = None, l3_dns_servers = None\<rparr>\<rparr>\<rparr>"

definition sess :: "string \<Rightarrow> session_role \<Rightarrow> nat \<Rightarrow> session" where
  "sess i r pc = (session_new_with_role 0 i r False)
     \<lparr>s_peer := Some pc, s_video_track := Some 50, s_video_ssrc := Some 60\<rparr>"

definition demo :: device where
  "demo = fold (device_step env0)
     [Register 1 (sess ''u'' User 11), Register 2 (sess ''a'' Agent 12), SetMcp True, Claim 1, Claim 2,
      IceChange 1 True Connected, IceChange 2 True Connected] (device_init pref0)"

fun registers :: "device_action \<Rightarrow> bool" where
  "registers (Register p s) = True"
| "registers _ = False"

lemma device_steady_fold:
  "device_steady d \<Longrightarrow> list_all (\<lambda>a. \<not> registers a) as \<Longrightarrow> device_steady (fold (device_step e) as d)"
proof (induction as arbitrary: d)
  case (Cons a as)
  then have "steady_action a d" by (cases a) auto
  with Cons show ?case by (simp add: device_steady.step)
qed simp

lemma demo_steady: "device_steady demo"
proof -
  let ?d0 = "device_init pref0"
  let ?d1 = "device_step env0 (Register 1 (sess ''u'' User 11)) ?d0"
  let ?d2 = "device_step env0 (Register 2 (sess ''a'' Agent 12)) ?d1"
  have ok: "steady_action (Register 1 (sess ''u'' User 11)) ?d0" "steady_action (Register 2 (sess ''a'' Agent 12)) ?d1"
    by (auto simp: steady_registration_def keeps_role_def fresh_peer_def device_init_def app_new_def session_at_def
        get_session_by_id_def register_session_def add_session_def Let_def sess_def session_new_with_role_def)
  have "device_steady ?d2"
    by (rule device_steady.step [OF device_steady.step [OF device_steady.init ok(1)] ok(2)])
  from device_steady_fold [OF this, of
      "[SetMcp True, Claim 1, Claim 2, IceChange 1 True Connected, IceChange 2 True Connected]" env0]
  show ?thesis unfolding demo_def fold_simps by simp
qed

lemma hid_gate_slot:
  assumes "device_steady d" and "allows_hid (d_app d) (d_mcp d) (d_lease d) j"
  shows "\<exists>s :: session. session_at (d_app d) j = Some s \<and> get_role_slot_id (d_app d) (s_role s) = Some j
         \<and> l_owner (d_lease d) = Some (s_role s) \<and> (s_role s = Agent \<longrightarrow> d_mcp d)"
proof -
  have ai: "app_inv (d_app d)" using device_steady_inv [OF assms(1)] by (simp add: dev_inv_def)
  from assms(2) obtain s where s: "session_at (d_app d) j = Some s" "is_role_slot_holder (d_app d) j"
    "l_owner (d_lease d) = Some (s_role s)" "s_role s = Agent \<longrightarrow> d_mcp d"
    by (auto simp: allows_hid_def split: option.splits)
  from s(2) obtain r where r: "hm_get (role_sessions (d_app d)) r = Some j"
    using is_role_slot_holder_iff [OF slot_wf [OF ai]] by blast
  with slot_role [OF ai r] s show ?thesis by (auto simp: get_role_slot_id_def)
qed

lemma hid_gate_unique:
  assumes "device_steady d" and "allows_hid (d_app d) (d_mcp d) (d_lease d) i"
    and "allows_hid (d_app d) (d_mcp d) (d_lease d) j"
  shows "j = i"
  using hid_gate_slot [OF assms(1,2)] hid_gate_slot [OF assms(1,3)] by auto

text \<open>
  C1: One pair of hands. As long as no connection offers again with another role, at most one session
  passes the input gate in every state of the device; the session that does is registered, holds the slot of its role, and its role owns
  the lease; and an agent passes only while MCP is enabled.
\<close>

theorem hid_gate_exclusive:
  assumes "device_steady d" and "allows_hid (d_app d) (d_mcp d) (d_lease d) i"
  shows "(\<forall>j. allows_hid (d_app d) (d_mcp d) (d_lease d) j \<longrightarrow> j = i)
    \<and> (\<exists>s. session_at (d_app d) i = Some s \<and> get_role_slot_id (d_app d) (s_role s) = Some i
         \<and> l_owner (d_lease d) = Some (s_role s) \<and> (s_role s = Agent \<longrightarrow> d_mcp d))"
  using hid_gate_slot [OF assms] hid_gate_unique [OF assms] by blast

theorem hid_gate_exclusive_witness:
  "allows_hid (d_app demo) (d_mcp demo) (d_lease demo) ''u''
   \<and> \<not> allows_hid (d_app demo) (d_mcp demo) (d_lease demo) ''a''"
proof -
  have "allows_hid (d_app demo) (d_mcp demo) (d_lease demo) ''u''" by code_simp
  moreover have "''a'' \<noteq> ''u''" by simp
  ultimately show ?thesis using hid_gate_exclusive [OF demo_steady, of "''u''"] by blast
qed




text \<open>
  The condition is needed. A signalling connection opened without a client type takes the role from each
  offer, so a session can come back with the other role under its id while it still fills its old
  slot. If an agent comes back as a user while a user has control, both pass the input gate; and if the
  user comes back as an agent and leaves, the lease stays owned by the user role with nobody in its slot.
\<close>

definition demo_pair :: device where
  "demo_pair = fold (device_step env0) [Register 1 (sess ''u'' User 11), Register 2 (sess ''a'' Agent 12)] (device_init pref0)"

definition demo_two_hands :: device where
  "demo_two_hands = fold (device_step env0) [SetMcp True, Claim 1, Claim 2, Register 3 (sess ''a'' User 13)] demo_pair"

definition demo_stranded :: device where
  "demo_stranded = fold (device_step env0) [Register 3 (sess ''u'' Agent 13), RemoveById ''u'']
     (device_step env0 (Claim 1) demo_pair)"

lemma heap_same [simp]:
  "heap (d_app (fst (claim_and_activate_session w p d))) = heap (d_app d)"
  "heap (d_app (fst (set_mcp_enabled w v True d))) = heap (d_app d)"
  by (auto simp: claim_and_activate_session_def claim_role_slot_def activate_claimed_def on_role_claimed_def
      set_mcp_enabled_def update_config_def Let_def split_beta split: option.splits)

lemma demo_pair_heap:
  "heap (d_app demo_pair) = [1 \<mapsto> sess ''u'' User 11, 2 \<mapsto> sess ''a'' Agent 12]"
  by (simp add: demo_pair_def register_session_def add_session_def device_init_def app_new_def Let_def
      sess_def session_new_with_role_def fun_upd_def)

lemma demo_pair_reachable: "device_reachable demo_pair"
  unfolding demo_pair_def fold_simps
  by (intro device_reachable.act device_reachable.boot)
    (auto simp: fresh_peer_def device_init_def app_new_def register_session_def add_session_def Let_def sess_def session_new_with_role_def)

lemma third_offer_ok: "heap (d_app d) = heap (d_app demo_pair) \<Longrightarrow> action_ok (Register 3 (sess i r 13)) d"
  by (auto simp: demo_pair_heap fresh_peer_def sess_def split: if_splits)

theorem role_change_breaks_control:
  "(device_reachable demo_two_hands \<and> allows_hid (d_app demo_two_hands) (d_mcp demo_two_hands) (d_lease demo_two_hands) ''u''
      \<and> allows_hid (d_app demo_two_hands) (d_mcp demo_two_hands) (d_lease demo_two_hands) ''a'')
   \<and> (device_reachable demo_stranded \<and> l_owner (d_lease demo_stranded) = Some User
      \<and> get_session_for_role (d_app demo_stranded) User = None)"
proof -
  have "device_reachable demo_two_hands"
    unfolding demo_two_hands_def fold_simps
    by (intro device_reachable.act demo_pair_reachable third_offer_ok) simp_all
  moreover have "device_reachable demo_stranded"
    unfolding demo_stranded_def fold_simps
    by (intro device_reachable.act demo_pair_reachable third_offer_ok) simp_all
  moreover have "allows_hid (d_app demo_two_hands) (d_mcp demo_two_hands) (d_lease demo_two_hands) ''u''" by code_simp
  moreover have "allows_hid (d_app demo_two_hands) (d_mcp demo_two_hands) (d_lease demo_two_hands) ''a''" by code_simp
  moreover have "l_owner (d_lease demo_stranded) = Some User" by code_simp
  moreover have "get_session_for_role (d_app demo_stranded) User = None" by code_simp
  ultimately show ?thesis by blast
qed

text \<open>Removal leaves the switches alone.\<close>

lemma remove_session_inner_flags [simp]:
  "d_mcp (fst (remove_session_inner i x d)) = d_mcp d" "d_ssh (fst (remove_session_inner i x d)) = d_ssh d"
  by (simp_all add: remove_session_inner_def on_session_removed_def Let_def split_beta split: option.splits)

lemma remove_and_close_flags [simp]:
  "d_mcp (fst (remove_and_close_with e i x d)) = d_mcp d" "d_ssh (fst (remove_and_close_with e i x d)) = d_ssh d"
  by (simp_all add: remove_and_close_with_def close_removed_session_def cleanup_last_session_resources_def
      Let_def split_beta split: option.splits)

lemma close_removed_session_slots [simp]:
  "sessions (d_app (fst (close_removed_session p d))) = sessions (d_app d)"
  "role_sessions (d_app (fst (close_removed_session p d))) = role_sessions (d_app d)"
  by (simp_all add: close_removed_session_def Let_def split_beta split: option.splits)

lemma remove_session_inner_slots:
  assumes "session_at (d_app d) i = Some s"
  shows "role_sessions (d_app (fst (remove_session_inner i None d))) = hm_retain (\<lambda>_ j. j \<noteq> i) (role_sessions (d_app d))"
    and "sessions (d_app (fst (remove_session_inner i None d))) = hm_remove i (sessions (d_app d))"
    and "fst (snd (remove_session_inner i None d)) = get_session_by_id (d_app d) i"
  using assms
  by (auto simp: remove_session_inner_def remove_session_app_def matches_expected_peer_def Let_def
      session_at_def get_session_by_id_def on_session_removed_def split_beta bind_eq_Some_conv)

lemma disconnect_agent_slot:
  assumes "dev_inv d"
  shows "hm_get (role_sessions (d_app (fst (disconnect_agent_for_mcp_off e d)))) Agent = None"
proof (cases "hm_get (role_sessions (d_app d)) Agent")
  case None
  then show ?thesis by (simp add: disconnect_agent_for_mcp_off_def get_session_for_role_def)
next
  case (Some i)
  have ai: "app_inv (d_app d)" using assms by (simp add: dev_inv_def)
  from slot_role [OF ai Some] obtain s p where s: "session_at (d_app d) i = Some s"
    "get_session_by_id (d_app d) i = Some p" "heap (d_app d) p = Some s"
    by (auto simp: session_at_def bind_eq_Some_conv)
  have id: "s_id s = i" by (rule session_at_id [OF ai s(1)])
  note r = remove_session_inner_slots [OF s(1)]
  have "role_sessions (d_app (fst (remove_and_close_session e i d))) = hm_retain (\<lambda>_ j. j \<noteq> i) (role_sessions (d_app d))"
    using r s by (simp add: remove_and_close_session_def remove_and_close_with_def Let_def split_beta)
  with Some s id slot_wf [OF ai] show ?thesis
    by (simp add: disconnect_agent_for_mcp_off_def get_session_for_role_def split_beta hm.get_ret)
qed

lemma apply_attempts_ok:
  "apply_attempts v n k le ad pd mcp ssh d = (d', Inr u) \<Longrightarrow> d_mcp d' = mcp \<and> d_ssh d' = ssh"
  by (induction n arbitrary: k le) (auto simp: persist_ssh_state_def update_config_def Let_def split: if_splits sum.splits)

text \<open>
  C9: Turning MCP off disarms the agent. As long as no connection offers again with another role, when
  MCP was on and the switch reports success, MCP and SSH forwarding are off, no session holds the agent slot, the lease is neither owned nor being
  requested by the agent, and no agent session passes the input gate.
\<close>

theorem mcp_off_disarms_agent:
  assumes "device_steady d" and "d_mcp d" and "set_mcp_enabled e v False d = (d', Inr (), effs)"
  shows "\<not> d_mcp d' \<and> \<not> d_ssh d' \<and> get_session_for_role (d_app d') Agent = None
    \<and> l_owner (d_lease d') \<noteq> Some Agent
    \<and> (\<forall>p. l_pending (d_lease d') = Some p \<longrightarrow> pr_requester p \<noteq> Agent)
    \<and> (\<forall>i s. allows_hid (d_app d') (d_mcp d') (d_lease d') i \<and> session_at (d_app d') i = Some s \<longrightarrow> s_role s = User)"
proof -
  have inv: "dev_inv d" by (rule device_steady_inv [OF assms(1)])
  obtain d1 where d1: "dev_inv d1" "\<not> d_mcp d1" "\<not> d_ssh d1" "d' = fst (disconnect_agent_for_mcp_off e d1)"
  proof (cases "d_ssh d")
    case True
    then obtain d1 u where d1: "apply_ssh_forwarding_state v False False d = (d1, Inr u)"
      "d' = fst (disconnect_agent_for_mcp_off e d1)"
      using assms(2,3) by (cases "apply_ssh_forwarding_state v False False d")
        (auto simp: set_mcp_enabled_def update_config_def split_beta split: sum.splits)
    then have "d_mcp d1 = False \<and> d_ssh d1 = False"
      by (auto simp: apply_ssh_forwarding_state_def Let_def dest!: apply_attempts_ok)
    moreover have "dev_inv d1"
      using inv apply_ssh_app [of v False False d] by (simp add: d1(1) dev_inv_def)
    ultimately show ?thesis using that d1(2) by blast
  next
    case False
    then show ?thesis
      using that [of "d\<lparr>d_mcp := False\<rparr>"] assms(2,3) inv
      by (auto simp: set_mcp_enabled_def update_config_def split_beta dev_inv_def split: if_splits)
  qed
  have "dev_inv d'"
    using set_mcp_enabled_inv [OF inv, of e v False] assms(3) by simp
  moreover from d1 have "hm_get (role_sessions (d_app d')) Agent = None"
    using disconnect_agent_slot [OF d1(1), of e] by simp
  moreover have "\<not> d_mcp d' \<and> \<not> d_ssh d'"
    using d1 by (auto simp: disconnect_agent_for_mcp_off_def remove_and_close_session_def split_beta split: option.splits)
  ultimately show ?thesis
    by (auto simp: dev_inv_def lease_online_def role_still_online_iff get_session_for_role_def allows_hid_def
        split: option.splits) (metis session_role.exhaust)
qed

theorem mcp_off_disarms_agent_witness:
  "\<exists>d' effs. set_mcp_enabled (ke_webrtc env0) (ke_ssh env0) False demo = (d', Inr (), effs)
     \<and> get_session_for_role (d_app demo) Agent = Some 2 \<and> get_session_for_role (d_app d') Agent = None"
proof -
  obtain d' r effs where s: "set_mcp_enabled (ke_webrtc env0) (ke_ssh env0) False demo = (d', r, effs)"
    by (cases "set_mcp_enabled (ke_webrtc env0) (ke_ssh env0) False demo")
  have "fst (snd (set_mcp_enabled (ke_webrtc env0) (ke_ssh env0) False demo)) = Inr ()" by code_simp
  with s have r: "r = Inr ()" by simp
  have "d_mcp demo" "get_session_for_role (d_app demo) Agent = Some 2" by code_simp+
  with mcp_off_disarms_agent [OF demo_steady _ s [unfolded r]] s r show ?thesis by blast
qed


text \<open>
  C10: What a departure leaves behind. As long as no connection offers again with another role, removing a registered session takes it out of the registry
  and out of its slot, and nothing else: every other session stays registered and every slot held
  by another session stays. Its forward tickets are gone and only its. Control passes on only if
  the departing session was the last of the owning role, to the other role if that is online and
  to nobody otherwise.
\<close>

theorem removal_cleans_up:
  assumes "device_steady d" and "session_at (d_app d) i = Some s"
  shows "case remove_session i d of (d', removed, effs) \<Rightarrow>
      removed = get_session_by_id (d_app d) i
    \<and> get_session_by_id (d_app d') i = None
    \<and> (\<forall>j. j \<noteq> i \<longrightarrow> session_at (d_app d') j = session_at (d_app d) j)
    \<and> (\<forall>r. get_role_slot_id (d_app d') r =
          (if get_role_slot_id (d_app d) r = Some i then None else get_role_slot_id (d_app d) r))
    \<and> set (d_tickets d') = {(label, t) \<in> set (d_tickets d). pt_session_id t \<noteq> i}
    \<and> l_owner (d_lease d') =
        (if l_owner (d_lease d) = Some (s_role s) \<and> get_role_slot_id (d_app d) (s_role s) = Some i
         then if get_session_for_role (d_app d) (other_role (s_role s)) \<noteq> None
              then Some (other_role (s_role s)) else None
         else l_owner (d_lease d))"
proof -
  have inv: "dev_inv d" by (rule device_steady_inv [OF assms(1)])
  then have ai: "app_inv (d_app d)" and lo: "lease_online (d_app d) (d_lease d)" by (simp_all add: dev_inv_def)
  let ?d = "fst (remove_session i d)"
  note sl = remove_session_inner_slots [OF assms(2)]
  have hp: "heap (d_app ?d) = heap (d_app d)" and tk: "d_tickets ?d = clear_session i (d_tickets d)"
    and le: "d_lease ?d = fst (on_session_removed_locked (s_role s) (role_still_online (d_app ?d) User)
        (role_still_online (d_app ?d) Agent) (d_lease d))"
    using assms(2)
    by (auto simp: remove_session_def remove_session_inner_def remove_session_app_def matches_expected_peer_def
        Let_def session_at_def get_session_by_id_def on_session_removed_def split_beta bind_eq_Some_conv)
  have ai': "app_inv (d_app ?d)"
    using remove_session_inner_inv [OF inv, of i None] by (simp add: remove_session_def dev_inv_def)
  have slot: "get_role_slot_id (d_app ?d) r =
      (if get_role_slot_id (d_app d) r = Some i then None else get_role_slot_id (d_app d) r)" for r
    using slot_wf [OF ai] sl(1) by (simp add: get_role_slot_id_def remove_session_def hm.get_ret split: option.splits)
  have onl: "role_still_online (d_app ?d) r \<longleftrightarrow> role_still_online (d_app d) r \<and> get_role_slot_id (d_app d) r \<noteq> Some i" for r
    using slot [of r] by (auto simp: role_still_online_iff [OF ai] role_still_online_iff [OF ai'] get_role_slot_id_def)
  have oth: "get_role_slot_id (d_app d) (other_role (s_role s)) \<noteq> Some i"
    using slot_role [OF ai, of "other_role (s_role s)" i] assms(2) by (auto simp: get_role_slot_id_def)
  have ow: "l_owner (d_lease ?d) =
        (if l_owner (d_lease d) = Some (s_role s) \<and> get_role_slot_id (d_app d) (s_role s) = Some i
         then if get_session_for_role (d_app d) (other_role (s_role s)) \<noteq> None
              then Some (other_role (s_role s)) else None
         else l_owner (d_lease d))"
    using lo oth unfolding le onl
    by (cases "s_role s") (auto simp: on_session_removed_locked_def Let_def lease_online_def role_still_online_def
        split: option.splits)
  have "session_at (d_app ?d) j = session_at (d_app d) j" if "j \<noteq> i" for j
    using that sl(2) hp by (simp add: session_at_def get_session_by_id_def remove_session_def)
  with slot ow tk sl show ?thesis
    by (auto simp: split_beta remove_session_def get_session_by_id_def clear_session_def hm_retain_def)
qed

theorem removal_cleans_up_witness:
  "l_owner (d_lease (fst (remove_session ''u'' demo))) = Some Agent"
proof -
  have "session_at (d_app demo) ''u'' \<noteq> None" by code_simp
  then obtain s where s: "session_at (d_app demo) ''u'' = Some s" by blast
  have "map_option s_role (session_at (d_app demo) ''u'') = Some User"
    "l_owner (d_lease demo) = Some User" "get_role_slot_id (d_app demo) User = Some ''u''"
    "get_session_for_role (d_app demo) Agent \<noteq> None" by code_simp+
  with removal_cleans_up [OF demo_steady s] s show ?thesis by (simp add: split_beta)
qed


text \<open>
  A second human takes over at once. When a registered user session claims the user slot held
  by another session, the claim is accepted with the displaced session, control belongs to the
  user with no request pending, the new session passes the input gate and the displaced one no
  longer does; the displaced session, if it has a connection, is due to be closed one second
  later.
\<close>

theorem user_takeover:
  assumes "device_steady d" and "heap (d_app d) p = Some s" and "get_session_by_id (d_app d) (s_id s) = Some p"
    and "s_role s = User" and "get_role_slot_id (d_app d) User = Some j" and "j \<noteq> s_id s"
    and "session_at (d_app d) j = Some old"
  shows "case claim_and_activate_session e p d of (d', res, effs) \<Rightarrow>
      res = Accepted (get_session_by_id (d_app d) j)
    \<and> l_owner (d_lease d') = Some User \<and> l_pending (d_lease d') = None
    \<and> allows_hid (d_app d') (d_mcp d') (d_lease d') (s_id s)
    \<and> \<not> allows_hid (d_app d') (d_mcp d') (d_lease d') j
    \<and> (\<forall>pc. s_peer old = Some pc \<longrightarrow> (d_now d + 10 ^ 9, j, pc) \<in> set (d_closers d'))"
proof -
  let ?d = "fst (claim_and_activate_session e p d)"
  have inv: "dev_inv d" by (rule device_steady_inv [OF assms(1)])
  then have ai: "app_inv (d_app d)" by (simp add: dev_inv_def)
  from assms(7) obtain q where q: "get_session_by_id (d_app d) j = Some q" "heap (d_app d) q = Some old"
    by (auto simp: session_at_def bind_eq_Some_conv)
  have old: "s_id old = j" by (rule session_at_id [OF ai assms(7)])
  with assms(2,6) q have "q \<noteq> p" by auto
  define a where "a = (d_app d)\<lparr>role_sessions := hm_insert User (s_id s) (role_sessions (d_app d))\<rparr>"
  have c: "claim_role_slot p (d_app d) = (a, Accepted (Some q))"
    using assms q by (simp add: claim_role_slot_def get_role_slot_id_def get_session_by_id_def a_def Let_def)
  have r: "fst (snd (claim_and_activate_session e p d)) = Accepted (Some q)"
    and app: "d_app ?d = a"
    and le: "l_owner (d_lease ?d) = Some User" "l_pending (d_lease ?d) = None"
    using assms(2,4) c \<open>q \<noteq> p\<close>
    by (simp_all add: claim_and_activate_session_def on_role_claimed_def on_role_claimed_locked_def Let_def split_beta)
  have now: "d_now (attach_role_session_sinks_if_connected e s st x) = d_now x"
    and clo: "d_closers (attach_role_session_sinks_if_connected e s st x) = d_closers x" for st x
    by (auto simp: attach_role_session_sinks_if_connected_def Let_def split: option.splits)
  have cl: "\<forall>pc. s_peer old = Some pc \<longrightarrow> (d_now d + 10 ^ 9, j, pc) \<in> set (d_closers ?d)"
    using assms(2,4) c \<open>q \<noteq> p\<close> q(2) old
    by (auto simp: claim_and_activate_session_def on_role_claimed_def activate_claimed_def Let_def split_beta
        a_def TAKEOVER_CLOSE_DELAY_def now)
  have ai': "app_inv a" using claim_role_slot_inv [OF ai, of p] c by simp
  have us: "hm_get (role_sessions a) User = Some (s_id s)" by (simp add: a_def)
  have "session_at a (s_id s) = Some s"
    using assms(2,3) by (simp add: a_def session_at_def get_session_by_id_def)
  with us le assms(4) have yes: "allows_hid (d_app ?d) (d_mcp ?d) (d_lease ?d) (s_id s)"
    unfolding app by (auto simp: allows_hid_def is_role_slot_holder_iff [OF slot_wf [OF ai']])
  have "\<not> is_role_slot_holder a j \<or> (\<exists>t. session_at a j = Some t \<and> s_role t = Agent)"
  proof (cases "hm_get (role_sessions a) Agent = Some j")
    case True
    with slot_role [OF ai'] show ?thesis by blast
  next
    case False
    with us assms(6) have "hm_get (role_sessions a) r \<noteq> Some j" for r by (cases r) auto
    then show ?thesis by (simp add: is_role_slot_holder_iff [OF slot_wf [OF ai']])
  qed
  with le have "\<not> allows_hid (d_app ?d) (d_mcp ?d) (d_lease ?d) j"
    unfolding app by (auto simp: allows_hid_def split: option.splits)
  with r le yes cl q show ?thesis by (simp add: split_beta)
qed

definition demo_two_users :: device where
  "demo_two_users = fold (device_step env0)
     [Register 1 (sess ''u'' User 11), Register 2 (sess ''v'' User 12), Claim 1] (device_init pref0)"

lemma demo_two_users_steady: "device_steady demo_two_users"
proof -
  let ?d0 = "device_init pref0"
  let ?d1 = "device_step env0 (Register 1 (sess ''u'' User 11)) ?d0"
  let ?d2 = "device_step env0 (Register 2 (sess ''v'' User 12)) ?d1"
  have ok: "steady_action (Register 1 (sess ''u'' User 11)) ?d0" "steady_action (Register 2 (sess ''v'' User 12)) ?d1"
    by (auto simp: steady_registration_def keeps_role_def fresh_peer_def device_init_def app_new_def session_at_def
        get_session_by_id_def register_session_def add_session_def Let_def sess_def session_new_with_role_def)
  have "device_steady ?d2"
    by (rule device_steady.step [OF device_steady.step [OF device_steady.init ok(1)] ok(2)])
  from device_steady_fold [OF this, of "[Claim 1]" env0]
  show ?thesis unfolding demo_two_users_def fold_simps by simp
qed

theorem user_takeover_witness:
  "let d' = fst (claim_and_activate_session (ke_webrtc env0) 2 demo_two_users)
   in allows_hid (d_app d') (d_mcp d') (d_lease d') ''v'' \<and> \<not> allows_hid (d_app d') (d_mcp d') (d_lease d') ''u''"
proof -
  have hp: "map_option (\<lambda>s. (s_id s, s_role s)) (heap (d_app demo_two_users) 2) = Some (''v'', User)"
    and g: "get_session_by_id (d_app demo_two_users) ''v'' = Some 2"
    and sl: "get_role_slot_id (d_app demo_two_users) User = Some ''u''"
    and at: "session_at (d_app demo_two_users) ''u'' \<noteq> None" by code_simp+
  from hp obtain s where s: "heap (d_app demo_two_users) 2 = Some s" "s_id s = ''v''" "s_role s = User" by auto
  from at obtain old where old: "session_at (d_app demo_two_users) ''u'' = Some old" by blast
  from user_takeover [OF demo_two_users_steady s(1) _ s(3) sl _ old, of "ke_webrtc env0"] s g
  show ?thesis by (auto simp: split_beta Let_def)
qed


text \<open>Only the two switches change the two flags.\<close>

definition flags :: "device \<Rightarrow> bool \<times> bool" where
  "flags d = (d_mcp d, d_ssh d)"

lemma flags_remove [simp]:
  "flags (fst (remove_session_inner i x d)) = flags d" "flags (fst (remove_and_close_with e i x d)) = flags d"
  "flags (fst (close_removed_session p d)) = flags d" "flags (fst (cleanup_last_session_resources e d)) = flags d"
  by (simp_all add: flags_def close_removed_session_def cleanup_last_session_resources_def Let_def split_beta
      split: option.splits)

lemma flags_update [simp]:
  "flags (d\<lparr>d_app := a\<rparr>) = flags d" "flags (d\<lparr>d_lease := l\<rparr>) = flags d" "flags (d\<lparr>d_timers := t\<rparr>) = flags d"
  "flags (d\<lparr>d_tickets := k\<rparr>) = flags d" "flags (d\<lparr>d_closers := c\<rparr>) = flags d" "flags (d\<lparr>d_now := n\<rparr>) = flags d"
  "flags (d\<lparr>d_video_sinks := vs\<rparr>) = flags d" "flags (d\<lparr>d_audio_sinks := vs\<rparr>) = flags d"
  by (simp_all add: flags_def)

lemma flags_attach [simp]: "flags (attach_role_session_sinks_if_connected e s st d) = flags d"
  by (auto simp: attach_role_session_sinks_if_connected_def Let_def split: option.splits)

lemma flags_claim: "flags (fst (claim_and_activate_session e p d)) = flags d"
  by (auto simp: claim_and_activate_session_def activate_claimed_def on_role_claimed_def Let_def split_beta
      split: option.splits claim_role_result.splits)

lemma flags_ice: "flags (fst (on_ice_connection_state_change e p alive st d)) = flags d"
  by (auto simp: on_ice_connection_state_change_def on_ice_connected_def on_ice_disconnected_def on_ice_failed_def
      remove_session_for_peer_def Let_def split_beta split: option.splits ice_state.splits)

lemma flags_usb: "flags (d\<lparr>d_usb_devices := u\<rparr>) = flags d"
  by (simp add: flags_def)

lemma flags_kept:
  assumes "\<forall>b. a \<noteq> SetMcp b \<and> a \<noteq> SetSsh b"
  shows "flags (device_step e a d) = flags d"
  using assms
  by (cases a) (auto simp: flags_claim flags_ice register_session_def remove_and_close_session_def
      remove_and_close_session_for_peer_def close_previous_session_after_delay_def update_session_rpc_channel_def
      rpc_request_control_def lift_lease_def timer_fires_def reconcile_with_ssh_overlay_def update_config_def Let_def split_beta
      flags_usb split: option.splits sum.splits)

lemma disconnect_flags:
  "d_mcp (fst (disconnect_agent_for_mcp_off e d)) = d_mcp d" "d_ssh (fst (disconnect_agent_for_mcp_off e d)) = d_ssh d"
  by (simp_all add: disconnect_agent_for_mcp_off_def remove_and_close_session_def split_beta split: option.splits)

lemma apply_ssh_implies:
  assumes "sv_save_mcp v" "d_ssh d \<longrightarrow> d_mcp d" "ssh \<longrightarrow> mcp"
  shows "d_ssh (fst (apply_ssh_forwarding_state v mcp ssh d)) \<longrightarrow> d_mcp (fst (apply_ssh_forwarding_state v mcp ssh d))"
proof -
  have "d_ssh (fst (apply_attempts v n k le ad pd mcp ssh x)) \<longrightarrow> d_mcp (fst (apply_attempts v n k le ad pd mcp ssh x))"
    if "d_ssh x \<longrightarrow> d_mcp x" for n k le ad pd x
    using that assms(1,3) by (induction n arbitrary: k le) (auto simp: persist_ssh_state_def update_config_def Let_def split: sum.splits)
  with assms(2) show ?thesis
    by (simp add: apply_ssh_forwarding_state_def stop_mic_process_if_running_def update_config_def Let_def)
qed

text \<open>
  SSH forwarding needs MCP. As long as the configuration write of the MCP flag does not fail,
  no action of the device leads from a state where SSH forwarding implies MCP to one where SSH
  forwarding is on and MCP is off; and switching SSH forwarding on with MCP off is an error that
  changes nothing.
\<close>

theorem ssh_requires_mcp:
  assumes "sv_save_mcp (ke_ssh e)" and "d_ssh d \<longrightarrow> d_mcp d"
  shows "(d_ssh (device_step e a d) \<longrightarrow> d_mcp (device_step e a d))
    \<and> (\<not> d_mcp d \<longrightarrow> set_ssh_forwarding (ke_ssh e) True d
         = (d, Inl ''mcp_disabled: enable MCP before SSH Forwarding''))"
proof -
  note imp = apply_ssh_implies [OF assms]
  have mcp: "d_ssh (fst (set_mcp_enabled x (ke_ssh e) b d)) \<longrightarrow> d_mcp (fst (set_mcp_enabled x (ke_ssh e) b d))" for x b
    using imp [of False False] assms(2)
    by (auto simp: set_mcp_enabled_def update_config_def split_beta disconnect_flags split: sum.splits)
  have ssh: "d_ssh (fst (set_ssh_forwarding (ke_ssh e) b d)) \<longrightarrow> d_mcp (fst (set_ssh_forwarding (ke_ssh e) b d))" for b
    using imp [of b "d_mcp d"] assms(2) by (auto simp: set_ssh_forwarding_def)
  have "d_ssh (device_step e a d) \<longrightarrow> d_mcp (device_step e a d)"
  proof (cases "\<exists>b. a = SetMcp b \<or> a = SetSsh b")
    case True
    with mcp ssh show ?thesis by auto
  next
    case False
    then have "flags (device_step e a d) = flags d" by (intro flags_kept) blast
    with assms(2) show ?thesis by (simp add: flags_def)
  qed
  then show ?thesis by (simp add: set_ssh_forwarding_def)
qed

theorem ssh_requires_mcp_witness:
  "d_mcp (device_step env0 (SetMcp False) (device_step env0 (SetSsh True) demo)) = False
   \<and> d_ssh (device_step env0 (SetSsh True) demo)
   \<and> \<not> d_ssh (device_step env0 (SetMcp False) (device_step env0 (SetSsh True) demo))"
proof -
  have s: "sv_save_mcp (ke_ssh env0)" by (simp add: env0_def)
  have on: "d_ssh (device_step env0 (SetSsh True) demo)" "d_mcp (device_step env0 (SetSsh True) demo)"
    and off: "d_mcp (device_step env0 (SetMcp False) (device_step env0 (SetSsh True) demo)) = False"
    by code_simp+
  from ssh_requires_mcp [OF s, of "device_step env0 (SetSsh True) demo" "SetMcp False"] on off
  show ?thesis by blast
qed

text \<open>
  A failed write of the configuration leaves the agent connected for good. Switching MCP off,
  when the sidecar accepts the change and a configuration write of the MCP flag or of the SSH flag
  fails, reports an error with MCP already off and without having disconnected the agent; repeating
  the call then reports success, and still does not disconnect it.
\<close>

theorem mcp_off_partial_write:
  assumes "d_mcp d" and "sv_reconcile v 1 (devices_for_apply (d_usb_devices d) False) = Inr ()"
    and "sv_save_devices v" and "if d_ssh d then \<not> sv_save_mcp v \<or> \<not> sv_save_ssh v else \<not> sv_save_mcp v"
  shows "\<exists>d'. set_mcp_enabled e v False d = (d', Inl ''config'', [])
    \<and> \<not> d_mcp d' \<and> d_app d' = d_app d \<and> d_lease d' = d_lease d
    \<and> set_mcp_enabled e v False d' = (d', Inr (), [])"
  using assms
  by (auto simp: set_mcp_enabled_def update_config_def apply_ssh_forwarding_state_def persist_ssh_state_def Let_def
      numeral_eq_Suc split: if_splits)

theorem mcp_off_partial_write_witness:
  "\<exists>d'. set_mcp_enabled (ke_webrtc env0) ((ke_ssh env0)\<lparr>sv_save_mcp := False\<rparr>) False demo = (d', Inl ''config'', [])
     \<and> \<not> d_mcp d' \<and> get_session_for_role (d_app d') Agent = Some 2"
proof -
  have "d_mcp demo" "\<not> d_ssh demo" "get_session_for_role (d_app demo) Agent = Some 2" by code_simp+
  then show ?thesis
    using mcp_off_partial_write [of demo "(ke_ssh env0)\<lparr>sv_save_mcp := False\<rparr>" "ke_webrtc env0"]
    by (auto simp: env0_def)
qed

text \<open>
  Removal does not detach media. Closing a session while another one stays registered leaves
  both sink tables as they were, so the sink of the closed session keeps receiving samples until
  its slot's next occupant connects or the last session leaves; only an ICE disconnect detaches.
\<close>

theorem removal_keeps_sinks:
  assumes "remove_and_close_session e i d = (d', True, effs)" and "session_count (d_app d') \<noteq> 0"
  shows "d_video_sinks d' = d_video_sinks d \<and> d_audio_sinks d' = d_audio_sinks d"
proof -
  have "d_video_sinks (fst (remove_session_inner j x y)) = d_video_sinks y"
    "d_audio_sinks (fst (remove_session_inner j x y)) = d_audio_sinks y" for j x y
    by (simp_all add: remove_session_inner_def on_session_removed_def Let_def split_beta split: option.splits)
  moreover have "d_video_sinks (fst (close_removed_session p y)) = d_video_sinks y"
    "d_audio_sinks (fst (close_removed_session p y)) = d_audio_sinks y" for p y
    by (simp_all add: close_removed_session_def Let_def split_beta split: option.splits)
  ultimately show ?thesis
    using assms
    by (auto simp: remove_and_close_session_def remove_and_close_with_def cleanup_last_session_resources_def
        Let_def split_beta split: option.splits if_splits)
qed

theorem removal_keeps_sinks_witness:
  "let d' = fst (remove_and_close_session (ke_webrtc env0) ''a'' demo)
   in session_at (d_app d') ''a'' = None \<and> map_option se_session_id (hm_get (d_video_sinks d') Agent) = Some ''a''"
proof -
  obtain d' b effs where r: "remove_and_close_session (ke_webrtc env0) ''a'' demo = (d', b, effs)"
    by (cases "remove_and_close_session (ke_webrtc env0) ''a'' demo")
  have f: "fst (snd (remove_and_close_session (ke_webrtc env0) ''a'' demo))"
    "session_count (d_app (fst (remove_and_close_session (ke_webrtc env0) ''a'' demo))) \<noteq> 0"
    "session_at (d_app (fst (remove_and_close_session (ke_webrtc env0) ''a'' demo))) ''a'' = None"
    "map_option se_session_id (hm_get (d_video_sinks demo) Agent) = Some ''a''" by code_simp+
  with r removal_keeps_sinks [of "ke_webrtc env0" "''a''" demo d' effs] show ?thesis by simp
qed

end
