(* ===== verification/Json_Rpc.thy ===== *)
theory Json_Rpc
  imports Kvm_Device
begin

text \<open>
  \<open>JsonRpcProcessor\<close> of \<^verbatim>\<open>arkkvm/src/jsonrpc.rs\<close>: the message handlers of the RPC channel and of
  the input channels, with the input gate in front of the handlers. The JSON parser is not part
  of the sources: a message is what parsing it gave, \<open>None\<close> for a parse error. The handlers of
  the registry are an argument, functions of the parameters and the calling session on whatever
  state \<open>'w\<close> they work on; \<open>'v\<close> is the type of JSON values.
\<close>

datatype 'v error_data = DataValue 'v | DataString string | DataFields "(string \<times> string) list"

record 'v rpc_error =
  re_code :: int
  re_message :: string
  re_data :: "'v error_data option"

record 'v rpc_request =
  rq_method :: string
  rq_params :: "'v option"
  rq_id :: "'v option"

record 'v rpc_response =
  rs_result :: "'v option"
  rs_error :: "'v rpc_error option"
  rs_id :: "'v option"

type_synonym ('v, 'w) rpc_handler = "'v option \<Rightarrow> string \<Rightarrow> 'w \<Rightarrow> (string, 'v) result \<times> 'w"

type_synonym ('v, 'w) rpc_registry = "string \<Rightarrow> ('v, 'w) rpc_handler option"

definition is_hid_method :: "string \<Rightarrow> bool" where
  "is_hid_method m = (m \<in> set [''keyboardReport'', ''absMouseReport'', ''relMouseReport'', ''wheelReport''])"

definition parse_error :: "'v rpc_error" where
  "parse_error = \<lparr>re_code = -32700, re_message = ''Parse error'', re_data = None\<rparr>"

definition method_not_found :: "'v rpc_error" where
  "method_not_found = \<lparr>re_code = -32601, re_message = ''Method not found'', re_data = None\<rparr>"

definition internal_error :: "string option \<Rightarrow> 'v rpc_error" where
  "internal_error x = \<lparr>re_code = -32603, re_message = ''Internal error'', re_data = map_option DataString x\<rparr>"

definition application_error :: "string \<Rightarrow> string \<Rightarrow> (string \<times> string) list option \<Rightarrow> 'v rpc_error" where
  "application_error code msg data =
     \<lparr>re_code = -32001, re_message = msg,
      re_data = Some (DataFields (case data of
         None \<Rightarrow> [(''code'', code)]
       | Some fs \<Rightarrow> AList.update ''code'' code fs))\<rparr>"

definition error_response :: "'v rpc_error \<Rightarrow> 'v option \<Rightarrow> 'v rpc_response" where
  "error_response err i = \<lparr>rs_result = None, rs_error = Some err, rs_id = i\<rparr>"

definition handler_error :: "string \<Rightarrow> 'v rpc_error" where
  "handler_error msg =
     (case control_error_data msg of
        Some (code, m) \<Rightarrow> application_error code msg (Some [(''code'', code), (''message'', m)])
      | None \<Rightarrow> internal_error (Some msg))"

text \<open>
  \<open>gate\<close> is the answer of \<open>allows_hid\<close> for the calling session. The result has the
  response sent on the channel, if any, the state after the handler and whether the call was
  counted as denied.
\<close>

definition handle_message ::
  "('v, 'w) rpc_registry \<Rightarrow> (string \<Rightarrow> bool) \<Rightarrow> 'v rpc_request option \<Rightarrow> string \<Rightarrow> 'w
     \<Rightarrow> 'v rpc_response option \<times> 'w \<times> bool" where
  "handle_message registry gate message sid w =
     (case message of
        None \<Rightarrow> (Some (error_response parse_error None), w, False)
      | Some rq \<Rightarrow>
          if is_hid_method (rq_method rq) \<and> \<not> gate sid
          then ((if rq_id rq \<noteq> None
                 then Some (error_response (application_error CONTROL_DENIED
                        ''HID blocked: session does not hold control'' None) (rq_id rq))
                 else None), w, True)
          else case registry (rq_method rq) of
            None \<Rightarrow> (Some (error_response method_not_found (rq_id rq)), w, False)
          | Some h \<Rightarrow>
              (case h (rq_params rq) sid w of
                 (Inr v, w') \<Rightarrow>
                   ((if rq_id rq \<noteq> None
                     then Some \<lparr>rs_result = Some v, rs_error = None, rs_id = rq_id rq\<rparr> else None), w', False)
               | (Inl e, w') \<Rightarrow>
                   ((if rq_id rq \<noteq> None
                     then Some (error_response (handler_error e) (rq_id rq)) else None), w', False)))"

definition handle_input_message ::
  "('v, 'w) rpc_registry \<Rightarrow> (string \<Rightarrow> bool) \<Rightarrow> 'v rpc_request option \<Rightarrow> string \<Rightarrow> 'w \<Rightarrow> 'w \<times> bool" where
  "handle_input_message registry gate message sid w =
     (case message of
        None \<Rightarrow> (w, False)
      | Some rq \<Rightarrow>
          if is_hid_method (rq_method rq) \<and> \<not> gate sid then (w, True)
          else case registry (rq_method rq) of
            None \<Rightarrow> (w, False)
          | Some h \<Rightarrow> (snd (h (rq_params rq) sid w), False))"

definition device_gate :: "device \<Rightarrow> string \<Rightarrow> bool" where
  "device_gate d sid = allows_hid (d_app d) (d_mcp d) (d_lease d) sid"

section \<open>Properties\<close>

text \<open>
  C8: Input reaches a handler only through the gate. A keyboard or mouse message of a session the
  gate refuses changes nothing on either channel, whatever the handlers are: it is counted as denied,
  and on the RPC channel it is answered with the application error \<open>controlDenied\<close> if it carries an id
  and not at all otherwise. The gate refuses every session that is not registered, holds no slot or
  has not the role of the owner, and every agent while MCP is off.
\<close>

theorem hid_input_only_from_owner:
  assumes "is_hid_method (rq_method rq)"
    and "\<not> (\<exists>s. session_at (d_app d) j = Some s \<and> is_role_slot_holder (d_app d) j \<and> l_owner (d_lease d) = Some (s_role s)
           \<and> (s_role s = Agent \<longrightarrow> d_mcp d))"
  shows "handle_input_message registry (device_gate d) (Some rq) j w = (w, True)
    \<and> (\<exists>resp. handle_message registry (device_gate d) (Some rq) j w = (resp, w, True)
         \<and> (rq_id rq = None \<longrightarrow> resp = None)
         \<and> (rq_id rq \<noteq> None \<longrightarrow> (\<exists>err. resp = Some (error_response err (rq_id rq))
              \<and> re_code err = -32001 \<and> re_data err = Some (DataFields [(''code'', ''controlDenied'')]))))"
proof -
  have "\<not> device_gate d j" using assms(2) by (auto simp: device_gate_def allows_hid_def split: option.splits)
  with assms(1) show ?thesis
    by (auto simp: handle_input_message_def handle_message_def application_error_def CONTROL_DENIED_def)
qed

theorem hid_input_only_from_owner_witness:
  "handle_input_message (\<lambda>_. Some (\<lambda>_ _ w. (Inr (), w + 1))) (device_gate demo)
     (Some \<lparr>rq_method = ''keyboardReport'', rq_params = None, rq_id = None\<rparr>) ''a'' (0 :: nat) = (0, True)"
proof -
  have "map_option s_role (session_at (d_app demo) ''a'') = Some Agent" "l_owner (d_lease demo) = Some User" by code_simp+
  then have "\<not> (\<exists>s. session_at (d_app demo) ''a'' = Some s \<and> is_role_slot_holder (d_app demo) ''a'' \<and> l_owner (d_lease demo) = Some (s_role s)
           \<and> (s_role s = Agent \<longrightarrow> d_mcp demo))" by auto
  then show ?thesis
    using hid_input_only_from_owner [of "\<lparr>rq_method = ''keyboardReport'', rq_params = None :: unit option, rq_id = None\<rparr>" demo "''a''"
      "\<lambda>_. Some (\<lambda>_ _ w. (Inr (), w + 1))" "0 :: nat"]
    by (simp add: is_hid_method_def)
qed

text \<open>
  Notifications are never answered, requests always are. A message that parses and carries no
  id gets a response only when its method is unknown (a departure from JSON-RPC 2.0); a message
  with an id gets exactly one response, with that id and with either a result or an error.
\<close>

theorem rpc_reply_discipline:
  "case handle_message registry gate (Some rq) sid w of (resp, w', denied) \<Rightarrow>
     (rq_id rq = None \<longrightarrow> resp = None \<or> registry (rq_method rq) = None)
   \<and> (rq_id rq \<noteq> None \<longrightarrow> (\<exists>r. resp = Some r \<and> rs_id r = rq_id rq \<and> (rs_result r = None) \<noteq> (rs_error r = None)))"
  by (auto simp: handle_message_def error_response_def split: option.splits sum.splits prod.splits)

theorem rpc_reply_discipline_witness:
  "\<exists>r. fst (handle_message (\<lambda>_. Some (\<lambda>_ _ w. (Inl ''boom'', w))) (\<lambda>_. True)
     (Some \<lparr>rq_method = ''ping'', rq_params = None, rq_id = Some (7 :: int)\<rparr>) ''a'' (0 :: nat)) = Some r
     \<and> rs_id r = Some 7 \<and> (rs_result r = None) \<noteq> (rs_error r = None)"
  using rpc_reply_discipline [where registry = "\<lambda>_. Some (\<lambda>_ _ w. (Inl ''boom'', w))" and gate = "\<lambda>_. True"
    and rq = "\<lparr>rq_method = ''ping'', rq_params = None, rq_id = Some (7 :: int)\<rparr>" and sid = "''a''" and w = "0 :: nat"]
  by (simp add: split_beta)

end
