(* ===== verification/Config_Store.thy ===== *)
theory Config_Store
  imports Kvm_Device
begin

text \<open>
  The configuration store of the application: \<^verbatim>\<open>config/types.rs\<close> (the configuration and its
  validation), \<^verbatim>\<open>config/manager.rs\<close> (the copy in memory and its updates) and
  \<^verbatim>\<open>config/persistence.rs\<close> (the encrypted file, its backup, loading and saving). The JSON
  library, the cipher and the digest are not part of the sources: they are the fields of \<open>codec\<close>.
  What the file system answers is the argument \<open>io_env\<close>.
\<close>

section \<open>The configuration\<close>

record wol_device =
  wd_name :: string
  wd_mac_address :: string
  wd_broadcast_address :: string
  wd_port :: u16

record macro_step =
  ms_keys :: "string list"
  ms_modifiers :: "string list"
  ms_delay :: u32

record keyboard_macro =
  km_id :: string
  km_name :: string
  km_steps :: "macro_step list"
  km_sort_order :: "u32 option"

record jiggler_config =
  jc_inactivity_limit_seconds :: u64
  jc_jitter_percentage :: u32
  jc_schedule_cron_tab :: string
  jc_timezone :: "string option"

record virtual_media_item =
  vi_name :: string
  vi_url :: string
  vi_icon_key :: string

text \<open>
  The fields that no code modelled here looks at (qualities, TLS mode, network settings, transfer
  target, keyboard layout) are the component \<open>c_rest\<close>.
\<close>

record usb_config =
  uc_vendor_id :: string
  uc_product_id :: string
  uc_serial_number :: string
  uc_manufacturer :: string
  uc_product :: string
  uc_force_full_speed :: bool

record 'r config =
  c_cloud_url :: string
  c_cloud_app_url :: string
  c_cloud_token :: "string option"
  c_owner_user_id :: "int option"
  c_dev_channel_enabled :: bool
  c_jiggler_enabled :: bool
  c_auto_update_enabled :: bool
  c_jiggler_config :: jiggler_config
  c_hashed_password :: "string option"
  c_local_auth_token :: "string option"
  c_local_csrf_token :: "string option"
  c_local_auth_token_expires_at :: "int option"
  c_local_agent_auth_token :: "string option"
  c_local_agent_csrf_token :: "string option"
  c_local_agent_auth_token_expires_at :: "int option"
  c_local_auth_mode :: string
  c_local_loopback_only :: bool
  c_wake_on_lan_devices :: "wol_device list"
  c_keyboard_macros :: "keyboard_macro list"
  c_display_rotation :: string
  c_display_max_brightness :: u32
  c_display_dim_after_sec :: u32
  c_display_off_after_sec :: u32
  c_usb_config :: usb_config
  c_usb_devices :: usb_devices_pref
  c_ui_hdmi_audio :: bool
  c_microphone_emulation :: "bool option"
  c_mcp_enabled :: bool
  c_ssh_forwarding_enabled :: bool
  c_audio_playback :: bool
  c_default_log_level :: string
  c_device_id :: string
  c_virtual_media_list :: "virtual_media_item list option"
  c_rest :: 'r

definition jiggler_config_default :: jiggler_config where
  "jiggler_config_default = \<lparr>jc_inactivity_limit_seconds = 60, jc_jitter_percentage = 25,
     jc_schedule_cron_tab = ''0 * * * * *'', jc_timezone = Some ''UTC''\<rparr>"

definition network_adapter_default :: network_adapter_pref where
  "network_adapter_default = \<lparr>na_enable = False, na_adapter_type = Ncm,
     na_l3_config = \<lparr>l3_ip_address = ''172.16.0.1'', l3_subnet_mask = ''255.255.255.0'', l3_gateway = None,
       l3_dns_servers = None\<rparr>\<rparr>"

definition usb_devices_default :: usb_devices_pref where
  "usb_devices_default = \<lparr>ud_absolute_mouse = True, ud_relative_mouse = True, ud_keyboard = True,
     ud_mass_storage_vm = True, ud_mass_storage_ft = True, ud_microphone = True, ud_camera = False,
     ud_network_adapter = network_adapter_default\<rparr>"

definition usb_config_default :: "string \<Rightarrow> usb_config" where
  "usb_config_default device_id = \<lparr>uc_vendor_id = ''0x1d6b'', uc_product_id = ''0x0104'', uc_serial_number = device_id,
     uc_manufacturer = ''ArkKVM'', uc_product = ''Multifunction Composite Gadget'', uc_force_full_speed = False\<rparr>"

definition config_default :: "string \<Rightarrow> 'r \<Rightarrow> 'r config" where
  "config_default device_id rest =
     \<lparr>c_cloud_url = ''https://api.arkkvm.com'', c_cloud_app_url = ''https://app.arkkvm.com'', c_cloud_token = None,
      c_owner_user_id = None, c_dev_channel_enabled = False, c_jiggler_enabled = False, c_auto_update_enabled = False,
      c_jiggler_config = jiggler_config_default, c_hashed_password = None, c_local_auth_token = None,
      c_local_csrf_token = None, c_local_auth_token_expires_at = None, c_local_agent_auth_token = None,
      c_local_agent_csrf_token = None, c_local_agent_auth_token_expires_at = None, c_local_auth_mode = [],
      c_local_loopback_only = False, c_wake_on_lan_devices = [], c_keyboard_macros = [],
      c_display_rotation = ''270'', c_display_max_brightness = 64, c_display_dim_after_sec = 120,
      c_display_off_after_sec = 1800, c_usb_config = usb_config_default device_id,
      c_usb_devices = usb_devices_default, c_ui_hdmi_audio = False, c_microphone_emulation = Some False,
      c_mcp_enabled = False, c_ssh_forwarding_enabled = False, c_audio_playback = True,
      c_default_log_level = ''INFO'', c_device_id = device_id, c_virtual_media_list = None, c_rest = rest\<rparr>"

definition effective_microphone_emulation :: "'r config \<Rightarrow> bool" where
  "effective_microphone_emulation c = (case c_microphone_emulation c of Some b \<Rightarrow> b | None \<Rightarrow> False)"

definition migrate_microphone_emulation :: "'r config \<Rightarrow> bool \<times> 'r config" where
  "migrate_microphone_emulation c =
     (if c_microphone_emulation c \<noteq> None then (False, c)
      else (True, c\<lparr>c_microphone_emulation := Some (ud_microphone (c_usb_devices c))\<rparr>))"

definition is_setup_required :: "'r config \<Rightarrow> bool" where
  "is_setup_required c = (c_local_auth_mode c = [])"

section \<open>Validation\<close>

text \<open>Validation works on the configuration in place: delays are clamped as far as it gets.\<close>

definition MAX_MACROS_PER_DEVICE :: nat where "MAX_MACROS_PER_DEVICE = 25"
definition MAX_STEPS_PER_MACRO :: nat where "MAX_STEPS_PER_MACRO = 10"
definition MAX_KEYS_PER_STEP :: nat where "MAX_KEYS_PER_STEP = 10"
definition MIN_STEP_DELAY :: u32 where "MIN_STEP_DELAY = 50"
definition MAX_STEP_DELAY :: u32 where "MAX_STEP_DELAY = 2000"

definition step_validate :: "macro_step \<Rightarrow> (string, unit) result \<times> macro_step" where
  "step_validate s =
     (if length (ms_keys s) > MAX_KEYS_PER_STEP
      then (Inl (''Too many keys in step (max '' @ nat_to_dec MAX_KEYS_PER_STEP @ '')''), s)
      else (Inr (), s\<lparr>ms_delay := min (max (ms_delay s) MIN_STEP_DELAY) MAX_STEP_DELAY\<rparr>))"

fun validate_steps :: "nat \<Rightarrow> macro_step list \<Rightarrow> (string, unit) result \<times> macro_step list" where
  "validate_steps i [] = (Inr (), [])"
| "validate_steps i (s # ss) =
     (case step_validate s of
        (Inl e, s') \<Rightarrow> (Inl (''Invalid step '' @ nat_to_dec (i + 1) @ '': '' @ e), s' # ss)
      | (Inr _, s') \<Rightarrow> (case validate_steps (i + 1) ss of (r, ss') \<Rightarrow> (r, s' # ss')))"

definition macro_validate :: "keyboard_macro \<Rightarrow> (string, unit) result \<times> keyboard_macro" where
  "macro_validate m =
     (if trim (km_name m) = [] then (Inl ''Macro name cannot be empty'', m)
      else if km_steps m = [] then (Inl ''Macro must have at least one step'', m)
      else if length (km_steps m) > MAX_STEPS_PER_MACRO
      then (Inl (''Too many steps in macro (max '' @ nat_to_dec MAX_STEPS_PER_MACRO @ '')''), m)
      else case validate_steps 0 (km_steps m) of (r, ss) \<Rightarrow> (r, m\<lparr>km_steps := ss\<rparr>))"

fun validate_macros :: "nat \<Rightarrow> keyboard_macro list \<Rightarrow> string list \<times> keyboard_macro list" where
  "validate_macros i [] = ([], [])"
| "validate_macros i (m # ms) =
     (case (macro_validate m, validate_macros (i + 1) ms) of
        ((r, m'), (errs, ms')) \<Rightarrow>
          ((case r of Inl e \<Rightarrow> [''Invalid macro '' @ nat_to_dec (i + 1) @ '': '' @ e] | Inr _ \<Rightarrow> []) @ errs, m' # ms'))"

definition config_validate :: "'r config \<Rightarrow> (string list, unit) result \<times> 'r config" where
  "config_validate c =
     (case validate_macros 0 (c_keyboard_macros c) of
        (macro_errs, ms) \<Rightarrow>
          let errors =
                (if length (c_keyboard_macros c) > MAX_MACROS_PER_DEVICE
                 then [''Too many macros (max '' @ nat_to_dec MAX_MACROS_PER_DEVICE @ '')''] else [])
              @ macro_errs
              @ (if c_display_max_brightness c > 255 then [''Display max brightness cannot exceed 255''] else [])
              @ (if c_local_auth_mode c \<noteq> [] \<and> c_local_auth_mode c \<notin> set [''password'', ''noPassword'']
                 then [''Invalid auth mode, must be '' @ [CHR 0x27] @ ''password'' @ [CHR 0x27] @ '' or '' @ [CHR 0x27] @ ''noPassword'' @ [CHR 0x27]] else [])
          in (if errors = [] then Inr () else Inl errors, c\<lparr>c_keyboard_macros := ms\<rparr>))"

section \<open>The file and its backup\<close>

type_synonym bytes = "u8 list"

record 'r codec =
  cd_to_json :: "'r config \<Rightarrow> (string, string) result"
  cd_from_json :: "string \<Rightarrow> (string, 'r config) result"
  cd_encrypt :: "bytes \<Rightarrow> bytes \<Rightarrow> bytes \<Rightarrow> (string, bytes) result"
  cd_decrypt :: "bytes \<Rightarrow> bytes \<Rightarrow> bytes \<Rightarrow> (string, bytes) result"
  cd_sha256 :: "bytes \<Rightarrow> bytes"
  cd_hex :: "bytes \<Rightarrow> string"
  cd_device_id :: string
  cd_rest :: 'r

record disk =
  dk_primary :: "bytes option"
  dk_backup :: "bytes option"
  dk_tmp :: "bytes option"

text \<open>
  A file operation succeeds or fails; a failed copy or write leaves some content behind. Reading a
  file that exists can fail as well.
\<close>

datatype write_outcome = Written | NotWritten string "bytes option"

record io_env =
  io_mkdir :: "string option"
  io_copy :: write_outcome
  io_nonce :: bytes
  io_write :: write_outcome
  io_rename :: "string option"
  io_read_primary :: "string option"
  io_read_backup :: "string option"
  io_restore :: write_outcome

datatype config_error = ConfigInvalid "string list" | ConfigIo string | ConfigRejected string

definition after_write :: "write_outcome \<Rightarrow> bytes \<Rightarrow> bytes option" where
  "after_write r b = (case r of Written \<Rightarrow> Some b | NotWritten _ left \<Rightarrow> left)"

definition get_code :: "'r codec \<Rightarrow> bytes" where
  "get_code cd =
     (let result = drop 16 (cd_sha256 cd (string_bytes (''jianguo_'' @ cd_device_id cd)))
      in cd_sha256 cd (string_bytes (cd_hex cd result @ ''_zxw_'' @ cd_device_id cd)))"

definition NONCE_LEN :: nat where "NONCE_LEN = 12"

definition config_encode :: "'r codec \<Rightarrow> bytes \<Rightarrow> string \<Rightarrow> (string, bytes) result" where
  "config_encode cd nonce plain =
     (case cd_encrypt cd (get_code cd) nonce (string_bytes plain) of
        Inl e \<Rightarrow> Inl (''config encrypt: '' @ e)
      | Inr ciphertext \<Rightarrow> Inr (nonce @ ciphertext))"

definition config_decode :: "'r codec \<Rightarrow> bytes \<Rightarrow> (string, string) result" where
  "config_decode cd encrypted =
     (if length encrypted < NONCE_LEN then Inl ''config decode: payload too short''
      else case cd_decrypt cd (get_code cd) (take NONCE_LEN encrypted) (drop NONCE_LEN encrypted) of
             Inl e \<Rightarrow> Inl (''config decrypt: '' @ e)
           | Inr plain \<Rightarrow>
               if utf8_valid plain then Inr (bytes_to_string plain) else Inl ''config decrypt: invalid UTF-8'')"

definition parse_and_merge_config :: "'r codec \<Rightarrow> string \<Rightarrow> (string, 'r config) result" where
  "parse_and_merge_config cd contents =
     (case cd_from_json cd contents of
        Inl e \<Rightarrow> Inl ''Failed to parse configuration JSON''
      | Inr c \<Rightarrow>
          let d = config_default (cd_device_id cd) (cd_rest cd);
              c1 = (if c_device_id c = [] then c\<lparr>c_device_id := cd_device_id cd\<rparr> else c);
              c2 = (if c_cloud_url c1 = [] then c1\<lparr>c_cloud_url := c_cloud_url d\<rparr> else c1);
              c3 = (if c_cloud_app_url c2 = [] then c2\<lparr>c_cloud_app_url := c_cloud_app_url d\<rparr> else c2)
          in Inr (if c_default_log_level c3 = [] then c3\<lparr>c_default_log_level := c_default_log_level d\<rparr> else c3))"

definition load_from_file :: "'r codec \<Rightarrow> string option \<Rightarrow> bytes \<Rightarrow> (string, 'r config) result" where
  "load_from_file cd read_err contents =
     (case read_err of
        Some e \<Rightarrow> Inl e
      | None \<Rightarrow>
          if contents = [] then Inr (config_default (cd_device_id cd) (cd_rest cd))
          else bind_res (config_decode cd contents) (\<lambda>json.
               bind_res (parse_and_merge_config cd json) (\<lambda>c.
               case config_validate c of
                 (Inl errs, _) \<Rightarrow> Inr (config_default (cd_device_id cd) (cd_rest cd))
               | (Inr _, c') \<Rightarrow> Inr c')))"

definition persistence_load :: "'r codec \<Rightarrow> io_env \<Rightarrow> disk \<Rightarrow> (string, 'r config) result \<times> disk" where
  "persistence_load cd io d =
     (case dk_primary d of
        None \<Rightarrow> (Inr (config_default (cd_device_id cd) (cd_rest cd)), d)
      | Some contents \<Rightarrow>
          (case load_from_file cd (io_read_primary io) contents of
             Inr c \<Rightarrow> (Inr c, d)
           | Inl _ \<Rightarrow>
               (case dk_backup d of
                  None \<Rightarrow> (Inr (config_default (cd_device_id cd) (cd_rest cd)), d)
                | Some b \<Rightarrow>
                    (case load_from_file cd (io_read_backup io) b of
                       Inl _ \<Rightarrow> (Inr (config_default (cd_device_id cd) (cd_rest cd)), d)
                     | Inr c \<Rightarrow> (Inr c, d\<lparr>dk_primary := after_write (io_restore io) b\<rparr>)))))"

definition persistence_save :: "'r codec \<Rightarrow> io_env \<Rightarrow> 'r config \<Rightarrow> disk \<Rightarrow> (config_error, unit) result \<times> disk" where
  "persistence_save cd io c d =
     (case io_mkdir io of
        Some e \<Rightarrow> (Inl (ConfigIo e), d)
      | None \<Rightarrow>
          let d1 = (case dk_primary d of None \<Rightarrow> d | Some b \<Rightarrow> d\<lparr>dk_backup := after_write (io_copy io) b\<rparr>)
          in case bind_res (cd_to_json cd c) (config_encode cd (io_nonce io)) of
               Inl e \<Rightarrow> (Inl (ConfigIo e), d1)
             | Inr encoded \<Rightarrow>
                 let d2 = d1\<lparr>dk_tmp := after_write (io_write io) encoded\<rparr>
                 in case io_write io of
                      NotWritten e _ \<Rightarrow> (Inl (ConfigIo e), d2)
                    | Written \<Rightarrow>
                        (case io_rename io of
                           Some e \<Rightarrow> (Inl (ConfigIo e), d2)
                         | None \<Rightarrow> (Inr (), d2\<lparr>dk_primary := Some encoded, dk_tmp := None\<rparr>)))"

section \<open>The copy in memory\<close>

record 'r config_manager =
  cm_config :: "'r config"
  cm_disk :: disk

definition manager_save :: "'r codec \<Rightarrow> io_env \<Rightarrow> 'r config_manager \<Rightarrow> (config_error, unit) result \<times> 'r config_manager" where
  "manager_save cd io s =
     (case persistence_save cd io (cm_config s) (cm_disk s) of (r, d) \<Rightarrow> (r, s\<lparr>cm_disk := d\<rparr>))"

definition manager_load :: "'r codec \<Rightarrow> io_env \<Rightarrow> io_env \<Rightarrow> 'r config_manager \<Rightarrow> (config_error, unit) result \<times> 'r config_manager" where
  "manager_load cd io io2 s =
     (case persistence_load cd io (cm_disk s) of
        (Inl e, d) \<Rightarrow> (Inl (ConfigIo e), s\<lparr>cm_disk := d\<rparr>)
      | (Inr c, d) \<Rightarrow>
          (case migrate_microphone_emulation c of
             (migrated, c') \<Rightarrow>
               let s1 = s\<lparr>cm_config := c', cm_disk := d\<rparr>
               in if migrated then manager_save cd io2 s1 else (Inr (), s1)))"

definition manager_update ::
  "'r codec \<Rightarrow> io_env \<Rightarrow> ('r config \<Rightarrow> 'r config) \<Rightarrow> 'r config_manager \<Rightarrow> (config_error, unit) result \<times> 'r config_manager" where
  "manager_update cd io updater s =
     (case config_validate (updater (cm_config s)) of
        (Inl errors, c') \<Rightarrow> (Inl (ConfigInvalid errors), s\<lparr>cm_config := c'\<rparr>)
      | (Inr _, c') \<Rightarrow> manager_save cd io (s\<lparr>cm_config := c'\<rparr>))"

section \<open>Operations on lists of the configuration\<close>

definition set_keyboard_macro ::
  "'r codec \<Rightarrow> io_env \<Rightarrow> keyboard_macro \<Rightarrow> 'r config_manager \<Rightarrow> (config_error, unit) result \<times> 'r config_manager" where
  "set_keyboard_macro cd io m s =
     (case macro_validate m of
        (Inl e, _) \<Rightarrow> (Inl (ConfigRejected e), s)
      | (Inr _, m') \<Rightarrow>
          manager_update cd io (\<lambda>c. c\<lparr>c_keyboard_macros :=
            (if \<exists>x \<in> set (c_keyboard_macros c). km_id x = km_id m'
             then let k = length (takeWhile (\<lambda>x. km_id x \<noteq> km_id m') (c_keyboard_macros c))
                  in (c_keyboard_macros c)[k := m']
             else c_keyboard_macros c @ [m'])\<rparr>) s)"

definition remove_keyboard_macro ::
  "'r codec \<Rightarrow> io_env \<Rightarrow> string \<Rightarrow> 'r config_manager \<Rightarrow> (config_error, unit) result \<times> 'r config_manager" where
  "remove_keyboard_macro cd io i s =
     manager_update cd io (\<lambda>c. c\<lparr>c_keyboard_macros := filter (\<lambda>m. km_id m \<noteq> i) (c_keyboard_macros c)\<rparr>) s"

definition set_wake_on_lan_device ::
  "'r codec \<Rightarrow> io_env \<Rightarrow> wol_device \<Rightarrow> 'r config_manager \<Rightarrow> (config_error, unit) result \<times> 'r config_manager" where
  "set_wake_on_lan_device cd io w s =
     manager_update cd io (\<lambda>c. c\<lparr>c_wake_on_lan_devices :=
       (if \<exists>x \<in> set (c_wake_on_lan_devices c). wd_name x = wd_name w
        then let k = length (takeWhile (\<lambda>x. wd_name x \<noteq> wd_name w) (c_wake_on_lan_devices c))
             in (c_wake_on_lan_devices c)[k := w]
        else c_wake_on_lan_devices c @ [w])\<rparr>) s"

definition remove_wake_on_lan_device ::
  "'r codec \<Rightarrow> io_env \<Rightarrow> string \<Rightarrow> 'r config_manager \<Rightarrow> (config_error, unit) result \<times> 'r config_manager" where
  "remove_wake_on_lan_device cd io n s =
     manager_update cd io (\<lambda>c. c\<lparr>c_wake_on_lan_devices := filter (\<lambda>d. wd_name d \<noteq> n) (c_wake_on_lan_devices c)\<rparr>) s"

definition set_display_config ::
  "'r codec \<Rightarrow> io_env \<Rightarrow> string option \<Rightarrow> u32 option \<Rightarrow> u32 option \<Rightarrow> u32 option \<Rightarrow> 'r config_manager
     \<Rightarrow> (config_error, unit) result \<times> 'r config_manager" where
  "set_display_config cd io rotation max_brightness dim_after_sec off_after_sec s =
     manager_update cd io (\<lambda>c. c\<lparr>
       c_display_rotation := (case rotation of Some r \<Rightarrow> r | None \<Rightarrow> c_display_rotation c),
       c_display_max_brightness := (case max_brightness of Some b \<Rightarrow> b | None \<Rightarrow> c_display_max_brightness c),
       c_display_dim_after_sec := (case dim_after_sec of Some d \<Rightarrow> d | None \<Rightarrow> c_display_dim_after_sec c),
       c_display_off_after_sec := (case off_after_sec of Some o' \<Rightarrow> o' | None \<Rightarrow> c_display_off_after_sec c)\<rparr>) s"

definition set_cloud_config ::
  "'r codec \<Rightarrow> io_env \<Rightarrow> string option \<Rightarrow> string option \<Rightarrow> 'r config_manager \<Rightarrow> (config_error, unit) result \<times> 'r config_manager" where
  "set_cloud_config cd io cloud_url cloud_token s =
     manager_update cd io (\<lambda>c. c\<lparr>c_cloud_url := (case cloud_url of Some u \<Rightarrow> u | None \<Rightarrow> c_cloud_url c),
       c_cloud_token := cloud_token\<rparr>) s"

definition set_oobe_settings ::
  "'r codec \<Rightarrow> io_env \<Rightarrow> bool \<Rightarrow> bool \<Rightarrow> bool \<Rightarrow> bool \<Rightarrow> 'r config_manager \<Rightarrow> (config_error, unit) result \<times> 'r config_manager" where
  "set_oobe_settings cd io microphone_emulation camera_emulation file_transfer audio_playback s =
     manager_update cd io (\<lambda>c. c\<lparr>c_usb_devices := (c_usb_devices c)\<lparr>ud_microphone := microphone_emulation,
         ud_camera := camera_emulation, ud_mass_storage_ft := file_transfer\<rparr>,
       c_microphone_emulation := Some microphone_emulation, c_audio_playback := audio_playback\<rparr>) s"

definition set_dev_channel_state ::
  "'r codec \<Rightarrow> io_env \<Rightarrow> bool \<Rightarrow> 'r config_manager \<Rightarrow> (config_error, unit) result \<times> 'r config_manager" where
  "set_dev_channel_state cd io enabled s = manager_update cd io (\<lambda>c. c\<lparr>c_dev_channel_enabled := enabled\<rparr>) s"

definition set_jiggler_config ::
  "'r codec \<Rightarrow> io_env \<Rightarrow> jiggler_config \<Rightarrow> 'r config_manager \<Rightarrow> (config_error, unit) result \<times> 'r config_manager" where
  "set_jiggler_config cd io jc s = manager_update cd io (\<lambda>c. c\<lparr>c_jiggler_config := jc\<rparr>) s"

definition set_jiggler_enable ::
  "'r codec \<Rightarrow> io_env \<Rightarrow> bool \<Rightarrow> 'r config_manager \<Rightarrow> (config_error, unit) result \<times> 'r config_manager" where
  "set_jiggler_enable cd io enabled s = manager_update cd io (\<lambda>c. c\<lparr>c_jiggler_enabled := enabled\<rparr>) s"

text \<open>\<open>url_ok\<close> is the URL parser: the error it reports, if any.\<close>

definition check_virtual_media_item :: "(string \<Rightarrow> string option) \<Rightarrow> virtual_media_item \<Rightarrow> (config_error, unit) result" where
  "check_virtual_media_item url_ok it =
     (if vi_name it = [] then Inl (ConfigRejected ''Virtual media name cannot be empty'')
      else if vi_url it = [] then Inl (ConfigRejected (''Virtual media('' @ vi_name it @ '') URL cannot be empty''))
      else case url_ok (vi_url it) of
             Some e \<Rightarrow> Inl (ConfigRejected (''Virtual media('' @ vi_name it @ '') URL is not valid: '' @ e))
           | None \<Rightarrow> Inr ())"

definition media_debug :: "virtual_media_item \<Rightarrow> string" where
  "media_debug it = ''VirtualMediaItem { name: '' @ debug_str (vi_name it) @ '', url: '' @ debug_str (vi_url it)
     @ '', icon_key: '' @ debug_str (vi_icon_key it) @ '' }''"

definition add_virtual_media_item ::
  "'r codec \<Rightarrow> io_env \<Rightarrow> (string \<Rightarrow> string option) \<Rightarrow> virtual_media_item \<Rightarrow> 'r config_manager
     \<Rightarrow> (config_error, unit) result \<times> 'r config_manager" where
  "add_virtual_media_item cd io url_ok it s =
     (case check_virtual_media_item url_ok it of
        Inl e \<Rightarrow> (Inl e, s)
      | Inr _ \<Rightarrow>
          (case c_virtual_media_list (cm_config s) of
             Some list \<Rightarrow>
               (case find (\<lambda>p. vi_name p = vi_name it \<or> vi_url p = vi_url it) list of
                  Some old \<Rightarrow> (Inl (ConfigRejected (''Virtual media('' @ media_debug old @ '') already exists'')), s)
                | None \<Rightarrow> manager_update cd io (\<lambda>c. c\<lparr>c_virtual_media_list := Some (list @ [it])\<rparr>) s)
           | None \<Rightarrow> manager_update cd io (\<lambda>c. c\<lparr>c_virtual_media_list := Some [it]\<rparr>) s))"

definition remove_virtual_media_item ::
  "'r codec \<Rightarrow> io_env \<Rightarrow> string \<Rightarrow> 'r config_manager \<Rightarrow> (config_error, unit) result \<times> 'r config_manager" where
  "remove_virtual_media_item cd io name s =
     (if name = [] then (Inl (ConfigRejected ''Virtual media name cannot be empty''), s)
      else manager_update cd io (\<lambda>c. c\<lparr>c_virtual_media_list :=
             map_option (filter (\<lambda>it. vi_name it \<noteq> name)) (c_virtual_media_list c)\<rparr>) s)"

fun check_media_list ::
  "(string \<Rightarrow> string option) \<Rightarrow> string list \<Rightarrow> string list \<Rightarrow> virtual_media_item list \<Rightarrow> (config_error, unit) result" where
  "check_media_list url_ok names urls [] = Inr ()"
| "check_media_list url_ok names urls (it # its) =
     bind_res (check_virtual_media_item url_ok it) (\<lambda>_.
       if vi_name it \<in> set names
       then Inl (ConfigRejected (''Virtual media name('' @ vi_name it @ '') can not repeat''))
       else if vi_url it \<in> set urls
       then Inl (ConfigRejected (''Virtual media URL('' @ vi_url it @ '') can not repeat''))
       else check_media_list url_ok (vi_name it # names) (vi_url it # urls) its)"

definition update_virtual_media_list ::
  "'r codec \<Rightarrow> io_env \<Rightarrow> (string \<Rightarrow> string option) \<Rightarrow> virtual_media_item list option \<Rightarrow> 'r config_manager
     \<Rightarrow> (config_error, unit) result \<times> 'r config_manager" where
  "update_virtual_media_list cd io url_ok list s =
     (case (case list of None \<Rightarrow> Inr () | Some l \<Rightarrow> check_media_list url_ok [] [] l) of
        Inl e \<Rightarrow> (Inl e, s)
      | Inr _ \<Rightarrow> manager_update cd io (\<lambda>c. c\<lparr>c_virtual_media_list := list\<rparr>) s)"

section \<open>Validation, saving, loading\<close>

lemma step_validate_idem: "step_validate s = (Inr u, s') \<Longrightarrow> step_validate s' = (Inr u, s')"
  by (auto simp: step_validate_def MIN_STEP_DELAY_def MAX_STEP_DELAY_def min_def max_def split: if_splits)

lemma validate_steps_idem: "validate_steps i ss = (Inr u, ss') \<Longrightarrow> validate_steps i ss' = (Inr u, ss')"
proof (induction i ss arbitrary: ss' rule: validate_steps.induct)
  case (2 i s ss)
  obtain s1 rest where s1: "step_validate s = (Inr (), s1)" "validate_steps (i + 1) ss = (Inr (), rest)" "ss' = s1 # rest"
    using 2(2) by (auto split: prod.splits sum.splits)
  from 2(1) [OF s1(1) [symmetric] refl] s1(2) have "validate_steps (i + 1) rest = (Inr (), rest)" by simp
  with s1 step_validate_idem [of s "()" s1] show ?case by simp
qed simp

lemma validate_steps_length: "length (snd (validate_steps i ss)) = length ss"
  by (induction i ss rule: validate_steps.induct) (auto split: prod.splits sum.splits)

lemma macro_validate_idem: "macro_validate m = (Inr u, m') \<Longrightarrow> macro_validate m' = (Inr u, m')"
  using validate_steps_idem [of 0 "km_steps m" u] validate_steps_length [of 0 "km_steps m"]
  by (auto simp: macro_validate_def split: if_splits prod.splits)

lemma validate_macros_idem:
  "validate_macros i ms = ([], ms') \<Longrightarrow> validate_macros i ms' = ([], ms') \<and> length ms' = length ms"
proof (induction i ms arbitrary: ms' rule: validate_macros.induct)
  case (2 i m ms)
  obtain m1 rest where m1: "macro_validate m = (Inr (), m1)" "validate_macros (i + 1) ms = ([], rest)" "ms' = m1 # rest"
    using 2(2) by (auto split: prod.splits sum.splits)
  with 2(1) [OF m1(2)] macro_validate_idem [OF m1(1)] show ?case by simp
qed simp

lemma config_validate_idem:
  assumes "config_validate c = (Inr u, c')"
  shows "config_validate c' = (Inr u, c')"
proof -
  obtain ms where ms: "validate_macros 0 (c_keyboard_macros c) = ([], ms)" "c' = c\<lparr>c_keyboard_macros := ms\<rparr>"
    using assms by (auto simp: config_validate_def Let_def split: prod.splits if_splits)
  with assms validate_macros_idem [OF ms(1)] show ?thesis
    by (auto simp: config_validate_def Let_def split: if_splits)
qed

lemma persistence_save_cases:
  assumes "persistence_save cd io c d = (r, d')"
  shows "(\<not> is_ok r \<longrightarrow> dk_primary d' = dk_primary d)
    \<and> (is_ok r \<longrightarrow> (\<exists>json encoded. cd_to_json cd c = Inr json \<and> config_encode cd (io_nonce io) json = Inr encoded
         \<and> dk_primary d' = Some encoded))
    \<and> (dk_primary d \<noteq> None \<and> io_copy io = Written \<and> io_mkdir io = None \<longrightarrow> dk_backup d' = dk_primary d)"
  using assms
  by (auto simp: persistence_save_def Let_def after_write_def split: option.splits sum.splits write_outcome.splits)
     (auto elim!: bind_res.elims)

lemma config_codec_roundtrip:
  assumes "cd_to_json cd c = Inr json" and "cd_from_json cd json = Inr c" and "utf8_valid (string_bytes json)"
    and "\<And>ct. cd_encrypt cd (get_code cd) nonce (string_bytes json) = Inr ct \<Longrightarrow>
           cd_decrypt cd (get_code cd) nonce ct = Inr (string_bytes json)"
    and "length nonce = NONCE_LEN" and "config_encode cd nonce json = Inr encoded"
  shows "config_decode cd encoded = Inr json \<and> encoded \<noteq> []"
  using assms
  by (auto simp: config_encode_def config_decode_def bytes_of_string NONCE_LEN_def split: sum.splits)

definition merged :: "'r config \<Rightarrow> bool" where
  "merged c = (c_device_id c \<noteq> [] \<and> c_cloud_url c \<noteq> [] \<and> c_cloud_app_url c \<noteq> [] \<and> c_default_log_level c \<noteq> [])"

lemma load_encoded:
  assumes "config_decode cd encoded = Inr json" and "encoded \<noteq> []" and "cd_from_json cd json = Inr c"
    and "config_validate c = (Inr (), c)" and "merged c"
  shows "load_from_file cd None encoded = Inr c"
  using assms by (simp add: load_from_file_def parse_and_merge_config_def merged_def Let_def)

text \<open>
  C34: What is saved is what is loaded. If a valid configuration was saved without error, loading
  gives it back, provided the JSON library and the cipher undo themselves on this text.
\<close>

theorem save_load_roundtrip:
  assumes "persistence_save cd io c d = (Inr (), d')" and "io_read_primary io2 = None"
    and "cd_to_json cd c = Inr json" and "cd_from_json cd json = Inr c" and "utf8_valid (string_bytes json)"
    and "\<And>ct. cd_encrypt cd (get_code cd) (io_nonce io) (string_bytes json) = Inr ct \<Longrightarrow>
           cd_decrypt cd (get_code cd) (io_nonce io) ct = Inr (string_bytes json)"
    and "length (io_nonce io) = 12" and "config_validate c = (Inr (), c)" and "merged c"
  shows "persistence_load cd io2 d' = (Inr c, d')"
proof -
  obtain encoded where e: "config_encode cd (io_nonce io) json = Inr encoded" "dk_primary d' = Some encoded"
    using persistence_save_cases [OF assms(1)] assms(3) by auto
  have "config_decode cd encoded = Inr json \<and> encoded \<noteq> []"
    using config_codec_roundtrip [OF assms(3-6) _ e(1)] assms(7) by (simp add: NONCE_LEN_def)
  then have "load_from_file cd None encoded = Inr c" using load_encoded assms(4,8,9) by blast
  with e(2) assms(2) show ?thesis by (simp add: persistence_load_def)
qed

text \<open>
  C35: Saving is all or nothing for the primary file. Whatever file operation fails, and with
  whatever content it leaves behind, a save that does not succeed leaves the primary file as it was,
  so a device without one, or whose file can be loaded, loads the same configuration as before (a
  device that lives on its backup is not protected). A save that succeeds leaves the encoding of the
  new configuration as the primary file and, if the copy worked, the previous file as the backup.
\<close>

theorem save_all_or_nothing:
  assumes "persistence_save cd io c d = (r, d')"
  shows "(\<not> is_ok r \<longrightarrow> dk_primary d' = dk_primary d
          \<and> ((\<forall>b. dk_primary d = Some b \<longrightarrow> is_ok (load_from_file cd (io_read_primary io2) b)) \<longrightarrow>
               fst (persistence_load cd io2 d') = fst (persistence_load cd io2 d)))
    \<and> (is_ok r \<longrightarrow> (\<exists>json encoded. cd_to_json cd c = Inr json \<and> config_encode cd (io_nonce io) json = Inr encoded
            \<and> dk_primary d' = Some encoded)
          \<and> (io_copy io = Written \<and> dk_primary d \<noteq> None \<longrightarrow> dk_backup d' = dk_primary d))"
proof -
  have "io_mkdir io = None" if "is_ok r" using that assms by (auto simp: persistence_save_def split: option.splits)
  moreover have "fst (persistence_load cd io2 d') = fst (persistence_load cd io2 d)"
    if "dk_primary d' = dk_primary d" "\<forall>b. dk_primary d = Some b \<longrightarrow> is_ok (load_from_file cd (io_read_primary io2) b)"
    using that by (auto simp: persistence_load_def split: option.split sum.split)
  ultimately show ?thesis using persistence_save_cases [OF assms] by (cases r) auto
qed

text \<open>
  A device that lives on its backup, with a primary file that cannot be loaded and could not be
  restored, loses both with a save that fails: the unusable file is copied over the backup before
  the new one is written, and the next start takes the defaults.
\<close>

theorem failed_save_eats_backup:
  assumes "dk_primary d = Some bad" "load_from_file cd (io_read_primary io2) bad = Inl err" "load_from_file cd (io_read_backup io2) bad = Inl err"
    and "dk_backup d = Some b" "load_from_file cd (io_read_backup io2) b = Inr c0"
    and "io_mkdir io = None" "io_copy io = Written" "persistence_save cd io c d = (Inl e, d')"
  shows "fst (persistence_load cd io2 d) = Inr c0
    \<and> fst (persistence_load cd io2 d') = Inr (config_default (cd_device_id cd) (cd_rest cd))"
proof -
  have "dk_primary d' = Some bad" "dk_backup d' = Some bad"
    using persistence_save_cases [OF assms(8)] assms(1,6,7) by auto
  with assms(1-5) show ?thesis by (simp add: persistence_load_def)
qed

text \<open>
  A truncated file resets the device. If the primary file exists and is empty, the device starts
  with the default configuration, in which no password is set and anyone may run the initial set-up,
  although the backup may hold the configuration; the backup is only used for a file that cannot be
  read, decrypted or parsed.
\<close>

theorem empty_file_resets:
  assumes "dk_primary d = Some []" and "io_read_primary io = None"
  shows "persistence_load cd io d = (Inr (config_default (cd_device_id cd) (cd_rest cd)), d)
    \<and> is_setup_required (config_default (cd_device_id cd) (cd_rest cd))
    \<and> (\<forall>b c. dk_backup d = Some b \<longrightarrow> load_from_file cd (io_read_backup io) b = Inr c \<longrightarrow>
         config_decode cd bad = Inl e \<longrightarrow> bad \<noteq> [] \<longrightarrow>
         fst (persistence_load cd io (d\<lparr>dk_primary := Some bad\<rparr>)) = Inr c)"
  using assms by (auto simp: persistence_load_def load_from_file_def is_setup_required_def config_default_def)

lemma step_validate_again: "is_ok (fst (step_validate (snd (step_validate s)))) = is_ok (fst (step_validate s))"
  by (simp add: step_validate_def)

lemma validate_steps_again:
  "is_ok (fst (validate_steps i (snd (validate_steps i ss)))) = is_ok (fst (validate_steps i ss))"
proof (induction i ss rule: validate_steps.induct)
  case (2 i s ss)
  obtain r s' where s: "step_validate s = (r, s')" by (rule prod.exhaust)
  obtain q ss' where v: "validate_steps (i + 1) ss = (q, ss')" by (rule prod.exhaust)
  obtain r2 s2 where s2: "step_validate s' = (r2, s2)" by (rule prod.exhaust)
  have "is_ok r2 = is_ok r" using step_validate_again [of s] s s2 by simp
  with 2 s v s2 show ?case by (cases r; cases r2) (auto split: prod.splits)
qed simp

lemma macro_validate_again: "is_ok (fst (macro_validate (snd (macro_validate m)))) = is_ok (fst (macro_validate m))"
  using validate_steps_again [of 0 "km_steps m"] validate_steps_length [of 0 "km_steps m"]
  by (auto simp: macro_validate_def split_beta)

lemma validate_macros_again:
  "(fst (validate_macros i (snd (validate_macros i ms))) = []) = (fst (validate_macros i ms) = [])
   \<and> length (snd (validate_macros i ms)) = length ms"
proof (induction i ms rule: validate_macros.induct)
  case (2 i m ms)
  have "(fst (macro_validate (snd (macro_validate m))) = Inr ()) = (fst (macro_validate m) = Inr ())"
    using macro_validate_again [of m] by (metis is_ok.elims(2) is_ok.simps(2) unit.exhaust)
  with 2 show ?case by (auto simp: split_beta split: sum.splits)
qed simp

lemma config_validate_again:
  assumes "c_keyboard_macros c' = c_keyboard_macros (snd (config_validate c))"
    and "c_display_max_brightness c' = c_display_max_brightness c" and "c_local_auth_mode c' = c_local_auth_mode c"
  shows "is_ok (fst (config_validate c')) = is_ok (fst (config_validate c))"
  using assms validate_macros_again [of 0 "c_keyboard_macros c"]
  by (auto simp: config_validate_def Let_def split_beta)

lemma config_validate_frame: "\<exists>ms. snd (config_validate c) = c\<lparr>c_keyboard_macros := ms\<rparr>"
  by (auto simp: config_validate_def Let_def split_beta)

text \<open>
  A refused update stays in memory. When validation refuses an update, the call reports the
  error and nothing is saved, but the refused values stay in the configuration that every reader
  sees; from then on every update that does not repair them is refused as well, whatever it sets.
\<close>

theorem refused_update_sticks:
  assumes "fst (config_validate (f (cm_config s))) = Inl errs"
    and "\<And>c. c_keyboard_macros (g c) = c_keyboard_macros c \<and> c_display_max_brightness (g c) = c_display_max_brightness c
           \<and> c_local_auth_mode (g c) = c_local_auth_mode c"
  shows "case manager_update cd io f s of (r, s1) \<Rightarrow>
     r = Inl (ConfigInvalid errs) \<and> cm_disk s1 = cm_disk s
   \<and> (\<exists>ms. cm_config s1 = (f (cm_config s))\<lparr>c_keyboard_macros := ms\<rparr>)
   \<and> (\<exists>errs2. fst (manager_update cd io2 g s1) = Inl (ConfigInvalid errs2) \<and> cm_disk (snd (manager_update cd io2 g s1)) = cm_disk s)"
proof -
  let ?c1 = "snd (config_validate (f (cm_config s)))"
  have u: "manager_update cd io f s = (Inl (ConfigInvalid errs), s\<lparr>cm_config := ?c1\<rparr>)"
    using assms(1) by (simp add: manager_update_def split_beta)
  obtain ms where ms: "?c1 = (f (cm_config s))\<lparr>c_keyboard_macros := ms\<rparr>" using config_validate_frame by blast
  have "\<not> is_ok (fst (config_validate (g ?c1)))"
    using config_validate_again [of "g ?c1" "f (cm_config s)"] assms ms by simp
  then obtain errs2 c2 where "config_validate (g ?c1) = (Inl errs2, c2)"
    by (metis is_ok.simps(2) old.sum.exhaust prod.collapse)
  then have "manager_update cd io2 g (s\<lparr>cm_config := ?c1\<rparr>) = (Inl (ConfigInvalid errs2), s\<lparr>cm_config := c2\<rparr>)"
    by (simp add: manager_update_def)
  with u ms show ?thesis by auto
qed

section \<open>Lists\<close>

definition media_ok :: "virtual_media_item list option \<Rightarrow> bool" where
  "media_ok l = (case l of None \<Rightarrow> True | Some its \<Rightarrow>
     distinct (map vi_name its) \<and> distinct (map vi_url its) \<and> (\<forall>it \<in> set its. vi_name it \<noteq> [] \<and> vi_url it \<noteq> []))"

lemma update_media:
  assumes "\<And>c. c_virtual_media_list (f c) = l c"
  shows "c_virtual_media_list (cm_config (snd (manager_update cd io f s))) = l (cm_config s)"
proof -
  obtain ms where "snd (config_validate (f (cm_config s))) = (f (cm_config s))\<lparr>c_keyboard_macros := ms\<rparr>"
    using config_validate_frame by blast
  with assms show ?thesis
    by (cases "config_validate (f (cm_config s))")
       (auto simp: manager_update_def manager_save_def split_beta split: sum.splits)
qed

lemma check_media_item_ok: "check_virtual_media_item url_ok it = Inr u \<Longrightarrow> vi_name it \<noteq> [] \<and> vi_url it \<noteq> []"
  by (auto simp: check_virtual_media_item_def split: if_splits)

lemma check_media_list_ok:
  "check_media_list url_ok ns us its = Inr u \<Longrightarrow>
     distinct (map vi_name its) \<and> distinct (map vi_url its) \<and> set (map vi_name its) \<inter> set ns = {}
     \<and> set (map vi_url its) \<inter> set us = {} \<and> (\<forall>it \<in> set its. vi_name it \<noteq> [] \<and> vi_url it \<noteq> [])"
proof (induction its arbitrary: ns us)
  case (Cons it its)
  then have c: "check_virtual_media_item url_ok it = Inr ()" "vi_name it \<notin> set ns" "vi_url it \<notin> set us"
    "check_media_list url_ok (vi_name it # ns) (vi_url it # us) its = Inr u"
    by (auto split: if_splits elim!: bind_res.elims)
  from Cons.IH [OF c(4)] c check_media_item_ok [OF c(1)] show ?case by auto
qed simp

text \<open>
  Virtual media are told apart by name and by address. Whatever the items and in whatever order
  they are added, removed or replaced, and whether or not the file could be written, no two items of
  the list have the same name or the same URL, and none has an empty one.
\<close>

theorem virtual_media_distinct:
  assumes "media_ok (c_virtual_media_list (cm_config s))"
  shows "media_ok (c_virtual_media_list (cm_config (snd (add_virtual_media_item cd io url_ok it s))))
    \<and> media_ok (c_virtual_media_list (cm_config (snd (remove_virtual_media_item cd io name s))))
    \<and> media_ok (c_virtual_media_list (cm_config (snd (update_virtual_media_list cd io url_ok list s))))"
proof -
  have "media_ok (c_virtual_media_list (cm_config (snd (add_virtual_media_item cd io url_ok it s))))"
    using assms check_media_item_ok [of url_ok it]
      update_media [of "\<lambda>c. c\<lparr>c_virtual_media_list := Some [it]\<rparr>" "\<lambda>c. Some [it]" cd io s]
      update_media [of "\<lambda>c. c\<lparr>c_virtual_media_list := Some (l @ [it])\<rparr>" "\<lambda>c. Some (l @ [it])" cd io s for l]
    by (auto simp: add_virtual_media_item_def media_ok_def find_None_iff split: sum.splits option.splits)
  moreover have "media_ok (c_virtual_media_list (cm_config (snd (remove_virtual_media_item cd io name s))))"
    using assms update_media [of "\<lambda>c. c\<lparr>c_virtual_media_list := map_option (filter (\<lambda>it. vi_name it \<noteq> name)) (c_virtual_media_list c)\<rparr>"
        "\<lambda>c. map_option (filter (\<lambda>it. vi_name it \<noteq> name)) (c_virtual_media_list c)" cd io s]
    by (auto simp: remove_virtual_media_item_def media_ok_def distinct_map inj_on_def split: option.splits)
  moreover have "media_ok (c_virtual_media_list (cm_config (snd (update_virtual_media_list cd io url_ok list s))))"
    using assms check_media_list_ok [of url_ok "[]" "[]"]
      update_media [of "\<lambda>c. c\<lparr>c_virtual_media_list := list\<rparr>" "\<lambda>c. list" cd io s]
    by (auto simp: update_virtual_media_list_def media_ok_def split: sum.splits option.splits)
  ultimately show ?thesis by blast
qed

section \<open>Concrete instances\<close>

definition demo_config :: "unit config" where
  "demo_config = (config_default ''dev1'' ())\<lparr>c_local_auth_mode := ''password'', c_hashed_password := Some ''h''\<rparr>"

definition demo_codec :: "unit codec" where
  "demo_codec = \<lparr>cd_to_json = (\<lambda>c. Inr ''{cfg}''), cd_from_json = (\<lambda>j. if j = ''{cfg}'' then Inr demo_config else Inl ''bad''),
     cd_encrypt = (\<lambda>k n p. Inr (rev p)), cd_decrypt = (\<lambda>k n p. Inr (rev p)), cd_sha256 = (\<lambda>b. replicate 32 7),
     cd_hex = (\<lambda>b. ''00''), cd_device_id = ''dev1'', cd_rest = ()\<rparr>"

definition demo_io :: io_env where
  "demo_io = \<lparr>io_mkdir = None, io_copy = Written, io_nonce = replicate 12 1, io_write = Written, io_rename = None,
     io_read_primary = None, io_read_backup = None, io_restore = Written\<rparr>"

definition empty_disk :: disk where
  "empty_disk = \<lparr>dk_primary = None, dk_backup = None, dk_tmp = None\<rparr>"

lemmas demo_defs = demo_config_def demo_codec_def demo_io_def empty_disk_def config_default_def

lemma demo_valid: "config_validate demo_config = (Inr (), demo_config)"
  by (simp add: demo_config_def config_default_def config_validate_def MAX_MACROS_PER_DEVICE_def)

lemma demo_save: "\<exists>d'. persistence_save demo_codec demo_io demo_config empty_disk = (Inr (), d')"
  by (simp add: persistence_save_def config_encode_def demo_codec_def demo_io_def empty_disk_def after_write_def Let_def)

theorem save_load_roundtrip_witness:
  "fst (persistence_load demo_codec demo_io (snd (persistence_save demo_codec demo_io demo_config empty_disk)))
     = Inr demo_config"
proof -
  obtain d' where d: "persistence_save demo_codec demo_io demo_config empty_disk = (Inr (), d')" using demo_save by blast
  have "persistence_load demo_codec demo_io d' = (Inr demo_config, d')"
    by (rule save_load_roundtrip [OF d, where json = "''{cfg}''"])
       (simp_all add: demo_codec_def demo_io_def demo_valid, code_simp, simp add: merged_def demo_config_def config_default_def)
  with d show ?thesis by simp
qed

theorem save_all_or_nothing_witness:
  "fst (persistence_load demo_codec demo_io
     (snd (persistence_save demo_codec (demo_io\<lparr>io_write := NotWritten ''full'' (Some [1])\<rparr>)
       (demo_config\<lparr>c_mcp_enabled := True\<rparr>) (empty_disk\<lparr>dk_primary := Some []\<rparr>))))
     = Inr (config_default ''dev1'' ())"
proof -
  let ?io = "demo_io\<lparr>io_write := NotWritten ''full'' (Some [1])\<rparr>" and ?d = "empty_disk\<lparr>dk_primary := Some []\<rparr>"
  obtain r d' where s: "persistence_save demo_codec ?io (demo_config\<lparr>c_mcp_enabled := True\<rparr>) ?d = (r, d')"
    by (rule prod.exhaust)
  have "\<not> is_ok r" using s
    by (auto simp: persistence_save_def config_encode_def demo_codec_def demo_io_def empty_disk_def Let_def)
  moreover have l: "load_from_file demo_codec (io_read_primary demo_io) [] = Inr (config_default ''dev1'' ())"
    by (simp add: load_from_file_def demo_io_def demo_codec_def)
  moreover have "fst (persistence_load demo_codec demo_io ?d) = Inr (config_default ''dev1'' ())"
    using l by (simp add: persistence_load_def)
  ultimately show ?thesis using save_all_or_nothing [OF s, of demo_io] s by simp
qed

theorem failed_save_eats_backup_witness:
  "\<exists>d. fst (persistence_load demo_codec demo_io d) = Inr demo_config
     \<and> fst (persistence_load demo_codec demo_io
         (snd (persistence_save demo_codec (demo_io\<lparr>io_write := NotWritten ''full'' None\<rparr>) demo_config d)))
       = Inr (config_default ''dev1'' ())"
proof -
  let ?e = "\<lambda>b. config_encode demo_codec (replicate 12 1) b"
  obtain b where b: "?e ''{cfg}'' = Inr b" by (simp add: config_encode_def demo_codec_def)
  have "config_decode demo_codec b = Inr ''{cfg}'' \<and> b \<noteq> []"
    by (rule config_codec_roundtrip [OF _ _ _ _ _ b]) (simp_all add: demo_codec_def NONCE_LEN_def, code_simp)
  then have good: "load_from_file demo_codec None b = Inr demo_config"
    by (intro load_encoded [of _ _ "''{cfg}''"])
       (simp_all add: demo_codec_def demo_valid, simp add: merged_def demo_config_def config_default_def)
  have bad: "load_from_file demo_codec None [5] = Inl ''config decode: payload too short''"
    by (simp add: load_from_file_def config_decode_def NONCE_LEN_def)
  let ?d = "\<lparr>dk_primary = Some [5], dk_backup = Some b, dk_tmp = None\<rparr>" and ?io = "demo_io\<lparr>io_write := NotWritten ''full'' None\<rparr>"
  have "\<exists>d'. persistence_save demo_codec ?io demo_config ?d = (Inl (ConfigIo ''full''), d')"
    by (simp add: persistence_save_def config_encode_def demo_codec_def demo_io_def Let_def)
  then obtain d' where s: "persistence_save demo_codec ?io demo_config ?d = (Inl (ConfigIo ''full''), d')" by blast
  have "cd_device_id demo_codec = ''dev1''" "cd_rest demo_codec = ()" by (simp_all add: demo_codec_def)
  then show ?thesis
    using failed_save_eats_backup [of ?d "[5]" demo_codec demo_io _ b demo_config ?io demo_config] good bad s
    by (intro exI [of _ ?d]) (simp add: demo_io_def)
qed

theorem empty_file_resets_witness:
  "fst (persistence_load demo_codec demo_io \<lparr>dk_primary = Some [], dk_backup = Some [1, 2, 3], dk_tmp = None\<rparr>)
     = Inr (config_default ''dev1'' ())"
  using empty_file_resets [of "\<lparr>dk_primary = Some [], dk_backup = Some [1, 2, 3], dk_tmp = None\<rparr>" demo_io demo_codec]
  by (simp add: demo_io_def demo_codec_def)

theorem refused_update_sticks_witness:
  "let s = \<lparr>cm_config = demo_config, cm_disk = empty_disk\<rparr>;
       s1 = snd (set_display_config demo_codec demo_io None (Some 300) None None s)
   in c_display_max_brightness (cm_config s1) = 300
    \<and> \<not> is_ok (fst (manager_update demo_codec demo_io (\<lambda>c. c\<lparr>c_mcp_enabled := True\<rparr>) s1))"
proof -
  let ?s = "\<lparr>cm_config = demo_config, cm_disk = empty_disk\<rparr>"
  let ?f = "\<lambda>c. c\<lparr>c_display_rotation := c_display_rotation c, c_display_max_brightness := 300,
       c_display_dim_after_sec := c_display_dim_after_sec c, c_display_off_after_sec := c_display_off_after_sec c\<rparr>"
  have e: "fst (config_validate (?f (cm_config ?s))) = Inl [''Display max brightness cannot exceed 255'']"
    by (simp add: config_validate_def demo_config_def config_default_def MAX_MACROS_PER_DEVICE_def)
  have m: "set_display_config demo_codec demo_io None (Some 300) None None ?s = manager_update demo_codec demo_io ?f ?s"
    by (simp add: set_display_config_def)
  show ?thesis
    using refused_update_sticks [of ?f ?s "[''Display max brightness cannot exceed 255'']"
        "\<lambda>c. c\<lparr>c_mcp_enabled := True\<rparr>" demo_codec demo_io demo_io, OF e]
    by (auto simp: m Let_def split_beta)
qed

theorem virtual_media_distinct_witness:
  "media_ok (c_virtual_media_list (cm_config (snd (add_virtual_media_item demo_codec demo_io (\<lambda>u. None)
     \<lparr>vi_name = ''iso'', vi_url = ''http://a/b'', vi_icon_key = []\<rparr> \<lparr>cm_config = demo_config, cm_disk = empty_disk\<rparr>))))"
  using virtual_media_distinct [of "\<lparr>cm_config = demo_config, cm_disk = empty_disk\<rparr>"]
  by (simp add: media_ok_def demo_config_def config_default_def)

end
