(* ===== verification/Usb_Config.thy ===== *)
theory Usb_Config
  imports Kvm_Prelude
begin

text \<open>
  The static side of the USB sidecar: \<^verbatim>\<open>crates/usb_devices/src/config.rs\<close>, \<^verbatim>\<open>events.rs\<close>,
  \<^verbatim>\<open>error.rs\<close> and \<^verbatim>\<open>devices/mod.rs\<close> (the endpoint budget, the gadget that is built from the
  switches, and the look-up of function nodes in configfs). The \<^verbatim>\<open>usb_gadget\<close> crate is not part
  of the sources: a gadget is the description handed to it.
\<close>

section \<open>Constants\<close>

definition GADGET_NAME :: string where "GADGET_NAME = ''arkkvm''"

definition GADGET_CONFIG_NAME :: string where "GADGET_CONFIG_NAME = ''c.1''"

definition GADGET_MAX_POWER_MA :: u16 where "GADGET_MAX_POWER_MA = 500"

definition MAX_FUNCTION_IN_EPS :: u8 where "MAX_FUNCTION_IN_EPS = 6"

definition MAX_FUNCTION_OUT_EPS :: u8 where "MAX_FUNCTION_OUT_EPS = 5"

definition USB_MAX_STRING_LEN :: nat where "USB_MAX_STRING_LEN = 126"

definition UMS_VM_INQUIRY_STRING :: string where "UMS_VM_INQUIRY_STRING = ''ArkKVM Virtual Media''"

definition UMS_FT_INQUIRY_STRING :: string where "UMS_FT_INQUIRY_STRING = ''ArkKVM Virtual USB Drive''"

definition UAC1_INSTANCE :: string where "UAC1_INSTANCE = ''ArkKVM Microphone''"

definition UVC_INSTANCE :: string where "UVC_INSTANCE = ''gs6''"

definition HID_KB_INSTANCE :: string where "HID_KB_INSTANCE = ''usb0''"

definition HID_ABS_INSTANCE :: string where "HID_ABS_INSTANCE = ''usb1''"

definition HID_REL_INSTANCE :: string where "HID_REL_INSTANCE = ''usb2''"

text \<open>What identifies a HID function: protocol, subclass and report length.\<close>

record hid_id =
  hid_protocol :: nat
  hid_subclass :: nat
  hid_report_length :: nat

definition HID_KB :: hid_id where
  "HID_KB = \<lparr>hid_protocol = 1, hid_subclass = 1, hid_report_length = 8\<rparr>"

definition HID_ABS :: hid_id where
  "HID_ABS = \<lparr>hid_protocol = 2, hid_subclass = 0, hid_report_length = 6\<rparr>"

definition HID_REL :: hid_id where
  "HID_REL = \<lparr>hid_protocol = 2, hid_subclass = 0, hid_report_length = 5\<rparr>"

section \<open>Errors and events\<close>

datatype usb_error =
    InvalidArgument string
  | UDCError string
  | GadgetError string
  | ChangeRejected string
  | DeviceNotEnabled string
  | DeviceNotFound string
  | FileNotFound string
  | StrictModeViolation string
  | IoError string
  | EndpointBudgetExceeded string

fun usb_error_to_string :: "usb_error \<Rightarrow> string" where
  "usb_error_to_string (InvalidArgument s) = ''Invalid argument: '' @ s"
| "usb_error_to_string (UDCError s) = ''UDC operation failed: '' @ s"
| "usb_error_to_string (GadgetError s) = ''Gadget operation failed: '' @ s"
| "usb_error_to_string (ChangeRejected s) = ''Change rejected by upper layer: '' @ s"
| "usb_error_to_string (DeviceNotEnabled s) = ''Device not enabled: '' @ s"
| "usb_error_to_string (DeviceNotFound s) = ''File not found: '' @ s"
| "usb_error_to_string (FileNotFound s) = ''File not found: '' @ s"
| "usb_error_to_string (StrictModeViolation s) = ''Strict mode violation: '' @ s"
| "usb_error_to_string (IoError s) = ''IO Error: '' @ s"
| "usb_error_to_string (EndpointBudgetExceeded s) = ''USB endpoint budget exceeded: '' @ s"

datatype change_request = RequestChange | PrepareChange | ChangeCompleted | ChangeCanceled

datatype change_response = Proceed | Reject string

datatype udc_state = NotAttached | Attached | Powered | UdcDefault | Address | Configured | Suspended

datatype lifecycle_event = UdcStateChanged udc_state | Warning string

fun udc_state_to_sysfs :: "udc_state \<Rightarrow> string" where
  "udc_state_to_sysfs NotAttached = ''not attached''"
| "udc_state_to_sysfs Attached = ''attached''"
| "udc_state_to_sysfs Powered = ''powered''"
| "udc_state_to_sysfs UdcDefault = ''default''"
| "udc_state_to_sysfs Address = ''addressed''"
| "udc_state_to_sysfs Configured = ''configured''"
| "udc_state_to_sysfs Suspended = ''suspended''"

section \<open>Configuration\<close>

record usb_base_info =
  vendor_id :: u16
  product_id :: u16
  bcd_device :: u16
  bcd_usb :: u16
  serial_number :: string
  manufacturer :: string
  product :: string
  strict_mode :: bool
  force_full_speed :: bool

text \<open>\<open>DeviceSwitches\<close> of the wire protocol; the adapter type is the raw enum number.\<close>

record network_adapter_switch =
  nas_enable :: bool
  nas_adapter_type :: int

record device_switches =
  hid_kb_enabled :: bool
  hid_abs_enabled :: bool
  hid_rel_enabled :: bool
  ums_vm_enabled :: bool
  ums_ft_enabled :: bool
  uac1_enabled :: bool
  uvc_enabled :: bool
  network_adapter :: "network_adapter_switch option"

definition switches_default :: device_switches where
  "switches_default = \<lparr>hid_kb_enabled = False, hid_abs_enabled = False, hid_rel_enabled = False,
     ums_vm_enabled = False, ums_ft_enabled = False, uac1_enabled = False, uvc_enabled = False,
     network_adapter = None\<rparr>"

definition network_adapter_enabled :: "device_switches \<Rightarrow> bool" where
  "network_adapter_enabled sw = (case network_adapter sw of None \<Rightarrow> False | Some n \<Rightarrow> nas_enable n)"

definition has_any_enabled :: "device_switches \<Rightarrow> bool" where
  "has_any_enabled sw =
     (hid_kb_enabled sw \<or> hid_abs_enabled sw \<or> hid_rel_enabled sw \<or> ums_vm_enabled sw
      \<or> ums_ft_enabled sw \<or> uac1_enabled sw \<or> uvc_enabled sw \<or> network_adapter_enabled sw)"

datatype net_class = NcmClass | RndisClass

definition adapter_type_from_i32 :: "int \<Rightarrow> net_class" where
  "adapter_type_from_i32 v = (if v = 1 then RndisClass else NcmClass)"

section \<open>Endpoint budget\<close>

definition add_eps :: "bool \<Rightarrow> u8 \<times> u8 \<Rightarrow> u8 \<times> u8 \<Rightarrow> u8 \<times> u8" where
  "add_eps on e acc = (if on then (sat_add_u8 (fst acc) (fst e), sat_add_u8 (snd acc) (snd e)) else acc)"

fun net_endpoints :: "net_class \<Rightarrow> u8 \<times> u8" where
  "net_endpoints RndisClass = (2, 1)"
| "net_endpoints NcmClass = (2, 1)"

definition endpoint_usage :: "device_switches \<Rightarrow> u8 \<times> u8" where
  "endpoint_usage sw =
     (let a1 = add_eps (hid_kb_enabled sw) (1, 1) (0, 0);
          a2 = add_eps (hid_abs_enabled sw) (1, 0) a1;
          a3 = add_eps (hid_rel_enabled sw) (1, 0) a2;
          a4 = add_eps (ums_vm_enabled sw) (1, 1) a3;
          a5 = add_eps (ums_ft_enabled sw) (1, 1) a4;
          a6 = add_eps (uac1_enabled sw) (1, 0) a5;
          a7 = add_eps (uvc_enabled sw) (2, 0) a6
      in case network_adapter sw of
           None \<Rightarrow> a7
         | Some na \<Rightarrow> add_eps (nas_enable na) (net_endpoints (adapter_type_from_i32 (nas_adapter_type na))) a7)"

definition u8_str :: "u8 \<Rightarrow> string" where
  "u8_str b = nat_to_dec (unat b)"

definition check_endpoint_budget :: "device_switches \<Rightarrow> (usb_error, unit) result" where
  "check_endpoint_budget sw =
     (case endpoint_usage sw of (inn, out) \<Rightarrow>
        if inn > MAX_FUNCTION_IN_EPS \<or> out > MAX_FUNCTION_OUT_EPS
        then Inl (EndpointBudgetExceeded (''in='' @ u8_str inn @ ''/'' @ u8_str MAX_FUNCTION_IN_EPS
               @ '' out='' @ u8_str out @ ''/'' @ u8_str MAX_FUNCTION_OUT_EPS))
        else Inr ())"

section \<open>The gadget\<close>

datatype ums_mode = CdRom | Disk

record lun =
  lun_cdrom :: bool
  lun_read_only :: bool
  lun_removable :: bool
  lun_inquiry_string :: string

record uac1_channel =
  ch_mask :: nat
  ch_rate :: nat
  ch_size :: nat

datatype gadget_fn =
    FnNet net_class
  | FnHid hid_id bool
  | FnMsd "lun list"
  | FnUac1 string uac1_channel uac1_channel
  | FnUvc string "(nat \<times> nat \<times> string \<times> nat list) list"

datatype speed = FullSpeed | HighSpeed

record gadget =
  g_name :: string
  g_id :: "u16 \<times> u16"
  g_strings :: "string \<times> string \<times> string"
  g_device_release :: u16
  g_max_speed :: speed
  g_config_name :: string
  g_max_power :: u16
  g_functions :: "gadget_fn list"
  g_os_vendor_code :: u8
  g_os_qw_sign :: string

definition validate_strings :: "string \<times> string \<times> string \<Rightarrow> (usb_error, unit) result" where
  "validate_strings s =
     (case s of (m, p, n) \<Rightarrow>
        if length m > USB_MAX_STRING_LEN \<or> length p > USB_MAX_STRING_LEN \<or> length n > USB_MAX_STRING_LEN
        then Inl (InvalidArgument (''length of manufacturer, product or serial_number must not exceed ''
               @ nat_to_dec USB_MAX_STRING_LEN @ '' characters''))
        else Inr ())"

definition vm_lun :: "ums_mode \<Rightarrow> lun" where
  "vm_lun m = \<lparr>lun_cdrom = (m = CdRom), lun_read_only = True, lun_removable = True,
     lun_inquiry_string = UMS_VM_INQUIRY_STRING\<rparr>"

definition ft_lun :: lun where
  "ft_lun = \<lparr>lun_cdrom = False, lun_read_only = False, lun_removable = True,
     lun_inquiry_string = UMS_FT_INQUIRY_STRING\<rparr>"

definition uac_channel :: "nat \<Rightarrow> uac1_channel" where
  "uac_channel cm = \<lparr>ch_mask = cm, ch_rate = 48000, ch_size = 2\<rparr>"

definition uvc_intervals :: "nat list" where
  "uvc_intervals = [333333, 666666, 1000000, 2000000]"

definition gadget_functions :: "device_switches \<Rightarrow> ums_mode \<Rightarrow> gadget_fn list" where
  "gadget_functions sw vm_mode =
     (case network_adapter sw of
        None \<Rightarrow> []
      | Some na \<Rightarrow> if nas_enable na then [FnNet (adapter_type_from_i32 (nas_adapter_type na))] else [])
     @ (if hid_kb_enabled sw then [FnHid HID_KB False] else [])
     @ (if hid_abs_enabled sw then [FnHid HID_ABS True] else [])
     @ (if hid_rel_enabled sw then [FnHid HID_REL True] else [])
     @ (if ums_vm_enabled sw then [FnMsd [vm_lun vm_mode]] else [])
     @ (if ums_ft_enabled sw then [FnMsd [ft_lun]] else [])
     @ (if uac1_enabled sw then [FnUac1 UAC1_INSTANCE (uac_channel 0) (uac_channel 3)] else [])
     @ (if uvc_enabled sw
        then [FnUvc UVC_INSTANCE [(640, 480, ''yuyv'', uvc_intervals), (640, 480, ''mjpeg'', uvc_intervals)]]
        else [])"

definition build_gadget ::
  "usb_base_info \<Rightarrow> device_switches \<Rightarrow> ums_mode \<Rightarrow> (usb_error, gadget \<times> net_class option) result" where
  "build_gadget info sw vm_mode =
     (let strings = (manufacturer info, product info, serial_number info)
      in bind_res (validate_strings strings) (\<lambda>_.
           Inr (\<lparr>g_name = GADGET_NAME, g_id = (vendor_id info, product_id info), g_strings = strings,
                 g_device_release = bcd_device info,
                 g_max_speed = (if force_full_speed info then FullSpeed else HighSpeed),
                 g_config_name = GADGET_CONFIG_NAME, g_max_power = GADGET_MAX_POWER_MA,
                 g_functions = gadget_functions sw vm_mode,
                 g_os_vendor_code = 1, g_os_qw_sign = ''MSFT100''\<rparr>,
                (case network_adapter sw of
                   None \<Rightarrow> None
                 | Some na \<Rightarrow> if nas_enable na then Some (adapter_type_from_i32 (nas_adapter_type na)) else None))))"


section \<open>Function nodes in configfs\<close>

text \<open>
  A directory under the gadget's \<open>functions\<close>: its name and what reading the attribute files
  gives (\<open>Inl\<close>: the text of the I/O error). \<open>fe_inquiry\<close> is \<open>None\<close> when
  \<open>lun.0/inquiry_string\<close> does not exist. The directory listing itself may be missing, fail, or
  fail in the middle.
\<close>

record func_entry =
  fe_name :: string
  fe_protocol :: "(string, string) result"
  fe_subclass :: "(string, string) result"
  fe_report_length :: "(string, string) result"
  fe_dev :: "(string, string) result"
  fe_inquiry :: "(string, string) result option"

type_synonym functions_dir = "(string, (string, func_entry) result list) result option"

definition FUNCTIONS_DIR :: string where
  "FUNCTIONS_DIR = ''/sys/kernel/config/usb_gadget/'' @ GADGET_NAME @ ''/functions''"

definition func_path :: "func_entry \<Rightarrow> string \<Rightarrow> string" where
  "func_path fe p = FUNCTIONS_DIR @ ''/'' @ fe_name fe @ ''/'' @ p"

fun scan_mass_storage :: "string \<Rightarrow> (string, func_entry) result list \<Rightarrow> (usb_error, string) result" where
  "scan_mass_storage inq [] =
     Inl (DeviceNotFound (''mass_storage lun with inquiry_string '' @ debug_str inq @ '' not found''))"
| "scan_mass_storage inq (Inl e # es) = Inl (IoError (''failed to read dir entry: '' @ e))"
| "scan_mass_storage inq (Inr fe # es) =
     (if \<not> starts_with (fe_name fe) ''mass_storage.'' then scan_mass_storage inq es
      else case fe_inquiry fe of
        None \<Rightarrow> scan_mass_storage inq es
      | Some (Inl e) \<Rightarrow> Inl (IoError (''failed to read '' @ func_path fe ''lun.0/inquiry_string'' @ '': '' @ e))
      | Some (Inr actual) \<Rightarrow>
          if trim actual \<noteq> inq then scan_mass_storage inq es
          else Inr (func_path fe ''lun.0/file''))"

definition with_functions ::
  "functions_dir \<Rightarrow> ((string, func_entry) result list \<Rightarrow> (usb_error, 'a) result) \<Rightarrow> (usb_error, 'a) result" where
  "with_functions dir f =
     (case dir of
        None \<Rightarrow> Inl (DeviceNotFound (''gadget functions dir not found: '' @ FUNCTIONS_DIR))
      | Some (Inl e) \<Rightarrow> Inl (IoError (''failed to read '' @ FUNCTIONS_DIR @ '': '' @ e))
      | Some (Inr es) \<Rightarrow> f es)"

definition resolve_mass_storage_file :: "functions_dir \<Rightarrow> string \<Rightarrow> (usb_error, string) result" where
  "resolve_mass_storage_file dir inq = with_functions dir (scan_mass_storage inq)"

definition read_sysfs_u8 :: "string \<Rightarrow> (string, string) result \<Rightarrow> (usb_error, nat) result" where
  "read_sysfs_u8 path content =
     (case content of
        Inl e \<Rightarrow> Inl (IoError (''failed to read '' @ path @ '': '' @ e))
      | Inr raw \<Rightarrow>
          (case parse_u8 (trim raw) of
             None \<Rightarrow> Inl (InvalidArgument (''invalid u8 at '' @ path @ '': '' @ debug_str raw))
           | Some n \<Rightarrow> Inr n))"

definition read_sysfs_u16 :: "string \<Rightarrow> (string, string) result \<Rightarrow> (usb_error, nat) result" where
  "read_sysfs_u16 path content =
     (case content of
        Inl e \<Rightarrow> Inl (IoError (''failed to read '' @ path @ '': '' @ e))
      | Inr raw \<Rightarrow>
          (case parse_u16 (trim raw) of
             None \<Rightarrow> Inl (InvalidArgument (''invalid u16 at '' @ path @ '': '' @ debug_str raw))
           | Some n \<Rightarrow> Inr n))"

definition hid_dev_node :: "func_entry \<Rightarrow> (usb_error, string) result" where
  "hid_dev_node fe =
     (case fe_dev fe of
        Inl e \<Rightarrow> Inl (IoError (''failed to read hid dev: '' @ e))
      | Inr raw \<Rightarrow>
          let dev = trim raw in
          if dev = [] then Inl (DeviceNotFound (''hid function '' @ FUNCTIONS_DIR @ ''/'' @ fe_name fe
                 @ '' has empty dev (not bound?)''))
          else case split_on CHR '':'' dev of
                 _ # minor # _ \<Rightarrow>
                   (case parse_u32 minor of
                      None \<Rightarrow> Inl (InvalidArgument (''invalid hid dev minor: '' @ debug_str dev))
                    | Some n \<Rightarrow> Inr (''/dev/hidg'' @ nat_to_dec n))
               | _ \<Rightarrow> Inl (InvalidArgument (''invalid hid dev format: '' @ debug_str dev)))"

fun scan_hid :: "hid_id \<Rightarrow> (string, func_entry) result list \<Rightarrow> (usb_error, string) result" where
  "scan_hid h [] =
     Inl (DeviceNotFound (''hid function with protocol='' @ nat_to_dec (hid_protocol h)
        @ '', subclass='' @ nat_to_dec (hid_subclass h) @ '', report_length=''
        @ nat_to_dec (hid_report_length h) @ '' not found''))"
| "scan_hid h (Inl e # es) = Inl (IoError (''failed to read dir entry: '' @ e))"
| "scan_hid h (Inr fe # es) =
     (if \<not> starts_with (fe_name fe) ''hid.'' then scan_hid h es
      else bind_res (read_sysfs_u8 (func_path fe ''protocol'') (fe_protocol fe)) (\<lambda>p.
           bind_res (read_sysfs_u8 (func_path fe ''subclass'') (fe_subclass fe)) (\<lambda>c.
           bind_res (read_sysfs_u16 (func_path fe ''report_length'') (fe_report_length fe)) (\<lambda>l.
             if p \<noteq> hid_protocol h \<or> c \<noteq> hid_subclass h \<or> l \<noteq> hid_report_length h then scan_hid h es
             else hid_dev_node fe))))"

definition resolve_hid_device_path :: "functions_dir \<Rightarrow> hid_id \<Rightarrow> (usb_error, string) result" where
  "resolve_hid_device_path dir h = with_functions dir (scan_hid h)"

section \<open>Lemmas and properties\<close>

text \<open>
  The endpoints a function of the gadget needs. This is what the function drivers of the kernel claim,
  which are not code of the repository; the numbers depend on the description of the function: an interrupt-in
  endpoint for a HID function and an interrupt-out one unless it is suppressed; a bulk pair for
  mass storage; an isochronous endpoint per direction of a UAC1 function with channels; a
  streaming and a status endpoint for UVC; a bulk pair and a notify endpoint for a network
  function.
\<close>

fun fn_endpoints :: "gadget_fn \<Rightarrow> nat \<times> nat" where
  "fn_endpoints (FnNet c) = (2, 1)"
| "fn_endpoints (FnHid h no_out) = (1, if no_out then 0 else 1)"
| "fn_endpoints (FnMsd ls) = (1, 1)"
| "fn_endpoints (FnUac1 n capture playback) =
     ((if ch_mask playback \<noteq> 0 then 1 else 0), (if ch_mask capture \<noteq> 0 then 1 else 0))"
| "fn_endpoints (FnUvc n fs) = (2, 0)"

definition total_endpoints :: "gadget_fn list \<Rightarrow> nat \<times> nat" where
  "total_endpoints fs = (sum_list (map (fst \<circ> fn_endpoints) fs), sum_list (map (snd \<circ> fn_endpoints) fs))"

lemma sat_add_u8_small: "unat a + unat b < 256 \<Longrightarrow> unat (sat_add_u8 a b) = unat a + unat b"
  by (simp add: unat_sat_add_u8)

lemma word_gr_budget: "(6 :: u8) < a \<longleftrightarrow> 6 < unat a" "(5 :: u8) < a \<longleftrightarrow> 5 < unat a"
  by (simp_all add: word_less_nat_alt)

definition eps_are :: "u8 \<times> u8 \<Rightarrow> nat \<times> nat \<Rightarrow> nat \<Rightarrow> bool" where
  "eps_are acc n k = (unat (fst acc) = fst n \<and> unat (snd acc) = snd n \<and> fst n \<le> k \<and> snd n \<le> k)"

lemma eps_are_add:
  assumes "eps_are acc n k" "unat (fst e) \<le> 2" "unat (snd e) \<le> 2" "k < 250"
  shows "eps_are (add_eps on e acc)
    (fst n + (if on then unat (fst e) else 0), snd n + (if on then unat (snd e) else 0)) (k + 2)"
  using assms by (auto simp: eps_are_def add_eps_def sat_add_u8_small)

lemma total_endpoints_append:
  "total_endpoints (xs @ ys) = (fst (total_endpoints xs) + fst (total_endpoints ys),
     snd (total_endpoints xs) + snd (total_endpoints ys))"
  by (simp add: total_endpoints_def)

lemma total_endpoints_if:
  "fst (total_endpoints (if b then [f] else [])) = (if b then fst (fn_endpoints f) else 0)"
  "snd (total_endpoints (if b then [f] else [])) = (if b then snd (fn_endpoints f) else 0)"
  by (simp_all add: total_endpoints_def)

lemma net_endpoints_simp: "net_endpoints c = (2, 1)"
  by (cases c) auto

lemma endpoint_usage_total:
  "unat (fst (endpoint_usage sw)) = fst (total_endpoints (gadget_functions sw m))
   \<and> unat (snd (endpoint_usage sw)) = snd (total_endpoints (gadget_functions sw m))"
proof -
  have 0: "eps_are (0, 0) (0, 0) 0" by (simp add: eps_are_def)
  note 1 = eps_are_add [OF 0, of "(1, 1)" "hid_kb_enabled sw", simplified]
  note 2 = eps_are_add [OF 1, of "(1, 0)" "hid_abs_enabled sw", simplified]
  note 3 = eps_are_add [OF 2, of "(1, 0)" "hid_rel_enabled sw", simplified]
  note 4 = eps_are_add [OF 3, of "(1, 1)" "ums_vm_enabled sw", simplified]
  note 5 = eps_are_add [OF 4, of "(1, 1)" "ums_ft_enabled sw", simplified]
  note 6 = eps_are_add [OF 5, of "(1, 0)" "uac1_enabled sw", simplified]
  note 7 = eps_are_add [OF 6, of "(2, 0)" "uvc_enabled sw", simplified]
  note 8 = eps_are_add [OF 7, of "(2, 1)" "nas_enable na" for na, simplified]
  show ?thesis
  proof (cases "network_adapter sw")
    case None
    with 7 show ?thesis
      by (simp add: eps_are_def endpoint_usage_def gadget_functions_def Let_def total_endpoints_append
          total_endpoints_if uac_channel_def total_endpoints_def [of "[]"] ac_simps cong: if_cong)
  next
    case (Some na)
    with 8 [of na] show ?thesis
      by (simp add: eps_are_def endpoint_usage_def gadget_functions_def Let_def total_endpoints_append
          total_endpoints_if uac_channel_def net_endpoints_simp ac_simps cong: if_cong)
  qed
qed

lemma budget_functions_iff:
  "(check_endpoint_budget sw = Inr ()) \<longleftrightarrow>
     fst (total_endpoints (gadget_functions sw m)) \<le> 6 \<and> snd (total_endpoints (gadget_functions sw m)) \<le> 5"
proof -
  obtain i k where ik: "endpoint_usage sw = (i, k)" by (cases "endpoint_usage sw")
  with endpoint_usage_total [of sw m]
  have "unat i = fst (total_endpoints (gadget_functions sw m))" "unat k = snd (total_endpoints (gadget_functions sw m))"
    by simp_all
  with ik show ?thesis
    by (auto simp: check_endpoint_budget_def MAX_FUNCTION_IN_EPS_def MAX_FUNCTION_OUT_EPS_def
        word_gr_budget)
qed

lemma build_gadget_functions:
  "build_gadget info sw m = Inr (g, net) \<Longrightarrow> g_functions g = gadget_functions sw m"
  by (cases "validate_strings (manufacturer info, product info, serial_number info)") (auto simp: build_gadget_def)

lemma budget_gadget_iff:
  assumes "build_gadget info sw m = Inr (g, net)"
  shows "(check_endpoint_budget sw = Inr ()) \<longleftrightarrow>
     fst (total_endpoints (g_functions g)) \<le> 6 \<and> snd (total_endpoints (g_functions g)) \<le> 5"
  by (simp add: build_gadget_functions [OF assms] budget_functions_iff [of sw m])



text \<open>
  The node configfs shows for a HID function with the given identity bound to a minor number:
  attribute files end with a line feed.
\<close>

definition hid_entry :: "string \<Rightarrow> hid_id \<Rightarrow> nat \<Rightarrow> nat \<Rightarrow> func_entry" where
  "hid_entry n h major minor =
     (let nl = [char_of (10 :: nat)] in
      \<lparr>fe_name = ''hid.'' @ n,
       fe_protocol = Inr (nat_to_dec (hid_protocol h) @ nl),
       fe_subclass = Inr (nat_to_dec (hid_subclass h) @ nl),
       fe_report_length = Inr (nat_to_dec (hid_report_length h) @ nl),
       fe_dev = Inr (nat_to_dec major @ '':'' @ nat_to_dec minor @ nl), fe_inquiry = None\<rparr>)"

lemma trim_nl:
  assumes "s \<noteq> []" "\<forall>c \<in> set s. \<not> is_ascii_space c"
  shows "trim (s @ [char_of (10 :: nat)]) = s"
proof -
  have nl: "is_ascii_space (char_of (10 :: nat))" by (simp add: is_ascii_space_def)
  have 1: "trim_start (s @ [char_of (10 :: nat)]) = s @ [char_of (10 :: nat)]"
    unfolding trim_start_def by (rule dropWhile_hd) (use assms in \<open>cases s; auto\<close>)
  have "hd (rev s) \<in> set s" using assms(1) by (simp add: hd_rev)
  then have 2: "trim_start (rev s) = rev s"
    unfolding trim_start_def by (intro dropWhile_hd) (use assms in auto)
  from 1 2 nl show ?thesis by (simp add: trim_def trim_start_def)
qed

lemma nat_to_dec_no_space: "\<forall>c \<in> set (nat_to_dec n). \<not> is_ascii_space c"
  using nat_to_dec_digits [of n] by (auto simp: list_all_iff is_digit_not_space)

lemma colon_not_digit: "is_digit c \<Longrightarrow> c \<noteq> CHR '':''"
  by (auto simp: is_digit_def)

lemma hid_dev_node_entry:
  assumes "minor < 4294967296"
  shows "hid_dev_node (hid_entry n h major minor) = Inr (''/dev/hidg'' @ nat_to_dec minor)"
proof -
  let ?d = "nat_to_dec major @ '':'' @ nat_to_dec minor"
  have t: "trim (?d @ [char_of (10 :: nat)]) = ?d"
    by (rule trim_nl) (use nat_to_dec_no_space in \<open>auto simp: is_ascii_space_def\<close>)
  have "CHR '':'' \<notin> set (nat_to_dec k)" for k
    using nat_to_dec_digits [of k] colon_not_digit by (auto simp: list_all_iff)
  then have "split_on CHR '':'' ?d = [nat_to_dec major, nat_to_dec minor]"
    using split_on_append [of "CHR '':''" "nat_to_dec major" "nat_to_dec minor"] by (simp add: split_on_no_sep)
  with t parse_radix_dec [OF assms] show ?thesis
    by (simp add: hid_dev_node_def hid_entry_def Let_def parse_u32_def)
qed

lemma scan_hid_entry:
  assumes "hid_protocol h' < 256" "hid_subclass h' < 256" "hid_report_length h' < 65536"
  shows "scan_hid h (Inr (hid_entry n h' major minor) # es) =
     (if h' = h then hid_dev_node (hid_entry n h' major minor) else scan_hid h es)"
proof -
  have t: "trim (nat_to_dec k @ [char_of (10 :: nat)]) = nat_to_dec k" for k
    by (rule trim_nl) (use nat_to_dec_no_space in auto)
  let ?fe = "hid_entry n h' major minor"
  have "read_sysfs_u8 p (fe_protocol ?fe) = Inr (hid_protocol h')"
    "read_sysfs_u8 p (fe_subclass ?fe) = Inr (hid_subclass h')"
    "read_sysfs_u16 p (fe_report_length ?fe) = Inr (hid_report_length h')"
    "starts_with (fe_name ?fe) ''hid.''" for p
    using assms t by (simp_all add: hid_entry_def starts_with_def read_sysfs_u8_def read_sysfs_u16_def
        parse_u8_def parse_u16_def parse_radix_dec Let_def)
  moreover have "h' = h \<longleftrightarrow> hid_protocol h' = hid_protocol h \<and> hid_subclass h' = hid_subclass h
      \<and> hid_report_length h' = hid_report_length h"
    by (cases h'; cases h) simp
  ultimately show ?thesis by simp
qed

lemma nat_to_dec_inj: "nat_to_dec a = nat_to_dec b \<Longrightarrow> a = b"
  by (metis dec_value_nat_to_dec)

lemma hid_entry_inj: "hid_entry n h major minor = hid_entry n' h' major' minor' \<Longrightarrow> h = h'"
proof -
  assume eq: "hid_entry n h major minor = hid_entry n' h' major' minor'"
  from arg_cong [OF eq, of fe_protocol] arg_cong [OF eq, of fe_subclass] arg_cong [OF eq, of fe_report_length]
  have "hid_protocol h = hid_protocol h'" "hid_subclass h = hid_subclass h'"
    "hid_report_length h = hid_report_length h'"
    by (simp_all add: hid_entry_def Let_def nat_to_dec_inj)
  then show ?thesis by simp
qed

text \<open>
  Each HID handle opens its own device. In any listing of the gadget's functions that reads
  without error and in which every HID node is that of the keyboard, of the absolute or of the
  relative mouse, each with its own minor number, resolving one of the three yields the device
  node of that function, wherever it stands in the listing and whatever the other functions are.
\<close>

theorem resolve_hid_own_device:
  assumes "Inr (hid_entry n h major (minor h)) \<in> set es" and "h \<in> {HID_KB, HID_ABS, HID_REL}"
    and "minor h < 4294967296"
    and "\<forall>x \<in> set es. \<exists>fe. x = Inr fe \<and> (starts_with (fe_name fe) ''hid.'' \<longrightarrow>
           (\<exists>n' h' major'. h' \<in> {HID_KB, HID_ABS, HID_REL} \<and> fe = hid_entry n' h' major' (minor h')))"
  shows "resolve_hid_device_path (Some (Inr es)) h = Inr (''/dev/hidg'' @ nat_to_dec (minor h))"
proof -
  have "scan_hid h es = Inr (''/dev/hidg'' @ nat_to_dec (minor h))"
    using assms(1,4)
  proof (induction es)
    case (Cons x es)
    from Cons.prems(2) obtain fe where fe: "x = Inr fe"
      "starts_with (fe_name fe) ''hid.'' \<longrightarrow>
         (\<exists>n' h' major'. h' \<in> {HID_KB, HID_ABS, HID_REL} \<and> fe = hid_entry n' h' major' (minor h'))" by auto
    show ?case
    proof (cases "starts_with (fe_name fe) ''hid.''")
      case True
      with fe obtain n' h' major' where h': "h' \<in> {HID_KB, HID_ABS, HID_REL}" "fe = hid_entry n' h' major' (minor h')"
        by blast
      then have "hid_protocol h' < 256" "hid_subclass h' < 256" "hid_report_length h' < 65536"
        by (auto simp: HID_KB_def HID_ABS_def HID_REL_def)
      note sc = scan_hid_entry [OF this, of h n' major' "minor h'" es]
      show ?thesis
      proof (cases "h' = h")
        case True
        with sc fe h'(2) hid_dev_node_entry [OF assms(3)] show ?thesis by simp
      next
        case False
        then have "hid_entry n h major (minor h) \<noteq> hid_entry n' h' major' (minor h')"
          using hid_entry_inj by metis
        with h'(2) fe(1) Cons.prems(1) have "Inr (hid_entry n h major (minor h)) \<in> set es" by auto
        with Cons sc False fe(1) h'(2) show ?thesis by simp
      qed
    next
      case False
      moreover have "starts_with (fe_name (hid_entry n h major (minor h))) ''hid.''"
        by (simp add: hid_entry_def starts_with_def Let_def)
      ultimately show ?thesis using fe Cons by auto
    qed
  qed simp
  then show ?thesis by (simp add: resolve_hid_device_path_def with_functions_def)
qed

definition demo_minor :: "hid_id \<Rightarrow> nat" where
  "demo_minor h = (if h = HID_KB then 0 else if h = HID_ABS then 1 else 2)"

theorem resolve_hid_own_device_witness:
  "resolve_hid_device_path (Some (Inr [Inr (hid_entry ''x'' HID_REL 236 (demo_minor HID_REL)),
     Inr (hid_entry ''y'' HID_KB 236 (demo_minor HID_KB))])) HID_KB = Inr ''/dev/hidg0''"
proof -
  let ?es = "[Inr (hid_entry ''x'' HID_REL 236 (demo_minor HID_REL)), Inr (hid_entry ''y'' HID_KB 236 (demo_minor HID_KB))]"
  have "\<forall>x \<in> set ?es. \<exists>fe. x = Inr fe \<and> (starts_with (fe_name fe) ''hid.'' \<longrightarrow>
      (\<exists>n' h' major'. h' \<in> {HID_KB, HID_ABS, HID_REL} \<and> fe = hid_entry n' h' major' (demo_minor h')))"
    unfolding list.set by blast
  moreover have "nat_to_dec (demo_minor HID_KB) = ''0''" by code_simp
  ultimately show ?thesis
    using resolve_hid_own_device [of "''y''" HID_KB 236 demo_minor ?es] by (simp add: demo_minor_def [of HID_KB])
qed


section \<open>The change-handler contract\<close>

text \<open>
  What the manager relies on of every subscriber of gadget changes (\<open>UsbChangeHandler\<close>): a
  change request is never turned down at its first stage; a handler that agreed to the second
  stage is in its updating state; both ends of a change bring it out of that state and cannot be
  refused. \<open>on_req\<close> works on the handler's state together with the world it acts on.
\<close>

locale change_handler =
  fixes on_req :: "change_request \<Rightarrow> 's \<Rightarrow> 's \<times> change_response"
    and updating :: "'s \<Rightarrow> bool"
  assumes request_proceeds: "snd (on_req RequestChange s) = Proceed"
    and prepare_marks: "snd (on_req PrepareChange (fst (on_req RequestChange s))) = Proceed \<Longrightarrow>
          updating (fst (on_req PrepareChange (fst (on_req RequestChange s))))"
    and completed_clears: "\<not> updating (fst (on_req ChangeCompleted s))"
    and canceled_clears: "\<not> updating (fst (on_req ChangeCanceled s))"
    and end_proceeds: "snd (on_req ChangeCompleted s) = Proceed" "snd (on_req ChangeCanceled s) = Proceed"
begin

definition change_cycle :: "'s \<Rightarrow> 's" where
  "change_cycle s = fst (on_req ChangeCompleted (fst (on_req PrepareChange (fst (on_req RequestChange s)))))"

definition cancel_cycle :: "'s \<Rightarrow> 's" where
  "cancel_cycle s = fst (on_req ChangeCanceled (fst (on_req PrepareChange (fst (on_req RequestChange s)))))"

lemma cycle_idle: "\<not> updating (change_cycle s)" "\<not> updating (cancel_cycle s)"
  by (simp_all add: change_cycle_def cancel_cycle_def completed_clears canceled_clears)

lemma idle_after_repeated_cycles:
  "\<not> updating (fold (\<lambda>c. if c then change_cycle else cancel_cycle) cs s) \<or> cs = []"
proof (induction cs arbitrary: s rule: rev_induct)
  case (snoc c cs)
  show ?case by (simp add: cycle_idle)
qed simp

end

end
