(* ===== verification/Hid_Devices.thy ===== *)
theory Hid_Devices
  imports Usb_Config
begin

text \<open>
  The HID functions of the gadget: \<^verbatim>\<open>devices/hid_io.rs\<close> (the bounded write), \<^verbatim>\<open>hid_kb.rs\<close>,
  \<^verbatim>\<open>hid_abs.rs\<close> and \<^verbatim>\<open>hid_rel.rs\<close>. Each device has a handle, called by the control service, and
  an I/O thread fed through a channel of 32 commands. The three handles and threads differ in
  their reports only, so they share one record; the keyboard extends it by the LED thread.
\<close>

unbundle bit_operations_syntax

section \<open>Bounded writes\<close>

text \<open>
  One turn of the loop of \<open>write_all_with_timeout\<close>: the outcome of \<open>write\<close>, and when it
  would block the clock reading that follows and the outcome of \<open>poll\<close>.
\<close>

datatype poll_outcome = PollReady | PollTimeout | PollError string

datatype write_outcome =
    Wrote nat
  | WouldBlock nat poll_outcome
  | WriteError string

datatype io_error = WriteZero | TimedOut | OtherError string

text \<open>\<open>None\<close>: the outcomes given are used up and the loop is still running.\<close>

fun write_all_with_timeout ::
  "nat \<Rightarrow> u8 list \<Rightarrow> write_outcome list \<Rightarrow> ((io_error, unit) result \<times> u8 list) option" where
  "write_all_with_timeout deadline [] outs = Some (Inr (), [])"
| "write_all_with_timeout deadline (b # bs) [] = None"
| "write_all_with_timeout deadline (b # bs) (Wrote n # outs) =
     (if n = 0 then Some (Inl WriteZero, [])
      else map_option (\<lambda>(r, w). (r, take n (b # bs) @ w))
             (write_all_with_timeout deadline (drop n (b # bs)) outs))"
| "write_all_with_timeout deadline (b # bs) (WouldBlock now p # outs) =
     (if deadline \<le> now then Some (Inl TimedOut, [])
      else case p of
        PollTimeout \<Rightarrow> Some (Inl TimedOut, [])
      | PollReady \<Rightarrow> write_all_with_timeout deadline (b # bs) outs
      | PollError e \<Rightarrow> Some (Inl (OtherError e), []))"
| "write_all_with_timeout deadline (b # bs) (WriteError e # outs) = Some (Inl (OtherError e), [])"

definition HID_WRITE_TIMEOUT :: nat where
  "HID_WRITE_TIMEOUT = 100 * 10 ^ 6"

fun early_block :: "nat \<Rightarrow> write_outcome \<Rightarrow> bool" where
  "early_block deadline (WouldBlock now p) = (now < deadline)"
| "early_block deadline _ = False"

section \<open>Commands and state\<close>

datatype hid_cmd = HidStop | HidOpen string | HidReport "u8 list"

text \<open>
  The handle's flags and cached path, the channel to the I/O thread, and the thread's own file and
  warning flags. \<open>hs_written\<close> records what reached a device node, with the node.
\<close>

record hid_state =
  hs_enabled :: bool
  hs_updating :: bool
  hs_warned_disabled :: bool
  hs_warned_updating :: bool
  hs_path :: "string option"
  hs_queue :: "hid_cmd list"
  hs_file :: "string option"
  hs_warned_open :: bool
  hs_warned_write :: bool
  hs_written :: "(string \<times> u8 list) list"

record keyboard_state =
  num_lock :: bool
  caps_lock :: bool
  scroll_lock :: bool
  compose :: bool
  kana :: bool

datatype led_cmd = LedStop | LedOpen string

record kb_state = hid_state +
  kb_led_queue :: "led_cmd list"
  kb_led_file :: "string option"
  kb_last_led :: "keyboard_state option"
  kb_warned_led_open :: bool
  kb_warned_read :: bool
  kb_published :: "keyboard_state list"

definition IO_CHANNEL_CAP :: nat where
  "IO_CHANNEL_CAP = 32"

definition hid_new :: "bool \<Rightarrow> hid_state" where
  "hid_new enabled = \<lparr>hs_enabled = enabled, hs_updating = False, hs_warned_disabled = False,
     hs_warned_updating = False, hs_path = None, hs_queue = [], hs_file = None, hs_warned_open = False,
     hs_warned_write = False, hs_written = []\<rparr>"

definition kb_new :: "bool \<Rightarrow> kb_state" where
  "kb_new enabled = \<lparr>hs_enabled = enabled, hs_updating = False, hs_warned_disabled = False,
     hs_warned_updating = False, hs_path = None, hs_queue = [], hs_file = None, hs_warned_open = False,
     hs_warned_write = False, hs_written = [], kb_led_queue = [], kb_led_file = None, kb_last_led = None,
     kb_warned_led_open = False, kb_warned_read = False, kb_published = []\<rparr>"

section \<open>Handles\<close>

definition hid_send :: "hid_cmd \<Rightarrow> 'a hid_state_scheme \<Rightarrow> 'a hid_state_scheme" where
  "hid_send c s = s\<lparr>hs_queue := hs_queue s @ [c]\<rparr>"

definition led_send :: "led_cmd \<Rightarrow> kb_state \<Rightarrow> kb_state" where
  "led_send c s = s\<lparr>kb_led_queue := kb_led_queue s @ [c]\<rparr>"

text \<open>A report is dropped while the device is disabled or the gadget is being changed.\<close>

definition hid_submit :: "hid_cmd \<Rightarrow> 'a hid_state_scheme \<Rightarrow> 'a hid_state_scheme" where
  "hid_submit c s =
     (if \<not> hs_enabled s then s\<lparr>hs_warned_disabled := True\<rparr>
      else if hs_updating s then s\<lparr>hs_warned_updating := True\<rparr>
      else hid_send c s)"

definition hid_sync_path :: "hid_id \<Rightarrow> functions_dir \<Rightarrow> 'a hid_state_scheme \<Rightarrow> 'a hid_state_scheme" where
  "hid_sync_path h dir s =
     (if \<not> hs_enabled s then s\<lparr>hs_path := None\<rparr>
      else case resolve_hid_device_path dir h of
             Inr path \<Rightarrow> s\<lparr>hs_path := Some path\<rparr>
           | Inl _ \<Rightarrow> s\<lparr>hs_path := None\<rparr>)"

definition hid_set_enabled :: "bool \<Rightarrow> hid_state \<Rightarrow> hid_state" where
  "hid_set_enabled enabled s =
     (if enabled then s\<lparr>hs_enabled := True, hs_warned_disabled := False\<rparr>
      else hid_send HidStop (s\<lparr>hs_enabled := False\<rparr>))"

definition hid_open_if_ready :: "hid_state \<Rightarrow> hid_state" where
  "hid_open_if_ready s =
     (if \<not> hs_enabled s then s
      else case hs_path s of None \<Rightarrow> s | Some path \<Rightarrow> hid_send (HidOpen path) s)"

definition hid_on_change :: "hid_id \<Rightarrow> functions_dir \<Rightarrow> change_request \<Rightarrow> hid_state \<Rightarrow> hid_state \<times> change_response" where
  "hid_on_change h dir req s =
     (case req of
        RequestChange \<Rightarrow> (s\<lparr>hs_updating := True\<rparr>, Proceed)
      | PrepareChange \<Rightarrow> ((hid_send HidStop s)\<lparr>hs_path := None\<rparr>, Proceed)
      | ChangeCompleted \<Rightarrow>
          ((hid_open_if_ready (hid_sync_path h dir s))\<lparr>hs_updating := False, hs_warned_updating := False\<rparr>, Proceed)
      | ChangeCanceled \<Rightarrow>
          ((hid_open_if_ready (hid_sync_path h dir s))\<lparr>hs_updating := False, hs_warned_updating := False\<rparr>, Proceed))"

subsection \<open>Absolute mouse\<close>

definition abs_new :: "bool \<Rightarrow> hid_state" where "abs_new enabled = hid_new enabled"

definition i32_byte :: "int \<Rightarrow> nat \<Rightarrow> u8" where
  "i32_byte x k = word_of_int ((x div 2 ^ (8 * k)) mod 256)"

definition abs_mouse_report :: "int \<Rightarrow> int \<Rightarrow> u8 \<Rightarrow> hid_state \<Rightarrow> hid_state" where
  "abs_mouse_report x y btns s =
     hid_submit (HidReport [1, btns, i32_byte x 0, i32_byte x 1, i32_byte y 0, i32_byte y 1]) s"

definition i8_as_u8 :: "int \<Rightarrow> u8" where
  "i8_as_u8 x = word_of_int x"

definition abs_mouse_wheel :: "int \<Rightarrow> int \<Rightarrow> hid_state \<Rightarrow> hid_state" where
  "abs_mouse_wheel y x s =
     (if y = 0 \<and> x = 0 then s else hid_submit (HidReport [2, i8_as_u8 y, i8_as_u8 x]) s)"

definition abs_set_enabled :: "bool \<Rightarrow> hid_state \<Rightarrow> hid_state" where
  "abs_set_enabled enabled s = hid_set_enabled enabled s"

definition abs_on_change :: "functions_dir \<Rightarrow> change_request \<Rightarrow> hid_state \<Rightarrow> hid_state \<times> change_response" where
  "abs_on_change dir req s = hid_on_change HID_ABS dir req s"

subsection \<open>Relative mouse\<close>

definition rel_new :: "bool \<Rightarrow> hid_state" where "rel_new enabled = hid_new enabled"

definition rel_mouse_report :: "int \<Rightarrow> int \<Rightarrow> u8 \<Rightarrow> hid_state \<Rightarrow> hid_state" where
  "rel_mouse_report dx dy btns s = hid_submit (HidReport [1, btns, i8_as_u8 dx, i8_as_u8 dy, 0]) s"

definition rel_set_enabled :: "bool \<Rightarrow> hid_state \<Rightarrow> hid_state" where
  "rel_set_enabled enabled s = hid_set_enabled enabled s"

definition rel_on_change :: "functions_dir \<Rightarrow> change_request \<Rightarrow> hid_state \<Rightarrow> hid_state \<times> change_response" where
  "rel_on_change dir req s = hid_on_change HID_REL dir req s"

subsection \<open>Keyboard\<close>

text \<open>
  The report is written into eight bytes with \<open>copy_from_slice\<close>, which panics unless the slices
  have the same length. \<open>None\<close> is the panic.
\<close>

definition keyboard_report_bytes :: "u8 \<Rightarrow> u8 list \<Rightarrow> u8 list option" where
  "keyboard_report_bytes mods keys =
     (let n = min (length keys) 6 in
      if n \<noteq> length keys then None else Some ([mods, 0] @ keys @ replicate (6 - n) 0))"

definition keyboard_report :: "u8 \<Rightarrow> u8 list \<Rightarrow> kb_state \<Rightarrow> kb_state option" where
  "keyboard_report mods keys s =
     map_option (\<lambda>d. hid_submit (HidReport d) s) (keyboard_report_bytes mods keys)"

definition kb_stop_io_threads :: "kb_state \<Rightarrow> kb_state" where
  "kb_stop_io_threads s = led_send LedStop (hid_send HidStop s)"

definition kb_set_enabled :: "bool \<Rightarrow> kb_state \<Rightarrow> kb_state" where
  "kb_set_enabled enabled s =
     (if enabled then s\<lparr>hs_enabled := True, hs_warned_disabled := False\<rparr>
      else kb_stop_io_threads (s\<lparr>hs_enabled := False\<rparr>))"

definition kb_open_if_ready :: "kb_state \<Rightarrow> kb_state" where
  "kb_open_if_ready s =
     (if \<not> hs_enabled s then s
      else case hs_path s of
             None \<Rightarrow> s
           | Some path \<Rightarrow> led_send (LedOpen path) (hid_send (HidOpen path) s))"

definition kb_on_change :: "functions_dir \<Rightarrow> change_request \<Rightarrow> kb_state \<Rightarrow> kb_state \<times> change_response" where
  "kb_on_change dir req s =
     (case req of
        RequestChange \<Rightarrow> (s\<lparr>hs_updating := True\<rparr>, Proceed)
      | PrepareChange \<Rightarrow> ((kb_stop_io_threads s)\<lparr>hs_path := None\<rparr>, Proceed)
      | ChangeCompleted \<Rightarrow>
          ((kb_open_if_ready (hid_sync_path HID_KB dir s))\<lparr>hs_updating := False, hs_warned_updating := False\<rparr>, Proceed)
      | ChangeCanceled \<Rightarrow>
          ((kb_open_if_ready (hid_sync_path HID_KB dir s))\<lparr>hs_updating := False, hs_warned_updating := False\<rparr>, Proceed))"

section \<open>I/O threads\<close>

text \<open>
  One turn of the I/O loops: take a command if there is one. \<open>open_ok\<close> says whether a node can be
  opened; the write of a report takes its deadline from the clock. A turn whose write has not
  returned yet has no effect so far.
\<close>

definition hid_io_step ::
  "(string \<Rightarrow> bool) \<Rightarrow> nat \<Rightarrow> write_outcome list \<Rightarrow> 'a hid_state_scheme \<Rightarrow> 'a hid_state_scheme" where
  "hid_io_step open_ok now outs s =
     (case hs_queue s of
        [] \<Rightarrow> s
      | HidStop # q \<Rightarrow> s\<lparr>hs_queue := q, hs_file := None, hs_warned_open := False, hs_warned_write := False\<rparr>
      | HidOpen path # q \<Rightarrow>
          s\<lparr>hs_queue := q, hs_file := (if open_ok path then Some path else None),
            hs_warned_open := \<not> open_ok path, hs_warned_write := False\<rparr>
      | HidReport d # q \<Rightarrow>
          (case hs_file s of
             None \<Rightarrow> s\<lparr>hs_queue := q\<rparr>
           | Some f \<Rightarrow>
               (case write_all_with_timeout (now + HID_WRITE_TIMEOUT) d outs of
                  None \<Rightarrow> s
                | Some (Inr _, w) \<Rightarrow> s\<lparr>hs_queue := q, hs_written := hs_written s @ [(f, w)]\<rparr>
                | Some (Inl _, w) \<Rightarrow>
                    s\<lparr>hs_queue := q, hs_warned_write := True, hs_written := hs_written s @ [(f, w)]\<rparr>)))"

definition hid_abs_io_step :: "(string \<Rightarrow> bool) \<Rightarrow> nat \<Rightarrow> write_outcome list \<Rightarrow> hid_state \<Rightarrow> hid_state" where
  "hid_abs_io_step open_ok now outs s = hid_io_step open_ok now outs s"

definition hid_rel_io_step :: "(string \<Rightarrow> bool) \<Rightarrow> nat \<Rightarrow> write_outcome list \<Rightarrow> hid_state \<Rightarrow> hid_state" where
  "hid_rel_io_step open_ok now outs s = hid_io_step open_ok now outs s"

definition hid_kb_write_step :: "(string \<Rightarrow> bool) \<Rightarrow> nat \<Rightarrow> write_outcome list \<Rightarrow> kb_state \<Rightarrow> kb_state" where
  "hid_kb_write_step open_ok now outs s = hid_io_step open_ok now outs s"

definition parse_keyboard_state :: "u8 \<Rightarrow> keyboard_state" where
  "parse_keyboard_state b = \<lparr>num_lock = (b AND 1 \<noteq> 0), caps_lock = (b AND 2 \<noteq> 0),
     scroll_lock = (b AND 4 \<noteq> 0), compose = (b AND 8 \<noteq> 0), kana = (b AND 16 \<noteq> 0)\<rparr>"

datatype read_outcome = ReadBytes "u8 list" | ReadWouldBlock | ReadError string

text \<open>
  The inner loop of the LED thread on the outcomes of its reads; it ends at an empty read, at
  \<open>WouldBlock\<close>, or at an error, which also closes the file.
\<close>

fun led_read_loop :: "read_outcome list \<Rightarrow> kb_state \<Rightarrow> kb_state" where
  "led_read_loop [] s = s"
| "led_read_loop (ReadBytes [] # rs) s = s"
| "led_read_loop (ReadBytes (b # bs) # rs) s =
     (let st = parse_keyboard_state b;
          s1 = s\<lparr>kb_warned_read := False, kb_last_led := Some st\<rparr>
      in led_read_loop rs
           (if kb_last_led s \<noteq> Some st then s1\<lparr>kb_published := kb_published s @ [st]\<rparr> else s1))"
| "led_read_loop (ReadWouldBlock # rs) s = s"
| "led_read_loop (ReadError e # rs) s = s\<lparr>kb_led_file := None, kb_last_led := None, kb_warned_read := True\<rparr>"

definition hid_kb_led_step :: "(string \<Rightarrow> bool) \<Rightarrow> read_outcome list \<Rightarrow> kb_state \<Rightarrow> kb_state" where
  "hid_kb_led_step open_ok reads s =
     (let s1 = (case kb_led_queue s of
            [] \<Rightarrow> s
          | LedStop # q \<Rightarrow> s\<lparr>kb_led_queue := q, kb_led_file := None, kb_last_led := None,
              kb_warned_led_open := False, kb_warned_read := False\<rparr>
          | LedOpen path # q \<Rightarrow> s\<lparr>kb_led_queue := q, kb_led_file := (if open_ok path then Some path else None),
              kb_last_led := None, kb_warned_led_open := \<not> open_ok path, kb_warned_read := False\<rparr>)
      in if kb_led_file s1 = None then s1 else led_read_loop reads s1)"


section \<open>Contract of the handles\<close>

lemma hid_state_simps [simp]:
  "hs_updating (hid_send c s) = hs_updating s" "hs_enabled (hid_send c s) = hs_enabled s"
  "hs_queue (hid_send c s) = hs_queue s @ [c]" "hs_file (hid_send c s) = hs_file s"
  "hs_written (hid_send c s) = hs_written s"
  by (simp_all add: hid_send_def)

lemma led_send_simps [simp]:
  "hs_updating (led_send c k) = hs_updating k" "hs_queue (led_send c k) = hs_queue k"
  "hs_file (led_send c k) = hs_file k" "hs_written (led_send c k) = hs_written k"
  by (simp_all add: led_send_def)

interpretation kb_handler: change_handler "kb_on_change dir" "hs_updating :: kb_state \<Rightarrow> bool" for dir
  by unfold_locales (simp_all add: kb_on_change_def kb_stop_io_threads_def)

interpretation abs_handler: change_handler "abs_on_change dir" "hs_updating :: hid_state \<Rightarrow> bool" for dir
  by unfold_locales (simp_all add: abs_on_change_def hid_on_change_def)

interpretation rel_handler: change_handler "rel_on_change dir" "hs_updating :: hid_state \<Rightarrow> bool" for dir
  by unfold_locales (simp_all add: rel_on_change_def hid_on_change_def)

section \<open>Properties\<close>

lemma write_all_result:
  "write_all_with_timeout dl buf outs = Some (r, w) \<Longrightarrow>
   prefix w buf \<and> (r = Inr () \<longrightarrow> w = buf) \<and> (r \<noteq> Inr () \<longrightarrow> length w < length buf)"
proof (induction dl buf outs arbitrary: r w rule: write_all_with_timeout.induct)
  case (3 dl b bs n outs)
  show ?case
  proof (cases "n = 0")
    case False
    with 3(2) obtain w' where w': "write_all_with_timeout dl (drop n (b # bs)) outs = Some (r, w')"
      "w = take n (b # bs) @ w'" by auto
    let ?t = "take n (b # bs)" and ?d = "drop n (b # bs)"
    from 3(1) [OF False w'(1)] have ih: "prefix w' ?d" "r = Inr () \<longrightarrow> w' = ?d" "r \<noteq> Inr () \<longrightarrow> length w' < length ?d"
      by auto
    have td: "?t @ ?d = b # bs" by (rule append_take_drop_id)
    from ih(1) have "prefix (?t @ w') (?t @ ?d)" by (simp only: same_prefix_prefix)
    moreover from ih(3) have "r \<noteq> Inr () \<longrightarrow> length (?t @ w') < length (?t @ ?d)"
      by (simp only: length_append) arith
    ultimately show ?thesis using ih(2) w'(2) unfolding td by auto
  qed (use 3 in auto)
qed (auto split: if_splits poll_outcome.splits)

lemma write_all_returns:
  "length buf + length (filter (early_block dl) outs) \<le> length outs \<Longrightarrow>
   write_all_with_timeout dl buf outs \<noteq> None"
proof (induction dl buf outs rule: write_all_with_timeout.induct)
  case (3 dl b bs n outs)
  then show ?case by (cases n) auto
next
  case (4 dl b bs now p outs)
  then show ?case by (cases p) auto
qed auto

lemma write_all_late:
  "WouldBlock now p \<in> set outs \<Longrightarrow> dl \<le> now \<Longrightarrow> write_all_with_timeout dl buf outs \<noteq> None"
proof (induction dl buf outs rule: write_all_with_timeout.induct)
  case (4 dl b bs t q outs)
  then show ?case by (cases q) auto
qed auto

text \<open>What the clock said after each write that would have blocked.\<close>

fun block_times :: "write_outcome list \<Rightarrow> nat list" where
  "block_times [] = []"
| "block_times (WouldBlock now p # outs) = now # block_times outs"
| "block_times (x # outs) = block_times outs"

lemma early_blocks: "length (filter (early_block dl) outs) = length (filter (\<lambda>t. t < dl) (block_times outs))"
  by (induction outs rule: block_times.induct) auto

lemma early_blocks_bounded:
  assumes "sorted_wrt (<) (block_times outs)" "\<forall>t \<in> set (block_times outs). t0 \<le> t"
  shows "length (filter (early_block dl) outs) \<le> dl - t0"
proof -
  let ?ts = "filter (\<lambda>t. t < dl) (block_times outs)"
  have "distinct ?ts" using assms(1) by (simp add: strict_sorted_iff)
  then have "length ?ts = card (set ?ts)" by (simp only: distinct_card)
  also have "\<dots> \<le> card {t0..<dl}" using assms(2) by (intro card_mono) auto
  finally show ?thesis by (simp add: early_blocks)
qed

text \<open>
  C39: A bounded write ends, with all of the report or a reported prefix. When it returns, the bytes
  accepted are a prefix of the report, all of it on success and a proper prefix on error. It returns
  no later than at the first write that would block after the deadline; and when the clock advances
  from one blocked write to the next, within as many turns as the report has bytes and the time-out
  has ticks, whatever the kernel answers.
\<close>

theorem bounded_write:
  "(\<forall>r w. write_all_with_timeout (t0 + timeout) buf outs = Some (r, w) \<longrightarrow>
      prefix w buf \<and> (r = Inr () \<longrightarrow> w = buf) \<and> (r \<noteq> Inr () \<longrightarrow> length w < length buf))
   \<and> ((\<exists>now p. WouldBlock now p \<in> set outs \<and> t0 + timeout \<le> now) \<longrightarrow>
      (\<exists>r w. write_all_with_timeout (t0 + timeout) buf outs = Some (r, w)))
   \<and> (sorted_wrt (<) (block_times outs) \<and> (\<forall>t \<in> set (block_times outs). t0 \<le> t) \<and> length buf + timeout \<le> length outs \<longrightarrow>
      (\<exists>r w. write_all_with_timeout (t0 + timeout) buf outs = Some (r, w)))"
proof -
  let ?dl = "t0 + timeout"
  have "write_all_with_timeout ?dl buf outs \<noteq> None"
    if "sorted_wrt (<) (block_times outs)" "\<forall>t \<in> set (block_times outs). t0 \<le> t" "length buf + timeout \<le> length outs"
    using early_blocks_bounded [OF that(1,2), of ?dl] that(3) by (intro write_all_returns) simp
  with write_all_result [of ?dl buf outs] write_all_late [of _ _ outs ?dl buf] show ?thesis by fast
qed

theorem bounded_write_witness:
  "write_all_with_timeout (3 + 1) [1, 2, 3] [Wrote 2, WouldBlock 3 PollReady, Wrote 1, Wrote 1]
     = Some (Inr (), [1, 2, 3])"
proof -
  have "\<exists>r w. write_all_with_timeout (3 + 1) [1, 2, 3] [Wrote 2, WouldBlock 3 PollReady, Wrote 1, Wrote 1] = Some (r, w)"
    using bounded_write [of 3 1 "[1, 2, 3]" "[Wrote 2, WouldBlock 3 PollReady, Wrote 1, Wrote 1]"] by simp
  then show ?thesis by (simp add: numeral_eq_Suc)
qed

text \<open>The traffic between the approval of a change and its end: reports, switches and thread turns.\<close>

datatype hid_traffic =
    Submit "u8 list"
  | SetEnabled bool
  | IoTurn "string \<Rightarrow> bool" nat "write_outcome list"

fun hid_traffic_step :: "hid_traffic \<Rightarrow> hid_state \<Rightarrow> hid_state" where
  "hid_traffic_step (Submit d) s = hid_submit (HidReport d) s"
| "hid_traffic_step (SetEnabled b) s = hid_set_enabled b s"
| "hid_traffic_step (IoTurn ok now outs) s = hid_io_step ok now outs s"

fun is_report :: "hid_cmd \<Rightarrow> bool" where
  "is_report (HidReport d) = True"
| "is_report _ = False"

definition reports_left :: "'a hid_state_scheme \<Rightarrow> nat" where
  "reports_left s = length (filter is_report (hs_queue s)) + length (hs_written s)"

definition closing :: "'a hid_state_scheme \<Rightarrow> bool" where
  "closing s = (hs_updating s \<and> (if hs_queue s = [] then hs_file s = None else last (hs_queue s) = HidStop))"

lemma hid_io_step_closing:
  assumes "closing s"
  shows "closing (hid_io_step ok now outs s) \<and> reports_left (hid_io_step ok now outs s) \<le> reports_left s"
proof (cases "hs_queue s")
  case (Cons c q)
  with assms show ?thesis
    by (cases c) (auto simp: closing_def reports_left_def hid_io_step_def split: option.splits sum.splits if_splits)
qed (use assms in \<open>simp add: hid_io_step_def\<close>)

lemma hid_traffic_closing:
  assumes "closing s"
  shows "closing (hid_traffic_step a s) \<and> reports_left (hid_traffic_step a s) \<le> reports_left s"
proof (cases a)
  case (IoTurn ok now outs)
  with hid_io_step_closing [OF assms] show ?thesis by simp
qed (use assms in \<open>auto simp: closing_def reports_left_def hid_submit_def hid_set_enabled_def hid_send_def\<close>)

lemma hid_traffic_run:
  "closing s \<Longrightarrow> closing (fold hid_traffic_step as s) \<and> reports_left (fold hid_traffic_step as s) \<le> reports_left s"
proof (induction as arbitrary: s)
  case (Cons a as)
  from hid_traffic_closing [OF Cons.prems, of a] Cons.IH [of "hid_traffic_step a s"] show ?case
    by (auto intro: le_trans)
qed simp

text \<open>
  A change silences a mouse. After a handle has agreed to a change, whatever reports are
  submitted, however often the device is switched, and however its thread is scheduled until the
  change ends: no report submitted in that time is ever written, so the writes are at most those
  queued before; and once the thread has emptied its channel its device node is closed.
\<close>

theorem change_silences_mouse:
  assumes "s1 = fst (hid_on_change h dir RequestChange s)" and "s2 = fst (hid_on_change h dir PrepareChange s1)"
    and "s3 = fold hid_traffic_step as s2"
  shows "hs_updating s3
    \<and> length (hs_written s3) \<le> length (hs_written s) + length (filter is_report (hs_queue s))
    \<and> (hs_queue s3 = [] \<longrightarrow> hs_file s3 = None)"
proof -
  have c: "closing s2" and r: "reports_left s2 = reports_left s"
    using assms(1,2) by (auto simp: hid_on_change_def closing_def reports_left_def)
  from hid_traffic_run [OF c, of as] r assms(3) show ?thesis
    by (auto simp: closing_def reports_left_def split: if_splits)
qed

definition demo_hid :: hid_state where
  "demo_hid = (hid_new True)\<lparr>hs_file := Some ''/dev/hidg1'', hs_queue := [HidReport [1]]\<rparr>"

theorem change_silences_mouse_witness:
  "let s2 = fst (hid_on_change HID_ABS None PrepareChange (fst (hid_on_change HID_ABS None RequestChange demo_hid)));
       s3 = fold hid_traffic_step [Submit [9], IoTurn (\<lambda>_. True) 0 [Wrote 1], IoTurn (\<lambda>_. True) 0 []] s2
   in hs_queue s3 = [] \<and> hs_file s3 = None \<and> hs_written s3 = [(''/dev/hidg1'', [1])]"
proof -
  let ?s2 = "fst (hid_on_change HID_ABS None PrepareChange (fst (hid_on_change HID_ABS None RequestChange demo_hid)))"
  let ?s3 = "fold hid_traffic_step [Submit [9], IoTurn (\<lambda>_. True) 0 [Wrote 1], IoTurn (\<lambda>_. True) 0 []] ?s2"
  have "hs_queue ?s3 = []" "hs_written ?s3 = [(''/dev/hidg1'', [1])]"
    by (simp_all add: hid_on_change_def demo_hid_def hid_new_def hid_submit_def hid_send_def hid_io_step_def)
  with change_silences_mouse [of _ HID_ABS None demo_hid ?s2 ?s3] show ?thesis
    by (metis (no_types, lifting))
qed

text \<open>
  Agreeing to a change does not wait for the thread. A handle with its node open and a report
  queued agrees to the change with both still in place, and the thread then writes that report to
  the node before it closes it, although the answer \<open>Proceed\<close> is documented to mean that the
  handler has released its resources.
\<close>

theorem prepare_before_close:
  "\<exists>s2. hid_on_change h dir PrepareChange (fst (hid_on_change h dir RequestChange demo_hid)) = (s2, Proceed)
     \<and> hs_file s2 = Some ''/dev/hidg1''
     \<and> hs_written (hid_io_step (\<lambda>_. True) 0 [Wrote 1] s2) = [(''/dev/hidg1'', [1])]"
  by (simp add: hid_on_change_def demo_hid_def hid_new_def hid_send_def hid_io_step_def)


text \<open>
  Keyboard reports. With at most six keys the report has the eight bytes of the boot
  protocol: the modifiers, a zero, the keys in their order and zeros; with more than six keys the
  call panics instead of cutting the list, because the destination slice is cut and the source is
  not. A report that is accepted by an enabled, idle device is queued last and changes nothing else.
\<close>

theorem keyboard_report_cases:
  "(length keys \<le> 6 \<longrightarrow> (\<exists>d. keyboard_report_bytes mods keys = Some d \<and> length d = 8 \<and> d ! 0 = mods \<and> d ! 1 = 0
      \<and> take (length keys) (drop 2 d) = keys \<and> (\<forall>i. 2 + length keys \<le> i \<and> i < 8 \<longrightarrow> d ! i = 0)))
   \<and> (6 < length keys \<longrightarrow> keyboard_report mods keys s = None)
   \<and> (hs_enabled s \<and> \<not> hs_updating s \<and> length keys \<le> 6 \<longrightarrow>
        (\<exists>d. keyboard_report_bytes mods keys = Some d
           \<and> keyboard_report mods keys s = Some (s\<lparr>hs_queue := hs_queue s @ [HidReport d]\<rparr>)))"
proof -
  have "([mods, 0] @ keys @ replicate (6 - length keys) 0) ! i = 0"
    if "2 + length keys \<le> i" "i < 8" for i
  proof -
    define j where "j = i - (length keys + 2)"
    with that have j: "i = Suc (Suc (length keys + j))" "j < 6 - length keys" by auto
    then show ?thesis by (simp add: nth_append)
  qed
  then show ?thesis
    by (auto simp: keyboard_report_bytes_def keyboard_report_def hid_submit_def hid_send_def Let_def min_def)
qed

theorem keyboard_report_cases_witness:
  "keyboard_report 0 [1, 2, 3, 4, 5, 6, 7] (kb_new True) = None
   \<and> keyboard_report_bytes 2 [4] = Some [2, 0, 4, 0, 0, 0, 0, 0]"
proof -
  have "keyboard_report 0 [1, 2, 3, 4, 5, 6, 7] (kb_new True) = None"
    using keyboard_report_cases [of "[1, 2, 3, 4, 5, 6, 7]" 0 "kb_new True"] by simp
  then show ?thesis by (simp add: keyboard_report_bytes_def numeral_eq_Suc)
qed

definition le_pair :: "u8 \<Rightarrow> u8 \<Rightarrow> int" where
  "le_pair lo hi = uint lo + 256 * uint hi"

lemma le_pair_i32: "le_pair (i32_byte x 0) (i32_byte x (Suc 0)) = x mod 65536"
proof -
  have "x mod 65536 = x mod 256 + 256 * ((x div 256) mod 256)"
    using mod_mult2_eq' [of x 256 256] by simp
  then show ?thesis
    by (simp add: le_pair_def i32_byte_def uint_word_of_int take_bit_eq_mod)
qed

lemma sint_i8: "- 128 \<le> v \<Longrightarrow> v < 128 \<Longrightarrow> sint (i8_as_u8 v) = v"
  by (simp add: i8_as_u8_def sint_sbintrunc' signed_take_bit_int_eq_self)

text \<open>
  Pointer coordinates survive the wire. The six bytes queued for an absolute position carry
  the report id, the buttons and both coordinates as little-endian pairs: the host reads back the
  coordinates modulo 65536, so exactly for every position the descriptor allows; and the wheel and
  relative reports carry their signed bytes.
\<close>

theorem pointer_reports_roundtrip:
  assumes "hs_enabled s" and "\<not> hs_updating s"
  shows "(\<exists>a b c d. abs_mouse_report x y btns s = s\<lparr>hs_queue := hs_queue s @ [HidReport [1, btns, a, b, c, d]]\<rparr>
        \<and> le_pair a b = x mod 65536 \<and> le_pair c d = y mod 65536)
    \<and> (- 128 \<le> v \<and> v < 128 \<and> - 128 \<le> u \<and> u < 128 \<and> (v, u) \<noteq> (0, 0) \<longrightarrow>
        (\<exists>a b. abs_mouse_wheel v u s = s\<lparr>hs_queue := hs_queue s @ [HidReport [2, a, b]]\<rparr> \<and> sint a = v \<and> sint b = u))
    \<and> (- 128 \<le> v \<and> v < 128 \<and> - 128 \<le> u \<and> u < 128 \<longrightarrow>
        (\<exists>a b. rel_mouse_report v u btns s = s\<lparr>hs_queue := hs_queue s @ [HidReport [1, btns, a, b, 0]]\<rparr>
          \<and> sint a = v \<and> sint b = u))"
proof (intro conjI impI)
  let ?q = "\<lambda>d. s\<lparr>hs_queue := hs_queue s @ [HidReport d]\<rparr>"
  have sub: "hid_submit (HidReport d) s = ?q d" for d
    using assms by (simp add: hid_submit_def hid_send_def)
  have "abs_mouse_report x y btns s = ?q [1, btns, i32_byte x 0, i32_byte x (Suc 0), i32_byte y 0, i32_byte y (Suc 0)]"
    by (simp add: abs_mouse_report_def sub)
  with le_pair_i32 show "\<exists>a b c d. abs_mouse_report x y btns s = ?q [1, btns, a, b, c, d]
      \<and> le_pair a b = x mod 65536 \<and> le_pair c d = y mod 65536" by blast
  { assume r: "- 128 \<le> v \<and> v < 128 \<and> - 128 \<le> u \<and> u < 128 \<and> (v, u) \<noteq> (0, 0)"
    then have "abs_mouse_wheel v u s = ?q [2, i8_as_u8 v, i8_as_u8 u]" by (simp add: abs_mouse_wheel_def sub)
    with r sint_i8 show "\<exists>a b. abs_mouse_wheel v u s = ?q [2, a, b] \<and> sint a = v \<and> sint b = u" by blast }
  { assume r: "- 128 \<le> v \<and> v < 128 \<and> - 128 \<le> u \<and> u < 128"
    have "rel_mouse_report v u btns s = ?q [1, btns, i8_as_u8 v, i8_as_u8 u, 0]" by (simp add: rel_mouse_report_def sub)
    with r sint_i8 show "\<exists>a b. rel_mouse_report v u btns s = ?q [1, btns, a, b, 0] \<and> sint a = v \<and> sint b = u"
      by blast }
qed

theorem pointer_reports_roundtrip_witness:
  "\<exists>a b c d. abs_mouse_report 32767 258 1 (hid_new True)
     = (hid_new True)\<lparr>hs_queue := [HidReport [1, 1, a, b, c, d]]\<rparr> \<and> le_pair a b = 32767 \<and> le_pair c d = 258"
  using pointer_reports_roundtrip [of "hid_new True" 32767 258 1 1 1] by (auto simp: hid_new_def)

lemma led_read_loop_published:
  "kb_published (led_read_loop (map (\<lambda>b. ReadBytes [b]) bs @ [ReadWouldBlock]) s) =
     (case kb_last_led s of
        None \<Rightarrow> kb_published s @ remdups_adj (map parse_keyboard_state bs)
      | Some l \<Rightarrow> kb_published s @ tl (remdups_adj (l # map parse_keyboard_state bs)))"
proof (induction bs arbitrary: s)
  case (Cons b bs)
  show ?case
    by (cases "kb_last_led s") (auto simp: Let_def Cons.IH remdups_adj_Cons' split: list.splits)
qed (simp split: option.splits)

text \<open>
  LED changes are published once. Starting from the last state seen, a burst of LED reports
  publishes exactly the states at which the state changes, in their order: consecutive repetitions
  are dropped and nothing else is. The last state seen is the last report.
\<close>

theorem led_published_once:
  "kb_published (led_read_loop (map (\<lambda>b. ReadBytes [b]) bs @ [ReadWouldBlock]) s) =
     (case kb_last_led s of
        None \<Rightarrow> kb_published s @ remdups_adj (map parse_keyboard_state bs)
      | Some l \<Rightarrow> kb_published s @ tl (remdups_adj (l # map parse_keyboard_state bs)))
   \<and> kb_last_led (led_read_loop (map (\<lambda>b. ReadBytes [b]) bs @ [ReadWouldBlock]) s) =
     (if bs = [] then kb_last_led s else Some (parse_keyboard_state (last bs)))"
proof -
  have "kb_last_led (led_read_loop (map (\<lambda>b. ReadBytes [b]) bs @ [ReadWouldBlock]) s) =
     (if bs = [] then kb_last_led s else Some (parse_keyboard_state (last bs)))"
    by (induction bs arbitrary: s) (auto simp: Let_def)
  with led_read_loop_published show ?thesis by blast
qed

end
