(* ===== verification/Ums_Devices.thy ===== *)
theory Ums_Devices
  imports Usb_Config
begin

text \<open>
  The two mass-storage functions: \<^verbatim>\<open>devices/ums.rs\<close> (virtual media, with a CD-ROM and a disk
  mode) and \<^verbatim>\<open>devices/ums1.rs\<close> (file transfer), and \<open>write_file\<close> of \<^verbatim>\<open>devices/mod.rs\<close>. A handle
  lives in a world \<open>'w\<close> (the file system with configfs) it reads and writes through the operations
  of \<open>fs_env\<close>. Requests reach a handle one at a time through its event loop, so a request is one
  function call.
\<close>

section \<open>The file system\<close>

datatype write_res = WOk | WOpenErr string | WFail string

record 'w fs_env =
  fs_functions :: "'w \<Rightarrow> functions_dir"
  fs_exists :: "string \<Rightarrow> 'w \<Rightarrow> bool"
  fs_write :: "string \<Rightarrow> string \<Rightarrow> 'w \<Rightarrow> write_res \<times> 'w"

definition write_file :: "('w, 'x) fs_env_scheme \<Rightarrow> string \<Rightarrow> string \<Rightarrow> 'w \<Rightarrow> (usb_error, unit) result \<times> 'w" where
  "write_file e path data w =
     (case fs_write e path data w of
        (WOk, w') \<Rightarrow> (Inr (), w')
      | (WOpenErr m, w') \<Rightarrow> (Inl (InvalidArgument (''failed to open '' @ path @ '', error: '' @ m)), w')
      | (WFail m, w') \<Rightarrow> (Inl (IoError (''failed to write file '' @ path @ '', error: '' @ m)), w'))"

definition NEWLINE :: string where
  "NEWLINE = [char_of (10 :: nat)]"

section \<open>Shared part of the handles\<close>

record ums_core =
  um_enabled :: bool
  um_file_path :: "string option"
  um_lun_file_path :: "string option"
  um_updating :: bool

definition sync_lun_file_path ::
  "('w, 'x) fs_env_scheme \<Rightarrow> string \<Rightarrow> 'a ums_core_scheme \<times> 'w \<Rightarrow> 'a ums_core_scheme \<times> 'w" where
  "sync_lun_file_path e inq s =
     (case s of (h, w) \<Rightarrow>
        (if \<not> um_enabled h then (h\<lparr>um_lun_file_path := None\<rparr>, w)
         else case resolve_mass_storage_file (fs_functions e w) inq of
                Inr p \<Rightarrow> (h\<lparr>um_lun_file_path := Some p\<rparr>, w)
              | Inl _ \<Rightarrow> (h\<lparr>um_lun_file_path := None\<rparr>, w)))"

definition get_lun_file_path ::
  "('w, 'x) fs_env_scheme \<Rightarrow> string \<Rightarrow> 'a ums_core_scheme \<times> 'w \<Rightarrow> (usb_error, string) result \<times> 'a ums_core_scheme" where
  "get_lun_file_path e inq s =
     (case s of (h, w) \<Rightarrow>
        (case um_lun_file_path h of
           Some p \<Rightarrow> (Inr p, h)
         | None \<Rightarrow>
             (case resolve_mass_storage_file (fs_functions e w) inq of
                Inl err \<Rightarrow> (Inl err, h)
              | Inr p \<Rightarrow> (Inr p, h\<lparr>um_lun_file_path := Some p\<rparr>))))"

definition UPDATING_MSG :: string where
  "UPDATING_MSG = ''USBGadget is updating''"

section \<open>Virtual media\<close>

record ums_handle = ums_core +
  um_mode :: ums_mode

definition ums_new :: "ums_mode \<Rightarrow> bool \<Rightarrow> ums_handle" where
  "ums_new m enabled = \<lparr>um_enabled = enabled, um_file_path = None, um_lun_file_path = None,
     um_updating = False, um_mode = m\<rparr>"

definition ums_set_enabled :: "bool \<Rightarrow> ums_handle \<Rightarrow> ums_handle" where
  "ums_set_enabled b h = h\<lparr>um_enabled := b\<rparr>"

definition ums_is_mounted :: "ums_handle \<Rightarrow> bool" where
  "ums_is_mounted h = (um_file_path h \<noteq> None)"

record ums_vm_state =
  vs_mode :: ums_mode
  vs_mounted :: bool
  vs_mounted_path :: "string option"
  vs_enabled :: bool

definition collect_state :: "ums_handle \<Rightarrow> ums_vm_state" where
  "collect_state h = \<lparr>vs_mode = um_mode h, vs_mounted = (um_file_path h \<noteq> None),
     vs_mounted_path = um_file_path h, vs_enabled = um_enabled h\<rparr>"

definition switch_mode :: "ums_mode \<Rightarrow> ums_handle \<Rightarrow> (usb_error, bool) result \<times> ums_handle" where
  "switch_mode m h =
     (if \<not> um_enabled h then (Inl (DeviceNotEnabled UMS_VM_INQUIRY_STRING), h)
      else if um_file_path h \<noteq> None
      then (Inl (ChangeRejected (UMS_VM_INQUIRY_STRING @ '' is busy'')), h)
      else if um_updating h then (Inl (ChangeRejected UPDATING_MSG), h)
      else if um_mode h = m then (Inr False, h)
      else (Inr True, h\<lparr>um_mode := m\<rparr>))"

definition mount_ums ::
  "('w, 'x) fs_env_scheme \<Rightarrow> string \<Rightarrow> ums_handle \<times> 'w \<Rightarrow> (usb_error, unit) result \<times> ums_handle \<times> 'w" where
  "mount_ums e image_path s =
     (case s of (h, w) \<Rightarrow>
        if \<not> um_enabled h then (Inl (DeviceNotEnabled UMS_VM_INQUIRY_STRING), h, w)
        else if um_updating h then (Inl (ChangeRejected UPDATING_MSG), h, w)
        else if \<not> fs_exists e image_path w then (Inl (FileNotFound image_path), h, w)
        else case get_lun_file_path e UMS_VM_INQUIRY_STRING (h, w) of
          (Inl err, h1) \<Rightarrow> (Inl err, h1, w)
        | (Inr dev, h1) \<Rightarrow>
            if \<not> fs_exists e dev w then (Inl (DeviceNotFound dev), h1, w)
            else (case um_file_path h1 of
              Some existing \<Rightarrow>
                if existing = image_path then (Inr (), h1, w)
                else (Inl (ChangeRejected (UMS_VM_INQUIRY_STRING @ '' is already mounted'')), h1, w)
            | None \<Rightarrow>
                (case write_file e dev image_path w of
                   (Inl err, w') \<Rightarrow> (Inl err, h1, w')
                 | (Inr _, w') \<Rightarrow> (Inr (), h1\<lparr>um_file_path := Some image_path\<rparr>, w'))))"

definition unmount_ums ::
  "('w, 'x) fs_env_scheme \<Rightarrow> ums_handle \<times> 'w \<Rightarrow> (usb_error, unit) result \<times> ums_handle \<times> 'w" where
  "unmount_ums e s =
     (case s of (h, w) \<Rightarrow>
        if \<not> um_enabled h then (Inr (), h, w)
        else if um_updating h then (Inl (ChangeRejected UPDATING_MSG), h, w)
        else case get_lun_file_path e UMS_VM_INQUIRY_STRING (h, w) of
          (Inl _, h1) \<Rightarrow> (Inr (), h1\<lparr>um_file_path := None\<rparr>, w)
        | (Inr dev, h1) \<Rightarrow>
            if \<not> fs_exists e dev w then (Inr (), h1\<lparr>um_file_path := None\<rparr>, w)
            else (case write_file e dev NEWLINE w of
                (Inl err, w') \<Rightarrow> (Inl err, h1, w')
              | (Inr _, w') \<Rightarrow> (Inr (), h1\<lparr>um_file_path := None\<rparr>, w')))"

text \<open>\<open>{:?}\<close> of an error, as the rejection message shows it.\<close>

fun usb_error_debug :: "usb_error \<Rightarrow> string" where
  "usb_error_debug (InvalidArgument s) = ''InvalidArgument('' @ debug_str s @ '')''"
| "usb_error_debug (UDCError s) = ''UDCError('' @ debug_str s @ '')''"
| "usb_error_debug (GadgetError s) = ''GadgetError('' @ debug_str s @ '')''"
| "usb_error_debug (ChangeRejected s) = ''ChangeRejected('' @ debug_str s @ '')''"
| "usb_error_debug (DeviceNotEnabled s) = ''DeviceNotEnabled('' @ debug_str s @ '')''"
| "usb_error_debug (DeviceNotFound s) = ''DeviceNotFound('' @ debug_str s @ '')''"
| "usb_error_debug (FileNotFound s) = ''FileNotFound('' @ debug_str s @ '')''"
| "usb_error_debug (StrictModeViolation s) = ''StrictModeViolation('' @ debug_str s @ '')''"
| "usb_error_debug (IoError s) = ''IoError('' @ debug_str s @ '')''"
| "usb_error_debug (EndpointBudgetExceeded s) = ''EndpointBudgetExceeded('' @ debug_str s @ '')''"

definition ums_on_change ::
  "('w, 'x) fs_env_scheme \<Rightarrow> change_request \<Rightarrow> ums_handle \<times> 'w \<Rightarrow> (ums_handle \<times> 'w) \<times> change_response" where
  "ums_on_change e req s =
     (case req of
        RequestChange \<Rightarrow> (s, Proceed)
      | PrepareChange \<Rightarrow>
          (case unmount_ums e s of
             (Inr _, h, w) \<Rightarrow> ((h\<lparr>um_updating := True\<rparr>, w), Proceed)
           | (Inl err, h, w) \<Rightarrow> ((h, w), Reject (''failed to unmount: '' @ usb_error_debug err)))
      | _ \<Rightarrow> (case sync_lun_file_path e UMS_VM_INQUIRY_STRING s of
                (h, w) \<Rightarrow> ((h\<lparr>um_updating := False\<rparr>, w), Proceed)))"

subsection \<open>Events\<close>

datatype ums_vm_event = EvSwitchMode ums_mode | EvMount string | EvUnmount | EvGetState

datatype ums_vm_response =
    RsSwitchMode "(usb_error, bool) result"
  | RsMount "(usb_error, unit) result"
  | RsUnmount "(usb_error, unit) result"
  | RsGetState ums_vm_state

fun ums_handle_event ::
  "('w, 'x) fs_env_scheme \<Rightarrow> ums_vm_event \<Rightarrow> ums_handle \<times> 'w \<Rightarrow> ums_vm_response \<times> ums_handle \<times> 'w" where
  "ums_handle_event e (EvSwitchMode m) (h, w) = (case switch_mode m h of (r, h') \<Rightarrow> (RsSwitchMode r, h', w))"
| "ums_handle_event e (EvMount p) s = (case mount_ums e p s of (r, s') \<Rightarrow> (RsMount r, s'))"
| "ums_handle_event e EvUnmount s = (case unmount_ums e s of (r, s') \<Rightarrow> (RsUnmount r, s'))"
| "ums_handle_event e EvGetState (h, w) = (RsGetState (collect_state h), h, w)"

section \<open>File transfer\<close>

type_synonym ums1_handle = ums_core

definition ums1_new :: "bool \<Rightarrow> ums1_handle" where
  "ums1_new enabled = \<lparr>um_enabled = enabled, um_file_path = None, um_lun_file_path = None, um_updating = False\<rparr>"

definition ums1_set_enabled :: "bool \<Rightarrow> ums1_handle \<Rightarrow> ums1_handle" where
  "ums1_set_enabled b h = h\<lparr>um_enabled := b\<rparr>"

definition ums1_is_mounted :: "ums1_handle \<Rightarrow> bool" where
  "ums1_is_mounted h = (um_file_path h \<noteq> None)"

definition mount_ums1 ::
  "('w, 'x) fs_env_scheme \<Rightarrow> string \<Rightarrow> ums1_handle \<times> 'w \<Rightarrow> (usb_error, unit) result \<times> ums1_handle \<times> 'w" where
  "mount_ums1 e image_path s =
     (case s of (h, w) \<Rightarrow>
        if \<not> um_enabled h then (Inl (DeviceNotEnabled UMS_FT_INQUIRY_STRING), h, w)
        else if um_updating h then (Inl (ChangeRejected UPDATING_MSG), h, w)
        else if \<not> fs_exists e image_path w then (Inl (FileNotFound image_path), h, w)
        else case get_lun_file_path e UMS_FT_INQUIRY_STRING (h, w) of
          (Inl err, h1) \<Rightarrow> (Inl err, h1, w)
        | (Inr dev, h1) \<Rightarrow>
            if \<not> fs_exists e dev w then (Inl (DeviceNotFound dev), h1, w)
            else if um_file_path h1 \<noteq> None
            then (Inl (ChangeRejected (UMS_FT_INQUIRY_STRING @ '' is busy'')), h1, w)
            else (case write_file e dev image_path w of
                (Inl err, w') \<Rightarrow> (Inl err, h1, w')
              | (Inr _, w') \<Rightarrow> (Inr (), h1\<lparr>um_file_path := Some image_path\<rparr>, w')))"

definition unmount_ums1 ::
  "('w, 'x) fs_env_scheme \<Rightarrow> ums1_handle \<times> 'w \<Rightarrow> (usb_error, unit) result \<times> ums1_handle \<times> 'w" where
  "unmount_ums1 e s =
     (case s of (h, w) \<Rightarrow>
        if \<not> um_enabled h then (Inl (DeviceNotEnabled UMS_FT_INQUIRY_STRING), h, w)
        else if um_updating h then (Inl (ChangeRejected UPDATING_MSG), h, w)
        else case get_lun_file_path e UMS_FT_INQUIRY_STRING (h, w) of
          (Inl err, h1) \<Rightarrow> (Inl err, h1, w)
        | (Inr dev, h1) \<Rightarrow>
            if \<not> fs_exists e dev w then (Inl (DeviceNotFound dev), h1, w)
            else (case write_file e dev NEWLINE w of
                (Inl err, w') \<Rightarrow> (Inl err, h1, w')
              | (Inr _, w') \<Rightarrow> (Inr (), h1\<lparr>um_file_path := None\<rparr>, w')))"

definition ums1_on_change ::
  "('w, 'x) fs_env_scheme \<Rightarrow> change_request \<Rightarrow> ums1_handle \<times> 'w \<Rightarrow> (ums1_handle \<times> 'w) \<times> change_response" where
  "ums1_on_change e req s =
     (case req of
        RequestChange \<Rightarrow> (s, Proceed)
      | PrepareChange \<Rightarrow>
          (case unmount_ums1 e s of
             (Inr _, h, w) \<Rightarrow> ((h\<lparr>um_updating := True\<rparr>, w), Proceed)
           | (Inl (DeviceNotEnabled _), h, w) \<Rightarrow> ((h\<lparr>um_updating := True\<rparr>, w), Proceed)
           | (Inl (DeviceNotFound _), h, w) \<Rightarrow> ((h\<lparr>um_updating := True\<rparr>, w), Proceed)
           | (Inl err, h, w) \<Rightarrow> ((h, w), Reject (''failed to unmount: '' @ usb_error_debug err)))
      | _ \<Rightarrow> (case sync_lun_file_path e UMS_FT_INQUIRY_STRING s of
                (h, w) \<Rightarrow> ((h\<lparr>um_updating := False\<rparr>, w), Proceed)))"

datatype ums_ft_event = FtMount string | FtUnmount

datatype ums_ft_response =
    FtRsMount "(usb_error, unit) result"
  | FtRsUnmount "(usb_error, unit) result"

fun ums1_handle_event ::
  "('w, 'x) fs_env_scheme \<Rightarrow> ums_ft_event \<Rightarrow> ums1_handle \<times> 'w \<Rightarrow> ums_ft_response \<times> ums1_handle \<times> 'w" where
  "ums1_handle_event e (FtMount p) s = (case mount_ums1 e p s of (r, s') \<Rightarrow> (FtRsMount r, s'))"
| "ums1_handle_event e FtUnmount s = (case unmount_ums1 e s of (r, s') \<Rightarrow> (FtRsUnmount r, s'))"

section \<open>Contract\<close>

lemma sync_lun_updating [simp]: "um_updating (fst (sync_lun_file_path e q s)) = um_updating (fst s)"
  by (auto simp: sync_lun_file_path_def split: prod.splits sum.splits)

interpretation ums_handler: change_handler "ums_on_change e" "\<lambda>s. um_updating (fst s)" for e :: "('w, 'x) fs_env_scheme"
  by unfold_locales (auto simp: ums_on_change_def split: prod.splits sum.splits)

interpretation ums1_handler: change_handler "ums1_on_change e" "\<lambda>s. um_updating (fst s)" for e :: "('w, 'x) fs_env_scheme"
  by unfold_locales (auto simp: ums1_on_change_def split: prod.splits sum.splits usb_error.splits)


section \<open>Properties\<close>

lemma get_lun_keeps:
  "get_lun_file_path e q (h, w) = (r, h') \<Longrightarrow>
   um_file_path h' = um_file_path h \<and> um_enabled h' = um_enabled h \<and> um_updating h' = um_updating h"
  by (auto simp: get_lun_file_path_def split: option.splits sum.splits)

lemma mount_ums_cases:
  assumes "mount_ums e p (h, w) = (r, h', w')"
  shows "(is_ok r \<longrightarrow> um_file_path h' = Some p \<and> um_enabled h \<and> \<not> um_updating h \<and> um_file_path h \<in> {None, Some p}
         \<and> (um_file_path h = Some p \<longrightarrow> w' = w))
    \<and> (\<not> is_ok r \<longrightarrow> um_file_path h' = um_file_path h)
    \<and> (\<not> um_enabled h \<or> um_updating h \<longrightarrow> \<not> is_ok r \<and> h' = h \<and> w' = w)"
proof (cases "um_enabled h \<and> \<not> um_updating h \<and> fs_exists e p w")
  case True
  obtain g h1 where g: "get_lun_file_path e UMS_VM_INQUIRY_STRING (h, w) = (g, h1)" by fastforce
  note k = get_lun_keeps [OF g]
  show ?thesis
  proof (cases g)
    case (Inl err)
    with True g k assms show ?thesis by (auto simp: mount_ums_def)
  next
    case (Inr dev)
    obtain x w1 where x: "write_file e dev p w = (x, w1)" by fastforce
    from True g k assms Inr x show ?thesis
      by (cases x) (auto simp: mount_ums_def split: if_splits option.splits)
  qed
qed (use assms in \<open>auto simp: mount_ums_def split: if_splits\<close>)

lemma mount_ums1_cases:
  assumes "mount_ums1 e p (h, w) = (r, h', w')"
  shows "(is_ok r \<longrightarrow> um_file_path h' = Some p \<and> um_enabled h \<and> \<not> um_updating h \<and> um_file_path h = None)
    \<and> (\<not> is_ok r \<longrightarrow> um_file_path h' = um_file_path h)
    \<and> (\<not> um_enabled h \<or> um_updating h \<longrightarrow> \<not> is_ok r \<and> h' = h \<and> w' = w)"
proof (cases "um_enabled h \<and> \<not> um_updating h \<and> fs_exists e p w")
  case True
  obtain g h1 where g: "get_lun_file_path e UMS_FT_INQUIRY_STRING (h, w) = (g, h1)" by fastforce
  note k = get_lun_keeps [OF g]
  show ?thesis
  proof (cases g)
    case (Inl err)
    with True g k assms show ?thesis by (auto simp: mount_ums1_def)
  next
    case (Inr dev)
    obtain x w1 where x: "write_file e dev p w = (x, w1)" by fastforce
    from True g k assms Inr x show ?thesis
      by (cases x) (auto simp: mount_ums1_def split: if_splits)
  qed
qed (use assms in \<open>auto simp: mount_ums1_def split: if_splits\<close>)

text \<open>
  Mounting a medium. On either mass-storage function a mount that succeeds leaves exactly the
  requested image mounted, and it succeeds only on an enabled function that is not being changed
  and has nothing else mounted; mounting the image that is already mounted is a success without a
  second write on the virtual medium and an error on the transfer drive. A mount that fails leaves
  what was mounted as it was, and an attempt on a disabled or changing function touches nothing.
\<close>

theorem mount_medium:
  "(case mount_ums e p (h, w) of (r, h', w') \<Rightarrow>
      (is_ok r \<longrightarrow> um_file_path h' = Some p \<and> um_enabled h \<and> \<not> um_updating h \<and> um_file_path h \<in> {None, Some p}
         \<and> (um_file_path h = Some p \<longrightarrow> w' = w))
    \<and> (\<not> is_ok r \<longrightarrow> um_file_path h' = um_file_path h)
    \<and> (\<not> um_enabled h \<or> um_updating h \<longrightarrow> \<not> is_ok r \<and> h' = h \<and> w' = w))
   \<and> (case mount_ums1 e p (h1, w) of (r, h', w') \<Rightarrow>
      (is_ok r \<longrightarrow> um_file_path h' = Some p \<and> um_enabled h1 \<and> \<not> um_updating h1 \<and> um_file_path h1 = None)
    \<and> (\<not> is_ok r \<longrightarrow> um_file_path h' = um_file_path h1)
    \<and> (\<not> um_enabled h1 \<or> um_updating h1 \<longrightarrow> \<not> is_ok r \<and> h' = h1 \<and> w' = w))"
proof -
  obtain r a b where m: "mount_ums e p (h, w) = (r, a, b)" by (cases "mount_ums e p (h, w)")
  obtain q c d where n: "mount_ums1 e p (h1, w) = (q, c, d)" by (cases "mount_ums1 e p (h1, w)")
  from mount_ums_cases [OF m] mount_ums1_cases [OF n] m n show ?thesis by simp
qed

theorem mount_medium_witness:
  "let e = \<lparr>fs_functions = (\<lambda>_. None), fs_exists = (\<lambda>_ _. True), fs_write = (\<lambda>p d w. (WOk, w + 1))\<rparr>;
       h = (ums_new CdRom True)\<lparr>um_lun_file_path := Some ''/lun''\<rparr>
   in um_file_path (fst (snd (mount_ums e ''a.iso'' (h, 0 :: nat)))) = Some ''a.iso''"
proof -
  let ?e = "\<lparr>fs_functions = (\<lambda>_. None), fs_exists = (\<lambda>_ _. True), fs_write = (\<lambda>p d w. (WOk, w + (1 :: nat)))\<rparr>"
  let ?h = "(ums_new CdRom True)\<lparr>um_lun_file_path := Some ''/lun''\<rparr>"
  have "fst (mount_ums ?e ''a.iso'' (?h, 0)) = Inr ()"
    by (simp add: mount_ums_def ums_new_def get_lun_file_path_def write_file_def)
  with mount_medium [where e = ?e and p = "''a.iso''" and h = ?h and w = 0] show ?thesis by (simp add: split_beta)
qed

lemma ums_event_frozen:
  "um_updating h \<Longrightarrow> snd (ums_handle_event e ev (h, w)) = (h, w)"
  by (cases ev) (auto simp: switch_mode_def mount_ums_def unmount_ums_def split: prod.splits)

lemma ums_events_frozen:
  "um_updating h \<Longrightarrow> fold (\<lambda>ev s. snd (ums_handle_event e ev s)) evs (h, w) = (h, w)"
  by (induction evs) (simp_all add: ums_event_frozen)

lemma ums1_events_frozen:
  assumes "um_updating h"
  shows "fold (\<lambda>ev s. snd (ums1_handle_event e ev s)) evs (h, w) = (h, w)"
proof (induction evs)
  case (Cons ev evs)
  have "snd (ums1_handle_event e ev (h, w)) = (h, w)"
    using assms by (cases ev) (auto simp: mount_ums1_def unmount_ums1_def)
  with Cons show ?case by simp
qed simp

lemma ums_prepare_released:
  "ums_on_change e PrepareChange (h, w) = ((h', w'), Proceed) \<Longrightarrow>
   um_updating h' \<and> (um_enabled h \<longrightarrow> um_file_path h' = None)"
  by (auto simp: ums_on_change_def unmount_ums_def split: prod.splits sum.splits if_splits)

lemma ums1_prepare_updating:
  "ums1_on_change e PrepareChange (h, w) = ((h', w'), Proceed) \<Longrightarrow> um_updating h'"
  by (auto simp: ums1_on_change_def split: prod.splits sum.splits usb_error.splits)

text \<open>
  A medium is released before the gadget goes, and stays released. When a mass-storage handle
  that is enabled agrees to a change of the gadget, its medium is unmounted; and until the change
  ends, every sequence of mode, mount, unmount and state requests leaves handle and world exactly
  as they are.
\<close>

theorem medium_frozen_during_change:
  assumes "ums_on_change e PrepareChange (h, w) = ((h', w'), Proceed)"
    and "ums1_on_change e PrepareChange (k, v) = ((k', v'), Proceed)"
  shows "(um_enabled h \<longrightarrow> um_file_path h' = None)
    \<and> fold (\<lambda>ev s. snd (ums_handle_event e ev s)) evs (h', w') = (h', w')
    \<and> fold (\<lambda>ev s. snd (ums1_handle_event e ev s)) evs1 (k', v') = (k', v')"
  using ums_prepare_released [OF assms(1)] ums1_prepare_updating [OF assms(2)]
  by (simp add: ums_events_frozen ums1_events_frozen)

theorem medium_frozen_during_change_witness:
  "let e = \<lparr>fs_functions = (\<lambda>_. None), fs_exists = (\<lambda>_ _. True), fs_write = (\<lambda>p d w. (WOk, w + 1))\<rparr>;
       h = (ums_new CdRom True)\<lparr>um_lun_file_path := Some ''/lun'', um_file_path := Some ''a.iso''\<rparr>;
       s = fst (ums_on_change e PrepareChange (h, 0 :: nat))
   in um_file_path (fst s) = None \<and> snd (ums_handle_event e (EvMount ''b.iso'') s) = s"
proof -
  let ?e = "\<lparr>fs_functions = (\<lambda>_. None), fs_exists = (\<lambda>_ _. True), fs_write = (\<lambda>p d w. (WOk, w + (1 :: nat)))\<rparr>"
  let ?h = "(ums_new CdRom True)\<lparr>um_lun_file_path := Some ''/lun'', um_file_path := Some ''a.iso''\<rparr>"
  obtain h' w' where p: "ums_on_change ?e PrepareChange (?h, 0) = ((h', w'), Proceed)"
    by (simp add: ums_on_change_def unmount_ums_def ums_new_def get_lun_file_path_def write_file_def)
  obtain k' v' where q: "ums1_on_change ?e PrepareChange (ums1_new False, 0) = ((k', v'), Proceed)"
    by (simp add: ums1_on_change_def unmount_ums1_def ums1_new_def)
  from medium_frozen_during_change [OF p q, of "[EvMount ''b.iso'']" "[]"] p show ?thesis
    by (simp add: ums_new_def)
qed

text \<open>
  The virtual medium changes its mode only when idle. A request for a mode succeeds only on an
  enabled, idle function with nothing mounted; it reports that the gadget must be rebuilt exactly
  if the mode differs, and then the new mode is already the one in effect for later requests.
\<close>

theorem switch_mode_cases:
  "case switch_mode m h of (r, h') \<Rightarrow>
     (is_ok r \<longleftrightarrow> um_enabled h \<and> um_file_path h = None \<and> \<not> um_updating h)
   \<and> (is_ok r \<longrightarrow> um_mode h' = m \<and> (r = Inr True \<longleftrightarrow> um_mode h \<noteq> m) \<and> switch_mode m h' = (Inr False, h'))
   \<and> (\<not> is_ok r \<longrightarrow> h' = h)"
  by (auto simp: switch_mode_def)

theorem switch_mode_cases_witness:
  "switch_mode Disk (ums_new CdRom True) = (Inr True, ums_new Disk True)"
  using switch_mode_cases [where m = Disk and h = "ums_new CdRom True"]
  by (simp add: switch_mode_def ums_new_def)

end
