(* ===== verification/Uac_Device.thy ===== *)
theory Uac_Device
  imports Usb_Config
begin

text \<open>
  The virtual microphone, \<^verbatim>\<open>devices/uac.rs\<close>: a handle with two switches, a worker thread that owns
  the \<open>arkkvm_mic\<close> process and restarts it when it dies, and the channel on which the worker
  reports whether the process runs. What the operating system answers (whether the program can be
  started, whether it has exited) is an argument. The worker takes one command at a time and its
  caller waits for the acknowledgement, so a command is one step; \<open>ack_ok\<close> says whether the
  acknowledgement came within the five seconds the caller waits.
\<close>

section \<open>The process\<close>

record mic_daemon =
  md_child :: bool
  md_running :: bool
  md_shutdown :: bool
  md_notified :: "bool list"

definition mic_new :: mic_daemon where
  "mic_new = \<lparr>md_child = False, md_running = False, md_shutdown = True, md_notified = []\<rparr>"

definition notify_running :: "bool \<Rightarrow> mic_daemon \<Rightarrow> mic_daemon" where
  "notify_running b d = d\<lparr>md_notified := md_notified d @ [b]\<rparr>"

definition mic_start :: "bool \<Rightarrow> mic_daemon \<Rightarrow> mic_daemon" where
  "mic_start spawn_ok d =
     (let d1 = d\<lparr>md_shutdown := False\<rparr> in
      if md_running d1 then d1
      else if spawn_ok then notify_running True (d1\<lparr>md_child := True, md_running := True\<rparr>)
      else notify_running False d1)"

definition mic_stop :: "mic_daemon \<Rightarrow> mic_daemon" where
  "mic_stop d = notify_running False (d\<lparr>md_shutdown := True, md_child := False, md_running := False\<rparr>)"

datatype wait_outcome = Exited | StillRunning | WaitError

definition mic_tick :: "wait_outcome \<Rightarrow> bool \<Rightarrow> mic_daemon \<Rightarrow> mic_daemon" where
  "mic_tick wait spawn_ok d =
     (if md_shutdown d then d
      else let exited = (md_child d \<and> wait \<noteq> StillRunning);
               running = (md_child d \<and> wait = StillRunning);
               d1 = d\<lparr>md_child := running, md_running := running\<rparr>;
               d2 = (if exited then notify_running False d1 else d1)
           in if running \<or> md_shutdown d2 then d2 else mic_start spawn_ok d2)"

section \<open>Worker and handle\<close>

datatype uac_cmd = UacStop | UacSync bool bool

fun uac_worker_cmd :: "bool \<Rightarrow> uac_cmd \<Rightarrow> mic_daemon \<Rightarrow> mic_daemon" where
  "uac_worker_cmd spawn_ok UacStop d = mic_stop d"
| "uac_worker_cmd spawn_ok (UacSync device_enabled process_enabled) d =
     (if device_enabled \<and> process_enabled then mic_start spawn_ok d else mic_stop d)"

datatype worker_event = WorkerCmd uac_cmd bool | WorkerPoll wait_outcome bool | WorkerClosed

fun uac_worker_step :: "worker_event \<Rightarrow> mic_daemon \<Rightarrow> mic_daemon" where
  "uac_worker_step (WorkerCmd c spawn_ok) d = uac_worker_cmd spawn_ok c d"
| "uac_worker_step (WorkerPoll wait spawn_ok) d = mic_tick wait spawn_ok d"
| "uac_worker_step WorkerClosed d = mic_stop d"

record uac_handle =
  ua_enabled :: bool
  ua_process_enabled :: bool
  ua_updating :: bool
  ua_daemon :: mic_daemon

definition uac_new :: "bool \<Rightarrow> bool \<Rightarrow> uac_handle" where
  "uac_new device_enabled process_enabled =
     \<lparr>ua_enabled = device_enabled, ua_process_enabled = process_enabled, ua_updating = False, ua_daemon = mic_new\<rparr>"

definition uac_is_process_running :: "uac_handle \<Rightarrow> bool" where
  "uac_is_process_running h = md_running (ua_daemon h)"

definition uac_set_enabled :: "bool \<Rightarrow> uac_handle \<Rightarrow> uac_handle" where
  "uac_set_enabled b h = h\<lparr>ua_enabled := b\<rparr>"

definition uac_set_process_enabled :: "bool \<Rightarrow> uac_handle \<Rightarrow> uac_handle" where
  "uac_set_process_enabled b h = h\<lparr>ua_process_enabled := b\<rparr>"

definition uac_ack :: "string \<Rightarrow> bool \<Rightarrow> (usb_error, unit) result" where
  "uac_ack what ack_ok =
     (if ack_ok then Inr () else Inl (GadgetError (''uac '' @ what @ '' ack timeout: timed out waiting on channel'')))"

definition sync_process_state :: "bool \<Rightarrow> bool \<Rightarrow> uac_handle \<Rightarrow> (usb_error, unit) result \<times> uac_handle" where
  "sync_process_state spawn_ok ack_ok h =
     (uac_ack ''sync'' ack_ok,
      h\<lparr>ua_daemon := uac_worker_cmd spawn_ok (UacSync (ua_enabled h) (ua_process_enabled h)) (ua_daemon h)\<rparr>)"

definition stop_process :: "bool \<Rightarrow> uac_handle \<Rightarrow> (usb_error, unit) result \<times> uac_handle" where
  "stop_process ack_ok h =
     (uac_ack ''stop'' ack_ok, h\<lparr>ua_daemon := uac_worker_cmd False UacStop (ua_daemon h)\<rparr>)"

definition uac_on_change ::
  "bool \<Rightarrow> bool \<Rightarrow> change_request \<Rightarrow> uac_handle \<Rightarrow> uac_handle \<times> change_response" where
  "uac_on_change spawn_ok ack_ok req h =
     (case req of
        RequestChange \<Rightarrow> (h\<lparr>ua_updating := True\<rparr>, Proceed)
      | PrepareChange \<Rightarrow> (snd (stop_process ack_ok h), Proceed)
      | ChangeCompleted \<Rightarrow> ((snd (sync_process_state spawn_ok ack_ok h))\<lparr>ua_updating := False\<rparr>, Proceed)
      | ChangeCanceled \<Rightarrow> ((snd (sync_process_state spawn_ok ack_ok h))\<lparr>ua_updating := False\<rparr>, Proceed))"

interpretation uac_handler: change_handler "uac_on_change spawn_ok ack_ok" ua_updating for spawn_ok ack_ok
  by unfold_locales (simp_all add: uac_on_change_def stop_process_def sync_process_state_def)

section \<open>Invariant and properties\<close>

definition mic_ok :: "mic_daemon \<Rightarrow> bool" where
  "mic_ok d = ((md_running d \<longleftrightarrow> md_child d) \<and> (md_shutdown d \<longrightarrow> \<not> md_running d)
     \<and> (if md_notified d = [] then \<not> md_running d else last (md_notified d) = md_running d))"

lemma mic_ok_new: "mic_ok mic_new"
  by (simp add: mic_ok_def mic_new_def)

lemma mic_ok_start [inv_intros]: "mic_ok d \<Longrightarrow> mic_ok (mic_start ok d)"
  by (auto simp: mic_ok_def mic_start_def notify_running_def Let_def)

lemma mic_ok_stop [inv_intros]: "mic_ok (mic_stop d)"
  by (simp add: mic_ok_def mic_stop_def notify_running_def)

lemma mic_ok_tick [inv_intros]:
  assumes "mic_ok d"
  shows "mic_ok (mic_tick wait ok d)"
proof -
  have "mic_ok (d\<lparr>md_child := True, md_running := True\<rparr>)" if "md_child d" "\<not> md_shutdown d"
    using assms that by (auto simp: mic_ok_def)
  moreover have "mic_ok (notify_running False (d\<lparr>md_child := False, md_running := False\<rparr>))"
    by (simp add: mic_ok_def notify_running_def)
  moreover have "mic_ok (d\<lparr>md_child := False, md_running := False\<rparr>)" if "\<not> md_child d"
    using assms that by (auto simp: mic_ok_def)
  ultimately show ?thesis using assms
    by (cases "md_child d"; cases wait) (auto simp: mic_tick_def Let_def intro: mic_ok_start)
qed

lemma mic_ok_step: "mic_ok d \<Longrightarrow> mic_ok (uac_worker_step ev d)"
proof (cases ev)
  case (WorkerCmd c ok)
  then show "mic_ok d \<Longrightarrow> ?thesis" by (cases c) (auto intro: inv_intros)
qed (auto intro: inv_intros)

lemma mic_ok_run: "mic_ok d \<Longrightarrow> mic_ok (fold uac_worker_step evs d)"
  by (induction evs arbitrary: d) (auto intro: mic_ok_step)

text \<open>
  What is reported about the microphone is so. In every history of the worker (commands,
  polls with any answer of the system, the channel closing), the flag it shows is whether it owns a
  process, a shut-down worker owns none, and the last state it published, if any, is the flag.
\<close>

theorem mic_state_published:
  "let d = fold uac_worker_step evs mic_new in
     (md_running d \<longleftrightarrow> md_child d) \<and> (md_shutdown d \<longrightarrow> \<not> md_running d)
   \<and> (md_notified d = [] \<or> last (md_notified d) = md_running d)"
  using mic_ok_run [OF mic_ok_new, of evs] by (auto simp: mic_ok_def Let_def split: if_splits)

lemma mic_ticks_shutdown: "md_shutdown d \<Longrightarrow> fold (\<lambda>(x, ok). mic_tick x ok) ps d = d"
  by (induction ps) (auto simp: mic_tick_def)

text \<open>
  The microphone follows its switches and stays off during a change. After a synchronisation
  the process runs if and only if both switches are on and the program could be started or was
  running; a process that died is restarted by the next poll; and after the handle has agreed to a
  change, no number of polls starts the process before the change ends.
\<close>

theorem mic_follows_switches:
  assumes "ua_daemon h = fold uac_worker_step evs mic_new"
  shows "(uac_is_process_running (snd (sync_process_state spawn_ok ack_ok h)) \<longleftrightarrow>
        ua_enabled h \<and> ua_process_enabled h \<and> (spawn_ok \<or> uac_is_process_running h))
    \<and> (\<not> md_shutdown (ua_daemon h) \<longrightarrow> md_running (mic_tick wait True (ua_daemon h)))
    \<and> (let h2 = fst (uac_on_change spawn_ok ack_ok PrepareChange (fst (uac_on_change spawn_ok ack_ok RequestChange h)))
       in ua_updating h2 \<and> \<not> md_running (fold (\<lambda>(x, ok). mic_tick x ok) ps (ua_daemon h2)))"
proof -
  have ok: "mic_ok (ua_daemon h)" using mic_ok_run [OF mic_ok_new] assms by simp
  have "md_running (mic_tick wait True (ua_daemon h))" if "\<not> md_shutdown (ua_daemon h)"
    using that by (cases wait) (auto simp: mic_tick_def mic_start_def notify_running_def Let_def)
  moreover have "\<not> md_running (fold (\<lambda>(x, ok). mic_tick x ok) ps (mic_stop d))" for d
    by (simp add: mic_ticks_shutdown mic_stop_def notify_running_def)
  ultimately show ?thesis
    using ok
    by (auto simp: uac_is_process_running_def sync_process_state_def mic_start_def mic_stop_def
        notify_running_def uac_on_change_def stop_process_def Let_def mic_ok_def)
qed

theorem mic_follows_switches_witness:
  "uac_is_process_running (snd (sync_process_state True True (uac_new True True)))"
  using mic_follows_switches [of "uac_new True True" "[]" True True StillRunning "[]"]
  by (simp add: uac_new_def)

theorem mic_state_published_witness:
  "md_shutdown (fold uac_worker_step [WorkerCmd (UacSync True True) True, WorkerPoll Exited True, WorkerClosed] mic_new)
   \<and> \<not> md_running (fold uac_worker_step [WorkerCmd (UacSync True True) True, WorkerPoll Exited True, WorkerClosed] mic_new)"
  using mic_state_published [of "[WorkerCmd (UacSync True True) True, WorkerPoll Exited True, WorkerClosed]"]
  by (simp add: Let_def mic_stop_def notify_running_def)

end
