(* ===== verification/Net_Adapter.thy ===== *)
theory Net_Adapter
  imports Usb_Config
begin

text \<open>
  The USB network adapter of the sidecar: \<^verbatim>\<open>devices/network/adapter_l3.rs\<close> (addresses and masks,
  board addressing), \<^verbatim>\<open>network/dhcp.rs\<close> (the address pool, the lease file, choice of the host's
  lease) and \<^verbatim>\<open>network/mod.rs\<close> (the handle). Addresses are 32-bit words, network byte order first.
  Processes the handle runs (\<open>ip\<close>, the udhcpd script) act on a world \<open>'w\<close> through \<open>net_env\<close>.
\<close>

unbundle bit_operations_syntax

section \<open>Addresses\<close>

text \<open>
  \<open>Ipv4Addr\<close> from a string: four decimal octets of one to three digits, without leading zeros,
  without anything else; and its \<open>Display\<close>.
\<close>

definition parse_octet :: "string \<Rightarrow> nat option" where
  "parse_octet s =
     (if s = [] \<or> length s > 3 \<or> \<not> list_all is_digit s \<or> (length s > 1 \<and> hd s = CHR ''0'') then None
      else if dec_value s < 256 then Some (dec_value s) else None)"

definition octets_to_u32 :: "nat list \<Rightarrow> u32" where
  "octets_to_u32 ns = word_of_nat (foldl (\<lambda>a n. a * 256 + n) 0 ns)"

fun sequence_opt :: "'a option list \<Rightarrow> 'a list option" where
  "sequence_opt [] = Some []"
| "sequence_opt (x # xs) =
     (case x of None \<Rightarrow> None | Some a \<Rightarrow> map_option ((#) a) (sequence_opt xs))"

definition ipv4_parse :: "string \<Rightarrow> u32 option" where
  "ipv4_parse s =
     (let ps = split_on CHR ''.'' s in
      if length ps \<noteq> 4 then None else map_option octets_to_u32 (sequence_opt (map parse_octet ps)))"

definition u32_octet :: "u32 \<Rightarrow> nat \<Rightarrow> nat" where
  "u32_octet a k = (unat a div 256 ^ k) mod 256"

definition ipv4_to_string :: "u32 \<Rightarrow> string" where
  "ipv4_to_string a = nat_to_dec (u32_octet a 3) @ ''.'' @ nat_to_dec (u32_octet a 2) @ ''.''
     @ nat_to_dec (u32_octet a 1) @ ''.'' @ nat_to_dec (u32_octet a 0)"

definition count_ones :: "u32 \<Rightarrow> nat" where
  "count_ones a = length (filter (bit a) [0..<32])"

definition ipv4_mask_to_prefix :: "string \<Rightarrow> (string, nat) result" where
  "ipv4_mask_to_prefix m =
     (let ps = split_on CHR ''.'' (trim m) in
      if length ps \<noteq> 4 then Inl ''expected a.b.c.d''
      else case sequence_opt (map parse_u8 ps) of
             None \<Rightarrow> Inl ''octet''
           | Some ns \<Rightarrow>
               let n = octets_to_u32 ns; ones = count_ones n in
               if ones > 0 \<and> n \<noteq> push_bit (32 - ones) (- 1) then Inl ''non-contiguous mask''
               else Inr ones)"

section \<open>Address pool\<close>

record dhcp_pool =
  pool_start :: string
  pool_end :: string

definition derive_pool_u32 :: "u32 \<Rightarrow> u32 \<Rightarrow> (string, u32 \<times> u32) result" where
  "derive_pool_u32 ip msk =
     (let network = ip AND msk;
          broadcast = network OR NOT msk;
          start0 = network + 100;
          end0 = network + 200;
          start1 = (if start0 \<le> network then network + 1 else start0);
          end1 = (if end0 \<ge> broadcast then sat_sub_u32 broadcast 1 else end0)
      in if start1 > end1 then Inl ''subnet too small for DHCP pool''
         else if ip \<ge> start1 \<and> ip \<le> end1
         then let start2 = (if ip = start1 then ip + 1 else start1);
                  end2 = (if ip \<noteq> start1 \<and> ip = end1 then ip - 1 else end1)
              in if start2 > end2 then Inl ''DHCP pool empty after excluding board IP''
                 else Inr (start2, end2)
         else Inr (start1, end1))"

definition derive_dhcp_pool :: "string \<Rightarrow> string \<Rightarrow> (string, dhcp_pool) result" where
  "derive_dhcp_pool ip_address subnet_mask =
     (case ipv4_parse ip_address of
        None \<Rightarrow> Inl (''invalid ip_address '' @ debug_str ip_address)
      | Some ip \<Rightarrow>
          (case ipv4_parse subnet_mask of
             None \<Rightarrow> Inl (''invalid subnet_mask '' @ debug_str subnet_mask)
           | Some m \<Rightarrow>
               (case derive_pool_u32 ip m of
                  Inl err \<Rightarrow> Inl err
                | Inr (s, t) \<Rightarrow> Inr \<lparr>pool_start = ipv4_to_string s, pool_end = ipv4_to_string t\<rparr>)))"

section \<open>The lease file\<close>

record dhcp_lease_entry =
  dl_ip :: u32
  dl_mac :: "u8 list"
  dl_hostname :: string
  dl_expires_in_secs :: u32

definition DYN_LEASE_SIZE :: nat where "DYN_LEASE_SIZE = 36"

definition LEASE_FILE_HEADER_LEN :: nat where "LEASE_FILE_HEADER_LEN = 8"

definition be_u32 :: "u8 list \<Rightarrow> u32" where
  "be_u32 bs = word_of_nat (be_bytes bs)"

definition lease_records_slice :: "u8 list \<Rightarrow> u8 list" where
  "lease_records_slice data =
     (if length data \<ge> LEASE_FILE_HEADER_LEN
      then let with_header = ((length data - LEASE_FILE_HEADER_LEN) mod DYN_LEASE_SIZE = 0);
               without_header = (length data mod DYN_LEASE_SIZE = 0)
           in if with_header \<and> \<not> without_header then drop LEASE_FILE_HEADER_LEN data
              else if with_header
              then let ts = be_bytes (take 8 data) in
                   if 1000000000 \<le> ts \<and> ts < 4102444800 then drop LEASE_FILE_HEADER_LEN data else data
              else data
      else data)"

definition parse_lease_record :: "u8 list \<Rightarrow> dhcp_lease_entry option" where
  "parse_lease_record r =
     (let expires = be_u32 (take 4 r);
          nip = be_u32 (take 4 (drop 4 r));
          mac = take 6 (drop 8 r);
          hostname_bytes = take 20 (drop 14 r);
          hostname = trim (bytes_to_string (utf8_lossy (takeWhile (\<lambda>b. b \<noteq> 0) hostname_bytes)))
      in if nip = 0 then None
         else if list_all (\<lambda>b. b = 0) mac then None
         else if expires = 0 then None
         else Some \<lparr>dl_ip = nip, dl_mac = mac, dl_hostname = hostname, dl_expires_in_secs = expires\<rparr>)"

function parse_lease_records :: "u8 list \<Rightarrow> dhcp_lease_entry list" where
  "parse_lease_records body =
     (if length body < DYN_LEASE_SIZE then []
      else (case parse_lease_record (take DYN_LEASE_SIZE body) of None \<Rightarrow> [] | Some l \<Rightarrow> [l])
           @ parse_lease_records (drop DYN_LEASE_SIZE body))"
  by pat_completeness auto

termination
  by (relation "measure length") (auto simp: DYN_LEASE_SIZE_def)

declare parse_lease_records.simps [simp del]

definition parse_lease_file :: "u8 list \<Rightarrow> dhcp_lease_entry list" where
  "parse_lease_file data = parse_lease_records (lease_records_slice data)"

definition hex_char :: "nat \<Rightarrow> char" where
  "hex_char n = (if n < 10 then char_of (48 + n) else char_of (87 + n))"

definition hex2 :: "u8 \<Rightarrow> string" where
  "hex2 b = [hex_char (unat b div 16), hex_char (unat b mod 16)]"

definition mac_string :: "dhcp_lease_entry \<Rightarrow> string" where
  "mac_string l = (case map hex2 (dl_mac l) of [] \<Rightarrow> [] | h # hs \<Rightarrow> h @ concat (map (\<lambda>x. '':'' @ x) hs))"

definition select_controlled_host_lease :: "dhcp_lease_entry list \<Rightarrow> dhcp_lease_entry option" where
  "select_controlled_host_lease leases =
     (case leases of
        [] \<Rightarrow> None
      | [l] \<Rightarrow> Some l
      | _ \<Rightarrow> let max_rem = Max (set (map dl_expires_in_secs leases))
             in find (\<lambda>l. dl_expires_in_secs l = max_rem) leases)"

definition read_active_leases :: "(string, u8 list) result option \<Rightarrow> (string, dhcp_lease_entry list) result" where
  "read_active_leases file =
     (case file of
        None \<Rightarrow> Inr []
      | Some (Inl e) \<Rightarrow> Inl (''read /var/lib/misc/arkkvm-network-adapter-udhcpd.leases: '' @ e)
      | Some (Inr data) \<Rightarrow> Inr (parse_lease_file data))"

definition resolve_controlled_host_ip :: "(string, u8 list) result option \<Rightarrow> (string, u32 option) result" where
  "resolve_controlled_host_ip file =
     bind_res (read_active_leases file) (\<lambda>ls. Inr (map_option dl_ip (select_controlled_host_lease ls)))"

section \<open>Board addressing\<close>

record adapter_l3_settings =
  l3_ip_address :: string
  l3_subnet_mask :: string
  l3_gateway :: "string option"
  l3_dns_servers :: "string list"

text \<open>\<open>NetworkAdapterL3\<close> of the wire protocol has the same fields.\<close>

definition from_network_adapter_l3 :: "adapter_l3_settings \<Rightarrow> adapter_l3_settings" where
  "from_network_adapter_l3 c =
     c\<lparr>l3_gateway := (case l3_gateway c of None \<Rightarrow> None | Some g \<Rightarrow> if g = [] then None else Some g)\<rparr>"

text \<open>
  What the handle asks of the system: run a program with arguments and environment variables
  (\<open>Inl\<close>: it could not be executed), whether the udhcpd script is installed, the interface name
  of a registered network function, and the passing of a polling interval.
\<close>

record proc_output =
  po_success :: bool
  po_code :: "nat option"
  po_stdout :: "u8 list"
  po_stderr :: "u8 list"

record 'w net_env =
  run_process :: "string \<Rightarrow> string list \<Rightarrow> (string \<times> string) list \<Rightarrow> 'w \<Rightarrow> (string, proc_output) result \<times> 'w"
  script_is_file :: "'w \<Rightarrow> bool"
  net_ifname :: "net_class \<Rightarrow> 'w \<Rightarrow> string option"
  net_sleep :: "'w \<Rightarrow> 'w"

definition UDHCPD_SCRIPT :: string where
  "UDHCPD_SCRIPT = ''/oem/usr/bin/arkkvm-network-adapter-udhcpd.sh''"

definition debug_code :: "nat option \<Rightarrow> string" where
  "debug_code c = (case c of None \<Rightarrow> ''None'' | Some n \<Rightarrow> ''Some('' @ nat_to_dec n @ '')'')"

definition debug_strs :: "string list \<Rightarrow> string" where
  "debug_strs xs = ''['' @ (case map debug_str xs of [] \<Rightarrow> [] | y # ys \<Rightarrow> y @ concat (map (\<lambda>z. '', '' @ z) ys)) @ '']''"

definition lossy :: "u8 list \<Rightarrow> string" where
  "lossy bs = bytes_to_string (utf8_lossy bs)"

definition run_ip :: "('w, 'x) net_env_scheme \<Rightarrow> string list \<Rightarrow> 'w \<Rightarrow> (string, unit) result \<times> 'w" where
  "run_ip e args w =
     (case run_process e ''ip'' args [] w of (r, w') \<Rightarrow>
        (case r of
           Inl err \<Rightarrow> (Inl err, w')
         | Inr out \<Rightarrow>
             if \<not> po_success out
             then (Inl (''ip '' @ debug_strs args @ '' failed: status='' @ debug_code (po_code out)
                     @ '' stdout='' @ lossy (po_stdout out) @ '' stderr='' @ lossy (po_stderr out)), w')
             else (Inr (), w')))"

definition flush_addrs :: "('w, 'x) net_env_scheme \<Rightarrow> string \<Rightarrow> 'w \<Rightarrow> (string, unit) result \<times> 'w" where
  "flush_addrs e ifname w = (Inr (), snd (run_ip e [''addr'', ''flush'', ''dev'', ifname] w))"

definition flush_and_down :: "('w, 'x) net_env_scheme \<Rightarrow> string \<Rightarrow> 'w \<Rightarrow> 'w" where
  "flush_and_down e ifname w =
     snd (run_ip e [''link'', ''set'', ''dev'', ifname, ''down''] (snd (flush_addrs e ifname w)))"

definition apply_gateway ::
  "('w, 'x) net_env_scheme \<Rightarrow> string \<Rightarrow> string option \<Rightarrow> 'w \<Rightarrow> (usb_error, unit) result \<times> 'w" where
  "apply_gateway e ifname gateway w =
     (case gateway of
        None \<Rightarrow> (Inr (), w)
      | Some gw \<Rightarrow>
          if gw = [] then (Inr (), w)
          else if ipv4_parse gw = None then (Inl (InvalidArgument (''invalid gateway '' @ debug_str gw)), w)
          else (Inr (), snd (run_ip e [''route'', ''replace'', ''default'', ''via'', gw, ''dev'', ifname,
                                       ''metric'', ''500''] w)))"

definition apply_board_l3 ::
  "('w, 'x) net_env_scheme \<Rightarrow> string \<Rightarrow> adapter_l3_settings \<Rightarrow> 'w \<Rightarrow> (usb_error, unit) result \<times> 'w" where
  "apply_board_l3 e ifname cfg w =
     (if starts_with ifname ''eth''
      then (Inl (InvalidArgument (''refusing network adapter L3 on eth interface: '' @ ifname)), w)
      else case ipv4_mask_to_prefix (l3_subnet_mask cfg) of
        Inl err \<Rightarrow> (Inl (InvalidArgument (''invalid subnet_mask '' @ debug_str (l3_subnet_mask cfg) @ '': '' @ err)), w)
      | Inr pfx \<Rightarrow>
          if ipv4_parse (l3_ip_address cfg) = None
          then (Inl (InvalidArgument (''invalid ip_address '' @ debug_str (l3_ip_address cfg))), w)
          else case run_ip e [''addr'', ''add'', l3_ip_address cfg @ ''/'' @ nat_to_dec pfx, ''dev'', ifname]
                      (snd (flush_addrs e ifname w)) of
            (Inl err, w1) \<Rightarrow> (Inl (IoError (''ip addr add on '' @ ifname @ '': '' @ err)), w1)
          | (Inr _, w1) \<Rightarrow>
              (case run_ip e [''link'', ''set'', ''dev'', ifname, ''up''] w1 of
                 (Inl err, w2) \<Rightarrow> (Inl (IoError (''ip link set '' @ ifname @ '' up: '' @ err)), w2)
               | (Inr _, w2) \<Rightarrow> apply_gateway e ifname (l3_gateway cfg) w2))"

definition dhcp_stop :: "('w, 'x) net_env_scheme \<Rightarrow> 'w \<Rightarrow> 'w" where
  "dhcp_stop e w = (if \<not> script_is_file e w then w else snd (run_process e UDHCPD_SCRIPT [''stop''] [] w))"

definition dhcp_start ::
  "('w, 'x) net_env_scheme \<Rightarrow> string \<Rightarrow> adapter_l3_settings \<Rightarrow> dhcp_pool \<Rightarrow> 'w \<Rightarrow> (string, unit) result \<times> 'w" where
  "dhcp_start e ifname cfg pool w =
     (if starts_with ifname ''eth'' then (Inl (''refusing DHCP on eth interface: '' @ ifname), w)
      else if \<not> script_is_file e w then (Inl (''script not found: '' @ UDHCPD_SCRIPT), w)
      else case run_process e UDHCPD_SCRIPT [''start'']
                  [(''IFACE'', ifname), (''SERVER_IP'', l3_ip_address cfg), (''NETMASK'', l3_subnet_mask cfg),
                   (''START'', pool_start pool), (''END'', pool_end pool)] w of
             (Inl err, w') \<Rightarrow> (Inl err, w')
           | (Inr out, w') \<Rightarrow>
               if \<not> po_success out
               then (Inl (''status='' @ debug_code (po_code out) @ '' stdout='' @ lossy (po_stdout out)
                       @ '' stderr='' @ lossy (po_stderr out)), w')
               else (Inr (), w'))"

section \<open>The handle\<close>

definition SERVICE_NAME :: string where "SERVICE_NAME = ''network_adapter''"

definition IFACE_WAIT_ATTEMPTS :: nat where "IFACE_WAIT_ATTEMPTS = 20"

record net_handle =
  na_enabled :: bool
  na_updating :: bool
  na_net :: "net_class option"
  na_ifname :: "string option"
  na_l3 :: adapter_l3_settings

definition net_new :: "bool \<Rightarrow> net_handle" where
  "net_new enabled =
     \<lparr>na_enabled = enabled, na_updating = False, na_net = None, na_ifname = None,
      na_l3 = \<lparr>l3_ip_address = ''172.16.0.1'', l3_subnet_mask = ''255.255.255.0'', l3_gateway = None,
               l3_dns_servers = []\<rparr>\<rparr>"

definition net_set_enabled :: "bool \<Rightarrow> net_handle \<Rightarrow> net_handle" where
  "net_set_enabled b h = h\<lparr>na_enabled := b\<rparr>"

definition clear_ifname :: "net_handle \<Rightarrow> net_handle" where
  "clear_ifname h = h\<lparr>na_ifname := None\<rparr>"

definition set_net :: "net_class option \<Rightarrow> net_handle \<Rightarrow> net_handle" where
  "set_net net h = (let h1 = h\<lparr>na_net := net\<rparr> in if net = None then clear_ifname h1 else h1)"

definition set_l3_from_proto :: "adapter_l3_settings option \<Rightarrow> net_handle \<Rightarrow> net_handle" where
  "set_l3_from_proto cfg h =
     (case cfg of
        None \<Rightarrow> h
      | Some c \<Rightarrow>
          if l3_ip_address c = [] \<and> l3_subnet_mask c = [] then h
          else h\<lparr>na_l3 := from_network_adapter_l3 c\<rparr>)"

definition refresh_ifname_from_net :: "('w, 'x) net_env_scheme \<Rightarrow> 'w \<Rightarrow> net_handle \<Rightarrow> net_handle" where
  "refresh_ifname_from_net e w h =
     (if \<not> na_enabled h then clear_ifname h
      else case (case na_net h of None \<Rightarrow> None | Some n \<Rightarrow> net_ifname e n w) of
             None \<Rightarrow> clear_ifname h
           | Some name \<Rightarrow> if name = [] then clear_ifname h else h\<lparr>na_ifname := Some name\<rparr>)"

fun wait_for_ifname ::
  "nat \<Rightarrow> ('w, 'x) net_env_scheme \<Rightarrow> net_handle \<times> 'w \<Rightarrow> string option \<times> net_handle \<times> 'w" where
  "wait_for_ifname 0 e (h, w) = (None, h, w)"
| "wait_for_ifname (Suc n) e (h, w) =
     (let h1 = refresh_ifname_from_net e w h in
      case na_ifname h1 of
        Some name \<Rightarrow> (Some name, h1, w)
      | None \<Rightarrow> wait_for_ifname n e (h1, net_sleep e w))"

definition apply_l3 ::
  "('w, 'x) net_env_scheme \<Rightarrow> net_handle \<times> 'w \<Rightarrow> (usb_error, unit) result \<times> net_handle \<times> 'w" where
  "apply_l3 e s =
     (case s of (h, w) \<Rightarrow>
      if \<not> na_enabled h
      then let w1 = dhcp_stop e w
           in (Inr (), h, case na_ifname h of None \<Rightarrow> w1 | Some ifname \<Rightarrow> flush_and_down e ifname w1)
      else let w1 = dhcp_stop e w; h1 = refresh_ifname_from_net e w1 h in
        case wait_for_ifname IFACE_WAIT_ATTEMPTS e (h1, w1) of
          (None, h2, w2) \<Rightarrow>
            (Inl (DeviceNotFound ''network adapter enabled but netdev ifname not found''), h2, w2)
        | (Some ifname, h2, w2) \<Rightarrow>
            let cfg = na_l3 h2 in
            (case apply_board_l3 e ifname cfg w2 of
               (Inl err, w3) \<Rightarrow> (Inl err, h2, w3)
             | (Inr _, w3) \<Rightarrow>
                 (case derive_dhcp_pool (l3_ip_address cfg) (l3_subnet_mask cfg) of
                    Inr pool \<Rightarrow> (Inr (), h2, snd (dhcp_start e ifname cfg pool w3))
                  | Inl _ \<Rightarrow> (Inr (), h2, w3))))"

definition net_on_change ::
  "('w, 'x) net_env_scheme \<Rightarrow> change_request \<Rightarrow> net_handle \<times> 'w \<Rightarrow> (net_handle \<times> 'w) \<times> change_response" where
  "net_on_change e req s =
     (case s of (h, w) \<Rightarrow>
      case req of
        RequestChange \<Rightarrow> ((h, w), Proceed)
      | PrepareChange \<Rightarrow>
          let h1 = h\<lparr>na_updating := True\<rparr>;
              w1 = dhcp_stop e w;
              w2 = (case na_ifname h1 of None \<Rightarrow> w1 | Some ifname \<Rightarrow> flush_and_down e ifname w1)
          in ((clear_ifname (set_net None h1), w2), Proceed)
      | ChangeCompleted \<Rightarrow> (snd (apply_l3 e (h\<lparr>na_updating := False\<rparr>, w)), Proceed)
      | ChangeCanceled \<Rightarrow> (snd (apply_l3 e (h\<lparr>na_updating := False\<rparr>, w)), Proceed))"

lemma refresh_updating [simp]: "na_updating (refresh_ifname_from_net e w h) = na_updating h"
  by (simp add: refresh_ifname_from_net_def clear_ifname_def split: option.splits)

lemma refresh_frame [simp]:
  "na_enabled (refresh_ifname_from_net e w h) = na_enabled h"
  "na_net (refresh_ifname_from_net e w h) = na_net h"
  "na_l3 (refresh_ifname_from_net e w h) = na_l3 h"
  by (simp_all add: refresh_ifname_from_net_def clear_ifname_def split: option.splits)

lemma wait_for_ifname_frame:
  "wait_for_ifname n e (h, w) = (r, h', w') \<Longrightarrow>
     na_updating h' = na_updating h \<and> na_enabled h' = na_enabled h \<and> na_net h' = na_net h \<and> na_l3 h' = na_l3 h
   \<and> (\<forall>name. r = Some name \<longrightarrow> name \<noteq> [] \<and> na_ifname h' = Some name)"
proof (induction n e "(h, w)" arbitrary: h w rule: wait_for_ifname.induct)
  case (2 n e h w)
  let ?h1 = "refresh_ifname_from_net e w h"
  show ?case
  proof (cases "na_ifname ?h1")
    case None
    with 2 show ?thesis by (simp add: Let_def)
  next
    case (Some a)
    then have "a \<noteq> []"
      by (auto simp: refresh_ifname_from_net_def clear_ifname_def split: if_splits option.splits)
    with 2 Some show ?thesis by (auto simp: Let_def)
  qed
qed simp

lemma apply_l3_frame:
  "na_updating (fst (snd (apply_l3 e (h, w)))) = na_updating h"
  "na_enabled (fst (snd (apply_l3 e (h, w)))) = na_enabled h"
  "na_l3 (fst (snd (apply_l3 e (h, w)))) = na_l3 h"
  by (auto simp: apply_l3_def Let_def split: option.splits prod.splits sum.splits dest!: wait_for_ifname_frame)

interpretation net_handler: change_handler "net_on_change e" "\<lambda>s. na_updating (fst s)"
  for e :: "('w, 'x) net_env_scheme"
  by unfold_locales
    (simp_all add: net_on_change_def apply_l3_frame set_net_def clear_ifname_def Let_def split_beta)

section \<open>Addresses: print and parse\<close>

lemma digit_char_0: "digit_char 0 = CHR ''0''"
  by code_simp

lemma parse_octet_dec: "n < 256 \<Longrightarrow> parse_octet (nat_to_dec n) = Some n"
proof -
  assume n: "n < 256"
  have "hd (nat_to_dec n) \<noteq> CHR ''0''" if "length (nat_to_dec n) > 1"
  proof
    assume "hd (nat_to_dec n) = CHR ''0''"
    then have "n = 0" using nat_to_dec_no_leading_zero [of n] by (simp add: digit_char_0)
    with that show False by (simp add: nat_to_dec.simps)
  qed
  with n length_nat_to_dec_byte [OF n] nat_to_dec_digits [of n] show ?thesis
    by (auto simp: parse_octet_def dec_value_nat_to_dec)
qed

lemma dec_no_dot: "CHR ''.'' \<notin> set (nat_to_dec n)"
  using nat_to_dec_digits [of n] is_digit_not_dot by (auto simp: list_all_iff)

lemma split_dotted:
  "split_on CHR ''.'' (ipv4_to_string a) =
     [nat_to_dec (u32_octet a 3), nat_to_dec (u32_octet a 2), nat_to_dec (u32_octet a 1), nat_to_dec (u32_octet a 0)]"
  by (simp add: ipv4_to_string_def split_on_append split_on_no_sep dec_no_dot)

lemma u32_octet_less [simp]: "u32_octet a k < 256"
  by (simp add: u32_octet_def)

lemma octets_to_u32_octets:
  "octets_to_u32 [u32_octet a 3, u32_octet a 2, u32_octet a 1, u32_octet a 0] = a"
proof -
  have b: "unat a < 4294967296" using unsigned_less [of a, where 'a = nat] by simp
  then have "unat a div 16777216 mod 256 = unat a div 16777216" by simp
  moreover define q r where "q = unat a div 65536" and "r = unat a div 256"
  then have "256 * r + unat a mod 256 = unat a" "256 * q + r mod 256 = r"
    "256 * (unat a div 16777216) + q mod 256 = q"
    using div_mult_mod_eq [of r 256] div_mult_mod_eq [of q 256]
    by (simp_all add: div_mult2_eq [symmetric] mult.commute)
  ultimately have "foldl (\<lambda>x n. x * 256 + n) 0 [u32_octet a 3, u32_octet a 2, u32_octet a 1, u32_octet a 0] = unat a"
    by (simp add: u32_octet_def q_def [symmetric] r_def [symmetric])
  then show ?thesis unfolding octets_to_u32_def by simp
qed

lemma ipv4_parse_to_string [simp]: "ipv4_parse (ipv4_to_string a) = Some a"
  by (simp add: ipv4_parse_def split_dotted parse_octet_dec octets_to_u32_octets [simplified])

lemma count_ones_ones: "n \<le> 32 \<Longrightarrow> count_ones (push_bit (32 - n) (- 1)) = n"
proof -
  assume n: "n \<le> 32"
  have "filter (bit (push_bit (32 - n) (- 1 :: u32))) [0..<32] = [32 - n..<32]"
  proof -
    have "[0..<32] = [0..<32 - n] @ [32 - n..<32 :: nat]"
      using n upt_add_eq_append [of 0 "32 - n" n] by simp
    moreover have "filter (bit (push_bit (32 - n) (- 1 :: u32))) [0..<32 - n] = []"
      by (auto simp: filter_empty_conv bit_simps)
    moreover have "filter (bit (push_bit (32 - n) (- 1 :: u32))) [32 - n..<32] = [32 - n..<32]"
      by (rule filter_True) (auto simp: bit_simps)
    ultimately show ?thesis by simp
  qed
  with n show ?thesis by (simp add: count_ones_def)
qed

lemma not_mask_32 [simp]: "NOT (mask 32 :: u32) = 0"
  by (rule bit_word_eqI) (simp add: bit_simps)

lemma count_ones_0 [simp]: "count_ones 0 = 0"
  by (simp add: count_ones_def)

lemmas count_ones_not_mask = count_ones_ones [unfolded push_bit_minus_one_eq_not_mask]

lemma count_ones_le: "count_ones a \<le> 32"
  using length_filter_le [of "bit a" "[0..<32]"] by (simp add: count_ones_def)

lemma count_ones_zero: "count_ones a = 0 \<longleftrightarrow> a = 0"
  by (auto simp: count_ones_def filter_empty_conv intro!: bit_word_eqI)

lemma trim_dotted: "trim (ipv4_to_string a) = ipv4_to_string a"
proof (rule trim_id)
  show "\<forall>c\<in>set (ipv4_to_string a). \<not> is_ascii_space c"
    using nat_to_dec_digits is_digit_not_space
    by (auto simp: ipv4_to_string_def list_all_iff is_ascii_space_def [of "CHR ''.''"])
qed

lemma mask_to_prefix_dotted:
  "ipv4_mask_to_prefix (ipv4_to_string a) =
     (if a = push_bit (32 - count_ones a) (- 1) \<or> a = 0 then Inr (count_ones a) else Inl ''non-contiguous mask'')"
  by (auto simp: ipv4_mask_to_prefix_def trim_dotted split_dotted parse_u8_def parse_radix_dec
      octets_to_u32_octets [simplified] Let_def count_ones_zero)

lemma mask_to_prefix_Inr:
  assumes "ipv4_mask_to_prefix s = Inr n"
  shows "n \<le> 32 \<and> (\<exists>ns. sequence_opt (map parse_u8 (split_on CHR ''.'' (trim s))) = Some ns
      \<and> octets_to_u32 ns = push_bit (32 - n) (- 1))"
  using assms count_ones_le
  by (auto simp: ipv4_mask_to_prefix_def Let_def count_ones_zero split: if_splits option.splits)

lemma sequence_opt_imp:
  assumes "\<And>x n. f x = Some n \<Longrightarrow> g x = Some n" and "sequence_opt (map f xs) = Some ns"
  shows "sequence_opt (map g xs) = Some ns"
  using assms(2) by (induction xs arbitrary: ns) (auto simp: assms(1) split: option.splits)

lemma parse_octet_u8: "parse_octet s = Some n \<Longrightarrow> parse_u8 s = Some n"
proof -
  assume a: "parse_octet s = Some n"
  then have d: "list_all is_digit s" "s \<noteq> []" "dec_value s = n" "n < 256"
    by (auto simp: parse_octet_def split: if_splits)
  from d(1,2) have "hd s \<noteq> CHR ''+''" by (cases s) (auto simp: is_digit_def)
  with d show ?thesis
    by (cases s) (auto simp: parse_u8_def parse_radix_def radix_digit_dec radix_value_dec dec_value_def)
qed

lemma dot_not_space: "\<not> is_ascii_space CHR ''.''"
  by (simp add: is_ascii_space_def)

lemma split_on_chars: "c \<in> set s \<Longrightarrow> c = d \<or> (\<exists>p \<in> set (split_on d s). c \<in> set p)"
proof (induction s)
  case (Cons a s)
  obtain p ps where "split_on d s = p # ps" by (cases "split_on d s") auto
  with Cons show ?case by (cases "a = d") auto
qed simp

lemma ipv4_parse_chars: "ipv4_parse s = Some a \<Longrightarrow> trim s = s"
proof (rule trim_id)
  assume a: "ipv4_parse s = Some a"
  have "list_all is_digit p" if "p \<in> set ps" "sequence_opt (map parse_octet ps) = Some ns" for p ps ns
    using that by (induction ps arbitrary: ns) (auto simp: parse_octet_def split: option.splits if_splits)
  with a have "\<forall>p \<in> set (split_on CHR ''.'' s). list_all is_digit p"
    by (auto simp: ipv4_parse_def Let_def split: if_splits)
  then show "\<forall>c\<in>set s. \<not> is_ascii_space c"
    by (metis (full_types) dot_not_space is_digit_not_space list_all_iff split_on_chars)
qed

lemmas ipv4_parse_eval = ipv4_parse_def parse_octet_def octets_to_u32_def dec_value_def digit_value_def
  is_digit_def

lemma mask_prefix_roundtrip_aux:
  assumes s: "ipv4_parse s = Some m"
  shows "ipv4_mask_to_prefix s = Inr k \<longleftrightarrow> k \<le> 32 \<and> m = push_bit (32 - k) (- 1)"
proof -
  from s obtain ns where ns: "sequence_opt (map parse_octet (split_on CHR ''.'' s)) = Some ns"
      "octets_to_u32 ns = m" "length (split_on CHR ''.'' s) = 4"
    by (auto simp: ipv4_parse_def Let_def split: if_splits)
  from ns(1) have u8: "sequence_opt (map parse_u8 (split_on CHR ''.'' s)) = Some ns"
    by (rule sequence_opt_imp [rotated]) (rule parse_octet_u8)
  show ?thesis
  proof
    assume "ipv4_mask_to_prefix s = Inr k"
    with mask_to_prefix_Inr [OF this] ipv4_parse_chars [OF s] u8 ns(2)
    show "k \<le> 32 \<and> m = push_bit (32 - k) (- 1)" by auto
  next
    assume k: "k \<le> 32 \<and> m = push_bit (32 - k) (- 1)"
    then have "count_ones m = k" by (simp add: count_ones_not_mask)
    with k u8 ns ipv4_parse_chars [OF s] show "ipv4_mask_to_prefix s = Inr k"
      by (simp add: ipv4_mask_to_prefix_def Let_def)
  qed
qed

text \<open>
  Subnet masks and prefixes. The dotted form of every address parses back to the address; the
  dotted mask with \<open>n\<close> leading ones is read as prefix \<open>n\<close>, for every \<open>n\<close> up to 32; and a mask that
  is an address is accepted exactly if it is such a mask, with its number of leading ones.
\<close>

theorem mask_prefix_roundtrip:
  "ipv4_parse (ipv4_to_string a) = Some a
   \<and> (n \<le> 32 \<longrightarrow> ipv4_mask_to_prefix (ipv4_to_string (push_bit (32 - n) (- 1))) = Inr n)
   \<and> (ipv4_parse s = Some m \<longrightarrow>
        (ipv4_mask_to_prefix s = Inr k \<longleftrightarrow> k \<le> 32 \<and> m = push_bit (32 - k) (- 1)))"
proof (intro conjI impI)
  show "ipv4_parse (ipv4_to_string a) = Some a" by simp
  show "ipv4_mask_to_prefix (ipv4_to_string (push_bit (32 - n) (- 1))) = Inr n" if "n \<le> 32"
    using that by (auto simp: mask_to_prefix_dotted count_ones_not_mask dest: arg_cong [where f = count_ones])
  show "ipv4_mask_to_prefix s = Inr k \<longleftrightarrow> k \<le> 32 \<and> m = push_bit (32 - k) (- 1)" if "ipv4_parse s = Some m"
    using that by (rule mask_prefix_roundtrip_aux)
qed

theorem mask_prefix_roundtrip_witness:
  "ipv4_mask_to_prefix ''255.255.240.0'' = Inr 20 \<and> ipv4_mask_to_prefix ''255.0.255.0'' \<noteq> Inr 16"
proof -
  have "ipv4_parse ''255.255.240.0'' = Some 0xFFFFF000" "ipv4_parse ''255.0.255.0'' = Some 0xFF00FF00"
    by (simp_all add: ipv4_parse_eval)
  moreover have "push_bit (32 - 20) (- 1 :: u32) = 0xFFFFF000" "push_bit (32 - 16) (- 1 :: u32) = 0xFFFF0000"
    by (simp_all add: mask_eq_exp_minus_1)
  ultimately show ?thesis
    using mask_prefix_roundtrip [of 0 0 "''255.255.240.0''" "0xFFFFF000" 20]
      mask_prefix_roundtrip [of 0 0 "''255.0.255.0''" "0xFF00FF00" 16] by simp
qed

section \<open>The address pool lies in the subnet\<close>

lemma unat_u32_less: "unat (x :: u32) < 4294967296"
  using unsigned_less [of x, where 'a = nat] by simp

lemma unat_plus_cases:
  fixes x :: u32
  assumes "unat c = k"
  shows "unat (x + c) = (if unat x + k < 4294967296 then unat x + k else unat x + k - 4294967296)"
proof -
  have "unat (x + c) = (unat x + k) mod 4294967296"
    using assms by (simp add: unat_word_ariths)
  then show ?thesis
    using unat_u32_less [of x] unat_u32_less [of c] assms
    by (cases "unat x + k < 4294967296") (simp_all add: le_mod_geq)
qed

lemma unat_minus_one_word: "unat (- 1 :: u32) = 4294967295"
proof -
  have "(- 1 :: u32) = 4294967295" by simp
  then show ?thesis by (simp only: unat_numeral) simp
qed

lemma unat_minus_1: "0 < unat (x :: u32) \<Longrightarrow> unat (x - 1) = unat x - 1"
  by (simp add: unat_minus_one unat_gt_0)

text \<open>The bounds before the board address is taken out.\<close>

lemma pool_bounds_aux:
  fixes n b :: u32
  assumes "n \<noteq> - 1" and "n \<le> b"
    and "s = (if n + 100 \<le> n then n + 1 else n + 100)"
    and "t = (if n + 200 \<ge> b then sat_sub_u32 b 1 else n + 200)"
    and "s \<le> t"
  shows "n < s \<and> t < b"
proof -
  have n: "unat n < 4294967295"
    using assms(1) unat_u32_less [of n] word_unat_eq_iff [of n "- 1"]
    by (simp add: unat_minus_one_word)
  have b0: "unat b = 0 \<or> unat (b - 1) = unat b - 1" using unat_minus_1 [of b] by fastforce
  have b1: "(b < 1) = (unat b = 0)" by (auto simp: word_less_nat_alt)
  show ?thesis
    using assms(2-) n b0 unat_plus_cases [of 100 100 n] unat_plus_cases [of 200 200 n] unat_plus_cases [of 1 1 n]
    by (auto simp: word_less_nat_alt word_le_nat_alt sat_sub_u32_def b1 split: if_splits)
qed

lemma derive_pool_u32_bounds:
  assumes "derive_pool_u32 ip m = Inr (s, t)" and "ip AND m \<noteq> - 1"
  shows "ip AND m < s \<and> s \<le> t \<and> t < (ip AND m OR NOT m) \<and> s \<noteq> ip \<and> t \<noteq> ip"
proof -
  let ?n = "ip AND m" and ?b = "ip AND m OR NOT m"
  define s1 where "s1 = (if ?n + 100 \<le> ?n then ?n + 1 else ?n + 100)"
  define t1 where "t1 = (if ?n + 200 \<ge> ?b then sat_sub_u32 ?b 1 else ?n + 200)"
  have "derive_pool_u32 ip m =
      (if s1 > t1 then Inl ''subnet too small for DHCP pool''
       else if ip \<ge> s1 \<and> ip \<le> t1
       then let s2 = (if ip = s1 then ip + 1 else s1); t2 = (if ip \<noteq> s1 \<and> ip = t1 then ip - 1 else t1)
            in if s2 > t2 then Inl ''DHCP pool empty after excluding board IP'' else Inr (s2, t2)
       else Inr (s1, t1))"
    by (simp only: derive_pool_u32_def Let_def s1_def t1_def)
  with assms(1) have r: "s1 \<le> t1" "s \<le> t"
      "s = (if ip = s1 then ip + 1 else s1)" "t = (if ip \<noteq> s1 \<and> ip = t1 then ip - 1 else t1)"
    by (auto simp: Let_def split: if_splits)
  from pool_bounds_aux [OF assms(2) le_word_or2 s1_def t1_def r(1)] have st: "?n < s1" "t1 < ?b" by auto
  have "unat (ip + 1) = unat ip + 1" if "ip = s1"
    using unat_plus_cases [of 1 1 ip] that r(1) st unat_u32_less [of ?b]
    by (auto simp: word_less_nat_alt word_le_nat_alt)
  moreover have "unat (ip - 1) = unat ip - 1" "0 < unat ip" if "ip \<noteq> s1" "ip = t1"
    using that r(1) st unat_minus_1 [of ip] by (auto simp: word_less_nat_alt word_le_nat_alt)
  ultimately show ?thesis
    using r st by (auto simp: word_less_nat_alt word_le_nat_alt word_unat_eq_iff split: if_splits)
qed

lemma drop_bit_mono_u32:
  assumes "(x :: u32) \<le> y"
  shows "drop_bit k x \<le> drop_bit k y"
proof -
  have "unat x div 2 ^ k \<le> unat y div 2 ^ k" using assms by (intro div_le_mono) (simp add: word_le_nat_alt)
  then show ?thesis unfolding word_le_nat_alt unat_drop_bit_eq by (simp add: drop_bit_eq_div)
qed

lemma between_same_subnet:
  fixes ip x :: u32
  assumes "m = push_bit k (- 1)" and "ip AND m \<le> x" and "x \<le> (ip AND m OR NOT m)"
  shows "x AND m = ip AND m"
proof -
  have n: "y AND m = push_bit k (drop_bit k y)" for y :: u32
    using assms(1) by (auto intro!: bit_word_eqI simp: bit_simps)
  have b: "drop_bit k (ip AND m OR NOT m) = drop_bit k ip" "drop_bit k (ip AND m) = drop_bit k ip"
    using assms(1) by (auto intro!: bit_word_eqI simp: bit_simps dest: bit_imp_le_length [where ?'a = 32, simplified])
  from drop_bit_mono_u32 [OF assms(2), of k] drop_bit_mono_u32 [OF assms(3), of k] b
  have "drop_bit k x = drop_bit k ip" by simp
  with n show ?thesis by simp
qed

text \<open>
  The pool offered to the host is inside the adapter's subnet. Whenever a pool is derived from
  the board address and a prefix mask (and the network is not the single address
  255.255.255.255), its two ends are addresses, in order, every address between them has the
  board's network part, none is the network or the broadcast address, and neither end is the board
  address.
\<close>

theorem dhcp_pool_in_subnet:
  assumes "derive_dhcp_pool ip_address subnet_mask = Inr p"
    and "ipv4_parse ip_address = Some ip" and "ipv4_parse subnet_mask = Some m"
    and "ipv4_mask_to_prefix subnet_mask = Inr n" and "ip AND m \<noteq> - 1"
  shows "\<exists>s t. ipv4_parse (pool_start p) = Some s \<and> ipv4_parse (pool_end p) = Some t \<and> s \<le> t
    \<and> s \<noteq> ip \<and> t \<noteq> ip
    \<and> (\<forall>x. s \<le> x \<and> x \<le> t \<longrightarrow> x AND m = ip AND m \<and> x \<noteq> ip AND m \<and> x \<noteq> (ip AND m OR NOT m))"
proof -
  from assms(1-3) obtain s t where st: "derive_pool_u32 ip m = Inr (s, t)"
      "pool_start p = ipv4_to_string s" "pool_end p = ipv4_to_string t"
    by (auto simp: derive_dhcp_pool_def split: sum.splits)
  from derive_pool_u32_bounds [OF st(1) assms(5)]
  have b: "ip AND m < s" "s \<le> t" "t < (ip AND m OR NOT m)" "s \<noteq> ip" "t \<noteq> ip" by auto
  from mask_prefix_roundtrip_aux [OF assms(3), of n] assms(4) have m: "m = push_bit (32 - n) (- 1)" by simp
  have "x AND m = ip AND m \<and> x \<noteq> ip AND m \<and> x \<noteq> (ip AND m OR NOT m)" if "s \<le> x" "x \<le> t" for x
    using between_same_subnet [OF m, of ip x] that b by auto
  with st b show ?thesis by auto
qed

theorem dhcp_pool_in_subnet_witness:
  "\<exists>p s t. derive_dhcp_pool ''172.16.0.1'' ''255.255.255.0'' = Inr p
     \<and> ipv4_parse (pool_start p) = Some s \<and> ipv4_parse (pool_end p) = Some t \<and> s \<le> t"
proof -
  have p: "ipv4_parse ''172.16.0.1'' = Some 0xAC100001" "ipv4_parse ''255.255.255.0'' = Some 0xFFFFFF00"
    by (simp_all add: ipv4_parse_eval)
  have m: "ipv4_mask_to_prefix ''255.255.255.0'' = Inr 24"
    using mask_prefix_roundtrip_aux [OF p(2), of 24] by (simp add: mask_eq_exp_minus_1)
  have "derive_pool_u32 0xAC100001 0xFFFFFF00 = Inr (0xAC100064, 0xAC1000C8)"
    by (simp add: derive_pool_u32_def Let_def)
  then have "derive_dhcp_pool ''172.16.0.1'' ''255.255.255.0'' =
      Inr \<lparr>pool_start = ipv4_to_string 0xAC100064, pool_end = ipv4_to_string 0xAC1000C8\<rparr>"
    by (simp add: derive_dhcp_pool_def p)
  from dhcp_pool_in_subnet [OF this p m] this show ?thesis by auto
qed

text \<open>
  A board address inside the range is handed out too. In a subnet of at least 202 addresses
  below the last 200, a board address more than 100 and less than 200 above the network address
  leaves the pool at its full range, which contains that address.
\<close>

theorem dhcp_pool_contains_board_ip:
  assumes "unat (ip AND m) + 200 < unat (ip AND m OR NOT m)"
    and "unat (ip AND m) + 100 < unat ip" and "unat ip < unat (ip AND m) + 200"
  shows "derive_pool_u32 ip m = Inr ((ip AND m) + 100, (ip AND m) + 200)
    \<and> (ip AND m) + 100 \<le> ip \<and> ip \<le> (ip AND m) + 200"
proof -
  let ?n = "ip AND m"
  have "unat ?n + 200 < 4294967296" using assms(1) unat_u32_less [of "ip AND m OR NOT m"] by simp
  then have u: "unat (?n + 100) = unat ?n + 100" "unat (?n + 200) = unat ?n + 200"
    using unat_plus_cases [of 100 100 ?n] unat_plus_cases [of 200 200 ?n] by simp_all
  have "\<not> ?n + 100 \<le> ?n" "\<not> ?n + 200 \<ge> (ip AND m OR NOT m)" "\<not> ?n + 100 > ?n + 200" "ip \<noteq> ?n + 100" "ip \<noteq> ?n + 200"
      "?n + 100 \<le> ip" "ip \<le> ?n + 200"
    using u assms by (auto simp: word_less_nat_alt word_le_nat_alt)
  then show ?thesis by (simp add: derive_pool_u32_def Let_def)
qed

theorem dhcp_pool_contains_board_ip_witness:
  "derive_pool_u32 0xC0A80196 0xFFFFFF00 = Inr (0xC0A80164, 0xC0A801C8)"
  using dhcp_pool_contains_board_ip [of "0xC0A80196" "0xFFFFFF00"] by simp

section \<open>The lease file round trip\<close>

text \<open>The record layout BusyBox writes, as the comment on \<open>parse_lease_file\<close> gives it.\<close>

definition be4 :: "u32 \<Rightarrow> u8 list" where
  "be4 a = map (\<lambda>k. word_of_nat (u32_octet a k)) [3, 2, 1, 0]"

definition encode_lease :: "dhcp_lease_entry \<Rightarrow> u8 list" where
  "encode_lease l = be4 (dl_expires_in_secs l) @ be4 (dl_ip l) @ dl_mac l
     @ map (\<lambda>c. word_of_nat (of_char c)) (dl_hostname l) @ replicate (20 - length (dl_hostname l)) 0 @ [0, 0]"

definition lease_wf :: "dhcp_lease_entry \<Rightarrow> bool" where
  "lease_wf l = (dl_ip l \<noteq> 0 \<and> length (dl_mac l) = 6 \<and> \<not> list_all (\<lambda>b. b = 0) (dl_mac l)
     \<and> dl_expires_in_secs l \<noteq> 0 \<and> length (dl_hostname l) \<le> 20 \<and> trim (dl_hostname l) = dl_hostname l
     \<and> list_all (\<lambda>c. 0 < (of_char c :: nat) \<and> (of_char c :: nat) < 128) (dl_hostname l))"

lemma length_be4 [simp]: "length (be4 a) = 4"
  by (simp add: be4_def)

lemma be_u32_be4 [simp]: "be_u32 (be4 a) = a"
proof -
  have "unat (word_of_nat (u32_octet a k) :: u8) = u32_octet a k" for k
    using u32_octet_less [of a k] by (simp add: unsigned_of_nat take_bit_nat_eq_self)
  then have "be_bytes (be4 a) = foldl (\<lambda>x n. x * 256 + n) 0 [u32_octet a 3, u32_octet a 2, u32_octet a 1, u32_octet a 0]"
    by (simp add: be4_def)
  then show ?thesis using octets_to_u32_octets [of a] by (simp add: be_u32_def octets_to_u32_def)
qed

lemma utf8_lossy_ascii: "list_all (\<lambda>b. unat b < 128) bs \<Longrightarrow> utf8_lossy bs = bs"
proof (induction bs)
  case (Cons b bs)
  then have "utf8_tail b bs = []" by (cases bs) (auto simp: utf8_tail_def utf8_width_def)
  with Cons show ?case by (simp add: utf8_width_def Let_def)
qed simp

lemma length_encode [simp]: "lease_wf l \<Longrightarrow> length (encode_lease l) = DYN_LEASE_SIZE"
  by (simp add: lease_wf_def encode_lease_def DYN_LEASE_SIZE_def)

lemma takeWhile_hostname:
  assumes "list_all (\<lambda>c. 0 < (of_char c :: nat)) h"
  shows "takeWhile (\<lambda>b. b \<noteq> 0) (map (\<lambda>c. word_of_nat (of_char c)) h @ replicate n (0 :: u8))
    = map (\<lambda>c. word_of_nat (of_char c)) h"
proof -
  have "(word_of_nat (of_char c) :: u8) \<noteq> 0" if "c \<in> set h" for c
    using that assms unat_of_char [of c] by (auto simp: list_all_iff)
  then have "takeWhile (\<lambda>b. b \<noteq> 0) (map (\<lambda>c. word_of_nat (of_char c) :: u8) h @ replicate n 0) =
      map (\<lambda>c. word_of_nat (of_char c)) h @ takeWhile (\<lambda>b. b \<noteq> 0) (replicate n 0)"
    by (intro takeWhile_append2) auto
  then show ?thesis by (cases n) simp_all
qed

lemma parse_encode_record:
  assumes "lease_wf l"
  shows "parse_lease_record (encode_lease l) = Some l"
proof -
  let ?h = "map (\<lambda>c. word_of_nat (of_char c) :: u8) (dl_hostname l)"
  note w = assms [unfolded lease_wf_def]
  have t: "take 4 (encode_lease l) = be4 (dl_expires_in_secs l)"
    "take 4 (drop 4 (encode_lease l)) = be4 (dl_ip l)"
    "take 6 (drop 8 (encode_lease l)) = dl_mac l"
    "take 20 (drop 14 (encode_lease l)) = ?h @ replicate (20 - length (dl_hostname l)) 0"
    using w by (simp_all add: encode_lease_def)
  have a: "list_all (\<lambda>b. unat b < 128) ?h" "list_all (\<lambda>c. 0 < (of_char c :: nat)) (dl_hostname l)"
    using w by (auto simp: list_all_iff unat_of_char)
  have "bytes_to_string ?h = dl_hostname l"
    by (simp add: bytes_to_string_def o_def unat_of_char)
  with w show ?thesis
    by (simp add: parse_lease_record_def t Let_def takeWhile_hostname [OF a(2)] utf8_lossy_ascii [OF a(1)])
qed

lemma parse_encode_records: "list_all lease_wf ls \<Longrightarrow> parse_lease_records (concat (map encode_lease ls)) = ls"
proof (induction ls)
  case Nil
  show ?case by (simp add: parse_lease_records.simps DYN_LEASE_SIZE_def)
next
  case (Cons l ls)
  then show ?case by (subst parse_lease_records.simps) (simp add: parse_encode_record)
qed

lemma lease_records_slice_eq:
  "lease_records_slice data =
     (if length data \<ge> 8 \<and> (length data - 8) mod 36 = 0 then drop 8 data else data)"
proof -
  have "length data mod 36 \<noteq> 0" if "length data \<ge> 8" "(length data - 8) mod 36 = 0"
    using that by presburger
  then show ?thesis
    by (auto simp: lease_records_slice_def Let_def DYN_LEASE_SIZE_def LEASE_FILE_HEADER_LEN_def)
qed

text \<open>
  The lease file is read back. For every list of leases that can be on file (address, hardware
  address and remaining time not zero, host name of at most 20 ASCII characters), with the eight
  bytes of the time stamp before the records or without, the parser returns exactly these leases,
  in order; the size of the file alone decides whether there is a time stamp, whatever its value.
\<close>

theorem lease_file_roundtrip:
  assumes "list_all lease_wf ls" and "length header = 0 \<or> length header = 8"
  shows "parse_lease_file (header @ concat (map encode_lease ls)) = ls
    \<and> lease_records_slice (header @ concat (map encode_lease ls)) = concat (map encode_lease ls)"
proof -
  have "length (concat (map encode_lease ls)) = length ls * 36"
    using assms(1) by (induction ls) (auto simp: DYN_LEASE_SIZE_def)
  then have "lease_records_slice (header @ concat (map encode_lease ls)) = concat (map encode_lease ls)"
    using assms(2) by (auto simp: lease_records_slice_eq) presburger
  with parse_encode_records [OF assms(1)] show ?thesis by (simp add: parse_lease_file_def)
qed

theorem lease_file_roundtrip_witness:
  "parse_lease_file ([0, 0, 0, 0, 0x66, 0, 0, 0] @ concat (map encode_lease
     [\<lparr>dl_ip = 0xAC100065, dl_mac = [2, 0, 0, 0, 0, 1], dl_hostname = ''host'', dl_expires_in_secs = 600\<rparr>])) =
     [\<lparr>dl_ip = 0xAC100065, dl_mac = [2, 0, 0, 0, 0, 1], dl_hostname = ''host'', dl_expires_in_secs = 600\<rparr>]"
  by (rule conjunct1 [OF lease_file_roundtrip])
    (simp_all add: lease_wf_def trim_def trim_start_def is_ascii_space_def)

lemma select_lease_eq:
  "select_controlled_host_lease ls =
     (if ls = [] then None else find (\<lambda>l. dl_expires_in_secs l = Max (set (map dl_expires_in_secs ls))) ls)"
  by (auto simp: select_controlled_host_lease_def Let_def split: list.splits)

section \<open>Commands run on the board\<close>

lemma refresh_Some:
  "na_enabled h \<Longrightarrow> na_net h = Some n \<Longrightarrow> net_ifname e n w = Some ifname \<Longrightarrow> ifname \<noteq> [] \<Longrightarrow>
     refresh_ifname_from_net e w h = h\<lparr>na_ifname := Some ifname\<rparr>"
  by (simp add: refresh_ifname_from_net_def)

lemma wait_for_ifname_ready:
  "na_enabled h \<Longrightarrow> na_net h = Some n \<Longrightarrow> net_ifname e n w = Some ifname \<Longrightarrow> ifname \<noteq> [] \<Longrightarrow>
     wait_for_ifname IFACE_WAIT_ATTEMPTS e (h, w) = (Some ifname, h\<lparr>na_ifname := Some ifname\<rparr>, w)"
  by (simp add: IFACE_WAIT_ATTEMPTS_def eval_nat_numeral refresh_Some)

text \<open>
  What bringing the adapter up does. With a system on which every command succeeds, an enabled
  adapter whose interface is known and whose settings are an address and a mask runs, in this
  order: stop the DHCP server, flush the interface, add the address with the mask's prefix, bring
  the link up, set the default route if there is a gateway, and start the DHCP server with the
  derived pool, if there is one.
\<close>

theorem apply_l3_commands:
  assumes run: "\<And>p a v w. run_process e p a v w = (Inr out, w @ [(p, a, v)])" "po_success out"
    and sys: "\<And>w. script_is_file e w" "\<And>w. net_ifname e n w = Some ifname" "ifname \<noteq> []"
    and h: "na_enabled h" "na_net h = Some n" "\<not> starts_with ifname ''eth''"
    and cfg: "ipv4_mask_to_prefix (l3_subnet_mask (na_l3 h)) = Inr k" "ipv4_parse (l3_ip_address (na_l3 h)) = Some ip"
    and gw: "case l3_gateway (na_l3 h) of None \<Rightarrow> True | Some g \<Rightarrow> g = [] \<or> ipv4_parse g \<noteq> None"
  shows "apply_l3 e (h, w) = (Inr (), h\<lparr>na_ifname := Some ifname\<rparr>,
     w @ [(UDHCPD_SCRIPT, [''stop''], []),
          (''ip'', [''addr'', ''flush'', ''dev'', ifname], []),
          (''ip'', [''addr'', ''add'', l3_ip_address (na_l3 h) @ ''/'' @ nat_to_dec k, ''dev'', ifname], []),
          (''ip'', [''link'', ''set'', ''dev'', ifname, ''up''], [])]
       @ (case l3_gateway (na_l3 h) of
            None \<Rightarrow> []
          | Some g \<Rightarrow> if g = [] then []
                     else [(''ip'', [''route'', ''replace'', ''default'', ''via'', g, ''dev'', ifname, ''metric'', ''500''], [])])
       @ (case derive_dhcp_pool (l3_ip_address (na_l3 h)) (l3_subnet_mask (na_l3 h)) of
            Inl _ \<Rightarrow> []
          | Inr pool \<Rightarrow> [(UDHCPD_SCRIPT, [''start''],
              [(''IFACE'', ifname), (''SERVER_IP'', l3_ip_address (na_l3 h)), (''NETMASK'', l3_subnet_mask (na_l3 h)),
               (''START'', pool_start pool), (''END'', pool_end pool)])]))"
proof -
  have ip: "run_ip e args w = (Inr (), w @ [(''ip'', args, [])])" for args w
    by (simp add: run_ip_def run)
  have g: "apply_gateway e ifname (l3_gateway (na_l3 h)) w = (Inr (), w @
      (case l3_gateway (na_l3 h) of None \<Rightarrow> [] | Some g \<Rightarrow> if g = [] then []
        else [(''ip'', [''route'', ''replace'', ''default'', ''via'', g, ''dev'', ifname, ''metric'', ''500''], [])]))" for w
    using gw by (auto simp: apply_gateway_def ip split: option.splits)
  have stop: "dhcp_stop e w = w @ [(UDHCPD_SCRIPT, [''stop''], [])]" by (simp add: dhcp_stop_def sys run)
  have "wait_for_ifname IFACE_WAIT_ATTEMPTS e (h\<lparr>na_ifname := Some ifname\<rparr>, w) =
      (Some ifname, h\<lparr>na_ifname := Some ifname\<rparr>, w)" for w
    using wait_for_ifname_ready [of "h\<lparr>na_ifname := Some ifname\<rparr>" n e w ifname] h sys by simp
  then show ?thesis
    using h cfg
    by (simp add: apply_l3_def stop refresh_Some [OF h(1,2) sys(2,3)] apply_board_l3_def flush_addrs_def
        ip g dhcp_start_def sys run Let_def split: sum.splits)
qed

definition net_demo_env :: "(string \<times> string list \<times> (string \<times> string) list) list net_env" where
  "net_demo_env = \<lparr>
     run_process = (\<lambda>p a v w. (Inr \<lparr>po_success = True, po_code = Some 0, po_stdout = [], po_stderr = []\<rparr>, w @ [(p, a, v)])),
     script_is_file = (\<lambda>w. True), net_ifname = (\<lambda>n w. Some ''usb0''), net_sleep = (\<lambda>w. w)\<rparr>"

theorem apply_l3_commands_witness:
  "fst (apply_l3 net_demo_env (set_net (Some NcmClass) (net_new True), [])) = Inr ()"
proof -
  have m: "ipv4_mask_to_prefix ''255.255.255.0'' = Inr 24"
    using mask_prefix_roundtrip_aux [of "''255.255.255.0''" "0xFFFFFF00" 24]
    by (simp add: ipv4_parse_eval mask_eq_exp_minus_1)
  have i: "ipv4_parse ''172.16.0.1'' = Some 0xAC100001" by (simp add: ipv4_parse_eval)
  show ?thesis
    by (subst apply_l3_commands
        [where out = "\<lparr>po_success = True, po_code = Some 0, po_stdout = [], po_stderr = []\<rparr>"
           and n = NcmClass and ifname = "''usb0''" and k = 24 and ip = "0xAC100001"])
      (simp_all add: net_demo_env_def set_net_def net_new_def starts_with_def m i)
qed

text \<open>
  Uplink interfaces and bad settings. If the interface the system reports for the adapter is an
  \<open>eth\<close> interface, or the mask or the address of the settings is not one, bringing the adapter up
  fails without running any command but the one that stops the DHCP server. The refusal is not
  repeated at the end of the adapter's life: the name stays recorded, and the next change that is
  prepared flushes that interface and takes it down.
\<close>

theorem apply_l3_refusals:
  assumes "na_enabled h" and "na_net h = Some n"
    and "net_ifname e n (dhcp_stop e w) = Some ifname" and "ifname \<noteq> []"
    and "starts_with ifname ''eth'' \<or> \<not> is_ok (ipv4_mask_to_prefix (l3_subnet_mask (na_l3 h)))
         \<or> ipv4_parse (l3_ip_address (na_l3 h)) = None"
  shows "(\<exists>msg. apply_l3 e (h, w) = (Inl (InvalidArgument msg), h\<lparr>na_ifname := Some ifname\<rparr>, dhcp_stop e w))
    \<and> snd (fst (net_on_change e PrepareChange (snd (apply_l3 e (h, w))))) =
        flush_and_down e ifname (dhcp_stop e (dhcp_stop e w))"
proof -
  let ?h1 = "h\<lparr>na_ifname := Some ifname\<rparr>"
  have "wait_for_ifname IFACE_WAIT_ATTEMPTS e (?h1, dhcp_stop e w) = (Some ifname, ?h1, dhcp_stop e w)"
    using wait_for_ifname_ready [of ?h1 n e "dhcp_stop e w" ifname] assms by simp
  moreover have "\<exists>msg. apply_board_l3 e ifname (na_l3 h) (dhcp_stop e w) = (Inl (InvalidArgument msg), dhcp_stop e w)"
    using assms(5) by (cases "ipv4_mask_to_prefix (l3_subnet_mask (na_l3 h))") (auto simp: apply_board_l3_def)
  then obtain msg where "apply_board_l3 e ifname (na_l3 h) (dhcp_stop e w) = (Inl (InvalidArgument msg), dhcp_stop e w)" ..
  ultimately have "apply_l3 e (h, w) = (Inl (InvalidArgument msg), ?h1, dhcp_stop e w)"
    by (simp add: apply_l3_def Let_def assms(1) refresh_Some [OF assms(1-4)])
  then show ?thesis by (simp add: net_on_change_def Let_def)
qed

theorem apply_l3_refusals_witness:
  "\<exists>msg. fst (apply_l3 (net_demo_env\<lparr>net_ifname := (\<lambda>n w. Some ''eth0'')\<rparr>)
     (set_net (Some NcmClass) (net_new True), [])) = Inl (InvalidArgument msg)"
  using apply_l3_refusals [of "set_net (Some NcmClass) (net_new True)" NcmClass
      "net_demo_env\<lparr>net_ifname := (\<lambda>n w. Some ''eth0'')\<rparr>" "[]" "''eth0''"]
  by (auto simp: set_net_def net_new_def starts_with_def)

end
