(* ===== verification/Usb_Manager.thy ===== *)
theory Usb_Manager
  imports Hid_Devices Ums_Devices Uac_Device Net_Adapter
begin

text \<open>
  The device manager of the USB sidecar, \<^verbatim>\<open>manager.rs\<close>: it owns the device services, asks every
  service to agree to a change of the gadget, tears the gadget down, rebuilds and binds it, and
  tells the services how it ended. The services are the handles of the device theories; the
  \<open>usb_gadget\<close> crate and configfs are operations of \<open>usb_env\<close> on the world \<open>'w\<close>. A manager method
  runs to its end before the next one starts (the control loop owns the manager), so a method is
  one function on the pair of manager and world. The watch task that mirrors the controller's state
  in the cache is \<open>report_udc_state_if_changed\<close>, an operation of its own.
\<close>

section \<open>State\<close>

text \<open>
  The service map has one fixed key per kind of device, and each key holds its own kind: a record
  of options. A registered change handler is a shared reference to the handle of a service.
\<close>

record device_services =
  sv_ums :: "ums_handle option"
  sv_ums1 :: "ums1_handle option"
  sv_uac :: "uac_handle option"
  sv_kb :: "kb_state option"
  sv_rel :: "hid_state option"
  sv_abs :: "hid_state option"
  sv_net :: "net_handle option"

datatype handler_ref = HUms | HUms1 | HUac | HKb | HRel | HAbs | HNet

fun handler_name :: "handler_ref \<Rightarrow> string" where
  "handler_name HUms = UMS_VM_INQUIRY_STRING"
| "handler_name HUms1 = UMS_FT_INQUIRY_STRING"
| "handler_name HUac = UAC1_INSTANCE"
| "handler_name HKb = HID_KB_INSTANCE"
| "handler_name HRel = HID_REL_INSTANCE"
| "handler_name HAbs = HID_ABS_INSTANCE"
| "handler_name HNet = SERVICE_NAME"

record usb_manager =
  mg_base_info :: usb_base_info
  mg_switches :: device_switches
  mg_change_handlers :: "(string, handler_ref) hmap"
  mg_lifecycle_handlers :: "(string, lifecycle_event list) hmap"
  mg_udc_state_cache :: "udc_state option"
  mg_active_gadget :: "gadget option"
  mg_services :: device_services
  mg_op_locked :: bool
  mg_emulation_enabled :: bool
  mg_mic_process_enabled :: bool

datatype raw_udc_state = RawNotAttached | RawAttached | RawPowered | RawDefault | RawAddressed | RawConfigured
  | RawSuspended | RawOther string

record 'w usb_env =
  ue_fs :: "'w fs_env"
  ue_net :: "'w net_env"
  ue_spawn_ok :: "'w \<Rightarrow> bool"
  ue_ack_ok :: "'w \<Rightarrow> bool"
  ue_now :: "'w \<Rightarrow> nat"
  ue_sleep :: "nat \<Rightarrow> 'w \<Rightarrow> 'w"
  ue_udc_state :: "'w \<Rightarrow> (string, raw_udc_state) result"
  ue_root_exists :: "'w \<Rightarrow> bool"
  ue_read_udc :: "'w \<Rightarrow> (string, string) result"
  ue_write_udc :: "string \<Rightarrow> 'w \<Rightarrow> (string, unit) result \<times> 'w"
  ue_remove_tree :: "'w \<Rightarrow> (usb_error, unit) result \<times> 'w"
  ue_register :: "gadget \<Rightarrow> 'w \<Rightarrow> (string, unit) result \<times> 'w"
  ue_bind :: "gadget \<Rightarrow> 'w \<Rightarrow> (string, unit) result \<times> 'w"
  ue_unbind :: "gadget \<Rightarrow> 'w \<Rightarrow> (string, unit) result \<times> 'w"
  ue_drop :: "gadget \<Rightarrow> 'w \<Rightarrow> 'w"
  ue_func_dir :: "net_class \<Rightarrow> 'w \<Rightarrow> string option"
  ue_is_dir :: "string \<Rightarrow> 'w \<Rightarrow> bool"
  ue_write_attr :: "string \<Rightarrow> string \<Rightarrow> 'w \<Rightarrow> (string, unit) result \<times> 'w"

section \<open>Handlers\<close>

definition services_empty :: device_services where
  "services_empty = \<lparr>sv_ums = None, sv_ums1 = None, sv_uac = None, sv_kb = None, sv_rel = None, sv_abs = None, sv_net = None\<rparr>"

definition manager_new :: "usb_base_info \<Rightarrow> usb_manager" where
  "manager_new b = \<lparr>mg_base_info = b, mg_switches = switches_default, mg_change_handlers = [],
     mg_lifecycle_handlers = [], mg_udc_state_cache = None, mg_active_gadget = None,
     mg_services = services_empty, mg_op_locked = False, mg_emulation_enabled = True,
     mg_mic_process_enabled = False\<rparr>"

definition add_change_handler :: "handler_ref \<Rightarrow> usb_manager \<Rightarrow> (usb_error, unit) result \<times> usb_manager" where
  "add_change_handler r m =
     (if hm_get (mg_change_handlers m) (handler_name r) \<noteq> None
      then (Inl (InvalidArgument (''Change handler name('' @ handler_name r @ '') already exists'')), m)
      else (Inr (), m\<lparr>mg_change_handlers := hm_insert (handler_name r) r (mg_change_handlers m)\<rparr>))"

definition remove_change_handler :: "string \<Rightarrow> usb_manager \<Rightarrow> usb_manager" where
  "remove_change_handler name m = m\<lparr>mg_change_handlers := hm_remove name (mg_change_handlers m)\<rparr>"

definition add_lifecycle_handler :: "string \<Rightarrow> usb_manager \<Rightarrow> (usb_error, unit) result \<times> usb_manager" where
  "add_lifecycle_handler name m =
     (if hm_get (mg_lifecycle_handlers m) name \<noteq> None
      then (Inl (InvalidArgument (''Lifecycle handler name('' @ name @ '') already exists'')), m)
      else (Inr (), m\<lparr>mg_lifecycle_handlers := hm_insert name [] (mg_lifecycle_handlers m)\<rparr>))"

definition remove_lifecycle_handler :: "string \<Rightarrow> usb_manager \<Rightarrow> usb_manager" where
  "remove_lifecycle_handler name m = m\<lparr>mg_lifecycle_handlers := hm_remove name (mg_lifecycle_handlers m)\<rparr>"

definition snapshot_change_handlers :: "usb_manager \<Rightarrow> handler_ref list" where
  "snapshot_change_handlers m = map snd (mg_change_handlers m)"

text \<open>Delivery of a request to the handle a handler refers to.\<close>

definition on_handle ::
  "('h \<times> 'w \<Rightarrow> ('h \<times> 'w) \<times> change_response) \<Rightarrow> 'h option \<Rightarrow> ('h option \<Rightarrow> usb_manager) \<Rightarrow> 'w
   \<Rightarrow> (usb_manager \<times> 'w) \<times> change_response" where
  "on_handle f h put w =
     (case h of
        None \<Rightarrow> ((put None, w), Proceed)
      | Some a \<Rightarrow> (case f (a, w) of ((a', w'), r) \<Rightarrow> ((put (Some a'), w'), r)))"

definition with_world :: "('h \<Rightarrow> 'h \<times> change_response) \<Rightarrow> 'h \<times> 'w \<Rightarrow> ('h \<times> 'w) \<times> change_response" where
  "with_world f s = ((fst (f (fst s)), snd s), snd (f (fst s)))"

fun deliver ::
  "'w usb_env \<Rightarrow> change_request \<Rightarrow> handler_ref \<Rightarrow> usb_manager \<times> 'w \<Rightarrow> (usb_manager \<times> 'w) \<times> change_response" where
  "deliver e req HUms (m, w) = on_handle (ums_on_change (ue_fs e) req) (sv_ums (mg_services m))
     (\<lambda>h. m\<lparr>mg_services := (mg_services m)\<lparr>sv_ums := h\<rparr>\<rparr>) w"
| "deliver e req HUms1 (m, w) = on_handle (ums1_on_change (ue_fs e) req) (sv_ums1 (mg_services m))
     (\<lambda>h. m\<lparr>mg_services := (mg_services m)\<lparr>sv_ums1 := h\<rparr>\<rparr>) w"
| "deliver e req HUac (m, w) = on_handle (with_world (uac_on_change (ue_spawn_ok e w) (ue_ack_ok e w) req))
     (sv_uac (mg_services m)) (\<lambda>h. m\<lparr>mg_services := (mg_services m)\<lparr>sv_uac := h\<rparr>\<rparr>) w"
| "deliver e req HKb (m, w) = on_handle (with_world (kb_on_change (fs_functions (ue_fs e) w) req))
     (sv_kb (mg_services m)) (\<lambda>h. m\<lparr>mg_services := (mg_services m)\<lparr>sv_kb := h\<rparr>\<rparr>) w"
| "deliver e req HRel (m, w) = on_handle (with_world (rel_on_change (fs_functions (ue_fs e) w) req))
     (sv_rel (mg_services m)) (\<lambda>h. m\<lparr>mg_services := (mg_services m)\<lparr>sv_rel := h\<rparr>\<rparr>) w"
| "deliver e req HAbs (m, w) = on_handle (with_world (abs_on_change (fs_functions (ue_fs e) w) req))
     (sv_abs (mg_services m)) (\<lambda>h. m\<lparr>mg_services := (mg_services m)\<lparr>sv_abs := h\<rparr>\<rparr>) w"
| "deliver e req HNet (m, w) = on_handle (net_on_change (ue_net e) req) (sv_net (mg_services m))
     (\<lambda>h. m\<lparr>mg_services := (mg_services m)\<lparr>sv_net := h\<rparr>\<rparr>) w"

text \<open>The two loops over a snapshot of the handlers: notify all, and ask until one refuses.\<close>

fun notify_all :: "('h \<Rightarrow> 's \<Rightarrow> 's \<times> change_response) \<Rightarrow> 'h list \<Rightarrow> 's \<Rightarrow> 's" where
  "notify_all d [] s = s"
| "notify_all d (h # hs) s = notify_all d hs (fst (d h s))"

fun ask_all :: "('h \<Rightarrow> 's \<Rightarrow> 's \<times> change_response) \<Rightarrow> 'h list \<Rightarrow> 's \<Rightarrow> 's \<times> usb_error option" where
  "ask_all d [] s = (s, None)"
| "ask_all d (h # hs) s =
     (case d h s of
        (s', Reject reason) \<Rightarrow> (s', Some (ChangeRejected reason))
      | (s', Proceed) \<Rightarrow> ask_all d hs s')"

definition notify_handlers :: "'w usb_env \<Rightarrow> change_request \<Rightarrow> usb_manager \<times> 'w \<Rightarrow> usb_manager \<times> 'w" where
  "notify_handlers e req s = notify_all (deliver e req) (snapshot_change_handlers (fst s)) s"

definition ask_handlers ::
  "'w usb_env \<Rightarrow> change_request \<Rightarrow> usb_manager \<times> 'w \<Rightarrow> (usb_error, unit) result \<times> usb_manager \<times> 'w" where
  "ask_handlers e req s =
     (case ask_all (deliver e req) (snapshot_change_handlers (fst s)) s of
        (s', None) \<Rightarrow> (Inr (), s')
      | (s', Some err) \<Rightarrow> (Inl err, notify_handlers e ChangeCanceled s'))"

definition request_change_only :: "'w usb_env \<Rightarrow> usb_manager \<times> 'w \<Rightarrow> (usb_error, unit) result \<times> usb_manager \<times> 'w" where
  "request_change_only e s = ask_handlers e RequestChange s"

definition request_change_approval ::
  "'w usb_env \<Rightarrow> usb_manager \<times> 'w \<Rightarrow> (usb_error, unit) result \<times> usb_manager \<times> 'w" where
  "request_change_approval e s =
     (case request_change_only e s of
        (Inl err, s1) \<Rightarrow> (Inl err, s1)
      | (Inr _, s1) \<Rightarrow> ask_handlers e PrepareChange s1)"

definition preflight_gadget_change ::
  "'w usb_env \<Rightarrow> usb_manager \<times> 'w \<Rightarrow> (usb_error, unit) result \<times> usb_manager \<times> 'w" where
  "preflight_gadget_change e s = request_change_only e s"

section \<open>Services\<close>

definition add_service ::
  "handler_ref \<Rightarrow> (device_services \<Rightarrow> device_services) \<Rightarrow> usb_manager \<Rightarrow> usb_manager" where
  "add_service r put m = (let m1 = snd (add_change_handler r m) in m1\<lparr>mg_services := put (mg_services m1)\<rparr>)"

definition DEFAULT_UMS_MODE :: ums_mode where "DEFAULT_UMS_MODE = CdRom"

definition apply_ums_service :: "usb_manager \<Rightarrow> ums_mode \<times> usb_manager" where
  "apply_ums_service m =
     (let on = ums_vm_enabled (mg_switches m) in
      case sv_ums (mg_services m) of
        Some h \<Rightarrow> (um_mode h, m\<lparr>mg_services := (mg_services m)\<lparr>sv_ums := Some (ums_set_enabled on h)\<rparr>\<rparr>)
      | None \<Rightarrow> (DEFAULT_UMS_MODE, add_service HUms (\<lambda>sv. sv\<lparr>sv_ums := Some (ums_new DEFAULT_UMS_MODE on)\<rparr>) m))"

definition apply_ums1_service :: "usb_manager \<Rightarrow> usb_manager" where
  "apply_ums1_service m =
     (let on = ums_ft_enabled (mg_switches m) in
      case sv_ums1 (mg_services m) of
        Some h \<Rightarrow> m\<lparr>mg_services := (mg_services m)\<lparr>sv_ums1 := Some (ums1_set_enabled on h)\<rparr>\<rparr>
      | None \<Rightarrow> add_service HUms1 (\<lambda>sv. sv\<lparr>sv_ums1 := Some (ums1_new on)\<rparr>) m)"

definition apply_uac_service :: "usb_manager \<Rightarrow> usb_manager" where
  "apply_uac_service m =
     (let on = uac1_enabled (mg_switches m); mic = mg_mic_process_enabled m in
      case sv_uac (mg_services m) of
        Some h \<Rightarrow> m\<lparr>mg_services := (mg_services m)\<lparr>sv_uac := Some (uac_set_process_enabled mic (uac_set_enabled on h))\<rparr>\<rparr>
      | None \<Rightarrow> add_service HUac (\<lambda>sv. sv\<lparr>sv_uac := Some (uac_new on mic)\<rparr>) m)"

definition apply_kb_service :: "usb_manager \<Rightarrow> usb_manager" where
  "apply_kb_service m =
     (let on = hid_kb_enabled (mg_switches m) in
      case sv_kb (mg_services m) of
        Some h \<Rightarrow> m\<lparr>mg_services := (mg_services m)\<lparr>sv_kb := Some (kb_set_enabled on h)\<rparr>\<rparr>
      | None \<Rightarrow> add_service HKb (\<lambda>sv. sv\<lparr>sv_kb := Some (kb_new on)\<rparr>) m)"

definition apply_rel_service :: "usb_manager \<Rightarrow> usb_manager" where
  "apply_rel_service m =
     (let on = hid_rel_enabled (mg_switches m) in
      case sv_rel (mg_services m) of
        Some h \<Rightarrow> m\<lparr>mg_services := (mg_services m)\<lparr>sv_rel := Some (rel_set_enabled on h)\<rparr>\<rparr>
      | None \<Rightarrow> add_service HRel (\<lambda>sv. sv\<lparr>sv_rel := Some (rel_new on)\<rparr>) m)"

definition apply_abs_service :: "usb_manager \<Rightarrow> usb_manager" where
  "apply_abs_service m =
     (let on = hid_abs_enabled (mg_switches m) in
      case sv_abs (mg_services m) of
        Some h \<Rightarrow> m\<lparr>mg_services := (mg_services m)\<lparr>sv_abs := Some (abs_set_enabled on h)\<rparr>\<rparr>
      | None \<Rightarrow> add_service HAbs (\<lambda>sv. sv\<lparr>sv_abs := Some (abs_new on)\<rparr>) m)"

definition apply_net_service :: "usb_manager \<Rightarrow> usb_manager" where
  "apply_net_service m =
     (let on = network_adapter_enabled (mg_switches m) in
      case sv_net (mg_services m) of
        Some h \<Rightarrow> m\<lparr>mg_services := (mg_services m)\<lparr>sv_net := Some (net_set_enabled on h)\<rparr>\<rparr>
      | None \<Rightarrow> add_service HNet (\<lambda>sv. sv\<lparr>sv_net := Some (net_new on)\<rparr>) m)"

definition apply_device_services :: "usb_manager \<Rightarrow> ums_mode \<times> usb_manager" where
  "apply_device_services m =
     (case apply_ums_service m of (mode, m1) \<Rightarrow>
        (mode, apply_net_service (apply_abs_service (apply_rel_service (apply_kb_service
                 (apply_uac_service (apply_ums1_service m1)))))))"

section \<open>Controller state\<close>

fun map_udc_state :: "raw_udc_state \<Rightarrow> udc_state option" where
  "map_udc_state RawNotAttached = Some NotAttached"
| "map_udc_state RawAttached = Some Attached"
| "map_udc_state RawPowered = Some Powered"
| "map_udc_state RawDefault = Some UdcDefault"
| "map_udc_state RawAddressed = Some Address"
| "map_udc_state RawConfigured = Some Configured"
| "map_udc_state RawSuspended = Some Suspended"
| "map_udc_state (RawOther s) = None"

definition is_recovered_state :: "udc_state \<Rightarrow> bool" where
  "is_recovered_state s = (s = NotAttached)"

fun raw_to_string :: "raw_udc_state \<Rightarrow> string" where
  "raw_to_string RawNotAttached = ''not attached''"
| "raw_to_string RawAttached = ''attached''"
| "raw_to_string RawPowered = ''powered''"
| "raw_to_string RawDefault = ''default''"
| "raw_to_string RawAddressed = ''addressed''"
| "raw_to_string RawConfigured = ''configured''"
| "raw_to_string RawSuspended = ''suspended''"
| "raw_to_string (RawOther s) = s"

definition emit_lifecycle :: "lifecycle_event \<Rightarrow> usb_manager \<Rightarrow> usb_manager" where
  "emit_lifecycle ev m =
     m\<lparr>mg_lifecycle_handlers := map (\<lambda>(n, evs). (n, evs @ [ev])) (mg_lifecycle_handlers m)\<rparr>"

text \<open>\<open>last_state\<close> is the variable of the watch task.\<close>

definition report_udc_state_if_changed ::
  "raw_udc_state \<Rightarrow> udc_state option \<times> usb_manager \<Rightarrow> udc_state option \<times> usb_manager" where
  "report_udc_state_if_changed raw s =
     (case s of (last_state, m) \<Rightarrow>
        (case map_udc_state raw of
           Some st \<Rightarrow>
             if last_state = Some st then (last_state, m)
             else (Some st, emit_lifecycle (UdcStateChanged st) (m\<lparr>mg_udc_state_cache := Some st\<rparr>))
         | None \<Rightarrow> (last_state, emit_lifecycle (Warning (''unsupported UDC state: '' @ raw_to_string raw)) m)))"

definition udc_watch_step ::
  "(string, raw_udc_state) result \<Rightarrow> udc_state option \<times> usb_manager \<Rightarrow> udc_state option \<times> usb_manager" where
  "udc_watch_step r s =
     (case r of
        Inr raw \<Rightarrow> report_udc_state_if_changed raw s
      | Inl msg \<Rightarrow> (fst s, emit_lifecycle (Warning msg) (snd s)))"

definition get_udc_status_sysfs :: "usb_manager \<Rightarrow> string" where
  "get_udc_status_sysfs m =
     (case mg_udc_state_cache m of Some st \<Rightarrow> udc_state_to_sysfs st | None \<Rightarrow> ''unknown'')"

definition UDC_RECOVER_TIMEOUT :: nat where "UDC_RECOVER_TIMEOUT = 20000"

definition UDC_RECOVER_CHECK_INTERVAL :: nat where "UDC_RECOVER_CHECK_INTERVAL = 100"

definition GADGET_TEARDOWN_SETTLE :: nat where "GADGET_TEARDOWN_SETTLE = 500"

fun udc_state_debug :: "udc_state \<Rightarrow> string" where
  "udc_state_debug NotAttached = ''NotAttached''"
| "udc_state_debug Attached = ''Attached''"
| "udc_state_debug Powered = ''Powered''"
| "udc_state_debug UdcDefault = ''Default''"
| "udc_state_debug Address = ''Address''"
| "udc_state_debug Configured = ''Configured''"
| "udc_state_debug Suspended = ''Suspended''"

definition udc_timeout_error :: "usb_manager \<Rightarrow> usb_error" where
  "udc_timeout_error m =
     UDCError (''USB gadget busy: timed out waiting UDC recover (last state: ''
       @ (case mg_udc_state_cache m of None \<Rightarrow> ''None'' | Some st \<Rightarrow> ''Some('' @ udc_state_debug st @ '')'') @ '')'')"

definition probe_udc :: "'w usb_env \<Rightarrow> usb_manager \<times> 'w \<Rightarrow> usb_manager" where
  "probe_udc e s =
     (case s of (m, w) \<Rightarrow>
        (case ue_udc_state e w of
           Inl _ \<Rightarrow> m
         | Inr raw \<Rightarrow>
             (case map_udc_state raw of
                None \<Rightarrow> m
              | Some st \<Rightarrow> m\<lparr>mg_udc_state_cache := Some st\<rparr>)))"

definition udc_recovered :: "'w usb_env \<Rightarrow> usb_manager \<times> 'w \<Rightarrow> bool" where
  "udc_recovered e s =
     (case s of (m, w) \<Rightarrow>
        (case ue_udc_state e w of
           Inl _ \<Rightarrow> False
         | Inr raw \<Rightarrow> (case map_udc_state raw of None \<Rightarrow> False | Some st \<Rightarrow> is_recovered_state st)))"

text \<open>
  The waiting loop. Each round that does not return sleeps 100 ms, so after 200 rounds the deadline
  of 20 s has passed; \<open>n\<close> counts the rounds that are left, and running out of them is the
  deadline (lemma \<open>wait_fuel_enough\<close> of \<open>Usb_Lifecycle\<close>).
\<close>

fun wait_udc_loop ::
  "nat \<Rightarrow> nat \<Rightarrow> 'w usb_env \<Rightarrow> usb_manager \<times> 'w \<Rightarrow> (usb_error, unit) result \<times> usb_manager \<times> 'w" where
  "wait_udc_loop n deadline e (m, w) =
     (if (case mg_udc_state_cache m of Some st \<Rightarrow> is_recovered_state st | None \<Rightarrow> False) then (Inr (), m, w)
      else let m1 = probe_udc e (m, w) in
        if udc_recovered e (m, w) then (Inr (), m1, w)
        else if ue_now e w \<ge> deadline then (Inl (udc_timeout_error m1), m1, w)
        else case n of
               0 \<Rightarrow> (Inl (udc_timeout_error m1), m1, w)
             | Suc k \<Rightarrow> wait_udc_loop k deadline e (m1, ue_sleep e UDC_RECOVER_CHECK_INTERVAL w))"

declare wait_udc_loop.simps [simp del]

definition wait_for_udc_recovered ::
  "'w usb_env \<Rightarrow> usb_manager \<times> 'w \<Rightarrow> (usb_error, unit) result \<times> usb_manager \<times> 'w" where
  "wait_for_udc_recovered e s =
     wait_udc_loop (UDC_RECOVER_TIMEOUT div UDC_RECOVER_CHECK_INTERVAL) (ue_now e (snd s) + UDC_RECOVER_TIMEOUT) e s"

section \<open>Tearing down and binding\<close>

definition unbind_udc_file_if_bound :: "'w usb_env \<Rightarrow> 'w \<Rightarrow> bool \<times> 'w" where
  "unbind_udc_file_if_bound e w =
     (if \<not> ue_root_exists e w then (False, w)
      else let bound = (case ue_read_udc e w of Inr name \<Rightarrow> trim name \<noteq> [] | Inl _ \<Rightarrow> True) in
        if \<not> bound then (False, w)
        else (case ue_write_udc e NEWLINE w of (Inr _, w') \<Rightarrow> (True, w') | (Inl _, w') \<Rightarrow> (False, w')))"

definition release_gadget_configfs ::
  "'w usb_env \<Rightarrow> usb_manager \<times> 'w \<Rightarrow> (usb_error, unit) result \<times> usb_manager \<times> 'w" where
  "release_gadget_configfs e s =
     (case s of (m, w) \<Rightarrow>
        if \<not> ue_root_exists e w then (Inr (), m, w)
        else case wait_for_udc_recovered e (m, snd (unbind_udc_file_if_bound e w)) of
               (_, m1, w1) \<Rightarrow>
                 (case ue_remove_tree e (ue_sleep e GADGET_TEARDOWN_SETTLE w1) of (r, w2) \<Rightarrow> (r, m1, w2)))"

definition unbind_active_gadget ::
  "'w usb_env \<Rightarrow> usb_manager \<times> 'w \<Rightarrow> (usb_error, unit) result \<times> usb_manager \<times> 'w" where
  "unbind_active_gadget e s =
     (case s of (m, w) \<Rightarrow>
        (case mg_active_gadget m of
           None \<Rightarrow> release_gadget_configfs e (m, w)
         | Some g \<Rightarrow> release_gadget_configfs e (m\<lparr>mg_active_gadget := None\<rparr>, snd (ue_unbind e g w))))"

definition write_attr :: "'w usb_env \<Rightarrow> string \<Rightarrow> string \<Rightarrow> 'w \<Rightarrow> (usb_error, unit) result \<times> 'w" where
  "write_attr e path val w =
     (case ue_write_attr e path val w of
        (Inl err, w') \<Rightarrow> (Inl (IoError (''failed to write '' @ path @ '': '' @ err)), w')
      | (Inr _, w') \<Rightarrow> (Inr (), w'))"

definition rndis_apply_ms_os_compat :: "'w usb_env \<Rightarrow> net_class \<Rightarrow> 'w \<Rightarrow> (usb_error, unit) result \<times> 'w" where
  "rndis_apply_ms_os_compat e net w =
     (case ue_func_dir e net w of
        None \<Rightarrow> (Inl (DeviceNotFound ''RNDIS function path not ready (gadget not registered yet)''), w)
      | Some dir \<Rightarrow>
          let iface = dir @ ''/os_desc/interface.rndis'' in
          if \<not> ue_is_dir e iface w
          then (Inl (DeviceNotFound (''RNDIS os_desc interface missing: '' @ iface)), w)
          else case write_attr e (iface @ ''/compatible_id'') ''RNDIS'' w of
                 (Inl err, w1) \<Rightarrow> (Inl err, w1)
               | (Inr _, w1) \<Rightarrow> write_attr e (iface @ ''/sub_compatible_id'') ''5162001'' w1)"

definition apply_ms_os_compat :: "'w usb_env \<Rightarrow> net_class \<Rightarrow> net_class \<Rightarrow> 'w \<Rightarrow> (usb_error, unit) result \<times> 'w" where
  "apply_ms_os_compat e net adapter_type w =
     (case adapter_type of RndisClass \<Rightarrow> rndis_apply_ms_os_compat e net w | NcmClass \<Rightarrow> (Inr (), w))"

definition on_gadget_registered ::
  "'w usb_env \<Rightarrow> net_class option \<Rightarrow> device_switches \<Rightarrow> 'w \<Rightarrow> (usb_error, unit) result \<times> 'w" where
  "on_gadget_registered e net sw w =
     (case net of
        None \<Rightarrow> (Inr (), w)
      | Some n \<Rightarrow>
          apply_ms_os_compat e n
            (adapter_type_from_i32 (case network_adapter sw of None \<Rightarrow> 0 | Some na \<Rightarrow> nas_adapter_type na)) w)"

definition register_and_bind ::
  "'w usb_env \<Rightarrow> gadget \<Rightarrow> net_class option \<Rightarrow> device_switches \<Rightarrow> 'w \<Rightarrow> (usb_error, unit) result \<times> 'w" where
  "register_and_bind e g net sw w =
     (case ue_register e g w of
        (Inl err, w1) \<Rightarrow> (Inl (GadgetError err), w1)
      | (Inr _, w1) \<Rightarrow>
          (case on_gadget_registered e net sw w1 of
             (Inl err, w2) \<Rightarrow> (Inl err, ue_drop e g w2)
           | (Inr _, w2) \<Rightarrow>
               (case ue_bind e g w2 of
                  (Inl err, w3) \<Rightarrow> (Inl (GadgetError err), ue_drop e g w3)
                | (Inr _, w3) \<Rightarrow> (Inr (), w3))))"

definition bind_gadget_from_current_switches ::
  "'w usb_env \<Rightarrow> usb_manager \<times> 'w \<Rightarrow> (usb_error, unit) result \<times> usb_manager \<times> 'w" where
  "bind_gadget_from_current_switches e s =
     (case apply_device_services (fst s) of (mode, m0) \<Rightarrow>
      case release_gadget_configfs e (m0, snd s) of (_, m1, w1) \<Rightarrow>
        if \<not> has_any_enabled (mg_switches m1) then (Inr (), m1, w1)
        else case build_gadget (mg_base_info m1) (mg_switches m1) mode of
          Inl err \<Rightarrow> (Inl err, m1, w1)
        | Inr (g, net) \<Rightarrow>
            (case register_and_bind e g net (mg_switches m1) w1 of
               (Inl err, w2) \<Rightarrow> (Inl err, m1, w2)
             | (Inr _, w2) \<Rightarrow>
                 let m2 = m1\<lparr>mg_active_gadget := Some g\<rparr> in
                 (Inr (), m2\<lparr>mg_services := (mg_services m2)\<lparr>sv_net := map_option (set_net net) (sv_net (mg_services m2))\<rparr>\<rparr>,
                  w2)))"

section \<open>Changing the gadget\<close>

definition OP_BUSY :: usb_error where
  "OP_BUSY = GadgetError ''USB gadget operation in progress''"

definition rebuild_or_restore ::
  "'w usb_env \<Rightarrow> usb_base_info option \<Rightarrow> device_switches option \<Rightarrow> usb_manager \<times> 'w
   \<Rightarrow> (usb_error, unit) result \<times> usb_manager \<times> 'w" where
  "rebuild_or_restore e base sws s =
     (let m = fst s;
          old_base = mg_base_info m;
          old_switches = mg_switches m;
          m1 = (case base of Some b \<Rightarrow> m\<lparr>mg_base_info := b\<rparr> | None \<Rightarrow> m);
          m2 = (case sws of Some sw \<Rightarrow> m1\<lparr>mg_switches := sw\<rparr> | None \<Rightarrow> m1)
      in case bind_gadget_from_current_switches e (m2, snd s) of
           (Inl err, m3, w3) \<Rightarrow>
             (case bind_gadget_from_current_switches e
                     (m3\<lparr>mg_base_info := old_base, mg_switches := old_switches\<rparr>, w3) of
                (_, s4) \<Rightarrow> (Inl err, notify_handlers e ChangeCanceled s4))
         | (Inr _, s3) \<Rightarrow> (Inr (), notify_handlers e ChangeCompleted s3))"

definition apply_switches_locked ::
  "'w usb_env \<Rightarrow> usb_base_info option \<Rightarrow> device_switches option \<Rightarrow> usb_manager \<times> 'w
   \<Rightarrow> (usb_error, unit) result \<times> usb_manager \<times> 'w" where
  "apply_switches_locked e base sws s =
     (let m = fst s in
      if \<not> mg_emulation_enabled m then (Inl (GadgetError ''USB emulation disabled''), s)
      else case check_endpoint_budget (case sws of Some sw \<Rightarrow> sw | None \<Rightarrow> mg_switches m) of
        Inl err \<Rightarrow> (Inl err, s)
      | Inr _ \<Rightarrow>
        (case request_change_approval e s of
           (Inl err, s1) \<Rightarrow> (Inl err, s1)
         | (Inr _, s1) \<Rightarrow>
           (case unbind_active_gadget e s1 of
              (Inl err, s2) \<Rightarrow> (Inl err, s2)
            | (Inr _, s2) \<Rightarrow> rebuild_or_restore e base sws s2)))"

definition apply_switches ::
  "'w usb_env \<Rightarrow> usb_base_info option \<Rightarrow> device_switches option \<Rightarrow> usb_manager \<times> 'w
   \<Rightarrow> (usb_error, unit) result \<times> usb_manager \<times> 'w" where
  "apply_switches e base sws s =
     (if mg_op_locked (fst s) then (Inl OP_BUSY, s) else apply_switches_locked e base sws s)"

definition update_base_info ::
  "'w usb_env \<Rightarrow> usb_base_info \<Rightarrow> usb_manager \<times> 'w \<Rightarrow> (usb_error, unit) result \<times> usb_manager \<times> 'w" where
  "update_base_info e b s = apply_switches e (Some b) None s"

definition set_emulation_enabled_locked ::
  "'w usb_env \<Rightarrow> bool \<Rightarrow> usb_manager \<times> 'w \<Rightarrow> (usb_error, unit) result \<times> usb_manager \<times> 'w" where
  "set_emulation_enabled_locked e enabled s =
     (let m = fst s in
      if enabled
      then if mg_active_gadget m \<noteq> None then (Inr (), m\<lparr>mg_emulation_enabled := True\<rparr>, snd s)
           else case request_change_approval e s of
             (Inl err, s1) \<Rightarrow> (Inl err, s1)
           | (Inr _, s1) \<Rightarrow>
               (case bind_gadget_from_current_switches e s1 of
                  (Inl err, s2) \<Rightarrow> (Inl err, s2)
                | (Inr _, m2, w2) \<Rightarrow>
                    (Inr (), notify_handlers e ChangeCompleted (m2\<lparr>mg_emulation_enabled := True\<rparr>, w2)))
      else if mg_active_gadget m = None
           then case release_gadget_configfs e s of (_, m1, w1) \<Rightarrow> (Inr (), m1\<lparr>mg_emulation_enabled := False\<rparr>, w1)
           else case request_change_approval e s of
             (Inl err, s1) \<Rightarrow> (Inl err, s1)
           | (Inr _, s1) \<Rightarrow>
               (case unbind_active_gadget e s1 of
                  (Inl err, s2) \<Rightarrow> (Inl err, s2)
                | (Inr _, m2, w2) \<Rightarrow>
                    (Inr (), notify_handlers e ChangeCompleted (m2\<lparr>mg_emulation_enabled := False\<rparr>, w2))))"

definition set_emulation_enabled ::
  "'w usb_env \<Rightarrow> bool \<Rightarrow> usb_manager \<times> 'w \<Rightarrow> (usb_error, unit) result \<times> usb_manager \<times> 'w" where
  "set_emulation_enabled e enabled s =
     (if mg_op_locked (fst s) then (Inl OP_BUSY, s) else set_emulation_enabled_locked e enabled s)"

definition get_emulation_enabled :: "usb_manager \<Rightarrow> bool" where
  "get_emulation_enabled m = (mg_emulation_enabled m \<and> mg_active_gadget m \<noteq> None)"

definition needs_initial_bind :: "usb_manager \<Rightarrow> bool" where
  "needs_initial_bind m = (mg_emulation_enabled m \<and> mg_active_gadget m = None)"

section \<open>Microphone and network settings\<close>

definition set_mic_process_enabled :: "bool \<Rightarrow> usb_manager \<Rightarrow> usb_manager" where
  "set_mic_process_enabled b m = m\<lparr>mg_mic_process_enabled := b\<rparr>"

definition apply_mic_process_enabled ::
  "'w usb_env \<Rightarrow> bool \<Rightarrow> usb_manager \<times> 'w \<Rightarrow> (usb_error, unit) result \<times> usb_manager \<times> 'w" where
  "apply_mic_process_enabled e b s =
     (case s of (m, w) \<Rightarrow>
        let m1 = set_mic_process_enabled b m in
        case sv_uac (mg_services m1) of
          None \<Rightarrow> (Inr (), m1, w)
        | Some h \<Rightarrow>
            (case sync_process_state (ue_spawn_ok e w) (ue_ack_ok e w) (uac_set_process_enabled b h) of
               (r, h') \<Rightarrow> (r, m1\<lparr>mg_services := (mg_services m1)\<lparr>sv_uac := Some h'\<rparr>\<rparr>, w)))"

definition is_mic_process_running :: "usb_manager \<Rightarrow> bool" where
  "is_mic_process_running m =
     (case sv_uac (mg_services m) of None \<Rightarrow> False | Some h \<Rightarrow> uac_is_process_running h)"

definition set_network_adapter_l3_config :: "adapter_l3_settings option \<Rightarrow> usb_manager \<Rightarrow> usb_manager" where
  "set_network_adapter_l3_config l3 m =
     (let m1 = (case sv_net (mg_services m) of
                  Some _ \<Rightarrow> m
                | None \<Rightarrow> add_service HNet
                    (\<lambda>sv. sv\<lparr>sv_net := Some (net_new (network_adapter_enabled (mg_switches m)))\<rparr>) m)
      in m1\<lparr>mg_services := (mg_services m1)\<lparr>sv_net := map_option (set_l3_from_proto l3) (sv_net (mg_services m1))\<rparr>\<rparr>)"

definition apply_network_adapter_l3_only ::
  "'w usb_env \<Rightarrow> usb_manager \<times> 'w \<Rightarrow> (usb_error, unit) result \<times> usb_manager \<times> 'w" where
  "apply_network_adapter_l3_only e s =
     (case s of (m, w) \<Rightarrow>
        (case sv_net (mg_services m) of
           None \<Rightarrow> (Inl (DeviceNotFound ''network adapter service not initialized''), m, w)
         | Some h \<Rightarrow>
             (case apply_l3 (ue_net e) (h, w) of
                (r, h', w') \<Rightarrow> (r, m\<lparr>mg_services := (mg_services m)\<lparr>sv_net := Some h'\<rparr>\<rparr>, w'))))"

section \<open>Mass-storage control\<close>

datatype ums_target = TargetUnspecified | UmsVm | UmsFt

datatype ums_operation = UmsOpUnspecified | UmsMount | UmsUnmount | UmsSwitchVmMode | UmsGetMountState

definition ums_operation_from_i32 :: "int \<Rightarrow> ums_operation" where
  "ums_operation_from_i32 n =
     (if n = 1 then UmsMount else if n = 2 then UmsUnmount else if n = 3 then UmsSwitchVmMode
      else if n = 4 then UmsGetMountState else UmsOpUnspecified)"

definition ums_target_from_i32 :: "int \<Rightarrow> ums_target" where
  "ums_target_from_i32 n = (if n = 1 then UmsVm else if n = 2 then UmsFt else TargetUnspecified)"

record ums_control_request =
  ur_operation :: int
  ur_target :: int
  ur_image_path :: string
  ur_vm_type :: int

record ums_control_response =
  us_ok :: bool
  us_error :: "string option"
  us_mounted :: bool
  us_mounted_path :: string
  us_vm_type :: int

definition proto_vm_type_to_ums_mode :: "int \<Rightarrow> ums_mode" where
  "proto_vm_type_to_ums_mode n = (if n = 2 then Disk else CdRom)"

fun ums_mode_to_proto :: "ums_mode \<Rightarrow> int" where
  "ums_mode_to_proto Disk = 2"
| "ums_mode_to_proto CdRom = 1"

definition ums_resp_ok :: ums_control_response where
  "ums_resp_ok = \<lparr>us_ok = True, us_error = None, us_mounted = False, us_mounted_path = [], us_vm_type = 0\<rparr>"

definition ums_resp_vm_state :: "ums_vm_state \<Rightarrow> ums_control_response" where
  "ums_resp_vm_state st = \<lparr>us_ok = True, us_error = None, us_mounted = vs_mounted st,
     us_mounted_path = (case vs_mounted_path st of None \<Rightarrow> [] | Some p \<Rightarrow> p), us_vm_type = ums_mode_to_proto (vs_mode st)\<rparr>"

definition ums_resp_mount_state :: "bool \<Rightarrow> string \<Rightarrow> ums_control_response" where
  "ums_resp_mount_state mounted path =
     \<lparr>us_ok = True, us_error = None, us_mounted = mounted, us_mounted_path = path, us_vm_type = 0\<rparr>"

definition ums_resp_err :: "string \<Rightarrow> ums_control_response" where
  "ums_resp_err msg = \<lparr>us_ok = False, us_error = Some msg, us_mounted = False, us_mounted_path = [], us_vm_type = 0\<rparr>"

definition ums_resp_of :: "(usb_error, unit) result \<Rightarrow> ums_control_response" where
  "ums_resp_of r = (case r of Inr _ \<Rightarrow> ums_resp_ok | Inl err \<Rightarrow> ums_resp_err (usb_error_to_string err))"

definition put_ums :: "ums_handle \<Rightarrow> usb_manager \<Rightarrow> usb_manager" where
  "put_ums h m = m\<lparr>mg_services := (mg_services m)\<lparr>sv_ums := Some h\<rparr>\<rparr>"

definition put_ums1 :: "ums1_handle \<Rightarrow> usb_manager \<Rightarrow> usb_manager" where
  "put_ums1 h m = m\<lparr>mg_services := (mg_services m)\<lparr>sv_ums1 := Some h\<rparr>\<rparr>"

definition is_ums_vm_mounted :: "usb_manager \<Rightarrow> bool" where
  "is_ums_vm_mounted m = (case sv_ums (mg_services m) of Some h \<Rightarrow> ums_is_mounted h | None \<Rightarrow> False)"

definition is_ums_ft_mounted :: "usb_manager \<Rightarrow> bool" where
  "is_ums_ft_mounted m = (case sv_ums1 (mg_services m) of Some h \<Rightarrow> ums1_is_mounted h | None \<Rightarrow> False)"

definition ums_vm_mount_state :: "usb_manager \<Rightarrow> ums_control_response" where
  "ums_vm_mount_state m =
     (case sv_ums (mg_services m) of
        Some h \<Rightarrow> ums_resp_vm_state (collect_state h)
      | None \<Rightarrow> ums_resp_vm_state \<lparr>vs_mode = DEFAULT_UMS_MODE, vs_mounted = False, vs_mounted_path = None,
                                    vs_enabled = False\<rparr>)"

definition ums_ft_mount_state :: "usb_manager \<Rightarrow> ums_control_response" where
  "ums_ft_mount_state m =
     (case sv_ums1 (mg_services m) of
        Some h \<Rightarrow> (let p = (case um_file_path h of Some p \<Rightarrow> p | None \<Rightarrow> []) in ums_resp_mount_state (p \<noteq> []) p)
      | None \<Rightarrow> ums_resp_mount_state False [])"

definition ums_vm_unmount :: "'w usb_env \<Rightarrow> usb_manager \<times> 'w \<Rightarrow> ums_control_response \<times> usb_manager \<times> 'w" where
  "ums_vm_unmount e s =
     (case s of (m, w) \<Rightarrow>
        (case sv_ums (mg_services m) of
           None \<Rightarrow> (ums_resp_ok, m, w)
         | Some h \<Rightarrow> (case unmount_ums (ue_fs e) (h, w) of (r, h', w') \<Rightarrow> (ums_resp_of r, put_ums h' m, w'))))"

definition ums_ft_unmount :: "'w usb_env \<Rightarrow> usb_manager \<times> 'w \<Rightarrow> ums_control_response \<times> usb_manager \<times> 'w" where
  "ums_ft_unmount e s =
     (case s of (m, w) \<Rightarrow>
        (case sv_ums1 (mg_services m) of
           None \<Rightarrow> (ums_resp_ok, m, w)
         | Some h \<Rightarrow> (case unmount_ums1 (ue_fs e) (h, w) of (r, h', w') \<Rightarrow> (ums_resp_of r, put_ums1 h' m, w'))))"

definition mount_vm_image :: "'w usb_env \<Rightarrow> string \<Rightarrow> usb_manager \<times> 'w \<Rightarrow> (usb_error, unit) result \<times> usb_manager \<times> 'w" where
  "mount_vm_image e path s =
     (case s of (m, w) \<Rightarrow>
        (case sv_ums (mg_services m) of
           None \<Rightarrow> (Inr (), m, w)
         | Some h \<Rightarrow> (case mount_ums (ue_fs e) path (h, w) of (r, h', w') \<Rightarrow> (r, put_ums h' m, w'))))"

definition ums_vm_mount ::
  "'w usb_env \<Rightarrow> string \<Rightarrow> int \<Rightarrow> usb_manager \<times> 'w \<Rightarrow> ums_control_response \<times> usb_manager \<times> 'w" where
  "ums_vm_mount e path vm_type s =
     (case s of (m, w) \<Rightarrow>
        (case sv_ums (mg_services m) of
           None \<Rightarrow> (ums_resp_err ''virtual media controller not initialized'', m, w)
         | Some h \<Rightarrow>
             (case switch_mode (proto_vm_type_to_ums_mode vm_type) h of
                (Inl err, h1) \<Rightarrow> (ums_resp_err (usb_error_to_string err), put_ums h1 m, w)
              | (Inr rebuild, h1) \<Rightarrow>
                  (case (if rebuild then apply_switches e None None (put_ums h1 m, w) else (Inr (), put_ums h1 m, w)) of
                     (Inl err, s2) \<Rightarrow> (ums_resp_err (usb_error_to_string err), s2)
                   | (Inr _, s2) \<Rightarrow> (case mount_vm_image e path s2 of (r, s3) \<Rightarrow> (ums_resp_of r, s3))))))"

definition ums_ft_mount :: "'w usb_env \<Rightarrow> string \<Rightarrow> usb_manager \<times> 'w \<Rightarrow> ums_control_response \<times> usb_manager \<times> 'w" where
  "ums_ft_mount e path s =
     (case s of (m, w) \<Rightarrow>
        (case sv_ums1 (mg_services m) of
           None \<Rightarrow> (ums_resp_err ''file transfer controller not initialized'', m, w)
         | Some h \<Rightarrow> (case mount_ums1 (ue_fs e) path (h, w) of (r, h', w') \<Rightarrow> (ums_resp_of r, put_ums1 h' m, w'))))"

definition ums_vm_switch_mode ::
  "'w usb_env \<Rightarrow> ums_mode \<Rightarrow> usb_manager \<times> 'w \<Rightarrow> ums_control_response \<times> usb_manager \<times> 'w" where
  "ums_vm_switch_mode e mode s =
     (case s of (m, w) \<Rightarrow>
        (case sv_ums (mg_services m) of
           None \<Rightarrow> (ums_resp_err ''virtual media controller not initialized'', m, w)
         | Some h \<Rightarrow>
             (case switch_mode mode h of
                (Inl err, h1) \<Rightarrow> (ums_resp_err (usb_error_to_string err), put_ums h1 m, w)
              | (Inr rebuild, h1) \<Rightarrow>
                  (if rebuild
                   then case apply_switches e None None (put_ums h1 m, w) of (r, s2) \<Rightarrow> (ums_resp_of r, s2)
                   else (ums_resp_ok, put_ums h1 m, w)))))"

definition handle_ums_control ::
  "'w usb_env \<Rightarrow> ums_control_request \<Rightarrow> usb_manager \<times> 'w \<Rightarrow> ums_control_response \<times> usb_manager \<times> 'w" where
  "handle_ums_control e req s =
     (let target = ums_target_from_i32 (ur_target req); path = ur_image_path req in
      case ums_operation_from_i32 (ur_operation req) of
        UmsOpUnspecified \<Rightarrow> (ums_resp_err ''unspecified ums operation'', s)
      | UmsGetMountState \<Rightarrow>
          (case target of
             UmsVm \<Rightarrow> (ums_vm_mount_state (fst s), s)
           | UmsFt \<Rightarrow> (ums_ft_mount_state (fst s), s)
           | _ \<Rightarrow> (ums_resp_err ''get_mount_state requires ums_vm or ums_ft target'', s))
      | UmsUnmount \<Rightarrow>
          (case target of
             UmsVm \<Rightarrow> ums_vm_unmount e s
           | UmsFt \<Rightarrow> ums_ft_unmount e s
           | _ \<Rightarrow> (ums_resp_err ''unmount requires ums_vm or ums_ft target'', s))
      | UmsMount \<Rightarrow>
          if path = [] \<or> path = NEWLINE
          then (case target of
                  UmsVm \<Rightarrow> ums_vm_unmount e s
                | UmsFt \<Rightarrow> ums_ft_unmount e s
                | _ \<Rightarrow> (ums_resp_err ''mount with empty path requires ums_vm or ums_ft target'', s))
          else (case target of
                  UmsVm \<Rightarrow> ums_vm_mount e path (ur_vm_type req) s
                | UmsFt \<Rightarrow> ums_ft_mount e path s
                | _ \<Rightarrow> (ums_resp_err ''mount requires ums_vm or ums_ft target'', s))
      | UmsSwitchVmMode \<Rightarrow> ums_vm_switch_mode e (proto_vm_type_to_ums_mode (ur_vm_type req)) s)"

section \<open>The bus of handlers\<close>

text \<open>
  What the manager relies on: delivering a request concerns the handler it is delivered to, the end
  of a change clears its flag, and one of the two first phases sets it. \<open>view\<close> is what no delivery
  changes.
\<close>

locale handler_bus =
  fixes dlv :: "change_request \<Rightarrow> 'h \<Rightarrow> 's \<Rightarrow> 's \<times> change_response"
    and upd :: "'h \<Rightarrow> 's \<Rightarrow> bool"
    and view :: "'s \<Rightarrow> 'v"
    and present :: "'h \<Rightarrow> 'v \<Rightarrow> bool"
    and early :: "'h \<Rightarrow> bool"
  assumes end_clears: "req = ChangeCompleted \<or> req = ChangeCanceled \<Longrightarrow> \<not> upd h (fst (dlv req h s))"
    and other: "h \<noteq> h' \<Longrightarrow> upd h' (fst (dlv req h s)) = upd h' s"
    and keeps: "view (fst (dlv req h s)) = view s"
    and early_marks: "early h \<Longrightarrow> present h (view s) \<Longrightarrow> upd h (fst (dlv RequestChange h s))"
    and late_marks: "\<not> early h \<Longrightarrow> present h (view s) \<Longrightarrow> snd (dlv PrepareChange h s) = Proceed \<Longrightarrow>
          upd h (fst (dlv PrepareChange h s))"
    and prepare_holds: "upd h s \<Longrightarrow> snd (dlv PrepareChange h s) = Proceed \<Longrightarrow> upd h (fst (dlv PrepareChange h s))"
begin

lemma notify_view: "view (notify_all (dlv req) hs s) = view s"
  by (induction hs arbitrary: s) (simp_all add: keeps)

lemma ask_view: "view (fst (ask_all (dlv req) hs s)) = view s"
proof (induction hs arbitrary: s)
  case (Cons h hs)
  show ?case
  proof (cases "snd (dlv req h s)")
    case Proceed
    with Cons keeps [of req h s] show ?thesis by (simp add: split_beta)
  next
    case (Reject r)
    with keeps [of req h s] show ?thesis by (simp add: split_beta)
  qed
qed simp

lemma notify_other: "h \<notin> set hs \<Longrightarrow> upd h (notify_all (dlv req) hs s) = upd h s"
proof (induction hs arbitrary: s)
  case (Cons h' hs)
  then show ?case using other [of h' h req s] by auto
qed simp

lemma notify_clears:
  assumes "req = ChangeCompleted \<or> req = ChangeCanceled" and "h \<in> set hs"
  shows "\<not> upd h (notify_all (dlv req) hs s)"
  using assms(2)
proof (induction hs arbitrary: s)
  case (Cons h' hs)
  then show ?case using end_clears [OF assms(1), of h] by (cases "h \<in> set hs") (simp_all add: notify_other)
qed simp

lemma ask_None_at:
  assumes "ask_all (dlv req) hs s = (s', None)" and "h \<in> set hs" and "distinct hs"
  shows "\<exists>s0. snd (dlv req h s0) = Proceed \<and> upd h s0 = upd h s \<and> view s0 = view s
    \<and> upd h s' = upd h (fst (dlv req h s0))"
  using assms
proof (induction hs arbitrary: s)
  case (Cons h' hs)
  from Cons.prems(1) have p: "snd (dlv req h' s) = Proceed" "ask_all (dlv req) hs (fst (dlv req h' s)) = (s', None)"
    by (auto simp: split_beta split: change_response.splits)
  show ?case
  proof (cases "h = h'")
    case True
    have "upd h s' = upd h (fst (dlv req h' s))" if "h \<notin> set hs" "ask_all (dlv req) hs t = (s', None)"
        "upd h t = upd h (fst (dlv req h' s))" for t
      using that
    proof (induction hs arbitrary: t)
      case (Cons h2 hs)
      then show ?case using other [of h2 h req t] by (simp add: split_beta split: change_response.splits)
    qed simp
    with True p Cons.prems(3) show ?thesis by auto
  next
    case False
    with Cons.IH [OF p(2)] Cons.prems obtain s0 where "snd (dlv req h s0) = Proceed"
        "upd h s0 = upd h (fst (dlv req h' s))" "view s0 = view (fst (dlv req h' s))"
        "upd h s' = upd h (fst (dlv req h s0))"
      by auto
    with False other [of h' h req s] keeps [of req h' s] show ?thesis by auto
  qed
qed simp

lemma agreed_all_marked:
  assumes "ask_all (dlv RequestChange) hs s = (s1, None)" and "ask_all (dlv PrepareChange) hs s1 = (s2, None)"
    and "distinct hs" and "h \<in> set hs" and "present h (view s)"
  shows "upd h s2"
proof -
  from ask_None_at [OF assms(1) assms(4,3)] obtain t where t: "snd (dlv RequestChange h t) = Proceed" "view t = view s"
      "upd h s1 = upd h (fst (dlv RequestChange h t))" by auto
  from ask_None_at [OF assms(2) assms(4,3)] obtain u where u: "snd (dlv PrepareChange h u) = Proceed"
      "upd h u = upd h s1" "view u = view s1" "upd h s2 = upd h (fst (dlv PrepareChange h u))" by auto
  have v: "view s1 = view s" using ask_view [of RequestChange hs s] assms(1) by simp
  show ?thesis
  proof (cases "early h")
    case True
    with t assms(5) have "upd h s1" using early_marks [of h t] by simp
    with u show ?thesis using prepare_holds [of h u] by simp
  next
    case False
    with u v assms(5) show ?thesis using late_marks [of h u] by simp
  qed
qed

end

section \<open>The handlers of the manager\<close>

fun service_enabled :: "handler_ref \<Rightarrow> device_services \<Rightarrow> bool option" where
  "service_enabled HUms sv = map_option um_enabled (sv_ums sv)"
| "service_enabled HUms1 sv = map_option um_enabled (sv_ums1 sv)"
| "service_enabled HUac sv = map_option ua_enabled (sv_uac sv)"
| "service_enabled HKb sv = map_option hs_enabled (sv_kb sv)"
| "service_enabled HRel sv = map_option hs_enabled (sv_rel sv)"
| "service_enabled HAbs sv = map_option hs_enabled (sv_abs sv)"
| "service_enabled HNet sv = map_option na_enabled (sv_net sv)"

fun handler_updating :: "handler_ref \<Rightarrow> usb_manager \<Rightarrow> bool" where
  "handler_updating HUms m = (case sv_ums (mg_services m) of None \<Rightarrow> False | Some h \<Rightarrow> um_updating h)"
| "handler_updating HUms1 m = (case sv_ums1 (mg_services m) of None \<Rightarrow> False | Some h \<Rightarrow> um_updating h)"
| "handler_updating HUac m = (case sv_uac (mg_services m) of None \<Rightarrow> False | Some h \<Rightarrow> ua_updating h)"
| "handler_updating HKb m = (case sv_kb (mg_services m) of None \<Rightarrow> False | Some h \<Rightarrow> hs_updating h)"
| "handler_updating HRel m = (case sv_rel (mg_services m) of None \<Rightarrow> False | Some h \<Rightarrow> hs_updating h)"
| "handler_updating HAbs m = (case sv_abs (mg_services m) of None \<Rightarrow> False | Some h \<Rightarrow> hs_updating h)"
| "handler_updating HNet m = (case sv_net (mg_services m) of None \<Rightarrow> False | Some h \<Rightarrow> na_updating h)"

definition handlers_idle :: "usb_manager \<Rightarrow> bool" where
  "handlers_idle m = (\<forall>r. \<not> handler_updating r m)"

type_synonym mgr_view = "usb_manager \<times> (handler_ref \<Rightarrow> bool option)"

definition mgr_view :: "usb_manager \<times> 'w \<Rightarrow> mgr_view" where
  "mgr_view s = ((fst s)\<lparr>mg_services := services_empty\<rparr>, \<lambda>r. service_enabled r (mg_services (fst s)))"

definition marks_early :: "handler_ref \<Rightarrow> bool" where
  "marks_early r = (r = HUac \<or> r = HKb \<or> r = HRel \<or> r = HAbs)"

lemma get_lun_enabled [simp]: "um_enabled (snd (get_lun_file_path e q (h, w))) = um_enabled h"
  by (auto simp: get_lun_file_path_def split: option.splits sum.splits)

lemma sync_lun_enabled [simp]: "um_enabled (fst (sync_lun_file_path e q s)) = um_enabled (fst s)"
  by (auto simp: sync_lun_file_path_def split: prod.splits sum.splits)

lemma unmount_ums_enabled [simp]: "um_enabled (fst (snd (unmount_ums e (h, w)))) = um_enabled h"
proof -
  obtain r h1 where g: "get_lun_file_path e UMS_VM_INQUIRY_STRING (h, w) = (r, h1)" by fastforce
  with get_lun_enabled [of e UMS_VM_INQUIRY_STRING h w] have "um_enabled h1 = um_enabled h" by simp
  with g show ?thesis by (cases r) (auto simp: unmount_ums_def split_beta split: sum.split)
qed

lemma unmount_ums1_enabled [simp]: "um_enabled (fst (snd (unmount_ums1 e (h, w)))) = um_enabled h"
proof -
  obtain r h1 where g: "get_lun_file_path e UMS_FT_INQUIRY_STRING (h, w) = (r, h1)" by fastforce
  with get_lun_enabled [of e UMS_FT_INQUIRY_STRING h w] have "um_enabled h1 = um_enabled h" by simp
  with g show ?thesis by (cases r) (auto simp: unmount_ums1_def split_beta split: sum.split)
qed

lemma ums_enabled_kept [simp]: "um_enabled (fst (fst (ums_on_change e req (h, w)))) = um_enabled h"
  using unmount_ums_enabled [of e h w]
  by (cases req) (auto simp: ums_on_change_def split_beta split: sum.splits)

lemma ums1_enabled_kept [simp]: "um_enabled (fst (fst (ums1_on_change e req (h, w)))) = um_enabled h"
  using unmount_ums1_enabled [of e h w]
  by (cases req) (auto simp: ums1_on_change_def split_beta split: sum.splits usb_error.splits)

lemma uac_enabled_kept [simp]: "ua_enabled (fst (uac_on_change a b req h)) = ua_enabled h"
  by (cases req) (simp_all add: uac_on_change_def stop_process_def sync_process_state_def)

lemma hid_enabled_kept [simp]: "hs_enabled (fst (hid_on_change i dir req h)) = hs_enabled h"
  by (cases req) (auto simp: hid_on_change_def hid_send_def hid_sync_path_def hid_open_if_ready_def
      split: option.splits sum.splits)

lemma kb_enabled_kept [simp]: "hs_enabled (fst (kb_on_change dir req h)) = hs_enabled h"
  by (cases req) (auto simp: kb_on_change_def kb_stop_io_threads_def hid_send_def led_send_def hid_sync_path_def
      kb_open_if_ready_def split: option.splits sum.splits)

lemma net_enabled_kept [simp]: "na_enabled (fst (fst (net_on_change e req (h, w)))) = na_enabled h"
  by (cases req) (simp_all add: net_on_change_def set_net_def clear_ifname_def apply_l3_frame Let_def)

lemmas dlv_defs = on_handle_def with_world_def mgr_view_def split_beta rel_on_change_def abs_on_change_def

lemma deliver_view: "mgr_view (fst (deliver e req r s)) = mgr_view s"
proof (cases s)
  case (Pair m w)
  have "service_enabled r' (mg_services (fst (fst (deliver e req r (m, w))))) = service_enabled r' (mg_services m)" for r'
    by (cases r; cases r') (auto simp: dlv_defs split: option.splits)
  moreover have "(fst (fst (deliver e req r (m, w))))\<lparr>mg_services := services_empty\<rparr> = m\<lparr>mg_services := services_empty\<rparr>"
    by (cases r) (auto simp: dlv_defs split: option.splits)
  ultimately show ?thesis using Pair by (simp add: mgr_view_def)
qed

lemma deliver_other: "r \<noteq> r' \<Longrightarrow> handler_updating r' (fst (fst (deliver e req r s))) = handler_updating r' (fst s)"
  by (cases s; cases r; cases r') (auto simp: dlv_defs split: option.splits)

lemmas handler_ends =
  ums_handler.completed_clears [simplified] ums_handler.canceled_clears [simplified]
  ums1_handler.completed_clears [simplified] ums1_handler.canceled_clears [simplified]
  uac_handler.completed_clears uac_handler.canceled_clears kb_handler.completed_clears kb_handler.canceled_clears
  rel_handler.completed_clears rel_handler.canceled_clears abs_handler.completed_clears abs_handler.canceled_clears
  net_handler.completed_clears [simplified] net_handler.canceled_clears [simplified]

lemma deliver_end:
  "req = ChangeCompleted \<or> req = ChangeCanceled \<Longrightarrow> \<not> handler_updating r (fst (fst (deliver e req r s)))"
  by (cases s; cases r) (auto simp: on_handle_def with_world_def split_beta handler_ends split: option.splits)

lemma deliver_early:
  "marks_early r \<Longrightarrow> service_enabled r (mg_services (fst s)) \<noteq> None \<Longrightarrow>
     handler_updating r (fst (fst (deliver e RequestChange r s)))"
  by (cases s; cases r)
    (auto simp: marks_early_def dlv_defs uac_on_change_def kb_on_change_def hid_on_change_def split: option.splits)

lemma deliver_late:
  "\<not> marks_early r \<Longrightarrow> service_enabled r (mg_services (fst s)) \<noteq> None \<Longrightarrow>
     snd (deliver e PrepareChange r s) = Proceed \<Longrightarrow> handler_updating r (fst (fst (deliver e PrepareChange r s)))"
  by (cases s; cases r)
    (auto simp: marks_early_def dlv_defs ums_on_change_def ums1_on_change_def net_on_change_def set_net_def
      clear_ifname_def Let_def split: option.splits sum.splits usb_error.splits)

lemma deliver_holds:
  assumes "handler_updating r (fst s)" and "snd (deliver e PrepareChange r s) = Proceed"
  shows "handler_updating r (fst (fst (deliver e PrepareChange r s)))"
proof (cases "marks_early r")
  case True
  with assms show ?thesis
    by (cases s; cases r) (auto simp: marks_early_def dlv_defs uac_on_change_def stop_process_def kb_on_change_def
        kb_stop_io_threads_def hid_send_def led_send_def hid_on_change_def split: option.splits)
next
  case False
  moreover have "service_enabled r (mg_services (fst s)) \<noteq> None"
    using assms(1) by (cases r) (auto split: option.splits)
  ultimately show ?thesis using deliver_late assms(2) by blast
qed

interpretation bus: handler_bus "deliver e" "\<lambda>r s. handler_updating r (fst s)" mgr_view
  "\<lambda>r v. snd v r \<noteq> None" marks_early for e :: "'w usb_env"
proof
  fix r r' :: handler_ref and s :: "usb_manager \<times> 'w" and req
  show "\<not> handler_updating r (fst (fst (deliver e req r s)))" if "req = ChangeCompleted \<or> req = ChangeCanceled"
    using that by (rule deliver_end)
  show "handler_updating r' (fst (fst (deliver e req r s))) = handler_updating r' (fst s)" if "r \<noteq> r'"
    using that by (rule deliver_other)
  show "mgr_view (fst (deliver e req r s)) = mgr_view s" by (rule deliver_view)
  show "handler_updating r (fst (fst (deliver e RequestChange r s)))" if "marks_early r" "snd (mgr_view s) r \<noteq> None"
    using that deliver_early by (simp add: mgr_view_def)
  show "handler_updating r (fst (fst (deliver e PrepareChange r s)))"
    if "\<not> marks_early r" "snd (mgr_view s) r \<noteq> None" "snd (deliver e PrepareChange r s) = Proceed"
    using that deliver_late by (simp add: mgr_view_def)
  show "handler_updating r (fst (fst (deliver e PrepareChange r s)))"
    if "handler_updating r (fst s)" "snd (deliver e PrepareChange r s) = Proceed"
    using that by (rule deliver_holds)
qed

section \<open>Registered handlers are the services\<close>

definition mgr_ok :: "usb_manager \<Rightarrow> bool" where
  "mgr_ok m = (hm_wf (mg_change_handlers m)
     \<and> (\<forall>k r. hm_get (mg_change_handlers m) k = Some r \<longleftrightarrow>
              k = handler_name r \<and> service_enabled r (mg_services m) \<noteq> None))"

lemmas handler_name_defs = UMS_VM_INQUIRY_STRING_def UMS_FT_INQUIRY_STRING_def UAC1_INSTANCE_def HID_KB_INSTANCE_def
  HID_REL_INSTANCE_def HID_ABS_INSTANCE_def SERVICE_NAME_def

lemma handler_name_inj: "handler_name r = handler_name r' \<longleftrightarrow> r = r'"
  by (cases r; cases r') (simp_all add: handler_name_defs)

lemma mgr_ok_new: "mgr_ok (manager_new b)"
proof -
  have "service_enabled r services_empty = None" for r by (cases r) (simp_all add: services_empty_def)
  then show ?thesis by (simp add: mgr_ok_def manager_new_def)
qed

lemma mgr_view_eq_iff:
  "mgr_view s = mgr_view t \<longleftrightarrow> (fst s)\<lparr>mg_services := services_empty\<rparr> = (fst t)\<lparr>mg_services := services_empty\<rparr>
     \<and> (\<forall>r. service_enabled r (mg_services (fst s)) = service_enabled r (mg_services (fst t)))"
  by (auto simp: mgr_view_def fun_eq_iff)

lemma mgr_view_fields:
  assumes "mgr_view s = mgr_view t"
  shows "mg_base_info (fst s) = mg_base_info (fst t)" "mg_switches (fst s) = mg_switches (fst t)"
    "mg_change_handlers (fst s) = mg_change_handlers (fst t)" "mg_active_gadget (fst s) = mg_active_gadget (fst t)"
    "mg_emulation_enabled (fst s) = mg_emulation_enabled (fst t)" "mg_op_locked (fst s) = mg_op_locked (fst t)"
    "mg_mic_process_enabled (fst s) = mg_mic_process_enabled (fst t)"
    "service_enabled r (mg_services (fst s)) = service_enabled r (mg_services (fst t))"
  using assms unfolding mgr_view_eq_iff
  by (cases "fst s"; cases "fst t"; simp)+

lemma mgr_ok_view: "mgr_view s = mgr_view t \<Longrightarrow> mgr_ok (fst s) = mgr_ok (fst t)"
  using mgr_view_fields [of s t] by (simp add: mgr_ok_def)

lemma updating_present: "handler_updating r m \<Longrightarrow> service_enabled r (mg_services m) \<noteq> None"
  by (cases r) (auto split: option.splits)

lemma snapshot_distinct:
  assumes "mgr_ok m"
  shows "distinct (snapshot_change_handlers m)"
proof -
  have "map fst (mg_change_handlers m) = map handler_name (snapshot_change_handlers m)"
    using assms by (auto simp: mgr_ok_def hm_wf_def hm_get_def snapshot_change_handlers_def)
  then have "distinct (map handler_name (snapshot_change_handlers m))"
    using assms by (simp add: mgr_ok_def hm_wf_def)
  then show ?thesis by (simp add: distinct_map)
qed

lemma snapshot_set:
  assumes "mgr_ok m"
  shows "r \<in> set (snapshot_change_handlers m) \<longleftrightarrow> service_enabled r (mg_services m) \<noteq> None"
proof -
  have "r \<in> set (snapshot_change_handlers m) \<longleftrightarrow> (\<exists>k. (k, r) \<in> set (mg_change_handlers m))"
    by (force simp: snapshot_change_handlers_def)
  also have "\<dots> \<longleftrightarrow> (\<exists>k. hm_get (mg_change_handlers m) k = Some r)"
    using assms map_of_eq_Some_iff [of "mg_change_handlers m"] by (simp add: mgr_ok_def hm_wf_def hm_get_def del: map_of_eq_Some_iff)
  finally show ?thesis using assms by (simp add: mgr_ok_def)
qed

lemma notify_handlers_view: "mgr_view (notify_handlers e req s) = mgr_view s"
  by (simp add: notify_handlers_def bus.notify_view)

lemma notify_handlers_idle:
  assumes "mgr_ok (fst s)" and "req = ChangeCompleted \<or> req = ChangeCanceled"
  shows "handlers_idle (fst (notify_handlers e req s))"
  unfolding handlers_idle_def
proof
  fix r
  show "\<not> handler_updating r (fst (notify_handlers e req s))"
  proof (cases "r \<in> set (snapshot_change_handlers (fst s))")
    case True
    then show ?thesis using bus.notify_clears [OF assms(2)] by (simp add: notify_handlers_def)
  next
    case False
    with assms(1) have "service_enabled r (mg_services (fst s)) = None" by (simp add: snapshot_set)
    then have "service_enabled r (mg_services (fst (notify_handlers e req s))) = None"
      using mgr_view_fields(8) [OF notify_handlers_view] by metis
    then show ?thesis using updating_present by blast
  qed
qed

lemma ask_handlers_view: "mgr_view (snd (ask_handlers e req s)) = mgr_view s"
  using bus.ask_view [of e req "snapshot_change_handlers (fst s)" s]
  by (auto simp: ask_handlers_def notify_handlers_view split: prod.splits option.splits)

lemma ask_handlers_reject:
  assumes "mgr_ok (fst s)" and "fst (ask_handlers e req s) = Inl err"
  shows "handlers_idle (fst (snd (ask_handlers e req s)))"
proof -
  obtain s' er where a: "ask_all (deliver e req) (snapshot_change_handlers (fst s)) s = (s', Some er)"
    using assms(2) by (auto simp: ask_handlers_def split: prod.splits option.splits)
  then have "mgr_ok (fst s')"
    using assms(1) bus.ask_view [of e req "snapshot_change_handlers (fst s)" s] mgr_ok_view [of s' s] by simp
  with a show ?thesis by (simp add: ask_handlers_def notify_handlers_idle)
qed

lemma approval_view: "mgr_view (snd (request_change_approval e s)) = mgr_view s"
  using ask_handlers_view [of e RequestChange s] ask_handlers_view [of e PrepareChange]
  by (auto simp: request_change_approval_def request_change_only_def split: prod.splits sum.splits)

lemma approval_reject:
  assumes "mgr_ok (fst s)" and "request_change_approval e s = (Inl err, s1)"
  shows "handlers_idle (fst s1)"
proof -
  obtain r t where Pair: "ask_handlers e RequestChange s = (r, t)" by (rule prod.exhaust)
  then have ok: "mgr_ok (fst t)" using assms(1) ask_handlers_view [of e RequestChange s] mgr_ok_view [of t s] by simp
  show ?thesis
  proof (cases r)
    case (Inl er)
    then show ?thesis
      using Pair assms ask_handlers_reject [of s e RequestChange er]
      by (simp add: request_change_approval_def request_change_only_def)
  next
    case (Inr u)
    then show ?thesis
      using Pair assms ok ask_handlers_reject [of t e PrepareChange err]
      by (simp add: request_change_approval_def request_change_only_def)
  qed
qed

lemma approval_marks:
  assumes "mgr_ok (fst s)" and "request_change_approval e s = (Inr u, s2)"
  shows "handler_updating r (fst s2) \<longleftrightarrow> service_enabled r (mg_services (fst s)) \<noteq> None"
proof -
  from assms(2) obtain s1 where
    a1: "ask_all (deliver e RequestChange) (snapshot_change_handlers (fst s)) s = (s1, None)"
    and a2: "ask_all (deliver e PrepareChange) (snapshot_change_handlers (fst s1)) s1 = (s2, None)"
    by (auto simp: request_change_approval_def request_change_only_def ask_handlers_def
        split: prod.splits option.splits)
  have "mgr_view s1 = mgr_view s"
    using a1 bus.ask_view [of e RequestChange "snapshot_change_handlers (fst s)" s] by simp
  then have "snapshot_change_handlers (fst s1) = snapshot_change_handlers (fst s)"
    using mgr_view_fields(3) [of s1 s] by (simp add: snapshot_change_handlers_def)
  with a2 have a2': "ask_all (deliver e PrepareChange) (snapshot_change_handlers (fst s)) s1 = (s2, None)" by simp
  have v: "mgr_view s2 = mgr_view s" using approval_view [of e s] assms(2) by simp
  show ?thesis
  proof
    assume "handler_updating r (fst s2)"
    then show "service_enabled r (mg_services (fst s)) \<noteq> None"
      using updating_present [of r "fst s2"] mgr_view_fields(8) [OF v, of r] by simp
  next
    assume p: "service_enabled r (mg_services (fst s)) \<noteq> None"
    then have "snd (mgr_view s) r \<noteq> None" by (simp add: mgr_view_def)
    with p assms(1) show "handler_updating r (fst s2)"
      using bus.agreed_all_marked [OF a1 a2' snapshot_distinct] by (simp add: snapshot_set)
  qed
qed

section \<open>Effect of the building blocks\<close>

text \<open>Updating one service: it has the given switch, nothing else of the manager is touched.\<close>

definition svc_step :: "handler_ref \<Rightarrow> bool \<Rightarrow> usb_manager \<Rightarrow> usb_manager \<Rightarrow> bool" where
  "svc_step r b m m' \<longleftrightarrow> mgr_ok m' \<and> service_enabled r (mg_services m') = Some b
     \<and> (\<forall>r'. r' \<noteq> r \<longrightarrow> service_enabled r' (mg_services m') = service_enabled r' (mg_services m))
     \<and> (\<forall>r'. handler_updating r' m' = handler_updating r' m)
     \<and> (\<exists>sv hs. m' = m\<lparr>mg_services := sv, mg_change_handlers := hs\<rparr>)"

lemma all_refs: "(\<forall>r. P r) \<longleftrightarrow> P HUms \<and> P HUms1 \<and> P HUac \<and> P HKb \<and> P HRel \<and> P HAbs \<and> P HNet"
  using handler_ref.exhaust by metis

lemma svc_step_new:
  assumes "mgr_ok m" and "service_enabled r (mg_services m) = None"
    and "service_enabled r (put (mg_services m)) = Some b"
    and "\<forall>r'. r' \<noteq> r \<longrightarrow> service_enabled r' (put (mg_services m)) = service_enabled r' (mg_services m)"
    and "\<forall>r'. handler_updating r' (m\<lparr>mg_services := put (mg_services m)\<rparr>) = handler_updating r' m"
  shows "svc_step r b m (add_service r put m)"
proof -
  have "hm_get (mg_change_handlers m) (handler_name r) = None"
    using assms(1,2) handler_name_inj [of r] unfolding mgr_ok_def
    by (metis not_None_eq)
  then have a: "add_service r put m =
      m\<lparr>mg_services := put (mg_services m), mg_change_handlers := hm_insert (handler_name r) r (mg_change_handlers m)\<rparr>"
    by (simp add: add_service_def add_change_handler_def)
  have u: "handler_updating r' (m\<lparr>mg_services := sv, mg_change_handlers := hs\<rparr>) = handler_updating r' (m\<lparr>mg_services := sv\<rparr>)"
    for r' sv hs by (cases r') simp_all
  have "mgr_ok (add_service r put m)"
    using assms(1,3,4) unfolding a mgr_ok_def by (auto simp: handler_name_inj)
  then show ?thesis unfolding svc_step_def using assms by (auto simp: a u)
qed

lemma svc_step_old:
  assumes "mgr_ok m" and "service_enabled r (mg_services m) \<noteq> None" and "service_enabled r sv = Some b"
    and "\<forall>r'. r' \<noteq> r \<longrightarrow> service_enabled r' sv = service_enabled r' (mg_services m)"
    and "\<forall>r'. handler_updating r' (m\<lparr>mg_services := sv\<rparr>) = handler_updating r' m"
  shows "svc_step r b m (m\<lparr>mg_services := sv\<rparr>)"
proof -
  have "service_enabled r' sv = None \<longleftrightarrow> service_enabled r' (mg_services m) = None" for r'
    using assms(2-4) by (cases "r' = r") auto
  then have "mgr_ok (m\<lparr>mg_services := sv\<rparr>)" using assms(1) by (simp add: mgr_ok_def)
  moreover have "m\<lparr>mg_services := sv\<rparr> = m\<lparr>mg_services := sv, mg_change_handlers := mg_change_handlers m\<rparr>" by simp
  ultimately show ?thesis unfolding svc_step_def
    using assms by (auto intro!: exI [of _ sv] exI [of _ "mg_change_handlers m"])
qed

lemmas set_enabled_defs = ums_set_enabled_def ums_new_def ums1_set_enabled_def ums1_new_def uac_set_enabled_def
  uac_set_process_enabled_def uac_new_def kb_set_enabled_def kb_new_def rel_set_enabled_def rel_new_def
  abs_set_enabled_def abs_new_def hid_set_enabled_def hid_new_def net_set_enabled_def net_new_def
  kb_stop_io_threads_def hid_send_def led_send_def

lemma svc_ums:
  assumes "mgr_ok m"
  shows "svc_step HUms (ums_vm_enabled (mg_switches m)) m (snd (apply_ums_service m))"
proof (cases "sv_ums (mg_services m)")
  case None
  with assms show ?thesis
    by (simp add: apply_ums_service_def Let_def) (rule svc_step_new, simp_all add: set_enabled_defs all_refs)
next
  case (Some h)
  with assms show ?thesis
    by (simp add: apply_ums_service_def Let_def) (rule svc_step_old, simp_all add: set_enabled_defs all_refs)
qed

lemma svc_ums1:
  assumes "mgr_ok m"
  shows "svc_step HUms1 (ums_ft_enabled (mg_switches m)) m (apply_ums1_service m)"
proof (cases "sv_ums1 (mg_services m)")
  case None
  with assms show ?thesis
    by (simp add: apply_ums1_service_def Let_def) (rule svc_step_new, simp_all add: set_enabled_defs all_refs)
next
  case (Some h)
  with assms show ?thesis
    by (simp add: apply_ums1_service_def Let_def) (rule svc_step_old, simp_all add: set_enabled_defs all_refs)
qed

lemma svc_uac:
  assumes "mgr_ok m"
  shows "svc_step HUac (uac1_enabled (mg_switches m)) m (apply_uac_service m)"
proof (cases "sv_uac (mg_services m)")
  case None
  with assms show ?thesis
    by (simp add: apply_uac_service_def Let_def) (rule svc_step_new, simp_all add: set_enabled_defs all_refs)
next
  case (Some h)
  with assms show ?thesis
    by (simp add: apply_uac_service_def Let_def) (rule svc_step_old, simp_all add: set_enabled_defs all_refs)
qed

lemma svc_kb:
  assumes "mgr_ok m"
  shows "svc_step HKb (hid_kb_enabled (mg_switches m)) m (apply_kb_service m)"
proof (cases "sv_kb (mg_services m)")
  case None
  with assms show ?thesis
    by (simp add: apply_kb_service_def Let_def) (rule svc_step_new, simp_all add: set_enabled_defs all_refs)
next
  case (Some h)
  with assms show ?thesis
    by (simp add: apply_kb_service_def Let_def) (rule svc_step_old, simp_all add: set_enabled_defs all_refs)
qed

lemma svc_rel:
  assumes "mgr_ok m"
  shows "svc_step HRel (hid_rel_enabled (mg_switches m)) m (apply_rel_service m)"
proof (cases "sv_rel (mg_services m)")
  case None
  with assms show ?thesis
    by (simp add: apply_rel_service_def Let_def) (rule svc_step_new, simp_all add: set_enabled_defs all_refs)
next
  case (Some h)
  with assms show ?thesis
    by (simp add: apply_rel_service_def Let_def) (rule svc_step_old, simp_all add: set_enabled_defs all_refs)
qed

lemma svc_abs:
  assumes "mgr_ok m"
  shows "svc_step HAbs (hid_abs_enabled (mg_switches m)) m (apply_abs_service m)"
proof (cases "sv_abs (mg_services m)")
  case None
  with assms show ?thesis
    by (simp add: apply_abs_service_def Let_def) (rule svc_step_new, simp_all add: set_enabled_defs all_refs)
next
  case (Some h)
  with assms show ?thesis
    by (simp add: apply_abs_service_def Let_def) (rule svc_step_old, simp_all add: set_enabled_defs all_refs)
qed

lemma svc_net:
  assumes "mgr_ok m"
  shows "svc_step HNet (network_adapter_enabled (mg_switches m)) m (apply_net_service m)"
proof (cases "sv_net (mg_services m)")
  case None
  with assms show ?thesis
    by (simp add: apply_net_service_def Let_def) (rule svc_step_new, simp_all add: set_enabled_defs all_refs)
next
  case (Some h)
  with assms show ?thesis
    by (simp add: apply_net_service_def Let_def) (rule svc_step_old, simp_all add: set_enabled_defs all_refs)
qed

definition switch_of :: "handler_ref \<Rightarrow> device_switches \<Rightarrow> bool" where
  "switch_of r sw =
     (case r of HUms \<Rightarrow> ums_vm_enabled sw | HUms1 \<Rightarrow> ums_ft_enabled sw | HUac \<Rightarrow> uac1_enabled sw
      | HKb \<Rightarrow> hid_kb_enabled sw | HRel \<Rightarrow> hid_rel_enabled sw | HAbs \<Rightarrow> hid_abs_enabled sw
      | HNet \<Rightarrow> network_adapter_enabled sw)"

definition services_match :: "usb_manager \<Rightarrow> bool" where
  "services_match m = (\<forall>r. service_enabled r (mg_services m) = Some (switch_of r (mg_switches m)))"

lemma svc_step_switches: "svc_step r b m m' \<Longrightarrow> mg_switches m' = mg_switches m"
  by (auto simp: svc_step_def)

lemma apply_device_services_effect:
  assumes "mgr_ok m" and "apply_device_services m = (mode, m')"
  shows "mgr_ok m' \<and> services_match m' \<and> (\<forall>r. handler_updating r m' = handler_updating r m)
    \<and> (\<exists>sv hs. m' = m\<lparr>mg_services := sv, mg_change_handlers := hs\<rparr>)"
proof -
  define m1 where "m1 = snd (apply_ums_service m)"
  define m2 where "m2 = apply_ums1_service m1"
  define m3 where "m3 = apply_uac_service m2"
  define m4 where "m4 = apply_kb_service m3"
  define m5 where "m5 = apply_rel_service m4"
  define m6 where "m6 = apply_abs_service m5"
  have m': "m' = apply_net_service m6"
    using assms(2) by (simp add: apply_device_services_def split_beta m1_def m2_def m3_def m4_def m5_def m6_def)
  note s1 = svc_ums [OF assms(1), folded m1_def]
  then have "mgr_ok m1" by (simp add: svc_step_def)
  note s2 = svc_ums1 [OF this, folded m2_def]
  then have "mgr_ok m2" by (simp add: svc_step_def)
  note s3 = svc_uac [OF this, folded m3_def]
  then have "mgr_ok m3" by (simp add: svc_step_def)
  note s4 = svc_kb [OF this, folded m4_def]
  then have "mgr_ok m4" by (simp add: svc_step_def)
  note s5 = svc_rel [OF this, folded m5_def]
  then have "mgr_ok m5" by (simp add: svc_step_def)
  note s6 = svc_abs [OF this, folded m6_def]
  then have "mgr_ok m6" by (simp add: svc_step_def)
  note s7 = svc_net [OF this, folded m']
  note ss = s1 s2 s3 s4 s5 s6 s7
  note sw = ss [THEN svc_step_switches]
  have "services_match m'"
    unfolding services_match_def all_refs switch_of_def using ss sw
    by (simp add: svc_step_def del: service_enabled.simps handler_updating.simps)
  moreover have "mgr_ok m'" "\<forall>r. handler_updating r m' = handler_updating r m"
    using ss by (simp_all add: svc_step_def)
  moreover have "\<exists>sv hs. m' = m\<lparr>mg_services := sv, mg_change_handlers := hs\<rparr>"
    using ss unfolding svc_step_def by (elim conjE exE) (simp, blast)
  ultimately show ?thesis by blast
qed

lemma wait_udc_frame: "\<exists>c. fst (snd (wait_udc_loop n d e (m, w))) = m\<lparr>mg_udc_state_cache := c\<rparr>"
proof (induction n arbitrary: m w)
  case 0
  show ?case by (subst wait_udc_loop.simps) (auto simp: probe_udc_def Let_def split: sum.splits option.splits
      intro: exI [of _ "mg_udc_state_cache m"])
next
  case (Suc n)
  have p: "\<exists>c. probe_udc e (m, w) = m\<lparr>mg_udc_state_cache := c\<rparr>"
    by (auto simp: probe_udc_def split: sum.splits option.splits intro: exI [of _ "mg_udc_state_cache m"])
  then obtain c where c: "probe_udc e (m, w) = m\<lparr>mg_udc_state_cache := c\<rparr>" ..
  obtain c' where c': "fst (snd (wait_udc_loop n d e (m\<lparr>mg_udc_state_cache := c\<rparr>, ue_sleep e UDC_RECOVER_CHECK_INTERVAL w)))
      = m\<lparr>mg_udc_state_cache := c'\<rparr>"
    using Suc [of "m\<lparr>mg_udc_state_cache := c\<rparr>"] by auto
  show ?case by (subst wait_udc_loop.simps)
      (auto simp: c c' Let_def split: option.splits intro: exI [of _ "mg_udc_state_cache m"])
qed

lemma release_frame: "\<exists>c. fst (snd (release_gadget_configfs e (m, w))) = m\<lparr>mg_udc_state_cache := c\<rparr>"
proof -
  obtain c where "fst (snd (wait_for_udc_recovered e (m, snd (unbind_udc_file_if_bound e w)))) = m\<lparr>mg_udc_state_cache := c\<rparr>"
    using wait_udc_frame by (fastforce simp: wait_for_udc_recovered_def)
  then show ?thesis
    by (auto simp: release_gadget_configfs_def split_beta intro: exI [of _ c] exI [of _ "mg_udc_state_cache m"])
qed

text \<open>What binding and unbinding leave alone, and the gadget that describes a configuration.\<close>

definition mgr_core :: "usb_manager \<Rightarrow> usb_base_info \<times> device_switches \<times> bool \<times> bool \<times> bool" where
  "mgr_core m = (mg_base_info m, mg_switches m, mg_emulation_enabled m, mg_op_locked m, mg_mic_process_enabled m)"

definition describes :: "gadget \<Rightarrow> usb_base_info \<Rightarrow> device_switches \<Rightarrow> bool" where
  "describes g b sw = (has_any_enabled sw \<and> (\<exists>mode net. build_gadget b sw mode = Inr (g, net)))"

lemma mgr_core_cache [simp]: "mgr_core (m\<lparr>mg_udc_state_cache := c\<rparr>) = mgr_core m"
  by (simp add: mgr_core_def)

lemma cache_irrelevant [simp]:
  "mgr_ok (m\<lparr>mg_udc_state_cache := c\<rparr>) = mgr_ok m"
  "services_match (m\<lparr>mg_udc_state_cache := c\<rparr>) = services_match m"
  "handler_updating r (m\<lparr>mg_udc_state_cache := c\<rparr>) = handler_updating r m"
  by (simp_all add: mgr_ok_def services_match_def) (cases r; simp)

lemma set_net_kept [simp]: "na_enabled (set_net n h) = na_enabled h" "na_updating (set_net n h) = na_updating h"
  by (simp_all add: set_net_def clear_ifname_def Let_def)

definition attach_net :: "net_class option \<Rightarrow> usb_manager \<Rightarrow> usb_manager" where
  "attach_net net m = m\<lparr>mg_services := (mg_services m)\<lparr>sv_net := map_option (set_net net) (sv_net (mg_services m))\<rparr>\<rparr>"

lemma attach_net_services: "service_enabled r (mg_services (attach_net net m)) = service_enabled r (mg_services m)"
  by (cases r) (simp_all add: attach_net_def option.map_comp o_def)

lemma attach_net_effect:
  "mgr_ok (attach_net net m) = mgr_ok m" "services_match (attach_net net m) = services_match m"
  "handler_updating r (attach_net net m) = handler_updating r m" "mgr_core (attach_net net m) = mgr_core m"
  "mg_active_gadget (attach_net net m) = mg_active_gadget m"
proof -
  have f: "mg_change_handlers (attach_net net m) = mg_change_handlers m" "mg_switches (attach_net net m) = mg_switches m"
    by (simp_all add: attach_net_def)
  show "mgr_ok (attach_net net m) = mgr_ok m" "services_match (attach_net net m) = services_match m"
    by (simp_all only: mgr_ok_def services_match_def attach_net_services f)
  show "handler_updating r (attach_net net m) = handler_updating r m"
    by (cases r) (auto simp: attach_net_def split: option.splits)
qed (simp_all add: attach_net_def mgr_core_def)

lemma active_irrelevant [simp]:
  "mgr_ok (m\<lparr>mg_active_gadget := g\<rparr>) = mgr_ok m" "services_match (m\<lparr>mg_active_gadget := g\<rparr>) = services_match m"
  "handler_updating r (m\<lparr>mg_active_gadget := g\<rparr>) = handler_updating r m"
  "mgr_core (m\<lparr>mg_active_gadget := g\<rparr>) = mgr_core m"
  by (simp_all add: mgr_ok_def services_match_def mgr_core_def) (cases r; simp)

lemma bind_effect:
  assumes "mgr_ok m" and "bind_gadget_from_current_switches e (m, w) = (res, m', w')"
  shows "mgr_ok m' \<and> services_match m' \<and> (\<forall>r. handler_updating r m' = handler_updating r m) \<and> mgr_core m' = mgr_core m
    \<and> (case res of
         Inl _ \<Rightarrow> mg_active_gadget m' = mg_active_gadget m
       | Inr _ \<Rightarrow> if has_any_enabled (mg_switches m)
                  then \<exists>g. mg_active_gadget m' = Some g \<and> describes g (mg_base_info m) (mg_switches m)
                  else mg_active_gadget m' = mg_active_gadget m)"
proof -
  obtain mode m0 where a: "apply_device_services m = (mode, m0)" by fastforce
  obtain r0 m1 w1 where rel: "release_gadget_configfs e (m0, w) = (r0, m1, w1)" by (metis prod.exhaust)
  from release_frame [of e m0 w] rel obtain c where m1: "m1 = m0\<lparr>mg_udc_state_cache := c\<rparr>" by auto
  from apply_device_services_effect [OF assms(1) a] obtain sv hs where m0: "mgr_ok m0" "services_match m0"
      "\<forall>r. handler_updating r m0 = handler_updating r m"
      "m0 = m\<lparr>mg_services := sv, mg_change_handlers := hs\<rparr>" by auto
  have core: "mgr_core m1 = mgr_core m" "mg_active_gadget m1 = mg_active_gadget m"
    "mg_switches m1 = mg_switches m" "mg_base_info m1 = mg_base_info m"
    by (simp_all add: m1 m0(4) mgr_core_def)
  have ok: "mgr_ok m1" "services_match m1" "\<forall>r. handler_updating r m1 = handler_updating r m"
    using m0 by (simp_all add: m1)
  note b = assms(2) [unfolded bind_gadget_from_current_switches_def fst_conv snd_conv a rel prod.case Let_def
      attach_net_def [symmetric]]
  show ?thesis
  proof (cases "has_any_enabled (mg_switches m1)")
    case False
    with b have "m' = m1" "res = Inr ()" by auto
    with False ok core show ?thesis by auto
  next
    case any: True
    show ?thesis
    proof (cases "build_gadget (mg_base_info m1) (mg_switches m1) mode")
      case (Inl err)
      with any b have "m' = m1" "res = Inl err" by auto
      with ok core show ?thesis by auto
    next
      case (Inr gn)
      obtain g net where gn: "gn = (g, net)" by fastforce
      obtain rb w2 where rb: "register_and_bind e g net (mg_switches m1) w1 = (rb, w2)" by fastforce
      show ?thesis
      proof (cases rb)
        case (Inl err)
        with any b Inr gn rb have "m' = m1" "res = Inl err" by auto
        with ok core show ?thesis by auto
      next
        case inr: (Inr u)
        with any b Inr gn rb have m': "m' = attach_net net (m1\<lparr>mg_active_gadget := Some g\<rparr>)" "res = Inr ()" by auto
        have "describes g (mg_base_info m) (mg_switches m)"
          using any Inr gn core by (auto simp: describes_def)
        with any ok core show ?thesis by (simp add: m' attach_net_effect)
      qed
    qed
  qed
qed

lemma unbind_effect:
  assumes "unbind_active_gadget e (m, w) = (res, m', w')"
  shows "mgr_ok m' = mgr_ok m \<and> (\<forall>r. handler_updating r m' = handler_updating r m) \<and> mgr_core m' = mgr_core m
    \<and> mg_active_gadget m' = None"
proof (cases "mg_active_gadget m")
  case None
  then show ?thesis using assms release_frame [of e m w] by (auto simp: unbind_active_gadget_def)
next
  case (Some g)
  then show ?thesis
    using assms release_frame [of e "m\<lparr>mg_active_gadget := None\<rparr>" "snd (ue_unbind e g w)"]
    by (auto simp: unbind_active_gadget_def)
qed

lemma view_core:
  assumes "mgr_view s = mgr_view t"
  shows "mgr_core (fst s) = mgr_core (fst t)" "mg_active_gadget (fst s) = mg_active_gadget (fst t)"
    "mgr_ok (fst s) = mgr_ok (fst t)" "services_match (fst s) = services_match (fst t)"
  using mgr_view_fields [OF assms] mgr_ok_view [OF assms] by (simp_all add: mgr_core_def services_match_def)

section \<open>A change of configuration\<close>

definition new_switches :: "device_switches option \<Rightarrow> usb_manager \<Rightarrow> device_switches" where
  "new_switches sws m = (case sws of Some sw \<Rightarrow> sw | None \<Rightarrow> mg_switches m)"

definition new_base :: "usb_base_info option \<Rightarrow> usb_manager \<Rightarrow> usb_base_info" where
  "new_base base m = (case base of Some b \<Rightarrow> b | None \<Rightarrow> mg_base_info m)"

definition gadget_ok :: "usb_manager \<Rightarrow> bool" where
  "gadget_ok m = (case mg_active_gadget m of None \<Rightarrow> True | Some g \<Rightarrow> describes g (mg_base_info m) (mg_switches m))"

definition with_config :: "usb_base_info \<Rightarrow> device_switches \<Rightarrow> usb_manager \<Rightarrow> usb_manager" where
  "with_config b sw m = m\<lparr>mg_base_info := b, mg_switches := sw\<rparr>"

lemma with_config_simps [simp]:
  "mgr_ok (with_config b sw m) = mgr_ok m" "handler_updating r (with_config b sw m) = handler_updating r m"
  "mg_active_gadget (with_config b sw m) = mg_active_gadget m" "mg_base_info (with_config b sw m) = b"
  "mg_switches (with_config b sw m) = sw" "mg_emulation_enabled (with_config b sw m) = mg_emulation_enabled m"
  "mg_op_locked (with_config b sw m) = mg_op_locked m" "mg_mic_process_enabled (with_config b sw m) = mg_mic_process_enabled m"
  "mgr_core (with_config b sw m) = (b, sw, mg_emulation_enabled m, mg_op_locked m, mg_mic_process_enabled m)"
  by (simp_all add: with_config_def mgr_ok_def mgr_core_def) (cases r; simp)

lemma bind_gadget_ok:
  assumes "mgr_ok m" and "mg_active_gadget m = None" and "bind_gadget_from_current_switches e (m, w) = (res, m', w')"
  shows "mgr_ok m'" "services_match m'" "gadget_ok m'" "mgr_core m' = mgr_core m"
    "res = Inr () \<Longrightarrow> has_any_enabled (mg_switches m) \<longleftrightarrow> mg_active_gadget m' \<noteq> None"
    "res \<noteq> Inr () \<Longrightarrow> mg_active_gadget m' = None"
  using bind_effect [OF assms(1,3)] assms(2)
  by (auto simp: gadget_ok_def mgr_core_def split: sum.splits if_splits)

lemma notified_state:
  assumes "(m', w') = notify_handlers e req (m, w)" and "mgr_ok m" and "req = ChangeCompleted \<or> req = ChangeCanceled"
  shows "mgr_ok m'" "handlers_idle m'" "mgr_core m' = mgr_core m" "services_match m' = services_match m"
    "gadget_ok m' = gadget_ok m" "mg_active_gadget m' = mg_active_gadget m"
proof -
  have v: "mgr_view (m', w') = mgr_view (m, w)" using assms(1) notify_handlers_view by metis
  have "handlers_idle (fst (m', w'))" using notify_handlers_idle [of "(m, w)"] assms by simp
  then show "handlers_idle m'" by simp
  from view_core [OF v] assms(2) show "mgr_ok m'" "mgr_core m' = mgr_core m" "services_match m' = services_match m"
    "mg_active_gadget m' = mg_active_gadget m" by simp_all
  then show "gadget_ok m' = gadget_ok m" by (simp add: gadget_ok_def mgr_core_def split: option.split)
qed

lemma rebuild_effect:
  assumes ok: "mgr_ok m" "mg_active_gadget m = None" and run: "rebuild_or_restore e base sws (m, w) = (res, m', w')"
  shows "mgr_ok m' \<and> handlers_idle m' \<and> services_match m' \<and> gadget_ok m'
    \<and> (res \<noteq> Inr () \<longrightarrow> mgr_core m' = mgr_core m)
    \<and> (res = Inr () \<longrightarrow> mgr_core m' = mgr_core (with_config (new_base base m) (new_switches sws m) m)
         \<and> (has_any_enabled (new_switches sws m) \<longleftrightarrow> mg_active_gadget m' \<noteq> None))"
proof -
  let ?m2 = "with_config (new_base base m) (new_switches sws m) m"
  have m2: "(case sws of Some sw \<Rightarrow> (case base of Some b \<Rightarrow> m\<lparr>mg_base_info := b\<rparr> | None \<Rightarrow> m)\<lparr>mg_switches := sw\<rparr>
        | None \<Rightarrow> (case base of Some b \<Rightarrow> m\<lparr>mg_base_info := b\<rparr> | None \<Rightarrow> m)) = ?m2"
    by (cases sws; cases base) (simp_all add: with_config_def new_base_def new_switches_def)
  obtain rb m3 w3 where bd: "bind_gadget_from_current_switches e (?m2, w) = (rb, m3, w3)" by (metis prod.exhaust)
  note f3 = bind_gadget_ok [OF _ _ bd, simplified, OF ok]
  note r = run [unfolded rebuild_or_restore_def Let_def fst_conv snd_conv m2 bd prod.case with_config_def [symmetric]]
  show ?thesis
  proof (cases rb)
    case (Inl err)
    let ?m4 = "with_config (mg_base_info m) (mg_switches m) m3"
    obtain rc m5 w5 where bc: "bind_gadget_from_current_switches e (?m4, w3) = (rc, m5, w5)" by (metis prod.exhaust)
    have "mg_active_gadget m3 = None" using f3(6) Inl by simp
    note f5 = bind_gadget_ok [OF _ _ bc, simplified, OF f3(1) this]
    have n: "(m', w') = notify_handlers e ChangeCanceled (m5, w5)" "res = Inl err"
      using r Inl bc by simp_all
    note s = notified_state [OF n(1) f5(1)]
    have "mgr_core m5 = mgr_core m" using f5(4) f3(4) by (simp add: mgr_core_def)
    with s f5 n(2) show ?thesis by simp
  next
    case (Inr u)
    have n: "(m', w') = notify_handlers e ChangeCompleted (m3, w3)" "res = Inr ()" using r Inr by simp_all
    note s = notified_state [OF n(1) f3(1)]
    show ?thesis using s f3 n(2) Inr by simp
  qed
qed

text \<open>The possible ends of a change, in the order of the code.\<close>

lemma apply_switches_ends:
  assumes ok: "mgr_ok m" and run: "apply_switches_locked e base sws (m, w) = (res, m', w')"
  shows "((\<not> mg_emulation_enabled m \<or> check_endpoint_budget (new_switches sws m) \<noteq> Inr ())
         \<and> res \<noteq> Inr () \<and> m' = m \<and> w' = w)
    \<or> (res \<noteq> Inr () \<and> fst (request_change_approval e (m, w)) \<noteq> Inr () \<and> mgr_ok m' \<and> handlers_idle m'
         \<and> mgr_core m' = mgr_core m \<and> mg_active_gadget m' = mg_active_gadget m)
    \<or> (res \<noteq> Inr () \<and> mgr_ok m' \<and> mgr_core m' = mgr_core m \<and> mg_active_gadget m' = None
         \<and> (\<exists>s1. request_change_approval e (m, w) = (Inr (), s1) \<and> unbind_active_gadget e s1 = (res, m', w')))
    \<or> (res \<noteq> Inr () \<and> mgr_ok m' \<and> handlers_idle m' \<and> mgr_core m' = mgr_core m \<and> services_match m' \<and> gadget_ok m')
    \<or> (res = Inr () \<and> check_endpoint_budget (new_switches sws m) = Inr () \<and> mg_emulation_enabled m
         \<and> mgr_ok m' \<and> handlers_idle m' \<and> services_match m' \<and> gadget_ok m'
         \<and> mgr_core m' = mgr_core (with_config (new_base base m) (new_switches sws m) m)
         \<and> (has_any_enabled (new_switches sws m) \<longleftrightarrow> mg_active_gadget m' \<noteq> None))"
proof (cases "mg_emulation_enabled m \<and> check_endpoint_budget (new_switches sws m) = Inr ()")
  case False
  have "res \<noteq> Inr () \<and> m' = m \<and> w' = w"
    using run False
    by (cases "check_endpoint_budget (new_switches sws m)"; cases "mg_emulation_enabled m")
      (auto simp: apply_switches_locked_def new_switches_def [symmetric])
  with False show ?thesis by (intro disjI1) blast
next
  case gate: True
  obtain ra s1 where ap: "request_change_approval e (m, w) = (ra, s1)" by (metis prod.exhaust)
  have v1: "mgr_view s1 = mgr_view (m, w)" using approval_view [of e "(m, w)"] ap by simp
  note r = run [unfolded apply_switches_locked_def Let_def fst_conv, folded new_switches_def]
  show ?thesis
  proof (cases ra)
    case (Inl err)
    with r gate ap have "s1 = (m', w')" "res = Inl err" by auto
    moreover have "handlers_idle (fst s1)" using approval_reject [of "(m, w)" e err s1] ok ap Inl by simp
    ultimately show ?thesis using view_core [OF v1] ok ap Inl by simp
  next
    case inr: (Inr u)
    obtain ru m2 w2 where un: "unbind_active_gadget e s1 = (ru, m2, w2)" by (metis prod.exhaust)
    have u2: "mgr_ok m2" "mgr_core m2 = mgr_core m" "mg_active_gadget m2 = None"
      using unbind_effect [of e "fst s1" "snd s1" ru m2 w2] un ok view_core(1,3) [OF v1] by simp_all
    show ?thesis
    proof (cases ru)
      case (Inl err)
      with r gate ap inr un have "m' = m2" "w' = w2" "res = Inl err" by auto
      with u2 ap inr un Inl show ?thesis by simp
    next
      case (Inr v)
      have rb: "rebuild_or_restore e base sws (m2, w2) = (res, m', w')" using r gate ap inr un Inr by simp
      have "new_switches sws m2 = new_switches sws m" "new_base base m2 = new_base base m"
        using u2(2) by (simp_all add: mgr_core_def new_switches_def new_base_def split: option.split)
      with rebuild_effect [OF u2(1,3) rb] u2(2) gate show ?thesis
        by (cases "res = Inr ()") (simp_all add: mgr_core_def)
    qed
  qed
qed

end
