(* ===== verification/Usb_Lifecycle.thy ===== *)
theory Usb_Lifecycle
  imports Usb_Manager
begin

text \<open>
  What the device manager guarantees: the outcome of a change of configuration on every path, the
  states it can be in over any history of commands, and the two situations in which an aborted
  change leaves services or modes behind.
\<close>

section \<open>Outcome of a change\<close>

lemma core_fields:
  assumes "mgr_core m' = mgr_core m"
  shows "mg_base_info m' = mg_base_info m" "mg_switches m' = mg_switches m"
    "mg_emulation_enabled m' = mg_emulation_enabled m" "mg_op_locked m' = mg_op_locked m"
  using assms by (simp_all add: mgr_core_def)

lemma apply_switches_ok:
  assumes "mgr_ok m" and "apply_switches e base sws (m, w) = (Inr (), m', w')"
  shows "mg_base_info m' = new_base base m" "mg_switches m' = new_switches sws m"
    "check_endpoint_budget (new_switches sws m) = Inr ()" "mgr_ok m'" "handlers_idle m'" "services_match m'"
    "gadget_ok m'" "mg_emulation_enabled m'" "mg_op_locked m' = mg_op_locked m"
    "has_any_enabled (new_switches sws m) \<longleftrightarrow> mg_active_gadget m' \<noteq> None"
proof -
  from assms(2) have "apply_switches_locked e base sws (m, w) = (Inr (), m', w')"
    by (simp add: apply_switches_def split: if_splits)
  with apply_switches_ends [OF assms(1) this] have c: "mgr_core m' = mgr_core (with_config (new_base base m) (new_switches sws m) m)"
      "check_endpoint_budget (new_switches sws m) = Inr ()" "mg_emulation_enabled m" "mgr_ok m'" "handlers_idle m'"
      "services_match m'" "gadget_ok m'" "has_any_enabled (new_switches sws m) \<longleftrightarrow> mg_active_gadget m' \<noteq> None"
    by simp_all
  then show "mg_base_info m' = new_base base m" "mg_switches m' = new_switches sws m" "mg_emulation_enabled m'"
    "mg_op_locked m' = mg_op_locked m" by (simp_all add: mgr_core_def)
  from c show "check_endpoint_budget (new_switches sws m) = Inr ()" "mgr_ok m'" "handlers_idle m'" "services_match m'"
    "gadget_ok m'" "has_any_enabled (new_switches sws m) \<longleftrightarrow> mg_active_gadget m' \<noteq> None" by blast+
qed

lemma apply_switches_err:
  assumes "mgr_ok m" and "apply_switches e base sws (m, w) = (res, m', w')" and "res \<noteq> Inr ()"
  shows "mgr_core m' = mgr_core m" "mgr_ok m'" "mg_active_gadget m' = mg_active_gadget m \<or> gadget_ok m'"
proof -
  have "m' = m \<or> apply_switches_locked e base sws (m, w) = (res, m', w')"
    using assms(2) by (auto simp: apply_switches_def split: if_splits)
  then have "mgr_core m' = mgr_core m \<and> mgr_ok m' \<and> (mg_active_gadget m' = mg_active_gadget m \<or> gadget_ok m')"
  proof
    assume "apply_switches_locked e base sws (m, w) = (res, m', w')"
    from apply_switches_ends [OF assms(1) this] assms(1,3) show ?thesis
      by (elim disjE) (simp_all add: gadget_ok_def)
  qed (use assms(1) in simp)
  then show "mgr_core m' = mgr_core m" "mgr_ok m'" "mg_active_gadget m' = mg_active_gadget m \<or> gadget_ok m'"
    by blast+
qed

text \<open>
  C2: Changing the configuration is all or nothing. If the change succeeds, the requested switches and
  descriptors are in force, they fit the endpoint budget, a gadget that describes exactly them is
  bound (none if nothing is enabled), every service has its switch, and no service believes a
  change is still going on. If it fails, on whatever path, switches and descriptors are the old
  ones, and the gadget that is bound, if any, is the old one or one rebuilt from the old ones.
\<close>

theorem apply_switches_outcome:
  assumes "mgr_ok m" and "apply_switches e base sws (m, w) = (res, m', w')"
  shows "mgr_ok m'
    \<and> (res = Inr () \<longrightarrow>
         mg_base_info m' = new_base base m \<and> mg_switches m' = new_switches sws m
       \<and> check_endpoint_budget (mg_switches m') = Inr () \<and> gadget_ok m'
       \<and> (has_any_enabled (mg_switches m') \<longleftrightarrow> mg_active_gadget m' \<noteq> None)
       \<and> services_match m' \<and> handlers_idle m')
    \<and> (res \<noteq> Inr () \<longrightarrow>
         mg_base_info m' = mg_base_info m \<and> mg_switches m' = mg_switches m
       \<and> (mg_active_gadget m' = mg_active_gadget m \<or> gadget_ok m'))"
proof (cases "res = Inr ()")
  case True
  with assms(2) have run: "apply_switches e base sws (m, w) = (Inr (), m', w')" by simp
  note k = apply_switches_ok [OF assms(1) run]
  show ?thesis unfolding k(2) using True k(1) k(3-7) k(10) by blast
next
  case False
  note k = apply_switches_err [OF assms False]
  from False k(2,3) core_fields(1,2) [OF k(1)] show ?thesis by blast
qed

definition base_demo :: usb_base_info where
  "base_demo = \<lparr>vendor_id = 0x1d6b, product_id = 0x0104, bcd_device = 0, bcd_usb = 0x200, serial_number = ''1'',
     manufacturer = ''ArkKVM'', product = ''kvm'', strict_mode = False, force_full_speed = False\<rparr>"

text \<open>A world without state in which every operation of the system succeeds.\<close>

definition usb_demo_env :: "unit usb_env" where
  "usb_demo_env = \<lparr>
     ue_fs = \<lparr>fs_functions = (\<lambda>w. None), fs_exists = (\<lambda>p w. True), fs_write = (\<lambda>p d w. (WOk, w))\<rparr>,
     ue_net = \<lparr>run_process = (\<lambda>p a v w. (Inl ''not found'', w)), script_is_file = (\<lambda>w. False),
               net_ifname = (\<lambda>n w. None), net_sleep = (\<lambda>w. w)\<rparr>,
     ue_spawn_ok = (\<lambda>w. True), ue_ack_ok = (\<lambda>w. True), ue_now = (\<lambda>w. 0), ue_sleep = (\<lambda>n w. w),
     ue_udc_state = (\<lambda>w. Inr RawNotAttached), ue_root_exists = (\<lambda>w. False), ue_read_udc = (\<lambda>w. Inr []),
     ue_write_udc = (\<lambda>d w. (Inr (), w)), ue_remove_tree = (\<lambda>w. (Inr (), w)),
     ue_register = (\<lambda>g w. (Inr (), w)), ue_bind = (\<lambda>g w. (Inr (), w)), ue_unbind = (\<lambda>g w. (Inr (), w)),
     ue_drop = (\<lambda>g w. w), ue_func_dir = (\<lambda>n w. None), ue_is_dir = (\<lambda>p w. False),
     ue_write_attr = (\<lambda>p d w. (Inr (), w))\<rparr>"

definition switches_demo :: device_switches where
  "switches_demo = switches_default\<lparr>hid_kb_enabled := True, ums_vm_enabled := True, ums_ft_enabled := True\<rparr>"

lemma release_ok: "(\<And>w. fst (ue_remove_tree e w) = Inr ()) \<Longrightarrow> fst (release_gadget_configfs e s) = Inr ()"
  by (auto simp: release_gadget_configfs_def split: prod.splits) (metis fst_conv)

lemma unbind_ok: "(\<And>w. fst (ue_remove_tree e w) = Inr ()) \<Longrightarrow> fst (unbind_active_gadget e s) = Inr ()"
  by (auto simp: unbind_active_gadget_def release_ok split: prod.splits option.splits)

lemma register_and_bind_succeeds:
  assumes "\<And>g w. fst (ue_register e g w) = Inr ()" and "\<And>g w. fst (ue_bind e g w) = Inr ()"
    and "\<And>net w. fst (on_gadget_registered e net sw w) = Inr ()"
  shows "fst (register_and_bind e g net sw w) = Inr ()"
  using assms(1) [of g w] assms(2) [of g] assms(3) [of net]
  by (simp add: register_and_bind_def split_beta)

lemma bind_succeeds:
  assumes "mgr_ok m"
    and "validate_strings (manufacturer (mg_base_info m), product (mg_base_info m), serial_number (mg_base_info m)) = Inr ()"
    and "\<And>g w. fst (ue_register e g w) = Inr ()" and "\<And>g w. fst (ue_bind e g w) = Inr ()"
    and "\<And>net w. fst (on_gadget_registered e net (mg_switches m) w) = Inr ()"
  shows "fst (bind_gadget_from_current_switches e (m, w)) = Inr ()"
proof -
  obtain mode m0 where a: "apply_device_services m = (mode, m0)" by (rule prod.exhaust)
  obtain r0 m1 w1 where rel: "release_gadget_configfs e (m0, w) = (r0, m1, w1)" by (metis prod.exhaust)
  from release_frame [of e m0 w] rel apply_device_services_effect [OF assms(1) a]
  have m1: "mg_base_info m1 = mg_base_info m" "mg_switches m1 = mg_switches m" by auto
  show ?thesis
    using assms(2) register_and_bind_succeeds [OF assms(3-5)]
    by (auto simp: bind_gadget_from_current_switches_def a rel m1 build_gadget_def Let_def split_beta split: sum.split)
qed

lemma change_goes_through:
  assumes "mgr_ok m" and "\<not> mg_op_locked m" and "mg_emulation_enabled m"
    and "check_endpoint_budget (new_switches sws m) = Inr ()"
    and "validate_strings (manufacturer (new_base base m), product (new_base base m), serial_number (new_base base m)) = Inr ()"
    and "fst (request_change_approval e (m, w)) = Inr ()"
    and "\<And>w. fst (ue_remove_tree e w) = Inr ()"
    and "\<And>g w. fst (ue_register e g w) = Inr ()" and "\<And>g w. fst (ue_bind e g w) = Inr ()"
    and "\<And>net w. fst (on_gadget_registered e net (new_switches sws m) w) = Inr ()"
  shows "fst (apply_switches e base sws (m, w)) = Inr ()"
proof -
  obtain s1 where ap: "request_change_approval e (m, w) = (Inr (), s1)"
    using assms(6) by (cases "request_change_approval e (m, w)") auto
  have v1: "mgr_view s1 = mgr_view (m, w)" using approval_view [of e "(m, w)"] ap by simp
  obtain m2 w2 where un: "unbind_active_gadget e s1 = (Inr (), m2, w2)"
    using unbind_ok [OF assms(7), of s1] by (metis prod.exhaust fst_conv)
  have u2: "mgr_ok m2" "mgr_core m2 = mgr_core m"
    using unbind_effect [of e "fst s1" "snd s1"] un assms(1) view_core(1,3) [OF v1] by simp_all
  have m4: "(case sws of Some sw \<Rightarrow> (case base of Some b \<Rightarrow> m2\<lparr>mg_base_info := b\<rparr> | None \<Rightarrow> m2)\<lparr>mg_switches := sw\<rparr>
        | None \<Rightarrow> (case base of Some b \<Rightarrow> m2\<lparr>mg_base_info := b\<rparr> | None \<Rightarrow> m2)) = with_config (new_base base m) (new_switches sws m) m2"
    using u2(2) by (cases sws; cases base) (simp_all add: with_config_def new_base_def new_switches_def mgr_core_def)
  have "fst (bind_gadget_from_current_switches e (with_config (new_base base m) (new_switches sws m) m2, w2)) = Inr ()"
    using u2(1) assms(5,8-10) by (intro bind_succeeds) simp_all
  then have "fst (rebuild_or_restore e base sws (m2, w2)) = Inr ()"
    by (simp add: rebuild_or_restore_def Let_def m4 split_beta)
  with assms(2-4) ap un show ?thesis
    by (simp add: apply_switches_def apply_switches_locked_def new_switches_def [symmetric])
qed

text \<open>
  A change goes through when nothing stands in its way. With emulation on and no other operation
  running, switches within the budget, descriptor strings of legal length and all services agreeing,
  on a system whose operations succeed, the request succeeds.
\<close>

theorem change_succeeds:
  assumes "mgr_ok m" and "\<not> mg_op_locked m" and "mg_emulation_enabled m"
    and "check_endpoint_budget (new_switches sws m) = Inr ()"
    and "validate_strings (manufacturer (new_base base m), product (new_base base m), serial_number (new_base base m)) = Inr ()"
    and "fst (request_change_approval e (m, w)) = Inr ()"
    and "\<And>w. fst (ue_remove_tree e w) = Inr ()"
    and "\<And>g w. fst (ue_register e g w) = Inr ()" and "\<And>g w. fst (ue_bind e g w) = Inr ()"
    and "\<And>net w. fst (on_gadget_registered e net (new_switches sws m) w) = Inr ()"
  shows "fst (apply_switches e base sws (m, w)) = Inr ()"
  using assms by (rule change_goes_through)

lemma demo_approval: "fst (request_change_approval usb_demo_env (manager_new base_demo, ())) = Inr ()"
  by (simp add: request_change_approval_def request_change_only_def ask_handlers_def snapshot_change_handlers_def
      manager_new_def)

lemma demo_hooks:
  "fst (ue_remove_tree usb_demo_env w) = Inr ()" "fst (ue_register usb_demo_env g w) = Inr ()"
  "fst (ue_bind usb_demo_env g w) = Inr ()" "fst (on_gadget_registered usb_demo_env net switches_demo w) = Inr ()"
  by (auto simp: usb_demo_env_def on_gadget_registered_def apply_ms_os_compat_def switches_demo_def
      switches_default_def adapter_type_from_i32_def split: option.split)

lemma demo_config:
  "check_endpoint_budget switches_demo = Inr ()"
  "validate_strings (manufacturer base_demo, product base_demo, serial_number base_demo) = Inr ()"
  by code_simp+

theorem change_succeeds_witness:
  "fst (apply_switches usb_demo_env None (Some switches_demo) (manager_new base_demo, ())) = Inr ()"
  by (rule change_succeeds [OF mgr_ok_new]) (simp_all add: new_switches_def new_base_def demo_config demo_approval demo_hooks,
      simp_all add: manager_new_def demo_config)

lemma demo_change: "fst (apply_switches usb_demo_env None (Some switches_demo) (manager_new base_demo, ())) = Inr ()"
  by (rule change_goes_through [OF mgr_ok_new]) (simp_all add: new_switches_def new_base_def demo_config demo_approval demo_hooks,
      simp_all add: manager_new_def demo_config)

theorem apply_switches_outcome_witness:
  "\<exists>m' w'. apply_switches usb_demo_env None (Some switches_demo) (manager_new base_demo, ()) = (Inr (), m', w')
     \<and> mg_switches m' = switches_demo \<and> handlers_idle m'"
proof -
  obtain m' w' where r: "apply_switches usb_demo_env None (Some switches_demo) (manager_new base_demo, ()) = (Inr (), m', w')"
    using demo_change by (metis prod.exhaust fst_conv)
  with apply_switches_outcome [OF mgr_ok_new r] show ?thesis by (simp add: new_switches_def)
qed

text \<open>
  A request that cannot be served changes nothing. While another gadget operation holds the lock,
  while emulation is off, or if the requested switches exceed the endpoint budget, the request is
  an error, no service is asked, and neither the manager nor the system is touched.
\<close>

theorem refused_change_is_noop:
  assumes "mg_op_locked m \<or> \<not> mg_emulation_enabled m \<or> check_endpoint_budget (new_switches sws m) \<noteq> Inr ()"
  shows "\<exists>err. apply_switches e base sws (m, w) = (Inl err, m, w)"
  using assms
  by (cases "check_endpoint_budget (new_switches sws m)"; cases "mg_emulation_enabled m")
    (auto simp: apply_switches_def apply_switches_locked_def new_switches_def [symmetric])

theorem refused_change_is_noop_witness:
  "\<exists>err. apply_switches usb_demo_env None (Some (switches_demo\<lparr>hid_abs_enabled := True, hid_rel_enabled := True, uvc_enabled := True\<rparr>))
     (manager_new base_demo, ()) = (Inl err, manager_new base_demo, ())"
proof (rule refused_change_is_noop)
  have "check_endpoint_budget (switches_demo\<lparr>hid_abs_enabled := True, hid_rel_enabled := True, uvc_enabled := True\<rparr>) \<noteq> Inr ()"
    by code_simp
  then show "mg_op_locked (manager_new base_demo) \<or> \<not> mg_emulation_enabled (manager_new base_demo) \<or>
    check_endpoint_budget (new_switches (Some (switches_demo\<lparr>hid_abs_enabled := True, hid_rel_enabled := True, uvc_enabled := True\<rparr>))
      (manager_new base_demo)) \<noteq> Inr ()" by (simp add: new_switches_def)
qed

lemma release_services: "mg_services (fst (snd (release_gadget_configfs e (m, w)))) = mg_services m"
  using release_frame [of e m w] by auto

lemma unbind_services: "mg_services (fst (snd (unbind_active_gadget e (m, w)))) = mg_services m"
  by (auto simp: unbind_active_gadget_def release_services split: option.split)

lemma apply_switches_outcome_ok:
  assumes "mgr_ok m"
  shows "mgr_ok (fst (snd (apply_switches e base sws (m, w))))"
proof -
  obtain res m' w' where r: "apply_switches e base sws (m, w) = (res, m', w')" by (metis prod.exhaust)
  then show ?thesis
    using apply_switches_ok(4) [OF assms, of e base sws w m' w'] apply_switches_err(2) [OF assms r]
    by (cases "res = Inr ()") auto
qed

section \<open>No service is left waiting\<close>

text \<open>
  Every change that is announced is also ended. On a system that can remove the old gadget's
  directory, whatever else goes wrong (a service refuses, the gadget is invalid, registration or
  binding fails, the old gadget cannot be restored either), a request leaves no service marked as
  being in a change.
\<close>

theorem change_ends_idle:
  assumes "mgr_ok m" and "handlers_idle m" and "\<And>w. fst (ue_remove_tree e w) = Inr ()"
    and "apply_switches e base sws (m, w) = (res, m', w')"
  shows "handlers_idle m'"
proof (cases "mg_op_locked m")
  case True
  with assms show ?thesis by (simp add: apply_switches_def)
next
  case False
  with assms(4) have run: "apply_switches_locked e base sws (m, w) = (res, m', w')" by (simp add: apply_switches_def)
  have "res = Inr ()" if "unbind_active_gadget e s1 = (res, m', w')" for s1
    using unbind_ok [OF assms(3), of s1] that by simp
  with apply_switches_ends [OF assms(1) run] assms(2) show ?thesis by blast
qed

theorem change_ends_idle_witness:
  "handlers_idle (fst (snd (apply_switches (usb_demo_env\<lparr>ue_bind := (\<lambda>g w. (Inl ''busy'', w))\<rparr>) None (Some switches_demo)
     (manager_new base_demo, ()))))"
proof -
  have i: "handlers_idle (manager_new base_demo)"
    unfolding handlers_idle_def all_refs by (simp add: manager_new_def services_empty_def)
  obtain res m' w' where "apply_switches (usb_demo_env\<lparr>ue_bind := (\<lambda>g w. (Inl ''busy'', w))\<rparr>) None (Some switches_demo)
      (manager_new base_demo, ()) = (res, m', w')" by (metis prod.exhaust)
  from change_ends_idle [OF mgr_ok_new i _ this] this show ?thesis by (simp add: usb_demo_env_def)
qed

text \<open>A virtual medium that is in a change refuses to prepare for another one.\<close>

lemma updating_ums_rejects:
  assumes "handler_updating HUms (fst s)" and "service_enabled HUms (mg_services (fst s)) = Some True"
  shows "snd (deliver e PrepareChange HUms s) \<noteq> Proceed"
  using assms by (cases s)
    (auto simp: on_handle_def ums_on_change_def unmount_ums_def split: option.splits prod.splits)

lemma request_keeps_ums:
  "handler_updating HUms (fst (fst (deliver e RequestChange HUms s))) = handler_updating HUms (fst s)"
  by (cases s) (auto simp: on_handle_def ums_on_change_def split: option.splits prod.splits)

lemma updating_ums_blocks_approval:
  assumes "mgr_ok (fst s)" and "handler_updating HUms (fst s)" and "service_enabled HUms (mg_services (fst s)) = Some True"
  shows "fst (request_change_approval e s) \<noteq> Inr ()"
proof
  assume "fst (request_change_approval e s) = Inr ()"
  then obtain s1 s2 where
    a1: "ask_all (deliver e RequestChange) (snapshot_change_handlers (fst s)) s = (s1, None)"
    and a2: "ask_all (deliver e PrepareChange) (snapshot_change_handlers (fst s1)) s1 = (s2, None)"
    by (auto simp: request_change_approval_def request_change_only_def ask_handlers_def
        split: prod.splits option.splits)
  have v1: "mgr_view s1 = mgr_view s"
    using a1 bus.ask_view [of e RequestChange "snapshot_change_handlers (fst s)" s] by simp
  have ok1: "mgr_ok (fst s1)" using mgr_ok_view [OF v1] assms(1) by simp
  have en1: "service_enabled HUms (mg_services (fst s1)) = Some True"
    using mgr_view_fields(8) [OF v1, of HUms] assms(3) by simp
  have in0: "HUms \<in> set (snapshot_change_handlers (fst s))"
    using snapshot_set [OF assms(1), of HUms] assms(3) by auto
  have in1: "HUms \<in> set (snapshot_change_handlers (fst s1))"
    using snapshot_set [OF ok1, of HUms] en1 by auto
  have u1: "handler_updating HUms (fst s1)"
    using bus.ask_None_at [OF a1 in0 snapshot_distinct [OF assms(1)]] request_keeps_ums [of e] assms(2) by metis
  from bus.ask_None_at [OF a2 in1 snapshot_distinct [OF ok1]] obtain t where
    t: "snd (deliver e PrepareChange HUms t) = Proceed" "handler_updating HUms (fst t) = handler_updating HUms (fst s1)"
      "mgr_view t = mgr_view s1" by blast
  have "service_enabled HUms (mg_services (fst t)) = Some True" using mgr_view_fields(8) [OF t(3), of HUms] en1 by simp
  with updating_ums_rejects [of t e] t u1 show False by simp
qed

text \<open>
  An old gadget that cannot be removed leaves the services waiting. If every service has agreed to
  a change and the directory of the old gadget then cannot be removed, the request fails, nobody is
  told that the change is off, and every service stays marked as being in a change. With virtual
  media enabled the next request then fails as well: the medium refuses to prepare.
\<close>

theorem aborted_change_leaves_services_waiting:
  assumes "mgr_ok m" and "\<not> mg_op_locked m" and "mg_emulation_enabled m"
    and "check_endpoint_budget (new_switches sws m) = Inr ()"
    and "request_change_approval e (m, w) = (Inr (), s1)" and "unbind_active_gadget e s1 = (Inl err, m2, w2)"
  shows "apply_switches e base sws (m, w) = (Inl err, m2, w2)
    \<and> (\<forall>r. handler_updating r m2 \<longleftrightarrow> service_enabled r (mg_services m) \<noteq> None)
    \<and> (service_enabled HUms (mg_services m) = Some True \<longrightarrow> fst (apply_switches e base2 sws2 (m2, w2)) \<noteq> Inr ())"
proof -
  have run: "apply_switches e base sws (m, w) = (Inl err, m2, w2)"
    using assms by (simp add: apply_switches_def apply_switches_locked_def new_switches_def [symmetric])
  have v: "mgr_view s1 = mgr_view (m, w)" using approval_view [of e "(m, w)"] assms(5) by simp
  have ok1: "mgr_ok (fst s1)" using mgr_ok_view [OF v] assms(1) by simp
  have u: "mgr_ok m2" "\<forall>r. handler_updating r m2 = handler_updating r (fst s1)"
    using unbind_effect [of e "fst s1" "snd s1"] assms(6) ok1 by auto
  have marks: "\<forall>r. handler_updating r m2 \<longleftrightarrow> service_enabled r (mg_services m) \<noteq> None"
    using approval_marks [of "(m, w)" e "()" s1] assms(1,5) u(2) by simp
  have sv: "mg_services m2 = mg_services (fst s1)"
    using unbind_services [of e "fst s1" "snd s1"] assms(6) by simp
  have "fst (apply_switches e base2 sws2 (m2, w2)) \<noteq> Inr ()" if on: "service_enabled HUms (mg_services m) = Some True"
  proof
    assume "fst (apply_switches e base2 sws2 (m2, w2)) = Inr ()"
    then have "fst (request_change_approval e (m2, w2)) = Inr ()"
      by (auto simp: apply_switches_def apply_switches_locked_def Let_def split: if_splits sum.splits prod.splits)
    moreover have "service_enabled HUms (mg_services m2) = Some True"
      using mgr_view_fields(8) [OF v, of HUms] on sv by simp
    ultimately show False using updating_ums_blocks_approval [of "(m2, w2)" e] u(1) marks on by auto
  qed
  with run marks show ?thesis by blast
qed

lemma release_fails:
  assumes "\<And>w. ue_root_exists e w" and "\<And>w. fst (ue_remove_tree e w) = Inl err"
  shows "fst (release_gadget_configfs e s) = Inl err"
proof (cases s)
  case (Pair m w)
  then show ?thesis using assms by (simp add: release_gadget_configfs_def split_beta)
qed

lemma unbind_fails:
  assumes "\<And>w. ue_root_exists e w" and "\<And>w. fst (ue_remove_tree e w) = Inl err"
  shows "fst (unbind_active_gadget e s) = Inl err"
proof (cases s)
  case (Pair m w)
  then show ?thesis using release_fails [OF assms] by (simp add: unbind_active_gadget_def split: option.split)
qed

definition manager_demo :: usb_manager where
  "manager_demo = (manager_new base_demo)\<lparr>mg_switches := switches_default\<lparr>hid_kb_enabled := True\<rparr>,
     mg_services := services_empty\<lparr>sv_kb := Some (kb_new True)\<rparr>, mg_change_handlers := [(HID_KB_INSTANCE, HKb)]\<rparr>"

lemma manager_demo_ok: "mgr_ok manager_demo"
proof -
  have "service_enabled r (services_empty\<lparr>sv_kb := Some (kb_new True)\<rparr>) = (if r = HKb then Some True else None)" for r
    by (cases r) (simp_all add: services_empty_def kb_new_def)
  then show ?thesis by (auto simp: mgr_ok_def manager_demo_def hm_wf_def)
qed

theorem aborted_change_leaves_services_waiting_witness:
  "\<exists>m2. apply_switches (usb_demo_env\<lparr>ue_root_exists := (\<lambda>w. True), ue_remove_tree := (\<lambda>w. (Inl (GadgetError ''busy''), w))\<rparr>)
       None None (manager_demo, ()) = (Inl (GadgetError ''busy''), m2, ()) \<and> handler_updating HKb m2"
proof -
  let ?e = "usb_demo_env\<lparr>ue_root_exists := (\<lambda>w. True), ue_remove_tree := (\<lambda>w. (Inl (GadgetError ''busy''), w))\<rparr>"
  have c: "fst (request_change_approval ?e (manager_demo, ())) = Inr ()"
    by (simp add: request_change_approval_def request_change_only_def ask_handlers_def snapshot_change_handlers_def
        manager_demo_def manager_new_def on_handle_def with_world_def kb_on_change_def)
  have d: "\<not> mg_op_locked manager_demo" "mg_emulation_enabled manager_demo"
    "service_enabled HKb (mg_services manager_demo) = Some True"
    by (simp_all add: manager_demo_def manager_new_def kb_new_def)
  have "check_endpoint_budget (switches_default\<lparr>hid_kb_enabled := True\<rparr>) = Inr ()" by code_simp
  then have b: "check_endpoint_budget (new_switches None manager_demo) = Inr ()"
    by (simp add: new_switches_def manager_demo_def)
  from c obtain s1 where a: "request_change_approval ?e (manager_demo, ()) = (Inr (), s1)"
    by (cases "request_change_approval ?e (manager_demo, ())") auto
  have "fst (unbind_active_gadget ?e s1) = Inl (GadgetError ''busy'')" by (rule unbind_fails) simp_all
  then obtain m2 w2 where u: "unbind_active_gadget ?e s1 = (Inl (GadgetError ''busy''), m2, w2)"
    by (metis prod.exhaust fst_conv)
  note t = aborted_change_leaves_services_waiting [OF manager_demo_ok d(1,2) b a u, of None None None]
  from t have 1: "apply_switches ?e None None (manager_demo, ()) = (Inl (GadgetError ''busy''), m2, w2)" by blast
  from t have "handler_updating HKb m2 \<longleftrightarrow> service_enabled HKb (mg_services manager_demo) \<noteq> None" by blast
  with d(3) have "handler_updating HKb m2" by (metis option.discI)
  with 1 show ?thesis by (metis old.unit.exhaust)
qed

section \<open>Every reachable state\<close>

definition mgr_inv :: "usb_manager \<Rightarrow> bool" where
  "mgr_inv m = (mgr_ok m \<and> check_endpoint_budget (mg_switches m) = Inr () \<and> gadget_ok m
     \<and> (mg_active_gadget m \<noteq> None \<longrightarrow> mg_emulation_enabled m))"

lemma gadget_ok_iff:
  "gadget_ok m \<longleftrightarrow> (\<forall>g. mg_active_gadget m = Some g \<longrightarrow> describes g (mg_base_info m) (mg_switches m))"
  by (auto simp: gadget_ok_def split: option.split)

lemma mgr_inv_new: "mgr_inv (manager_new b)"
proof -
  have "check_endpoint_budget switches_default = Inr ()" by code_simp
  then show ?thesis using mgr_ok_new [of b] by (simp add: mgr_inv_def gadget_ok_iff) (simp add: manager_new_def)
qed

text \<open>The invariant looks at the configuration, the handlers and the switches of the services only.\<close>

lemma mgr_inv_cong:
  assumes "mg_base_info m' = mg_base_info m" "mg_switches m' = mg_switches m"
    "mg_change_handlers m' = mg_change_handlers m" "mg_active_gadget m' = mg_active_gadget m"
    "mg_emulation_enabled m' = mg_emulation_enabled m"
    and "\<And>r. service_enabled r (mg_services m') = service_enabled r (mg_services m)"
  shows "mgr_inv m' = mgr_inv m"
  by (simp only: mgr_inv_def mgr_ok_def gadget_ok_iff assms)

lemma mgr_inv_view: "mgr_view s = mgr_view t \<Longrightarrow> mgr_inv (fst s) = mgr_inv (fst t)"
  using mgr_view_fields [of s t] by (intro mgr_inv_cong) simp_all

lemma apply_switches_inv:
  assumes "mgr_inv (fst s)"
  shows "mgr_inv (fst (snd (apply_switches e base sws s)))"
proof -
  obtain m w where s: "s = (m, w)" by (rule prod.exhaust)
  obtain res m' w' where r: "apply_switches e base sws (m, w) = (res, m', w')" by (metis prod.exhaust)
  from assms s have ok: "mgr_ok m" and i: "mgr_inv m" by (simp_all add: mgr_inv_def)
  have "mgr_inv m'"
  proof (cases "res = Inr ()")
    case True
    with r have "apply_switches e base sws (m, w) = (Inr (), m', w')" by simp
    note k = apply_switches_ok [OF ok this]
    show ?thesis unfolding mgr_inv_def k(2) using k(3,4,7,8) by blast
  next
    case False
    note k = apply_switches_err [OF ok r False]
    note f = core_fields [OF k(1)]
    show ?thesis
    proof (cases "mg_emulation_enabled m")
      case True
      with k(2,3) f i show ?thesis by (auto simp: mgr_inv_def gadget_ok_iff)
    next
      case False
      then have "m' = m" using r by (auto simp: apply_switches_def apply_switches_locked_def split: if_splits)
      with i show ?thesis by simp
    qed
  qed
  with s r show ?thesis by simp
qed

lemma mgr_inv_emulation: "mgr_inv m \<Longrightarrow> mgr_inv (m\<lparr>mg_emulation_enabled := True\<rparr>)"
  by (simp add: mgr_inv_def mgr_ok_def gadget_ok_iff)

lemma mgr_inv_off: "mgr_inv m \<Longrightarrow> mg_active_gadget m = None \<Longrightarrow> mgr_inv (m\<lparr>mg_emulation_enabled := b\<rparr>)"
  by (simp add: mgr_inv_def mgr_ok_def gadget_ok_iff)

lemma release_inv: "mgr_inv (fst (snd (release_gadget_configfs e (m, w)))) = mgr_inv m"
    "mg_active_gadget (fst (snd (release_gadget_configfs e (m, w)))) = mg_active_gadget m"
  using release_frame [of e m w] by (auto simp: mgr_inv_def mgr_ok_def gadget_ok_iff)

lemma unbind_inv:
  assumes "mgr_inv m" and "unbind_active_gadget e (m, w) = (res, m', w')"
  shows "mgr_inv m'" "mg_active_gadget m' = None"
proof -
  note u = unbind_effect [OF assms(2)]
  then show "mg_active_gadget m' = None" by blast
  from u assms(1) core_fields [of m' m] show "mgr_inv m'" by (simp add: mgr_inv_def gadget_ok_iff)
qed

lemma bind_inv:
  assumes "mgr_inv m" and "mg_active_gadget m = None" and "bind_gadget_from_current_switches e (m, w) = (res, m', w')"
  shows "res = Inr () \<Longrightarrow> mgr_inv (m'\<lparr>mg_emulation_enabled := True\<rparr>)" "res \<noteq> Inr () \<Longrightarrow> mgr_inv m'"
proof -
  have ok: "mgr_ok m" using assms(1) by (simp add: mgr_inv_def)
  note k = bind_gadget_ok [OF ok assms(2,3)]
  note f = core_fields [OF k(4)]
  show "mgr_inv (m'\<lparr>mg_emulation_enabled := True\<rparr>)" if "res = Inr ()"
    using k(1,3) f(1,2) assms(1) by (simp add: mgr_inv_def mgr_ok_def gadget_ok_iff)
  show "mgr_inv m'" if "res \<noteq> Inr ()"
    using k(1,3) f(1,2) assms(1) k(6) [OF that] by (simp add: mgr_inv_def)
qed

lemma set_emulation_inv:
  assumes "mgr_inv (fst s)"
  shows "mgr_inv (fst (snd (set_emulation_enabled e b s)))"
proof -
  obtain m w where s: "s = (m, w)" by (rule prod.exhaust)
  with assms have i: "mgr_inv m" by simp
  obtain ra m1 w1 where ap: "request_change_approval e (m, w) = (ra, m1, w1)" by (metis prod.exhaust)
  have v1: "mgr_view (m1, w1) = mgr_view (m, w)" using approval_view [of e "(m, w)"] ap by simp
  then have i1: "mgr_inv m1" and a1: "mg_active_gadget m1 = mg_active_gadget m"
    using mgr_inv_view [OF v1] mgr_view_fields(4) [OF v1] i by simp_all
  have nv: "mgr_inv (fst (notify_handlers e ChangeCompleted t)) = mgr_inv (fst t)" for t
    by (rule mgr_inv_view [OF notify_handlers_view])
  have "mgr_inv (fst (snd (set_emulation_enabled_locked e b (m, w))))"
  proof (cases b)
    case True
    obtain rb m2 w2 where bd: "bind_gadget_from_current_switches e (m1, w1) = (rb, m2, w2)" by (metis prod.exhaust)
    have "mgr_inv m2" if "rb \<noteq> Inr ()" "mg_active_gadget m = None" using bind_inv(2) [OF i1 _ bd] that a1 by simp
    moreover have "mgr_inv (m2\<lparr>mg_emulation_enabled := True\<rparr>)" if "rb = Inr ()" "mg_active_gadget m = None"
      using bind_inv(1) [OF i1 _ bd] that a1 by simp
    ultimately show ?thesis
      using True i i1 by (cases ra; cases rb) (simp_all add: set_emulation_enabled_locked_def ap bd nv mgr_inv_emulation)
  next
    case False
    obtain ru m2 w2 where un: "unbind_active_gadget e (m1, w1) = (ru, m2, w2)" by (metis prod.exhaust)
    note u = unbind_inv [OF i1 un]
    show ?thesis
    proof (cases "mg_active_gadget m = None")
      case True
      then show ?thesis using False i release_inv [of e m w]
        by (simp add: set_emulation_enabled_locked_def split_beta mgr_inv_off)
    next
      case on: False
      then show ?thesis using False i1 u
        by (cases ra; cases ru) (auto simp: set_emulation_enabled_locked_def ap un nv mgr_inv_off)
    qed
  qed
  with i s show ?thesis by (simp add: set_emulation_enabled_def)
qed

lemma put_ums_inv: "sv_ums (mg_services m) = Some h \<Longrightarrow> um_enabled h' = um_enabled h \<Longrightarrow> mgr_inv (put_ums h' m) = mgr_inv m"
  by (rule mgr_inv_cong) (simp_all add: put_ums_def, case_tac r, simp_all)

lemma put_ums1_inv: "sv_ums1 (mg_services m) = Some h \<Longrightarrow> um_enabled h' = um_enabled h \<Longrightarrow> mgr_inv (put_ums1 h' m) = mgr_inv m"
  by (rule mgr_inv_cong) (simp_all add: put_ums1_def, case_tac r, simp_all)

lemma mount_ums_enabled [simp]: "um_enabled (fst (snd (mount_ums e p (h, w)))) = um_enabled h"
proof -
  obtain r h1 where g: "get_lun_file_path e UMS_VM_INQUIRY_STRING (h, w) = (r, h1)" by fastforce
  with get_lun_enabled [of e UMS_VM_INQUIRY_STRING h w] have "um_enabled h1 = um_enabled h" by simp
  with g show ?thesis by (cases r) (auto simp: mount_ums_def split_beta split: sum.split option.split)
qed

lemma mount_ums1_enabled [simp]: "um_enabled (fst (snd (mount_ums1 e p (h, w)))) = um_enabled h"
proof -
  obtain r h1 where g: "get_lun_file_path e UMS_FT_INQUIRY_STRING (h, w) = (r, h1)" by fastforce
  with get_lun_enabled [of e UMS_FT_INQUIRY_STRING h w] have "um_enabled h1 = um_enabled h" by simp
  with g show ?thesis by (cases r) (auto simp: mount_ums1_def split_beta split: sum.split option.split)
qed

lemma switch_mode_enabled [simp]: "um_enabled (snd (switch_mode mode h)) = um_enabled h"
  by (simp add: switch_mode_def)

lemma ums_unmount_inv: "mgr_inv (fst s) \<Longrightarrow> mgr_inv (fst (snd (ums_vm_unmount e s)))"
  by (cases s) (auto simp: ums_vm_unmount_def split_beta put_ums_inv split: option.split)

lemma ums_ft_unmount_inv: "mgr_inv (fst s) \<Longrightarrow> mgr_inv (fst (snd (ums_ft_unmount e s)))"
  by (cases s) (auto simp: ums_ft_unmount_def split_beta put_ums1_inv split: option.split)

lemma ums_ft_mount_inv: "mgr_inv (fst s) \<Longrightarrow> mgr_inv (fst (snd (ums_ft_mount e p s)))"
  by (cases s) (auto simp: ums_ft_mount_def split_beta put_ums1_inv split: option.split)

lemma mount_vm_image_inv: "mgr_inv (fst s) \<Longrightarrow> mgr_inv (fst (snd (mount_vm_image e p s)))"
  by (cases s) (auto simp: mount_vm_image_def split_beta put_ums_inv split: option.split)

lemma ums_vm_mount_inv:
  assumes "mgr_inv (fst s)"
  shows "mgr_inv (fst (snd (ums_vm_mount e p t s)))"
proof (cases "sv_ums (mg_services (fst s))")
  case None
  with assms show ?thesis by (simp add: ums_vm_mount_def split_beta)
next
  case (Some h)
  obtain r h1 where sm: "switch_mode (proto_vm_type_to_ums_mode t) h = (r, h1)" by fastforce
  with switch_mode_enabled [of "proto_vm_type_to_ums_mode t" h] have "um_enabled h1 = um_enabled h" by simp
  then have i1: "mgr_inv (put_ums h1 (fst s))" using put_ums_inv [OF Some] assms by simp
  have i2: "mgr_inv (fst (snd (apply_switches e None None (put_ums h1 (fst s), snd s))))"
    by (rule apply_switches_inv) (simp add: i1)
  show ?thesis
    using Some i1 i2 mount_vm_image_inv [of "snd (apply_switches e None None (put_ums h1 (fst s), snd s))" e p]
      mount_vm_image_inv [of "(put_ums h1 (fst s), snd s)" e p]
    by (cases r) (auto simp: ums_vm_mount_def sm split_beta split: sum.split)
qed

lemma ums_switch_inv:
  assumes "mgr_inv (fst s)"
  shows "mgr_inv (fst (snd (ums_vm_switch_mode e mode s)))"
proof (cases "sv_ums (mg_services (fst s))")
  case None
  with assms show ?thesis by (simp add: ums_vm_switch_mode_def split_beta)
next
  case (Some h)
  obtain r h1 where sm: "switch_mode mode h = (r, h1)" by fastforce
  with switch_mode_enabled [of mode h] have "um_enabled h1 = um_enabled h" by simp
  then have i1: "mgr_inv (put_ums h1 (fst s))" using put_ums_inv [OF Some] assms by simp
  have "mgr_inv (fst (snd (apply_switches e None None (put_ums h1 (fst s), snd s))))"
    by (rule apply_switches_inv) (simp add: i1)
  with Some i1 show ?thesis by (cases r) (simp_all add: ums_vm_switch_mode_def sm split_beta)
qed

lemma handle_ums_control_inv: "mgr_inv (fst s) \<Longrightarrow> mgr_inv (fst (snd (handle_ums_control e req s)))"
  by (simp add: handle_ums_control_def Let_def ums_unmount_inv ums_ft_unmount_inv ums_ft_mount_inv ums_vm_mount_inv
      ums_switch_inv split: ums_operation.split ums_target.split)

lemma mic_inv: "mgr_inv (fst s) \<Longrightarrow> mgr_inv (fst (snd (apply_mic_process_enabled e b s)))"
proof -
  assume i: "mgr_inv (fst s)"
  have "service_enabled r (mg_services (fst (snd (apply_mic_process_enabled e b s)))) = service_enabled r (mg_services (fst s))" for r
    by (cases r; cases "sv_uac (mg_services (fst s))")
      (auto simp: apply_mic_process_enabled_def set_mic_process_enabled_def sync_process_state_def
        uac_set_process_enabled_def split_beta Let_def)
  with i show ?thesis
    by (subst mgr_inv_cong [of _ "fst s"])
      (auto simp: apply_mic_process_enabled_def set_mic_process_enabled_def split_beta Let_def split: option.split)
qed

lemma l3_config_inv:
  assumes "mgr_inv m"
  shows "mgr_inv (set_network_adapter_l3_config l3 m)"
proof -
  let ?m1 = "case sv_net (mg_services m) of Some _ \<Rightarrow> m | None \<Rightarrow> add_service HNet
     (\<lambda>sv. sv\<lparr>sv_net := Some (net_new (network_adapter_enabled (mg_switches m)))\<rparr>) m"
  have ok: "mgr_ok m" using assms by (simp add: mgr_inv_def)
  have "?m1 = m \<or> svc_step HNet (network_adapter_enabled (mg_switches m)) m ?m1"
    using svc_net [OF ok] by (cases "sv_net (mg_services m)") (simp_all add: apply_net_service_def Let_def)
  then have i1: "mgr_inv ?m1" using assms by (elim disjE) (auto simp: svc_step_def mgr_inv_def gadget_ok_iff)
  have e: "na_enabled (set_l3_from_proto l3 h) = na_enabled h" for h
    by (simp add: set_l3_from_proto_def split: option.split)
  have "service_enabled r (mg_services (set_network_adapter_l3_config l3 m)) = service_enabled r (mg_services ?m1)" for r
    by (cases r) (simp_all add: set_network_adapter_l3_config_def Let_def option.map_comp o_def e)
  with i1 show ?thesis
    by (subst mgr_inv_cong [of _ ?m1]) (simp_all add: set_network_adapter_l3_config_def Let_def)
qed

lemma l3_only_inv: "mgr_inv (fst s) \<Longrightarrow> mgr_inv (fst (snd (apply_network_adapter_l3_only e s)))"
proof -
  assume i: "mgr_inv (fst s)"
  obtain m w where s: "s = (m, w)" by (rule prod.exhaust)
  have "service_enabled r (mg_services (fst (snd (apply_network_adapter_l3_only e s)))) = service_enabled r (mg_services (fst s))" for r
    using apply_l3_frame(2) [of "ue_net e"] s
    by (cases r; cases "sv_net (mg_services m)") (simp_all add: apply_network_adapter_l3_only_def split_beta)
  with i s show ?thesis
    by (subst mgr_inv_cong [of _ m]) (auto simp: apply_network_adapter_l3_only_def split_beta split: option.split)
qed

lemma udc_watch_inv: "mgr_inv (snd (udc_watch_step r (l, m))) = mgr_inv m"
  by (rule mgr_inv_cong)
    (auto simp: udc_watch_step_def report_udc_state_if_changed_def emit_lifecycle_def split: sum.split option.split)

text \<open>
  The histories of a manager: every method the control service calls, the watch task, other holders of
  the operation lock, and the devices' own threads, which change the state of a service but not its
  switch.
\<close>

inductive mgr_reach :: "'w usb_env \<Rightarrow> usb_manager \<times> 'w \<Rightarrow> bool" for e where
  start: "mgr_reach e (manager_new b, w)"
| switches: "mgr_reach e s \<Longrightarrow> mgr_reach e (snd (apply_switches e base sws s))"
| emulation: "mgr_reach e s \<Longrightarrow> mgr_reach e (snd (set_emulation_enabled e b s))"
| ums: "mgr_reach e s \<Longrightarrow> mgr_reach e (snd (handle_ums_control e req s))"
| preflight: "mgr_reach e s \<Longrightarrow> mgr_reach e (snd (preflight_gadget_change e s))"
| mic: "mgr_reach e s \<Longrightarrow> mgr_reach e (snd (apply_mic_process_enabled e b s))"
| mic_flag: "mgr_reach e (m, w) \<Longrightarrow> mgr_reach e (set_mic_process_enabled b m, w)"
| l3_config: "mgr_reach e (m, w) \<Longrightarrow> mgr_reach e (set_network_adapter_l3_config l3 m, w)"
| l3_only: "mgr_reach e s \<Longrightarrow> mgr_reach e (snd (apply_network_adapter_l3_only e s))"
| udc: "mgr_reach e (m, w) \<Longrightarrow> mgr_reach e (snd (udc_watch_step r (l, m)), w)"
| lifecycle: "mgr_reach e (m, w) \<Longrightarrow> mgr_reach e (snd (add_lifecycle_handler n m), w)"
| lock: "mgr_reach e (m, w) \<Longrightarrow> mgr_reach e (m\<lparr>mg_op_locked := b\<rparr>, w)"
| devices: "mgr_reach e (m, w) \<Longrightarrow> \<forall>r. service_enabled r sv = service_enabled r (mg_services m)
     \<Longrightarrow> mgr_reach e (m\<lparr>mg_services := sv\<rparr>, w')"

lemma mgr_reach_inv: "mgr_reach e s \<Longrightarrow> mgr_inv (fst s)"
proof (induction rule: mgr_reach.induct)
  case (preflight s)
  then show ?case
    using mgr_inv_view [OF ask_handlers_view [of e RequestChange s]]
    by (simp add: preflight_gadget_change_def request_change_only_def)
next
  case (mic_flag m w b)
  then show ?case using mgr_inv_cong [of "set_mic_process_enabled b m" m] by (simp add: set_mic_process_enabled_def)
next
  case (lifecycle m w n)
  then show ?case using mgr_inv_cong [of "snd (add_lifecycle_handler n m)" m] by (simp add: add_lifecycle_handler_def)
next
  case (lock m w b)
  then show ?case using mgr_inv_cong [of "m\<lparr>mg_op_locked := b\<rparr>" m] by simp
next
  case (devices m w sv w')
  then show ?case using mgr_inv_cong [of "m\<lparr>mg_services := sv\<rparr>" m] by simp
qed (simp_all add: mgr_inv_new apply_switches_inv set_emulation_inv handle_ums_control_inv mic_inv l3_config_inv
    l3_only_inv udc_watch_inv)



section \<open>A refused change of the medium's mode\<close>

definition vm_mode :: "usb_manager \<Rightarrow> ums_mode option" where
  "vm_mode m = map_option um_mode (sv_ums (mg_services m))"

lemma get_lun_mode [simp]: "um_mode (snd (get_lun_file_path e q (h, w))) = um_mode h"
  by (auto simp: get_lun_file_path_def split: option.splits sum.splits)

lemma unmount_ums_mode [simp]: "um_mode (fst (snd (unmount_ums e (h, w)))) = um_mode h"
proof -
  obtain r h1 where g: "get_lun_file_path e UMS_VM_INQUIRY_STRING (h, w) = (r, h1)" by fastforce
  with get_lun_mode [of e UMS_VM_INQUIRY_STRING h w] have "um_mode h1 = um_mode h" by simp
  with g show ?thesis by (cases r) (auto simp: unmount_ums_def split_beta split: sum.split)
qed

lemma ums_mode_kept [simp]: "um_mode (fst (fst (ums_on_change e req (h, w)))) = um_mode h"
  using unmount_ums_mode [of e h w]
  by (cases req) (auto simp: ums_on_change_def sync_lun_file_path_def split_beta split: sum.splits)

lemma deliver_mode: "vm_mode (fst (fst (deliver e req r s))) = vm_mode (fst s)"
  by (cases s; cases r) (auto simp: vm_mode_def dlv_defs split: option.splits)

interpretation mode_bus: handler_bus "deliver e" "\<lambda>r s. handler_updating r (fst s)" "\<lambda>s. vm_mode (fst s)"
  "\<lambda>r v. False" marks_early for e :: "'w usb_env"
  by unfold_locales (simp_all add: deliver_end deliver_other deliver_mode deliver_holds)

lemma ask_handlers_mode: "vm_mode (fst (snd (ask_handlers e req s))) = vm_mode (fst s)"
  using mode_bus.ask_view [of e req "snapshot_change_handlers (fst s)" s]
  by (auto simp: ask_handlers_def notify_handlers_def mode_bus.notify_view split: prod.splits option.splits)

lemma approval_mode: "vm_mode (fst (snd (request_change_approval e s))) = vm_mode (fst s)"
  using ask_handlers_mode [of e RequestChange s] ask_handlers_mode [of e PrepareChange]
  by (auto simp: request_change_approval_def request_change_only_def split: prod.splits sum.splits)

text \<open>
  A mode switch that is refused is remembered as done. Switching the virtual medium between CD-ROM
  and disk records the new mode before it asks for the rebuild. If a service refuses the rebuild, the
  caller gets the error and the bound gadget is still the old one, but the recorded mode is the new
  one; asking again, with nothing mounted, is answered with success and rebuilds nothing.
\<close>

theorem refused_mode_switch_sticks:
  assumes "mgr_ok m" and "sv_ums (mg_services m) = Some h" and "um_enabled h" and "um_file_path h = None"
    and "\<not> um_updating h" and "um_mode h \<noteq> mode"
    and "\<not> mg_op_locked m" and "mg_emulation_enabled m" and "check_endpoint_budget (mg_switches m) = Inr ()"
    and "request_change_approval e (put_ums (h\<lparr>um_mode := mode\<rparr>) m, w) = (Inl err, m1, w1)"
  shows "ums_vm_switch_mode e mode (m, w) = (ums_resp_err (usb_error_to_string err), m1, w1)
    \<and> mg_active_gadget m1 = mg_active_gadget m
    \<and> (\<exists>h1. sv_ums (mg_services m1) = Some h1 \<and> um_mode h1 = mode
         \<and> (um_file_path h1 = None \<longrightarrow> ums_vm_switch_mode e mode (m1, w1) = (ums_resp_ok, m1, w1)))"
proof -
  let ?m = "put_ums (h\<lparr>um_mode := mode\<rparr>) m"
  have sm: "switch_mode mode h = (Inr True, h\<lparr>um_mode := mode\<rparr>)" using assms by (simp add: switch_mode_def)
  have "apply_switches e None None (?m, w) = (Inl err, m1, w1)"
    using assms(7-10) by (simp add: apply_switches_def apply_switches_locked_def put_ums_def)
  then have run: "ums_vm_switch_mode e mode (m, w) = (ums_resp_err (usb_error_to_string err), m1, w1)"
    using assms(2) sm by (simp add: ums_vm_switch_mode_def ums_resp_of_def)
  have en: "service_enabled r (mg_services ?m) = service_enabled r (mg_services m)" for r
    using assms(2) by (cases r) (simp_all add: put_ums_def)
  have ok: "mgr_ok ?m" using assms(1) unfolding mgr_ok_def en by (simp add: put_ums_def)
  have v: "mgr_view (m1, w1) = mgr_view (?m, w)" using approval_view [of e "(?m, w)"] assms(10) by simp
  have idle: "\<not> handler_updating HUms m1"
    using approval_reject [of "(?m, w)" e err "(m1, w1)"] ok assms(10) unfolding handlers_idle_def by simp
  have "vm_mode m1 = Some mode" using approval_mode [of e "(?m, w)"] assms(10) by (simp add: vm_mode_def put_ums_def)
  then obtain h1 where h1: "sv_ums (mg_services m1) = Some h1" "um_mode h1 = mode" by (auto simp: vm_mode_def)
  have "service_enabled HUms (mg_services m1) = Some True"
    using mgr_view_fields(8) [OF v, of HUms] en [of HUms] assms(2,3) by simp
  with h1 idle have "um_enabled h1" "\<not> um_updating h1" by simp_all
  with h1 have "ums_vm_switch_mode e mode (m1, w1) = (ums_resp_ok, m1, w1)" if "um_file_path h1 = None"
    using that by (simp add: ums_vm_switch_mode_def switch_mode_def put_ums_def)
  moreover have "mg_active_gadget m1 = mg_active_gadget m"
    using mgr_view_fields(4) [OF v] by (simp add: put_ums_def)
  ultimately show ?thesis using run by (intro conjI exI [of _ h1] h1 impI)
qed

definition stuck_env :: "unit usb_env" where
  "stuck_env = usb_demo_env\<lparr>ue_fs := \<lparr>fs_functions = (\<lambda>w. None), fs_exists = (\<lambda>p w. True),
     fs_write = (\<lambda>p d w. (WFail ''busy'', w))\<rparr>\<rparr>"

definition manager_demo3 :: "usb_manager" where
  "manager_demo3 = (manager_new base_demo)\<lparr>mg_switches := switches_default\<lparr>ums_vm_enabled := True, ums_ft_enabled := True\<rparr>,
     mg_services := services_empty\<lparr>sv_ums := Some (ums_new CdRom True),
       sv_ums1 := Some ((ums1_new True)\<lparr>um_lun_file_path := Some ''lun''\<rparr>)\<rparr>,
     mg_change_handlers := [(UMS_FT_INQUIRY_STRING, HUms1), (UMS_VM_INQUIRY_STRING, HUms)]\<rparr>"

theorem refused_mode_switch_sticks_witness:
  "\<exists>m1 err. ums_vm_switch_mode stuck_env Disk (manager_demo3, ()) = (ums_resp_err err, m1, ()) \<and> vm_mode m1 = Some Disk"
proof -
  have s: "service_enabled r (mg_services manager_demo3) = (if r = HUms \<or> r = HUms1 then Some True else None)" for r
    by (cases r) (simp_all add: manager_demo3_def services_empty_def ums_new_def ums1_new_def)
  have "UMS_FT_INQUIRY_STRING \<noteq> UMS_VM_INQUIRY_STRING" by (simp add: UMS_FT_INQUIRY_STRING_def UMS_VM_INQUIRY_STRING_def)
  then have ok: "mgr_ok manager_demo3" unfolding mgr_ok_def s by (auto simp: manager_demo3_def hm_wf_def split: if_splits)
  have b: "check_endpoint_budget (switches_default\<lparr>ums_vm_enabled := True, ums_ft_enabled := True\<rparr>) = Inr ()" by code_simp
  have "\<exists>err. fst (request_change_approval stuck_env (put_ums ((ums_new CdRom True)\<lparr>um_mode := Disk\<rparr>) manager_demo3, ())) = Inl err"
    by (simp add: request_change_approval_def request_change_only_def ask_handlers_def snapshot_change_handlers_def
        manager_demo3_def manager_new_def put_ums_def on_handle_def ums_on_change_def ums1_on_change_def
        unmount_ums1_def ums1_new_def get_lun_file_path_def stuck_env_def write_file_def ums_new_def)
  then obtain err m1 where a: "request_change_approval stuck_env (put_ums ((ums_new CdRom True)\<lparr>um_mode := Disk\<rparr>) manager_demo3, ())
      = (Inl err, m1, ())" by (metis prod.exhaust fst_conv old.unit.exhaust)
  have "ums_vm_switch_mode stuck_env Disk (manager_demo3, ()) = (ums_resp_err (usb_error_to_string err), m1, ())
      \<and> mg_active_gadget m1 = mg_active_gadget manager_demo3
      \<and> (\<exists>h1. sv_ums (mg_services m1) = Some h1 \<and> um_mode h1 = Disk
         \<and> (um_file_path h1 = None \<longrightarrow> ums_vm_switch_mode stuck_env Disk (m1, ()) = (ums_resp_ok, m1, ())))"
    by (rule refused_mode_switch_sticks [OF ok, of "ums_new CdRom True"])
      (simp_all add: a, simp_all add: manager_demo3_def ums_new_def manager_new_def b)
  then show ?thesis by (auto simp: vm_mode_def)
qed

section \<open>Waiting for the controller\<close>

lemma probe_recovered:
  "\<not> (case mg_udc_state_cache m of Some st \<Rightarrow> is_recovered_state st | None \<Rightarrow> False) \<Longrightarrow>
     (case mg_udc_state_cache (probe_udc e (m, w)) of Some st \<Rightarrow> is_recovered_state st | None \<Rightarrow> False)
       = udc_recovered e (m, w)"
  by (auto simp: probe_udc_def udc_recovered_def split: sum.splits option.splits)

lemma wait_fuel_enough:
  assumes "\<And>d w. ue_now e w + d \<le> ue_now e (ue_sleep e d w)"
    and "deadline \<le> ue_now e w + n * UDC_RECOVER_CHECK_INTERVAL"
  shows "wait_udc_loop (n + k) deadline e (m, w) = wait_udc_loop n deadline e (m, w)"
  using assms(2)
proof (induction n arbitrary: m w)
  case 0
  then show ?case by (subst (1 2) wait_udc_loop.simps) (simp add: Let_def)
next
  case (Suc n)
  have "deadline \<le> ue_now e (ue_sleep e UDC_RECOVER_CHECK_INTERVAL w) + n * UDC_RECOVER_CHECK_INTERVAL"
    using Suc.prems assms(1) [of w UDC_RECOVER_CHECK_INTERVAL] by simp
  note ih = Suc.IH [OF this]
  show ?case by (subst (1 2) wait_udc_loop.simps) (simp add: Let_def ih)
qed

lemma wait_udc_result:
  assumes "\<And>d w. ue_now e w + d \<le> ue_now e (ue_sleep e d w)"
    and "deadline \<le> ue_now e w + n * UDC_RECOVER_CHECK_INTERVAL"
    and "wait_udc_loop n deadline e (m, w) = (r, m', w')"
  shows "(is_ok r \<longleftrightarrow> (case mg_udc_state_cache m' of Some st \<Rightarrow> is_recovered_state st | None \<Rightarrow> False))
    \<and> (is_ok r \<or> deadline \<le> ue_now e w')"
  using assms(2,3)
proof (induction n arbitrary: m w)
  case 0
  then show ?case using probe_recovered [of m e w]
    by (subst (asm) wait_udc_loop.simps) (auto simp: Let_def split: if_splits)
next
  case (Suc n)
  have d: "deadline \<le> ue_now e (ue_sleep e UDC_RECOVER_CHECK_INTERVAL w) + n * UDC_RECOVER_CHECK_INTERVAL"
    using Suc.prems(1) assms(1) [of w UDC_RECOVER_CHECK_INTERVAL] by simp
  from Suc.prems(2) probe_recovered [of m e w] Suc.IH [OF d, of "probe_udc e (m, w)"] show ?case
    by (subst (asm) wait_udc_loop.simps) (auto simp: Let_def split: if_splits)
qed

definition clock_env :: "nat usb_env" where
  "clock_env = \<lparr>
     ue_fs = \<lparr>fs_functions = (\<lambda>w. None), fs_exists = (\<lambda>p w. True), fs_write = (\<lambda>p d w. (WOk, w))\<rparr>,
     ue_net = \<lparr>run_process = (\<lambda>p a v w. (Inl ''not found'', w)), script_is_file = (\<lambda>w. False),
               net_ifname = (\<lambda>n w. None), net_sleep = (\<lambda>w. w)\<rparr>,
     ue_spawn_ok = (\<lambda>w. True), ue_ack_ok = (\<lambda>w. True), ue_now = (\<lambda>w. w), ue_sleep = (\<lambda>n w. w + n),
     ue_udc_state = (\<lambda>w. Inl ''no state''), ue_root_exists = (\<lambda>w. False), ue_read_udc = (\<lambda>w. Inr []),
     ue_write_udc = (\<lambda>d w. (Inr (), w)), ue_remove_tree = (\<lambda>w. (Inr (), w)),
     ue_register = (\<lambda>g w. (Inr (), w)), ue_bind = (\<lambda>g w. (Inr (), w)), ue_unbind = (\<lambda>g w. (Inr (), w)),
     ue_drop = (\<lambda>g w. w), ue_func_dir = (\<lambda>n w. None), ue_is_dir = (\<lambda>p w. False),
     ue_write_attr = (\<lambda>p d w. (Inr (), w))\<rparr>"

text \<open>
  Waiting for the controller ends. If the clock advances by at least what a sleep asks for, the
  200 rounds allowed to the loop are never what ends it: more rounds give the same answer. The wait
  succeeds exactly if the state it leaves in the cache is a recovered one, and it gives up only when
  20 seconds have passed.
\<close>

theorem udc_wait_ends:
  assumes "\<And>d w. ue_now e w + d \<le> ue_now e (ue_sleep e d w)"
    and "wait_for_udc_recovered e (m, w) = (r, m', w')"
  shows "wait_udc_loop (200 + k) (ue_now e w + UDC_RECOVER_TIMEOUT) e (m, w) = (r, m', w')
    \<and> (is_ok r \<longleftrightarrow> (\<exists>st. mg_udc_state_cache m' = Some st \<and> is_recovered_state st))
    \<and> (is_ok r \<or> ue_now e w + 20000 \<le> ue_now e w')"
proof -
  have d: "ue_now e w + UDC_RECOVER_TIMEOUT \<le> ue_now e w + 200 * UDC_RECOVER_CHECK_INTERVAL"
    by (simp add: UDC_RECOVER_TIMEOUT_def UDC_RECOVER_CHECK_INTERVAL_def)
  have r: "wait_udc_loop 200 (ue_now e w + UDC_RECOVER_TIMEOUT) e (m, w) = (r, m', w')"
    using assms(2) by (simp add: wait_for_udc_recovered_def UDC_RECOVER_TIMEOUT_def UDC_RECOVER_CHECK_INTERVAL_def)
  show ?thesis
    using wait_fuel_enough [OF assms(1) d, of k m] wait_udc_result [OF assms(1) d r] r
    by (auto simp: UDC_RECOVER_TIMEOUT_def split: option.splits)
qed

theorem udc_wait_ends_witness:
  "case wait_for_udc_recovered clock_env (manager_new base_demo, 5) of (r, m', w') \<Rightarrow> is_ok r \<or> 20005 \<le> w'"
proof -
  obtain r m' w' where r: "wait_for_udc_recovered clock_env (manager_new base_demo, 5) = (r, m', w')"
    by (metis prod.exhaust)
  have c: "ue_now clock_env = (\<lambda>w. w)" "ue_sleep clock_env = (\<lambda>n w. w + n)" by (simp_all add: clock_env_def)
  then have "ue_now clock_env w + d \<le> ue_now clock_env (ue_sleep clock_env d w)" for d w by simp
  from udc_wait_ends [OF this r] have "is_ok r \<or> ue_now clock_env 5 + 20000 \<le> ue_now clock_env w'" by blast
  then have "is_ok r \<or> 20005 \<le> w'" by (simp add: c)
  with r show ?thesis by simp
qed

end
