(* ===== verification/Usb_Control.thy ===== *)
theory Usb_Control
  imports Usb_Lifecycle
begin

text \<open>
  The control service of the USB sidecar, \<^verbatim>\<open>control/service.rs\<close>, and the error classification of
  \<^verbatim>\<open>control/zenoh.rs\<close>: one task owns the device manager and the last configuration it was given and
  takes commands one at a time. A command is one step; \<open>None\<close> means that the task panicked.
\<close>

section \<open>Messages\<close>

record usb_device_info =
  ui_switches :: "device_switches option"
  ui_ums_vm_type :: int
  ui_ums_vm_path :: string
  ui_ums_ft_path :: string
  ui_network_adapter_l3 :: "adapter_l3_settings option"

record runtime_usb_config =
  rc_vendor_id :: string
  rc_product_id :: string
  rc_serial_number :: string
  rc_manufacturer :: string
  rc_product :: string
  rc_force_full_speed :: bool

record apply_runtime_request =
  ar_usb_config :: "runtime_usb_config option"
  ar_usb_info :: "usb_device_info option"
  ar_mic_process_enabled :: bool

record apply_runtime_response =
  ap_ok :: bool
  ap_applied :: "device_switches option"
  ap_error :: "string option"
  ap_error_code :: int
  ap_retryable :: bool
  ap_applied_usb_info :: "usb_device_info option"

datatype control_cmd =
    Apply usb_device_info
  | ApplyRuntime apply_runtime_request
  | GetSwitches
  | GetUdcStatus
  | GetUsbEmulationState
  | SetUsbEmulationState bool
  | SetMicProcess bool
  | GetMicProcessState
  | UmsControl ums_control_request
  | Putkeyboard u32 "u8 list"
  | Putabsmouse int int u32
  | Putrelmouse int int u32
  | Putwheel u32 u32

datatype control_reply =
    RSwitches "(usb_error, device_switches) result"
  | RRuntime "(usb_error, apply_runtime_response) result"
  | RCurrent device_switches
  | RStatus string
  | RBool bool
  | REmulation "(usb_error, bool) result"
  | RUnit "(usb_error, unit) result"
  | RUms ums_control_response
  | RNone

section \<open>Comparing configurations\<close>

definition network_adapter_switch_changed ::
  "network_adapter_switch option \<Rightarrow> network_adapter_switch option \<Rightarrow> bool" where
  "network_adapter_switch_changed x y =
     (case (x, y) of
        (None, None) \<Rightarrow> False
      | (Some a, Some b) \<Rightarrow> nas_enable a \<noteq> nas_enable b \<or> nas_adapter_type a \<noteq> nas_adapter_type b
      | (None, Some b) \<Rightarrow> nas_enable b
      | (Some a, None) \<Rightarrow> nas_enable a)"

definition is_switches_change :: "device_switches \<Rightarrow> device_switches \<Rightarrow> bool" where
  "is_switches_change a b =
     (hid_kb_enabled a \<noteq> hid_kb_enabled b \<or> hid_abs_enabled a \<noteq> hid_abs_enabled b
      \<or> hid_rel_enabled a \<noteq> hid_rel_enabled b \<or> ums_vm_enabled a \<noteq> ums_vm_enabled b
      \<or> ums_ft_enabled a \<noteq> ums_ft_enabled b \<or> uac1_enabled a \<noteq> uac1_enabled b
      \<or> uvc_enabled a \<noteq> uvc_enabled b
      \<or> network_adapter_switch_changed (network_adapter a) (network_adapter b))"

definition is_paths_change :: "usb_device_info \<Rightarrow> usb_device_info \<Rightarrow> bool" where
  "is_paths_change a b =
     (ui_ums_vm_path a \<noteq> ui_ums_vm_path b \<or> ui_ums_ft_path a \<noteq> ui_ums_ft_path b
      \<or> ui_ums_vm_type a \<noteq> ui_ums_vm_type b)"

definition is_network_adapter_l3_change :: "usb_device_info \<Rightarrow> usb_device_info \<Rightarrow> bool" where
  "is_network_adapter_l3_change a b = (ui_network_adapter_l3 a \<noteq> ui_network_adapter_l3 b)"

definition proto_vm_type_to_mode :: "int \<Rightarrow> ums_mode" where
  "proto_vm_type_to_mode n = (if n = 2 then Disk else CdRom)"

section \<open>Descriptors\<close>

definition strip_hex_prefix :: "string \<Rightarrow> string" where
  "strip_hex_prefix raw =
     (if starts_with raw ''0x'' then drop 2 raw else if starts_with raw ''0X'' then drop 2 raw else raw)"

definition parse_hex_u16 :: "string \<Rightarrow> string \<Rightarrow> (usb_error, u16) result" where
  "parse_hex_u16 name val =
     (case parse_radix 16 65536 (strip_hex_prefix (trim val)) of
        Some n \<Rightarrow> Inr (word_of_nat n)
      | None \<Rightarrow> Inl (InvalidArgument (''invalid '' @ name @ '' (expected hex u16): '' @ val)))"

definition runtime_usb_config_to_base_info ::
  "usb_base_info \<Rightarrow> runtime_usb_config \<Rightarrow> (usb_error, usb_base_info) result" where
  "runtime_usb_config_to_base_info current rc =
     bind_res (parse_hex_u16 ''vendor_id'' (rc_vendor_id rc)) (\<lambda>vid.
     bind_res (parse_hex_u16 ''product_id'' (rc_product_id rc)) (\<lambda>pid.
       Inr \<lparr>vendor_id = vid, product_id = pid, bcd_device = bcd_device current, bcd_usb = bcd_usb current,
            serial_number = rc_serial_number rc, manufacturer = rc_manufacturer rc, product = rc_product rc,
            strict_mode = strict_mode current, force_full_speed = rc_force_full_speed rc\<rparr>))"

section \<open>Applying a configuration\<close>

definition preflight_ums_path_changes ::
  "usb_manager \<Rightarrow> usb_device_info \<Rightarrow> usb_device_info option \<Rightarrow> (usb_error, unit) result" where
  "preflight_ums_path_changes m info last_info =
     (case last_info of
        None \<Rightarrow> Inr ()
      | Some prev \<Rightarrow>
          (case ui_switches info of
             None \<Rightarrow> Inr ()
           | Some s \<Rightarrow>
               if ums_vm_enabled s \<and> ui_ums_vm_path info \<noteq> [] \<and> ui_ums_vm_path info \<noteq> ui_ums_vm_path prev
                  \<and> is_ums_vm_mounted m
               then Inl (ChangeRejected ''virtual media is mounted, cannot change image path'')
               else if ums_ft_enabled s \<and> ui_ums_ft_path info \<noteq> [] \<and> ui_ums_ft_path info \<noteq> ui_ums_ft_path prev
                  \<and> is_ums_ft_mounted m
               then Inl (ChangeRejected ''file transfer storage is mounted, cannot change image path'')
               else Inr ()))"

definition apply_vm_mount ::
  "'w usb_env \<Rightarrow> device_switches \<Rightarrow> usb_device_info \<Rightarrow> usb_manager \<times> 'w \<Rightarrow> (usb_error, unit) result \<times> usb_manager \<times> 'w" where
  "apply_vm_mount e sw info s =
     (case s of (m, w) \<Rightarrow>
      if ums_vm_enabled sw
      then if ui_ums_vm_path info = [] then (Inr (), m, w)
           else case sv_ums (mg_services m) of
             None \<Rightarrow> (Inr (), m, w)
           | Some h \<Rightarrow>
               (case switch_mode (proto_vm_type_to_mode (ui_ums_vm_type info)) h of
                  (r, h1) \<Rightarrow>
                    (case (if r = Inr True then apply_switches e None None (put_ums h1 m, w)
                           else (Inr (), put_ums h1 m, w)) of
                       (Inl err, s2) \<Rightarrow> (Inl err, s2)
                     | (Inr _, s2) \<Rightarrow> (Inr (), snd (mount_vm_image e (ui_ums_vm_path info) s2))))
      else (Inr (), snd (ums_vm_unmount e (m, w))))"

definition apply_ft_mount ::
  "'w usb_env \<Rightarrow> device_switches \<Rightarrow> usb_device_info \<Rightarrow> usb_manager \<times> 'w \<Rightarrow> usb_manager \<times> 'w" where
  "apply_ft_mount e sw info s =
     (if ums_ft_enabled sw
      then if ui_ums_ft_path info = [] then s else snd (ums_ft_mount e (ui_ums_ft_path info) s)
      else snd (ums_ft_unmount e s))"

definition apply_ums_mounts ::
  "'w usb_env \<Rightarrow> usb_device_info \<Rightarrow> usb_device_info option \<Rightarrow> usb_manager \<times> 'w
   \<Rightarrow> (usb_error, unit) result \<times> usb_manager \<times> 'w" where
  "apply_ums_mounts e info last_info s =
     (case preflight_ums_path_changes (fst s) info last_info of
        Inl err \<Rightarrow> (Inl err, s)
      | Inr _ \<Rightarrow>
          (case ui_switches info of
             None \<Rightarrow> (Inr (), s)
           | Some sw \<Rightarrow>
               (case apply_vm_mount e sw info s of
                  (Inl err, s1) \<Rightarrow> (Inl err, s1)
                | (Inr _, s1) \<Rightarrow> (Inr (), apply_ft_mount e sw info s1))))"

type_synonym 'w control_state = "usb_device_info option \<times> usb_manager \<times> 'w"

definition apply_full_config ::
  "'w usb_env \<Rightarrow> usb_device_info \<Rightarrow> usb_base_info \<Rightarrow> 'w control_state
   \<Rightarrow> (usb_error, device_switches) result \<times> 'w control_state" where
  "apply_full_config e info base st =
     (case st of (last_info, m, w) \<Rightarrow>
      case ui_switches info of
        None \<Rightarrow> (Inl (InvalidArgument ''missing switches in usb_info''), st)
      | Some sw \<Rightarrow>
          let m1 = set_network_adapter_l3_config (ui_network_adapter_l3 info) m;
              switches_changed = is_switches_change (mg_switches m1) sw;
              paths_changed = (case last_info of Some prev \<Rightarrow> is_paths_change prev info | None \<Rightarrow> False);
              base_changed = (mg_base_info m1 \<noteq> base);
              l3_changed = (case last_info of Some prev \<Rightarrow> is_network_adapter_l3_change prev info
                            | None \<Rightarrow> ui_network_adapter_l3 info \<noteq> None)
          in if last_info \<noteq> None \<and> \<not> switches_changed \<and> \<not> paths_changed \<and> \<not> base_changed \<and> l3_changed
             then case apply_network_adapter_l3_only e (m1, w) of
                    (Inl err, s2) \<Rightarrow> (Inl err, last_info, s2)
                  | (Inr _, s2) \<Rightarrow> (Inr (mg_switches (fst s2)), Some info, s2)
             else case apply_switches e (Some base) (Some sw) (m1, w) of
                    (Inl err, s2) \<Rightarrow> (Inl err, last_info, s2)
                  | (Inr _, s2) \<Rightarrow>
                      (case apply_ums_mounts e info last_info s2 of
                         (Inl err, s3) \<Rightarrow> (Inl err, last_info, s3)
                       | (Inr _, s3) \<Rightarrow> (Inr (mg_switches (fst s3)), Some info, s3)))"

definition runtime_apply_ok :: "usb_manager \<Rightarrow> usb_device_info \<Rightarrow> apply_runtime_response" where
  "runtime_apply_ok m info =
     \<lparr>ap_ok = True, ap_applied = Some (mg_switches m), ap_error = None, ap_error_code = 0, ap_retryable = False,
      ap_applied_usb_info = Some info\<rparr>"

definition apply_runtime_usb_info ::
  "'w usb_env \<Rightarrow> apply_runtime_request \<Rightarrow> 'w control_state
   \<Rightarrow> (usb_error, apply_runtime_response) result \<times> 'w control_state" where
  "apply_runtime_usb_info e req st =
     (case st of (last_info, m, w) \<Rightarrow>
        let m1 = set_mic_process_enabled (ar_mic_process_enabled req) m; st1 = (last_info, m1, w) in
        case ar_usb_config req of
          None \<Rightarrow> (Inl (InvalidArgument ''missing usb_config in ApplyRuntimeConfigRequest''), st1)
        | Some rc \<Rightarrow>
            (case ar_usb_info req of
               None \<Rightarrow> (Inl (InvalidArgument ''missing usb_info in ApplyRuntimeConfigRequest''), st1)
             | Some info \<Rightarrow>
                 (case runtime_usb_config_to_base_info (mg_base_info m1) rc of
                    Inl err \<Rightarrow> (Inl err, st1)
                  | Inr base \<Rightarrow>
                      (case apply_full_config e info base st1 of
                         (Inl err, st2) \<Rightarrow> (Inl err, st2)
                       | (Inr _, st2) \<Rightarrow> (Inr (runtime_apply_ok (fst (snd st2)) info), st2)))))"

section \<open>The command loop\<close>

definition u32_as_u8 :: "u32 \<Rightarrow> u8" where
  "u32_as_u8 x = ucast x"

definition as_i8 :: "int \<Rightarrow> int" where
  "as_i8 x = (x + 128) mod 256 - 128"

definition control_step ::
  "'w usb_env \<Rightarrow> control_cmd \<Rightarrow> 'w control_state \<Rightarrow> (control_reply \<times> 'w control_state) option" where
  "control_step e cmd st =
     (case st of (last_info, m, w) \<Rightarrow>
      case cmd of
        Apply info \<Rightarrow>
          (case apply_full_config e info (mg_base_info m) st of (r, st') \<Rightarrow> Some (RSwitches r, st'))
      | ApplyRuntime req \<Rightarrow> (case apply_runtime_usb_info e req st of (r, st') \<Rightarrow> Some (RRuntime r, st'))
      | GetSwitches \<Rightarrow> Some (RCurrent (mg_switches m), st)
      | GetUdcStatus \<Rightarrow> Some (RStatus (get_udc_status_sysfs m), st)
      | GetUsbEmulationState \<Rightarrow> Some (RBool (get_emulation_enabled m), st)
      | SetUsbEmulationState b \<Rightarrow>
          (case set_emulation_enabled e b (m, w) of
             (Inl err, s') \<Rightarrow> Some (REmulation (Inl err), last_info, s')
           | (Inr _, s') \<Rightarrow> Some (REmulation (Inr (get_emulation_enabled (fst s'))), last_info, s'))
      | SetMicProcess b \<Rightarrow>
          (case apply_mic_process_enabled e b (m, w) of (r, s') \<Rightarrow> Some (RUnit r, last_info, s'))
      | GetMicProcessState \<Rightarrow> Some (RBool (is_mic_process_running m), st)
      | UmsControl req \<Rightarrow> (case handle_ums_control e req (m, w) of (r, s') \<Rightarrow> Some (RUms r, last_info, s'))
      | Putkeyboard modifier keys \<Rightarrow>
          (case sv_kb (mg_services m) of
             None \<Rightarrow> Some (RNone, st)
           | Some h \<Rightarrow>
               (case keyboard_report (u32_as_u8 modifier) keys h of
                  None \<Rightarrow> None
                | Some h' \<Rightarrow> Some (RNone, last_info, m\<lparr>mg_services := (mg_services m)\<lparr>sv_kb := Some h'\<rparr>\<rparr>, w)))
      | Putabsmouse x y buttons \<Rightarrow>
          (case sv_abs (mg_services m) of
             None \<Rightarrow> Some (RNone, st)
           | Some h \<Rightarrow> Some (RNone, last_info,
               m\<lparr>mg_services := (mg_services m)\<lparr>sv_abs := Some (abs_mouse_report x y (u32_as_u8 buttons) h)\<rparr>\<rparr>, w))
      | Putrelmouse dx dy buttons \<Rightarrow>
          (case sv_rel (mg_services m) of
             None \<Rightarrow> Some (RNone, st)
           | Some h \<Rightarrow> Some (RNone, last_info,
               m\<lparr>mg_services := (mg_services m)\<lparr>sv_rel := Some (rel_mouse_report (as_i8 dx) (as_i8 dy) (u32_as_u8 buttons) h)\<rparr>\<rparr>, w))
      | Putwheel wheel_y wheel_x \<Rightarrow>
          (case sv_abs (mg_services m) of
             None \<Rightarrow> Some (RNone, st)
           | Some h \<Rightarrow> Some (RNone, last_info,
               m\<lparr>mg_services := (mg_services m)\<lparr>sv_abs :=
                  Some (abs_mouse_wheel (as_i8 (uint wheel_y)) (as_i8 (uint wheel_x)) h)\<rparr>\<rparr>, w)))"

fun control_run ::
  "'w usb_env \<Rightarrow> control_cmd list \<Rightarrow> 'w control_state \<Rightarrow> (control_reply list \<times> 'w control_state) option" where
  "control_run e [] st = Some ([], st)"
| "control_run e (c # cs) st =
     (case control_step e c st of
        None \<Rightarrow> None
      | Some (r, st') \<Rightarrow> map_option (\<lambda>(rs, st''). (r # rs, st'')) (control_run e cs st'))"

section \<open>Error classification\<close>

definition classify_runtime_error :: "string \<Rightarrow> int \<times> bool" where
  "classify_runtime_error err =
     (let lower = to_ascii_lowercase err in
      if str_contains lower ''busy'' \<or> str_contains lower ''timed out'' \<or> str_contains lower ''timeout''
         \<or> str_contains lower ''recover''
      then (1, True)
      else if str_contains lower ''invalid'' \<or> str_contains lower ''missing'' \<or> str_contains lower ''endpoint budget''
      then (2, False)
      else (3, False))"

section \<open>The service drives the manager\<close>

lemma reach_put_ums:
  assumes "mgr_reach e (m, w)" and "sv_ums (mg_services m) = Some h" and "um_enabled h' = um_enabled h"
  shows "mgr_reach e (put_ums h' m, w')"
proof -
  have "\<forall>r. service_enabled r ((mg_services m)\<lparr>sv_ums := Some h'\<rparr>) = service_enabled r (mg_services m)"
    unfolding all_refs using assms(2,3) by simp
  from mgr_reach.devices [OF assms(1) this] show ?thesis by (simp add: put_ums_def)
qed

lemma reach_put_ums1:
  assumes "mgr_reach e (m, w)" and "sv_ums1 (mg_services m) = Some h" and "um_enabled h' = um_enabled h"
  shows "mgr_reach e (put_ums1 h' m, w')"
proof -
  have "\<forall>r. service_enabled r ((mg_services m)\<lparr>sv_ums1 := Some h'\<rparr>) = service_enabled r (mg_services m)"
    unfolding all_refs using assms(2,3) by simp
  from mgr_reach.devices [OF assms(1) this] show ?thesis by (simp add: put_ums1_def)
qed

lemma reach_unmount: "mgr_reach e s \<Longrightarrow> mgr_reach e (snd (ums_vm_unmount e s))"
  by (cases s) (auto simp: ums_vm_unmount_def split_beta intro: reach_put_ums split: option.split)

lemma reach_ft_unmount: "mgr_reach e s \<Longrightarrow> mgr_reach e (snd (ums_ft_unmount e s))"
  by (cases s) (auto simp: ums_ft_unmount_def split_beta intro: reach_put_ums1 split: option.split)

lemma reach_ft_mount: "mgr_reach e s \<Longrightarrow> mgr_reach e (snd (ums_ft_mount e p s))"
  by (cases s) (auto simp: ums_ft_mount_def split_beta intro: reach_put_ums1 split: option.split)

lemma reach_mount_vm: "mgr_reach e s \<Longrightarrow> mgr_reach e (snd (mount_vm_image e p s))"
  by (cases s) (auto simp: mount_vm_image_def split_beta intro: reach_put_ums split: option.split)

lemma reach_vm_mount:
  assumes "mgr_reach e s"
  shows "mgr_reach e (snd (apply_vm_mount e sw info s))"
proof (cases "sv_ums (mg_services (fst s))")
  case None
  with assms reach_unmount [OF assms] show ?thesis by (simp add: apply_vm_mount_def split_beta)
next
  case (Some h)
  obtain m w where s: "s = (m, w)" by (rule prod.exhaust)
  obtain r h1 where sm: "switch_mode (proto_vm_type_to_mode (ui_ums_vm_type info)) h = (r, h1)" by fastforce
  with switch_mode_enabled [of "proto_vm_type_to_mode (ui_ums_vm_type info)" h] have "um_enabled h1 = um_enabled h" by simp
  then have i1: "mgr_reach e (put_ums h1 m, w)" using reach_put_ums [of e m w h h1 w] assms s Some by simp
  note i2 = mgr_reach.switches [OF i1, of None None]
  show ?thesis
    using assms reach_unmount [OF assms] Some i1 i2 reach_mount_vm [OF i1, of "ui_ums_vm_path info"]
      reach_mount_vm [OF i2, of "ui_ums_vm_path info"] s
    by (auto simp: apply_vm_mount_def sm split_beta split: sum.split)
qed

lemma reach_ums_mounts:
  assumes "mgr_reach e s"
  shows "mgr_reach e (snd (apply_ums_mounts e info li s))"
proof -
  have ft: "mgr_reach e (apply_ft_mount e sw info t)" if "mgr_reach e t" for sw t
    using that by (simp add: apply_ft_mount_def reach_ft_mount reach_ft_unmount)
  have "mgr_reach e (snd (case apply_vm_mount e sw info s of (Inl err, s1) \<Rightarrow> (Inl err, s1)
      | (Inr _, s1) \<Rightarrow> (Inr (), apply_ft_mount e sw info s1)))" for sw
  proof -
    obtain r s1 where v: "apply_vm_mount e sw info s = (r, s1)" by (rule prod.exhaust)
    with reach_vm_mount [OF assms, of sw info] ft [of s1 sw] show ?thesis by (cases r) simp_all
  qed
  with assms show ?thesis by (simp add: apply_ums_mounts_def split: sum.split option.split)
qed

lemma reach_full_config:
  assumes "mgr_reach e (snd st)"
  shows "mgr_reach e (snd (snd (apply_full_config e info base st)))"
proof -
  obtain li m w where st: "st = (li, m, w)" by (metis prod.exhaust)
  let ?m1 = "set_network_adapter_l3_config (ui_network_adapter_l3 info) m"
  have r1: "mgr_reach e (?m1, w)" using assms st by (auto intro: mgr_reach.l3_config)
  obtain rl s2 where l: "apply_network_adapter_l3_only e (?m1, w) = (rl, s2)" by (rule prod.exhaust)
  have r2: "mgr_reach e s2" using mgr_reach.l3_only [OF r1] l by simp
  have r3: "mgr_reach e (snd (snd (case apply_switches e (Some base) (Some sw) (?m1, w) of
        (Inl err, s2) \<Rightarrow> (Inl err, li, s2)
      | (Inr _, s2) \<Rightarrow> (case apply_ums_mounts e info li s2 of
           (Inl err, s3) \<Rightarrow> (Inl err, li, s3)
         | (Inr _, s3) \<Rightarrow> (Inr (mg_switches (fst s3)), Some info, s3)))))" for sw
  proof -
    obtain ra sa where a: "apply_switches e (Some base) (Some sw) (?m1, w) = (ra, sa)" by (rule prod.exhaust)
    have ra: "mgr_reach e sa" using mgr_reach.switches [OF r1, of "Some base" "Some sw"] a by simp
    obtain rb sb where b: "apply_ums_mounts e info li sa = (rb, sb)" by (rule prod.exhaust)
    with reach_ums_mounts [OF ra, of info li] a ra show ?thesis by (cases ra; cases rb) simp_all
  qed
  show ?thesis
    using assms r2 r3 by (cases rl) (simp_all add: st apply_full_config_def Let_def l split: option.split)
qed

lemma hid_submit_enabled [simp]: "hs_enabled (hid_submit c h) = hs_enabled h"
  by (simp add: hid_submit_def hid_send_def)

lemma control_step_reach:
  assumes "mgr_reach e (snd st)" and "control_step e cmd st = Some (r, st')"
  shows "mgr_reach e (snd st')"
proof -
  obtain li m w where st: "st = (li, m, w)" by (metis prod.exhaust)
  have r: "mgr_reach e (m, w)" using assms(1) st by simp
  have dev: "mgr_reach e (m\<lparr>mg_services := sv\<rparr>, w)"
    if "\<forall>r. service_enabled r sv = service_enabled r (mg_services m)" for sv
    using mgr_reach.devices [OF r that] .
  have dk: "mgr_reach e (m\<lparr>mg_services := (mg_services m)\<lparr>sv_kb := Some (hid_submit c h)\<rparr>\<rparr>, w)"
    if "sv_kb (mg_services m) = Some h" for c h
    by (rule dev) (use that in \<open>simp add: all_refs\<close>)
  have da: "mgr_reach e (m\<lparr>mg_services := (mg_services m)\<lparr>sv_abs := Some (hid_submit c h)\<rparr>\<rparr>, w)"
    if "sv_abs (mg_services m) = Some h" for c h
    by (rule dev) (use that in \<open>simp add: all_refs\<close>)
  have dr: "mgr_reach e (m\<lparr>mg_services := (mg_services m)\<lparr>sv_rel := Some (hid_submit c h)\<rparr>\<rparr>, w)"
    if "sv_rel (mg_services m) = Some h" for c h
    by (rule dev) (use that in \<open>simp add: all_refs\<close>)
  have d0: "mgr_reach e (m\<lparr>mg_services := (mg_services m)\<lparr>sv_abs := Some h\<rparr>\<rparr>, w)"
    if "sv_abs (mg_services m) = Some h" for h
    by (rule dev) (use that in \<open>simp add: all_refs\<close>)
  show ?thesis
  proof (cases cmd)
    case (Apply info)
    with assms(2) reach_full_config [OF assms(1), of info "mg_base_info m"] st show ?thesis
      by (auto simp: control_step_def split: prod.splits)
  next
    case (ApplyRuntime req)
    have m1: "mgr_reach e (set_mic_process_enabled (ar_mic_process_enabled req) m, w)" using r by (rule mgr_reach.mic_flag)
    have "mgr_reach e (snd (snd (apply_runtime_usb_info e req st)))"
      using m1 reach_full_config [of e "(li, set_mic_process_enabled (ar_mic_process_enabled req) m, w)"]
      by (auto simp: apply_runtime_usb_info_def st Let_def split: option.split sum.split prod.splits) (metis snd_conv)+
    with ApplyRuntime assms(2) st show ?thesis by (auto simp: control_step_def split: prod.splits)
  next
    case (SetUsbEmulationState b)
    with assms(2) st mgr_reach.emulation [OF r, of b] show ?thesis
      by (auto simp: control_step_def split: prod.splits sum.splits)
  next
    case (SetMicProcess b)
    with assms(2) st mgr_reach.mic [OF r, of b] show ?thesis by (auto simp: control_step_def split: prod.splits)
  next
    case (UmsControl req)
    with assms(2) st mgr_reach.ums [OF r, of req] show ?thesis by (auto simp: control_step_def split: prod.splits)
  next
    case (Putkeyboard md keys)
    with assms(2) st r show ?thesis
      by (auto simp: control_step_def keyboard_report_def intro!: dk split: option.splits)
  next
    case (Putabsmouse x y b)
    with assms(2) st r show ?thesis
      by (auto simp: control_step_def abs_mouse_report_def intro!: da split: option.splits)
  next
    case (Putrelmouse x y b)
    with assms(2) st r show ?thesis
      by (auto simp: control_step_def rel_mouse_report_def intro!: dr split: option.splits)
  next
    case (Putwheel y x)
    with assms(2) st r show ?thesis
      by (auto simp: control_step_def abs_mouse_wheel_def da d0 split: option.splits)
  qed (use assms st in \<open>auto simp: control_step_def\<close>)
qed

lemma control_run_reach: "mgr_reach e (snd st) \<Longrightarrow> control_run e cs st = Some (rs, st') \<Longrightarrow> mgr_reach e (snd st')"
  by (induction cs arbitrary: st rs) (auto split: option.splits dest: control_step_reach)

text \<open>
  Only one command can stop the service. The task that owns the manager panics on a command if and
  only if the command is a keyboard report with more than six keys and the keyboard service exists.
\<close>

theorem control_panics_iff:
  "control_step e cmd (last_info, m, w) = None \<longleftrightarrow>
     (\<exists>modifier keys. cmd = Putkeyboard modifier keys \<and> 6 < length keys \<and> sv_kb (mg_services m) \<noteq> None)"
  by (cases cmd)
    (auto simp: control_step_def keyboard_report_def keyboard_report_bytes_def Let_def min_def
      split: option.splits prod.splits sum.splits if_splits)

section \<open>Outcome of a configuration request\<close>

lemma is_switches_change_refl: "\<not> is_switches_change sw sw"
  by (auto simp: is_switches_change_def network_adapter_switch_changed_def split: option.splits)

lemma put_ums_config:
  "mg_switches (put_ums h m) = mg_switches m" "mg_base_info (put_ums h m) = mg_base_info m"
  "mg_switches (put_ums1 k m) = mg_switches m" "mg_base_info (put_ums1 k m) = mg_base_info m"
  by (simp_all add: put_ums_def put_ums1_def)

definition config_of :: "usb_manager \<times> 'w \<Rightarrow> usb_base_info \<times> device_switches" where
  "config_of s = (mg_base_info (fst s), mg_switches (fst s))"

lemma unmounts_config:
  "config_of (snd (ums_vm_unmount e s)) = config_of s" "config_of (snd (ums_ft_unmount e s)) = config_of s"
  "config_of (snd (ums_ft_mount e p s)) = config_of s" "config_of (snd (mount_vm_image e p s)) = config_of s"
  by (simp_all add: config_of_def ums_vm_unmount_def ums_ft_unmount_def ums_ft_mount_def mount_vm_image_def
      put_ums_config split_beta split: option.split)

lemma reapply_config:
  assumes "mgr_ok (fst s)"
  shows "config_of (snd (apply_switches e None None s)) = config_of s"
proof -
  obtain m w where s: "s = (m, w)" by (rule prod.exhaust)
  obtain r m' w' where a: "apply_switches e None None (m, w) = (r, m', w')" by (metis prod.exhaust)
  have ok: "mgr_ok m" using assms s by simp
  show ?thesis
  proof (cases "r = Inr ()")
    case True
    with a have "apply_switches e None None (m, w) = (Inr (), m', w')" by simp
    from apply_switches_ok(1,2) [OF ok this] a s show ?thesis by (simp add: config_of_def new_base_def new_switches_def)
  next
    case False
    from core_fields(1,2) [OF apply_switches_err(1) [OF ok a False]] a s show ?thesis by (simp add: config_of_def)
  qed
qed

lemma put_ums_ok: "mgr_ok m \<Longrightarrow> sv_ums (mg_services m) = Some h \<Longrightarrow> um_enabled h' = um_enabled h \<Longrightarrow> mgr_ok (put_ums h' m)"
proof -
  assume a: "mgr_ok m" "sv_ums (mg_services m) = Some h" "um_enabled h' = um_enabled h"
  then have "service_enabled r (mg_services (put_ums h' m)) = service_enabled r (mg_services m)" for r
    by (cases r) (simp_all add: put_ums_def)
  then show ?thesis using a(1) unfolding mgr_ok_def by (simp add: put_ums_def)
qed

lemma vm_mount_config:
  assumes "mgr_ok (fst s)"
  shows "config_of (snd (apply_vm_mount e sw info s)) = config_of s"
proof (cases "sv_ums (mg_services (fst s))")
  case None
  with unmounts_config(1) [of e s] show ?thesis by (simp add: apply_vm_mount_def split_beta)
next
  case (Some h)
  obtain r h1 where sm: "switch_mode (proto_vm_type_to_mode (ui_ums_vm_type info)) h = (r, h1)" by fastforce
  with switch_mode_enabled [of "proto_vm_type_to_mode (ui_ums_vm_type info)" h] have "um_enabled h1 = um_enabled h" by simp
  with put_ums_ok [OF assms Some] have ok: "mgr_ok (put_ums h1 (fst s))" by blast
  obtain ra sa where a: "apply_switches e None None (put_ums h1 (fst s), snd s) = (ra, sa)" by (rule prod.exhaust)
  with reapply_config [of "(put_ums h1 (fst s), snd s)" e] ok have "config_of sa = config_of s"
    by (simp add: config_of_def put_ums_config)
  moreover have "config_of (put_ums h1 (fst s), snd s) = config_of s" by (simp add: config_of_def put_ums_config)
  ultimately show ?thesis
    using Some unmounts_config(1) [of e s]
    by (cases ra) (auto simp: apply_vm_mount_def sm split_beta a unmounts_config)
qed

lemma ums_mounts_config:
  assumes "mgr_ok (fst s)"
  shows "config_of (snd (apply_ums_mounts e info li s)) = config_of s"
proof -
  have ft: "config_of (apply_ft_mount e sw info t) = config_of t" for sw t
    by (simp add: apply_ft_mount_def unmounts_config)
  have "config_of (snd (case apply_vm_mount e sw info s of (Inl err, s1) \<Rightarrow> (Inl err, s1)
      | (Inr _, s1) \<Rightarrow> (Inr (), apply_ft_mount e sw info s1))) = config_of s" for sw
  proof -
    obtain r s1 where v: "apply_vm_mount e sw info s = (r, s1)" by (rule prod.exhaust)
    with vm_mount_config [OF assms, of e sw info] ft [of sw s1] show ?thesis by (cases r) simp_all
  qed
  then show ?thesis by (simp add: apply_ums_mounts_def split: sum.split option.split)
qed

lemma l3_config_keeps: "mg_switches (set_network_adapter_l3_config l3 m) = mg_switches m"
  "mg_base_info (set_network_adapter_l3_config l3 m) = mg_base_info m"
  "mg_active_gadget (set_network_adapter_l3_config l3 m) = mg_active_gadget m"
  by (simp_all add: set_network_adapter_l3_config_def add_service_def add_change_handler_def Let_def split: option.split)

lemma l3_only_keeps: "apply_network_adapter_l3_only e (m, w) = (r, m', w') \<Longrightarrow>
    mg_switches m' = mg_switches m \<and> mg_base_info m' = mg_base_info m \<and> mg_active_gadget m' = mg_active_gadget m"
  by (auto simp: apply_network_adapter_l3_only_def split: option.splits prod.splits)

lemma mgr_ok_cong:
  assumes "mg_change_handlers m' = mg_change_handlers m"
    and "\<And>r. service_enabled r (mg_services m') = service_enabled r (mg_services m)"
  shows "mgr_ok m' = mgr_ok m"
  by (simp only: mgr_ok_def assms)

lemma l3_config_ok:
  assumes "mgr_ok m"
  shows "mgr_ok (set_network_adapter_l3_config l3 m)"
proof -
  let ?m1 = "case sv_net (mg_services m) of Some _ \<Rightarrow> m | None \<Rightarrow> add_service HNet
     (\<lambda>sv. sv\<lparr>sv_net := Some (net_new (network_adapter_enabled (mg_switches m)))\<rparr>) m"
  have ok1: "mgr_ok ?m1"
    using svc_net [OF assms] assms by (cases "sv_net (mg_services m)") (simp_all add: apply_net_service_def Let_def svc_step_def)
  have e: "na_enabled (set_l3_from_proto l3 h) = na_enabled h" for h
    by (simp add: set_l3_from_proto_def split: option.split)
  have "service_enabled r (mg_services (set_network_adapter_l3_config l3 m)) = service_enabled r (mg_services ?m1)" for r
    by (cases r) (simp_all add: set_network_adapter_l3_config_def Let_def option.map_comp o_def e)
  moreover have "mg_change_handlers (set_network_adapter_l3_config l3 m) = mg_change_handlers ?m1"
    by (simp add: set_network_adapter_l3_config_def Let_def)
  ultimately show ?thesis using ok1 mgr_ok_cong [of "set_network_adapter_l3_config l3 m" ?m1] by blast
qed

lemma full_config_result:
  assumes "mgr_ok m" and "apply_full_config e info base (last_info, m, w) = (res, last', m', w')"
  shows "(\<forall>sw'. res = Inr sw' \<longrightarrow> last' = Some info \<and> sw' = mg_switches m' \<and> mg_base_info m' = base
          \<and> (\<exists>sw. ui_switches info = Some sw \<and> \<not> is_switches_change sw' sw))
    \<and> (\<forall>err. res = Inl err \<longrightarrow> last' = last_info)"
proof (cases "ui_switches info")
  case None
  with assms(2) show ?thesis by (auto simp: apply_full_config_def)
next
  case (Some sw)
  let ?m1 = "set_network_adapter_l3_config (ui_network_adapter_l3 info) m"
  let ?l3 = "last_info \<noteq> None \<and> \<not> is_switches_change (mg_switches ?m1) sw
     \<and> \<not> (case last_info of Some prev \<Rightarrow> is_paths_change prev info | None \<Rightarrow> False) \<and> \<not> mg_base_info ?m1 \<noteq> base
     \<and> (case last_info of Some prev \<Rightarrow> is_network_adapter_l3_change prev info | None \<Rightarrow> ui_network_adapter_l3 info \<noteq> None)"
  note run = assms(2) [unfolded apply_full_config_def prod.case Some option.case Let_def]
  show ?thesis
  proof (cases ?l3)
    case True
    obtain rl ml wl where l: "apply_network_adapter_l3_only e (?m1, w) = (rl, ml, wl)" by (metis prod.exhaust)
    with run True have "(res, last', m', w') = (case rl of Inl err \<Rightarrow> (Inl err, last_info, ml, wl)
        | Inr _ \<Rightarrow> (Inr (mg_switches ml), Some info, ml, wl))" by (cases rl) auto
    with l3_only_keeps [OF l] True Some show ?thesis by (cases rl) auto
  next
    case False
    obtain ra ma wa where a: "apply_switches e (Some base) (Some sw) (?m1, w) = (ra, ma, wa)" by (metis prod.exhaust)
    obtain rb mb wb where b: "apply_ums_mounts e info last_info (ma, wa) = (rb, mb, wb)" by (metis prod.exhaust)
    from run False a b have r: "(res, last', m', w') = (case ra of Inl err \<Rightarrow> (Inl err, last_info, ma, wa)
        | Inr _ \<Rightarrow> (case rb of Inl err \<Rightarrow> (Inl err, last_info, mb, wb)
                   | Inr _ \<Rightarrow> (Inr (mg_switches mb), Some info, mb, wb)))"
      by (cases ra; cases rb) auto
    show ?thesis
    proof (cases ra)
      case (Inl err)
      with r show ?thesis by simp
    next
      case (Inr u)
      with a have a': "apply_switches e (Some base) (Some sw) (?m1, w) = (Inr (), ma, wa)" by simp
      have ok1: "mgr_ok ?m1" using assms(1) by (rule l3_config_ok)
      note k = apply_switches_ok(1,2,4) [OF ok1 a']
      have "config_of (mb, wb) = config_of (ma, wa)" using ums_mounts_config [of "(ma, wa)" e info last_info] k(3) b by simp
      with k have "mg_switches mb = sw" "mg_base_info mb = base" by (simp_all add: config_of_def new_base_def new_switches_def)
      with r Inr Some show ?thesis by (cases rb) (simp_all add: is_switches_change_refl)
    qed
  qed
qed

text \<open>
  C4: A configuration request takes effect or is not recorded. After any sequence of commands, if the
  service answers a configuration request with switches, they are the manager's, they agree with the
  requested ones (an adapter that is absent and one that is off are the same), the requested
  descriptors are in force, the request is remembered as the last one, and a gadget that is bound is
  the one built from these descriptors and switches. If it answers with an error, the last request
  remembered is the one before.
\<close>

theorem full_config_outcome:
  assumes "control_run e cs (None, manager_new b, w0) = Some (rs, last_info, m, w)"
    and "apply_full_config e info base (last_info, m, w) = (res, last', m', w')"
  shows "(\<forall>sw'. res = Inr sw' \<longrightarrow> last' = Some info \<and> sw' = mg_switches m' \<and> mg_base_info m' = base
          \<and> (\<exists>sw. ui_switches info = Some sw \<and> \<not> is_switches_change sw' sw)
          \<and> (\<forall>g. mg_active_gadget m' = Some g \<longrightarrow> (\<exists>mode net. build_gadget base sw' mode = Inr (g, net))))
    \<and> (\<forall>err. res = Inl err \<longrightarrow> last' = last_info)"
proof -
  have r: "mgr_reach e (m, w)"
    using control_run_reach [of e "(None, manager_new b, w0)" cs rs "(last_info, m, w)"] assms(1) by (simp add: mgr_reach.start)
  then have ok: "mgr_ok m" using mgr_reach_inv by (fastforce simp: mgr_inv_def)
  have "mgr_reach e (m', w')" using reach_full_config [of e "(last_info, m, w)" info base] r assms(2) by simp
  then have "mg_active_gadget m' = Some g \<Longrightarrow> \<exists>mode net. build_gadget (mg_base_info m') (mg_switches m') mode = Inr (g, net)" for g
    using mgr_reach_inv by (fastforce simp: mgr_inv_def gadget_ok_iff describes_def)
  with full_config_result [OF ok assms(2)] show ?thesis by blast
qed

definition config_demo :: usb_device_info where
  "config_demo = \<lparr>ui_switches = Some switches_demo, ui_ums_vm_type = 1, ui_ums_vm_path = [], ui_ums_ft_path = [], ui_network_adapter_l3 = None\<rparr>"

theorem full_config_outcome_witness:
  "\<exists>li m. apply_full_config usb_demo_env config_demo base_demo (None, manager_new base_demo, ()) = (Inr (mg_switches m), li, m, ()) \<and>
     li = Some config_demo \<and> mg_base_info m = base_demo"
proof -
  obtain res li m where r: "apply_full_config usb_demo_env config_demo base_demo (None, manager_new base_demo, ()) = (res, li, m, ())"
    by (metis prod.exhaust old.unit.exhaust)
  have "is_ok (fst (apply_full_config usb_demo_env config_demo base_demo (None, manager_new base_demo, ())))" by code_simp
  then obtain sw where "res = Inr sw" using r by (cases res) auto
  then show ?thesis
    using full_config_outcome [of usb_demo_env "[]" base_demo "()" "[]" None "manager_new base_demo" "()" config_demo base_demo res li m "()"] r
    by auto
qed

text \<open>
  New addresses for the network adapter do not unplug anything. If only the adapter's address
  settings differ from the last request, no service is asked for a change, the gadget stays bound as
  it is, and switches, descriptors and the images in the drives are untouched.
\<close>

theorem l3_update_keeps_gadget:
  assumes "ui_switches info = Some sw" and "\<not> is_switches_change (mg_switches m) sw" and "\<not> is_paths_change prev info"
    and "is_network_adapter_l3_change prev info"
    and "apply_full_config e info (mg_base_info m) (Some prev, m, w) = (res, last', m', w')"
  shows "mg_active_gadget m' = mg_active_gadget m \<and> mg_switches m' = mg_switches m \<and> mg_base_info m' = mg_base_info m
    \<and> sv_ums (mg_services m') = sv_ums (mg_services m) \<and> sv_ums1 (mg_services m') = sv_ums1 (mg_services m)"
proof -
  let ?m1 = "set_network_adapter_l3_config (ui_network_adapter_l3 info) m"
  obtain rl ml wl where l: "apply_network_adapter_l3_only e (?m1, w) = (rl, ml, wl)" by (metis prod.exhaust)
  have "m' = ml"
    using assms(5) l assms(1-4) by (cases rl) (simp_all add: apply_full_config_def Let_def l3_config_keeps)
  moreover have "sv_ums (mg_services ml) = sv_ums (mg_services m)" "sv_ums1 (mg_services ml) = sv_ums1 (mg_services m)"
    using l by (auto simp: apply_network_adapter_l3_only_def set_network_adapter_l3_config_def add_service_def
        add_change_handler_def Let_def split: option.splits prod.splits)
  ultimately show ?thesis using l3_only_keeps [OF l] by (simp add: l3_config_keeps)
qed

definition l3_demo :: "string \<Rightarrow> usb_device_info" where
  "l3_demo ip = \<lparr>ui_switches = Some switches_default, ui_ums_vm_type = 1, ui_ums_vm_path = [], ui_ums_ft_path = [],
     ui_network_adapter_l3 = Some \<lparr>l3_ip_address = ip, l3_subnet_mask = ''255.255.255.0'', l3_gateway = None,
       l3_dns_servers = []\<rparr>\<rparr>"

theorem l3_update_keeps_gadget_witness:
  "\<exists>r li m'. apply_full_config usb_demo_env (l3_demo ''10.0.0.1'') base_demo
       (Some (l3_demo ''10.0.0.2''), manager_new base_demo, ()) = (r, li, m', ()) \<and> mg_active_gadget m' = None"
proof -
  let ?r = "apply_full_config usb_demo_env (l3_demo ''10.0.0.1'') base_demo
       (Some (l3_demo ''10.0.0.2''), manager_new base_demo, ())"
  obtain r li m' where e: "?r = (r, li, m', ())" by (cases ?r) auto
  have b: "mg_base_info (manager_new base_demo) = base_demo" "mg_active_gadget (manager_new base_demo) = None"
    "mg_switches (manager_new base_demo) = switches_default" by (simp_all add: manager_new_def)
  have "mg_active_gadget m' = mg_active_gadget (manager_new base_demo)"
    using l3_update_keeps_gadget [of "l3_demo ''10.0.0.1''" switches_default "manager_new base_demo" "l3_demo ''10.0.0.2''"
        usb_demo_env "()" r li m' "()"] e
    by (simp add: b l3_demo_def is_switches_change_refl is_paths_change_def is_network_adapter_l3_change_def)
  with e b show ?thesis by auto
qed

section \<open>Descriptor numbers and error classes\<close>

fun nat_to_hex :: "nat \<Rightarrow> string" where
  "nat_to_hex n = (if n < 16 then [hex_char n] else nat_to_hex (n div 16) @ [hex_char (n mod 16)])"

declare nat_to_hex.simps [simp del]

lemma hex_char_digit: "n < 16 \<Longrightarrow> radix_digit 16 (hex_char n) = Some n"
  by (auto simp: radix_digit_def hex_digit_def hex_char_def Let_def)

lemma radix_value_append:
  "radix_value b a (s @ t) = (case radix_value b a s of None \<Rightarrow> None | Some v \<Rightarrow> radix_value b v t)"
  by (induction s arbitrary: a) (auto split: option.split)

lemma radix_value_hex: "radix_value 16 0 (nat_to_hex n) = Some n"
proof (induction n rule: nat_to_hex.induct)
  case (1 n)
  then show ?case by (subst nat_to_hex.simps) (simp add: hex_char_digit radix_value_append)
qed

lemma hex_char_plain: "n < 16 \<Longrightarrow> hex_char n \<noteq> CHR ''+'' \<and> hex_char n \<noteq> CHR ''x'' \<and> hex_char n \<noteq> CHR ''X''
    \<and> \<not> is_ascii_space (hex_char n)"
proof -
  assume n: "n < 16"
  have c: "of_char (hex_char n) = (if n < 10 then 48 + n else 87 + n)" using n by (simp add: hex_char_def)
  have "(of_char CHR ''+'' :: nat) = 43" "(of_char CHR ''x'' :: nat) = 120" "(of_char CHR ''X'' :: nat) = 88" by simp_all
  then show ?thesis using n c by (auto simp: is_ascii_space_def Let_def split: if_splits)
qed

lemma nat_to_hex_chars: "c \<in> set (nat_to_hex n) \<Longrightarrow> \<exists>k < 16. c = hex_char k"
proof (induction n rule: nat_to_hex.induct)
  case (1 n)
  show ?case
  proof (cases "n < 16")
    case True
    with 1 show ?thesis by (auto simp: nat_to_hex.simps [of n])
  next
    case False
    with 1 have "c \<in> set (nat_to_hex (n div 16)) \<or> c = hex_char (n mod 16)" by (auto simp: nat_to_hex.simps [of n])
    with 1 False show ?thesis by (metis mod_less_divisor zero_less_numeral)
  qed
qed

lemma nat_to_hex_nonempty [simp]: "nat_to_hex n \<noteq> []"
  by (subst nat_to_hex.simps) simp

text \<open>
  Vendor and product numbers are read as they are written. Every 16-bit number in hexadecimal,
  plain or with the prefix \<open>0x\<close> or \<open>0X\<close>, is parsed to itself.
\<close>

theorem parse_hex_u16_roundtrip:
  assumes "n < 65536" and "p = '''' \<or> p = ''0x'' \<or> p = ''0X''"
  shows "parse_hex_u16 name (p @ nat_to_hex n) = Inr (word_of_nat n)"
proof -
  have pl: "c \<noteq> CHR ''+'' \<and> c \<noteq> CHR ''x'' \<and> c \<noteq> CHR ''X'' \<and> \<not> is_ascii_space c" if "c \<in> set (nat_to_hex n)" for c
    using nat_to_hex_chars [OF that] hex_char_plain by auto
  have "\<forall>c \<in> set (p @ nat_to_hex n). \<not> is_ascii_space c"
    using assms(2) pl by (auto simp: is_ascii_space_def [of "CHR ''0''"] is_ascii_space_def [of "CHR ''x''"]
        is_ascii_space_def [of "CHR ''X''"])
  then have t: "trim (p @ nat_to_hex n) = p @ nat_to_hex n" by (rule trim_id)
  obtain c r where cr: "nat_to_hex n = c # r" by (cases "nat_to_hex n") auto
  have "\<not> starts_with (nat_to_hex n) [a, b]" if "b = CHR ''x'' \<or> b = CHR ''X''" for a b
  proof
    assume "starts_with (nat_to_hex n) [a, b]"
    then have "b \<in> set (nat_to_hex n)" by (auto simp: starts_with_def prefix_def)
    with pl that show False by blast
  qed
  then have np: "\<not> starts_with (nat_to_hex n) ''0x''" "\<not> starts_with (nat_to_hex n) ''0X''" by simp_all
  have "strip_hex_prefix (p @ nat_to_hex n) = nat_to_hex n"
    using assms(2)
  proof (elim disjE)
    assume "p = ''''"
    with np show ?thesis by (simp add: strip_hex_prefix_def)
  next
    assume "p = ''0x''"
    then show ?thesis by (simp add: strip_hex_prefix_def starts_with_def)
  next
    assume "p = ''0X''"
    then show ?thesis by (simp add: strip_hex_prefix_def starts_with_def)
  qed
  moreover have "parse_radix 16 65536 (nat_to_hex n) = Some n"
    using pl cr radix_value_hex [of n] assms(1) by (simp add: parse_radix_def Let_def)
  ultimately show ?thesis by (simp add: parse_hex_u16_def t)
qed

theorem parse_hex_u16_roundtrip_witness: "parse_hex_u16 ''vendor_id'' ''0x1d6b'' = Inr 7531"
proof -
  have "hex_char 1 = CHR ''1''" "hex_char 13 = CHR ''d''" "hex_char 6 = CHR ''6''" "hex_char 11 = CHR ''b''" by code_simp+
  then have "nat_to_hex 7531 = ''1d6b''" by (simp add: nat_to_hex.simps)
  with parse_hex_u16_roundtrip [of 7531 "''0x''" "''vendor_id''"] show ?thesis by simp
qed

text \<open>
  What the caller is told about an error. A controller that does not recover in time is reported
  as busy and worth a retry, whatever its last state was. An operation that meets another one in
  progress is reported as an internal error not worth a retry, although waiting would help.
\<close>

theorem runtime_error_classes:
  "classify_runtime_error (usb_error_to_string (udc_timeout_error m)) = (1, True)
   \<and> classify_runtime_error (usb_error_to_string OP_BUSY) = (3, False)
   \<and> classify_runtime_error (usb_error_to_string (InvalidArgument ''missing switches in usb_info'')) = (2, False)"
proof (intro conjI)
  have "str_contains (to_ascii_lowercase (''UDC operation failed: USB gadget busy'' @ x)) ''busy''" for x
    by (simp add: to_ascii_lowercase_def ascii_lower_def char_of_def)
  from this [of "'': timed out waiting UDC recover (last state: '' @ s @ '')''" for s]
  show "classify_runtime_error (usb_error_to_string (udc_timeout_error m)) = (1, True)"
    by (simp add: classify_runtime_error_def udc_timeout_error_def)
  show "classify_runtime_error (usb_error_to_string OP_BUSY) = (3, False)" by code_simp
  show "classify_runtime_error (usb_error_to_string (InvalidArgument ''missing switches in usb_info'')) = (2, False)" by code_simp
qed

end
