(* ===== verification/Usb_Bridge.thy ===== *)
theory Usb_Bridge
  imports Json_Rpc Config_Store Usb_Control
begin

text \<open>
  The seam between the application and the USB sidecar: \<^verbatim>\<open>arkkvm/src/services/usb.rs\<close> (the message
  that is built from the stored preferences, and the client's retry loops) and the reply of the
  sidecar's lease query in \<^verbatim>\<open>control/zenoh.rs\<close>. The message bus is not part of the sources: what
  an attempt returns is an argument.
\<close>

section \<open>The message built from the preferences\<close>

fun adapter_kind_to_proto :: "network_adapter_kind \<Rightarrow> int" where
  "adapter_kind_to_proto Rndis = 1"
| "adapter_kind_to_proto Ncm = 0"

definition switches_from_devices :: "usb_devices_pref \<Rightarrow> device_switches" where
  "switches_from_devices d =
     \<lparr>hid_kb_enabled = ud_keyboard d, hid_abs_enabled = ud_absolute_mouse d, hid_rel_enabled = ud_relative_mouse d,
      ums_vm_enabled = ud_mass_storage_vm d, ums_ft_enabled = ud_mass_storage_ft d, uac1_enabled = ud_microphone d,
      uvc_enabled = ud_camera d,
      network_adapter = Some \<lparr>nas_enable = na_enable (ud_network_adapter d),
        nas_adapter_type = adapter_kind_to_proto (na_adapter_type (ud_network_adapter d))\<rparr>\<rparr>"

definition l3_to_proto :: "network_adapter_l3 \<Rightarrow> adapter_l3_settings" where
  "l3_to_proto c = adapter_l3_settings.make (network_adapter_l3.l3_ip_address c) (network_adapter_l3.l3_subnet_mask c)
     (network_adapter_l3.l3_gateway c)
     (case network_adapter_l3.l3_dns_servers c of None \<Rightarrow> [] | Some ds \<Rightarrow> ds)"

definition usb_info_from_devices_with_paths ::
  "usb_devices_pref \<Rightarrow> string \<Rightarrow> string \<Rightarrow> int \<Rightarrow> usb_device_info" where
  "usb_info_from_devices_with_paths d vm_path ft_path vm_type =
     \<lparr>ui_switches = Some (switches_from_devices d), ui_ums_vm_type = vm_type, ui_ums_vm_path = vm_path,
      ui_ums_ft_path = ft_path, ui_network_adapter_l3 = Some (l3_to_proto (na_l3_config (ud_network_adapter d)))\<rparr>"

definition runtime_usb_config_from_config :: "usb_config \<Rightarrow> runtime_usb_config" where
  "runtime_usb_config_from_config c =
     \<lparr>rc_vendor_id = uc_vendor_id c, rc_product_id = uc_product_id c, rc_serial_number = uc_serial_number c,
      rc_manufacturer = uc_manufacturer c, rc_product = uc_product c, rc_force_full_speed = uc_force_full_speed c\<rparr>"

section \<open>Client retries\<close>

text \<open>
  One loop for both requests: up to \<open>n\<close> attempts, numbered from \<open>i\<close>; \<open>send\<close> is what happens on an
  attempt, to the other side's state \<open>'s\<close> and to the caller. Only a transport error is retried.
\<close>

fun client_attempts ::
  "nat \<Rightarrow> nat \<Rightarrow> (nat \<Rightarrow> 's \<Rightarrow> (string, 'r) result \<times> 's) \<Rightarrow> ('r \<Rightarrow> bool) \<Rightarrow> string \<Rightarrow> usb_device_info
   \<Rightarrow> usb_device_info \<times> 's \<Rightarrow> (string, 'r) result \<times> usb_device_info \<times> 's" where
  "client_attempts 0 i send ok last_err info (cached, s) = (Inl last_err, cached, s)"
| "client_attempts (Suc n) i send ok last_err info (cached, s) =
     (case send i s of
        (Inr resp, s') \<Rightarrow> (Inr resp, if ok resp then info else cached, s')
      | (Inl err, s') \<Rightarrow> client_attempts n (i + 1) send ok err info (cached, s'))"

record apply_switches_response =
  as_ok :: bool
  as_applied :: "device_switches option"
  as_error :: "string option"

definition apply_usb_devices ::
  "(nat \<Rightarrow> 's \<Rightarrow> (string, apply_switches_response) result \<times> 's) \<Rightarrow> usb_device_info \<Rightarrow> usb_device_info \<times> 's
   \<Rightarrow> (string, apply_switches_response) result \<times> usb_device_info \<times> 's" where
  "apply_usb_devices send info c = client_attempts 8 1 send as_ok ''apply_usb_devices failed'' info c"

definition client_apply_runtime_config ::
  "(nat \<Rightarrow> 's \<Rightarrow> (string, apply_runtime_response) result \<times> 's) \<Rightarrow> usb_device_info \<Rightarrow> usb_device_info \<times> 's
   \<Rightarrow> (string, apply_runtime_response) result \<times> usb_device_info \<times> 's" where
  "client_apply_runtime_config send info c =
     client_attempts 5 1 send ap_ok ''apply_runtime_config failed'' info c"

section \<open>The lease query\<close>

definition lease_to_proto :: "dhcp_lease_entry \<Rightarrow> usb_lease" where
  "lease_to_proto l = \<lparr>ul_ip = ipv4_to_string (dl_ip l), ul_mac = mac_string l, ul_hostname = dl_hostname l,
     ul_expires_in_secs = dl_expires_in_secs l\<rparr>"

record leases_response =
  lr_ok :: bool
  lr_leases :: "usb_lease list"
  lr_error :: "string option"

definition get_network_adapter_leases :: "(string, u8 list) result option \<Rightarrow> leases_response" where
  "get_network_adapter_leases file =
     (case read_active_leases file of
        Inr ls \<Rightarrow> \<lparr>lr_ok = True, lr_leases = map lease_to_proto ls, lr_error = None\<rparr>
      | Inl err \<Rightarrow> \<lparr>lr_ok = False, lr_leases = [], lr_error = Some err\<rparr>)"

section \<open>Properties\<close>

text \<open>The other side's state before the attempt with index \<open>k\<close>, counted from zero.\<close>

primrec before_attempt :: "(nat \<Rightarrow> 's \<Rightarrow> (string, 'r) result \<times> 's) \<Rightarrow> nat \<Rightarrow> 's \<Rightarrow> nat \<Rightarrow> 's" where
  "before_attempt send i s 0 = s"
| "before_attempt send i s (Suc k) = snd (send (i + k) (before_attempt send i s k))"

lemma before_attempt_shift:
  "before_attempt send i s (Suc k) = before_attempt send (Suc i) (snd (send i s)) k"
  by (induction k) simp_all

lemma client_attempts_cases:
  assumes "client_attempts n i send ok le info (cached, s) = (res, cached', s')"
  obtains (answered) k r where "k < n" "\<forall>j < k. \<not> is_ok (fst (send (i + j) (before_attempt send i s j)))"
      "send (i + k) (before_attempt send i s k) = (Inr r, s')" "res = Inr r" "cached' = (if ok r then info else cached)"
  | (exhausted) e where "\<forall>j < n. \<not> is_ok (fst (send (i + j) (before_attempt send i s j)))"
      "s' = before_attempt send i s n" "res = Inl e" "cached' = cached"
      "n = 0 \<Longrightarrow> e = le" "0 < n \<Longrightarrow> fst (send (i + (n - 1)) (before_attempt send i s (n - 1))) = Inl e"
  using assms
proof (induction n arbitrary: i s le thesis)
  case 0
  from 0(2) [of le] 0(3) show ?case by simp
next
  case (Suc n)
  obtain q s1 where q: "send i s = (q, s1)" by (rule prod.exhaust)
  show ?case
  proof (cases q)
    case (Inr r)
    with Suc.prems(1) [of 0 r] Suc.prems(3) q show ?thesis by simp
  next
    case (Inl e)
    with Suc.prems(3) q have rest: "client_attempts n (Suc i) send ok e info (cached, s1) = (res, cached', s')" by simp
    have b: "before_attempt send i s (Suc k) = before_attempt send (Suc i) s1 k" for k
      using before_attempt_shift [of send i s k] q by simp
    have all: "\<forall>j < Suc k. \<not> is_ok (fst (send (i + j) (before_attempt send i s j)))"
      if "\<forall>j < k. \<not> is_ok (fst (send (Suc i + j) (before_attempt send (Suc i) s1 j)))" for k
      using that q Inl b by (auto simp: less_Suc_eq_0_disj simp del: before_attempt.simps(2))
    show ?thesis
    proof (rule Suc.IH [OF _ _ rest], goal_cases)
      case (1 k r)
      show ?case
        by (rule Suc.prems(1) [of "Suc k" r]) (use 1 all b in \<open>simp_all del: before_attempt.simps(2)\<close>)
    next
      case (2 e')
      have "fst (send (i + n) (before_attempt send i s n)) = Inl e'"
        using 2(5,6) q Inl b by (cases n) (simp_all del: before_attempt.simps(2))
      then show ?case
        by (intro Suc.prems(2) [of e']) (use 2 all b in \<open>simp_all del: before_attempt.simps(2)\<close>)
    qed
  qed
qed

text \<open>
  The client repeats only what was not answered. The result of an apply request is the first
  answer among at most eight attempts, whatever it says, and the last transport error if there was
  none; what the client remembers as applied changes exactly if that answer reports success.
\<close>

theorem apply_usb_devices_result:
  "case apply_usb_devices send info (cached, s) of (res, cached', s') \<Rightarrow>
     (\<exists>k < 8. (\<forall>j < k. \<not> is_ok (fst (send (1 + j) (before_attempt send 1 s j))))
        \<and> (\<exists>r. send (1 + k) (before_attempt send 1 s k) = (Inr r, s') \<and> res = Inr r
             \<and> cached' = (if as_ok r then info else cached)))
   \<or> ((\<forall>j < 8. \<not> is_ok (fst (send (1 + j) (before_attempt send 1 s j))))
        \<and> res = fst (send 8 (before_attempt send 1 s 7)) \<and> cached' = cached)"
proof -
  obtain res cached' s' where r: "client_attempts 8 1 send as_ok ''apply_usb_devices failed'' info (cached, s) = (res, cached', s')"
    by (metis prod.exhaust)
  show ?thesis
  proof (rule client_attempts_cases [OF r], goal_cases)
    case (1 k r')
    then have "\<exists>k < 8. (\<forall>j < k. \<not> is_ok (fst (send (1 + j) (before_attempt send 1 s j))))
        \<and> (\<exists>r. send (1 + k) (before_attempt send 1 s k) = (Inr r, s') \<and> res = Inr r
             \<and> cached' = (if as_ok r then info else cached))" by blast
    then show ?case by (simp only: apply_usb_devices_def r prod.case simp_thms)
  next
    case (2 e)
    have "fst (send 8 (before_attempt send 1 s 7)) = Inl e" using 2(6) by simp
    with 2 have "(\<forall>j < 8. \<not> is_ok (fst (send (1 + j) (before_attempt send 1 s j))))
        \<and> res = fst (send 8 (before_attempt send 1 s 7)) \<and> cached' = cached" by simp
    then show ?case unfolding apply_usb_devices_def r prod.case by (rule disjI2)
  qed
qed

end
