(* ===== verification/Usb_Facade.thy ===== *)
theory Usb_Facade
  imports Usb_Bridge
begin

text \<open>
  The USB facade of the application and the queries of the sidecar it talks to: the query handlers of
  \<^verbatim>\<open>usb_devices/src/control/zenoh.rs\<close> over the control task, \<^verbatim>\<open>usb_info_for_reconcile\<close> of
  \<^verbatim>\<open>services/usb.rs\<close>, and \<^verbatim>\<open>hardware/usb/mod.rs\<close> with \<^verbatim>\<open>hardware/usb/network_adapter.rs\<close>: comparing the
  requested devices with the stored ones, reconciling with retries, and storing on success. The
  message bus between the two processes is not part of the sources: what becomes of a query is the
  argument \<open>delivery\<close>.
\<close>

section \<open>The queries of the sidecar\<close>

text \<open>The control task of the sidecar; \<open>None\<close> after it panicked, when its queue is closed.\<close>

type_synonym 'w sidecar = "'w control_state option"

definition control_apply_runtime ::
  "'w usb_env \<Rightarrow> apply_runtime_request \<Rightarrow> 'w sidecar \<Rightarrow> (usb_error, apply_runtime_response) result \<times> 'w sidecar" where
  "control_apply_runtime e req sc =
     (case sc of
        None \<Rightarrow> (Inl (InvalidArgument ''control service stopped''), None)
      | Some st \<Rightarrow>
          (case control_step e (ApplyRuntime req) st of
             Some (RRuntime r, st') \<Rightarrow> (r, Some st')
           | _ \<Rightarrow> (Inl (InvalidArgument ''control reply dropped''), None)))"

definition control_apply ::
  "'w usb_env \<Rightarrow> usb_device_info \<Rightarrow> 'w sidecar \<Rightarrow> (usb_error, device_switches) result \<times> 'w sidecar" where
  "control_apply e info sc =
     (case sc of
        None \<Rightarrow> (Inl (InvalidArgument ''control service stopped''), None)
      | Some st \<Rightarrow>
          (case control_step e (Apply info) st of
             Some (RSwitches r, st') \<Rightarrow> (r, Some st')
           | _ \<Rightarrow> (Inl (InvalidArgument ''control reply dropped''), None)))"

definition control_get :: "'w usb_env \<Rightarrow> 'w sidecar \<Rightarrow> (usb_error, device_switches) result" where
  "control_get e sc =
     (case sc of
        None \<Rightarrow> Inl (InvalidArgument ''control service stopped'')
      | Some st \<Rightarrow>
          (case control_step e GetSwitches st of
             Some (RCurrent sw, _) \<Rightarrow> Inr sw
           | _ \<Rightarrow> Inl (InvalidArgument ''control reply dropped'')))"

definition switches_or_default :: "(usb_error, device_switches) result \<Rightarrow> device_switches" where
  "switches_or_default r = (case r of Inr sw \<Rightarrow> sw | Inl _ \<Rightarrow> switches_default)"

definition apply_response_ok :: "device_switches \<Rightarrow> apply_switches_response" where
  "apply_response_ok sw = \<lparr>as_ok = True, as_applied = Some sw, as_error = None\<rparr>"

definition apply_response_err :: "device_switches \<Rightarrow> string \<Rightarrow> apply_switches_response" where
  "apply_response_err sw err = \<lparr>as_ok = False, as_applied = Some sw, as_error = Some err\<rparr>"

text \<open>
  The payload of a query: absent, not decodable, or a message. A message without device information
  is not answered at all.
\<close>

definition handle_apply_query ::
  "'w usb_env \<Rightarrow> (string, usb_device_info option) result option \<Rightarrow> 'w sidecar
     \<Rightarrow> apply_switches_response option \<times> 'w sidecar" where
  "handle_apply_query e payload sc =
     (case payload of
        None \<Rightarrow> (Some \<lparr>as_ok = False, as_applied = None, as_error = Some ''empty query payload''\<rparr>, sc)
      | Some (Inl err) \<Rightarrow>
          (Some (apply_response_err switches_default (''invalid ApplySwitchesRequest protobuf: '' @ err)), sc)
      | Some (Inr None) \<Rightarrow> (None, sc)
      | Some (Inr (Some info)) \<Rightarrow>
          (case control_apply e info sc of
             (Inr applied, sc') \<Rightarrow> (Some (apply_response_ok applied), sc')
           | (Inl err, sc') \<Rightarrow>
               (Some (apply_response_err (switches_or_default (control_get e sc')) (usb_error_to_string err)), sc')))"

definition handle_apply_runtime_query ::
  "'w usb_env \<Rightarrow> (string, apply_runtime_request) result option \<Rightarrow> 'w sidecar \<Rightarrow> apply_runtime_response \<times> 'w sidecar" where
  "handle_apply_runtime_query e payload sc =
     (case payload of
        None \<Rightarrow>
          (\<lparr>ap_ok = False, ap_applied = None, ap_error = Some ''empty query payload'', ap_error_code = 2,
            ap_retryable = False, ap_applied_usb_info = None\<rparr>, sc)
      | Some (Inl err) \<Rightarrow>
          (\<lparr>ap_ok = False, ap_applied = None, ap_error = Some (''invalid ApplyRuntimeConfigRequest protobuf: '' @ err),
            ap_error_code = 2, ap_retryable = False, ap_applied_usb_info = None\<rparr>, sc)
      | Some (Inr req) \<Rightarrow>
          (case control_apply_runtime e req sc of
             (Inr resp, sc') \<Rightarrow> (resp, sc')
           | (Inl err, sc') \<Rightarrow>
               (case classify_runtime_error (usb_error_to_string err) of
                  (code, retryable) \<Rightarrow>
                    (\<lparr>ap_ok = False, ap_applied = Some (switches_or_default (control_get e sc')),
                      ap_error = Some (usb_error_to_string err), ap_error_code = code, ap_retryable = retryable,
                      ap_applied_usb_info = None\<rparr>, sc'))))"

text \<open>
  What the bus does with a query: it is lost, or the sidecar works on it and the answer is lost (a
  time-out of the client included), or the answer arrives.
\<close>

datatype delivery = QueryLost string | ReplyLost string | Answered

definition send_runtime_with_reply ::
  "'w usb_env \<Rightarrow> delivery \<Rightarrow> apply_runtime_request \<Rightarrow> 'w sidecar \<Rightarrow> (string, apply_runtime_response) result \<times> 'w sidecar" where
  "send_runtime_with_reply e dv req sc =
     (case dv of
        QueryLost err \<Rightarrow> (Inl err, sc)
      | ReplyLost err \<Rightarrow> (Inl err, snd (handle_apply_runtime_query e (Some (Inr req)) sc))
      | Answered \<Rightarrow> (case handle_apply_runtime_query e (Some (Inr req)) sc of (resp, sc') \<Rightarrow> (Inr resp, sc')))"

section \<open>Reconciling\<close>

definition ums_vm_type_or_cdrom :: "int \<Rightarrow> int" where
  "ums_vm_type_or_cdrom n = (if n = 0 \<or> n = 1 \<or> n = 2 then n else 1)"

text \<open>
  The paths come from the cache of the client if there is one, and from the storage component
  otherwise (\<open>resolved\<close>, an error giving empty paths).
\<close>

definition usb_info_for_reconcile ::
  "usb_device_info option \<Rightarrow> (string, string \<times> string \<times> int) result \<Rightarrow> usb_devices_pref \<Rightarrow> usb_device_info" where
  "usb_info_for_reconcile client resolved devices =
     (case client of
        Some cached \<Rightarrow>
          usb_info_from_devices_with_paths devices (ui_ums_vm_path cached) (ui_ums_ft_path cached)
            (ums_vm_type_or_cdrom (ui_ums_vm_type cached))
      | None \<Rightarrow>
          (case resolved of
             Inr (vm_path, ft_path, vm_type) \<Rightarrow> usb_info_from_devices_with_paths devices vm_path ft_path vm_type
           | Inl _ \<Rightarrow> usb_info_from_devices_with_paths devices [] [] 1))"

text \<open>
  Up to five rounds; each round is a call of the client, which itself repeats a query that was not
  answered up to five times. \<open>send i\<close> is the sender of round \<open>i\<close>.
\<close>

fun reconcile_attempts ::
  "nat \<Rightarrow> nat \<Rightarrow> (nat \<Rightarrow> nat \<Rightarrow> 's \<Rightarrow> (string, apply_runtime_response) result \<times> 's) \<Rightarrow> usb_device_info
   \<Rightarrow> usb_device_info \<times> 's \<Rightarrow> (string, unit) result \<times> usb_device_info \<times> 's" where
  "reconcile_attempts 0 attempt send info c = (Inl ''usb_devices runtime apply exhausted retries'', c)"
| "reconcile_attempts (Suc n) attempt send info c =
     (case client_apply_runtime_config (send attempt) info c of
        (Inl err, c') \<Rightarrow> (Inl (''usb_devices runtime apply failed: '' @ err), c')
      | (Inr resp, c') \<Rightarrow>
          if ap_ok resp then (Inr (), c')
          else let err = (case ap_error resp of Some x \<Rightarrow> x | None \<Rightarrow> ''unknown runtime apply error'')
               in if \<not> ap_retryable resp \<or> attempt = 5
                  then (Inl (''usb_devices runtime apply rejected: '' @ err), c')
                  else reconcile_attempts n (attempt + 1) send info c')"

definition reconcile_usb_runtime ::
  "(apply_runtime_request \<Rightarrow> nat \<Rightarrow> nat \<Rightarrow> 's \<Rightarrow> (string, apply_runtime_response) result \<times> 's)
   \<Rightarrow> usb_config \<Rightarrow> usb_devices_pref \<Rightarrow> bool \<Rightarrow> usb_device_info option \<times> 's
   \<Rightarrow> (string, unit) result \<times> usb_device_info option \<times> 's" where
  "reconcile_usb_runtime send uc devices mic_process_enabled c =
     (case c of
        (None, s) \<Rightarrow> (Inl ''UsbClient not initialized'', None, s)
      | (Some cached, s) \<Rightarrow>
          let info = usb_info_for_reconcile (Some cached) (Inl []) devices;
              req = \<lparr>ar_usb_config = Some (runtime_usb_config_from_config uc), ar_usb_info = Some info,
                     ar_mic_process_enabled = mic_process_enabled\<rparr>
          in case reconcile_attempts 5 1 (send req) info (cached, s) of
               (r, cached', s') \<Rightarrow> (r, Some cached', s'))"

section \<open>Comparing and storing\<close>

definition gadget_switches_equal :: "usb_devices_pref \<Rightarrow> usb_devices_pref \<Rightarrow> bool" where
  "gadget_switches_equal a b =
     (ud_absolute_mouse a = ud_absolute_mouse b \<and> ud_relative_mouse a = ud_relative_mouse b
      \<and> ud_keyboard a = ud_keyboard b \<and> ud_mass_storage_vm a = ud_mass_storage_vm b
      \<and> ud_mass_storage_ft a = ud_mass_storage_ft b \<and> ud_microphone a = ud_microphone b \<and> ud_camera a = ud_camera b
      \<and> na_enable (ud_network_adapter a) = na_enable (ud_network_adapter b)
      \<and> na_adapter_type (ud_network_adapter a) = na_adapter_type (ud_network_adapter b))"

definition l3_config_equal :: "network_adapter_l3 \<Rightarrow> network_adapter_l3 \<Rightarrow> bool" where
  "l3_config_equal a b =
     (network_adapter_l3.l3_ip_address a = network_adapter_l3.l3_ip_address b
      \<and> network_adapter_l3.l3_subnet_mask a = network_adapter_l3.l3_subnet_mask b
      \<and> network_adapter_l3.l3_gateway a = network_adapter_l3.l3_gateway b
      \<and> network_adapter_l3.l3_dns_servers a = network_adapter_l3.l3_dns_servers b)"

definition network_adapter_l3_equal :: "network_adapter_pref \<Rightarrow> network_adapter_pref \<Rightarrow> bool" where
  "network_adapter_l3_equal a b = l3_config_equal (na_l3_config a) (na_l3_config b)"

definition set_usb_devices ::
  "'r codec \<Rightarrow> io_env \<Rightarrow> usb_devices_pref \<Rightarrow> 'r config_manager \<Rightarrow> (config_error, unit) result \<times> 'r config_manager" where
  "set_usb_devices cd io devices s =
     manager_update cd io (\<lambda>c. c\<lparr>c_usb_devices := (c_usb_devices c)\<lparr>
       ud_keyboard := ud_keyboard devices, ud_relative_mouse := ud_relative_mouse devices,
       ud_absolute_mouse := ud_absolute_mouse devices, ud_mass_storage_vm := ud_mass_storage_vm devices,
       ud_mass_storage_ft := ud_mass_storage_ft devices, ud_microphone := ud_microphone devices,
       ud_camera := ud_camera devices, ud_network_adapter := ud_network_adapter devices\<rparr>\<rparr>) s"

definition set_usb_config ::
  "'r codec \<Rightarrow> io_env \<Rightarrow> usb_config \<Rightarrow> 'r config_manager \<Rightarrow> (config_error, unit) result \<times> 'r config_manager" where
  "set_usb_config cd io uc s = manager_update cd io (\<lambda>c. c\<lparr>c_usb_config := uc\<rparr>) s"

datatype facade_error = SidecarError string | StoreError config_error

record ('r, 's) usb_app =
  ua_store :: "'r config_manager"
  ua_client :: "usb_device_info option"
  ua_side :: 's

definition lift_store ::
  "(config_error, unit) result \<times> 'r config_manager \<Rightarrow> ('r, 's) usb_app \<Rightarrow> (facade_error, unit) result \<times> ('r, 's) usb_app" where
  "lift_store x a = (case x of (r, s) \<Rightarrow> (case r of Inl e \<Rightarrow> Inl (StoreError e) | Inr u \<Rightarrow> Inr u, a\<lparr>ua_store := s\<rparr>))"

text \<open>\<open>io 0\<close> and \<open>io 1\<close> are what the file system does on the first and on the second write.\<close>

definition reboot_usb_manager_with_reason ::
  "'r codec \<Rightarrow> (nat \<Rightarrow> io_env)
   \<Rightarrow> (apply_runtime_request \<Rightarrow> nat \<Rightarrow> nat \<Rightarrow> 's \<Rightarrow> (string, apply_runtime_response) result \<times> 's)
   \<Rightarrow> usb_config option \<Rightarrow> usb_devices_pref option \<Rightarrow> ('r, 's) usb_app \<Rightarrow> (facade_error, unit) result \<times> ('r, 's) usb_app" where
  "reboot_usb_manager_with_reason cd io send uc_opt dev_opt a =
     (let c = cm_config (ua_store a);
          uc = (case uc_opt of Some x \<Rightarrow> x | None \<Rightarrow> c_usb_config c);
          preference = (case dev_opt of Some x \<Rightarrow> x | None \<Rightarrow> c_usb_devices c);
          ssh = c_ssh_forwarding_enabled c;
          apply_devices = devices_for_apply preference ssh;
          persist_devices = devices_for_persist preference ssh;
          prev_devices = c_usb_devices c;
          prev_apply = devices_for_apply prev_devices ssh
      in if ua_client a = None then (Inl (SidecarError ''UsbClient not initialized''), a)
         else let same = gadget_switches_equal prev_apply apply_devices \<and> c_usb_config c = uc;
                  l3_same = network_adapter_l3_equal (ud_network_adapter prev_apply) (ud_network_adapter apply_devices)
         in if same \<and> l3_same
            then if prev_devices \<noteq> persist_devices
                 then lift_store (set_usb_devices cd (io 0) persist_devices (ua_store a)) a
                 else (Inr (), a)
            else case reconcile_usb_runtime send uc apply_devices (effective_microphone_emulation c)
                        (ua_client a, ua_side a) of
                   (Inl err, cl, sd) \<Rightarrow> (Inl (SidecarError err), a\<lparr>ua_client := cl, ua_side := sd\<rparr>)
                 | (Inr _, cl, sd) \<Rightarrow>
                     let a1 = a\<lparr>ua_client := cl, ua_side := sd\<rparr>
                     in if same
                        then lift_store (set_usb_devices cd (io 0) persist_devices (ua_store a1)) a1
                        else case lift_store (set_usb_config cd (io 0) uc (ua_store a1)) a1 of
                               (Inl err, a2) \<Rightarrow> (Inl err, a2)
                             | (Inr _, a2) \<Rightarrow> lift_store (set_usb_devices cd (io 1) persist_devices (ua_store a2)) a2)"

datatype usb_device_type = AbsoluteMouse | RelativeMouse | KeyboardDevice | MassStorageVm | MassStorageFt | Microphone | Camera

fun set_device_pref :: "usb_device_type \<Rightarrow> bool \<Rightarrow> usb_devices_pref \<Rightarrow> usb_devices_pref" where
  "set_device_pref AbsoluteMouse b d = d\<lparr>ud_absolute_mouse := b\<rparr>"
| "set_device_pref RelativeMouse b d = d\<lparr>ud_relative_mouse := b\<rparr>"
| "set_device_pref KeyboardDevice b d = d\<lparr>ud_keyboard := b\<rparr>"
| "set_device_pref MassStorageVm b d = d\<lparr>ud_mass_storage_vm := b\<rparr>"
| "set_device_pref MassStorageFt b d = d\<lparr>ud_mass_storage_ft := b\<rparr>"
| "set_device_pref Microphone b d = d\<lparr>ud_microphone := b\<rparr>"
| "set_device_pref Camera b d = d\<lparr>ud_camera := b\<rparr>"

definition reboot_usb_manager_by_device ::
  "'r codec \<Rightarrow> (nat \<Rightarrow> io_env)
   \<Rightarrow> (apply_runtime_request \<Rightarrow> nat \<Rightarrow> nat \<Rightarrow> 's \<Rightarrow> (string, apply_runtime_response) result \<times> 's)
   \<Rightarrow> usb_device_type \<Rightarrow> bool \<Rightarrow> ('r, 's) usb_app \<Rightarrow> (facade_error, unit) result \<times> ('r, 's) usb_app" where
  "reboot_usb_manager_by_device cd io send device_type enable a =
     reboot_usb_manager_with_reason cd io send None
       (Some (set_device_pref device_type enable (c_usb_devices (cm_config (ua_store a))))) a"

section \<open>User activity\<close>

text \<open>Seconds since the process started; the last input is a 32-bit number, zero meaning none.\<close>

definition note_user_input :: "u64 \<Rightarrow> u32" where
  "note_user_input elapsed_secs = max (ucast (min elapsed_secs (ucast (- 1 :: u32)))) 1"

definition seconds_since_last_user_input :: "u64 \<Rightarrow> u32 \<Rightarrow> u64" where
  "seconds_since_last_user_input elapsed_secs last_secs =
     (if last_secs = 0 then - 1
      else if ucast last_secs \<le> elapsed_secs then elapsed_secs - ucast last_secs else 0)"

section \<open>What a successful answer says\<close>

text \<open>
  A sender of runtime requests as the client sees it: whatever a query does keeps \<open>I\<close> of the other
  side, and an answer that reports success comes with \<open>Q\<close> of the other side.
\<close>

locale runtime_sender =
  fixes send :: "nat \<Rightarrow> nat \<Rightarrow> 's \<Rightarrow> (string, apply_runtime_response) result \<times> 's"
    and I :: "'s \<Rightarrow> bool"
    and Q :: "'s \<Rightarrow> bool"
  assumes keeps: "I s \<Longrightarrow> I (snd (send i k s))"
    and success: "I s \<Longrightarrow> send i k s = (Inr r, s') \<Longrightarrow> ap_ok r \<Longrightarrow> Q s'"
begin

lemma client_keeps:
  assumes "I s" and "client_attempts n k (send i) ap_ok le info (cached, s) = (res, cached', s')"
  shows "I s' \<and> (\<forall>r. res = Inr r \<and> ap_ok r \<longrightarrow> Q s' \<and> cached' = info)"
  using assms
proof (induction n arbitrary: k s le)
  case (Suc n)
  obtain q s1 where q: "send i k s = (q, s1)" by (rule prod.exhaust)
  have i1: "I s1" using keeps [OF Suc.prems(1), of i k] q by simp
  show ?case
  proof (cases q)
    case (Inl e)
    with Suc.prems(2) q have "client_attempts n (k + 1) (send i) ap_ok e info (cached, s1) = (res, cached', s')" by simp
    from Suc.IH [OF i1 this] show ?thesis .
  next
    case (Inr r)
    with Suc.prems q i1 success [OF Suc.prems(1)] show ?thesis by auto
  qed
qed auto

lemma reconcile_keeps:
  assumes "I s" and "reconcile_attempts n i send info (cached, s) = (res, cached', s')"
  shows "I s' \<and> (res = Inr () \<longrightarrow> Q s' \<and> cached' = info)"
  using assms
proof (induction n arbitrary: i cached s)
  case (Suc n)
  obtain q c1 s1 where q: "client_apply_runtime_config (send i) info (cached, s) = (q, c1, s1)" by (metis prod.exhaust)
  have k: "I s1 \<and> (\<forall>r. q = Inr r \<and> ap_ok r \<longrightarrow> Q s1 \<and> c1 = info)"
    using client_keeps [OF Suc.prems(1)] q unfolding client_apply_runtime_config_def by blast
  with Suc q show ?case by (auto simp: Let_def split: sum.splits if_splits)
qed auto

end

definition sidecar_ok :: "'w usb_env \<Rightarrow> 'w sidecar \<Rightarrow> bool" where
  "sidecar_ok e sc = (case sc of None \<Rightarrow> True | Some st \<Rightarrow> mgr_reach e (snd st))"

definition base_of_config :: "runtime_usb_config \<Rightarrow> usb_base_info \<Rightarrow> bool" where
  "base_of_config rc b =
     (parse_hex_u16 ''vendor_id'' (rc_vendor_id rc) = Inr (vendor_id b)
      \<and> parse_hex_u16 ''product_id'' (rc_product_id rc) = Inr (product_id b)
      \<and> serial_number b = rc_serial_number rc \<and> manufacturer b = rc_manufacturer rc \<and> product b = rc_product rc
      \<and> force_full_speed b = rc_force_full_speed rc)"

text \<open>The sidecar runs the configuration of the request, and remembers it.\<close>

definition sidecar_runs :: "runtime_usb_config \<Rightarrow> usb_device_info \<Rightarrow> 'w sidecar \<Rightarrow> bool" where
  "sidecar_runs rc info sc =
     (\<exists>m w sw. sc = Some (Some info, m, w) \<and> ui_switches info = Some sw \<and> \<not> is_switches_change (mg_switches m) sw
        \<and> base_of_config rc (mg_base_info m))"

lemma base_of_parsed: "runtime_usb_config_to_base_info b rc = Inr b' \<Longrightarrow> base_of_config rc b'"
  by (cases "parse_hex_u16 ''vendor_id'' (rc_vendor_id rc)"; cases "parse_hex_u16 ''product_id'' (rc_product_id rc)")
     (auto simp: runtime_usb_config_to_base_info_def base_of_config_def)

lemma runtime_query_keeps: "sidecar_ok e sc \<Longrightarrow> sidecar_ok e (snd (handle_apply_runtime_query e (Some (Inr req)) sc))"
  using control_step_reach [of e _ "ApplyRuntime req"]
  by (auto simp: handle_apply_runtime_query_def control_apply_runtime_def sidecar_ok_def split_beta
      split: option.splits control_reply.splits sum.splits prod.splits)

lemma runtime_query_success:
  assumes "sidecar_ok e sc" and "handle_apply_runtime_query e (Some (Inr req)) sc = (resp, sc')" and "ap_ok resp"
    and "ar_usb_config req = Some rc" and "ar_usb_info req = Some info"
  shows "sidecar_runs rc info sc'"
proof -
  obtain li m w where st: "sc = Some (li, m, w)"
    using assms(2,3) by (cases sc) (auto simp: handle_apply_runtime_query_def control_apply_runtime_def split_beta)
  let ?m1 = "set_mic_process_enabled (ar_mic_process_enabled req) m"
  have r1: "mgr_reach e (?m1, w)" using assms(1) st by (auto simp: sidecar_ok_def intro: mgr_reach.mic_flag)
  obtain base where b: "runtime_usb_config_to_base_info (mg_base_info ?m1) rc = Inr base"
    using assms(2-5) st
    by (cases "runtime_usb_config_to_base_info (mg_base_info ?m1) rc")
       (auto simp: handle_apply_runtime_query_def control_apply_runtime_def control_step_def apply_runtime_usb_info_def
          Let_def split_beta)
  obtain res last' m' w' where f: "apply_full_config e info base (li, ?m1, w) = (res, last', m', w')" by (metis prod.exhaust)
  obtain sw' where sw: "res = Inr sw'" "sc' = Some (last', m', w')"
    using assms(2-5) st b f
    by (cases res)
       (auto simp: handle_apply_runtime_query_def control_apply_runtime_def control_step_def apply_runtime_usb_info_def
          Let_def split_beta)
  have "mgr_ok ?m1" using mgr_reach_inv [OF r1] by (simp add: mgr_inv_def)
  from full_config_result [OF this f] sw base_of_parsed [OF b] show ?thesis
    by (auto simp: sidecar_runs_def)
qed

interpretation sidecar_query: runtime_sender
  "\<lambda>i k. send_runtime_with_reply e (dv i k)
     \<lparr>ar_usb_config = Some rc, ar_usb_info = Some info, ar_mic_process_enabled = mic\<rparr>"
  "sidecar_ok e" "sidecar_runs rc info" for e dv rc info mic
proof
  fix i k :: nat and s :: "'a sidecar"
  assume ok: "sidecar_ok e s"
  let ?req = "\<lparr>ar_usb_config = Some rc, ar_usb_info = Some info, ar_mic_process_enabled = mic\<rparr>"
  from runtime_query_keeps [OF ok, of ?req] ok
  show "sidecar_ok e (snd (send_runtime_with_reply e (dv i k) ?req s))"
    by (auto simp: send_runtime_with_reply_def split_beta split: delivery.split)
  show "sidecar_runs rc info s'" if "send_runtime_with_reply e (dv i k) ?req s = (Inr r, s')" "ap_ok r" for r s'
    using that runtime_query_success [OF ok, of ?req r s' rc info]
    by (auto simp: send_runtime_with_reply_def split_beta split: delivery.splits)
qed

section \<open>Store and sidecar\<close>

definition in_sync :: "('r, 'w sidecar) usb_app \<Rightarrow> bool" where
  "in_sync a =
     (let c = cm_config (ua_store a); d = devices_for_apply (c_usb_devices c) (c_ssh_forwarding_enabled c) in
      \<exists>info. sidecar_runs (runtime_usb_config_from_config (c_usb_config c)) info (ua_side a)
        \<and> ui_switches info = Some (switches_from_devices d)
        \<and> ui_network_adapter_l3 info = Some (l3_to_proto (na_l3_config (ud_network_adapter d))))"

lemma manager_update_frame:
  "\<exists>ms. cm_config (snd (manager_update cd io f s)) = (f (cm_config s))\<lparr>c_keyboard_macros := ms\<rparr>"
proof -
  obtain ms where "snd (config_validate (f (cm_config s))) = (f (cm_config s))\<lparr>c_keyboard_macros := ms\<rparr>"
    using config_validate_frame by blast
  then show ?thesis
    by (cases "config_validate (f (cm_config s))")
       (auto simp: manager_update_def manager_save_def split_beta split: sum.splits)
qed

text \<open>The part of the configuration that the facade reads.\<close>

definition usb_part :: "'r config \<Rightarrow> usb_config \<times> usb_devices_pref \<times> bool" where
  "usb_part c = (c_usb_config c, c_usb_devices c, c_ssh_forwarding_enabled c)"

lemma set_usb_devices_part:
  "usb_part (cm_config (snd (set_usb_devices cd io d s)))
     = (c_usb_config (cm_config s), d, c_ssh_forwarding_enabled (cm_config s))"
proof -
  let ?f = "\<lambda>c. c\<lparr>c_usb_devices := (c_usb_devices c)\<lparr>
       ud_keyboard := ud_keyboard d, ud_relative_mouse := ud_relative_mouse d,
       ud_absolute_mouse := ud_absolute_mouse d, ud_mass_storage_vm := ud_mass_storage_vm d,
       ud_mass_storage_ft := ud_mass_storage_ft d, ud_microphone := ud_microphone d,
       ud_camera := ud_camera d, ud_network_adapter := ud_network_adapter d\<rparr>\<rparr>"
  obtain ms where "cm_config (snd (manager_update cd io ?f s)) = (?f (cm_config s))\<lparr>c_keyboard_macros := ms\<rparr>"
    using manager_update_frame by blast
  then show ?thesis by (cases d) (simp add: set_usb_devices_def usb_part_def)
qed

lemma set_usb_config_part:
  "usb_part (cm_config (snd (set_usb_config cd io uc s)))
     = (uc, c_usb_devices (cm_config s), c_ssh_forwarding_enabled (cm_config s))"
proof -
  obtain ms where "cm_config (snd (manager_update cd io (\<lambda>c. c\<lparr>c_usb_config := uc\<rparr>) s))
      = (cm_config s)\<lparr>c_usb_config := uc, c_keyboard_macros := ms\<rparr>"
    using manager_update_frame [of cd io "\<lambda>c. c\<lparr>c_usb_config := uc\<rparr>" s] by auto
  then show ?thesis by (simp add: set_usb_config_def usb_part_def)
qed

lemma lift_store_simps [simp]:
  "ua_side (snd (lift_store x a)) = ua_side a" "ua_client (snd (lift_store x a)) = ua_client a"
  "ua_store (snd (lift_store x a)) = snd x" "is_ok (fst (lift_store x a)) = is_ok (fst x)"
  by (simp_all add: lift_store_def split_beta split: sum.splits)

lemma apply_of_persist [simp]: "devices_for_apply (devices_for_persist p ssh) ssh = devices_for_apply p ssh"
  by (simp add: devices_for_apply_def devices_for_persist_def Let_def)

lemma same_apply:
  assumes "gadget_switches_equal a b"
  shows "switches_from_devices a = switches_from_devices b"
  using assms by (simp add: gadget_switches_equal_def switches_from_devices_def)

lemma l3_equal: "l3_config_equal a b \<Longrightarrow> a = b"
  by (cases a; cases b) (simp add: l3_config_equal_def)

definition in_sync_with :: "usb_config \<times> usb_devices_pref \<times> bool \<Rightarrow> 'w sidecar \<Rightarrow> bool" where
  "in_sync_with p sc = (case p of (uc, devs, ssh) \<Rightarrow>
     \<exists>info. sidecar_runs (runtime_usb_config_from_config uc) info sc
       \<and> ui_switches info = Some (switches_from_devices (devices_for_apply devs ssh))
       \<and> ui_network_adapter_l3 info = Some (l3_to_proto (na_l3_config (ud_network_adapter (devices_for_apply devs ssh)))))"

lemma in_sync_iff: "in_sync a = in_sync_with (usb_part (cm_config (ua_store a))) (ua_side a)"
  by (simp add: in_sync_def in_sync_with_def usb_part_def Let_def)

lemma in_sync_cong:
  assumes "gadget_switches_equal (devices_for_apply d ssh) (devices_for_apply d' ssh)"
    and "network_adapter_l3_equal (ud_network_adapter (devices_for_apply d ssh)) (ud_network_adapter (devices_for_apply d' ssh))"
    and "in_sync_with (uc, d, ssh) sc"
  shows "in_sync_with (uc, devices_for_persist d' ssh, ssh) sc"
  using assms(3) same_apply [OF assms(1)] l3_equal [OF assms(2) [unfolded network_adapter_l3_equal_def]]
  by (simp add: in_sync_with_def)

lemma reconcile_ok:
  assumes "sidecar_ok e sc"
    and "reconcile_usb_runtime (\<lambda>req i k. send_runtime_with_reply e (dv i k) req) uc (devices_for_apply devs ssh) mic (cl, sc)
           = (Inr (), cl', sc')"
  shows "in_sync_with (uc, devs, ssh) sc'"
proof -
  obtain cached where cl: "cl = Some cached" using assms(2) by (cases cl) (auto simp: reconcile_usb_runtime_def)
  let ?info = "usb_info_for_reconcile (Some cached) (Inl []) (devices_for_apply devs ssh)"
  obtain c1 where r: "reconcile_attempts 5 1 (\<lambda>i k. send_runtime_with_reply e (dv i k)
        \<lparr>ar_usb_config = Some (runtime_usb_config_from_config uc), ar_usb_info = Some ?info, ar_mic_process_enabled = mic\<rparr>)
        ?info (cached, sc) = (Inr (), c1, sc')"
    using assms(2) cl by (auto simp: reconcile_usb_runtime_def Let_def split: prod.splits)
  from sidecar_query.reconcile_keeps [OF assms(1) r]
  have "sidecar_runs (runtime_usb_config_from_config uc) ?info sc'" by simp
  then show ?thesis
    by (auto simp: in_sync_with_def usb_info_for_reconcile_def usb_info_from_devices_with_paths_def)
qed

text \<open>What a change that reports success has done: nothing to the sidecar, or a successful reconcile.\<close>

lemma reboot_success_cases:
  fixes uc_opt dev_opt cd io send and a a' :: "('r, 's) usb_app"
  defines "c \<equiv> cm_config (ua_store a)"
  defines "uc \<equiv> (case uc_opt of Some x \<Rightarrow> x | None \<Rightarrow> c_usb_config c)"
    and "pref \<equiv> (case dev_opt of Some x \<Rightarrow> x | None \<Rightarrow> c_usb_devices c)"
    and "ssh \<equiv> c_ssh_forwarding_enabled c"
  assumes "reboot_usb_manager_with_reason cd io send uc_opt dev_opt a = (Inr u, a')"
  obtains (unchanged) "gadget_switches_equal (devices_for_apply (c_usb_devices c) ssh) (devices_for_apply pref ssh)"
      "c_usb_config c = uc"
      "network_adapter_l3_equal (ud_network_adapter (devices_for_apply (c_usb_devices c) ssh))
         (ud_network_adapter (devices_for_apply pref ssh))"
      "ua_side a' = ua_side a" "usb_part (cm_config (ua_store a')) = (uc, devices_for_persist pref ssh, ssh)"
  | (reconciled) cl where
      "reconcile_usb_runtime send uc (devices_for_apply pref ssh) (effective_microphone_emulation c) (ua_client a, ua_side a)
         = (Inr (), cl, ua_side a')"
      "usb_part (cm_config (ua_store a')) = (uc, devices_for_persist pref ssh, ssh)"
proof -
  let ?p = "devices_for_persist pref ssh"
  let ?same = "gadget_switches_equal (devices_for_apply (c_usb_devices c) ssh) (devices_for_apply pref ssh) \<and> c_usb_config c = uc"
  let ?l3 = "network_adapter_l3_equal (ud_network_adapter (devices_for_apply (c_usb_devices c) ssh))
      (ud_network_adapter (devices_for_apply pref ssh))"
  note run = assms(5) [unfolded reboot_usb_manager_with_reason_def Let_def, folded c_def, folded uc_def pref_def ssh_def]
  have dev: "usb_part (cm_config (ua_store (snd (lift_store (set_usb_devices cd i ?p s) x))))
      = (c_usb_config (cm_config s), ?p, c_ssh_forwarding_enabled (cm_config s))" for i s and x :: "('r, 's) usb_app"
    by (simp add: set_usb_devices_part)
  obtain rr cl sc where rr: "reconcile_usb_runtime send uc (devices_for_apply pref ssh)
      (effective_microphone_emulation c) (ua_client a, ua_side a) = (rr, cl, sc)" by (metis prod.exhaust)
  let ?a1 = "a\<lparr>ua_client := cl, ua_side := sc\<rparr>"
  obtain q a2 where q: "lift_store (set_usb_config cd (io 0) uc (ua_store a)) ?a1 = (q, a2)" by (rule prod.exhaust)
  have a2: "ua_side a2 = sc" "usb_part (cm_config (ua_store a2)) = (uc, c_usb_devices c, ssh)"
    using lift_store_simps(1,3) [of "set_usb_config cd (io 0) uc (ua_store a)" ?a1] q
    by (simp_all add: set_usb_config_part c_def ssh_def)
  show thesis
  proof (cases "?same \<and> ?l3")
    case True
    then have "(a' = a \<and> c_usb_devices c = ?p) \<or> a' = snd (lift_store (set_usb_devices cd (io 0) ?p (ua_store a)) a)"
      using run by (auto split: if_splits)
    then have "ua_side a' = ua_side a \<and> usb_part (cm_config (ua_store a')) = (uc, ?p, ssh)"
      using True dev by (auto simp: c_def ssh_def usb_part_def)
    with True show ?thesis by (intro unchanged) auto
  next
    case False
    from run False rr have ok: "rr = Inr ()" by (cases rr) (auto split: if_splits)
    have "a' = snd (lift_store (set_usb_devices cd (if ?same then io 0 else io 1) ?p (ua_store (if ?same then a else a2)))
        (if ?same then ?a1 else a2))"
    proof (cases ?same)
      case True
      with run False rr ok
      have "lift_store (set_usb_devices cd (io 0) ?p (ua_store a)) ?a1 = (Inr u, a')" by (simp split: if_splits)
      with True show ?thesis by simp
    next
      case other: False
      with run rr ok q have l: "lift_store (set_usb_devices cd (io 1) ?p (ua_store a2)) a2 = (Inr u, a')"
        by (cases q) (simp_all split: if_splits)
      show ?thesis by (simp only: other if_False l snd_conv)
    qed
    with a2 dev have "ua_side a' = sc \<and> usb_part (cm_config (ua_store a')) = (uc, ?p, ssh)"
      by (auto simp: c_def ssh_def usb_part_def)
    with rr ok show ?thesis by (intro reconciled) auto
  qed
qed

text \<open>The request asks for what the store describes already: the sidecar is then not asked.\<close>

definition nothing_new :: "usb_config option \<Rightarrow> usb_devices_pref option \<Rightarrow> 'r config \<Rightarrow> bool" where
  "nothing_new uc_opt dev_opt c =
     (let ssh = c_ssh_forwarding_enabled c; prev = devices_for_apply (c_usb_devices c) ssh;
          new = devices_for_apply (case dev_opt of Some x \<Rightarrow> x | None \<Rightarrow> c_usb_devices c) ssh
      in gadget_switches_equal prev new \<and> (case uc_opt of Some x \<Rightarrow> x = c_usb_config c | None \<Rightarrow> True)
         \<and> network_adapter_l3_equal (ud_network_adapter prev) (ud_network_adapter new))"


text \<open>
  A change that the sidecar did not confirm is not stored, and is then taken for not made. When the
  reconcile fails, the store is as before, although the sidecar may have made the change and only
  its reply was lost. A later request for the stored devices finds nothing to do: it reports success
  without asking the sidecar, which keeps running what it runs.
\<close>

theorem unconfirmed_change_stays:
  assumes "ua_client a \<noteq> None"
    and "na_enable (ud_network_adapter (c_usb_devices (cm_config (ua_store a)))) = c_ssh_forwarding_enabled (cm_config (ua_store a))"
    and "reboot_usb_manager_with_reason cd io send uc_opt dev_opt a = (Inl (SidecarError err), a1)"
  shows "ua_store a1 = ua_store a \<and> reboot_usb_manager_with_reason cd io2 send2 None None a1 = (Inr (), a1)"
proof -
  have store: "ua_store a1 = ua_store a"
    using assms(3) by (auto simp: reboot_usb_manager_with_reason_def Let_def lift_store_def split_beta
        split: if_splits sum.splits)
  have client: "ua_client a1 \<noteq> None"
  proof -
    have "fst (snd (reconcile_usb_runtime send uc d mic (Some x, s))) \<noteq> None" for uc d mic x s
      by (simp add: reconcile_usb_runtime_def Let_def split_beta)
    with assms(1,3) show ?thesis
      by (auto simp: reboot_usb_manager_with_reason_def Let_def lift_store_def split_beta
          split: if_splits sum.splits)
  qed
  have "devices_for_persist (c_usb_devices (cm_config (ua_store a))) (c_ssh_forwarding_enabled (cm_config (ua_store a)))
      = c_usb_devices (cm_config (ua_store a))"
    using assms(2) by (simp add: devices_for_persist_def)
  then show ?thesis using store client
    by (auto simp: reboot_usb_manager_with_reason_def Let_def gadget_switches_equal_def network_adapter_l3_equal_def
        l3_config_equal_def)
qed

section \<open>Concrete instances\<close>

definition devices_off :: usb_devices_pref where
  "devices_off = \<lparr>ud_absolute_mouse = False, ud_relative_mouse = False, ud_keyboard = False, ud_mass_storage_vm = False,
     ud_mass_storage_ft = False, ud_microphone = False, ud_camera = False, ud_network_adapter = network_adapter_default\<rparr>"

definition uc_demo :: usb_config where
  "uc_demo = \<lparr>uc_vendor_id = ''0x1d6b'', uc_product_id = ''0x0104'', uc_serial_number = serial_number base_demo,
     uc_manufacturer = manufacturer base_demo, uc_product = product base_demo,
     uc_force_full_speed = force_full_speed base_demo\<rparr>"

definition info_demo :: usb_device_info where
  "info_demo = usb_info_from_devices_with_paths devices_off [] [] 1"

definition app_demo :: "(unit, unit sidecar) usb_app" where
  "app_demo = \<lparr>ua_store = \<lparr>cm_config = demo_config\<lparr>c_usb_config := uc_demo, c_usb_devices := devices_off\<rparr>, cm_disk = empty_disk\<rparr>,
     ua_client = Some info_demo, ua_side = Some (Some info_demo, manager_new base_demo, ())\<rparr>"

lemma app_demo_simps:
  "ua_client app_demo = Some info_demo" "ua_side app_demo = Some (Some info_demo, manager_new base_demo, ())"
  "c_usb_config (cm_config (ua_store app_demo)) = uc_demo" "c_usb_devices (cm_config (ua_store app_demo)) = devices_off"
  "c_ssh_forwarding_enabled (cm_config (ua_store app_demo)) = False"
  by (simp_all add: app_demo_def demo_config_def config_default_def)

lemma devices_off_apply: "devices_for_apply devices_off False = devices_off" "devices_for_persist devices_off False = devices_off"
  by (simp_all add: devices_for_apply_def devices_for_persist_def devices_off_def network_adapter_default_def)

lemma app_demo_ok: "sidecar_ok usb_demo_env (ua_side app_demo)"
  by (simp add: sidecar_ok_def app_demo_simps mgr_reach.start)

definition plain_config :: "'r config \<Rightarrow> bool" where
  "plain_config c = (c_keyboard_macros c = [] \<and> c_display_max_brightness c \<le> 255
     \<and> c_local_auth_mode c \<in> {[], ''password'', ''noPassword''})"

definition demo_saved :: "disk \<Rightarrow> disk" where
  "demo_saved d = snd (persistence_save demo_codec demo_io demo_config d)"

lemma demo_update:
  assumes "plain_config (f (cm_config s))"
  shows "manager_update demo_codec demo_io f s = (Inr (), \<lparr>cm_config = f (cm_config s), cm_disk = demo_saved (cm_disk s)\<rparr>)"
proof -
  have "config_validate (f (cm_config s)) = (Inr (), f (cm_config s))"
    using assms by (auto simp: plain_config_def config_validate_def MAX_MACROS_PER_DEVICE_def)
  moreover have "persistence_save demo_codec demo_io c d = (Inr (), demo_saved d)" for c d
    by (simp add: demo_saved_def persistence_save_def config_encode_def demo_codec_def demo_io_def Let_def after_write_def
        split: option.split)
  ultimately show ?thesis by (cases s) (simp add: manager_update_def manager_save_def)
qed

text \<open>A change of the adapter's address, whose first query is lost.\<close>

definition l3_devices :: usb_devices_pref where
  "l3_devices = devices_off\<lparr>ud_network_adapter := network_adapter_default\<lparr>na_l3_config :=
     (na_l3_config network_adapter_default)\<lparr>network_adapter_l3.l3_ip_address := ''10.0.0.1''\<rparr>\<rparr>\<rparr>"

definition demo_delivery :: "nat \<Rightarrow> nat \<Rightarrow> delivery" where
  "demo_delivery i k = (if k = 1 then QueryLost ''timeout'' else Answered)"

lemma uc_demo_base: "runtime_usb_config_to_base_info base_demo (runtime_usb_config_from_config uc_demo) = Inr base_demo"
proof -
  have "trim ''0x1d6b'' = ''0x1d6b''" "strip_hex_prefix ''0x1d6b'' = ''1d6b''" "parse_radix 16 65536 ''1d6b'' = Some 7531"
    "trim ''0x0104'' = ''0x0104''" "strip_hex_prefix ''0x0104'' = ''0104''" "parse_radix 16 65536 ''0104'' = Some 260"
    by (simp_all add: trim_def trim_start_def is_ascii_space_def strip_hex_prefix_def starts_with_def parse_radix_def
        radix_digit_def hex_digit_def)
  then show ?thesis
    by (simp add: runtime_usb_config_to_base_info_def runtime_usb_config_from_config_def uc_demo_def parse_hex_u16_def base_demo_def)
qed

lemma demo_query:
  "\<exists>m st. handle_apply_runtime_query usb_demo_env
     (Some (Inr \<lparr>ar_usb_config = Some (runtime_usb_config_from_config uc_demo),
        ar_usb_info = Some (usb_info_from_devices_with_paths l3_devices [] [] 1), ar_mic_process_enabled = False\<rparr>))
     (Some (Some info_demo, manager_new base_demo, ()))
   = (runtime_apply_ok m (usb_info_from_devices_with_paths l3_devices [] [] 1), Some st)"
proof -
  let ?i = "usb_info_from_devices_with_paths l3_devices [] [] 1"
  have mic: "set_mic_process_enabled False (manager_new base_demo) = manager_new base_demo"
    by (simp add: set_mic_process_enabled_def manager_new_def)
  have "is_ok (fst (apply_full_config usb_demo_env ?i base_demo (Some info_demo, manager_new base_demo, ())))" by code_simp
  then obtain sw st where "apply_full_config usb_demo_env ?i base_demo (Some info_demo, manager_new base_demo, ()) = (Inr sw, st)"
    by (cases "apply_full_config usb_demo_env ?i base_demo (Some info_demo, manager_new base_demo, ())") (auto elim: is_ok.elims)
  moreover have "mg_base_info (manager_new base_demo) = base_demo" by (simp add: manager_new_def)
  ultimately show ?thesis
    by (cases st) (auto simp: handle_apply_runtime_query_def control_apply_runtime_def control_step_def apply_runtime_usb_info_def
        Let_def mic uc_demo_base)
qed


lemma client_all_lost:
  "client_attempts n i (\<lambda>k s. (Inl e, s)) ok le info (c, s) = (Inl (if n = 0 then le else e), c, s)"
  by (induction n arbitrary: i le) simp_all

lemma reconcile_all_lost:
  "reconcile_usb_runtime (\<lambda>req i k s. (Inl e, s)) uc d mic (Some c, s)
     = (Inl (''usb_devices runtime apply failed: '' @ e), Some c, s)"
  using reconcile_attempts.simps(2) [of 4 1 "\<lambda>i k s. (Inl e, s)" _ "(c, s)"]
  by (simp add: reconcile_usb_runtime_def Let_def client_apply_runtime_config_def client_all_lost)

theorem unconfirmed_change_stays_witness:
  "\<exists>err a1. reboot_usb_manager_with_reason demo_codec (\<lambda>_. demo_io)
     (\<lambda>req i k s. (Inl ''timeout'', s)) None (Some (devices_off\<lparr>ud_keyboard := True\<rparr>)) app_demo = (Inl (SidecarError err), a1)
   \<and> reboot_usb_manager_with_reason demo_codec (\<lambda>_. demo_io)
     (\<lambda>req i k. send_runtime_with_reply usb_demo_env Answered req) None None a1 = (Inr (), a1)"
proof -
  have d: "\<not> gadget_switches_equal devices_off (devices_for_apply (devices_off\<lparr>ud_keyboard := True\<rparr>) False)" by code_simp
  have r: "\<exists>err a1. reboot_usb_manager_with_reason demo_codec (\<lambda>_. demo_io) (\<lambda>req i k s. (Inl ''timeout'', s)) None
      (Some (devices_off\<lparr>ud_keyboard := True\<rparr>)) app_demo = (Inl (SidecarError err), a1)"
    by (simp add: reboot_usb_manager_with_reason_def Let_def app_demo_simps devices_off_apply d reconcile_all_lost)
  have "ua_client app_demo \<noteq> None" "na_enable (ud_network_adapter (c_usb_devices (cm_config (ua_store app_demo))))
      = c_ssh_forwarding_enabled (cm_config (ua_store app_demo))"
    by (simp_all add: app_demo_simps devices_off_def network_adapter_default_def)
  from unconfirmed_change_stays [OF this] r show ?thesis by blast
qed

end
