(* ===== verification/Web_Auth.thy ===== *)
theory Web_Auth
  imports Usb_Facade
begin

text \<open>
  Authentication of the web server: the middlewares of \<^verbatim>\<open>middleware.rs\<close>, the token and password
  operations of \<^verbatim>\<open>config/manager.rs\<close>, and the handlers of \<^verbatim>\<open>web.rs\<close> that log in and out, set the device up
  and manage the password, over the configuration store. The HTTP library gives a request as the
  record \<open>http_request\<close>; what a JSON body parses to is an argument of the handler. Password hashing,
  random tokens, base64 and the clock are the fields of \<open>auth_env\<close>.
\<close>

section \<open>Requests\<close>

record http_request =
  hr_method :: string
  hr_path :: string
  hr_scheme :: "string option"
  hr_authority :: "string option"
  hr_headers :: "(string \<times> string) list"
  hr_cookies :: "(string \<times> string) list"
  hr_query :: "(string \<times> string) list"
  hr_protocol :: "string option"

text \<open>\<open>HeaderValue::to_str\<close>: only visible ASCII, spaces and tabs.\<close>

definition is_visible :: "char \<Rightarrow> bool" where
  "is_visible c = (let n = (of_char c :: nat) in n = 9 \<or> (32 \<le> n \<and> n < 127))"

definition header_str :: "http_request \<Rightarrow> string \<Rightarrow> string option" where
  "header_str req name =
     (case map_of (hr_headers req) name of
        None \<Rightarrow> None
      | Some v \<Rightarrow> if list_all is_visible v then Some v else None)"

definition req_cookie :: "http_request \<Rightarrow> string \<Rightarrow> string option" where
  "req_cookie req name = map_of (hr_cookies req) name"

definition AUTH_COOKIE_USER :: string where "AUTH_COOKIE_USER = ''authToken''"
definition AUTH_COOKIE_AGENT :: string where "AUTH_COOKIE_AGENT = ''authTokenAgent''"

fun cookie_name_for_role :: "session_role \<Rightarrow> string" where
  "cookie_name_for_role User = AUTH_COOKIE_USER"
| "cookie_name_for_role Agent = AUTH_COOKIE_AGENT"

section \<open>Tokens and passwords in the store\<close>

record auth_env =
  ae_now :: int
  ae_verify :: "string \<Rightarrow> string \<Rightarrow> (string, bool) result"
  ae_hash :: "string \<Rightarrow> (string, string) result"
  ae_base64 :: "string \<Rightarrow> u8 list option"
  ae_token :: string
  ae_csrf :: string
  ae_io :: "nat \<Rightarrow> io_env"

definition AUTH_TOKEN_VALIDITY_SECS :: int where "AUTH_TOKEN_VALIDITY_SECS = 7 * 24 * 3600"

definition set_auth_mode ::
  "'r codec \<Rightarrow> io_env \<Rightarrow> string \<Rightarrow> 'r config_manager \<Rightarrow> (config_error, unit) result \<times> 'r config_manager" where
  "set_auth_mode cd io mode s = manager_update cd io (\<lambda>c. c\<lparr>c_local_auth_mode := mode\<rparr>) s"

definition set_hashed_password ::
  "'r codec \<Rightarrow> io_env \<Rightarrow> string option \<Rightarrow> 'r config_manager \<Rightarrow> (config_error, unit) result \<times> 'r config_manager" where
  "set_hashed_password cd io h s = manager_update cd io (\<lambda>c. c\<lparr>c_hashed_password := h\<rparr>) s"

fun put_slot :: "session_role \<Rightarrow> string option \<Rightarrow> string option \<Rightarrow> int option \<Rightarrow> 'r config \<Rightarrow> 'r config" where
  "put_slot User token csrf expires c =
     c\<lparr>c_local_auth_token := token, c_local_csrf_token := csrf, c_local_auth_token_expires_at := expires\<rparr>"
| "put_slot Agent token csrf expires c =
     c\<lparr>c_local_agent_auth_token := token, c_local_agent_csrf_token := csrf, c_local_agent_auth_token_expires_at := expires\<rparr>"

definition set_auth_token_for_role ::
  "'r codec \<Rightarrow> io_env \<Rightarrow> auth_env \<Rightarrow> session_role \<Rightarrow> string option \<Rightarrow> 'r config_manager
     \<Rightarrow> (config_error, string option) result \<times> 'r config_manager" where
  "set_auth_token_for_role cd io e role token s =
     (let csrf = (if token \<noteq> None then Some (ae_csrf e) else None);
          expires_at = (if token \<noteq> None then Some (ae_now e + AUTH_TOKEN_VALIDITY_SECS) else None)
      in case manager_update cd io (put_slot role token csrf expires_at) s of
           (Inl err, s') \<Rightarrow> (Inl err, s')
         | (Inr _, s') \<Rightarrow> (Inr csrf, s'))"

definition clear_all_auth_tokens ::
  "'r codec \<Rightarrow> io_env \<Rightarrow> 'r config_manager \<Rightarrow> (config_error, unit) result \<times> 'r config_manager" where
  "clear_all_auth_tokens cd io s =
     manager_update cd io (\<lambda>c. c\<lparr>c_local_auth_token := None, c_local_csrf_token := None, c_local_auth_token_expires_at := None,
       c_local_agent_auth_token := None, c_local_agent_csrf_token := None, c_local_agent_auth_token_expires_at := None\<rparr>) s"

fun stored_token :: "session_role \<Rightarrow> 'r config \<Rightarrow> string option" where
  "stored_token User c = c_local_auth_token c"
| "stored_token Agent c = c_local_agent_auth_token c"

fun get_csrf_token_for_role :: "session_role \<Rightarrow> 'r config \<Rightarrow> string option" where
  "get_csrf_token_for_role User c = c_local_csrf_token c"
| "get_csrf_token_for_role Agent c = c_local_agent_csrf_token c"

fun token_expires_at :: "session_role \<Rightarrow> 'r config \<Rightarrow> int option" where
  "token_expires_at User c = c_local_auth_token_expires_at c"
| "token_expires_at Agent c = c_local_agent_auth_token_expires_at c"

definition open_mode :: "'r config \<Rightarrow> bool" where
  "open_mode c = (c_local_auth_mode c = [] \<or> c_local_auth_mode c = ''noPassword'')"

definition not_expired :: "int option \<Rightarrow> int \<Rightarrow> bool" where
  "not_expired expires_at now = (case expires_at of Some t \<Rightarrow> t > now | None \<Rightarrow> False)"

definition token_matches :: "string option \<Rightarrow> string \<Rightarrow> bool" where
  "token_matches stored token = (case stored of Some t \<Rightarrow> token \<noteq> [] \<and> token = t | None \<Rightarrow> False)"

definition validate_auth_token_for_role :: "int \<Rightarrow> 'r config \<Rightarrow> session_role \<Rightarrow> string \<Rightarrow> bool" where
  "validate_auth_token_for_role now c role token =
     (if open_mode c then True
      else not_expired (token_expires_at role c) now \<and> token_matches (stored_token role c) token)"

definition validate_csrf_token_for_role :: "int \<Rightarrow> 'r config \<Rightarrow> session_role \<Rightarrow> string \<Rightarrow> bool" where
  "validate_csrf_token_for_role now c role token =
     (if open_mode c then True
      else not_expired (token_expires_at role c) now \<and> token_matches (get_csrf_token_for_role role c) token)"

definition validate_password :: "auth_env \<Rightarrow> 'r config \<Rightarrow> string \<Rightarrow> bool" where
  "validate_password e c password =
     (case c_hashed_password c of
        Some h \<Rightarrow> (case ae_verify e password h of Inr ok \<Rightarrow> ok | Inl _ \<Rightarrow> False)
      | None \<Rightarrow> False)"

section \<open>Middlewares\<close>

text \<open>
  A middleware lets the request pass, with the role it is bound to (none in the modes without a
  password), or ends it with a status and a message.
\<close>

datatype gate = Pass "session_role option" | Refuse nat string

definition auth_middleware :: "int \<Rightarrow> 'r config \<Rightarrow> http_request \<Rightarrow> gate" where
  "auth_middleware now c req =
     (if open_mode c then Pass None
      else case (req_cookie req AUTH_COOKIE_USER, req_cookie req AUTH_COOKIE_AGENT) of
             (Some _, Some _) \<Rightarrow> Refuse 400 ''Ambiguous auth cookies''
           | (user, agent) \<Rightarrow>
               if (case user of Some t \<Rightarrow> validate_auth_token_for_role now c User t | None \<Rightarrow> False)
               then Pass (Some User)
               else if (case agent of Some t \<Rightarrow> validate_auth_token_for_role now c Agent t | None \<Rightarrow> False)
               then Pass (Some Agent)
               else Refuse 401 ''Unauthorized'')"

definition is_websocket_request :: "http_request \<Rightarrow> bool" where
  "is_websocket_request req =
     ((case header_str req ''Upgrade'' of Some s \<Rightarrow> to_ascii_lowercase (trim s) = ''websocket'' | None \<Rightarrow> False)
      \<or> (hr_method req = ''CONNECT''
         \<and> (case hr_protocol req of Some p \<Rightarrow> to_ascii_lowercase (trim p) = ''websocket'' | None \<Rightarrow> False)))"

definition presented_csrf :: "http_request \<Rightarrow> string" where
  "presented_csrf req =
     (if is_websocket_request req
      then (case map_of (hr_query req) ''csrf-token'' of Some t \<Rightarrow> trim t | None \<Rightarrow> [])
      else (case header_str req ''X-CSRF-Token'' of Some t \<Rightarrow> trim t | None \<Rightarrow> []))"

definition csrf_middleware :: "int \<Rightarrow> 'r config \<Rightarrow> session_role option \<Rightarrow> http_request \<Rightarrow> gate" where
  "csrf_middleware now c depot_role req =
     (if open_mode c then Pass depot_role
      else let role = (case depot_role of Some r \<Rightarrow> r | None \<Rightarrow> User)
           in if validate_csrf_token_for_role now c role (presented_csrf req) then Pass depot_role
              else Refuse 401 ''Invalid or missing CSRF token'')"

definition role_acl_middleware :: "session_role option \<Rightarrow> http_request \<Rightarrow> gate" where
  "role_acl_middleware depot_role req =
     (if depot_role \<noteq> Some Agent then Pass depot_role
      else if starts_with (hr_path req) ''/cloud/'' then Refuse 403 ''Forbidden for agent''
      else if starts_with (hr_path req) ''/auth/'' \<and> \<not> (hr_method req = ''POST'' \<and> hr_path req = ''/auth/logout'')
      then Refuse 403 ''Forbidden for agent''
      else Pass depot_role)"

fun then_gate :: "gate \<Rightarrow> (session_role option \<Rightarrow> gate) \<Rightarrow> gate" where
  "then_gate (Pass r) g = g r"
| "then_gate (Refuse code msg) g = Refuse code msg"

text \<open>The routers: protected routes check all three, file routes have no CSRF check.\<close>

definition protected_chain :: "int \<Rightarrow> 'r config \<Rightarrow> http_request \<Rightarrow> gate" where
  "protected_chain now c req =
     then_gate (auth_middleware now c req) (\<lambda>r.
     then_gate (csrf_middleware now c r req) (\<lambda>r. role_acl_middleware r req))"

definition file_chain :: "int \<Rightarrow> 'r config \<Rightarrow> http_request \<Rightarrow> gate" where
  "file_chain now c req = then_gate (auth_middleware now c req) (\<lambda>r. role_acl_middleware r req)"

definition split_once :: "char \<Rightarrow> string \<Rightarrow> (string \<times> string) option" where
  "split_once d s =
     (if d \<in> set s then Some (takeWhile (\<lambda>c. c \<noteq> d) s, drop 1 (dropWhile (\<lambda>c. c \<noteq> d) s)) else None)"

definition rsplit_once :: "char \<Rightarrow> string \<Rightarrow> (string \<times> string) option" where
  "rsplit_once d s = map_option (\<lambda>(a, b). (rev b, rev a)) (split_once d (rev s))"

definition extract_basic_auth :: "(string \<Rightarrow> u8 list option) \<Rightarrow> string \<Rightarrow> (string \<times> string) option" where
  "extract_basic_auth base64 header =
     (if \<not> starts_with header ''Basic '' then None
      else case base64 (drop 6 header) of
             None \<Rightarrow> None
           | Some bs \<Rightarrow> if utf8_valid bs then split_once (CHR '':'') (bytes_to_string bs) else None)"

definition developer_auth_middleware :: "auth_env \<Rightarrow> bool \<Rightarrow> 'r config \<Rightarrow> http_request \<Rightarrow> gate" where
  "developer_auth_middleware e dev_enabled c req =
     (if \<not> dev_enabled then Refuse 401 ''Developer mode is not enabled''
      else if c_local_auth_mode c = ''noPassword'' then Refuse 403 ''The resource is not available in noPassword mode''
      else case header_str req ''Authorization'' of
             None \<Rightarrow> Refuse 401 ''Basic auth is required''
           | Some h \<Rightarrow>
               (case extract_basic_auth (ae_base64 e) h of
                  None \<Rightarrow> Refuse 401 ''Basic auth is required''
                | Some (_, password) \<Rightarrow>
                    if validate_password e c password then Pass None else Refuse 401 ''Basic auth is required''))"

definition request_is_https :: "http_request \<Rightarrow> bool" where
  "request_is_https req =
     (hr_scheme req = Some ''https''
      \<or> (case header_str req ''X-Forwarded-Proto'' of Some s \<Rightarrow> eq_ignore_ascii_case s ''https'' | None \<Rightarrow> False))"

section \<open>Origin and referer\<close>

fun after_sub :: "string \<Rightarrow> string \<Rightarrow> string option" where
  "after_sub p [] = (if p = [] then Some [] else None)"
| "after_sub p (c # s) = (if prefix p (c # s) then Some (drop (length p) (c # s)) else after_sub p s)"

definition extract_host_authority :: "string \<Rightarrow> string" where
  "extract_host_authority s =
     (let t = trim s; after_scheme = (case after_sub ''://'' t of Some r \<Rightarrow> r | None \<Rightarrow> t)
      in takeWhile (\<lambda>c. c \<noteq> CHR ''/'') after_scheme)"

definition normalize_host_for_compare :: "string \<Rightarrow> string" where
  "normalize_host_for_compare s =
     (let t = trim s in
      case rsplit_once (CHR '':'') t of
        Some (host, port) \<Rightarrow> if port = ''80'' \<or> port = ''443'' then host else t
      | None \<Rightarrow> t)"

type_synonym http_error = "nat \<times> string"

definition host_matches :: "string \<Rightarrow> string option \<Rightarrow> bool" where
  "host_matches request_host_norm h =
     (case h of None \<Rightarrow> True
      | Some x \<Rightarrow> to_ascii_lowercase (normalize_host_for_compare (to_ascii_lowercase (extract_host_authority x)))
                  = request_host_norm)"

definition validate_setup_origin_referer :: "http_request \<Rightarrow> (http_error, unit) result" where
  "validate_setup_origin_referer req =
     (let request_host =
            (case header_str req ''Host'' of
               Some s \<Rightarrow> Some (to_ascii_lowercase (extract_host_authority s))
             | None \<Rightarrow> map_option (\<lambda>a. to_ascii_lowercase (extract_host_authority a)) (hr_authority req))
      in case request_host of
           None \<Rightarrow> Inl (403, ''Missing Host'')
         | Some h \<Rightarrow>
             if h = [] then Inl (403, ''Missing Host'')
             else let norm = to_ascii_lowercase (normalize_host_for_compare h)
                  in if \<not> host_matches norm (header_str req ''Origin'') then Inl (403, ''Origin not allowed'')
                     else if \<not> host_matches norm (header_str req ''Referer'') then Inl (403, ''Referer not allowed'')
                     else Inr ())"

section \<open>Handlers\<close>

record set_cookie =
  ck_name :: string
  ck_value :: string
  ck_max_age :: int
  ck_path :: string
  ck_http_only :: bool
  ck_secure :: bool
  ck_same_site :: string

record api_response =
  rs_message :: string
  rs_csrf_token :: "string option"
  rs_csrf_header :: "string option"
  rs_set_cookies :: "set_cookie list"

definition set_token :: "http_request \<Rightarrow> session_role \<Rightarrow> string \<Rightarrow> set_cookie" where
  "set_token req role auth_token =
     \<lparr>ck_name = cookie_name_for_role role, ck_value = auth_token, ck_max_age = 7 * 24 * 3600, ck_path = ''/'',
      ck_http_only = True, ck_secure = request_is_https req, ck_same_site = ''Strict''\<rparr>"

definition append_expired_cookie :: "string \<Rightarrow> bool \<Rightarrow> set_cookie" where
  "append_expired_cookie name secure =
     \<lparr>ck_name = name, ck_value = [], ck_max_age = - 1, ck_path = ''/'', ck_http_only = True, ck_secure = secure,
      ck_same_site = ''Strict''\<rparr>"

definition clear_token :: "session_role \<Rightarrow> set_cookie list" where
  "clear_token role = map (append_expired_cookie (cookie_name_for_role role)) [False, True]"

definition parse_client_type :: "string option \<Rightarrow> (string, session_role) result" where
  "parse_client_type raw =
     (case raw of
        None \<Rightarrow> Inr User
      | Some s \<Rightarrow>
          if s = [] then Inr User
          else case role_parse s of Some r \<Rightarrow> Inr r | None \<Rightarrow> Inl (''Invalid clientType: '' @ s))"

text \<open>The \<open>?\<close> of the handlers: an error ends the handler in the state reached.\<close>

definition and_then :: "('e, 'a) result \<times> 's \<Rightarrow> ('a \<Rightarrow> 's \<Rightarrow> ('e, 'b) result \<times> 's) \<Rightarrow> ('e, 'b) result \<times> 's" where
  "and_then x f = (case x of (Inl e, s) \<Rightarrow> (Inl e, s) | (Inr a, s) \<Rightarrow> f a s)"

definition or_status :: "nat \<Rightarrow> string \<Rightarrow> ('e, 'a) result \<times> 's \<Rightarrow> (http_error, 'a) result \<times> 's" where
  "or_status code brief x = (case x of (Inl _, s) \<Rightarrow> (Inl (code, brief), s) | (Inr a, s) \<Rightarrow> (Inr a, s))"

definition invalid_json :: "string \<Rightarrow> http_error" where
  "invalid_json e = (400, ''Invalid JSON: '' @ e)"

record login_request =
  lq_password :: string
  lq_client_type :: "string option"

definition handle_login_local ::
  "'r codec \<Rightarrow> auth_env \<Rightarrow> http_request \<Rightarrow> (string, login_request) result \<Rightarrow> 'r config_manager
     \<Rightarrow> (http_error, api_response) result \<times> 'r config_manager" where
  "handle_login_local cd e req body s =
     (case validate_setup_origin_referer req of Inl err \<Rightarrow> (Inl err, s) | Inr _ \<Rightarrow>
      if c_local_auth_mode (cm_config s) = ''noPassword'' then (Inl (400, ''Login is disabled in noPassword mode''), s)
      else case body of Inl err \<Rightarrow> (Inl (invalid_json err), s) | Inr rq \<Rightarrow>
      (case parse_client_type (lq_client_type rq) of Inl err \<Rightarrow> (Inl (400, err), s) | Inr role \<Rightarrow>
       if \<not> validate_password e (cm_config s) (lq_password rq) then (Inl (401, ''Invalid password''), s)
       else and_then (or_status 500 ''Failed to save configuration''
              (set_auth_token_for_role cd (ae_io e 0) e role (Some (ae_token e)) s)) (\<lambda>csrf s1.
            case csrf of None \<Rightarrow> (Inl (500, ''Failed to save configuration''), s1) | Some csrf_token \<Rightarrow>
            if stored_token role (cm_config s1) \<noteq> Some (ae_token e) then (Inl (500, ''Failed to save configuration''), s1)
            else (Inr \<lparr>rs_message = ''Login successful'', rs_csrf_token = Some csrf_token, rs_csrf_header = Some csrf_token,
                       rs_set_cookies = [set_token req role (ae_token e)]\<rparr>, s1))))"

definition handle_logout ::
  "'r codec \<Rightarrow> auth_env \<Rightarrow> http_request \<Rightarrow> session_role option \<Rightarrow> 'r config_manager
     \<Rightarrow> (http_error, api_response) result \<times> 'r config_manager" where
  "handle_logout cd e req depot_role s =
     (case validate_setup_origin_referer req of Inl err \<Rightarrow> (Inl err, s) | Inr _ \<Rightarrow>
      let role = (case depot_role of Some r \<Rightarrow> r | None \<Rightarrow> User)
      in and_then (or_status 500 ''Failed to save configuration''
           (set_auth_token_for_role cd (ae_io e 0) e role None s)) (\<lambda>_ s1.
         (Inr \<lparr>rs_message = ''Logout successful'', rs_csrf_token = None, rs_csrf_header = None,
               rs_set_cookies = clear_token role\<rparr>, s1)))"

definition with_new_token ::
  "string \<Rightarrow> string \<Rightarrow> http_request \<Rightarrow> auth_env \<Rightarrow> (config_error, string option) result \<times> 's
     \<Rightarrow> (api_response \<Rightarrow> 's \<Rightarrow> (http_error, 'b) result \<times> 's) \<Rightarrow> (http_error, 'b) result \<times> 's" where
  "with_new_token brief message req e x f =
     and_then (or_status 500 brief x) (\<lambda>csrf s1.
       case csrf of None \<Rightarrow> (Inl (500, brief), s1) | Some csrf_token \<Rightarrow>
       f \<lparr>rs_message = message, rs_csrf_token = Some csrf_token, rs_csrf_header = Some csrf_token,
          rs_set_cookies = [set_token req User (ae_token e)]\<rparr> s1)"

definition create_password_local ::
  "'r codec \<Rightarrow> auth_env \<Rightarrow> http_request \<Rightarrow> (string, string) result \<Rightarrow> 'r config_manager
     \<Rightarrow> (http_error, api_response) result \<times> 'r config_manager" where
  "create_password_local cd e req body s =
     (case validate_setup_origin_referer req of Inl err \<Rightarrow> (Inl err, s) | Inr _ \<Rightarrow>
      if c_hashed_password (cm_config s) \<noteq> None then (Inl (400, ''Password already set''), s)
      else if c_local_auth_mode (cm_config s) \<noteq> ''noPassword'' then (Inl (400, ''Password mode is not enabled''), s)
      else case body of Inl err \<Rightarrow> (Inl (invalid_json err), s) | Inr password \<Rightarrow>
      if password = [] then (Inl (400, ''Invalid request''), s)
      else case ae_hash e password of Inl _ \<Rightarrow> (Inl (500, ''Failed to hash password''), s) | Inr h \<Rightarrow>
      and_then (or_status 500 ''Failed to save password'' (set_hashed_password cd (ae_io e 0) (Some h) s)) (\<lambda>_ s1.
      with_new_token ''Failed to save configuration'' ''Password set successfully'' req e
        (set_auth_token_for_role cd (ae_io e 1) e User (Some (ae_token e)) s1) (\<lambda>resp s2.
      and_then (or_status 500 ''Failed to save configuration'' (set_auth_mode cd (ae_io e 2) ''password'' s2)) (\<lambda>_ s3.
      (Inr resp, s3)))))"

record change_password_request =
  cp_old_password :: string
  cp_new_password :: string

definition modify_password_local ::
  "'r codec \<Rightarrow> auth_env \<Rightarrow> http_request \<Rightarrow> (string, change_password_request) result \<Rightarrow> 'r config_manager
     \<Rightarrow> (http_error, api_response) result \<times> 'r config_manager" where
  "modify_password_local cd e req body s =
     (case validate_setup_origin_referer req of Inl err \<Rightarrow> (Inl err, s) | Inr _ \<Rightarrow>
      if c_hashed_password (cm_config s) = None then (Inl (400, ''Password is not set''), s)
      else if c_local_auth_mode (cm_config s) \<noteq> ''password'' then (Inl (400, ''Password mode is not enabled''), s)
      else case body of Inl err \<Rightarrow> (Inl (invalid_json err), s) | Inr rq \<Rightarrow>
      if cp_old_password rq = [] \<or> cp_new_password rq = [] then (Inl (400, ''Invalid request''), s)
      else if \<not> validate_password e (cm_config s) (cp_old_password rq) then (Inl (400, ''Incorrect old password''), s)
      else case ae_hash e (cp_new_password rq) of Inl _ \<Rightarrow> (Inl (500, ''Failed to hash new password''), s) | Inr h \<Rightarrow>
      and_then (or_status 500 ''Failed to save new password'' (set_hashed_password cd (ae_io e 0) (Some h) s)) (\<lambda>_ s1.
      with_new_token ''Failed to save configuration'' ''Password updated successfully'' req e
        (set_auth_token_for_role cd (ae_io e 1) e User (Some (ae_token e)) s1) (\<lambda>resp s2.
      (Inr resp, s2))))"

definition disable_local_password ::
  "'r codec \<Rightarrow> auth_env \<Rightarrow> http_request \<Rightarrow> (string, login_request) result \<Rightarrow> 'r config_manager
     \<Rightarrow> (http_error, api_response) result \<times> 'r config_manager" where
  "disable_local_password cd e req body s =
     (case validate_setup_origin_referer req of Inl err \<Rightarrow> (Inl err, s) | Inr _ \<Rightarrow>
      if c_hashed_password (cm_config s) = None then (Inl (400, ''Password is not set''), s)
      else if c_local_auth_mode (cm_config s) \<noteq> ''password'' then (Inl (400, ''Password mode is not enabled''), s)
      else case body of Inl err \<Rightarrow> (Inl (invalid_json err), s) | Inr rq \<Rightarrow>
      if lq_password rq = [] then (Inl (400, ''Invalid request''), s)
      else if \<not> validate_password e (cm_config s) (lq_password rq) then (Inl (400, ''Incorrect password''), s)
      else and_then (or_status 500 ''Failed to save configuration'' (set_hashed_password cd (ae_io e 0) None s)) (\<lambda>_ s1.
           and_then (or_status 500 ''Failed to save configuration'' (clear_all_auth_tokens cd (ae_io e 1) s1)) (\<lambda>_ s2.
           and_then (or_status 500 ''Failed to save configuration'' (set_auth_mode cd (ae_io e 2) ''noPassword'' s2)) (\<lambda>_ s3.
           (Inr \<lparr>rs_message = ''Password disabled successfully'', rs_csrf_token = None, rs_csrf_header = None,
                 rs_set_cookies = clear_token User @ clear_token Agent\<rparr>, s3)))))"

definition handle_device_status :: "http_request \<Rightarrow> 'r config_manager \<Rightarrow> (http_error, bool) result" where
  "handle_device_status req s =
     (case validate_setup_origin_referer req of Inl err \<Rightarrow> Inl err | Inr _ \<Rightarrow> Inr (\<not> is_setup_required (cm_config s)))"

definition handle_device :: "http_request \<Rightarrow> 'r config_manager \<Rightarrow> (http_error, string \<times> string \<times> bool) result" where
  "handle_device req s =
     (case validate_setup_origin_referer req of Inl err \<Rightarrow> Inl err | Inr _ \<Rightarrow>
      Inr (c_local_auth_mode (cm_config s), c_device_id (cm_config s), c_local_loopback_only (cm_config s)))"

section \<open>Setting the device up\<close>

record setup_request =
  sr_local_auth_mode :: string
  sr_password :: "string option"
  sr_auto_update :: "bool option"
  sr_microphone_emulation :: "bool option"
  sr_camera_emulation :: "bool option"
  sr_file_transfer :: "bool option"
  sr_audio_playback :: "bool option"

text \<open>
  What happens outside the store during set-up: starting the audio process, asking the update server,
  starting the virtual microphone, and the bus to the sidecar.
\<close>

record 's setup_env =
  su_start_audio :: "(string, unit) result"
  su_check_update :: "(string, unit) result"
  su_virtual_mic :: "(string, unit) result"
  su_send :: "apply_runtime_request \<Rightarrow> nat \<Rightarrow> nat \<Rightarrow> 's \<Rightarrow> (string, apply_runtime_response) result \<times> 's"

definition on_store ::
  "('r config_manager \<Rightarrow> (config_error, 'a) result \<times> 'r config_manager) \<Rightarrow> ('r, 's) usb_app
     \<Rightarrow> (config_error, 'a) result \<times> ('r, 's) usb_app" where
  "on_store f a = (case f (ua_store a) of (r, s) \<Rightarrow> (r, a\<lparr>ua_store := s\<rparr>))"

definition set_audio_playback ::
  "'r codec \<Rightarrow> io_env \<Rightarrow> 's setup_env \<Rightarrow> bool \<Rightarrow> ('r, 's) usb_app \<Rightarrow> (http_error, unit) result \<times> ('r, 's) usb_app" where
  "set_audio_playback cd io v enabled a =
     (let has_changed = (c_audio_playback (cm_config (ua_store a)) \<noteq> enabled)
      in and_then (or_status 500 ''Failed to config audio playback''
           (on_store (manager_update cd io (\<lambda>c. c\<lparr>c_audio_playback := enabled\<rparr>)) a)) (\<lambda>_ a1.
         if \<not> has_changed then (Inr (), a1)
         else if enabled then or_status 500 ''Failed to config audio playback'' (su_start_audio v, a1)
         else (Inr (), a1)))"

definition set_ui_switch ::
  "'r codec \<Rightarrow> io_env \<Rightarrow> bool \<Rightarrow> ('r, 's) usb_app \<Rightarrow> (http_error, unit) result \<times> ('r, 's) usb_app" where
  "set_ui_switch cd io hdmi_audio a =
     or_status 500 ''Failed to config ui switch''
       (on_store (manager_update cd io (\<lambda>c. c\<lparr>c_ui_hdmi_audio := hdmi_audio\<rparr>)) a)"

definition ota_set_auto_update ::
  "'r codec \<Rightarrow> io_env \<Rightarrow> 's setup_env \<Rightarrow> bool \<Rightarrow> ('r, 's) usb_app \<Rightarrow> (http_error, unit) result \<times> ('r, 's) usb_app" where
  "ota_set_auto_update cd io v enabled a =
     and_then (or_status 500 ''Failed to config auto update''
       (on_store (manager_update cd io (\<lambda>c. c\<lparr>c_auto_update_enabled := enabled\<rparr>)) a)) (\<lambda>_ a1.
     if enabled then or_status 500 ''Failed to config auto update'' (su_check_update v, a1) else (Inr (), a1))"

definition is_true :: "bool option \<Rightarrow> bool" where
  "is_true b = (case b of Some x \<Rightarrow> x | None \<Rightarrow> False)"

definition setup_devices ::
  "'r codec \<Rightarrow> auth_env \<Rightarrow> 's setup_env \<Rightarrow> setup_request \<Rightarrow> ('r, 's) usb_app \<Rightarrow> (http_error, unit) result \<times> ('r, 's) usb_app" where
  "setup_devices cd e v rq a =
     and_then (set_audio_playback cd (ae_io e 0) v (is_true (sr_audio_playback rq)) a) (\<lambda>_ a1.
     and_then (set_ui_switch cd (ae_io e 1) (is_true (sr_audio_playback rq)) a1) (\<lambda>_ a2.
     and_then (ota_set_auto_update cd (ae_io e 2) v (is_true (sr_auto_update rq)) a2) (\<lambda>_ a3.
     let devices = (c_usb_devices (cm_config (ua_store a3)))\<lparr>ud_camera := is_true (sr_camera_emulation rq),
                      ud_mass_storage_ft := is_true (sr_file_transfer rq)\<rparr>
     in and_then (or_status 500 ''Failed to save microphone emulation''
          (on_store (manager_update cd (ae_io e 3) (\<lambda>c. c\<lparr>c_microphone_emulation := Some (is_true (sr_microphone_emulation rq))\<rparr>)) a3))
          (\<lambda>_ a4.
        and_then (or_status 500 ''Failed to config usb devices''
          (reboot_usb_manager_with_reason cd (\<lambda>k. ae_io e (4 + k)) (su_send v) None (Some devices) a4)) (\<lambda>_ a5.
        if is_true (sr_microphone_emulation rq) then or_status 500 ''Failed to start virtual mic'' (su_virtual_mic v, a5)
        else (Inr (), a5))))))"

definition setup_auth ::
  "'r codec \<Rightarrow> auth_env \<Rightarrow> http_request \<Rightarrow> setup_request \<Rightarrow> ('r, 's) usb_app \<Rightarrow> (http_error, api_response) result \<times> ('r, 's) usb_app" where
  "setup_auth cd e req rq a =
     and_then (or_status 500 ''Failed to save config'' (on_store (set_auth_mode cd (ae_io e 6) (sr_local_auth_mode rq)) a)) (\<lambda>_ a1.
     let done = \<lparr>rs_message = ''Device setup completed successfully'', rs_csrf_token = None, rs_csrf_header = None,
                 rs_set_cookies = []\<rparr>
     in if sr_local_auth_mode rq = ''password''
        then case sr_password rq of
               None \<Rightarrow> (Inl (400, ''Password is required for password mode''), a1)
             | Some password \<Rightarrow>
                 if password = [] then (Inl (400, ''Password is required for password mode''), a1)
                 else case ae_hash e password of Inl _ \<Rightarrow> (Inl (500, ''Failed to hash password''), a1) | Inr h \<Rightarrow>
                 and_then (or_status 500 ''Failed to save password'' (on_store (set_hashed_password cd (ae_io e 7) (Some h)) a1)) (\<lambda>_ a2.
                 with_new_token ''Failed to save config'' ''Device setup completed successfully'' req e
                   (on_store (set_auth_token_for_role cd (ae_io e 8) e User (Some (ae_token e))) a2) (\<lambda>resp a3.
                 (Inr (resp\<lparr>rs_csrf_token := None\<rparr>), a3)))
        else and_then (or_status 500 ''Failed to save config'' (on_store (set_hashed_password cd (ae_io e 7) None) a1)) (\<lambda>_ a2.
             and_then (or_status 500 ''Failed to save config'' (on_store (clear_all_auth_tokens cd (ae_io e 8)) a2)) (\<lambda>_ a3.
             (Inr done, a3))))"

definition handle_device_setup ::
  "'r codec \<Rightarrow> auth_env \<Rightarrow> 's setup_env \<Rightarrow> http_request \<Rightarrow> (string, setup_request) result \<Rightarrow> ('r, 's) usb_app
     \<Rightarrow> (http_error, api_response) result \<times> ('r, 's) usb_app" where
  "handle_device_setup cd e v req body a =
     (case validate_setup_origin_referer req of Inl err \<Rightarrow> (Inl err, a) | Inr _ \<Rightarrow>
      if c_local_auth_mode (cm_config (ua_store a)) \<noteq> [] \<or> c_hashed_password (cm_config (ua_store a)) \<noteq> None
      then (Inl (400, ''Device is already set up''), a)
      else case body of Inl err \<Rightarrow> (Inl (400, ''Invalid request body: '' @ err), a) | Inr rq \<Rightarrow>
      if sr_local_auth_mode rq \<noteq> ''password'' \<and> sr_local_auth_mode rq \<noteq> ''noPassword''
      then (Inl (400, ''Invalid localAuthMode''), a)
      else and_then (setup_devices cd e v rq a) (\<lambda>_ a1. setup_auth cd e req rq a1))"

text \<open>
  The update of the configuration by \<^verbatim>\<open>reset_config\<close> of \<^verbatim>\<open>jsonrpc.rs\<close>; \<open>reset_rest\<close> resets the fields of
  the remainder (keyboard layout and file-transfer target).
\<close>

definition reset_config_update :: "('r \<Rightarrow> 'r \<Rightarrow> 'r) \<Rightarrow> 'r config \<Rightarrow> 'r config \<Rightarrow> 'r config" where
  "reset_config_update reset_rest d c = c\<lparr>c_auto_update_enabled := c_auto_update_enabled d, c_jiggler_config := c_jiggler_config d,
     c_jiggler_enabled := c_jiggler_enabled d, c_keyboard_macros := c_keyboard_macros d,
     c_audio_playback := c_audio_playback d, c_usb_devices := c_usb_devices d,
     c_display_max_brightness := c_display_max_brightness d, c_display_dim_after_sec := c_display_dim_after_sec d,
     c_display_off_after_sec := c_display_off_after_sec d, c_local_auth_mode := c_local_auth_mode d,
     c_hashed_password := c_hashed_password d, c_cloud_token := c_cloud_token d, c_owner_user_id := c_owner_user_id d,
     c_local_auth_token := c_local_auth_token d, c_dev_channel_enabled := c_dev_channel_enabled d,
     c_local_loopback_only := c_local_loopback_only d, c_microphone_emulation := c_microphone_emulation d,
     c_mcp_enabled := c_mcp_enabled d, c_ssh_forwarding_enabled := c_ssh_forwarding_enabled d,
     c_virtual_media_list := c_virtual_media_list d, c_rest := reset_rest (c_rest d) (c_rest c)\<rparr>"

section \<open>Requests to the authentication endpoints\<close>

datatype auth_endpoint =
    Login "(string, login_request) result"
  | Logout
  | CreatePassword "(string, string) result"
  | ModifyPassword "(string, change_password_request) result"
  | DisablePassword "(string, login_request) result"
  | Setup "(string, setup_request) result"

definition protected_call ::
  "auth_env \<Rightarrow> http_request \<Rightarrow> (session_role option \<Rightarrow> 'r config_manager \<Rightarrow> (http_error, api_response) result \<times> 'r config_manager)
     \<Rightarrow> ('r, 's) usb_app \<Rightarrow> (http_error, api_response) result \<times> ('r, 's) usb_app" where
  "protected_call e req h a =
     (case protected_chain (ae_now e) (cm_config (ua_store a)) req of
        Refuse code msg \<Rightarrow> (Inl (code, msg), a)
      | Pass role \<Rightarrow> (case h role (ua_store a) of (r, s) \<Rightarrow> (r, a\<lparr>ua_store := s\<rparr>)))"

text \<open>The public and the protected router, as far as they lead to these handlers.\<close>

fun web_step ::
  "'r codec \<Rightarrow> auth_env \<Rightarrow> 's setup_env \<Rightarrow> http_request \<Rightarrow> auth_endpoint \<Rightarrow> ('r, 's) usb_app
     \<Rightarrow> (http_error, api_response) result \<times> ('r, 's) usb_app" where
  "web_step cd e v req (Login body) a =
     (case handle_login_local cd e req body (ua_store a) of (r, s) \<Rightarrow> (r, a\<lparr>ua_store := s\<rparr>))"
| "web_step cd e v req (Setup body) a = handle_device_setup cd e v req body a"
| "web_step cd e v req Logout a = protected_call e req (\<lambda>role. handle_logout cd e req role) a"
| "web_step cd e v req (CreatePassword body) a = protected_call e req (\<lambda>_. create_password_local cd e req body) a"
| "web_step cd e v req (ModifyPassword body) a = protected_call e req (\<lambda>_. modify_password_local cd e req body) a"
| "web_step cd e v req (DisablePassword body) a = protected_call e req (\<lambda>_. disable_local_password cd e req body) a"

fun web_run ::
  "'r codec \<Rightarrow> (auth_env \<times> 's setup_env \<times> http_request \<times> auth_endpoint) list \<Rightarrow> ('r, 's) usb_app \<Rightarrow> ('r, 's) usb_app" where
  "web_run cd [] a = a"
| "web_run cd ((e, v, req, ep) # rs) a = web_run cd rs (snd (web_step cd e v req ep a))"

section \<open>What authentication depends on\<close>

definition slot :: "session_role \<Rightarrow> 'r config \<Rightarrow> string option \<times> string option \<times> int option" where
  "slot r c = (stored_token r c, get_csrf_token_for_role r c, token_expires_at r c)"

definition auth_part :: "'r config \<Rightarrow> string \<times> string option \<times> (session_role \<Rightarrow> string option \<times> string option \<times> int option)" where
  "auth_part c = (c_local_auth_mode c, c_hashed_password c, (\<lambda>r. slot r c))"

lemma auth_part_eqI:
  assumes "c_local_auth_mode c = c_local_auth_mode c'" and "c_hashed_password c = c_hashed_password c'"
    and "slot User c = slot User c'" and "slot Agent c = slot Agent c'"
  shows "auth_part c = auth_part c'"
proof -
  have "slot r c = slot r c'" for r using assms(3,4) by (cases r) simp_all
  with assms(1,2) show ?thesis by (simp add: auth_part_def)
qed

lemma auth_part_fields:
  assumes "auth_part c = auth_part c'"
  shows "c_local_auth_mode c = c_local_auth_mode c'" "c_hashed_password c = c_hashed_password c'"
    "stored_token r c = stored_token r c'" "get_csrf_token_for_role r c = get_csrf_token_for_role r c'"
    "token_expires_at r c = token_expires_at r c'" "slot r c = slot r c'"
  using assms by (auto simp: auth_part_def slot_def fun_eq_iff)

lemma update_auth_part: "auth_part (cm_config (snd (manager_update cd io f s))) = auth_part (f (cm_config s))"
proof -
  obtain ms where "cm_config (snd (manager_update cd io f s)) = (f (cm_config s))\<lparr>c_keyboard_macros := ms\<rparr>"
    using manager_update_frame by blast
  then show ?thesis by (intro auth_part_eqI) (simp_all add: slot_def)
qed

lemma put_slot_fields [simp]:
  "c_local_auth_mode (put_slot r t x y c) = c_local_auth_mode c" "c_hashed_password (put_slot r t x y c) = c_hashed_password c"
  "slot r' (put_slot r t x y c) = (if r' = r then (t, x, y) else slot r' c)"
  by (cases r; cases r'; simp add: slot_def)+

declare put_slot.simps [simp del]

lemma validators_cong:
  assumes "auth_part c = auth_part c'"
  shows "open_mode c = open_mode c'" "validate_auth_token_for_role now c r tok = validate_auth_token_for_role now c' r tok"
    "validate_csrf_token_for_role now c r tok = validate_csrf_token_for_role now c' r tok"
    "validate_password e c pw = validate_password e c' pw"
  by (simp_all add: open_mode_def validate_auth_token_for_role_def validate_csrf_token_for_role_def validate_password_def
      auth_part_fields [OF assms])

lemma protected_chain_cong:
  assumes "auth_part c = auth_part c'"
  shows "protected_chain now c req = protected_chain now c' req"
  unfolding protected_chain_def auth_middleware_def csrf_middleware_def validators_cong [OF assms] by (rule refl)

definition agent_allowed :: "http_request \<Rightarrow> bool" where
  "agent_allowed req = (\<not> starts_with (hr_path req) ''/cloud/''
     \<and> (starts_with (hr_path req) ''/auth/'' \<longrightarrow> hr_method req = ''POST'' \<and> hr_path req = ''/auth/logout''))"

definition carries :: "int \<Rightarrow> 'r config \<Rightarrow> session_role \<Rightarrow> http_request \<Rightarrow> bool" where
  "carries now c role req =
     (\<exists>tok t. req_cookie req (cookie_name_for_role role) = Some tok
        \<and> req_cookie req (cookie_name_for_role (other_role role)) = None
        \<and> tok \<noteq> [] \<and> stored_token role c = Some tok \<and> token_expires_at role c = Some t \<and> now < t)"

lemma auth_middleware_pass:
  assumes "\<not> open_mode c"
  shows "auth_middleware now c req = Pass r \<longleftrightarrow> (\<exists>role. r = Some role \<and> carries now c role req)"
proof -
  have all: "(\<exists>role. r = Some role \<and> P role) \<longleftrightarrow> (r = Some User \<and> P User) \<or> (r = Some Agent \<and> P Agent)" for P
    by (metis session_role.exhaust)
  show ?thesis
    using assms unfolding all
    by (auto simp: auth_middleware_def carries_def validate_auth_token_for_role_def not_expired_def token_matches_def
        split: option.splits if_splits)
qed

lemma role_acl_pass: "role_acl_middleware r req = Pass r' \<longleftrightarrow> r' = r \<and> (r = Some Agent \<longrightarrow> agent_allowed req)"
  by (auto simp: role_acl_middleware_def agent_allowed_def)

lemma then_gate_pass: "then_gate g f = Pass r \<longleftrightarrow> (\<exists>r'. g = Pass r' \<and> f r' = Pass r)"
  by (cases g) simp_all

lemma csrf_pass:
  assumes "\<not> open_mode c"
  shows "csrf_middleware now c (Some role) req = Pass r \<longleftrightarrow>
    r = Some role \<and> presented_csrf req \<noteq> [] \<and> get_csrf_token_for_role role c = Some (presented_csrf req)
    \<and> not_expired (token_expires_at role c) now"
  using assms by (auto simp: csrf_middleware_def validate_csrf_token_for_role_def token_matches_def split: option.splits)

lemma protected_pass:
  assumes "\<not> open_mode c"
  shows "protected_chain now c req = Pass r \<longleftrightarrow>
    (\<exists>role. r = Some role \<and> carries now c role req \<and> presented_csrf req \<noteq> []
       \<and> get_csrf_token_for_role role c = Some (presented_csrf req) \<and> (role = Agent \<longrightarrow> agent_allowed req))"
proof -
  have e: "not_expired (token_expires_at role c) now" if "carries now c role req" for role
    using that by (auto simp: carries_def not_expired_def)
  have "protected_chain now c req = Pass r \<longleftrightarrow>
      (\<exists>role. carries now c role req \<and> csrf_middleware now c (Some role) req = Pass r \<and> (r = Some Agent \<longrightarrow> agent_allowed req))"
    unfolding protected_chain_def then_gate_pass auth_middleware_pass [OF assms] role_acl_pass by blast
  then show ?thesis unfolding csrf_pass [OF assms] using e by blast
qed

lemma protected_pass_role:
  assumes "\<not> open_mode c"
  shows "protected_chain now c req = Pass (Some role) \<longleftrightarrow>
    carries now c role req \<and> presented_csrf req \<noteq> []
       \<and> get_csrf_token_for_role role c = Some (presented_csrf req) \<and> (role = Agent \<longrightarrow> agent_allowed req)"
  by (simp add: protected_pass [OF assms])

lemma file_pass:
  assumes "\<not> open_mode c"
  shows "file_chain now c req = Pass r \<longleftrightarrow>
    (\<exists>role. r = Some role \<and> carries now c role req \<and> (role = Agent \<longrightarrow> agent_allowed req))"
  using assms by (auto simp: file_chain_def then_gate_pass auth_middleware_pass role_acl_pass)

section \<open>Who gets in\<close>

text \<open>
  C30: Access to a protected route in password mode. A request passes exactly if it carries the
  cookie of one role and not that of the other, the cookie is that role's stored token and has not
  expired, the presented CSRF token is that role's, and, for the agent, the route is not one of the
  cloud and authentication routes other than logging out; it is then bound to that role.
\<close>

theorem protected_access_iff:
  assumes "c_local_auth_mode c \<noteq> []" and "c_local_auth_mode c \<noteq> ''noPassword''"
  shows "protected_chain now c req = Pass r \<longleftrightarrow>
    (\<exists>role tok t. r = Some role
       \<and> req_cookie req (cookie_name_for_role role) = Some tok \<and> req_cookie req (cookie_name_for_role (other_role role)) = None
       \<and> tok \<noteq> [] \<and> stored_token role c = Some tok \<and> token_expires_at role c = Some t \<and> now < t
       \<and> presented_csrf req \<noteq> [] \<and> get_csrf_token_for_role role c = Some (presented_csrf req)
       \<and> (role = Agent \<longrightarrow> agent_allowed req))"
  using assms protected_pass [of c now req r] by (auto simp: open_mode_def carries_def)

lemma set_auth_token_cases:
  assumes "set_auth_token_for_role cd io e role token s = (r, s')"
  shows "auth_part (cm_config s') = auth_part (put_slot role token (if token \<noteq> None then Some (ae_csrf e) else None)
           (if token \<noteq> None then Some (ae_now e + AUTH_TOKEN_VALIDITY_SECS) else None) (cm_config s))
       \<and> (\<forall>x. r = Inr x \<longrightarrow> x = (if token \<noteq> None then Some (ae_csrf e) else None))"
proof -
  let ?f = "put_slot role token (if token \<noteq> None then Some (ae_csrf e) else None)
     (if token \<noteq> None then Some (ae_now e + AUTH_TOKEN_VALIDITY_SECS) else None)"
  obtain q s1 where "manager_update cd io ?f s = (q, s1)" by (rule prod.exhaust)
  with assms update_auth_part [of cd io ?f s] show ?thesis
    by (cases q) (auto simp: set_auth_token_for_role_def Let_def)
qed

text \<open>What a successful login leaves in the store.\<close>

lemma login_success:
  assumes "handle_login_local cd e req (Inr rq) s = (Inr resp, s')"
  obtains role where "parse_client_type (lq_client_type rq) = Inr role" "validate_password e (cm_config s) (lq_password rq)"
    "rs_set_cookies resp = [set_token req role (ae_token e)]" "rs_csrf_token resp = Some (ae_csrf e)"
    "auth_part (cm_config s') = auth_part (put_slot role (Some (ae_token e)) (Some (ae_csrf e))
       (Some (ae_now e + AUTH_TOKEN_VALIDITY_SECS)) (cm_config s))"
    "c_local_auth_mode (cm_config s) \<noteq> ''noPassword''"
proof -
  obtain role where role: "parse_client_type (lq_client_type rq) = Inr role" "validate_password e (cm_config s) (lq_password rq)"
    "c_local_auth_mode (cm_config s) \<noteq> ''noPassword''" "validate_setup_origin_referer req = Inr ()"
    using assms by (auto simp: handle_login_local_def split: sum.splits if_splits)
  obtain q s1 where q: "set_auth_token_for_role cd (ae_io e 0) e role (Some (ae_token e)) s = (q, s1)" by (rule prod.exhaust)
  from assms role q have "s' = s1 \<and> rs_set_cookies resp = [set_token req role (ae_token e)] \<and> q = Inr (rs_csrf_token resp)"
    by (auto simp: handle_login_local_def and_then_def or_status_def split: sum.splits if_splits option.splits)
  with set_auth_token_cases [OF q] role that show thesis by auto
qed

text \<open>
  C32: A login opens the protected routes for a week, and for its role only. After a successful
  login on a device that has been set up, a request with the cookie and the CSRF token of the
  response (and no cookie of the other role) passes, for routes open to the role, exactly until the
  token expires; the other role's token is what it was.
\<close>

theorem login_grants_access:
  assumes "handle_login_local cd e req (Inr rq) s = (Inr resp, s')" and "c_local_auth_mode (cm_config s) \<noteq> []"
    and "ae_token e \<noteq> []" and "ae_csrf e \<noteq> []"
  shows "\<exists>role cookie. parse_client_type (lq_client_type rq) = Inr role \<and> rs_set_cookies resp = [cookie]
    \<and> slot (other_role role) (cm_config s') = slot (other_role role) (cm_config s)
    \<and> (\<forall>req2 now. req_cookie req2 (ck_name cookie) = Some (ck_value cookie)
         \<and> req_cookie req2 (cookie_name_for_role (other_role role)) = None
         \<and> rs_csrf_token resp = Some (presented_csrf req2) \<and> (role = Agent \<longrightarrow> agent_allowed req2) \<longrightarrow>
           (protected_chain now (cm_config s') req2 = Pass (Some role)) = (now < ae_now e + 604800))"
proof -
  obtain role where l: "parse_client_type (lq_client_type rq) = Inr role" "rs_set_cookies resp = [set_token req role (ae_token e)]"
    "rs_csrf_token resp = Some (ae_csrf e)" "c_local_auth_mode (cm_config s) \<noteq> ''noPassword''"
    and part: "auth_part (cm_config s') = auth_part (put_slot role (Some (ae_token e)) (Some (ae_csrf e))
       (Some (ae_now e + AUTH_TOKEN_VALIDITY_SECS)) (cm_config s))"
    using login_success [OF assms(1)] by metis
  have sl: "slot role (cm_config s') = (Some (ae_token e), Some (ae_csrf e), Some (ae_now e + 604800))"
    "slot (other_role role) (cm_config s') = slot (other_role role) (cm_config s)"
    unfolding auth_part_fields(6) [OF part] put_slot_fields by (cases role; simp add: AUTH_TOKEN_VALIDITY_SECS_def)+
  have "\<not> open_mode (cm_config s')" using auth_part_fields(1) [OF part] l(4) assms(2) by (simp add: open_mode_def)
  then have "(protected_chain now (cm_config s') req2 = Pass (Some role)) = (now < ae_now e + 604800)"
    if "req_cookie req2 (cookie_name_for_role role) = Some (ae_token e)"
      "req_cookie req2 (cookie_name_for_role (other_role role)) = None"
      "rs_csrf_token resp = Some (presented_csrf req2)" "role = Agent \<longrightarrow> agent_allowed req2" for req2 now
    using that sl(1) assms(3,4) l(3) by (simp add: protected_pass_role carries_def slot_def)
  with l sl(2) show ?thesis by (auto simp: set_token_def)
qed

text \<open>
  Logging out closes one role. After a successful log-out of a role no request is bound to that
  role any more, on protected routes and on file routes, whatever it carries and at any time; what
  the other role can reach is unchanged.
\<close>

theorem logout_revokes:
  assumes "handle_logout cd e req (Some role) s = (Inr resp, s')" and "\<not> open_mode (cm_config s)"
  shows "protected_chain now (cm_config s') req2 \<noteq> Pass (Some role) \<and> file_chain now (cm_config s') req2 \<noteq> Pass (Some role)
    \<and> (protected_chain now (cm_config s') req2 = Pass (Some (other_role role))
         \<longleftrightarrow> protected_chain now (cm_config s) req2 = Pass (Some (other_role role)))
    \<and> \<not> open_mode (cm_config s')"
proof -
  obtain q s1 where q: "set_auth_token_for_role cd (ae_io e 0) e role None s = (q, s1)" by (rule prod.exhaust)
  with assms(1) have "s' = s1"
    by (auto simp: handle_logout_def and_then_def or_status_def Let_def split: sum.splits)
  with set_auth_token_cases [OF q] have part: "auth_part (cm_config s') = auth_part (put_slot role None None None (cm_config s))"
    by simp
  have o: "\<not> open_mode (cm_config s')" using auth_part_fields(1) [OF part] assms(2) by (simp add: open_mode_def)
  have "slot role (cm_config s') = (None, None, None)" "slot (other_role role) (cm_config s') = slot (other_role role) (cm_config s)"
    unfolding auth_part_fields(6) [OF part] put_slot_fields by (cases role; simp)+
  then show ?thesis
    by (simp add: o protected_pass_role [OF o] protected_pass_role [OF assms(2)] file_pass [OF o] carries_def slot_def)
qed

section \<open>What it takes to change anything\<close>

text \<open>
  What a request has to know, said without the checks of the server: the stored token of a role,
  not expired, with that role's CSRF token; or, to log in, a password that the hash library accepts
  for the stored hash.
\<close>

definition credentialed :: "'r config \<Rightarrow> auth_env \<Rightarrow> http_request \<Rightarrow> auth_endpoint \<Rightarrow> bool" where
  "credentialed c e req ep =
     ((\<exists>role tok t. req_cookie req (cookie_name_for_role role) = Some tok \<and> stored_token role c = Some tok
         \<and> token_expires_at role c = Some t \<and> ae_now e < t \<and> get_csrf_token_for_role role c = Some (presented_csrf req))
      \<or> (\<exists>rq h. ep = Login (Inr rq) \<and> c_hashed_password c = Some h \<and> ae_verify e (lq_password rq) h = Inr True))"

lemma login_no_password:
  assumes "\<And>rq. body = Inr rq \<Longrightarrow> \<not> validate_password e (cm_config s) (lq_password rq)"
  shows "snd (handle_login_local cd e req body s) = s \<and> \<not> is_ok (fst (handle_login_local cd e req body s))"
  using assms by (auto simp: handle_login_local_def split: sum.splits)

lemma setup_when_set_up:
  assumes "c_local_auth_mode (cm_config (ua_store a)) \<noteq> []"
  shows "snd (handle_device_setup cd e v req body a) = a \<and> \<not> is_ok (fst (handle_device_setup cd e v req body a))"
  using assms by (auto simp: handle_device_setup_def split: sum.splits)

lemma protected_call_refused:
  assumes "\<And>r. protected_chain (ae_now e) (cm_config (ua_store a)) req \<noteq> Pass r"
  shows "snd (protected_call e req h a) = a \<and> \<not> is_ok (fst (protected_call e req h a))"
  using assms by (auto simp: protected_call_def split: gate.splits)

lemma uncredentialed_step:
  assumes "\<not> open_mode (cm_config (ua_store a))" and "\<not> credentialed (cm_config (ua_store a)) e req ep"
  shows "snd (web_step cd e v req ep a) = a \<and> \<not> is_ok (fst (web_step cd e v req ep a))"
proof -
  have "protected_chain (ae_now e) (cm_config (ua_store a)) req \<noteq> Pass r" for r
    using assms(2) protected_pass [OF assms(1), of "ae_now e" req r] unfolding credentialed_def carries_def by blast
  note p = protected_call_refused [OF this]
  show ?thesis
  proof (cases ep)
    case (Login body)
    from Login assms(2) have "snd (handle_login_local cd e req body (ua_store a)) = ua_store a
        \<and> \<not> is_ok (fst (handle_login_local cd e req body (ua_store a)))"
      by (intro login_no_password) (auto simp: credentialed_def validate_password_def split: option.splits sum.splits)
    with Login show ?thesis by (simp add: split_beta)
  next
    case (Setup body)
    with setup_when_set_up [of a cd e v req body] assms(1) show ?thesis by (simp add: open_mode_def)
  qed (simp_all add: p)
qed

lemma uncredentialed_run:
  assumes "\<not> open_mode (cm_config (ua_store a))"
    and "\<forall>(e, v, req, ep) \<in> set rs. \<not> credentialed (cm_config (ua_store a)) e req ep"
  shows "web_run cd rs a = a"
  using assms(2)
proof (induction rs)
  case (Cons x rs)
  obtain e v req ep where x: "x = (e, v, req, ep)" by (metis prod.exhaust)
  with Cons uncredentialed_step [OF assms(1), of e req ep cd v] show ?case by auto
qed simp

text \<open>
  C31: Without credentials nothing changes. In password mode, any sequence of requests to the
  endpoints that log in, log out, create, change or disable the password or set the device up, none
  of which carries a role's stored and unexpired token with its CSRF token or, to log in, a password
  that verifies against the stored hash, leaves store, client and sidecar exactly as they were, and
  every one of them is answered with an error.
\<close>

theorem no_credentials_no_change:
  assumes "c_local_auth_mode (cm_config (ua_store a)) \<noteq> []" "c_local_auth_mode (cm_config (ua_store a)) \<noteq> ''noPassword''"
    and "\<forall>(e, v, req, ep) \<in> set rs. \<not> credentialed (cm_config (ua_store a)) e req ep"
  shows "web_run cd rs a = a \<and> (\<forall>(e, v, req, ep) \<in> set rs. \<not> is_ok (fst (web_step cd e v req ep a)))"
proof -
  have o: "\<not> open_mode (cm_config (ua_store a))" using assms(1,2) by (simp add: open_mode_def)
  from uncredentialed_run [OF o assms(3)] uncredentialed_step [OF o] assms(3) show ?thesis by fast
qed

section \<open>Set-up\<close>

lemma and_then_inv:
  assumes "P (snd x)" and "\<And>r s. fst x = Inr r \<Longrightarrow> P s \<Longrightarrow> P (snd (f r s))"
  shows "P (snd (and_then x f))"
  using assms by (cases x; cases "fst x") (auto simp: and_then_def)

lemma and_then_error:
  assumes "fst (and_then x f) = Inl err"
  shows "fst x = Inl err \<or> (\<exists>r. fst x = Inr r \<and> fst (f r (snd x)) = Inl err)"
  using assms by (cases x; cases "fst x") (auto simp: and_then_def)

lemma or_status_simps [simp]:
  "snd (or_status code brief x) = snd x" "fst (or_status code brief x) = Inl err \<longleftrightarrow> \<not> is_ok (fst x) \<and> err = (code, brief)"
  by (cases x; cases "fst x"; auto simp: or_status_def)+

definition same_auth :: "'r config \<Rightarrow> ('r, 's) usb_app \<Rightarrow> bool" where
  "same_auth c a = (auth_part (cm_config (ua_store a)) = auth_part c)"

lemma on_store_same_auth:
  assumes "same_auth c a" and "\<And>x. auth_part (f x) = auth_part x"
  shows "same_auth c (snd (on_store (manager_update cd io f) a))"
  using assms update_auth_part [of cd io f "ua_store a"] by (simp add: same_auth_def on_store_def split_beta)

lemma usb_updates_auth:
  "auth_part (cm_config (snd (set_usb_devices cd io d s))) = auth_part (cm_config s)"
  "auth_part (cm_config (snd (set_usb_config cd io uc s))) = auth_part (cm_config s)"
  unfolding set_usb_devices_def set_usb_config_def update_auth_part
  by (intro auth_part_eqI; simp add: slot_def)+

lemma reboot_same_auth:
  assumes "same_auth c a"
  shows "same_auth c (snd (reboot_usb_manager_with_reason cd io send uc dev a))"
  using assms unfolding reboot_usb_manager_with_reason_def Let_def same_auth_def
  by (simp add: split_beta usb_updates_auth split: sum.split)

lemma auth_part_other [simp]:
  "auth_part (c\<lparr>c_audio_playback := b\<rparr>) = auth_part c" "auth_part (c\<lparr>c_ui_hdmi_audio := b\<rparr>) = auth_part c"
  "auth_part (c\<lparr>c_auto_update_enabled := b\<rparr>) = auth_part c" "auth_part (c\<lparr>c_microphone_emulation := m\<rparr>) = auth_part c"
  by (intro auth_part_eqI; simp add: slot_def)+

lemma setup_steps_same_auth:
  assumes "same_auth c a"
  shows "same_auth c (snd (set_audio_playback cd io v b a))" "same_auth c (snd (set_ui_switch cd io b a))"
    "same_auth c (snd (ota_set_auto_update cd io v b a))"
  unfolding set_audio_playback_def set_ui_switch_def ota_set_auto_update_def Let_def
  by (auto intro!: and_then_inv [where P = "same_auth c"] on_store_same_auth assms)

lemma setup_devices_same_auth: "same_auth (cm_config (ua_store a)) (snd (setup_devices cd e v rq a))"
proof -
  have "same_auth (cm_config (ua_store a)) a" by (simp add: same_auth_def)
  then show ?thesis
    unfolding setup_devices_def Let_def
    by (intro and_then_inv [where P = "same_auth (cm_config (ua_store a))"])
       (auto intro!: setup_steps_same_auth on_store_same_auth reboot_same_auth)
qed

lemma setup_devices_error: "fst (setup_devices cd e v rq a) = Inl (code, brief) \<Longrightarrow> code = 500"
  unfolding setup_devices_def set_audio_playback_def set_ui_switch_def ota_set_auto_update_def Let_def
  by (auto dest!: and_then_error split: if_splits)

definition locked_out :: "'r config \<Rightarrow> bool" where
  "locked_out c = (c_local_auth_mode c = ''password'' \<and> c_hashed_password c = None
     \<and> stored_token User c = None \<and> stored_token Agent c = None)"

lemma locked_out_uncredentialed: "locked_out c \<Longrightarrow> \<not> open_mode c \<and> \<not> credentialed c e req ep"
proof -
  assume l: "locked_out c"
  then have o: "\<not> open_mode c" by (simp add: locked_out_def open_mode_def)
  have "stored_token r c = None" for r using l by (cases r) (simp_all add: locked_out_def)
  with l o \<open>\<And>r. stored_token r c = None\<close> show ?thesis by (auto simp: credentialed_def locked_out_def)
qed

lemma and_then_step: "and_then (or_status code brief (Inr r, s)) f = f r s"
  by (simp add: and_then_def or_status_def)

lemma and_then_Inr [simp]: "and_then (Inr r, s) f = f r s"
  by (simp add: and_then_def)

lemma with_new_token_error:
  assumes "fst (with_new_token brief msg req e x f) = Inl (code, m)"
  shows "code = 500 \<or> (\<exists>resp s1. fst (f resp s1) = Inl (code, m))"
  using assms unfolding with_new_token_def by (auto dest!: and_then_error split: option.splits)

lemma setup_auth_missing:
  assumes "fst (setup_auth cd e req rq a) = Inl (400, msg)"
  shows "c_local_auth_mode (cm_config (ua_store (snd (setup_auth cd e req rq a)))) = ''password''
    \<and> c_hashed_password (cm_config (ua_store (snd (setup_auth cd e req rq a)))) = c_hashed_password (cm_config (ua_store a))
    \<and> (\<forall>r. slot r (cm_config (ua_store (snd (setup_auth cd e req rq a)))) = slot r (cm_config (ua_store a)))"
proof -
  let ?mode = "on_store (set_auth_mode cd (ae_io e 6) (sr_local_auth_mode rq)) a"
  let ?c = "(cm_config (ua_store a))\<lparr>c_local_auth_mode := sr_local_auth_mode rq\<rparr>"
  have p: "auth_part (cm_config (ua_store (snd ?mode))) = auth_part ?c"
    by (simp add: on_store_def set_auth_mode_def split_beta update_auth_part)
  have "sr_local_auth_mode rq = ''password'' \<and> snd (setup_auth cd e req rq a) = snd ?mode"
  proof -
    obtain r a1 where m: "?mode = (r, a1)" by (rule prod.exhaust)
    with assms have "is_ok r" by (cases r) (auto simp: setup_auth_def and_then_def or_status_def)
    then have r: "r = Inr ()" by (cases r) simp_all
    from assms show ?thesis
      unfolding setup_auth_def m r
      by (auto simp: Let_def and_then_step dest!: and_then_error with_new_token_error split: if_splits option.splits sum.splits)
  qed
  moreover have "slot r ?c = slot r (cm_config (ua_store a))" for r by (cases r) (simp_all add: slot_def)
  ultimately show ?thesis using auth_part_fields [OF p] by simp
qed

text \<open>
  A set-up request that asks for password mode and gives no password, or an empty one, locks the
  device. It is answered with an error, but the mode has already been stored: from then on no
  request to log in, to set the device up or to manage the password succeeds or changes anything,
  although no password exists.
\<close>

theorem setup_lockout:
  assumes "handle_device_setup cd e v req (Inr rq) a = (Inl (400, ''Password is required for password mode''), a')"
    and "stored_token User (cm_config (ua_store a)) = None" and "stored_token Agent (cm_config (ua_store a)) = None"
  shows "c_local_auth_mode (cm_config (ua_store a')) = ''password'' \<and> c_hashed_password (cm_config (ua_store a')) = None
    \<and> web_run cd rs a' = a' \<and> \<not> is_ok (fst (web_step cd e2 v2 req2 ep a'))"
proof -
  let ?d = "setup_devices cd e v rq a" and ?c = "cm_config (ua_store a)"
  have g: "c_hashed_password ?c = None" "c_local_auth_mode ?c = []"
    "and_then ?d (\<lambda>_ a1. setup_auth cd e req rq a1) = (Inl (400, ''Password is required for password mode''), a')"
    using assms(1) by (auto simp: handle_device_setup_def validate_setup_origin_referer_def Let_def
        split: sum.splits if_splits option.splits)
  have "fst ?d \<noteq> Inl (400, ''Password is required for password mode'')" using setup_devices_error by fastforce
  with g(3) obtain a1 where a1: "?d = (Inr (), a1)" "setup_auth cd e req rq a1 = (Inl (400, ''Password is required for password mode''), a')"
    by (cases ?d; cases "fst ?d") (auto simp: and_then_def)
  from setup_devices_same_auth [of a cd e v rq] a1(1) have s: "auth_part (cm_config (ua_store a1)) = auth_part ?c"
    by (simp add: same_auth_def)
  have m: "c_local_auth_mode (cm_config (ua_store a')) = ''password''" "c_hashed_password (cm_config (ua_store a')) = None"
    "slot r (cm_config (ua_store a')) = slot r ?c" for r
    using setup_auth_missing [of cd e req rq a1] a1(2) g(1) auth_part_fields(2,6) [OF s] by simp_all
  have "locked_out (cm_config (ua_store a'))"
    using m(1,2) m(3) [of User] m(3) [of Agent] assms(2,3) by (simp add: locked_out_def slot_def)
  note l = locked_out_uncredentialed [OF this]
  from uncredentialed_run [of a' rs cd] uncredentialed_step [of a' e2 req2 ep cd v2] l m show ?thesis by auto
qed

lemma with_new_token_ok:
  assumes "with_new_token brief msg req e x f = (Inr r, s)"
  obtains csrf resp s1 where "x = (Inr (Some csrf), s1)" "f resp s1 = (Inr r, s)"
  using assms by (cases x; cases "fst x") (auto simp: with_new_token_def and_then_def or_status_def split: option.splits)

text \<open>
  A new password does not end the agent's session. After a successful change of the password the
  user's old token is replaced, but the agent's token, obtained with the old password, still opens
  what it opened before, until it expires.
\<close>

theorem password_change_keeps_agent:
  assumes "modify_password_local cd e req (Inr rq) s = (Inr resp, s')"
  shows "stored_token User (cm_config s') = Some (ae_token e)
    \<and> slot Agent (cm_config s') = slot Agent (cm_config s)
    \<and> (protected_chain now (cm_config s) req2 = Pass (Some Agent) \<longrightarrow> protected_chain now (cm_config s') req2 = Pass (Some Agent))"
proof -
  obtain h where h: "ae_hash e (cp_new_password rq) = Inr h" "c_local_auth_mode (cm_config s) = ''password''"
    "and_then (or_status 500 ''Failed to save new password'' (set_hashed_password cd (ae_io e 0) (Some h) s)) (\<lambda>_ s1.
      with_new_token ''Failed to save configuration'' ''Password updated successfully'' req e
        (set_auth_token_for_role cd (ae_io e 1) e User (Some (ae_token e)) s1) (\<lambda>resp s2. (Inr resp, s2))) = (Inr resp, s')"
    using assms by (auto simp: modify_password_local_def split: sum.splits if_splits)
  obtain s1 where s1: "set_hashed_password cd (ae_io e 0) (Some h) s = (Inr (), s1)"
    "with_new_token ''Failed to save configuration'' ''Password updated successfully'' req e
        (set_auth_token_for_role cd (ae_io e 1) e User (Some (ae_token e)) s1) (\<lambda>resp s2. (Inr resp, s2)) = (Inr resp, s')"
    using h(3) by (cases "set_hashed_password cd (ae_io e 0) (Some h) s") (auto simp: and_then_def or_status_def split: sum.splits)
  obtain csrf where t: "set_auth_token_for_role cd (ae_io e 1) e User (Some (ae_token e)) s1 = (Inr (Some csrf), s')"
    using with_new_token_ok [OF s1(2)] by auto
  have p1: "auth_part (cm_config s1) = auth_part ((cm_config s)\<lparr>c_hashed_password := Some h\<rparr>)"
    using update_auth_part [of cd "ae_io e 0" "\<lambda>c. c\<lparr>c_hashed_password := Some h\<rparr>" s] s1(1) by (simp add: set_hashed_password_def)
  from set_auth_token_cases [OF t] have p2: "auth_part (cm_config s') = auth_part (put_slot User (Some (ae_token e)) (Some (ae_csrf e))
      (Some (ae_now e + AUTH_TOKEN_VALIDITY_SECS)) (cm_config s1))" by simp
  have agent: "slot Agent (cm_config s') = slot Agent (cm_config s)"
    unfolding auth_part_fields(6) [OF p2] put_slot_fields using auth_part_fields(6) [OF p1] by (simp add: slot_def)
  have user: "stored_token User (cm_config s') = Some (ae_token e)"
    using auth_part_fields(6) [OF p2, of User] by (simp add: slot_def [of User "cm_config s'"])
  have "\<not> open_mode (cm_config s')" "\<not> open_mode (cm_config s)"
    using auth_part_fields(1) [OF p2] auth_part_fields(1) [OF p1] h(2) by (simp_all add: open_mode_def)
  with agent user show ?thesis by (simp add: protected_pass_role carries_def slot_def)
qed

lemma and_then_or_status_ok:
  assumes "and_then (or_status code brief x) f = (Inr r, s)"
  obtains y s1 where "x = (Inr y, s1)" "f y s1 = (Inr r, s)"
  using assms by (cases x; cases "fst x") (auto simp: and_then_def or_status_def)

lemma on_store_part:
  assumes "on_store g a = (r, a')" and "\<And>s r s'. g s = (r, s') \<Longrightarrow> auth_part (cm_config s') = auth_part (f (cm_config s))"
  shows "auth_part (cm_config (ua_store a')) = auth_part (f (cm_config (ua_store a)))"
  using assms(1) assms(2) [of "ua_store a"] by (cases "g (ua_store a)") (auto simp: on_store_def)

lemma setup_auth_password:
  assumes "setup_auth cd e req rq a = (Inr resp, a')" and "sr_local_auth_mode rq = ''password''"
  shows "c_local_auth_mode (cm_config (ua_store a')) = ''password'' \<and> slot Agent (cm_config (ua_store a')) = slot Agent (cm_config (ua_store a))"
proof -
  obtain a1 where a1: "on_store (set_auth_mode cd (ae_io e 6) ''password'') a = (Inr (), a1)"
    using assms unfolding setup_auth_def by (elim and_then_or_status_ok) auto
  obtain h where h: "and_then (or_status 500 ''Failed to save password'' (on_store (set_hashed_password cd (ae_io e 7) (Some h)) a1)) (\<lambda>_ a2.
       with_new_token ''Failed to save config'' ''Device setup completed successfully'' req e
         (on_store (set_auth_token_for_role cd (ae_io e 8) e User (Some (ae_token e))) a2) (\<lambda>resp a3.
       (Inr (resp\<lparr>rs_csrf_token := None\<rparr>), a3))) = (Inr resp, a')"
    using assms unfolding setup_auth_def assms(2) a1 and_then_step Let_def
    by (auto split: option.splits if_splits sum.splits)
  obtain a2 where a2: "on_store (set_hashed_password cd (ae_io e 7) (Some h)) a1 = (Inr (), a2)"
    "with_new_token ''Failed to save config'' ''Device setup completed successfully'' req e
         (on_store (set_auth_token_for_role cd (ae_io e 8) e User (Some (ae_token e))) a2) (\<lambda>resp a3.
       (Inr (resp\<lparr>rs_csrf_token := None\<rparr>), a3)) = (Inr resp, a')"
    using h by (elim and_then_or_status_ok) auto
  obtain csrf where a3: "on_store (set_auth_token_for_role cd (ae_io e 8) e User (Some (ae_token e))) a2 = (Inr (Some csrf), a')"
    using with_new_token_ok [OF a2(2)] by auto
  have p1: "auth_part (cm_config (ua_store a1)) = auth_part ((cm_config (ua_store a))\<lparr>c_local_auth_mode := ''password''\<rparr>)"
    using a1 by (rule on_store_part) (metis set_auth_mode_def snd_conv update_auth_part)
  have p2: "auth_part (cm_config (ua_store a2)) = auth_part ((cm_config (ua_store a1))\<lparr>c_hashed_password := Some h\<rparr>)"
    using a2(1) by (rule on_store_part) (metis set_hashed_password_def snd_conv update_auth_part)
  have p3: "auth_part (cm_config (ua_store a')) = auth_part (put_slot User (Some (ae_token e)) (Some (ae_csrf e))
      (Some (ae_now e + AUTH_TOKEN_VALIDITY_SECS)) (cm_config (ua_store a2)))"
    using a3 by (rule on_store_part) (drule set_auth_token_cases, simp)
  have "slot Agent (cm_config (ua_store a')) = slot Agent (cm_config (ua_store a))"
    unfolding auth_part_fields(6) [OF p3] put_slot_fields
    using auth_part_fields(6) [OF p2, of Agent] auth_part_fields(6) [OF p1, of Agent] by (simp add: slot_def)
  moreover have "c_local_auth_mode (cm_config (ua_store a')) = ''password''"
    using auth_part_fields(1) [OF p3] auth_part_fields(1) [OF p2] auth_part_fields(1) [OF p1] by simp
  ultimately show ?thesis by simp
qed

text \<open>
  An agent survives a reset of the configuration. The reset forgets the password and the user's
  token, but not the agent's: once the device has been set up again with a new password, a request
  with the cookie of an agent that had logged in before the reset is let in on the file routes as
  long as that token has not expired.
\<close>

theorem agent_survives_reset:
  assumes "cm_config (ua_store a) = reset_config_update rest (config_default dev r) c"
    and "handle_device_setup cd e v req (Inr rq) a = (Inr resp, a')" and "sr_local_auth_mode rq = ''password''"
    and "carries now c Agent req2" and "agent_allowed req2"
  shows "is_setup_required (cm_config (ua_store a)) \<and> file_chain now (cm_config (ua_store a')) req2 = Pass (Some Agent)"
proof -
  have reset: "slot Agent (cm_config (ua_store a)) = slot Agent c" "is_setup_required (cm_config (ua_store a))"
    unfolding assms(1) by (simp_all add: reset_config_update_def slot_def is_setup_required_def config_default_def)
  obtain a1 where a1: "setup_devices cd e v rq a = (Inr (), a1)" "setup_auth cd e req rq a1 = (Inr resp, a')"
    using assms(2)
    by (cases "setup_devices cd e v rq a"; cases "fst (setup_devices cd e v rq a)")
       (auto simp: handle_device_setup_def and_then_def split: sum.splits if_splits)
  have "auth_part (cm_config (ua_store a1)) = auth_part (cm_config (ua_store a))"
    using setup_devices_same_auth [of a cd e v rq] a1(1) by (simp add: same_auth_def)
  from auth_part_fields(6) [OF this, of Agent] setup_auth_password [OF a1(2) assms(3)] reset(1)
  have s: "slot Agent (cm_config (ua_store a')) = slot Agent c" "\<not> open_mode (cm_config (ua_store a'))"
    by (simp_all add: open_mode_def)
  with assms(4) have "carries now (cm_config (ua_store a')) Agent req2" by (simp add: carries_def slot_def)
  with assms(5) reset(2) show ?thesis by (simp add: file_pass [OF s(2)])
qed

section \<open>Concrete instances\<close>

definition demo_env :: auth_env where
  "demo_env = \<lparr>ae_now = 1000, ae_verify = (\<lambda>p h. Inr (p = h)), ae_hash = (\<lambda>p. Inr p), ae_base64 = (\<lambda>_. None),
     ae_token = ''tok1'', ae_csrf = ''csrf1'', ae_io = (\<lambda>_. demo_io)\<rparr>"

definition demo_request :: http_request where
  "demo_request = \<lparr>hr_method = ''POST'', hr_path = ''/auth/logout'', hr_scheme = None, hr_authority = Some ''kvm'',
     hr_headers = [(''X-CSRF-Token'', ''csrf1'')], hr_cookies = [(''authToken'', ''tok1'')], hr_query = [], hr_protocol = None\<rparr>"

definition demo_agent_request :: http_request where
  "demo_agent_request = demo_request\<lparr>hr_path := ''/local/file'', hr_cookies := [(''authTokenAgent'', ''old'')]\<rparr>"

lemma demo_origin: "validate_setup_origin_referer demo_request = Inr ()"
  by (simp add: validate_setup_origin_referer_def demo_request_def header_str_def host_matches_def extract_host_authority_def
      trim_def trim_start_def is_ascii_space_def to_ascii_lowercase_def ascii_lower_def)

lemma demo_presented: "presented_csrf demo_request = ''csrf1'' \<and> presented_csrf demo_agent_request = ''csrf1''"
  by (simp add: presented_csrf_def is_websocket_request_def demo_request_def demo_agent_request_def header_str_def is_visible_def
      trim_def trim_start_def is_ascii_space_def)

lemma demo_cookies:
  "req_cookie demo_request AUTH_COOKIE_USER = Some ''tok1''" "req_cookie demo_request AUTH_COOKIE_AGENT = None"
  "req_cookie demo_agent_request AUTH_COOKIE_AGENT = Some ''old''"
  "req_cookie demo_agent_request AUTH_COOKIE_USER = None" "agent_allowed demo_agent_request"
  by (simp_all add: req_cookie_def demo_request_def demo_agent_request_def AUTH_COOKIE_USER_def AUTH_COOKIE_AGENT_def
      agent_allowed_def starts_with_def)

definition demo_store :: "unit config_manager" where
  "demo_store = \<lparr>cm_config = demo_config\<lparr>c_local_agent_auth_token := Some ''old'', c_local_agent_csrf_token := Some ''csrf1'',
     c_local_agent_auth_token_expires_at := Some 5000\<rparr>, cm_disk = empty_disk\<rparr>"

lemma demo_store_simps:
  "c_local_auth_mode (cm_config demo_store) = ''password''" "c_hashed_password (cm_config demo_store) = Some ''h''"
  "plain_config (cm_config demo_store)" "\<not> open_mode (cm_config demo_store)"
  "slot Agent (cm_config demo_store) = (Some ''old'', Some ''csrf1'', Some 5000)" "slot User (cm_config demo_store) = (None, None, None)"
  by (simp_all add: demo_store_def demo_config_def config_default_def plain_config_def open_mode_def slot_def)

lemma demo_login:
  "\<exists>resp s'. handle_login_local demo_codec demo_env demo_request (Inr \<lparr>lq_password = ''h'', lq_client_type = None\<rparr>) demo_store
     = (Inr resp, s') \<and> rs_set_cookies resp = [set_token demo_request User ''tok1''] \<and> rs_csrf_token resp = Some ''csrf1''"
proof -
  have "plain_config (put_slot User t x y (cm_config demo_store))" for t x y
    using demo_store_simps(3) by (simp add: plain_config_def put_slot.simps)
  then show ?thesis
    by (simp add: handle_login_local_def demo_origin demo_store_simps parse_client_type_def validate_password_def demo_env_def
        set_auth_token_for_role_def Let_def demo_update and_then_def or_status_def put_slot.simps)
qed

theorem protected_access_iff_witness:
  "protected_chain 1000 ((cm_config demo_store)\<lparr>c_local_auth_token := Some ''tok1'', c_local_csrf_token := Some ''csrf1'',
     c_local_auth_token_expires_at := Some 2000\<rparr>) demo_request = Pass (Some User)"
  by (subst protected_access_iff) (simp_all add: demo_store_simps demo_presented demo_cookies)

theorem login_grants_access_witness:
  "\<exists>resp s'. handle_login_local demo_codec demo_env demo_request (Inr \<lparr>lq_password = ''h'', lq_client_type = None\<rparr>) demo_store
     = (Inr resp, s') \<and> protected_chain 600000 (cm_config s') demo_request = Pass (Some User)
   \<and> protected_chain 700000 (cm_config s') demo_request \<noteq> Pass (Some User)"
proof -
  obtain resp s' where l: "handle_login_local demo_codec demo_env demo_request (Inr \<lparr>lq_password = ''h'', lq_client_type = None\<rparr>)
      demo_store = (Inr resp, s')" "rs_set_cookies resp = [set_token demo_request User ''tok1'']" "rs_csrf_token resp = Some ''csrf1''"
    using demo_login by blast
  have "(protected_chain now (cm_config s') demo_request = Pass (Some User)) = (now < 605800)" for now
    using login_grants_access [OF l(1)] l(2,3)
    by (simp add: demo_store_simps demo_env_def parse_client_type_def set_token_def demo_cookies demo_presented)
  with l(1) show ?thesis by auto
qed

theorem logout_revokes_witness:
  "\<exists>resp s'. handle_logout demo_codec demo_env demo_request (Some Agent) demo_store = (Inr resp, s')
     \<and> file_chain 1000 (cm_config s') demo_agent_request \<noteq> Pass (Some Agent)"
proof -
  have "plain_config (put_slot Agent t x y (cm_config demo_store))" for t x y
    using demo_store_simps(3) by (simp add: plain_config_def put_slot.simps)
  then obtain resp s' where l: "handle_logout demo_codec demo_env demo_request (Some Agent) demo_store = (Inr resp, s')"
    by (simp add: handle_logout_def demo_origin set_auth_token_for_role_def Let_def demo_env_def demo_update and_then_def or_status_def)
  from logout_revokes [OF l demo_store_simps(4)] l show ?thesis by blast
qed

definition demo_setup_env :: "unit sidecar setup_env" where
  "demo_setup_env = \<lparr>su_start_audio = Inr (), su_check_update = Inr (), su_virtual_mic = Inr (),
     su_send = (\<lambda>req i k. send_runtime_with_reply usb_demo_env (QueryLost ''timeout'') req)\<rparr>"

definition demo_setup_request :: "string option \<Rightarrow> setup_request" where
  "demo_setup_request pw = \<lparr>sr_local_auth_mode = ''password'', sr_password = pw, sr_auto_update = None,
     sr_microphone_emulation = None, sr_camera_emulation = None, sr_file_transfer = Some True, sr_audio_playback = Some True\<rparr>"

text \<open>A device that was reset while an agent was logged in.\<close>

definition demo_reset :: "unit config" where
  "demo_reset = reset_config_update (\<lambda>a b. a) (config_default ''dev1'' ()) ((cm_config demo_store)\<lparr>c_usb_config := uc_demo\<rparr>)"

definition demo_app :: "unit config \<Rightarrow> disk \<Rightarrow> (unit, unit sidecar) usb_app" where
  "demo_app c d = \<lparr>ua_store = \<lparr>cm_config = c, cm_disk = d\<rparr>, ua_client = Some info_demo,
     ua_side = Some (Some info_demo, manager_new base_demo, ())\<rparr>"

definition setup_ready :: "unit config \<Rightarrow> bool" where
  "setup_ready c = (plain_config c \<and> c_local_auth_mode c = [] \<and> c_hashed_password c = None \<and> c_audio_playback c
     \<and> \<not> c_ssh_forwarding_enabled c \<and> c_usb_devices c = usb_devices_default)"

lemma demo_reset_ready: "setup_ready demo_reset" "stored_token Agent demo_reset = Some ''old''"
  "setup_ready (config_default ''dev1'' ())"
  by (simp_all add: demo_reset_def reset_config_update_def demo_store_def demo_config_def config_default_def plain_config_def
      setup_ready_def)

lemma demo_store_update:
  assumes "plain_config (f c)"
  shows "on_store (manager_update demo_codec demo_io f) (demo_app c d) = (Inr (), demo_app (f c) (demo_saved d))"
  using assms by (simp add: on_store_def demo_app_def demo_update)

lemma demo_reboot:
  assumes "\<not> c_ssh_forwarding_enabled c" and "c_usb_devices c = usb_devices_default"
  shows "reboot_usb_manager_with_reason demo_codec io send None (Some usb_devices_default) (demo_app c d) = (Inr (), demo_app c d)"
proof -
  have "devices_for_persist usb_devices_default False = usb_devices_default"
    by (simp add: devices_for_persist_def usb_devices_default_def network_adapter_default_def)
  with assms show ?thesis
    by (simp add: reboot_usb_manager_with_reason_def demo_app_def Let_def gadget_switches_equal_def
        network_adapter_l3_equal_def l3_config_equal_def)
qed

lemma demo_setup_devices:
  assumes "setup_ready c"
  obtains c' d' where "setup_devices demo_codec demo_env demo_setup_env (demo_setup_request pw) (demo_app c d) = (Inr (), demo_app c' d')"
    "plain_config c'"
proof -
  let ?c1 = "c\<lparr>c_audio_playback := True, c_ui_hdmi_audio := True, c_auto_update_enabled := False, c_microphone_emulation := Some False\<rparr>"
  have p: "plain_config (c\<lparr>c_audio_playback := True\<rparr>)" "plain_config (c\<lparr>c_audio_playback := True, c_ui_hdmi_audio := True\<rparr>)"
    "plain_config (c\<lparr>c_audio_playback := True, c_ui_hdmi_audio := True, c_auto_update_enabled := False\<rparr>)" "plain_config ?c1"
    using assms by (simp_all add: setup_ready_def plain_config_def)
  have u: "usb_devices_default\<lparr>ud_camera := False, ud_mass_storage_ft := True\<rparr> = usb_devices_default"
    by (simp add: usb_devices_default_def)
  have s: "cm_config (ua_store (demo_app x d)) = x" for x d by (simp add: demo_app_def)
  have "setup_devices demo_codec demo_env demo_setup_env (demo_setup_request pw) (demo_app c d)
      = (Inr (), demo_app ?c1 (demo_saved (demo_saved (demo_saved (demo_saved d)))))"
    using assms
    by (simp add: setup_devices_def set_audio_playback_def set_ui_switch_def ota_set_auto_update_def Let_def demo_env_def
        demo_setup_request_def is_true_def demo_store_update p and_then_step s u demo_reboot setup_ready_def)
  with p(4) that show thesis by blast
qed

lemma store_updates:
  "set_auth_mode cd io m = manager_update cd io (\<lambda>c. c\<lparr>c_local_auth_mode := m\<rparr>)"
  "set_hashed_password cd io h = manager_update cd io (\<lambda>c. c\<lparr>c_hashed_password := h\<rparr>)"
  by (simp_all add: fun_eq_iff set_auth_mode_def set_hashed_password_def)

lemma demo_setup:
  assumes "setup_ready c"
  shows "\<exists>a'. handle_device_setup demo_codec demo_env demo_setup_env demo_request (Inr (demo_setup_request None)) (demo_app c d)
      = (Inl (400, ''Password is required for password mode''), a')"
    and "\<exists>resp a'. handle_device_setup demo_codec demo_env demo_setup_env demo_request (Inr (demo_setup_request (Some ''new''))) (demo_app c d)
      = (Inr resp, a')"
proof -
  have g: "handle_device_setup demo_codec demo_env demo_setup_env demo_request (Inr (demo_setup_request pw)) (demo_app c d)
      = and_then (setup_devices demo_codec demo_env demo_setup_env (demo_setup_request pw) (demo_app c d))
          (\<lambda>_ a1. setup_auth demo_codec demo_env demo_request (demo_setup_request pw) a1)" for pw
    using assms by (simp add: handle_device_setup_def demo_origin demo_app_def setup_ready_def demo_setup_request_def)
  have p: "plain_config (x\<lparr>c_local_auth_mode := ''password''\<rparr>)" "plain_config (x\<lparr>c_local_auth_mode := ''password'', c_hashed_password := h\<rparr>)"
    "plain_config (put_slot User t y z (x\<lparr>c_local_auth_mode := ''password'', c_hashed_password := h\<rparr>))"
    if "plain_config x" for x :: "unit config" and h t y z
    using that by (simp_all add: plain_config_def put_slot.simps)
  show "\<exists>a'. handle_device_setup demo_codec demo_env demo_setup_env demo_request (Inr (demo_setup_request None)) (demo_app c d)
      = (Inl (400, ''Password is required for password mode''), a')"
    unfolding g
    by (rule demo_setup_devices [OF assms, of None d])
       (simp add: and_then_def setup_auth_def store_updates demo_env_def demo_setup_request_def demo_store_update p or_status_def)
  show "\<exists>resp a'. handle_device_setup demo_codec demo_env demo_setup_env demo_request (Inr (demo_setup_request (Some ''new''))) (demo_app c d)
      = (Inr resp, a')"
    unfolding g
    by (rule demo_setup_devices [OF assms, of "Some ''new''" d])
       (simp add: and_then_def setup_auth_def store_updates demo_env_def demo_setup_request_def
         demo_store_update p or_status_def with_new_token_def set_auth_token_for_role_def Let_def on_store_def demo_app_def demo_update)
qed

theorem setup_lockout_witness:
  "\<exists>a'. handle_device_setup demo_codec demo_env demo_setup_env demo_request (Inr (demo_setup_request None))
       (demo_app (config_default ''dev1'' ()) empty_disk) = (Inl (400, ''Password is required for password mode''), a')
     \<and> \<not> is_ok (fst (web_step demo_codec demo_env demo_setup_env demo_request (Setup (Inr (demo_setup_request (Some ''new'')))) a'))"
proof -
  obtain a' where a: "handle_device_setup demo_codec demo_env demo_setup_env demo_request (Inr (demo_setup_request None))
       (demo_app (config_default ''dev1'' ()) empty_disk) = (Inl (400, ''Password is required for password mode''), a')"
    using demo_setup(1) [OF demo_reset_ready(3)] by blast
  have "stored_token User (cm_config (ua_store (demo_app (config_default ''dev1'' ()) empty_disk))) = None"
    "stored_token Agent (cm_config (ua_store (demo_app (config_default ''dev1'' ()) empty_disk))) = None"
    by (simp_all add: demo_app_def config_default_def)
  from setup_lockout [OF a this] a show ?thesis by blast
qed

theorem agent_survives_reset_witness:
  "\<exists>resp a'. handle_device_setup demo_codec demo_env demo_setup_env demo_request (Inr (demo_setup_request (Some ''new'')))
       (demo_app demo_reset empty_disk) = (Inr resp, a')
     \<and> file_chain 1000 (cm_config (ua_store a')) demo_agent_request = Pass (Some Agent)"
proof -
  obtain resp a' where a: "handle_device_setup demo_codec demo_env demo_setup_env demo_request
      (Inr (demo_setup_request (Some ''new''))) (demo_app demo_reset empty_disk) = (Inr resp, a')"
    using demo_setup(2) [OF demo_reset_ready(1)] by blast
  have r: "cm_config (ua_store (demo_app demo_reset empty_disk)) = reset_config_update (\<lambda>a b. a) (config_default ''dev1'' ())
      ((cm_config demo_store)\<lparr>c_usb_config := uc_demo\<rparr>)"
    by (simp add: demo_app_def demo_reset_def)
  have c: "carries 1000 ((cm_config demo_store)\<lparr>c_usb_config := uc_demo\<rparr>) Agent demo_agent_request"
    using demo_store_simps(5) by (simp add: carries_def demo_cookies slot_def)
  from agent_survives_reset [OF r a _ c demo_cookies(5)] a show ?thesis by (simp add: demo_setup_request_def)
qed

theorem password_change_keeps_agent_witness:
  "\<exists>resp s'. modify_password_local demo_codec demo_env demo_request
       (Inr \<lparr>cp_old_password = ''h'', cp_new_password = ''new''\<rparr>) demo_store = (Inr resp, s')
     \<and> slot Agent (cm_config s') = (Some ''old'', Some ''csrf1'', Some 5000)"
proof -
  have p: "plain_config ((cm_config demo_store)\<lparr>c_hashed_password := h\<rparr>)"
    "plain_config (put_slot User t x y ((cm_config demo_store)\<lparr>c_hashed_password := h\<rparr>))" for h t x y
    using demo_store_simps(3) by (simp_all add: plain_config_def put_slot.simps)
  obtain resp s' where l: "modify_password_local demo_codec demo_env demo_request
       (Inr \<lparr>cp_old_password = ''h'', cp_new_password = ''new''\<rparr>) demo_store = (Inr resp, s')"
    by (simp add: modify_password_local_def demo_origin demo_store_simps validate_password_def demo_env_def set_hashed_password_def
        demo_update p and_then_def or_status_def with_new_token_def set_auth_token_for_role_def Let_def)
  from password_change_keeps_agent [OF l] l show ?thesis by (auto simp: demo_store_simps)
qed

definition expired_app :: "(unit, unit sidecar) usb_app" where
  "expired_app = demo_app (demo_config\<lparr>c_local_auth_token := Some ''tok1'', c_local_csrf_token := Some ''csrf1'',
     c_local_auth_token_expires_at := Some 900\<rparr>) empty_disk"

theorem no_credentials_no_change_witness:
  "web_run demo_codec
     [(demo_env, demo_setup_env, demo_request, Login (Inr \<lparr>lq_password = ''guess'', lq_client_type = None\<rparr>)),
      (demo_env, demo_setup_env, demo_request, Logout),
      (demo_env, demo_setup_env, demo_request, Setup (Inr (demo_setup_request (Some ''mine'')))),
      (demo_env, demo_setup_env, demo_agent_request, DisablePassword (Inr \<lparr>lq_password = ''h'', lq_client_type = None\<rparr>))]
     expired_app = expired_app"
    (is "web_run _ ?rs _ = _")
proof -
  let ?c = "cm_config (ua_store expired_app)"
  have f: "c_local_auth_mode ?c = ''password''" "stored_token Agent ?c = None" "token_expires_at User ?c = Some 900"
    "c_hashed_password ?c = Some ''h''"
    by (simp_all add: expired_app_def demo_app_def demo_config_def config_default_def)
  have t: "token_expires_at r ?c \<noteq> Some t \<or> stored_token r ?c \<noteq> Some tok \<or> \<not> ae_now demo_env < t" for r t tok
    using f by (cases r) (simp_all add: demo_env_def)
  have "\<forall>(e, v, req, ep) \<in> set ?rs. \<not> credentialed ?c e req ep"
    using t f(4) by (auto simp: credentialed_def demo_env_def)
  with f(1) no_credentials_no_change [of expired_app ?rs demo_codec] show ?thesis by simp
qed

section \<open>Cross-site requests\<close>

definition host_name :: "string \<Rightarrow> bool" where
  "host_name h = (h \<noteq> [] \<and> (\<forall>c \<in> set h. \<not> is_ascii_space c \<and> c \<noteq> CHR ''/'' \<and> c \<noteq> CHR '':''))"

definition default_port :: "string \<Rightarrow> bool" where
  "default_port p = (p = [] \<or> p = '':80'' \<or> p = '':443'')"

lemma default_port_chars: "default_port p \<Longrightarrow> c \<in> set p \<Longrightarrow> \<not> is_ascii_space c \<and> c \<noteq> CHR ''/''"
  by (auto simp: default_port_def is_ascii_space_def)

lemma after_sub_none: "CHR ''/'' \<notin> set s \<Longrightarrow> after_sub ''://'' s = None"
proof (induction s)
  case (Cons c s)
  then have "\<not> prefix ''://'' (c # s)" by (auto simp: prefix_def)
  with Cons show ?case by simp
qed simp

lemma extract_host:
  assumes "host_name h" and "default_port p"
  shows "extract_host_authority (h @ p) = h @ p" "extract_host_authority (''https://'' @ h @ p) = h @ p"
    "extract_host_authority (''http://'' @ h @ p) = h @ p"
proof -
  have c: "\<forall>c \<in> set (h @ p). \<not> is_ascii_space c \<and> c \<noteq> CHR ''/''"
    using assms default_port_chars by (auto simp: host_name_def)
  then have t: "takeWhile (\<lambda>c. c \<noteq> CHR ''/'') (h @ p) = h @ p" by (intro takeWhile_eq_all_conv [THEN iffD2]) auto
  have a: "trim (h @ p) = h @ p" "after_sub ''://'' (h @ p) = None"
    using c by (intro trim_id after_sub_none; auto)+
  show "extract_host_authority (h @ p) = h @ p" by (simp only: extract_host_authority_def Let_def a option.case t)
  have "trim (''https://'' @ h @ p) = ''https://'' @ h @ p" "trim (''http://'' @ h @ p) = ''http://'' @ h @ p"
    using c by (intro trim_id; auto simp: is_ascii_space_def)+
  with t show "extract_host_authority (''https://'' @ h @ p) = h @ p" "extract_host_authority (''http://'' @ h @ p) = h @ p"
    by (simp_all add: extract_host_authority_def)
qed

lemma ascii_lower_special:
  "ascii_lower c = CHR '':'' \<longleftrightarrow> c = CHR '':''" "ascii_lower c = CHR ''/'' \<longleftrightarrow> c = CHR ''/''"
  "is_ascii_space (ascii_lower c) \<longleftrightarrow> is_ascii_space c"
proof -
  have n: "of_char (ascii_lower c) = (if 65 \<le> (of_char c :: nat) \<and> (of_char c :: nat) \<le> 90 then of_char c + 32 else (of_char c :: nat))"
    by (simp add: ascii_lower_def Let_def)
  have e: "c = d \<longleftrightarrow> (of_char c :: nat) = of_char d" for c d :: char by simp
  show "ascii_lower c = CHR '':'' \<longleftrightarrow> c = CHR '':''" "ascii_lower c = CHR ''/'' \<longleftrightarrow> c = CHR ''/''"
    unfolding e [of "ascii_lower c"] e [of c] n by auto
  show "is_ascii_space (ascii_lower c) \<longleftrightarrow> is_ascii_space c" unfolding is_ascii_space_def Let_def n by auto
qed

lemma lower_host: "host_name h \<Longrightarrow> host_name (to_ascii_lowercase h)"
  by (auto simp: host_name_def to_ascii_lowercase_def ascii_lower_special)

lemma lower_port: "default_port p \<Longrightarrow> to_ascii_lowercase p = p"
  by (auto simp: default_port_def to_ascii_lowercase_def ascii_lower_def)

lemma lower_idem: "to_ascii_lowercase (to_ascii_lowercase s) = to_ascii_lowercase s"
  by (simp add: to_ascii_lowercase_def ascii_lower_def Let_def)

lemma normalize_host:
  assumes "host_name h" and "default_port p"
  shows "normalize_host_for_compare (h @ p) = h"
proof -
  have c: "\<forall>c \<in> set (h @ p). \<not> is_ascii_space c" "CHR '':'' \<notin> set h"
    using assms default_port_chars by (auto simp: host_name_def)
  have "trim (h @ p) = h @ p" using c(1) by (intro trim_id)
  with assms(2) c(2) show ?thesis
    by (auto simp: normalize_host_for_compare_def rsplit_once_def split_once_def default_port_def Let_def)
qed

text \<open>
  Only the device's own pages may call it. For a request whose host is a name or an IPv4 address,
  with or without a default port, and whose origin is a page over HTTP or HTTPS, the check lets it
  pass exactly if the origin's host is the same, apart from case and default ports.
\<close>

theorem foreign_origin_refused:
  assumes "host_name h" and "host_name orig" and "default_port p" and "default_port q" and "scheme \<in> {''http://'', ''https://''}"
    and "header_str req ''Host'' = Some (h @ p)" and "header_str req ''Origin'' = Some (scheme @ orig @ q)"
    and "header_str req ''Referer'' = None"
  shows "validate_setup_origin_referer req = Inr () \<longleftrightarrow> to_ascii_lowercase orig = to_ascii_lowercase h"
proof -
  have l: "to_ascii_lowercase (x @ y) = to_ascii_lowercase x @ to_ascii_lowercase y" for x y by (simp add: to_ascii_lowercase_def)
  have o: "extract_host_authority (scheme @ orig @ q) = orig @ q" using assms(2,4,5) extract_host(2,3) by auto
  have "to_ascii_lowercase h \<noteq> []" using assms(1) by (auto simp: host_name_def to_ascii_lowercase_def)
  then show ?thesis
    using assms(3,4)
    by (simp add: validate_setup_origin_referer_def assms(6-8) extract_host(1) [OF assms(1,3)] o Let_def host_matches_def l
        lower_port lower_idem normalize_host [OF lower_host [OF assms(1)]] normalize_host [OF lower_host [OF assms(2)]])
qed

theorem foreign_origin_refused_witness:
  "validate_setup_origin_referer (demo_request\<lparr>hr_headers := [(''Host'', ''kvm:80''), (''Origin'', ''https://evil'')]\<rparr>) \<noteq> Inr ()"
proof -
  let ?r = "demo_request\<lparr>hr_headers := [(''Host'', ''kvm:80''), (''Origin'', ''https://evil'')]\<rparr>"
  have "host_name ''kvm''" "host_name ''evil''" by (simp_all add: host_name_def is_ascii_space_def)
  moreover have "header_str ?r ''Host'' = Some (''kvm'' @ '':80'')" "header_str ?r ''Origin'' = Some (''https://'' @ ''evil'' @ [])"
    "header_str ?r ''Referer'' = None" by (simp_all add: header_str_def is_visible_def)
  ultimately show ?thesis
    using foreign_origin_refused [of "''kvm''" "''evil''" "'':80''" "[]" "''https://''" ?r]
    by (simp add: default_port_def to_ascii_lowercase_def ascii_lower_def)
qed

end
