(* ===== verification/Image_Reader.thy ===== *)
theory Image_Reader
  imports Kvm_Prelude
begin

text \<open>
  Virtual media over HTTP: the range reader of \<^verbatim>\<open>hardware/usb/storage.rs\<close> with its block cache and its
  prefetch buffer, and the read-only block device of \<^verbatim>\<open>hardware/block_device.rs\<close> that the kernel's
  network block driver reads through it. The web server is the parameter \<open>http_get\<close>: what one
  request for a range of bytes answers. Offsets are integers and lengths natural numbers; both
  stay below the size of an image. The counters that are only logged are left out.
\<close>

section \<open>Blocks\<close>

definition HTTP_RANGE_SEND_MAX_RETRIES :: nat where "HTTP_RANGE_SEND_MAX_RETRIES = 4"
definition HTTP_RANGE_READ_REISSUE_MAX :: nat where "HTTP_RANGE_READ_REISSUE_MAX = 4"
definition HTTP_PREFETCH_CHUNK_SIZE :: nat where "HTTP_PREFETCH_CHUNK_SIZE = 1024 * 1024"
definition HTTP_PREFETCH_ENABLE_SEQ_READS :: nat where "HTTP_PREFETCH_ENABLE_SEQ_READS = 3"
definition HTTP_BLOCK_SIZE :: nat where "HTTP_BLOCK_SIZE = 4096"
definition HTTP_BLOCK_CACHE_CAPACITY :: nat where "HTTP_BLOCK_CACHE_CAPACITY = 2048"

record block_cache =
  bc_map :: "(int, u8 list) hmap"
  bc_lru :: "int list"
  bc_cap :: nat

definition cache_new :: "nat \<Rightarrow> block_cache" where
  "cache_new cap = \<lparr>bc_map = [], bc_lru = [], bc_cap = cap\<rparr>"

definition cache_touch :: "int \<Rightarrow> block_cache \<Rightarrow> block_cache" where
  "cache_touch key c = c\<lparr>bc_lru := remove1 key (bc_lru c) @ [key]\<rparr>"

text \<open>The eviction loop; \<open>None\<close> means that it never ends (more blocks than keys to evict).\<close>

fun cache_evict :: "nat \<Rightarrow> int list \<Rightarrow> (int, u8 list) hmap \<Rightarrow> (int list \<times> (int, u8 list) hmap) option" where
  "cache_evict cap lru m =
     (if length m > cap
      then (case lru of [] \<Rightarrow> None | k # ks \<Rightarrow> cache_evict cap ks (hm_remove k m))
      else Some (lru, m))"

declare cache_evict.simps [simp del]

definition cache_put :: "int \<Rightarrow> u8 list \<Rightarrow> block_cache \<Rightarrow> block_cache option" where
  "cache_put key value c =
     (let c1 = cache_touch key (c\<lparr>bc_map := hm_insert key value (bc_map c)\<rparr>)
      in map_option (\<lambda>(lru, m). c1\<lparr>bc_lru := lru, bc_map := m\<rparr>) (cache_evict (bc_cap c1) (bc_lru c1) (bc_map c1)))"

record prefetch_state =
  pf_enabled :: bool
  pf_seq_reads :: nat
  pf_last_off :: "int option"
  pf_last_len :: nat
  pf_buf :: "u8 list"
  pf_buf_off :: int
  pf_buf_len :: nat
  pf_cache :: block_cache

definition prefetch_new :: prefetch_state where
  "prefetch_new = \<lparr>pf_enabled = False, pf_seq_reads = 0, pf_last_off = None, pf_last_len = 0,
     pf_buf = replicate HTTP_PREFETCH_CHUNK_SIZE 0, pf_buf_off = 0, pf_buf_len = 0,
     pf_cache = cache_new HTTP_BLOCK_CACHE_CAPACITY\<rparr>"

definition clear_buffer :: "prefetch_state \<Rightarrow> prefetch_state" where
  "clear_buffer p = p\<lparr>pf_buf_off := 0, pf_buf_len := 0\<rparr>"

section \<open>Ranges over HTTP\<close>

definition parse_i64 :: "string \<Rightarrow> int option" where
  "parse_i64 s =
     (case s of
        c # r \<Rightarrow>
          if c = CHR ''-''
          then (if r = [] then None
                else case radix_value 10 0 r of
                       None \<Rightarrow> None
                     | Some n \<Rightarrow> if n \<le> 9223372036854775808 then Some (- int n) else None)
          else map_option int (parse_radix 10 9223372036854775808 s)
      | [] \<Rightarrow> None)"

definition str_split_once :: "char \<Rightarrow> string \<Rightarrow> (string \<times> string) option" where
  "str_split_once d s =
     (if d \<in> set s then Some (takeWhile (\<lambda>c. c \<noteq> d) s, drop 1 (dropWhile (\<lambda>c. c \<noteq> d) s)) else None)"

lemma split_once_append: "d \<notin> set a \<Longrightarrow> str_split_once d (a @ d # b) = Some (a, b)"
  by (induction a) (auto simp: str_split_once_def)

definition parse_content_range :: "string \<Rightarrow> (int \<times> int \<times> int) option" where
  "parse_content_range raw =
     (let s = trim raw in
      if \<not> starts_with s ''bytes '' then None
      else case str_split_once (CHR ''/'') (drop 6 s) of None \<Rightarrow> None
      | Some (range_part, total_part) \<Rightarrow>
          (case str_split_once (CHR ''-'') range_part of None \<Rightarrow> None
           | Some (start_part, end_part) \<Rightarrow>
               (case (parse_i64 (trim start_part), parse_i64 (trim end_part), parse_i64 (trim total_part)) of
                  (Some start, Some end', Some tot) \<Rightarrow>
                    if start < 0 \<or> end' < start \<or> tot \<le> 0 then None else Some (start, end', tot)
                | _ \<Rightarrow> None)))"

text \<open>
  A response: the body as far as it arrives, and the error, if any, that reading meets after it.
  Only status and headers decide whether the body is read.
\<close>

record http_response =
  hp_status :: nat
  hp_content_range :: "string option"
  hp_body :: "u8 list"
  hp_body_error :: "string option"

type_synonym 'w http = "'w \<Rightarrow> int \<Rightarrow> int \<Rightarrow> (string, http_response) result \<times> 'w"

text \<open>\<open>n\<close> attempts are left; only a request that got no response is repeated.\<close>

primrec send_attempts :: "nat \<Rightarrow> string \<Rightarrow> 'w http \<Rightarrow> int \<Rightarrow> int \<Rightarrow> 'w \<Rightarrow> (string, http_response) result \<times> 'w" where
  "send_attempts 0 last_err get a b w = (Inl last_err, w)"
| "send_attempts (Suc n) last_err get a b w =
     (case get w a b of
        (Inr resp, w') \<Rightarrow> (Inr resp, w')
      | (Inl err, w') \<Rightarrow> send_attempts n err get a b w')"

definition send_with_retry :: "'w http \<Rightarrow> int \<Rightarrow> int \<Rightarrow> 'w \<Rightarrow> (string, http_response) result \<times> 'w" where
  "send_with_retry get a b w = send_attempts (HTTP_RANGE_SEND_MAX_RETRIES + 1) ''http send failed'' get a b w"

text \<open>The bytes written to the front of the output buffer of length \<open>out_len\<close>.\<close>

definition check_range_response :: "int \<Rightarrow> int \<Rightarrow> nat \<Rightarrow> http_response \<Rightarrow> (string, u8 list) result" where
  "check_range_response req_off req_end out_len resp =
     (case Option.bind (hp_content_range resp) parse_content_range of
        None \<Rightarrow> Inl (''range GET: HTTP '' @ nat_to_dec (hp_status resp)
                  @ '' (need 206 Partial Content, or 2xx with Content-Range); server may not support Range'')
      | Some (got_start, got_end, tot) \<Rightarrow>
          if got_start \<noteq> req_off \<or> got_end < got_start then Inl ''range GET: mismatched Content-Range''
          else let expected = nat (got_end - got_start + 1) in
          if expected = 0 then Inl ''range GET: zero-length Content-Range''
          else if expected > out_len then Inl ''range response larger than output buffer''
          else if length (hp_body resp) < expected
          then Inl (case hp_body_error resp of Some e \<Rightarrow> ''failed to read response body: '' @ e | None \<Rightarrow> ''short HTTP range body'')
          else if length (hp_body resp) > expected then Inl ''range response too long: got more than expected bytes''
          else case hp_body_error resp of
                 Some e \<Rightarrow> Inl (''failed to drain response: '' @ e)
               | None \<Rightarrow> Inr (hp_body resp))"

definition fetch_range_once :: "'w http \<Rightarrow> int \<Rightarrow> int \<Rightarrow> nat \<Rightarrow> 'w \<Rightarrow> (string, u8 list) result \<times> 'w" where
  "fetch_range_once get req_off req_end out_len w =
     (case send_with_retry get req_off req_end w of
        (Inl err, w') \<Rightarrow> (Inl err, w')
      | (Inr resp, w') \<Rightarrow> (check_range_response req_off req_end out_len resp, w'))"

section \<open>The block cache in use\<close>

definition block_of :: "int \<Rightarrow> int" where
  "block_of off = off div int HTTP_BLOCK_SIZE"

primrec read_blocks :: "nat \<Rightarrow> int \<Rightarrow> int \<Rightarrow> nat \<Rightarrow> u8 list \<Rightarrow> block_cache \<Rightarrow> u8 list option \<times> block_cache" where
  "read_blocks 0 block_id off want copied c = (None, c)"
| "read_blocks (Suc k) block_id off want copied c =
     (case hm_get (bc_map c) block_id of
        None \<Rightarrow> (None, c)
      | Some block_data \<Rightarrow>
          let c1 = cache_touch block_id c;
              block_start = block_id * int HTTP_BLOCK_SIZE;
              offset_in_block = nat (max (off + int (length copied) - block_start) 0);
              n = min (want - length copied) (length block_data - offset_in_block)
          in if n = 0 then (None, c1)
             else let copied' = copied @ take n (drop offset_in_block block_data)
                  in if length copied' = want then (Some copied', c1)
                     else read_blocks k (block_id + 1) off want copied' c1)"

definition try_read_block_cache :: "int \<Rightarrow> nat \<Rightarrow> prefetch_state \<Rightarrow> u8 list option \<times> prefetch_state" where
  "try_read_block_cache off want p =
     (if want = 0 then (Some [], p)
      else let start_block = block_of off; end_block = block_of (off + int want - 1)
           in case read_blocks (nat (end_block - start_block + 1)) start_block off want [] (pf_cache p) of
                (r, c) \<Rightarrow> (r, p\<lparr>pf_cache := c\<rparr>))"

definition splice :: "u8 list \<Rightarrow> nat \<Rightarrow> u8 list \<Rightarrow> u8 list" where
  "splice block i data = take i block @ data @ drop (i + length data) block"

function store_blocks :: "int \<Rightarrow> u8 list \<Rightarrow> block_cache \<Rightarrow> block_cache option" where
  "store_blocks global_off data c =
     (if data = [] then Some c
      else let block_id = block_of global_off;
               offset_in_block = nat (global_off - block_id * int HTTP_BLOCK_SIZE);
               writable = min (HTTP_BLOCK_SIZE - offset_in_block) (length data);
               block_data = (case hm_get (bc_map c) block_id of Some d \<Rightarrow> d | None \<Rightarrow> replicate HTTP_BLOCK_SIZE 0);
               c1 = c\<lparr>bc_map := hm_remove block_id (bc_map c)\<rparr>
           in case cache_put block_id (splice block_data offset_in_block (take writable data)) c1 of
                None \<Rightarrow> None
              | Some c2 \<Rightarrow> store_blocks (global_off + int writable) (drop writable data) c2)"
  by pat_completeness auto
termination
proof (relation "measure (\<lambda>(off, data, c). length data)")
  fix global_off :: int and data :: "u8 list" and c c1 c2 :: block_cache and block_id offset_in_block writable
  assume d: "data \<noteq> []" and b: "block_id = block_of global_off"
    and o: "offset_in_block = nat (global_off - block_id * int HTTP_BLOCK_SIZE)"
    and w: "writable = min (HTTP_BLOCK_SIZE - offset_in_block) (length data)"
  have "global_off - block_id * int HTTP_BLOCK_SIZE = global_off mod int HTTP_BLOCK_SIZE"
    using b by (simp add: block_of_def minus_div_mult_eq_mod)
  then have "offset_in_block < HTTP_BLOCK_SIZE" using o by (simp add: HTTP_BLOCK_SIZE_def nat_less_iff)
  with w d have "0 < writable" by simp
  with d show "((global_off + int writable, drop writable data, c2), global_off, data, c) \<in> measure (\<lambda>(off, data, c). length data)"
    by simp
qed simp

declare store_blocks.simps [simp del]

definition store_into_block_cache :: "int \<Rightarrow> u8 list \<Rightarrow> prefetch_state \<Rightarrow> prefetch_state option" where
  "store_into_block_cache off data p = map_option (\<lambda>c. p\<lparr>pf_cache := c\<rparr>) (store_blocks off data (pf_cache p))"

section \<open>Reading\<close>

definition buffer_holds :: "prefetch_state \<Rightarrow> int \<Rightarrow> nat \<Rightarrow> bool" where
  "buffer_holds p off want =
     (pf_buf_len p > 0 \<and> off \<ge> pf_buf_off p \<and> off + int want \<le> pf_buf_off p + int (pf_buf_len p))"

definition begin_read_with_prefetch_state :: "int \<Rightarrow> nat \<Rightarrow> prefetch_state \<Rightarrow> prefetch_state" where
  "begin_read_with_prefetch_state off want p =
     (let is_sequential = (case pf_last_off p of Some lo \<Rightarrow> lo + int (pf_last_len p) = off | None \<Rightarrow> False);
          in_cache = buffer_holds p off want;
          p1 = (if is_sequential then p\<lparr>pf_seq_reads := min (pf_seq_reads p + 1) 4294967295\<rparr>
                else if pf_enabled p \<and> \<not> in_cache then (clear_buffer (p\<lparr>pf_enabled := False\<rparr>))\<lparr>pf_seq_reads := 1\<rparr>
                else if pf_enabled p \<and> in_cache then p\<lparr>pf_seq_reads := 0\<rparr>
                else p\<lparr>pf_seq_reads := 1\<rparr>)
      in if \<not> pf_enabled p1 \<and> pf_seq_reads p1 \<ge> HTTP_PREFETCH_ENABLE_SEQ_READS
         then clear_buffer (p1\<lparr>pf_enabled := True\<rparr>) else p1)"

definition record_last_read :: "int \<Rightarrow> nat \<Rightarrow> prefetch_state \<Rightarrow> prefetch_state" where
  "record_last_read off n p = p\<lparr>pf_last_off := Some off, pf_last_len := n\<rparr>"

text \<open>
  The lock is released while the range is fetched, but the block device is the only reader, so the
  state found afterwards is the one left before. What a failed fetch wrote into the prefetch buffer
  is left out: the buffer is empty then, and its bytes are never read.
\<close>

definition read_at_with_prefetch ::
  "'w http \<Rightarrow> int \<Rightarrow> int \<Rightarrow> nat \<Rightarrow> prefetch_state \<times> 'w \<Rightarrow> (string, u8 list option) result \<times> prefetch_state \<times> 'w" where
  "read_at_with_prefetch get total_size off want s =
     (case s of (p, w) \<Rightarrow>
      if want > HTTP_PREFETCH_CHUNK_SIZE then (Inr None, p, w)
      else if \<not> pf_enabled p then (Inr None, p, w)
      else if buffer_holds p off want
      then let start = nat (off - pf_buf_off p); n = min (pf_buf_len p - start) want
           in (Inr (Some (take n (drop start (pf_buf p)))), record_last_read off n p, w)
      else let remain = nat (max (total_size - off) 0) in
      if remain = 0 then (Inr (Some []), record_last_read off 0 p, w)
      else let fetch_len = min remain HTTP_PREFETCH_CHUNK_SIZE;
               lbuf = (if length (pf_buf p) < HTTP_PREFETCH_CHUNK_SIZE
                        then pf_buf p @ replicate (HTTP_PREFETCH_CHUNK_SIZE - length (pf_buf p)) 0 else pf_buf p);
               p1 = clear_buffer p
           in case fetch_range_once get off (off + int fetch_len - 1) fetch_len w of
                (Inl err, w') \<Rightarrow> (Inl err, p1\<lparr>pf_buf := lbuf\<rparr>, w')
              | (Inr data, w') \<Rightarrow>
                  let n = min (length data) want;
                      p2 = p1\<lparr>pf_buf := splice lbuf 0 data, pf_buf_off := off, pf_buf_len := length data\<rparr>
                  in (Inr (Some (take n data)), record_last_read off n p2, w'))"

function direct_loop :: "'w http \<Rightarrow> int \<Rightarrow> int \<Rightarrow> nat \<Rightarrow> nat \<Rightarrow> u8 list \<Rightarrow> 'w \<Rightarrow> (string, u8 list) result \<times> 'w" where
  "direct_loop get off end' want reissue acc w =
     (if length acc \<ge> want then (Inr acc, w)
      else case fetch_range_once get (off + int (length acc)) end' (want - length acc) w of
             (Inl err, w') \<Rightarrow> (Inl err, w')
           | (Inr data, w') \<Rightarrow>
               if length data < want - length acc
               then if reissue + 1 > HTTP_RANGE_READ_REISSUE_MAX then (Inl ''short HTTP range body after reissues'', w')
                    else direct_loop get off end' want (reissue + 1) (acc @ data) w'
               else (Inr (acc @ data), w'))"
  by pat_completeness auto
termination
  by (relation "measure (\<lambda>(get, off, end', want, reissue, acc, w). 5 - reissue)")
     (auto simp: HTTP_RANGE_READ_REISSUE_MAX_def)

declare direct_loop.simps [simp del]

definition read_at_direct :: "'w http \<Rightarrow> int \<Rightarrow> int \<Rightarrow> nat \<Rightarrow> 'w \<Rightarrow> (string, u8 list) result \<times> 'w" where
  "read_at_direct get off end' want w = direct_loop get off end' want 0 [] w"

text \<open>One call of \<^verbatim>\<open>read_at\<close>; \<open>None\<close> means that it never returns.\<close>

definition read_at ::
  "'w http \<Rightarrow> int \<Rightarrow> int \<Rightarrow> nat \<Rightarrow> prefetch_state \<times> 'w \<Rightarrow> ((string, u8 list) result \<times> prefetch_state \<times> 'w) option" where
  "read_at get total_size off want s =
     (case s of (p, w) \<Rightarrow>
      if off < 0 then Some (Inl ''invalid range'', p, w)
      else if want = 0 then Some (Inr [], p, w)
      else case try_read_block_cache off want p of
        (Some data, p1) \<Rightarrow> Some (Inr data, p1, w)
      | (None, p1) \<Rightarrow>
          (case read_at_with_prefetch get total_size off want (begin_read_with_prefetch_state off want p1, w) of
             (Inl err, p3, w') \<Rightarrow> Some (Inl err, p3, w')
           | (Inr (Some data), p3, w') \<Rightarrow>
               map_option (\<lambda>p4. (Inr data, p4, w')) (store_into_block_cache off data p3)
           | (Inr None, p3, w') \<Rightarrow>
               (case read_at_direct get off (off + int want - 1) want w' of
                  (Inl err, w'') \<Rightarrow> Some (Inl err, p3, w'')
                | (Inr data, w'') \<Rightarrow>
                    map_option (\<lambda>p4. (Inr data, record_last_read off (length data) p4, w''))
                      (store_into_block_cache off data p3))))"


section \<open>What the reader keeps\<close>

text \<open>
  The image the server holds is \<open>img\<close>. A server is true to it when a response whose Content-Range
  starts where the request does carries exactly the requested range (the bytes may be cut short or
  the request may fail: both are noticed).
\<close>

definition img_slice :: "u8 list \<Rightarrow> int \<Rightarrow> nat \<Rightarrow> u8 list" where
  "img_slice img off n = take n (drop (nat off) img)"

definition answers_full_ranges :: "u8 list \<Rightarrow> 'w http \<Rightarrow> bool" where
  "answers_full_ranges img get =
     (\<forall>w a b resp e t. 0 \<le> a \<and> a \<le> b \<and> b < int (length img) \<and> fst (get w a b) = Inr resp \<and>
        Option.bind (hp_content_range resp) parse_content_range = Some (a, e, t) \<and>
        length (hp_body resp) = nat (e - a + 1) \<longrightarrow>
        e = b \<and> hp_body resp = img_slice img a (nat (b - a + 1)))"

definition block_ok :: "u8 list \<Rightarrow> int \<Rightarrow> u8 list \<Rightarrow> bool" where
  "block_ok img b d =
     (0 \<le> b \<and> length d = HTTP_BLOCK_SIZE \<and>
      (\<forall>i < HTTP_BLOCK_SIZE. nat b * HTTP_BLOCK_SIZE + i < length img \<longrightarrow> d ! i = img ! (nat b * HTTP_BLOCK_SIZE + i)))"

definition cache_wf :: "block_cache \<Rightarrow> bool" where
  "cache_wf c = (hm_wf (bc_map c) \<and> set (bc_lru c) = fst ` set (bc_map c) \<and> distinct (bc_lru c) \<and> length (bc_map c) \<le> bc_cap c)"

definition cache_ok :: "u8 list \<Rightarrow> block_cache \<Rightarrow> bool" where
  "cache_ok img c = (cache_wf c \<and> (\<forall>b d. hm_get (bc_map c) b = Some d \<longrightarrow> block_ok img b d))"

definition buffer_ok :: "u8 list \<Rightarrow> prefetch_state \<Rightarrow> bool" where
  "buffer_ok img p =
     (pf_buf_len p = 0 \<or>
      0 \<le> pf_buf_off p \<and> nat (pf_buf_off p) + pf_buf_len p \<le> length img \<and>
      take (pf_buf_len p) (pf_buf p) = img_slice img (pf_buf_off p) (pf_buf_len p) \<and> pf_buf_len p \<le> length (pf_buf p))"

definition reader_ok :: "u8 list \<Rightarrow> prefetch_state \<Rightarrow> bool" where
  "reader_ok img p = (cache_ok img (pf_cache p) \<and> buffer_ok img p)"

definition aligned_read :: "u8 list \<Rightarrow> int \<Rightarrow> nat \<Rightarrow> bool" where
  "aligned_read img off n =
     (0 \<le> off \<and> nat off mod HTTP_BLOCK_SIZE = 0 \<and> nat off + n \<le> length img \<and>
      (n mod HTTP_BLOCK_SIZE = 0 \<or> nat off + n = length img))"

subsection \<open>The block cache\<close>

lemma hm_remove_keys: "fst ` set (hm_remove k m) = fst ` set m - {k}"
  by (auto simp: hm_remove_def AList.delete_eq)

lemma hm_insert_keys: "fst ` set (hm_insert k v m) = insert k (fst ` set m)"
  by (induction m) (auto simp: hm_insert_def)

lemma hm_get_key: "hm_get m k = Some d \<Longrightarrow> k \<in> fst ` set m"
  by (force simp: hm_get_def dest: map_of_SomeD)

lemma cache_evict_ends:
  assumes "hm_wf m" "set lru = fst ` set m" "distinct lru"
  shows "\<exists>lru' m'. cache_evict cap lru m = Some (lru', m') \<and> hm_wf m' \<and> set lru' = fst ` set m' \<and> distinct lru' \<and> length m' \<le> cap \<and>
           (\<forall>b d. hm_get m' b = Some d \<longrightarrow> hm_get m b = Some d)"
  using assms
proof (induction lru arbitrary: m)
  case Nil
  then show ?case by (subst cache_evict.simps) auto
next
  case (Cons k ks)
  show ?case
  proof (cases "length m > cap")
    case True
    have wf: "hm_wf (hm_remove k m)" using Cons.prems by simp
    have sub: "set ks = fst ` set (hm_remove k m)" using Cons.prems(2,3) by (simp add: hm_remove_keys flip: Cons.prems(2))
    have ds: "distinct ks" using Cons.prems(3) by simp
    from Cons.IH [OF wf sub ds] obtain l m' where e: "cache_evict cap ks (hm_remove k m) = Some (l, m')" "hm_wf m'"
      "set l = fst ` set m'" "distinct l" "length m' \<le> cap" "\<forall>b d. hm_get m' b = Some d \<longrightarrow> hm_get (hm_remove k m) b = Some d"
      by (elim exE conjE) (rule that)
    have "\<forall>b d. hm_get m' b = Some d \<longrightarrow> hm_get m b = Some d"
      using e(6) by (metis hm.get_rem fun_upd_apply option.distinct(1))
    with e True show ?thesis by (subst cache_evict.simps) auto
  next
    case False
    with Cons.prems show ?thesis by (subst cache_evict.simps) auto
  qed
qed

lemma cache_put_keeps:
  assumes "hm_wf (bc_map c)" "distinct (bc_lru c)" "insert key (set (bc_lru c)) = insert key (fst ` set (bc_map c))"
    "\<forall>b d. hm_get (bc_map c) b = Some d \<longrightarrow> Q b d" "Q key v"
  shows "\<exists>c'. cache_put key v c = Some c' \<and> cache_wf c' \<and> (\<forall>b d. hm_get (bc_map c') b = Some d \<longrightarrow> Q b d) \<and> bc_cap c' = bc_cap c"
proof -
  let ?m = "hm_insert key v (bc_map c)" and ?l = "remove1 key (bc_lru c) @ [key]"
  have "set ?l = insert key (set (bc_lru c))" using assms(2) by auto
  then have keys: "set ?l = fst ` set ?m" unfolding hm_insert_keys assms(3) .
  have ds: "distinct ?l" using assms(2) by simp
  have "hm_wf ?m" using assms(1) by simp
  from cache_evict_ends [OF this keys ds, of "bc_cap c"] obtain l m'
    where e: "cache_evict (bc_cap c) ?l ?m = Some (l, m')" "hm_wf m'" "set l = fst ` set m'" "distinct l" "length m' \<le> bc_cap c"
      "\<forall>b d. hm_get m' b = Some d \<longrightarrow> hm_get ?m b = Some d" by blast
  have "\<forall>b d. hm_get m' b = Some d \<longrightarrow> Q b d"
    using e(6) assms(4,5) by (auto split: if_splits)
  with e show ?thesis by (simp add: cache_put_def cache_touch_def cache_wf_def)
qed

lemma cache_put_ok:
  assumes "hm_wf (bc_map c)" "distinct (bc_lru c)" "insert key (set (bc_lru c)) = insert key (fst ` set (bc_map c))"
    "\<forall>b d. hm_get (bc_map c) b = Some d \<longrightarrow> block_ok img b d" "block_ok img key v"
  shows "\<exists>c'. cache_put key v c = Some c' \<and> cache_ok img c' \<and> bc_cap c' = bc_cap c"
  using cache_put_keeps [of c key "block_ok img", OF assms] by (auto simp: cache_ok_def)

lemma cache_touch_wf: "cache_wf c \<Longrightarrow> k \<in> fst ` set (bc_map c) \<Longrightarrow> cache_wf (cache_touch k c)"
  by (auto simp: cache_wf_def cache_touch_def)

lemma cache_touch_ok: "cache_ok img c \<Longrightarrow> k \<in> fst ` set (bc_map c) \<Longrightarrow> cache_ok img (cache_touch k c)"
  using cache_touch_wf [of c k] by (simp add: cache_ok_def) (simp add: cache_touch_def)

lemma img_slice_append:
  "0 \<le> off \<Longrightarrow> img_slice img off n @ img_slice img (off + int n) k = img_slice img off (n + k)"
  by (simp add: img_slice_def nat_add_distrib take_add add.commute [of n "nat off"])

lemma length_img_slice: "nat off + n \<le> length img \<Longrightarrow> length (img_slice img off n) = n"
  by (simp add: img_slice_def)

lemma img_slice_take: "take k (img_slice img off n) = img_slice img off (min k n)"
  by (simp add: img_slice_def)

lemma img_slice_drop: "0 \<le> off \<Longrightarrow> drop k (img_slice img off n) = img_slice img (off + int k) (n - k)"
  by (simp add: img_slice_def drop_take nat_add_distrib add.commute)

lemma block_ok_slice:
  assumes "block_ok img b d" "k + n \<le> HTTP_BLOCK_SIZE" "nat b * HTTP_BLOCK_SIZE + k + n \<le> length img"
  shows "take n (drop k d) = img_slice img (b * int HTTP_BLOCK_SIZE + int k) n"
proof (rule nth_equalityI)
  have nb: "nat (b * int HTTP_BLOCK_SIZE + int k) = nat b * HTTP_BLOCK_SIZE + k"
    using assms(1) by (simp add: block_ok_def nat_add_distrib nat_mult_distrib)
  show "length (take n (drop k d)) = length (img_slice img (b * int HTTP_BLOCK_SIZE + int k) n)"
    using assms by (simp add: img_slice_def nb block_ok_def)
  fix i assume "i < length (take n (drop k d))"
  then have "i < n" by simp
  with assms show "take n (drop k d) ! i = img_slice img (b * int HTTP_BLOCK_SIZE + int k) n ! i"
    by (simp add: img_slice_def nb block_ok_def add.assoc)
qed


lemma block_of_bounds: "0 \<le> g \<Longrightarrow> block_of g * int HTTP_BLOCK_SIZE \<le> g \<and> g < block_of g * int HTTP_BLOCK_SIZE + int HTTP_BLOCK_SIZE \<and> 0 \<le> block_of g"
  using pos_mod_bound [of 4096 g] pos_mod_sign [of 4096 g] div_mult_mod_eq [of g 4096]
  by (simp add: block_of_def HTTP_BLOCK_SIZE_def pos_imp_zdiv_nonneg_iff del: div_mult_mod_eq mult_div_mod_eq pos_mod_bound pos_mod_sign) linarith

lemma read_blocks_ok:
  assumes "cache_ok img c" "0 \<le> off" "nat off + want \<le> length img" "length copied < want"
    "copied = img_slice img off (length copied)" "block_id = block_of (off + int (length copied))"
  shows "\<exists>r c'. read_blocks k block_id off want copied c = (r, c') \<and> cache_ok img c' \<and>
           (\<forall>d. r = Some d \<longrightarrow> d = img_slice img off want)"
  using assms
proof (induction k arbitrary: block_id copied c)
  case 0
  then show ?case by simp
next
  case (Suc k)
  let ?g = "off + int (length copied)"
  let ?o = "nat (max (off + int (length copied) - block_id * int HTTP_BLOCK_SIZE) 0)"
  let ?n = "min (want - length copied) (HTTP_BLOCK_SIZE - ?o)"
  have g: "block_id * int HTTP_BLOCK_SIZE \<le> ?g" "?g < block_id * int HTTP_BLOCK_SIZE + int HTTP_BLOCK_SIZE" "0 \<le> block_id"
    using block_of_bounds [of ?g] Suc.prems(2,6) by simp_all
  show ?case
  proof (cases "hm_get (bc_map c) block_id")
    case None
    with Suc.prems(1) show ?thesis by simp
  next
    case (Some d)
    then have d: "block_ok img block_id d" using Suc.prems(1) by (simp add: cache_ok_def)
    then have ld: "length d = HTTP_BLOCK_SIZE" by (simp add: block_ok_def)
    have o: "int ?o = ?g - block_id * int HTTP_BLOCK_SIZE" using g by simp
    have at: "block_id * int HTTP_BLOCK_SIZE + int ?o = ?g" using o by simp
    have "int (nat block_id * HTTP_BLOCK_SIZE + ?o) = ?g" using g(3) at by simp
    then have pos: "nat block_id * HTTP_BLOCK_SIZE + ?o = nat ?g" by linarith
    have "nat ?g + (want - length copied) \<le> length img" using Suc.prems(2,3,4) by (simp add: nat_add_distrib)
    then have room: "nat block_id * HTTP_BLOCK_SIZE + ?o + ?n \<le> length img"
      unfolding pos by (rule order_trans [rotated]) simp
    have fits: "?o + ?n \<le> HTTP_BLOCK_SIZE" using g o by linarith
    have piece: "take ?n (drop ?o d) = img_slice img ?g ?n"
      using block_ok_slice [OF d fits room] at by simp
    let ?c = "copied @ img_slice img ?g ?n"
    have lp: "length (img_slice img ?g ?n) = ?n"
      by (rule length_img_slice) (use Suc.prems(2,3,4) in \<open>simp add: nat_add_distrib\<close>)
    have lc: "length ?c = length copied + ?n" using lp by (simp only: length_append)
    have c: "?c = img_slice img off (length ?c)"
      unfolding lc using img_slice_append [OF Suc.prems(2), of img "length copied" ?n] Suc.prems(5) by metis
    have tc: "cache_ok img (cache_touch block_id c)" by (rule cache_touch_ok [OF Suc.prems(1) hm_get_key [OF Some]])
    have next_block: "block_id + 1 = block_of (off + int (length ?c))" if "length ?c < want"
    proof -
      have "?n \<noteq> want - length copied" using that unfolding lc by linarith
      then have "?n = HTTP_BLOCK_SIZE - ?o" by (simp add: min_def split: if_splits)
      then have "int ?n = int HTTP_BLOCK_SIZE - int ?o" using fits by linarith
      then have "off + int (length ?c) = (block_id + 1) * int HTTP_BLOCK_SIZE"
        unfolding lc distrib_right using at by linarith
      then show ?thesis by (simp add: block_of_def HTTP_BLOCK_SIZE_def)
    qed
    have "?n \<le> want - length copied" by (rule min.cobounded1)
    then have le: "length ?c \<le> want" unfolding lc using Suc.prems(4) by linarith
    have step: "read_blocks (Suc k) block_id off want copied c =
        (if ?n = 0 then (None, cache_touch block_id c)
         else if length ?c = want then (Some ?c, cache_touch block_id c)
         else read_blocks k (block_id + 1) off want ?c (cache_touch block_id c))"
      by (simp only: read_blocks.simps Let_def Some option.case ld piece)
    consider (none) "?n = 0" | (full) "?n \<noteq> 0" "length ?c = want" | (more) "?n \<noteq> 0" "length ?c \<noteq> want" by blast
    then show ?thesis
    proof cases
      case none
      show ?thesis unfolding step if_P [OF none] using tc by blast
    next
      case full
      then have "?c = img_slice img off want" using c by metis
      then show ?thesis unfolding step if_not_P [OF full(1)] if_P [OF full(2)] using tc by blast
    next
      case more
      then have lt: "length ?c < want" using le by linarith
      show ?thesis unfolding step if_not_P [OF more(1)] if_not_P [OF more(2)]
        by (rule Suc.IH [OF tc Suc.prems(2,3) lt c next_block [OF lt]])
    qed
  qed
qed

lemma try_read_block_cache_ok:
  assumes "reader_ok img p" "0 \<le> off" "nat off + want \<le> length img"
  shows "\<exists>r p'. try_read_block_cache off want p = (r, p') \<and> reader_ok img p' \<and>
           (\<forall>d. r = Some d \<longrightarrow> d = img_slice img off want)"
proof (cases "want = 0")
  case True
  with assms show ?thesis by (simp add: try_read_block_cache_def img_slice_def)
next
  case False
  have "cache_ok img (pf_cache p)" using assms(1) by (simp add: reader_ok_def)
  from read_blocks_ok [OF this assms(2,3), of "[]" "block_of off"
      "nat (block_of (off + int want - 1) - block_of off + 1)"] False
  obtain r c where "read_blocks (nat (block_of (off + int want - 1) - block_of off + 1)) (block_of off) off want [] (pf_cache p) = (r, c)"
    "cache_ok img c" "\<forall>d. r = Some d \<longrightarrow> d = img_slice img off want"
    by (auto simp: img_slice_def)
  with False assms(1) show ?thesis
    by (auto simp: try_read_block_cache_def Let_def reader_ok_def buffer_ok_def)
qed


lemma splice_0: "length data \<le> length block \<Longrightarrow> splice block 0 data = data @ drop (length data) block"
  by (simp add: splice_def)

text \<open>Data that starts at a block boundary and ends at one, or where the image ends, fills whole blocks.\<close>

lemma store_blocks_ok:
  assumes "cache_ok img c" "aligned_read img off (length data)" "data = img_slice img off (length data)"
  shows "\<exists>c'. store_blocks off data c = Some c' \<and> cache_ok img c'"
  using assms
proof (induction off data c rule: store_blocks.induct)
  case (1 off data c)
  show ?case
  proof (cases "data = []")
    case True
    with 1 show ?thesis by (subst store_blocks.simps) simp
  next
    case False
    let ?b = "block_of off" and ?w = "min HTTP_BLOCK_SIZE (length data)"
    let ?old = "case hm_get (bc_map c) ?b of Some d \<Rightarrow> d | None \<Rightarrow> replicate HTTP_BLOCK_SIZE 0"
    let ?c1 = "c\<lparr>bc_map := hm_remove ?b (bc_map c)\<rparr>"
    let ?new = "splice ?old 0 (take ?w data)"
    have al: "0 \<le> off" "nat off mod HTTP_BLOCK_SIZE = 0" using 1(3) by (simp_all add: aligned_read_def)
    have "int (nat off mod HTTP_BLOCK_SIZE) = 0" by (simp only: al(2) of_nat_0)
    then have "off mod int HTTP_BLOCK_SIZE = 0" using al(1) by (simp only: of_nat_mod int_nat_eq if_True)
    then have b1: "?b * int HTTP_BLOCK_SIZE = off" unfolding block_of_def by (metis dvd_div_mult_self mod_0_imp_dvd)
    have b2: "0 \<le> ?b" using block_of_bounds [OF al(1)] by simp
    have nb: "nat ?b * HTTP_BLOCK_SIZE = nat off" using b1 b2 by (metis nat_int nat_mult_distrib)
    have old: "length ?old = HTTP_BLOCK_SIZE"
      using 1(2) by (auto simp: cache_ok_def block_ok_def split: option.splits)
    have end_or_full: "HTTP_BLOCK_SIZE \<le> length data \<or> nat off + length data = length img"
      using 1(3) False by (auto simp: aligned_read_def) (metis dvd_imp_le length_greater_0_conv mod_0_imp_dvd)
    have nth: "?new ! i = img ! (nat off + i)" if "i < HTTP_BLOCK_SIZE" "nat off + i < length img" for i
    proof -
      have i: "i < ?w" using that end_or_full by (auto simp: min_def)
      then have "?new ! i = data ! i" using old by (simp add: splice_0 nth_append)
      also have "\<dots> = img ! (nat off + i)" using i 1(3) by (subst 1(4)) (simp add: img_slice_def aligned_read_def)
      finally show ?thesis .
    qed
    have blk: "block_ok img ?b ?new"
      using b2 old nth by (simp add: block_ok_def nb splice_0)
    have c1: "hm_wf (bc_map ?c1)" "distinct (bc_lru ?c1)" "insert ?b (set (bc_lru ?c1)) = insert ?b (fst ` set (bc_map ?c1))"
      "\<forall>b d. hm_get (bc_map ?c1) b = Some d \<longrightarrow> block_ok img b d"
      using 1(2) by (auto simp: cache_ok_def cache_wf_def hm_remove_keys)
    from cache_put_ok [OF c1 blk] obtain c2 where c2: "cache_put ?b ?new ?c1 = Some c2" "cache_ok img c2" by blast
    have off0: "nat (off - ?b * int HTTP_BLOCK_SIZE) = 0" using b1 by simp
    have rest: "drop ?w data = img_slice img (off + int ?w) (length (drop ?w data))"
      using al(1) by (subst (1) 1(4)) (simp add: img_slice_drop)
    have alr: "aligned_read img (off + int ?w) (length (drop ?w data))" if "drop ?w data \<noteq> []"
    proof -
      have "HTTP_BLOCK_SIZE < length data" using that by (auto simp: min_def split: if_splits)
      then show ?thesis using 1(3)
        by (auto simp: aligned_read_def nat_add_distrib mod_add_self2 le_mod_geq [symmetric] min_def)
    qed
    have step: "store_blocks off data c = store_blocks (off + int ?w) (drop ?w data) c2"
      using False c2(1) off0 by (subst store_blocks.simps) (simp add: Let_def)
    show ?thesis
    proof (cases "drop ?w data = []")
      case True
      then show ?thesis unfolding step using c2(2) by (subst store_blocks.simps) simp
    next
      case drop: False
      have "\<exists>c'. store_blocks (off + int ?w) (drop ?w data) c2 = Some c' \<and> cache_ok img c'"
        using 1(1) [OF False refl refl refl refl refl, of c2] off0 c2 alr [OF drop] rest by simp
      then show ?thesis unfolding step .
    qed
  qed
qed


subsection \<open>Fetching and reading\<close>

lemma send_attempts_source:
  "fst (send_attempts n e get a b w) = Inr resp \<Longrightarrow> \<exists>w0. fst (get w0 a b) = Inr resp"
proof (induction n arbitrary: e w)
  case (Suc n)
  obtain r w' where g: "get w a b = (r, w')" by (rule prod.exhaust)
  show ?case
  proof (cases r)
    case (Inl err)
    with Suc g show ?thesis by simp
  next
    case (Inr resp')
    with Suc.prems g have "fst (get w a b) = Inr resp" by simp
    then show ?thesis ..
  qed
qed simp

lemma check_range_response_Inr:
  assumes "check_range_response a b n resp = Inr data"
  obtains e t where "Option.bind (hp_content_range resp) parse_content_range = Some (a, e, t)"
    "length (hp_body resp) = nat (e - a + 1)" "data = hp_body resp"
  using assms
  by (auto simp: check_range_response_def Let_def split: option.splits if_splits)

lemma fetch_range_once_ok:
  assumes "answers_full_ranges img get" "0 \<le> a" "a \<le> b" "b < int (length img)"
    "fetch_range_once get a b n w = (Inr data, w')"
  shows "data = img_slice img a (nat (b - a + 1))"
proof -
  obtain resp where s: "fst (send_with_retry get a b w) = Inr resp" and c: "check_range_response a b n resp = Inr data"
    using assms(5) by (auto simp: fetch_range_once_def split: prod.splits sum.splits)
  obtain w0 where g: "fst (get w0 a b) = Inr resp"
    using send_attempts_source [OF s [unfolded send_with_retry_def]] by blast
  obtain e t where "Option.bind (hp_content_range resp) parse_content_range = Some (a, e, t)"
    "length (hp_body resp) = nat (e - a + 1)" "data = hp_body resp"
    using c by (rule check_range_response_Inr)
  with assms(1) [unfolded answers_full_ranges_def] g assms(2-4) show ?thesis by blast
qed

lemma length_full_fetch:
  assumes "0 \<le> off" "0 < n" "nat off + n \<le> length img"
  shows "off \<le> off + int n - 1" "off + int n - 1 < int (length img)" "nat (off + int n - 1 - off + 1) = n"
  using assms by linarith+

lemma begin_read_ok: "reader_ok img p \<Longrightarrow> reader_ok img (begin_read_with_prefetch_state off want p)"
  by (simp add: begin_read_with_prefetch_state_def Let_def reader_ok_def buffer_ok_def clear_buffer_def)

lemma record_last_read_ok [simp]: "reader_ok img (record_last_read off n p) = reader_ok img p"
  by (simp add: record_last_read_def reader_ok_def buffer_ok_def)

lemma buffer_hit:
  assumes "buffer_ok img p" "buffer_holds p off want"
  shows "take (min (pf_buf_len p - nat (off - pf_buf_off p)) want) (drop (nat (off - pf_buf_off p)) (pf_buf p)) = img_slice img off want"
proof -
  let ?s = "nat (off - pf_buf_off p)" and ?l = "pf_buf_len p"
  have b: "0 \<le> pf_buf_off p" "pf_buf_off p \<le> off" "?s + want \<le> ?l"
    "take ?l (pf_buf p) = img_slice img (pf_buf_off p) ?l"
    using assms by (auto simp: buffer_ok_def buffer_holds_def)
  have n: "min (?l - ?s) want = want" using b(3) by simp
  have "take want (drop ?s (pf_buf p)) = take want (drop ?s (take ?l (pf_buf p)))"
    using b(3) by (simp add: drop_take)
  also have "\<dots> = img_slice img off want"
    unfolding b(4) using b(1-3) by (simp add: img_slice_drop img_slice_take)
  finally show ?thesis unfolding n .
qed

lemma filled_buffer_ok:
  assumes "reader_ok img p" "0 \<le> off" "data = img_slice img off (length data)" "nat off + length data \<le> length img"
    "length data \<le> length b"
  shows "reader_ok img (clear_buffer p\<lparr>pf_buf := splice b 0 data, pf_buf_off := off, pf_buf_len := length data\<rparr>)"
proof -
  have "take (length data) (splice b 0 data) = img_slice img off (length data)" "length data \<le> length (splice b 0 data)"
    using assms(3,5) by (simp_all add: splice_0)
  then show ?thesis using assms(1,2,4) by (simp add: reader_ok_def buffer_ok_def clear_buffer_def)
qed

lemma read_at_with_prefetch_ok:
  assumes "answers_full_ranges img get" "reader_ok img p" "0 \<le> off" "0 < want" "nat off + want \<le> length img"
    "read_at_with_prefetch get (int (length img)) off want (p, w) = (r, p', w')"
  shows "reader_ok img p'" "r = Inr (Some data) \<Longrightarrow> data = img_slice img off want"
proof -
  let ?rem = "nat (max (int (length img) - off) 0)"
  let ?len = "min ?rem HTTP_PREFETCH_CHUNK_SIZE"
  have rem: "want \<le> ?rem" "0 < ?rem" using assms(3-5) by linarith+
  consider (off) "want > HTTP_PREFETCH_CHUNK_SIZE \<or> \<not> pf_enabled p"
    | (hit) "want \<le> HTTP_PREFETCH_CHUNK_SIZE" "pf_enabled p" "buffer_holds p off want"
    | (miss) "want \<le> HTTP_PREFETCH_CHUNK_SIZE" "pf_enabled p" "\<not> buffer_holds p off want" by linarith
  then have "reader_ok img p' \<and> (\<forall>data. r = Inr (Some data) \<longrightarrow> data = img_slice img off want)"
  proof cases
    case off
    then have "read_at_with_prefetch get (int (length img)) off want (p, w) = (Inr None, p, w)"
      by (cases "want > HTTP_PREFETCH_CHUNK_SIZE") (simp_all add: read_at_with_prefetch_def)
    with assms(2,6) show ?thesis by auto
  next
    case hit
    have "buffer_ok img p" using assms(2) by (simp add: reader_ok_def)
    from buffer_hit [OF this hit(3)] assms(2,6) hit show ?thesis
      by (auto simp: read_at_with_prefetch_def Let_def)
  next
    case miss
    let ?lbuf = "if length (pf_buf p) < HTTP_PREFETCH_CHUNK_SIZE
      then pf_buf p @ replicate (HTTP_PREFETCH_CHUNK_SIZE - length (pf_buf p)) 0 else pf_buf p"
    have cl: "reader_ok img (clear_buffer p\<lparr>pf_buf := ?lbuf\<rparr>)"
      using assms(2) by (simp add: reader_ok_def buffer_ok_def clear_buffer_def)
    have len: "0 < ?len" "nat off + ?len \<le> length img" "want \<le> ?len" using rem miss(1) assms(3,4) by (auto simp: min_def)
    obtain x w1 where f: "fetch_range_once get off (off + int ?len - 1) ?len w = (x, w1)" by (rule prod.exhaust)
    have nz: "\<not> want > HTTP_PREFETCH_CHUNK_SIZE" "?rem \<noteq> 0" using miss(1) rem(2) by linarith+
    note eqn = read_at_with_prefetch_def Let_def prod.case if_not_P [OF nz(1)] if_not_P [OF nz(2)] f
    show ?thesis
    proof (cases x)
      case (Inl err)
      from assms(6) miss(2,3) have "r = Inl err \<and> p' = clear_buffer p\<lparr>pf_buf := ?lbuf\<rparr>"
        unfolding eqn Inl by simp
      with cl show ?thesis by simp
    next
      case (Inr data)
      note lf = length_full_fetch [OF assms(3) len(1,2)]
      have d: "data = img_slice img off ?len"
        using fetch_range_once_ok [OF assms(1,3) lf(1,2) f [unfolded Inr]] unfolding lf(3) .
      then have ld: "length data = ?len" using len(2) by (simp add: length_img_slice)
      have lb: "?len \<le> length ?lbuf" by (auto simp: min_le_iff_disj)
      let ?p2 = "clear_buffer p\<lparr>pf_buf := splice ?lbuf 0 data, pf_buf_off := off, pf_buf_len := length data\<rparr>"
      have ok: "reader_ok img ?p2"
        by (rule filled_buffer_ok [OF assms(2,3)]) (use d ld lb len(2) in \<open>simp_all only: ld\<close>)
      have "r = Inr (Some (take (min (length data) want) data))" "p' = record_last_read off (min (length data) want) ?p2"
        using assms(6) miss(2,3) unfolding eqn Inr by simp_all
      moreover have "take (min (length data) want) data = img_slice img off want"
        unfolding ld using len(3) d by (simp add: img_slice_take min_absorb2)
      ultimately show ?thesis using ok by simp
    qed
  qed
  then show "reader_ok img p'" "r = Inr (Some data) \<Longrightarrow> data = img_slice img off want" by simp_all
qed


lemma direct_full:
  assumes "answers_full_ranges img get" "0 \<le> off" "0 < want" "nat off + want \<le> length img"
    "read_at_direct get off (off + int want - 1) want w = (Inr data, w')"
  shows "data = img_slice img off want"
proof -
  note lf = length_full_fetch [OF assms(2-4)]
  obtain x w1 where f: "fetch_range_once get off (off + int want - 1) want w = (x, w1)" by (rule prod.exhaust)
  show ?thesis
  proof (cases x)
    case (Inl err)
    with assms(3,5) f show ?thesis by (simp add: read_at_direct_def direct_loop.simps)
  next
    case (Inr d)
    have d: "d = img_slice img off want"
      using fetch_range_once_ok [OF assms(1,2) lf(1,2) f [unfolded Inr]] unfolding lf(3) .
    then have "length d = want" using assms(4) by (simp add: length_img_slice)
    with assms(3,5) f Inr d show ?thesis by (simp add: read_at_direct_def direct_loop.simps [of _ _ _ _ 0])
  qed
qed

lemma store_into_block_cache_ok:
  assumes "reader_ok img p" "aligned_read img off want"
  shows "\<exists>p'. store_into_block_cache off (img_slice img off want) p = Some p' \<and> reader_ok img p'"
proof -
  have l: "length (img_slice img off want) = want" using assms(2) by (simp add: aligned_read_def length_img_slice)
  from store_blocks_ok [of img "pf_cache p" off "img_slice img off want"] assms l
  obtain c where "store_blocks off (img_slice img off want) (pf_cache p) = Some c" "cache_ok img c"
    by (auto simp: reader_ok_def)
  with assms(1) show ?thesis by (simp add: store_into_block_cache_def reader_ok_def buffer_ok_def)
qed

lemma read_at_ok:
  assumes "answers_full_ranges img get" "reader_ok img p" "aligned_read img off want"
  shows "\<exists>r p' w'. read_at get (int (length img)) off want (p, w) = Some (r, p', w') \<and> reader_ok img p' \<and>
           (\<forall>data. r = Inr data \<longrightarrow> data = img_slice img off want)"
proof (cases "want = 0")
  case True
  with assms show ?thesis by (simp add: read_at_def img_slice_def aligned_read_def)
next
  case False
  have a: "0 \<le> off" "0 < want" "nat off + want \<le> length img" using assms(3) False by (simp_all add: aligned_read_def)
  obtain c p1 where t: "try_read_block_cache off want p = (c, p1)" "reader_ok img p1"
    "\<forall>d. c = Some d \<longrightarrow> d = img_slice img off want"
    using try_read_block_cache_ok [OF assms(2) a(1,3)] by blast
  show ?thesis
  proof (cases c)
    case (Some d)
    with a t show ?thesis by (simp add: read_at_def)
  next
    case None
    let ?p2 = "begin_read_with_prefetch_state off want p1"
    obtain x p3 w' where f: "read_at_with_prefetch get (int (length img)) off want (?p2, w) = (x, p3, w')"
      by (metis prod.exhaust)
    note f_ok = read_at_with_prefetch_ok [OF assms(1) begin_read_ok [OF t(2)] a f]
    note run = read_at_def None t(1) f split_beta
    consider (err) e where "x = Inl e" | (pre) d where "x = Inr (Some d)" | (direct) "x = Inr None"
      by (metis option.exhaust sum.exhaust)
    then show ?thesis
    proof cases
      case err
      with a f_ok(1) show ?thesis by (simp add: run)
    next
      case pre
      then have d: "d = img_slice img off want" by (rule f_ok(2))
      obtain p4 where "store_into_block_cache off d p3 = Some p4" "reader_ok img p4"
        using store_into_block_cache_ok [OF f_ok(1) assms(3)] unfolding d by blast
      with pre a d show ?thesis by (simp add: run)
    next
      case direct
      obtain y w2 where g: "read_at_direct get off (off + int want - 1) want w' = (y, w2)" by (rule prod.exhaust)
      show ?thesis
      proof (cases y)
        case (Inl e)
        with direct a g f_ok(1) show ?thesis by (simp add: run)
      next
        case (Inr d)
        have d: "d = img_slice img off want" by (rule direct_full [OF assms(1) a g [unfolded Inr]])
        obtain p4 where "store_into_block_cache off d p3 = Some p4" "reader_ok img p4"
          using store_into_block_cache_ok [OF f_ok(1) assms(3)] unfolding d by blast
        with direct Inr g a d show ?thesis by (simp add: run)
      qed
    qed
  qed
qed

lemma prefetch_new_ok: "reader_ok img prefetch_new"
  by (simp add: reader_ok_def prefetch_new_def cache_ok_def cache_wf_def cache_new_def buffer_ok_def)


subsection \<open>The shape of the reader's state\<close>

text \<open>
  Whatever the server answers and whatever is read: the cache holds at most its capacity of blocks,
  each of the block size, and the prefetch buffer has its fixed length.
\<close>

definition reader_shape :: "prefetch_state \<Rightarrow> bool" where
  "reader_shape p =
     (cache_wf (pf_cache p) \<and> bc_cap (pf_cache p) = HTTP_BLOCK_CACHE_CAPACITY \<and>
      (\<forall>b d. hm_get (bc_map (pf_cache p)) b = Some d \<longrightarrow> length d = HTTP_BLOCK_SIZE) \<and>
      length (pf_buf p) = HTTP_PREFETCH_CHUNK_SIZE \<and> pf_buf_len p \<le> HTTP_PREFETCH_CHUNK_SIZE)"

lemma touch_keys [simp]: "bc_map (cache_touch k c) = bc_map c" "bc_cap (cache_touch k c) = bc_cap c"
  by (simp_all add: cache_touch_def)

lemma read_blocks_shape:
  "cache_wf c \<Longrightarrow> cache_wf (snd (read_blocks k b off want copied c)) \<and> bc_map (snd (read_blocks k b off want copied c)) = bc_map c
     \<and> bc_cap (snd (read_blocks k b off want copied c)) = bc_cap c"
proof (induction k arbitrary: b copied c)
  case (Suc k)
  show ?case
  proof (cases "hm_get (bc_map c) b")
    case (Some d)
    have t: "cache_wf (cache_touch b c)" by (rule cache_touch_wf [OF Suc.prems hm_get_key [OF Some]])
    show ?thesis using Some t Suc.IH [OF t] by (simp add: Let_def)
  qed (use Suc.prems in simp)
qed simp

lemma store_blocks_shape:
  assumes "cache_wf c" "\<forall>b d. hm_get (bc_map c) b = Some d \<longrightarrow> length d = HTTP_BLOCK_SIZE"
  shows "\<exists>c'. store_blocks off data c = Some c' \<and> cache_wf c' \<and> bc_cap c' = bc_cap c \<and>
           (\<forall>b d. hm_get (bc_map c') b = Some d \<longrightarrow> length d = HTTP_BLOCK_SIZE)"
  using assms
proof (induction off data c rule: store_blocks.induct)
  case (1 off data c)
  show ?case
  proof (cases "data = []")
    case True
    with 1 show ?thesis by (subst store_blocks.simps) simp
  next
    case False
    let ?b = "block_of off"
    let ?o = "nat (off - ?b * int HTTP_BLOCK_SIZE)"
    let ?w = "min (HTTP_BLOCK_SIZE - ?o) (length data)"
    let ?old = "case hm_get (bc_map c) ?b of Some d \<Rightarrow> d | None \<Rightarrow> replicate HTTP_BLOCK_SIZE 0"
    let ?c1 = "c\<lparr>bc_map := hm_remove ?b (bc_map c)\<rparr>"
    have old: "length ?old = HTTP_BLOCK_SIZE" using 1(3) by (auto split: option.splits)
    have "off - ?b * int HTTP_BLOCK_SIZE = off mod int HTTP_BLOCK_SIZE"
      by (simp add: block_of_def minus_div_mult_eq_mod)
    then have "?o < HTTP_BLOCK_SIZE" by (simp add: HTTP_BLOCK_SIZE_def nat_less_iff)
    then have new: "length (splice ?old ?o (take ?w data)) = HTTP_BLOCK_SIZE" using old by (simp add: splice_def)
    have c1: "hm_wf (bc_map ?c1)" "distinct (bc_lru ?c1)" "insert ?b (set (bc_lru ?c1)) = insert ?b (fst ` set (bc_map ?c1))"
      "\<forall>b d. hm_get (bc_map ?c1) b = Some d \<longrightarrow> length d = HTTP_BLOCK_SIZE"
      using 1(2,3) by (auto simp: cache_wf_def hm_remove_keys)
    from cache_put_keeps [of ?c1 ?b "\<lambda>b d. length d = HTTP_BLOCK_SIZE", OF c1 new] obtain c2
      where c2: "cache_put ?b (splice ?old ?o (take ?w data)) ?c1 = Some c2" "cache_wf c2"
        "\<forall>b d. hm_get (bc_map c2) b = Some d \<longrightarrow> length d = HTTP_BLOCK_SIZE" "bc_cap c2 = bc_cap c" by auto
    have step: "store_blocks off data c = store_blocks (off + int ?w) (drop ?w data) c2"
      using False c2(1) by (subst store_blocks.simps) (simp add: Let_def)
    show ?thesis unfolding step using 1(1) [OF False refl refl refl refl refl c2(1) c2(2,3)] c2(4) by simp
  qed
qed

lemma shape_simps:
  "reader_shape (record_last_read off n p) = reader_shape p" "reader_shape p \<Longrightarrow> reader_shape (clear_buffer p)"
  "reader_shape p \<Longrightarrow> reader_shape (begin_read_with_prefetch_state off want p)"
  by (simp_all add: reader_shape_def record_last_read_def clear_buffer_def begin_read_with_prefetch_state_def Let_def)

lemma check_range_length: "check_range_response a b n resp = Inr data \<Longrightarrow> length data \<le> n"
  by (auto simp: check_range_response_def Let_def split: option.splits if_splits)

lemma fetch_length: "fetch_range_once get a b n w = (Inr data, w') \<Longrightarrow> length data \<le> n"
  by (auto simp: fetch_range_once_def split: prod.splits sum.splits dest: check_range_length)


lemma prefetch_shape:
  assumes "reader_shape p" "read_at_with_prefetch get n off want (p, w) = (r, p', w')"
  shows "reader_shape p'"
proof (cases "\<not> want > HTTP_PREFETCH_CHUNK_SIZE \<and> pf_enabled p \<and> \<not> buffer_holds p off want \<and> nat (max (n - off) 0) \<noteq> 0")
  case False
  with assms show ?thesis by (auto simp: read_at_with_prefetch_def Let_def shape_simps split: if_splits)
next
  case True
  let ?len = "min (nat (max (n - off) 0)) HTTP_PREFETCH_CHUNK_SIZE"
  obtain x w1 where f: "fetch_range_once get off (off + int ?len - 1) ?len w = (x, w1)" by (rule prod.exhaust)
  have c: "\<not> want > HTTP_PREFETCH_CHUNK_SIZE" "pf_enabled p" "\<not> buffer_holds p off want" "nat (max (n - off) 0) \<noteq> 0"
    using True by simp_all
  have lb: "\<not> length (pf_buf p) < HTTP_PREFETCH_CHUNK_SIZE" using assms(1) by (simp add: reader_shape_def)
  note eqn = read_at_with_prefetch_def Let_def prod.case if_not_P [OF c(1)] if_not_P [OF c(3)] if_not_P [OF c(4)] if_not_P [OF lb] f
  show ?thesis
  proof (cases x)
    case (Inl err)
    from assms(2) c(2) have "p' = clear_buffer p\<lparr>pf_buf := pf_buf p\<rparr>" unfolding eqn Inl by simp
    with assms(1) show ?thesis by (simp add: reader_shape_def clear_buffer_def)
  next
    case (Inr data)
    have "length data \<le> ?len" using fetch_length [OF f [unfolded Inr]] .
    then have l: "length data \<le> HTTP_PREFETCH_CHUNK_SIZE" by simp
    from assms(2) c(2) have "p' = record_last_read off (min (length data) want)
        (clear_buffer p\<lparr>pf_buf := splice (pf_buf p) 0 data, pf_buf_off := off, pf_buf_len := length data\<rparr>)"
      unfolding eqn Inr by simp
    with assms(1) l show ?thesis by (simp add: reader_shape_def clear_buffer_def record_last_read_def splice_0)
  qed
qed

lemma store_shape:
  assumes "reader_shape p"
  shows "\<exists>p'. store_into_block_cache off data p = Some p' \<and> reader_shape p'"
proof -
  have "cache_wf (pf_cache p)" "\<forall>b d. hm_get (bc_map (pf_cache p)) b = Some d \<longrightarrow> length d = HTTP_BLOCK_SIZE"
    using assms by (simp_all add: reader_shape_def)
  from store_blocks_shape [OF this, of off data] assms show ?thesis by (auto simp: store_into_block_cache_def reader_shape_def)
qed

lemma read_at_shape:
  assumes "reader_shape p"
  shows "\<exists>r p' w'. read_at get n off want (p, w) = Some (r, p', w') \<and> reader_shape p'"
proof (cases "off < 0 \<or> want = 0")
  case True
  with assms show ?thesis by (auto simp: read_at_def)
next
  case False
  obtain c p1 where t: "try_read_block_cache off want p = (c, p1)" by (rule prod.exhaust)
  let ?c = "snd (read_blocks (nat (block_of (off + int want - 1) - block_of off + 1)) (block_of off) off want [] (pf_cache p))"
  have "p1 = p\<lparr>pf_cache := ?c\<rparr>" using t False by (auto simp: try_read_block_cache_def Let_def split: prod.splits)
  then have p1: "reader_shape p1" using assms read_blocks_shape [of "pf_cache p"] by (simp add: reader_shape_def)
  show ?thesis
  proof (cases c)
    case (Some d)
    with False t p1 show ?thesis by (simp add: read_at_def)
  next
    case None
    let ?p2 = "begin_read_with_prefetch_state off want p1"
    obtain x p3 w1 where f: "read_at_with_prefetch get n off want (?p2, w) = (x, p3, w1)" by (metis prod.exhaust)
    have p3: "reader_shape p3" by (rule prefetch_shape [OF shape_simps(3) [OF p1] f])
    obtain y w2 where g: "read_at_direct get off (off + int want - 1) want w1 = (y, w2)" by (rule prod.exhaust)
    note run = read_at_def None t f g split_beta
    consider (err) e where "x = Inl e" | (pre) d where "x = Inr (Some d)" | (dir_err) e where "x = Inr None" "y = Inl e"
      | (dir) d where "x = Inr None" "y = Inr d" by (metis option.exhaust sum.exhaust)
    then show ?thesis
    proof cases
      case err
      with False p3 show ?thesis by (simp add: run)
    next
      case pre
      obtain p4 where "store_into_block_cache off d p3 = Some p4" "reader_shape p4" using store_shape [OF p3] by blast
      with pre False show ?thesis by (simp add: run)
    next
      case dir_err
      with False p3 show ?thesis by (simp add: run)
    next
      case dir
      obtain p4 where "store_into_block_cache off d p3 = Some p4" "reader_shape p4" using store_shape [OF p3] by blast
      with dir False show ?thesis by (simp add: run shape_simps)
    qed
  qed
qed

primrec read_run :: "'w http \<Rightarrow> int \<Rightarrow> (int \<times> nat) list \<Rightarrow> prefetch_state \<times> 'w \<Rightarrow> (prefetch_state \<times> 'w) option" where
  "read_run get n [] s = Some s"
| "read_run get n (q # qs) s = (case read_at get n (fst q) (snd q) s of None \<Rightarrow> None | Some (r, s') \<Rightarrow> read_run get n qs s')"

text \<open>
  C17: The reader uses bounded memory and always returns: whatever the server answers and whatever is
  read, aligned or not, every read returns, the block cache holds at most 2048 blocks of exactly 4096
  bytes, the list for eviction names each of them exactly once and nothing else, and the prefetch buffer
  keeps its length of one megabyte.
\<close>

theorem reader_memory_bounded:
  "\<exists>p' w'. read_run get n qs (prefetch_new, w) = Some (p', w') \<and>
     length (bc_map (pf_cache p')) \<le> 2048 \<and> list_all (\<lambda>(b, d). length d = 4096) (bc_map (pf_cache p')) \<and>
     distinct (bc_lru (pf_cache p')) \<and> set (bc_lru (pf_cache p')) = fst ` set (bc_map (pf_cache p')) \<and>
     length (pf_buf p') = 1024 * 1024 \<and> pf_buf_len p' \<le> length (pf_buf p')"
proof -
  have "\<exists>p' w'. read_run get n qs (p, w) = Some (p', w') \<and> reader_shape p'" if "reader_shape p" for p w
    using that
  proof (induction qs arbitrary: p w)
    case (Cons q qs)
    obtain r p1 w1 where "read_at get n (fst q) (snd q) (p, w) = Some (r, p1, w1)" "reader_shape p1"
      using read_at_shape [OF Cons.prems, of get n "fst q" "snd q" w] by blast
    with Cons.IH show ?case by simp
  qed simp
  moreover have "reader_shape prefetch_new"
    by (simp add: reader_shape_def prefetch_new_def cache_new_def cache_wf_def)
  ultimately obtain p' w' where r: "read_run get n qs (prefetch_new, w) = Some (p', w')" and sh: "reader_shape p'" by blast
  from sh have "length (bc_map (pf_cache p')) \<le> 2048" "\<forall>b d. hm_get (bc_map (pf_cache p')) b = Some d \<longrightarrow> length d = 4096"
    "distinct (bc_lru (pf_cache p'))" "set (bc_lru (pf_cache p')) = fst ` set (bc_map (pf_cache p'))" "length (pf_buf p') = 1024 * 1024" "pf_buf_len p' \<le> length (pf_buf p')"
    by (simp_all add: reader_shape_def cache_wf_def HTTP_BLOCK_CACHE_CAPACITY_def HTTP_BLOCK_SIZE_def HTTP_PREFETCH_CHUNK_SIZE_def)
  moreover from this(2) sh have "list_all (\<lambda>(b, d). length d = 4096) (bc_map (pf_cache p'))"
    by (auto simp: list_all_iff reader_shape_def cache_wf_def hm_get_def hm_wf_def)
  ultimately show ?thesis using r by blast
qed

end
