(* ===== verification/Image_Device.thy ===== *)
theory Image_Device
  imports Image_Reader
begin

text \<open>
  The block device the kernel reads virtual media through (\<^verbatim>\<open>hardware/block_device.rs\<close>), over any
  image reader: the HTTP range reader of \<open>Image_Reader\<close>, or the reader that asks the browser over
  the disk data channel (\<^verbatim>\<open>WebRtcDiskReader\<close> of \<^verbatim>\<open>hardware/usb/storage.rs\<close> and the bridge of
  \<^verbatim>\<open>remote_mount.rs\<close>). The locale \<open>image_source\<close> states what the device needs of a reader; both
  readers interpret it.
\<close>

section \<open>The device\<close>

type_synonym 'r image_reader = "int \<Rightarrow> nat \<Rightarrow> 'r \<Rightarrow> ((string, u8 list) result \<times> 'r) option"

definition align_export_size :: "nat \<Rightarrow> nat" where
  "align_export_size data_size = (data_size + 4095) div 4096 * 4096"

record remote_image_device =
  rd_data_size :: nat
  rd_export_size :: nat
  rd_pos :: nat

definition remote_image_device_new :: "nat \<Rightarrow> nat \<Rightarrow> remote_image_device" where
  "remote_image_device_new data_size export_size = \<lparr>rd_data_size = data_size, rd_export_size = export_size, rd_pos = 0\<rparr>"

text \<open>The loop over the reader: \<open>acc\<close> is what has been filled; \<open>None\<close> means that a read never returns.\<close>

function fill_loop :: "'r image_reader \<Rightarrow> nat \<Rightarrow> nat \<Rightarrow> u8 list \<Rightarrow> 'r \<Rightarrow> ((string, u8 list) result \<times> 'r) option" where
  "fill_loop rd pos n acc r =
     (if length acc < n
      then case rd (int (pos + length acc)) (n - length acc) r of
             None \<Rightarrow> None
           | Some (Inl err, r') \<Rightarrow> Some (Inl err, r')
           | Some (Inr data, r') \<Rightarrow>
               if length data > n - length acc then Some (Inl ''read_at wrote past buffer'', r')
               else if data = [] then Some (Inr acc, r')
               else fill_loop rd pos n (acc @ data) r'
      else Some (Inr acc, r))"
  by pat_completeness auto
termination
  by (relation "measure (\<lambda>(rd, pos, n, acc, r). n - length acc)") (auto simp flip: length_greater_0_conv)

declare fill_loop.simps [simp del]

definition device_read ::
  "'r image_reader \<Rightarrow> nat \<Rightarrow> remote_image_device \<times> 'r \<Rightarrow> ((string, u8 list) result \<times> remote_image_device \<times> 'r) option" where
  "device_read rd buf_len s =
     (case s of (d, r) \<Rightarrow>
      if rd_pos d \<ge> rd_export_size d then Some (Inr [], d, r)
      else let to_read = min buf_len (rd_export_size d - rd_pos d) in
      if to_read = 0 then Some (Inr [], d, r)
      else if rd_pos d \<ge> rd_data_size d
      then Some (Inr (replicate to_read 0), d\<lparr>rd_pos := rd_pos d + to_read\<rparr>, r)
      else let n_from_image = min to_read (rd_data_size d - rd_pos d) in
      case fill_loop rd (rd_pos d) n_from_image [] r of
        None \<Rightarrow> None
      | Some (Inl err, r') \<Rightarrow> Some (Inl err, d, r')
      | Some (Inr filled, r') \<Rightarrow>
          if length filled < n_from_image then Some (Inl ''remote image short read'', d, r')
          else Some (Inr (filled @ replicate (to_read - n_from_image) 0), d\<lparr>rd_pos := rd_pos d + to_read\<rparr>, r'))"

definition device_write :: "u8 list \<Rightarrow> remote_image_device \<Rightarrow> (string, nat) result \<times> remote_image_device" where
  "device_write buf d = (Inl ''read-only export'', d)"

datatype seek_from = SeekStart nat | SeekCurrent int | SeekEnd int

text \<open>The target is an \<open>i128\<close>, so the sums cannot overflow; its lower 64 bits are kept.\<close>

definition device_seek :: "seek_from \<Rightarrow> remote_image_device \<Rightarrow> (string, nat) result \<times> remote_image_device" where
  "device_seek pos d =
     (let new_pos = (case pos of SeekStart x \<Rightarrow> int x
                     | SeekCurrent x \<Rightarrow> int (rd_pos d) + x
                     | SeekEnd x \<Rightarrow> int (rd_export_size d) + x)
      in if new_pos < 0 then (Inl ''seek before start'', d)
         else let p = nat new_pos mod 2 ^ 64 in
         if p > rd_export_size d then (Inl ''seek past end of export'', d)
         else (Inr p, d\<lparr>rd_pos := p\<rparr>))"

text \<open>One read request of the kernel: seek, then read; and a run of them.\<close>

definition nbd_request ::
  "'r image_reader \<Rightarrow> nat \<times> nat \<Rightarrow> remote_image_device \<times> 'r \<Rightarrow> ((string, u8 list) result \<times> remote_image_device \<times> 'r) option" where
  "nbd_request rd q s =
     (case device_seek (SeekStart (fst q)) (fst s) of
        (Inl err, d) \<Rightarrow> Some (Inl err, d, snd s)
      | (Inr _, d) \<Rightarrow> device_read rd (snd q) (d, snd s))"

primrec nbd_run ::
  "'r image_reader \<Rightarrow> (nat \<times> nat) list \<Rightarrow> remote_image_device \<times> 'r \<Rightarrow> ((string, u8 list) result list \<times> remote_image_device \<times> 'r) option" where
  "nbd_run rd [] s = Some ([], s)"
| "nbd_run rd (q # qs) s =
     (case nbd_request rd q s of
        None \<Rightarrow> None
      | Some (res, s') \<Rightarrow> map_option (\<lambda>(rs, s''). (res # rs, s'')) (nbd_run rd qs s'))"

section \<open>What the device needs of a reader\<close>

text \<open>The disk the host sees: the image, filled up with zeros to whole blocks.\<close>

definition padded_image :: "u8 list \<Rightarrow> u8 list" where
  "padded_image img = img @ replicate (align_export_size (length img) - length img) 0"

lemma align_export_size_ge: "n \<le> align_export_size n" "4096 dvd align_export_size n"
  by (simp_all add: align_export_size_def)

locale image_source =
  fixes rd :: "'r image_reader"
    and ok :: "'r \<Rightarrow> bool"
    and served :: "nat \<Rightarrow> nat \<Rightarrow> bool"
    and img :: "u8 list"
  assumes rd_returns: "ok r \<Longrightarrow> served off n \<Longrightarrow> off + n \<le> length img \<Longrightarrow>
      \<exists>res r'. rd (int off) n r = Some (res, r') \<and> ok r' \<and>
        (\<forall>data. res = Inr data \<longrightarrow> length data \<le> n \<and> data = take (length data) (drop off img) \<and>
           (length data < n \<longrightarrow> served (off + length data) (n - length data)))"
begin

definition device_ok :: "remote_image_device \<times> 'r \<Rightarrow> bool" where
  "device_ok s = (rd_data_size (fst s) = length img \<and> rd_export_size (fst s) = align_export_size (length img) \<and> ok (snd s))"

lemma fill_ok:
  assumes "ok r" "length acc < n \<longrightarrow> served (pos + length acc) (n - length acc)" "pos + n \<le> length img"
    "length acc \<le> n" "acc = take (length acc) (drop pos img)"
  shows "\<exists>res r'. fill_loop rd pos n acc r = Some (res, r') \<and> ok r' \<and>
           (\<forall>data. res = Inr data \<longrightarrow> length data \<le> n \<and> data = take (length data) (drop pos img))"
  using assms
proof (induction "n - length acc" arbitrary: acc r rule: less_induct)
  case less
  show ?case
  proof (cases "length acc < n")
    case False
    with less.prems show ?thesis by (simp add: fill_loop.simps)
  next
    case True
    have "pos + length acc + (n - length acc) \<le> length img" using True less.prems(3) by simp
    from rd_returns [OF less.prems(1) less.prems(2) [rule_format, OF True] this] obtain res r'
      where r: "rd (int (pos + length acc)) (n - length acc) r = Some (res, r')" "ok r'"
        and d: "\<And>data. res = Inr data \<Longrightarrow> length data \<le> n - length acc \<and> data = take (length data) (drop (pos + length acc) img) \<and>
           (length data < n - length acc \<longrightarrow> served (pos + length acc + length data) (n - length acc - length data))" by blast
    note step = fill_loop.simps [of rd pos n acc r]
    show ?thesis
    proof (cases res)
      case (Inl e)
      with r True show ?thesis by (simp add: step)
    next
      case (Inr data)
      note d' = d [OF Inr]
      show ?thesis
      proof (cases "data = []")
        case True
        with r Inr \<open>length acc < n\<close> less.prems(4,5) show ?thesis by (simp add: step)
      next
        case False
        have eq: "fill_loop rd pos n acc r = fill_loop rd pos n (acc @ data) r'"
          using r(1) Inr True False d' by (simp add: step)
        have app: "acc @ data = take (length (acc @ data)) (drop pos img)"
          using less.prems(5) d' by (metis add.commute drop_drop length_append take_add)
        have "n - length (acc @ data) < n - length acc" using True False
          by (simp add: diff_less_mono2)
        moreover have "length (acc @ data) < n \<longrightarrow> served (pos + length (acc @ data)) (n - length (acc @ data))"
          using d' True by (simp add: add.assoc)
        moreover have "length (acc @ data) \<le> n" using conjunct1 [OF d'] True by simp
        ultimately show ?thesis unfolding eq using less.hyps r(2) less.prems(3) app by blast
      qed
    qed
  qed
qed

lemma read_ok:
  assumes "device_ok (d, r)" "rd_pos d < length img \<longrightarrow> served (rd_pos d) (min n (length img - rd_pos d))"
  shows "\<exists>res s'. device_read rd n (d, r) = Some (res, s') \<and> device_ok s' \<and>
           (\<forall>data. res = Inr data \<longrightarrow> data = take n (drop (rd_pos d) (padded_image img)))"
proof -
  let ?p = "rd_pos d" and ?E = "align_export_size (length img)"
  let ?t = "min n (?E - ?p)" and ?m = "min n (length img - ?p)"
  have d: "rd_data_size d = length img" "rd_export_size d = ?E" "ok r" using assms(1) by (simp_all add: device_ok_def)
  have E: "length img \<le> ?E" by (rule align_export_size_ge)
  note eqn = device_read_def prod.case d(1,2) Let_def
  consider (past) "?p \<ge> ?E \<or> ?t = 0" | (pad) "?p < ?E" "?t \<noteq> 0" "?p \<ge> length img" | (image) "?p < length img" "?t \<noteq> 0" "?p < ?E"
    using E by linarith
  then show ?thesis
  proof cases
    case past
    then have "device_read rd n (d, r) = Some (Inr [], d, r)" unfolding eqn by auto
    moreover have "take n (drop ?p (padded_image img)) = []" using past E by (auto simp: padded_image_def)
    ultimately show ?thesis using assms(1) by simp
  next
    case pad
    then have "device_read rd n (d, r) = Some (Inr (replicate ?t 0), d\<lparr>rd_pos := ?p + ?t\<rparr>, r)" unfolding eqn by simp
    moreover have "take n (drop ?p (padded_image img)) = replicate ?t 0"
      using pad E by (simp add: padded_image_def)
    ultimately show ?thesis using assms(1) by (simp add: device_ok_def)
  next
    case image
    have t: "?t \<noteq> 0" "\<not> ?p \<ge> ?E" "\<not> ?p \<ge> length img" using image by linarith+
    note eqn = eqn if_not_P [OF t(1)] if_not_P [OF t(2)] if_not_P [OF t(3)]
    have m: "min ?t (length img - ?p) = ?m" using E by (auto simp: min_def)
    have "?p + ?m \<le> length img" using image(1) by simp
    from fill_ok [OF d(3), of "[]" ?m ?p] this image assms(2) obtain res r'
      where f: "fill_loop rd ?p ?m [] r = Some (res, r')" "ok r'"
        and fd: "\<And>data. res = Inr data \<Longrightarrow> length data \<le> ?m \<and> data = take (length data) (drop ?p img)"
      by auto
    show ?thesis
    proof (cases res)
      case (Inl e)
      show ?thesis unfolding eqn m using f Inl d(1,2) by (simp add: device_ok_def)
    next
      case (Inr data)
      show ?thesis
      proof (cases "length data < ?m")
        case True
        show ?thesis unfolding eqn m using f Inr True d(1,2) by (simp add: device_ok_def)
      next
        case False
        then have ld: "length data = ?m" using conjunct1 [OF fd [OF Inr]] by linarith
        then have data: "data = take ?m (drop ?p img)" using fd [OF Inr] by simp
        have run: "device_read rd n (d, r) = Some (Inr (data @ replicate (?t - ?m) 0), d\<lparr>rd_pos := ?p + ?t\<rparr>, r')"
          using image f(1) Inr ld unfolding eqn m by simp
        have "data @ replicate (?t - ?m) 0 = take n (drop ?p (padded_image img))"
          unfolding data padded_image_def using image(1) E by (auto simp: min_def)
        then show ?thesis unfolding run using d f(2) by (simp add: device_ok_def)
      qed
    qed
  qed
qed

lemma request_ok:
  assumes "device_ok s" "fst q < 2 ^ 64" "fst q < length img \<longrightarrow> served (fst q) (min (snd q) (length img - fst q))"
  shows "\<exists>res s'. nbd_request rd q s = Some (res, s') \<and> device_ok s' \<and>
           (\<forall>data. res = Inr data \<longrightarrow> data = take (snd q) (drop (fst q) (padded_image img)))"
proof -
  obtain d r where s: "s = (d, r)" by (rule prod.exhaust)
  show ?thesis
  proof (cases "fst q > rd_export_size d")
    case True
    with assms s show ?thesis by (simp add: nbd_request_def device_seek_def)
  next
    case False
    with assms(2) s have "nbd_request rd q s = device_read rd (snd q) (d\<lparr>rd_pos := fst q\<rparr>, r)"
      by (simp add: nbd_request_def device_seek_def Let_def)
    with read_ok [of "d\<lparr>rd_pos := fst q\<rparr>" r "snd q"] assms(1,3) s show ?thesis by (simp add: device_ok_def)
  qed
qed

lemma run_ok:
  assumes "device_ok s" "\<forall>q \<in> set qs. fst q < 2 ^ 64 \<and> (fst q < length img \<longrightarrow> served (fst q) (min (snd q) (length img - fst q)))"
  shows "\<exists>rs s'. nbd_run rd qs s = Some (rs, s') \<and>
           list_all2 (\<lambda>q res. \<forall>data. res = Inr data \<longrightarrow> data = take (snd q) (drop (fst q) (padded_image img))) qs rs"
  using assms
proof (induction qs arbitrary: s)
  case (Cons q qs)
  from request_ok [OF Cons.prems(1), of q] Cons.prems(2) obtain res s' where
    "nbd_request rd q s = Some (res, s')" "device_ok s'"
    "\<forall>data. res = Inr data \<longrightarrow> data = take (snd q) (drop (fst q) (padded_image img))" by auto
  with Cons.IH [of s'] Cons.prems(2) show ?case by auto
qed simp

end


section \<open>The HTTP reader behind the device\<close>

definition http_reader :: "'w http \<Rightarrow> nat \<Rightarrow> (prefetch_state \<times> 'w) image_reader" where
  "http_reader get total_size off n s = read_at get (int total_size) off n s"

interpretation http_source: image_source "http_reader get (length img)"
  "\<lambda>(p, w). answers_full_ranges img get \<and> reader_ok img p" "\<lambda>off n. aligned_read img (int off) n" img
  for get :: "'w http" and img
proof
  fix r :: "prefetch_state \<times> 'w" and off n
  assume ok: "case r of (p, w) \<Rightarrow> answers_full_ranges img get \<and> reader_ok img p" and al: "aligned_read img (int off) n"
    and le: "off + n \<le> length img"
  obtain p w where r: "r = (p, w)" by (rule prod.exhaust)
  have a: "answers_full_ranges img get" "reader_ok img p" using ok r by simp_all
  from read_at_ok [OF a al, of w] obtain res p' w'
    where run: "read_at get (int (length img)) (int off) n (p, w) = Some (res, p', w')" and p': "reader_ok img p'"
      and d: "\<And>data. res = Inr data \<Longrightarrow> data = img_slice img (int off) n" by blast
  have l: "length (img_slice img (int off) n) = n" using le by (simp add: img_slice_def)
  have "length data \<le> n \<and> data = take (length data) (drop off img) \<and>
      (length data < n \<longrightarrow> aligned_read img (int (off + length data)) (n - length data))" if "res = Inr data" for data
    unfolding d [OF that] l by (simp add: img_slice_def)
  with run p' a(1) show "\<exists>res r'. http_reader get (length img) (int off) n r = Some (res, r') \<and>
      (case r' of (p, w) \<Rightarrow> answers_full_ranges img get \<and> reader_ok img p) \<and>
      (\<forall>data. res = Inr data \<longrightarrow> length data \<le> n \<and> data = take (length data) (drop off img) \<and>
         (length data < n \<longrightarrow> aligned_read img (int (off + length data)) (n - length data)))"
    unfolding http_reader_def r by (intro exI [of _ res] exI [of _ "(p', w')"]) simp
qed

definition http_device :: "nat \<Rightarrow> 'w \<Rightarrow> remote_image_device \<times> prefetch_state \<times> 'w" where
  "http_device size' w = (remote_image_device_new size' (align_export_size size'), prefetch_new, w)"

text \<open>A server with a five byte image that answers one request and refuses the others.\<close>

definition demo_image :: "u8 list" where "demo_image = [1, 2, 3, 4, 5]"

definition demo_server :: "nat http" where
  "demo_server w a b =
     (if a = 0 \<and> b = 4
      then Inr \<lparr>hp_status = 206, hp_content_range = Some ''bytes 0-4/5'', hp_body = demo_image, hp_body_error = None\<rparr>
      else Inl ''connection refused'', Suc w)"

lemma demo_server_full: "answers_full_ranges demo_image demo_server"
proof -
  have "parse_content_range ''bytes 0-4/5'' = Some (0, 4, 5)"
    by (simp add: parse_content_range_def trim_def trim_start_def is_ascii_space_def starts_with_def str_split_once_def
        parse_i64_def parse_radix_def radix_digit_def hex_digit_def Let_def)
  then show ?thesis
    by (auto simp: answers_full_ranges_def demo_server_def demo_image_def img_slice_def split: if_splits)
qed

lemma http_run_exact:
  assumes "answers_full_ranges img get"
    and "\<forall>q \<in> set qs. 4096 dvd fst q \<and> 4096 dvd snd q \<and> fst q < 2 ^ 64"
  shows "\<exists>rs s'. nbd_run (http_reader get (length img)) qs (http_device (length img) w) = Some (rs, s') \<and>
           list_all2 (\<lambda>q res. \<forall>data. res = Inr data \<longrightarrow> data = take (snd q) (drop (fst q) (padded_image img))) qs rs"
proof (rule http_source.run_ok)
  show "http_source.device_ok img get (http_device (length img) w)"
    unfolding http_source.device_ok_def http_device_def remote_image_device_new_def
    using assms(1) prefetch_new_ok by simp
  show "\<forall>q \<in> set qs. fst q < 2 ^ 64 \<and>
      (fst q < length img \<longrightarrow> aligned_read img (int (fst q)) (min (snd q) (length img - fst q)))"
    using assms(2) by (auto simp: aligned_read_def HTTP_BLOCK_SIZE_def min_def)
qed





section \<open>Shortened ranges\<close>

lemma block_of_within: "i < HTTP_BLOCK_SIZE \<Longrightarrow> block_of (int (HTTP_BLOCK_SIZE * k) + int i) = int k"
  by (simp add: block_of_def HTTP_BLOCK_SIZE_def)

lemma evict_room: "length m \<le> cap \<Longrightarrow> cache_evict cap lru m = Some (lru, m)"
  by (simp add: cache_evict.simps)

lemma hm_insert_new_length: "hm_get m k = None \<Longrightarrow> length (hm_insert k v m) = Suc (length m)"
  by (induction m) (auto simp: hm_insert_def split: if_splits)

lemma hm_remove_absent: "hm_get m k = None \<Longrightarrow> hm_remove k m = m"
  by (induction m) (auto simp: hm_remove_def split: if_splits)

lemma store_new_block:
  assumes "data \<noteq> []" "length data \<le> HTTP_BLOCK_SIZE" "hm_get (bc_map c) (int k) = None" "length (bc_map c) < bc_cap c"
  shows "\<exists>c'. store_blocks (int (HTTP_BLOCK_SIZE * k)) data c = Some c' \<and>
           hm_get (bc_map c') (int k) = Some (data @ replicate (HTTP_BLOCK_SIZE - length data) 0)"
proof -
  have b: "block_of (int (HTTP_BLOCK_SIZE * k)) = int k" using block_of_within [of 0 k] by (simp add: HTTP_BLOCK_SIZE_def)
  have z: "nat (int (HTTP_BLOCK_SIZE * k) - int k * int HTTP_BLOCK_SIZE) = 0" by simp
  have w: "min HTTP_BLOCK_SIZE (length data) = length data" using assms(2) by simp
  have r: "hm_remove (int k) (bc_map c) = bc_map c" using assms(3) by (rule hm_remove_absent)
  have l: "\<And>v. length (hm_insert (int k) v (bc_map c)) \<le> bc_cap c" using assms(3,4) by (simp add: hm_insert_new_length)
  have "store_blocks (int (HTTP_BLOCK_SIZE * k)) data c =
      (case cache_put (int k) (splice (replicate HTTP_BLOCK_SIZE 0) 0 data) c of
         None \<Rightarrow> None | Some c2 \<Rightarrow> store_blocks (int (HTTP_BLOCK_SIZE * k) + int (length data)) [] c2)"
    unfolding store_blocks.simps [of "int (HTTP_BLOCK_SIZE * k)" data c] Let_def b z diff_zero w r assms(3) option.case
      take_all [OF order_refl] drop_all [OF order_refl] if_not_P [OF assms(1)] by simp
  also have "\<dots> = Some (cache_touch (int k) (c\<lparr>bc_map := hm_insert (int k) (data @ replicate (HTTP_BLOCK_SIZE - length data) 0) (bc_map c)\<rparr>))"
    using l assms(2) by (simp add: cache_put_def Let_def cache_touch_def evict_room splice_0 store_blocks.simps)
  finally show ?thesis by (simp add: cache_touch_def)
qed

lemma send_first_answer: "get w a b = (Inr resp, w') \<Longrightarrow> send_with_retry get a b w = (Inr resp, w')"
  by (simp add: send_with_retry_def)

lemma begin_sequential:
  assumes "pf_enabled p" "pf_last_off p = Some lo" "lo + int (pf_last_len p) = off"
  shows "begin_read_with_prefetch_state off n p = p\<lparr>pf_seq_reads := min (pf_seq_reads p + 1) 4294967295\<rparr>"
  using assms by (simp add: begin_read_with_prefetch_state_def Let_def)

lemma fetch_short:
  assumes "get w a b = (Inr resp, w')" "Option.bind (hp_content_range resp) parse_content_range = Some (a, a + int n - 1, t)"
    "length (hp_body resp) = n" "hp_body_error resp = None" "0 < n" "n \<le> out"
  shows "fetch_range_once get a b out w = (Inr (hp_body resp), w')"
  using assms by (simp add: fetch_range_once_def send_first_answer check_range_response_def Let_def)

lemma try_read_tail:
  assumes "hm_get (bc_map (pf_cache p)) (int k) = Some blk" "length blk = HTTP_BLOCK_SIZE" "n < HTTP_BLOCK_SIZE"
  shows "\<exists>p'. try_read_block_cache (int (HTTP_BLOCK_SIZE * k) + int n) (HTTP_BLOCK_SIZE - n) p = (Some (drop n blk), p')"
proof -
  have b1: "block_of (int (HTTP_BLOCK_SIZE * k) + int n) = int k" using assms(3) by (rule block_of_within)
  have "int (HTTP_BLOCK_SIZE * k) + int n + int (HTTP_BLOCK_SIZE - n) - 1 = int (HTTP_BLOCK_SIZE * k) + int (HTTP_BLOCK_SIZE - 1)"
    using assms(3) by linarith
  then have b2: "block_of (int (HTTP_BLOCK_SIZE * k) + int n + int (HTTP_BLOCK_SIZE - n) - 1) = int k"
    using block_of_within [of "HTTP_BLOCK_SIZE - 1" k] by (simp only: HTTP_BLOCK_SIZE_def)
  have o: "nat (max (int (HTTP_BLOCK_SIZE * k) + int n + int (length []) - int k * int HTTP_BLOCK_SIZE) 0) = n" by simp
  show ?thesis unfolding try_read_block_cache_def b1 b2 Let_def using assms o
    by (simp add: Let_def)
qed


lemma first_short_read:
  assumes "pf_enabled p" "pf_last_off p = Some lo" "lo + int (pf_last_len p) = int (HTTP_BLOCK_SIZE * k)"
    "\<not> buffer_holds p (int (HTTP_BLOCK_SIZE * k)) HTTP_BLOCK_SIZE"
    "hm_get (bc_map (pf_cache p)) (int k) = None" "length (bc_map (pf_cache p)) < bc_cap (pf_cache p)"
    "HTTP_BLOCK_SIZE * k + HTTP_BLOCK_SIZE \<le> total_size"
    "get w (int (HTTP_BLOCK_SIZE * k)) (int (HTTP_BLOCK_SIZE * k) + int (min (total_size - HTTP_BLOCK_SIZE * k) HTTP_PREFETCH_CHUNK_SIZE) - 1) = (Inr resp, w')"
    "Option.bind (hp_content_range resp) parse_content_range = Some (int (HTTP_BLOCK_SIZE * k), int (HTTP_BLOCK_SIZE * k) + int n - 1, t)"
    "length (hp_body resp) = n" "hp_body_error resp = None" "0 < n" "n < HTTP_BLOCK_SIZE"
  shows "\<exists>p'. read_at get (int total_size) (int (HTTP_BLOCK_SIZE * k)) HTTP_BLOCK_SIZE (p, w) = Some (Inr (hp_body resp), p', w') \<and>
           hm_get (bc_map (pf_cache p')) (int k) = Some (hp_body resp @ replicate (HTTP_BLOCK_SIZE - n) 0)"
proof -
  let ?off = "int (HTTP_BLOCK_SIZE * k)" and ?len = "min (total_size - HTTP_BLOCK_SIZE * k) HTTP_PREFETCH_CHUNK_SIZE"
  let ?p2 = "p\<lparr>pf_seq_reads := min (pf_seq_reads p + 1) 4294967295\<rparr>"
  have bs: "HTTP_BLOCK_SIZE \<noteq> 0" "\<not> HTTP_BLOCK_SIZE > HTTP_PREFETCH_CHUNK_SIZE"
    by (simp_all add: HTTP_BLOCK_SIZE_def HTTP_PREFETCH_CHUNK_SIZE_def)
  have b: "block_of ?off = int k" using block_of_within [of 0 k] bs(1) by simp
  have "?off + int HTTP_BLOCK_SIZE - 1 = ?off + int (HTTP_BLOCK_SIZE - 1)" by (simp add: HTTP_BLOCK_SIZE_def)
  then have "block_of (?off + int HTTP_BLOCK_SIZE - 1) = int k"
    using block_of_within [of "HTTP_BLOCK_SIZE - 1" k] bs(1) by (metis diff_less less_one neq0_conv)
  then have "nat (block_of (?off + int HTTP_BLOCK_SIZE - 1) - int k + 1) = Suc 0" by simp
  then have miss: "try_read_block_cache ?off HTTP_BLOCK_SIZE p = (None, p)"
    unfolding try_read_block_cache_def b Let_def using assms(5) bs(1) by simp
  have rem: "nat (max (int total_size - ?off) 0) = total_size - HTTP_BLOCK_SIZE * k" by linarith
  have rem0: "\<not> total_size - HTTP_BLOCK_SIZE * k = 0" using assms(7) bs(1) by simp
  have room: "n \<le> ?len" using assms(7,13) bs(2) by simp
  have f: "fetch_range_once get ?off (?off + int ?len - 1) ?len w = (Inr (hp_body resp), w')"
    by (rule fetch_short [where get = get and w = w, OF assms(8-12) room])
  have en: "pf_enabled ?p2" "\<not> buffer_holds ?p2 ?off HTTP_BLOCK_SIZE" using assms(1,4) by (simp_all add: buffer_holds_def)
  obtain p3 where pre: "read_at_with_prefetch get (int total_size) ?off HTTP_BLOCK_SIZE (?p2, w) = (Inr (Some (hp_body resp)), p3, w')"
    and pc: "pf_cache p3 = pf_cache p"
    unfolding read_at_with_prefetch_def prod.case Let_def if_not_P [OF bs(2)] rem if_not_P [OF rem0] f
    using en assms(10,13) by (simp add: record_last_read_def clear_buffer_def)
  have ne: "hp_body resp \<noteq> []" using assms(10,12) by auto
  obtain c where c: "store_blocks ?off (hp_body resp) (pf_cache p) = Some c"
    "hm_get (bc_map c) (int k) = Some (hp_body resp @ replicate (HTTP_BLOCK_SIZE - n) 0)"
    using store_new_block [OF ne _ assms(5,6)] assms(10,13) by auto
  have "read_at get (int total_size) ?off HTTP_BLOCK_SIZE (p, w) = Some (Inr (hp_body resp), p3\<lparr>pf_cache := c\<rparr>, w')"
    using miss bs(1) pre c(1) pc begin_sequential [OF assms(1-3)]
    by (simp add: read_at_def store_into_block_cache_def del: of_nat_mult)
  with c(2) show ?thesis by simp
qed

text \<open>
  A server may answer a range request with fewer bytes than were asked for. When the prefetching
  reader gets such an answer, it puts the bytes into the block cache as a whole block filled up with
  zeros, and the device's next call takes the missing bytes from there: the read succeeds and the
  host gets zeros in place of the rest of the block.
\<close>

theorem shortened_range_reads_zeros:
  assumes "rd_pos d = HTTP_BLOCK_SIZE * k" "rd_data_size d = total_size" "rd_export_size d \<ge> total_size"
    "HTTP_BLOCK_SIZE * k + HTTP_BLOCK_SIZE \<le> total_size"
    "pf_enabled p" "pf_last_off p = Some lo" "lo + int (pf_last_len p) = int (HTTP_BLOCK_SIZE * k)"
    "\<not> buffer_holds p (int (HTTP_BLOCK_SIZE * k)) HTTP_BLOCK_SIZE"
    "hm_get (bc_map (pf_cache p)) (int k) = None" "length (bc_map (pf_cache p)) < bc_cap (pf_cache p)"
    "get w (int (HTTP_BLOCK_SIZE * k)) (int (HTTP_BLOCK_SIZE * k) + int (min (total_size - HTTP_BLOCK_SIZE * k) HTTP_PREFETCH_CHUNK_SIZE) - 1) = (Inr resp, w')"
    "Option.bind (hp_content_range resp) parse_content_range = Some (int (HTTP_BLOCK_SIZE * k), int (HTTP_BLOCK_SIZE * k) + int n - 1, t)"
    "length (hp_body resp) = n" "hp_body_error resp = None" "0 < n" "n < HTTP_BLOCK_SIZE"
  shows "\<exists>s'. device_read (http_reader get total_size) HTTP_BLOCK_SIZE (d, p, w) =
           Some (Inr (hp_body resp @ replicate (HTTP_BLOCK_SIZE - n) 0), s')"
proof -
  let ?rd = "http_reader get total_size" and ?blk = "hp_body resp @ replicate (HTTP_BLOCK_SIZE - n) 0"
  obtain p1 where r1: "read_at get (int total_size) (int (HTTP_BLOCK_SIZE * k)) HTTP_BLOCK_SIZE (p, w) = Some (Inr (hp_body resp), p1, w')"
    and blk: "hm_get (bc_map (pf_cache p1)) (int k) = Some ?blk"
    using first_short_read [where get = get and w = w, OF assms(5-10,4,11-16)] by blast
  have lb: "length ?blk = HTTP_BLOCK_SIZE" using assms(13,16) by simp
  obtain p2 where tr: "try_read_block_cache (int (HTTP_BLOCK_SIZE * k) + int n) (HTTP_BLOCK_SIZE - n) p1 = (Some (drop n ?blk), p2)"
    using try_read_tail [OF blk lb assms(16)] by blast
  have r2: "read_at get (int total_size) (int (HTTP_BLOCK_SIZE * k) + int n) (HTTP_BLOCK_SIZE - n) (p1, w') =
      Some (Inr (replicate (HTTP_BLOCK_SIZE - n) 0), p2, w')"
    using tr assms(13,16) by (simp add: read_at_def del: of_nat_mult)
  have ne: "hp_body resp \<noteq> []" using assms(13,15) by auto
  have fill: "fill_loop ?rd (HTTP_BLOCK_SIZE * k) HTTP_BLOCK_SIZE [] (p, w) = Some (Inr ?blk, p2, w')"
    using r1 r2 ne assms(13,15,16)
    by (simp add: fill_loop.simps [of _ _ _ "[]"] fill_loop.simps [of _ _ _ "hp_body resp"] fill_loop.simps [of _ _ _ ?blk] http_reader_def
        del: of_nat_mult)
  have to: "min HTTP_BLOCK_SIZE (rd_export_size d - HTTP_BLOCK_SIZE * k) = HTTP_BLOCK_SIZE"
    "min HTTP_BLOCK_SIZE (total_size - HTTP_BLOCK_SIZE * k) = HTTP_BLOCK_SIZE" using assms(3,4) by simp_all
  have c: "\<not> HTTP_BLOCK_SIZE * k \<ge> rd_export_size d" "HTTP_BLOCK_SIZE \<noteq> 0" "\<not> HTTP_BLOCK_SIZE * k \<ge> total_size"
    using assms(3,4) by (simp_all add: HTTP_BLOCK_SIZE_def)
  show ?thesis
    unfolding device_read_def prod.case assms(1,2) Let_def to if_not_P [OF c(1)] if_not_P [OF c(2)] if_not_P [OF c(3)] fill
    using lb by simp
qed


definition one_byte_answer :: http_response where
  "one_byte_answer = \<lparr>hp_status = 206, hp_content_range = Some ''bytes 12288-12288/16384'', hp_body = [7], hp_body_error = None\<rparr>"

definition sequential_state :: prefetch_state where
  "sequential_state = prefetch_new\<lparr>pf_enabled := True, pf_seq_reads := 3, pf_last_off := Some 8192, pf_last_len := 4096\<rparr>"

theorem shortened_range_reads_zeros_witness:
  "\<exists>s'. device_read (http_reader (\<lambda>w a b. (Inr one_byte_answer, w)) 16384) HTTP_BLOCK_SIZE
     (\<lparr>rd_data_size = 16384, rd_export_size = 16384, rd_pos = 12288\<rparr>, sequential_state, 0 :: nat) =
       Some (Inr (7 # replicate 4095 0), s')"
proof -
  have cr: "Option.bind (hp_content_range one_byte_answer) parse_content_range =
      Some (int (HTTP_BLOCK_SIZE * 3), int (HTTP_BLOCK_SIZE * 3) + int 1 - 1, 16384)"
    by (simp add: one_byte_answer_def parse_content_range_def trim_def trim_start_def is_ascii_space_def starts_with_def
        str_split_once_def parse_i64_def parse_radix_def radix_digit_def hex_digit_def Let_def HTTP_BLOCK_SIZE_def)
  have "\<exists>s'. device_read (http_reader (\<lambda>w a b. (Inr one_byte_answer, w)) 16384) HTTP_BLOCK_SIZE
     (\<lparr>rd_data_size = 16384, rd_export_size = 16384, rd_pos = 12288\<rparr>, sequential_state, 0 :: nat) =
       Some (Inr (hp_body one_byte_answer @ replicate (HTTP_BLOCK_SIZE - 1) 0), s')"
    by (rule shortened_range_reads_zeros [where k = 3 and lo = 8192 and t = 16384 and w' = 0])
      (simp_all only: cr, simp_all add: HTTP_BLOCK_SIZE_def sequential_state_def prefetch_new_def one_byte_answer_def
        cache_new_def HTTP_BLOCK_CACHE_CAPACITY_def buffer_holds_def)
  then show ?thesis by (simp add: one_byte_answer_def HTTP_BLOCK_SIZE_def)
qed


section \<open>The disk of the browser\<close>

text \<open>
  The reader for a disk the browser offers: one request at a time goes out as text on the disk data
  channel, and the bytes come back in messages of a header and a payload. \<open>browser\<close> stands for the
  other side during one request: whether sending worked, and which messages arrive before the
  deadline, in order. Messages may also arrive between requests (\<open>DiskMessage\<close>).
\<close>

definition INBOUND_HEADER_LEN :: nat where "INBOUND_HEADER_LEN = 16"

record disk_link =
  dl_handler :: bool
  dl_sender :: bool
  dl_in_flight :: bool
  dl_buf :: "u8 list"

type_synonym 'w browser = "string \<Rightarrow> 'w \<Rightarrow> ((string, unit) result \<times> u8 list list) \<times> 'w"

definition webrtc_disk_set_sender :: "disk_link \<Rightarrow> disk_link" where
  "webrtc_disk_set_sender l = l\<lparr>dl_sender := True\<rparr>"

definition webrtc_disk_clear_sender :: "disk_link \<Rightarrow> disk_link" where
  "webrtc_disk_clear_sender l = l\<lparr>dl_sender := False\<rparr>"

definition message_data :: "u8 list \<Rightarrow> u8 list" where
  "message_data payload = (if length payload \<ge> INBOUND_HEADER_LEN then drop INBOUND_HEADER_LEN payload else payload)"

definition webrtc_disk_on_message :: "u8 list \<Rightarrow> disk_link \<Rightarrow> disk_link" where
  "webrtc_disk_on_message payload l = l\<lparr>dl_buf := dl_buf l @ message_data payload\<rparr>"

definition install_webrtc_disk_bridge :: "disk_link \<Rightarrow> disk_link" where
  "install_webrtc_disk_bridge l = l\<lparr>dl_handler := True\<rparr>"

definition disk_read_request :: "nat \<Rightarrow> nat \<Rightarrow> string" where
  "disk_read_request start end' = ''{\"Start\":'' @ nat_to_dec start @ '',\"End\":'' @ nat_to_dec end' @ ''}''"

text \<open>The wait: messages are taken in until enough bytes are there; when none comes any more, the deadline passes.\<close>

fun wait_for_bytes :: "nat \<Rightarrow> u8 list list \<Rightarrow> disk_link \<Rightarrow> (string, u8 list) result \<times> disk_link" where
  "wait_for_bytes need msgs l =
     (if length (dl_buf l) < need
      then case msgs of
             [] \<Rightarrow> (Inl ''timeout waiting for webrtc disk data'', l\<lparr>dl_in_flight := False\<rparr>)
           | m # ms \<Rightarrow> wait_for_bytes need ms (webrtc_disk_on_message m l)
      else (Inr (take need (dl_buf l)), l\<lparr>dl_buf := drop need (dl_buf l), dl_in_flight := False\<rparr>))"

declare wait_for_bytes.simps [simp del]

definition bridge_read :: "'w browser \<Rightarrow> int \<Rightarrow> int \<Rightarrow> disk_link \<times> 'w \<Rightarrow> (string, u8 list) result \<times> disk_link \<times> 'w" where
  "bridge_read browser offset size' s =
     (case s of (l, w) \<Rightarrow>
      if offset < 0 \<or> size' \<le> 0 then (Inl ''invalid range'', l, w)
      else let start = nat offset; end' = start + nat size'; need = end' - start in
      if \<not> dl_sender l then (Inl ''disk channel not ready'', l, w)
      else if dl_in_flight l then (Inl ''concurrent disk read not supported'', l, w)
      else let l1 = l\<lparr>dl_in_flight := True, dl_buf := []\<rparr> in
      case browser (disk_read_request start end') w of
        ((Inl err, msgs), w') \<Rightarrow> (Inl (''send webrtc disk request: '' @ err), l1, w')
      | ((Inr _, msgs), w') \<Rightarrow> (case wait_for_bytes need msgs l1 of (r, l2) \<Rightarrow> (r, l2, w')))"

definition webrtc_read_at :: "'w browser \<Rightarrow> nat \<Rightarrow> (disk_link \<times> 'w) image_reader" where
  "webrtc_read_at browser size' off n s =
     Some (if \<not> dl_handler (fst s) then (Inl ''not active session'', s)
           else if off < 0 then (Inl ''invalid range'', s)
           else if n = 0 then (Inr [], s)
           else let end' = min (off + int n) (int size'); req_len = max (end' - off) 0 in
           if req_len = 0 then (Inr [], s)
           else case bridge_read browser off req_len s of
                  (Inl err, s') \<Rightarrow> (Inl err, s')
                | (Inr data, s') \<Rightarrow> (Inr (take (min (length data) n) data), s'))"

text \<open>
  A browser is true to the image when the messages that arrive while a request is open carry the
  bytes asked for, in order, from the first on (possibly not all of them).
\<close>

definition true_browser :: "u8 list \<Rightarrow> 'w browser \<Rightarrow> bool" where
  "true_browser img browser =
     (\<forall>start n w. start + n \<le> length img \<longrightarrow>
        prefix (concat (map message_data (snd (fst (browser (disk_read_request start (start + n)) w))))) (take n (drop start img)))"

lemma wait_collects:
  "fst (wait_for_bytes need msgs l) = Inr data \<Longrightarrow> \<exists>rest. data @ rest = dl_buf l @ concat (map message_data msgs) \<and> length data = need"
proof (induction need msgs l rule: wait_for_bytes.induct)
  case (1 need msgs l)
  show ?case
  proof (cases "length (dl_buf l) < need")
    case False
    with 1(2) have "data = take need (dl_buf l)" by (simp add: wait_for_bytes.simps [of need msgs])
    with False have "data @ drop need (dl_buf l) @ concat (map message_data msgs) = dl_buf l @ concat (map message_data msgs)"
      "length data = need" by (simp_all flip: append_assoc)
    then show ?thesis by blast
  next
    case True
    with 1(2) obtain m ms where ms: "msgs = m # ms" by (cases msgs) (simp_all add: wait_for_bytes.simps [of need])
    with 1 True show ?thesis by (simp add: wait_for_bytes.simps [of need "m # ms"] webrtc_disk_on_message_def)
  qed
qed

lemma bridge_read_true:
  assumes "true_browser img browser" "off + n \<le> length img" "bridge_read browser (int off) (int n) s = (Inr data, s')"
  shows "data = take n (drop off img)"
proof -
  obtain l w where s: "s = (l, w)" by (rule prod.exhaust)
  obtain r msgs w' where b: "browser (disk_read_request off (off + n)) w = ((r, msgs), w')" by (metis prod.exhaust)
  have "fst (wait_for_bytes n msgs (l\<lparr>dl_in_flight := True, dl_buf := []\<rparr>)) = Inr data"
    using assms(3) b s by (cases r) (auto simp: bridge_read_def Let_def split: if_splits prod.splits)
  from wait_collects [OF this] obtain rest where d: "data @ rest = concat (map message_data msgs)" "length data = n" by auto
  have "prefix (concat (map message_data msgs)) (take n (drop off img))"
    using assms(1,2) b unfolding true_browser_def by (metis fst_conv snd_conv)
  with d(1) have "prefix data (take n (drop off img))" by (metis prefix_order.trans prefixI)
  then show ?thesis using d(2) assms(2) by (auto simp: prefix_def) (metis append_eq_conv_conj length_take min.absorb2 le_diff_conv2 length_drop append_Nil2 add_leD1 add.commute)
qed


interpretation webrtc_source: image_source "webrtc_read_at browser (length img)" "\<lambda>s. true_browser img browser" "\<lambda>off n. True" img
  for browser :: "'w browser" and img
proof
  fix r :: "disk_link \<times> 'w" and off n
  assume t: "true_browser img browser" and le: "off + n \<le> length img"
  obtain res r' where run: "webrtc_read_at browser (length img) (int off) n r = Some (res, r')"
    by (cases "webrtc_read_at browser (length img) (int off) n r") (auto simp: webrtc_read_at_def)
  have clip: "max (min (int off + int n) (int (length img)) - int off) 0 = int n" using le by simp
  have "data = take n (drop off img)" if res: "res = Inr data" for data
  proof (cases "n = 0")
    case True
    with run res show ?thesis by (auto simp: webrtc_read_at_def split: if_splits)
  next
    case False
    obtain x s' where b: "bridge_read browser (int off) (int n) r = (x, s')" by (rule prod.exhaust)
    with run res False obtain d where d: "x = Inr d" "data = take (min (length d) n) d"
      unfolding webrtc_read_at_def clip Let_def by (cases x) (auto split: if_splits)
    have "d = take n (drop off img)" by (rule bridge_read_true [OF t le b [unfolded d(1)]])
    then show ?thesis using d(2) le by simp
  qed
  then have "length data \<le> n \<and> data = take (length data) (drop off img)" if "res = Inr data" for data
    using that le by fastforce
  with run t show "\<exists>res r'. webrtc_read_at browser (length img) (int off) n r = Some (res, r') \<and> true_browser img browser \<and>
      (\<forall>data. res = Inr data \<longrightarrow> length data \<le> n \<and> data = take (length data) (drop off img) \<and> (length data < n \<longrightarrow> True))"
    by blast
qed

text \<open>
  A disk the browser offers shows the host the bytes of that disk: whatever the requests, and
  however many of them time out, each one that succeeds returns the bytes of the image at that place,
  with zeros after its end, as long as no message of another request arrives while one is open.
\<close>

theorem webrtc_media_exact:
  assumes "true_browser img browser" and "\<forall>q \<in> set qs. fst q < 2 ^ 64"
  shows "\<exists>rs s'. nbd_run (webrtc_read_at browser (length img)) qs
             (remote_image_device_new (length img) (align_export_size (length img)), l, w) = Some (rs, s') \<and>
           list_all2 (\<lambda>q res. \<forall>data. res = Inr data \<longrightarrow> data = take (snd q) (drop (fst q) (padded_image img))) qs rs"
proof (rule webrtc_source.run_ok)
  show "webrtc_source.device_ok img browser (remote_image_device_new (length img) (align_export_size (length img)), l, w)"
    unfolding webrtc_source.device_ok_def remote_image_device_new_def using assms(1) by simp
qed (use assms(2) in simp)

definition demo_browser :: "nat browser" where
  "demo_browser text w =
     (if text = disk_read_request 0 5 then ((Inr (), [replicate 16 0 @ [1, 2], replicate 16 0 @ [3, 4, 5]]), Suc w)
      else ((Inr (), []), Suc w))"

lemma disk_read_request_inj: "disk_read_request a b = disk_read_request c d \<longleftrightarrow> a = c \<and> b = d"
proof
  assume e: "disk_read_request a b = disk_read_request c d"
  let ?t = "\<lambda>n. '',\"End\":'' @ nat_to_dec n @ ''}''"
  have tw: "takeWhile is_digit (nat_to_dec m @ ?t n) = nat_to_dec m" for m n
    using nat_to_dec_digits [of m] by (subst takeWhile_append2) (auto simp: list_all_iff is_digit_def)
  have e1: "nat_to_dec a @ ?t b = nat_to_dec c @ ?t d" using e by (simp add: disk_read_request_def)
  then have "nat_to_dec a = nat_to_dec c" by (metis tw)
  with e1 have "nat_to_dec b = nat_to_dec d" by simp
  with \<open>nat_to_dec a = nat_to_dec c\<close> show "a = c \<and> b = d" by (metis dec_value_nat_to_dec)
qed simp

lemma demo_browser_true: "true_browser demo_image demo_browser"
  unfolding true_browser_def
proof (intro allI impI)
  fix start n w
  show "prefix (concat (map message_data (snd (fst (demo_browser (disk_read_request start (start + n)) w))))) (take n (drop start demo_image))"
    by (auto simp: demo_browser_def disk_read_request_inj demo_image_def message_data_def INBOUND_HEADER_LEN_def)
qed

theorem webrtc_media_exact_witness:
  "true_browser demo_image demo_browser \<and>
   (\<exists>rs s'. nbd_run (webrtc_read_at demo_browser (length demo_image)) [(0, 512), (1, 3)]
       (remote_image_device_new (length demo_image) (align_export_size (length demo_image)),
        \<lparr>dl_handler = True, dl_sender = True, dl_in_flight = False, dl_buf = []\<rparr>, 0) = Some (rs, s') \<and>
     list_all2 (\<lambda>q res. \<forall>data. res = Inr data \<longrightarrow> data = take (snd q) (drop (fst q) (padded_image demo_image)))
       [(0, 512), (1, 3)] rs)"
  using demo_browser_true webrtc_media_exact [OF demo_browser_true, of "[(0, 512), (1, 3)]"] by simp

subsection \<open>The link over time\<close>

datatype disk_op = DiskMessage "u8 list" | DiskSetSender | DiskClearSender | DiskInstall | DiskRead int int

fun disk_step :: "'w browser \<Rightarrow> disk_op \<Rightarrow> disk_link \<times> 'w \<Rightarrow> (string, u8 list) result option \<times> disk_link \<times> 'w" where
  "disk_step browser (DiskMessage m) (l, w) = (None, webrtc_disk_on_message m l, w)"
| "disk_step browser DiskSetSender (l, w) = (None, webrtc_disk_set_sender l, w)"
| "disk_step browser DiskClearSender (l, w) = (None, webrtc_disk_clear_sender l, w)"
| "disk_step browser DiskInstall (l, w) = (None, install_webrtc_disk_bridge l, w)"
| "disk_step browser (DiskRead off n) (l, w) = (case bridge_read browser off n (l, w) of (r, s) \<Rightarrow> (Some r, s))"

fun disk_run :: "'w browser \<Rightarrow> disk_op list \<Rightarrow> disk_link \<times> 'w \<Rightarrow> (string, u8 list) result list \<times> disk_link \<times> 'w" where
  "disk_run browser [] s = ([], s)"
| "disk_run browser (p # ps) s =
     (case disk_step browser p s of (r, s1) \<Rightarrow>
      case disk_run browser ps s1 of (rs, s2) \<Rightarrow> ((case r of None \<Rightarrow> rs | Some x \<Rightarrow> x # rs), s2))"

lemma wedged_step:
  "dl_in_flight (fst s) \<Longrightarrow> disk_step browser p s = (r, s') \<Longrightarrow> dl_in_flight (fst s') \<and> (\<forall>data. r \<noteq> Some (Inr data))"
  by (cases s; cases p) (auto simp: webrtc_disk_on_message_def webrtc_disk_set_sender_def webrtc_disk_clear_sender_def
      install_webrtc_disk_bridge_def bridge_read_def Let_def split: if_splits prod.splits)

lemma wedged_run: "dl_in_flight (fst s) \<Longrightarrow> Inr data \<notin> set (fst (disk_run browser ps s))"
proof (induction ps arbitrary: s)
  case (Cons p ps)
  obtain r s1 where st: "disk_step browser p s = (r, s1)" by (rule prod.exhaust)
  with wedged_step [OF Cons.prems st] Cons.IH [of s1] show ?case by (auto simp: split_beta split: option.split)
qed simp

text \<open>
  A request that cannot be sent leaves its in-flight mark behind: from then on no read of the
  browser's disk ever succeeds again, whatever messages arrive, however often the channel is set up
  anew and the bridge installed again.
\<close>

theorem failed_send_blocks_disk:
  assumes "bridge_read browser off n (l, w) = (Inl err, s)" "0 \<le> off" "0 < n" "dl_sender l" "\<not> dl_in_flight l"
    and "fst (fst (browser (disk_read_request (nat off) (nat off + nat n)) w)) = Inl e"
  shows "Inr data \<notin> set (fst (disk_run browser ps s))"
proof (rule wedged_run)
  obtain msgs w' where "browser (disk_read_request (nat off) (nat off + nat n)) w = ((Inl e, msgs), w')"
    using assms(6) by (metis prod.collapse)
  with assms(1-5) show "dl_in_flight (fst s)" by (auto simp: bridge_read_def Let_def)
qed

theorem failed_send_blocks_disk_witness:
  "Inr [1] \<notin> set (fst (disk_run (\<lambda>t w. if w = 0 then ((Inl ''closed'', []), 1) else ((Inr (), [replicate 16 0 @ [1]]), w + 1))
     [DiskClearSender, DiskSetSender, DiskRead 0 1]
     (\<lparr>dl_handler = True, dl_sender = True, dl_in_flight = True, dl_buf = []\<rparr>, 1 :: nat)))"
  by (rule failed_send_blocks_disk [where off = 0 and n = 1 and w = 0 and e = "''closed''"
        and l = "\<lparr>dl_handler = True, dl_sender = True, dl_in_flight = False, dl_buf = []\<rparr>" and err = "''send webrtc disk request: closed''"])
    (simp_all add: bridge_read_def Let_def)

text \<open>The bridge does not tell the answers of different requests apart: whatever arrives while a request is open is its answer.\<close>

lemma answer_not_matched:
  assumes "0 \<le> off" "0 < n" "dl_sender l" "\<not> dl_in_flight l"
    and "browser (disk_read_request (nat off) (nat off + nat n)) w = ((Inr (), [replicate 16 0 @ stale]), w')" "length stale = nat n"
  shows "fst (bridge_read browser off n (l, w)) = Inr stale"
  using assms by (simp add: bridge_read_def Let_def wait_for_bytes.simps webrtc_disk_on_message_def message_data_def INBOUND_HEADER_LEN_def)

end
