(* ===== verification/File_Serve.thy ===== *)
theory File_Serve
  imports Image_Device
begin

text \<open>
  Files the device serves: the sandboxed paths, the Range header and the reader of
  \<^verbatim>\<open>services/local_file.rs\<close>, and the endpoint of \<^verbatim>\<open>web.rs\<close> that answers with them. The file system is
  the argument \<open>fs\<close>: where a path leads once links are followed, and what is there. The
  handlers are those behind the authentication of the routes.
\<close>

section \<open>Paths\<close>

definition CONFIG_DIR :: string where "CONFIG_DIR = ''/userdata/arkkvm''"

definition BACKSLASH :: char where "BACKSLASH = CHR 0x5C"

record file_tree =
  ft_canon :: "string \<Rightarrow> string option"
  ft_content :: "string \<Rightarrow> u8 list option"

text \<open>
  Components as the standard library splits a path: a leading slash is the root, a leading dot the
  current folder, dots further on and empty parts are dropped.
\<close>

definition validate_relative_components :: "string \<Rightarrow> (string, unit) result" where
  "validate_relative_components relative =
     (let parts = split_on (CHR ''/'') relative in
      if relative = [] then Inl ''empty path''
      else if hd parts = [] then Inl (''absolute path not allowed in '' @ relative)
      else if hd parts = ''.'' \<or> ''..'' \<in> set parts then Inl (''unsafe path component in '' @ relative)
      else Inr ())"

definition replace_backslash :: "string \<Rightarrow> string" where
  "replace_backslash s = map (\<lambda>c. if c = BACKSLASH then CHR ''/'' else c) s"

definition user_path_to_relative :: "string \<Rightarrow> (string, string) result" where
  "user_path_to_relative user_path =
     (let trimmed = trim user_path in
      if trimmed = [] then Inl ''empty path''
      else let relative =
             (if starts_with trimmed CONFIG_DIR
              then Inr (dropWhile (\<lambda>c. c = CHR ''/'') (drop (length CONFIG_DIR) trimmed))
              else if starts_with trimmed ''/'' then Inl ''path outside allowed directory''
              else Inr trimmed)
      in case relative of
           Inl err \<Rightarrow> Inl err
         | Inr r \<Rightarrow>
             if r = [] then Inl ''empty path''
             else (case validate_relative_components r of Inl err \<Rightarrow> Inl err | Inr _ \<Rightarrow> Inr (replace_backslash r)))"

definition path_parts :: "string \<Rightarrow> string list" where
  "path_parts p = filter (\<lambda>c. c \<noteq> []) (split_on (CHR ''/'') p)"

definition path_starts_with :: "string \<Rightarrow> string \<Rightarrow> bool" where
  "path_starts_with p base = prefix (path_parts base) (path_parts p)"

definition resolve_local_file_path :: "file_tree \<Rightarrow> string \<Rightarrow> (string, string) result" where
  "resolve_local_file_path fs user_path =
     (case user_path_to_relative user_path of
        Inl err \<Rightarrow> Inl err
      | Inr relative \<Rightarrow>
      (case ft_canon fs CONFIG_DIR of
        None \<Rightarrow> Inl (''failed to canonicalize '' @ CONFIG_DIR)
      | Some base \<Rightarrow>
      (case ft_canon fs (base @ ''/'' @ relative) of
        None \<Rightarrow> Inl ''file not found''
      | Some resolved \<Rightarrow>
          if ft_content fs resolved = None then Inl ''not a regular file''
          else if \<not> path_starts_with resolved base then Inl ''path outside allowed directory''
          else Inr resolved)))"

definition validate_evidence_basename :: "string \<Rightarrow> (string, unit) result" where
  "validate_evidence_basename path =
     (case user_path_to_relative path of
        Inl err \<Rightarrow> Inl err
      | Inr relative \<Rightarrow>
          if length (filter (\<lambda>c. c \<noteq> [] \<and> c \<noteq> ''.'') (split_on (CHR ''/'') relative)) \<noteq> 1 \<or> starts_with relative ''/''
          then Inl ''path must be a filename without directories''
          else if \<not> suffix ''.zip'' relative \<and> \<not> suffix ''.tgz'' relative
          then Inl ''only .zip and .tgz evidence archives can be deleted''
          else Inr ())"

section \<open>Ranges\<close>

record byte_range =
  br_start :: nat
  br_end :: nat

definition range_len :: "byte_range \<Rightarrow> nat" where
  "range_len r = (if br_end r < br_start r then 0 else br_end r - br_start r + 1)"

definition content_len :: "nat \<Rightarrow> byte_range \<Rightarrow> nat" where
  "content_len file_size r = (if file_size = 0 then 0 else range_len r)"

definition full_file :: "nat \<Rightarrow> byte_range" where
  "full_file file_size = (if file_size = 0 then \<lparr>br_start = 0, br_end = 0\<rparr> else \<lparr>br_start = 0, br_end = file_size - 1\<rparr>)"

definition parse_u64 :: "string \<Rightarrow> nat option" where
  "parse_u64 s = parse_radix 10 18446744073709551616 s"

definition parse_range_header :: "string \<Rightarrow> nat \<Rightarrow> (string, byte_range option) result" where
  "parse_range_header raw file_size =
     (let header = trim raw in
      if header = [] then Inr None
      else if \<not> starts_with header ''bytes='' then Inl ''invalid range unit''
      else let spec = drop 6 header in
      if CHR '','' \<in> set spec then Inl ''multipart ranges are not supported''
      else if starts_with spec ''-''
      then (case parse_u64 (drop 1 spec) of
              None \<Rightarrow> Inl ''invalid suffix range''
            | Some suffix_len \<Rightarrow>
                if suffix_len = 0 then Inl ''invalid suffix range''
                else if file_size = 0 then Inl ''range not satisfiable''
                else Inr (Some \<lparr>br_start = file_size - suffix_len, br_end = file_size - 1\<rparr>))
      else (case str_split_once (CHR ''-'') spec of
              None \<Rightarrow> Inl ''invalid range spec''
            | Some (start_s, end_s) \<Rightarrow>
                (case parse_u64 start_s of
                   None \<Rightarrow> Inl ''invalid range start''
                 | Some start \<Rightarrow>
                     if end_s = []
                     then if file_size = 0
                          then if start > 0 then Inl ''range not satisfiable'' else Inr (Some \<lparr>br_start = 0, br_end = 0\<rparr>)
                          else if start \<ge> file_size then Inl ''range not satisfiable''
                          else Inr (Some \<lparr>br_start = start, br_end = file_size - 1\<rparr>)
                     else (case parse_u64 end_s of
                             None \<Rightarrow> Inl ''invalid range end''
                           | Some end' \<Rightarrow>
                               if file_size = 0 \<or> start > end' \<or> end' \<ge> file_size then Inl ''range not satisfiable''
                               else Inr (Some \<lparr>br_start = start, br_end = end'\<rparr>)))))"

section \<open>The endpoint\<close>

text \<open>A Range header that is not text is there, but not read (\<open>Some None\<close>).\<close>

record http_reply =
  rp_status :: nat
  rp_content_range :: "string option"
  rp_content_length :: "nat option"
  rp_body :: "u8 list"

definition content_range :: "byte_range \<Rightarrow> nat \<Rightarrow> string" where
  "content_range r n = ''bytes '' @ nat_to_dec (br_start r) @ ''-'' @ nat_to_dec (br_end r) @ ''/'' @ nat_to_dec n"

definition serve_local_file :: "file_tree \<Rightarrow> string \<Rightarrow> string option option \<Rightarrow> bool \<Rightarrow> (nat \<times> string, http_reply) result" where
  "serve_local_file fs path rng head_only =
     (if trim path = [] then Inl (400, ''missing path'')
      else case resolve_local_file_path fs path of
        Inl _ \<Rightarrow> Inl (404, ''file not found'')
      | Inr resolved \<Rightarrow>
      (case ft_content fs resolved of
        None \<Rightarrow> Inl (404, ''file not found'')
      | Some data \<Rightarrow>
          let n = length data;
              byte_range = (case rng of
                              Some (Some hdr) \<Rightarrow>
                                (case parse_range_header hdr n of
                                   Inr (Some r) \<Rightarrow> Inr r | Inr None \<Rightarrow> Inr (full_file n) | Inl err \<Rightarrow> Inl err)
                            | _ \<Rightarrow> Inr (full_file n))
          in case byte_range of
               Inl _ \<Rightarrow> Inr \<lparr>rp_status = 416, rp_content_range = Some (''bytes */'' @ nat_to_dec n), rp_content_length = None, rp_body = []\<rparr>
             | Inr r \<Rightarrow>
                 let len = content_len n r; is_partial = (rng \<noteq> None \<and> n > 0)
                 in Inr \<lparr>rp_status = (if is_partial then 206 else 200),
                         rp_content_range = (if is_partial then Some (content_range r n) else None),
                         rp_content_length = Some len,
                         rp_body = (if head_only then [] else take len (drop (br_start r) data))\<rparr>))"

section \<open>The reader for data channels\<close>

definition LOCAL_FILE_CHUNK_SIZE :: nat where "LOCAL_FILE_CHUNK_SIZE = 4096"

record local_file_reader =
  lr_data :: "u8 list"
  lr_range_start :: nat
  lr_position :: nat
  lr_end :: nat

definition open_local_file_reader :: "file_tree \<Rightarrow> string \<Rightarrow> byte_range option \<Rightarrow> (string, local_file_reader) result" where
  "open_local_file_reader fs path rng =
     (case resolve_local_file_path fs path of
        Inl err \<Rightarrow> Inl err
      | Inr resolved \<Rightarrow>
      (case ft_content fs resolved of
        None \<Rightarrow> Inl (''failed to open '' @ resolved)
      | Some data \<Rightarrow>
          let n = length data; r = (case rng of Some r \<Rightarrow> r | None \<Rightarrow> full_file n) in
          if n > 0 \<and> br_start r \<ge> n then Inl ''range start beyond file size''
          else let end_position = (if n = 0 then 0 else min (br_end r) (n - 1)) in
          if br_start r > end_position \<and> n > 0 then Inl ''invalid byte range''
          else Inr \<lparr>lr_data = data, lr_range_start = br_start r, lr_position = br_start r, lr_end = end_position\<rparr>))"

definition lr_read_next_chunk :: "local_file_reader \<Rightarrow> u8 list option \<times> local_file_reader" where
  "lr_read_next_chunk r =
     (if lr_position r > lr_end r then (None, r)
      else let remaining = lr_end r - lr_position r + 1; read_size = min LOCAL_FILE_CHUNK_SIZE remaining;
               buffer = take read_size (drop (lr_position r) (lr_data r))
      in if buffer = [] then (None, r) else (Some buffer, r\<lparr>lr_position := lr_position r + length buffer\<rparr>))"

text \<open>Reading until there is no chunk left.\<close>

function lr_read_all :: "local_file_reader \<Rightarrow> u8 list list" where
  "lr_read_all r = (case lr_read_next_chunk r of (None, _) \<Rightarrow> [] | (Some c, r') \<Rightarrow> c # lr_read_all r')"
  by pat_completeness auto
termination
  by (relation "measure (\<lambda>r. Suc (lr_end r) - lr_position r)")
    (auto simp: lr_read_next_chunk_def Let_def split: if_splits)

declare lr_read_all.simps [simp del]

section \<open>What is served\<close>

lemma digits_plain:
  "c \<in> set (nat_to_dec n) \<Longrightarrow> \<not> is_ascii_space c \<and> c \<noteq> CHR ''-'' \<and> c \<noteq> CHR ''/'' \<and> c \<noteq> CHR '','' \<and> c \<noteq> CHR ''+''"
  using nat_to_dec_digits [of n] by (auto simp: list_all_iff is_digit_def is_ascii_space_def Let_def)

lemma parse_i64_dec:
  assumes "n < 9223372036854775808"
  shows "parse_i64 (nat_to_dec n) = Some (int n)"
proof -
  obtain c r where cr: "nat_to_dec n = c # r" by (cases "nat_to_dec n") auto
  then have "c \<noteq> CHR ''-''" using digits_plain [of c n] by simp
  with cr parse_radix_dec [OF assms] show ?thesis by (simp add: parse_i64_def)
qed

text \<open>
  The Content-Range header the device writes is the one it reads: what the endpoint prints for
  a range is parsed back by the range reader to the same first byte, last byte and size.
\<close>

lemma content_range_roundtrip:
  assumes "br_start r \<le> br_end r" "br_end r < n" "n < 9223372036854775808"
  shows "parse_content_range (content_range r n) = Some (int (br_start r), int (br_end r), int n)"
proof -
  let ?a = "nat_to_dec (br_start r)" and ?b = "nat_to_dec (br_end r)" and ?n = "nat_to_dec n"
  have l: "\<not> is_ascii_space (last ?n)" using digits_plain [of "last ?n" n] by simp
  have t: "trim (content_range r n) = content_range r n"
    by (rule trim_keeps) (use l in \<open>simp_all add: content_range_def is_ascii_space_def\<close>)
  have plain: "trim (nat_to_dec k) = nat_to_dec k" for k by (rule trim_id) (use digits_plain in blast)
  have "CHR ''/'' \<notin> set (?a @ ''-'' @ ?b)" using digits_plain by auto
  then have s1: "str_split_once (CHR ''/'') (?a @ ''-'' @ ?b @ ''/'' @ ?n) = Some (?a @ ''-'' @ ?b, ?n)"
    using split_once_append [of "CHR ''/''" "?a @ ''-'' @ ?b" ?n] by simp
  have "CHR ''-'' \<notin> set ?a" using digits_plain by auto
  then have s2: "str_split_once (CHR ''-'') (?a @ ''-'' @ ?b) = Some (?a, ?b)"
    using split_once_append [of "CHR ''-''" ?a ?b] by simp
  have "parse_i64 ?a = Some (int (br_start r))" "parse_i64 ?b = Some (int (br_end r))" "parse_i64 ?n = Some (int n)"
    using assms by (simp_all add: parse_i64_dec)
  then show ?thesis unfolding parse_content_range_def t Let_def
    using s1 s2 plain assms by (simp add: content_range_def starts_with_def)
qed

text \<open>
  A Range header is honoured or refused, never misread: a range the parser accepts for a
  non-empty file lies within it, and the endpoint then answers exactly these bytes with their number
  as Content-Length and the status and range of a partial answer.
\<close>

lemma parse_range_inside:
  "parse_range_header h n = Inr (Some r) \<Longrightarrow> 0 < n \<Longrightarrow> br_start r \<le> br_end r \<and> br_end r < n"
  by (auto simp: parse_range_header_def Let_def split: if_splits option.splits)

lemma range_served_exactly:
  assumes "resolve_local_file_path fs path = Inr p" "ft_content fs p = Some data" "data \<noteq> []" "trim path \<noteq> []"
    "parse_range_header hdr (length data) = Inr (Some r)"
  shows "\<exists>rep. serve_local_file fs path (Some (Some hdr)) False = Inr rep \<and> rp_status rep = 206 \<and>
    rp_content_range rep = Some (content_range r (length data)) \<and> rp_content_length rep = Some (length (rp_body rep)) \<and>
    rp_body rep = take (br_end r - br_start r + 1) (drop (br_start r) data) \<and> length (rp_body rep) = br_end r - br_start r + 1 \<and>
    br_end r < length data"
proof -
  have r: "br_start r \<le> br_end r" "br_end r < length data" using parse_range_inside [OF assms(5)] assms(3) by auto
  have "content_len (length data) r = br_end r - br_start r + 1"
    using r assms(3) by (simp add: content_len_def range_len_def)
  with assms r show ?thesis by (simp add: serve_local_file_def Let_def)
qed

definition demo_image :: "u8 list" where "demo_image = [1, 2, 3, 4, 5]"

definition demo_tree :: file_tree where
  "demo_tree = \<lparr>ft_canon = \<lambda>p. if p = ''/userdata/arkkvm'' \<or> p = ''/userdata/arkkvm/a.img'' then Some p else None,
     ft_content = \<lambda>p. if p = ''/userdata/arkkvm/a.img'' then Some demo_image else None\<rparr>"

lemma demo_trim: "trim ''a.img'' = ''a.img''"
  by (rule trim_keeps) (simp_all add: is_ascii_space_def)

lemma demo_resolve: "resolve_local_file_path demo_tree ''a.img'' = Inr ''/userdata/arkkvm/a.img''"
  by (simp add: resolve_local_file_path_def user_path_to_relative_def demo_trim demo_tree_def CONFIG_DIR_def starts_with_def
      validate_relative_components_def replace_backslash_def BACKSLASH_def path_starts_with_def path_parts_def Let_def)

section \<open>Ranges as the reader asks for them\<close>

text \<open>The header of the range reader's requests (\<open>fetch_range_once\<close>).\<close>

definition range_request :: "int \<Rightarrow> int \<Rightarrow> string" where
  "range_request a b =
     (let dec = (\<lambda>x. if x < 0 then CHR ''-'' # nat_to_dec (nat (- x)) else nat_to_dec (nat x))
      in ''bytes='' @ dec a @ ''-'' @ dec b)"

lemma parse_range_request:
  assumes "a \<le> b" "b < n" "n < 18446744073709551616"
  shows "parse_range_header (range_request (int a) (int b)) n = Inr (Some \<lparr>br_start = a, br_end = b\<rparr>)"
proof -
  have l: "\<not> is_ascii_space (last (nat_to_dec b))" using digits_plain [of "last (nat_to_dec b)" b] by simp
  have rq: "range_request (int a) (int b) = ''bytes='' @ nat_to_dec a @ ''-'' @ nat_to_dec b" by (simp add: range_request_def Let_def)
  have t: "trim (range_request (int a) (int b)) = range_request (int a) (int b)"
    by (rule trim_keeps) (use l in \<open>simp_all add: rq is_ascii_space_def\<close>)
  have d: "CHR '','' \<notin> set (nat_to_dec a @ ''-'' @ nat_to_dec b)" "CHR ''-'' \<notin> set (nat_to_dec a)" using digits_plain by auto
  obtain c cs where ac: "nat_to_dec a = c # cs" by (cases "nat_to_dec a") auto
  then have "c \<noteq> CHR ''-''" using digits_plain [of c a] by simp
  then have ns: "\<not> starts_with (nat_to_dec a @ ''-'' @ nat_to_dec b) ''-''" using ac by (simp add: starts_with_def)
  have sp: "str_split_once (CHR ''-'') (nat_to_dec a @ ''-'' @ nat_to_dec b) = Some (nat_to_dec a, nat_to_dec b)"
    using split_once_append [OF d(2), of "nat_to_dec b"] by simp
  have "parse_u64 (nat_to_dec a) = Some a" "parse_u64 (nat_to_dec b) = Some b"
    using assms by (simp_all add: parse_u64_def parse_radix_dec)
  then show ?thesis unfolding parse_range_header_def t Let_def
    using d ns sp assms by (simp add: rq starts_with_def)
qed

text \<open>
  C19: What one device serves another can read. A request that has passed the authentication of the route,
  for a file inside the folder and any range inside the file, in the words the range reader uses, is
  answered with status 206, exactly the bytes of the range, and a \<^verbatim>\<open>Content-Range\<close> that the reader parses back to the
  range and the size of the file.
\<close>

theorem served_range_exact:
  assumes "resolve_local_file_path fs path = Inr p" "ft_content fs p = Some img" "trim path \<noteq> []" "length img < 9223372036854775808"
    and "a \<le> b" "b < length img"
  shows "\<exists>rep. serve_local_file fs path (Some (Some (range_request (int a) (int b)))) False = Inr rep \<and> rp_status rep = 206 \<and>
    Option.bind (rp_content_range rep) parse_content_range = Some (int a, int b, int (length img)) \<and>
    rp_body rep = take (b - a + 1) (drop a img) \<and> rp_content_length rep = Some (b - a + 1)"
proof -
  let ?r = "\<lparr>br_start = a, br_end = b\<rparr>"
  have pr: "parse_range_header (range_request (int a) (int b)) (length img) = Inr (Some ?r)"
    using parse_range_request [of a b "length img"] assms(4-6) by simp
  have "img \<noteq> []" using assms(6) by auto
  from range_served_exactly [OF assms(1,2) this assms(3) pr] obtain rep where
    "serve_local_file fs path (Some (Some (range_request (int a) (int b)))) False = Inr rep" "rp_status rep = 206"
    "rp_content_range rep = Some (content_range ?r (length img))" "rp_body rep = take (b - a + 1) (drop a img)"
    "rp_content_length rep = Some (b - a + 1)" by auto
  moreover have "parse_content_range (content_range ?r (length img)) = Some (int a, int b, int (length img))"
    using content_range_roundtrip [of ?r "length img"] assms(4-6) by simp
  ultimately show ?thesis by simp
qed

theorem served_range_exact_witness:
  "\<exists>rep. serve_local_file demo_tree ''a.img'' (Some (Some (range_request (int 1) (int 3)))) False = Inr rep \<and> rp_status rep = 206 \<and>
    Option.bind (rp_content_range rep) parse_content_range = Some (int 1, int 3, int (length demo_image)) \<and>
    rp_body rep = take (3 - 1 + 1) (drop 1 demo_image) \<and> rp_content_length rep = Some (3 - 1 + 1)"
  by (rule served_range_exact [OF demo_resolve]) (simp_all add: demo_tree_def demo_trim demo_image_def)

text \<open>
  The check of path components comes before backslashes become slashes: a path with the parent
  folder behind backslashes passes it and comes out as a climbing path, which only the later check
  of the resolved file stops.
\<close>

theorem backslash_passes_component_check:
  "user_path_to_relative (''..'' @ [BACKSLASH] @ ''..'' @ [BACKSLASH] @ ''etc'' @ [BACKSLASH] @ ''passwd'') = Inr ''../../etc/passwd''"
  (is "user_path_to_relative ?p = _")
proof -
  have t: "trim ?p = ?p" by (rule trim_keeps) (simp_all add: is_ascii_space_def)
  show ?thesis unfolding user_path_to_relative_def t Let_def
    by (simp add: CONFIG_DIR_def starts_with_def validate_relative_components_def replace_backslash_def BACKSLASH_def)
qed

section \<open>Chunks for data channels\<close>

lemma lr_read_all_data:
  assumes "lr_position r \<le> lr_end r \<longrightarrow> lr_end r < length (lr_data r)"
  shows "concat (lr_read_all r) = take (Suc (lr_end r) - lr_position r) (drop (lr_position r) (lr_data r))"
  using assms
proof (induction r rule: lr_read_all.induct)
  case (1 r)
  let ?n = "min LOCAL_FILE_CHUNK_SIZE (lr_end r - lr_position r + 1)"
  let ?b = "take ?n (drop (lr_position r) (lr_data r))"
  show ?case
  proof (cases "lr_position r > lr_end r")
    case True
    then show ?thesis by (simp add: lr_read_all.simps [of r] lr_read_next_chunk_def)
  next
    case False
    have lb: "length ?b = ?n" using False 1(2) by auto
    have pos: "0 < ?n" by (simp add: LOCAL_FILE_CHUNK_SIZE_def)
    then have "?b \<noteq> []" using lb by (metis length_0_conv less_irrefl)
    then have nx: "lr_read_next_chunk r = (Some ?b, r\<lparr>lr_position := lr_position r + ?n\<rparr>)"
      using False lb by (simp add: lr_read_next_chunk_def Let_def)
    have "concat (lr_read_all r) = ?b @ concat (lr_read_all (r\<lparr>lr_position := lr_position r + ?n\<rparr>))"
      using nx by (simp add: lr_read_all.simps [of r])
    also have "concat (lr_read_all (r\<lparr>lr_position := lr_position r + ?n\<rparr>)) =
        take (Suc (lr_end r) - (lr_position r + ?n)) (drop (lr_position r + ?n) (lr_data r))"
      using 1(1) [OF nx [symmetric] refl] 1(2) False by simp
    also have "?b @ \<dots> = take (?n + (Suc (lr_end r) - (lr_position r + ?n))) (drop (lr_position r) (lr_data r))"
      by (simp only: take_add drop_drop add.commute)
    also have "?n + (Suc (lr_end r) - (lr_position r + ?n)) = Suc (lr_end r) - lr_position r" using False by simp
    finally show ?thesis .
  qed
qed

end
