(* ===== verification/Cloud_Link.thy ===== *)
theory Cloud_Link
  imports Config_Store
begin

text \<open>
  The connection to the cloud: the manager of \<^verbatim>\<open>cloud/manager.rs\<close> with its state and reconnect gate, the
  web-socket client of \<^verbatim>\<open>cloud/websocket.rs\<close> as far as connecting, staying alive and ending go, and the
  RPC handlers of \<^verbatim>\<open>jsonrpc.rs\<close> that use them. The connection loop is one task; \<open>cloud_pc\<close> says where it
  waits. Addresses of the board are numbered (\<open>cw_net\<close>): a socket belongs to the one it was opened on.
\<close>

section \<open>States\<close>

datatype cloud_state = NotConfigured | Disconnected | Connecting | Connected

definition cloud_state_from :: "u8 \<Rightarrow> cloud_state" where
  "cloud_state_from v = (if v = 0 then NotConfigured else if v = 1 then Disconnected
     else if v = 2 then Connecting else if v = 3 then Connected else NotConfigured)"

definition cloud_state_code :: "cloud_state \<Rightarrow> u8" where
  "cloud_state_code s = (case s of NotConfigured \<Rightarrow> 0 | Disconnected \<Rightarrow> 1 | Connecting \<Rightarrow> 2 | Connected \<Rightarrow> 3)"

definition cloud_state_as_str :: "cloud_state \<Rightarrow> string" where
  "cloud_state_as_str s = (case s of NotConfigured \<Rightarrow> ''notConfigured'' | Disconnected \<Rightarrow> ''disconnected''
     | Connecting \<Rightarrow> ''connecting'' | Connected \<Rightarrow> ''connected'')"

definition cloud_state_from_str :: "string \<Rightarrow> (string, cloud_state) result" where
  "cloud_state_from_str s =
     (if s = ''notConfigured'' then Inr NotConfigured
      else if s = ''disconnected'' then Inr Disconnected
      else if s = ''connecting'' then Inr Connecting
      else if s = ''connected'' then Inr Connected
      else Inl (''Invalid CloudConnectionState: '' @ s @ ''. Valid values are: notConfigured, disconnected, connecting, connected''))"

lemma cloud_state_codes:
  "cloud_state_from (cloud_state_code s) = s" "cloud_state_from_str (cloud_state_as_str s) = Inr s"
  by (cases s; simp add: cloud_state_from_def cloud_state_code_def cloud_state_from_str_def cloud_state_as_str_def)+

section \<open>The gate\<close>

record reconnect_gate =
  rg_generation :: nat
  rg_paused :: bool

definition gate_new :: reconnect_gate where "gate_new = \<lparr>rg_generation = 0, rg_paused = False\<rparr>"

definition gate_begin :: "reconnect_gate \<Rightarrow> nat \<times> reconnect_gate" where
  "gate_begin g = (rg_generation g + 1, \<lparr>rg_generation = rg_generation g + 1, rg_paused = True\<rparr>)"

definition gate_end :: "nat \<Rightarrow> reconnect_gate \<Rightarrow> bool \<times> reconnect_gate" where
  "gate_end k g = (if rg_paused g \<and> k = rg_generation g then (True, g\<lparr>rg_paused := False\<rparr>) else (False, g))"

definition gate_release :: "reconnect_gate \<Rightarrow> reconnect_gate" where
  "gate_release g = \<lparr>rg_generation = rg_generation g + 1, rg_paused = False\<rparr>"

section \<open>The manager and the socket\<close>

record cloud_manager =
  cl_state :: cloud_state
  cl_gate :: reconnect_gate

definition cloud_manager_new :: cloud_manager where
  "cloud_manager_new = \<lparr>cl_state = NotConfigured, cl_gate = gate_new\<rparr>"

text \<open>
  Where the loop is, from one await to the next: at its top; past the gate, about to read the
  configuration; with a URL, asking for the versions it sends along; in the handshake, on the
  address its socket uses; with a socket whose sender is in place while the state is not yet
  Connected; reading frames, with the time of the last one; with the sender removed while the state
  is not yet Disconnected.
\<close>

datatype cloud_pc =
    AtTop
  | Starting
  | Preparing string
  | Dialing nat string
  | Opening nat string nat
  | Reading nat string nat
  | Closing

record 'r cloud_world =
  cw_store :: "'r config_manager"
  cw_pc :: cloud_pc
  cw_tx :: bool
  cw_close_sent :: bool
  cw_net :: nat
  cw_dials :: nat

definition set_state :: "cloud_state \<Rightarrow> cloud_manager \<Rightarrow> cloud_manager" where
  "set_state s m = m\<lparr>cl_state := s\<rparr>"

definition cloud_ws_close :: "'r cloud_world \<Rightarrow> 'r cloud_world" where
  "cloud_ws_close w = (if cw_tx w then w\<lparr>cw_close_sent := True\<rparr> else w)"

definition reconnect_after_network_change :: "cloud_manager \<times> 'r cloud_world \<Rightarrow> cloud_manager \<times> 'r cloud_world" where
  "reconnect_after_network_change = (\<lambda>(m, w).
     if cl_state m \<in> {Connected, Connecting} then (set_state Disconnected m, cloud_ws_close w) else (m, w))"

definition begin_network_transition :: "cloud_manager \<times> 'r cloud_world \<Rightarrow> nat \<times> cloud_manager \<times> 'r cloud_world" where
  "begin_network_transition = (\<lambda>(m, w).
     case gate_begin (cl_gate m) of (k, g) \<Rightarrow> (k, reconnect_after_network_change (m\<lparr>cl_gate := g\<rparr>, w)))"

definition end_network_transition :: "nat \<Rightarrow> cloud_manager \<Rightarrow> cloud_manager" where
  "end_network_transition k m =
     (case gate_end k (cl_gate m) of
        (True, g) \<Rightarrow> (let m1 = m\<lparr>cl_gate := g\<rparr> in if cl_state m1 \<noteq> NotConfigured then set_state Disconnected m1 else m1)
      | (False, g) \<Rightarrow> m\<lparr>cl_gate := g\<rparr>)"

definition force_reconnect :: "cloud_manager \<times> 'r cloud_world \<Rightarrow> cloud_manager \<times> 'r cloud_world" where
  "force_reconnect = (\<lambda>(m, w).
     let m1 = m\<lparr>cl_gate := gate_release (cl_gate m)\<rparr> in
     if cl_state m1 = NotConfigured then (m1, w) else (set_state Disconnected m1, cloud_ws_close w))"

definition get_cloud_state :: "'r cloud_world \<Rightarrow> bool \<times> string \<times> string" where
  "get_cloud_state w =
     (let c = cm_config (cw_store w) in (c_cloud_token c \<noteq> None \<and> c_cloud_url c \<noteq> [], c_cloud_url c, c_cloud_app_url c))"

section \<open>Registration\<close>

definition config_error_text :: "config_error \<Rightarrow> string" where
  "config_error_text err = (case err of ConfigInvalid es \<Rightarrow> concat es | ConfigIo e \<Rightarrow> e | ConfigRejected e \<Rightarrow> e)"

definition update_store ::
  "((config_error, unit) result \<times> 'r config_manager) \<Rightarrow> 'r cloud_world \<Rightarrow> (string, unit) result \<times> 'r cloud_world" where
  "update_store rs w =
     (case rs of (Inl err, s) \<Rightarrow> (Inl (config_error_text err), w\<lparr>cw_store := s\<rparr>) | (Inr _, s) \<Rightarrow> (Inr (), w\<lparr>cw_store := s\<rparr>))"

text \<open>\<open>exchange\<close> is what the cloud answers to the temporary token: the secret token and the owner.\<close>

definition register_device ::
  "'r codec \<Rightarrow> (nat \<Rightarrow> io_env) \<Rightarrow> (string \<Rightarrow> string \<Rightarrow> (string, string \<times> int option) result) \<Rightarrow> string \<Rightarrow> string \<Rightarrow>
   cloud_manager \<times> 'r cloud_world \<Rightarrow> (string, unit) result \<times> cloud_manager \<times> 'r cloud_world" where
  "register_device cd io exchange token req_api = (\<lambda>(m, w).
     let cfg_url = c_cloud_url (cm_config (cw_store w)) in
     if cfg_url = [] \<and> req_api = [] then (Inl ''Cloud URL is not configured'', m, w)
     else let cloud_api = (if cfg_url \<noteq> [] then cfg_url else req_api) in
     case exchange token cloud_api of
       Inl err \<Rightarrow> (Inl err, m, w)
     | Inr (secret, owner) \<Rightarrow>
         (case update_store (set_cloud_config cd (io 0) (Some cloud_api) (Some secret) (cw_store w)) w of
            (Inl err, w1) \<Rightarrow> (Inl err, m, w1)
          | (Inr _, w1) \<Rightarrow>
              (case update_store (manager_update cd (io 1) (\<lambda>c. c\<lparr>c_owner_user_id := owner\<rparr>) (cw_store w1)) w1 of
                 (Inl err, w2) \<Rightarrow> (Inl err, m, w2)
               | (Inr _, w2) \<Rightarrow> (Inr (), set_state Disconnected m, w2))))"

definition deregister_device ::
  "'r codec \<Rightarrow> (nat \<Rightarrow> io_env) \<Rightarrow> (string, nat) result \<Rightarrow>
   cloud_manager \<times> 'r cloud_world \<Rightarrow> (string, unit) result \<times> cloud_manager \<times> 'r cloud_world" where
  "deregister_device cd io answer = (\<lambda>(m, w).
     let c = cm_config (cw_store w) in
     if c_cloud_token c = None \<or> c_cloud_url c = [] then (Inl ''Cloud token or URL is not set'', m, w)
     else case answer of
       Inl err \<Rightarrow> (Inl err, m, w)
     | Inr st \<Rightarrow>
         if \<not> (200 \<le> st \<and> st < 300 \<or> st = 404) then (Inl (''Deregister request failed with status: '' @ nat_to_dec st), m, w)
         else (case update_store (set_cloud_config cd (io 0) None None (cw_store w)) w of
            (Inl err, w1) \<Rightarrow> (Inl err, m, w1)
          | (Inr _, w1) \<Rightarrow>
              (case update_store (manager_update cd (io 1) (\<lambda>c. c\<lparr>c_owner_user_id := None\<rparr>) (cw_store w1)) w1 of
                 (Inl err, w2) \<Rightarrow> (Inl err, m, w2)
               | (Inr _, w2) \<Rightarrow> (Inr (), set_state NotConfigured m, cloud_ws_close w2))))"

definition set_cloud_url ::
  "'r codec \<Rightarrow> io_env \<Rightarrow> string \<Rightarrow> string \<Rightarrow>
   cloud_manager \<times> 'r cloud_world \<Rightarrow> (string, unit) result \<times> cloud_manager \<times> 'r cloud_world" where
  "set_cloud_url cd io api_url app_url = (\<lambda>(m, w).
     let m1 = (if c_cloud_url (cm_config (cw_store w)) \<noteq> api_url then set_state Disconnected m else m)
     in case update_store (manager_update cd io (\<lambda>c. c\<lparr>c_cloud_url := api_url, c_cloud_app_url := app_url\<rparr>) (cw_store w)) w of
          (r, w1) \<Rightarrow> (r, m1, w1))"

text \<open>
  The RPC handlers work on a manager of their own, made for the call and dropped after it; what they
  do to its state is lost. \<open>url\<close> is the URL parser: scheme, origin and the text of a URL.
\<close>

definition rpc_deregister_device ::
  "'r codec \<Rightarrow> (nat \<Rightarrow> io_env) \<Rightarrow> (string, nat) result \<Rightarrow>
   cloud_manager \<times> 'r cloud_world \<Rightarrow> (string, unit) result \<times> cloud_manager \<times> 'r cloud_world" where
  "rpc_deregister_device cd io answer = (\<lambda>(m, w).
     case deregister_device cd io answer (cloud_manager_new, w) of (r, _, w1) \<Rightarrow> (r, m, w1))"

definition check_url_valid :: "string \<Rightarrow> string \<Rightarrow> bool" where
  "check_url_valid origin url = (origin @ ''/'' = url \<or> origin = url)"

definition rpc_set_cloud_url ::
  "'r codec \<Rightarrow> io_env \<Rightarrow> (string \<Rightarrow> (string, string \<times> string \<times> string) result) \<Rightarrow> string \<Rightarrow> string \<Rightarrow>
   cloud_manager \<times> 'r cloud_world \<Rightarrow> (string, unit) result \<times> cloud_manager \<times> 'r cloud_world" where
  "rpc_set_cloud_url cd io url api app = (\<lambda>(m, w).
     let api_url = trim api; app_url = trim app in
     if api_url = [] \<or> app_url = [] then (Inl ''API URL and app URL cannot be empty'', m, w)
     else case url api_url of
       Inl err \<Rightarrow> (Inl err, m, w)
     | Inr (api_scheme, api_origin, api_text) \<Rightarrow>
     (case url app_url of
       Inl err \<Rightarrow> (Inl err, m, w)
     | Inr (app_scheme, app_origin, app_text) \<Rightarrow>
         if api_scheme \<notin> {''https'', ''http''} \<or> app_scheme \<notin> {''http'', ''https''} then (Inl ''unsupported url scheme'', m, w)
         else if \<not> check_url_valid api_origin api_text \<or> \<not> check_url_valid app_origin app_text
         then (Inl ''the url is not valid'', m, w)
         else (case set_cloud_url cd io api_origin app_origin (cloud_manager_new, w) of (r, _, w1) \<Rightarrow> (r, m, w1))))"

section \<open>The connection loop\<close>

definition LIVENESS_SECS :: nat where "LIVENESS_SECS = 45"

datatype cloud_event =
    NotPrepared
  | Prepared
  | DialFailed
  | DialDone nat
  | Frame nat
  | Silence nat
  | SocketEnds
  | Nothing

text \<open>An attempt is over: the state is Disconnected and the loop is back at its top.\<close>

definition attempt_over :: "cloud_manager \<times> 'r cloud_world \<Rightarrow> cloud_manager \<times> 'r cloud_world" where
  "attempt_over = (\<lambda>(m, w). (set_state Disconnected m, w\<lparr>cw_pc := AtTop\<rparr>))"

text \<open>The socket is given up: its tasks are stopped and the sender is removed.\<close>

definition socket_gone :: "cloud_manager \<times> 'r cloud_world \<Rightarrow> cloud_manager \<times> 'r cloud_world" where
  "socket_gone = (\<lambda>(m, w). (m, w\<lparr>cw_pc := Closing, cw_tx := False, cw_close_sent := False\<rparr>))"

text \<open>With the configuration at hand: the URL is taken from it, and the state is Connecting.\<close>

definition connect_to_cloud :: "cloud_manager \<times> 'r cloud_world \<Rightarrow> cloud_manager \<times> 'r cloud_world" where
  "connect_to_cloud = (\<lambda>(m, w).
     let c = cm_config (cw_store w) in
     case c_cloud_token c of
       None \<Rightarrow> attempt_over (set_state NotConfigured m, w)
     | Some _ \<Rightarrow> (set_state Connecting m, w\<lparr>cw_pc := Preparing (c_cloud_url c)\<rparr>))"

definition loop_top :: "cloud_manager \<times> 'r cloud_world \<Rightarrow> cloud_manager \<times> 'r cloud_world" where
  "loop_top = (\<lambda>(m, w).
     case cl_state m of
       NotConfigured \<Rightarrow>
         (let c = cm_config (cw_store w) in
          if c_cloud_token c \<noteq> None \<and> c_cloud_url c \<noteq> [] then (set_state Disconnected m, w) else (m, w))
     | Disconnected \<Rightarrow>
         if rg_paused (cl_gate m) then (m, w)
         else (set_state Connecting m, w\<lparr>cw_pc := Starting\<rparr>)
     | _ \<Rightarrow> (m, w))"

fun loop_step :: "cloud_event \<Rightarrow> cloud_manager \<times> 'r cloud_world \<Rightarrow> cloud_manager \<times> 'r cloud_world" where
  "loop_step ev (m, w) =
     (case cw_pc w of
        AtTop \<Rightarrow> loop_top (m, w)
      | Starting \<Rightarrow> connect_to_cloud (m, w)
      | Preparing u \<Rightarrow>
          (case ev of
             NotPrepared \<Rightarrow> attempt_over (m, w)
           | Prepared \<Rightarrow> (m, w\<lparr>cw_pc := Dialing (cw_net w) u, cw_dials := cw_dials w + 1\<rparr>)
           | _ \<Rightarrow> (m, w))
      | Dialing n u \<Rightarrow>
          (case ev of
             DialFailed \<Rightarrow> attempt_over (m, w)
           | DialDone now \<Rightarrow> (m, w\<lparr>cw_pc := Opening n u now, cw_tx := True, cw_close_sent := False\<rparr>)
           | _ \<Rightarrow> (m, w))
      | Opening n u now \<Rightarrow> (set_state Connected m, w\<lparr>cw_pc := Reading n u now\<rparr>)
      | Reading n u seen \<Rightarrow>
          (case ev of
             Frame now \<Rightarrow> (m, w\<lparr>cw_pc := Reading n u now\<rparr>)
           | Silence now \<Rightarrow> if now \<ge> seen + LIVENESS_SECS then socket_gone (m, w) else (m, w)
           | SocketEnds \<Rightarrow> socket_gone (m, w)
           | _ \<Rightarrow> (m, w))
      | Closing \<Rightarrow> attempt_over (m, w))"

section \<open>Runs\<close>

datatype 'r cloud_action =
    LoopStep cloud_event
  | BeginTransition
  | EndTransition nat
  | ForceReconnect
  | Register "nat \<Rightarrow> io_env" "string \<Rightarrow> string \<Rightarrow> (string, string \<times> int option) result" string string
  | Deregister "nat \<Rightarrow> io_env" "(string, nat) result"
  | SetCloudUrl io_env "string \<Rightarrow> (string, string \<times> string \<times> string) result" string string
  | StoreChanged "'r config_manager"
  | AddressChanged

fun cloud_step :: "'r codec \<Rightarrow> 'r cloud_action \<Rightarrow> cloud_manager \<times> 'r cloud_world \<Rightarrow> cloud_manager \<times> 'r cloud_world" where
  "cloud_step cd (LoopStep ev) s = loop_step ev s"
| "cloud_step cd BeginTransition s = snd (begin_network_transition s)"
| "cloud_step cd (EndTransition k) s = (end_network_transition k (fst s), snd s)"
| "cloud_step cd ForceReconnect s = force_reconnect s"
| "cloud_step cd (Register io exchange token api) s = snd (register_device cd io exchange token api s)"
| "cloud_step cd (Deregister io answer) s = snd (rpc_deregister_device cd io answer s)"
| "cloud_step cd (SetCloudUrl io url api app) s = snd (rpc_set_cloud_url cd io url api app s)"
| "cloud_step cd (StoreChanged st) s = (fst s, (snd s)\<lparr>cw_store := st\<rparr>)"
| "cloud_step cd AddressChanged s = (fst s, (snd s)\<lparr>cw_net := cw_net (snd s) + 1\<rparr>)"

definition cloud_run :: "'r codec \<Rightarrow> 'r cloud_action list \<Rightarrow> cloud_manager \<times> 'r cloud_world \<Rightarrow> cloud_manager \<times> 'r cloud_world" where
  "cloud_run cd acts s = fold (cloud_step cd) acts s"

definition cloud_boot :: "'r config_manager \<Rightarrow> cloud_manager \<times> 'r cloud_world" where
  "cloud_boot st = (cloud_manager_new, \<lparr>cw_store = st, cw_pc = AtTop, cw_tx = False, cw_close_sent = False, cw_net = 0, cw_dials = 0\<rparr>)"

section \<open>The state is honest\<close>

fun attempting :: "cloud_pc \<Rightarrow> bool" where
  "attempting Starting = True"
| "attempting (Preparing u) = True"
| "attempting (Dialing n u) = True"
| "attempting (Opening n u t) = True"
| "attempting pc = False"

fun socket_open :: "cloud_pc \<Rightarrow> bool" where
  "socket_open (Opening n u t) = True"
| "socket_open (Reading n u t) = True"
| "socket_open pc = False"

fun settled :: "cloud_pc \<Rightarrow> bool" where
  "settled (Reading n u t) = True"
| "settled Closing = True"
| "settled pc = False"

definition honest :: "cloud_manager \<times> 'r cloud_world \<Rightarrow> bool" where
  "honest = (\<lambda>(m, w).
     (cl_state m = Connected \<longrightarrow> settled (cw_pc w)) \<and>
     (cl_state m = Connecting \<longrightarrow> attempting (cw_pc w)) \<and>
     (cw_tx w \<longleftrightarrow> socket_open (cw_pc w)))"

text \<open>Without operations that write the state from outside, the loop's own writes are exact.\<close>

definition exact :: "cloud_manager \<times> 'r cloud_world \<Rightarrow> bool" where
  "exact = (\<lambda>(m, w).
     (cl_state m = Connected \<longleftrightarrow> settled (cw_pc w)) \<and> (cl_state m = Connecting \<longleftrightarrow> attempting (cw_pc w)))"

fun undisturbed :: "'r cloud_action \<Rightarrow> bool" where
  "undisturbed (LoopStep ev) = True"
| "undisturbed (Deregister io answer) = True"
| "undisturbed (SetCloudUrl io url api app) = True"
| "undisturbed (StoreChanged st) = True"
| "undisturbed AddressChanged = True"
| "undisturbed a = False"

text \<open>What an operation outside the loop may do: change the store, ask for the end of the socket, set a resting state.\<close>

definition outside_step :: "cloud_manager \<times> 'r cloud_world \<Rightarrow> cloud_manager \<times> 'r cloud_world \<Rightarrow> bool" where
  "outside_step = (\<lambda>(m, w) (m', w').
     cw_pc w' = cw_pc w \<and> cw_tx w' = cw_tx w \<and> cw_dials w' = cw_dials w \<and>
     (cl_state m' = cl_state m \<or> cl_state m' \<in> {NotConfigured, Disconnected}))"

lemmas cloud_defs = begin_network_transition_def end_network_transition_def force_reconnect_def reconnect_after_network_change_def
  register_device_def deregister_device_def set_cloud_url_def rpc_deregister_device_def rpc_set_cloud_url_def cloud_ws_close_def
  set_state_def update_store_def gate_begin_def gate_end_def gate_release_def Let_def

lemma cloud_ws_close_fields [simp]:
  "cw_pc (cloud_ws_close w) = cw_pc w" "cw_tx (cloud_ws_close w) = cw_tx w" "cw_dials (cloud_ws_close w) = cw_dials w"
  "cw_net (cloud_ws_close w) = cw_net w" "cw_store (cloud_ws_close w) = cw_store w"
  by (simp_all add: cloud_ws_close_def)

lemma update_store_fields:
  "update_store rs w = (r, w') \<Longrightarrow>
   cw_pc w' = cw_pc w \<and> cw_tx w' = cw_tx w \<and> cw_dials w' = cw_dials w \<and> cw_net w' = cw_net w \<and> cw_close_sent w' = cw_close_sent w"
  by (auto simp: update_store_def split: prod.splits sum.splits)

lemma register_outside: "outside_step s (snd (register_device cd io exchange token api s))"
  by (cases s) (auto simp: register_device_def outside_step_def set_state_def Let_def dest!: update_store_fields
      split: sum.splits prod.splits)

lemma deregister_fields:
  "deregister_device cd io answer (m, w) = (r, m', w') \<Longrightarrow> cw_pc w' = cw_pc w \<and> cw_tx w' = cw_tx w \<and> cw_dials w' = cw_dials w"
  by (auto simp: deregister_device_def Let_def dest!: update_store_fields split: if_splits sum.splits prod.splits)

lemma set_cloud_url_fields:
  "set_cloud_url cd io a b (m, w) = (r, m', w') \<Longrightarrow>
   cw_pc w' = cw_pc w \<and> cw_tx w' = cw_tx w \<and> cw_dials w' = cw_dials w \<and> cw_close_sent w' = cw_close_sent w"
  by (auto simp: set_cloud_url_def Let_def dest!: update_store_fields split: prod.splits)

lemma rpc_outside:
  "outside_step s (snd (rpc_deregister_device cd io answer s))" "outside_step s (snd (rpc_set_cloud_url cd io' url api app s))"
  by (cases s; auto simp: rpc_deregister_device_def rpc_set_cloud_url_def outside_step_def Let_def
      dest!: deregister_fields set_cloud_url_fields split: prod.splits sum.splits)+

lemma gate_outside:
  "outside_step s (snd (begin_network_transition s))" "outside_step s (end_network_transition k (fst s), snd s)"
  "outside_step s (force_reconnect s)"
  by (cases s; auto simp: outside_step_def begin_network_transition_def end_network_transition_def force_reconnect_def
      reconnect_after_network_change_def set_state_def gate_begin_def gate_end_def Let_def)+

lemma outside_honest: "outside_step s s' \<Longrightarrow> honest s \<Longrightarrow> honest s'"
  by (auto simp: outside_step_def honest_def split: prod.splits)

lemma loop_honest: "honest s \<Longrightarrow> honest (loop_step ev s)"
proof (cases s)
  case (Pair m w)
  assume "honest s"
  with Pair show ?thesis
    by (cases "cw_pc w")
       (auto simp: honest_def loop_top_def connect_to_cloud_def attempt_over_def socket_gone_def set_state_def Let_def
         split: cloud_state.splits cloud_event.splits option.splits)
qed

lemma cloud_step_outside: "(\<forall>ev. a \<noteq> LoopStep ev) \<Longrightarrow> outside_step s (cloud_step cd a s)"
  by (cases a) (auto simp: gate_outside register_outside rpc_outside, auto simp: outside_step_def split: prod.splits)

lemma cloud_step_honest: "honest s \<Longrightarrow> honest (cloud_step cd a s)"
  using loop_honest [of s] outside_honest [OF cloud_step_outside, of a s cd] by (cases "\<exists>ev. a = LoopStep ev") (auto simp del: loop_step.simps)

lemma cloud_run_honest: "honest s \<Longrightarrow> honest (cloud_run cd acts s)"
  by (induction acts arbitrary: s) (simp_all add: cloud_run_def cloud_step_honest)

lemma cloud_boot_honest: "honest (cloud_boot st)"
  by (simp add: honest_def cloud_boot_def cloud_manager_new_def)

lemma loop_exact: "exact s \<Longrightarrow> exact (loop_step ev s)"
proof (cases s)
  case (Pair m w)
  assume "exact s"
  with Pair show ?thesis
    by (cases "cw_pc w")
       (auto simp: exact_def loop_top_def connect_to_cloud_def attempt_over_def socket_gone_def set_state_def Let_def
         split: cloud_state.splits cloud_event.splits option.splits)
qed

lemma rpc_exact:
  "exact s \<Longrightarrow> exact (snd (rpc_deregister_device cd io answer s))" "exact s \<Longrightarrow> exact (snd (rpc_set_cloud_url cd io' url api app s))"
  by (cases s; auto simp: rpc_deregister_device_def rpc_set_cloud_url_def exact_def Let_def
      dest!: deregister_fields set_cloud_url_fields split: prod.splits sum.splits)+

lemma cloud_step_exact: "exact s \<Longrightarrow> undisturbed a \<Longrightarrow> exact (cloud_step cd a s)"
  by (cases a) (auto simp: loop_exact rpc_exact simp del: loop_step.simps, auto simp: exact_def split: prod.splits)

lemma cloud_run_exact: "exact s \<Longrightarrow> list_all undisturbed acts \<Longrightarrow> exact (cloud_run cd acts s)"
  by (induction acts arbitrary: s) (simp_all add: cloud_run_def cloud_step_exact)

lemma cloud_boot_exact: "exact (cloud_boot st)"
  by (simp add: exact_def cloud_boot_def cloud_manager_new_def)

text \<open>
  C23: The state of the connection manager never claims a cloud connection that does not exist:
  whatever operations interleave with the connection loop, it is Connected only from the handshake's
  end until the loop gives its socket up, Connecting only while an attempt is under way, and a
  message can be sent exactly while a socket is open. As long as no network transition, forced
  reconnect or registration writes the state from outside, it says exactly where the loop is:
  Connected when and only when it reads from its socket or is just leaving it, Connecting when and only when an
  attempt is under way. (The RPC that reports the cloud to users answers from the configuration,
  not from this state.)
\<close>

theorem cloud_state_honest:
  assumes "(m, w) = cloud_run cd acts (cloud_boot st)"
  shows "(cl_state m = Connected \<longrightarrow> settled (cw_pc w)) \<and> (cl_state m = Connecting \<longrightarrow> attempting (cw_pc w)) \<and>
    (cw_tx w \<longleftrightarrow> socket_open (cw_pc w)) \<and>
    (list_all undisturbed acts \<longrightarrow>
       (cl_state m = Connected \<longleftrightarrow> settled (cw_pc w)) \<and> (cl_state m = Connecting \<longleftrightarrow> attempting (cw_pc w)))"
  using cloud_run_honest [OF cloud_boot_honest, of cd acts st] cloud_run_exact [OF cloud_boot_exact, of acts cd st] assms
  by (simp add: honest_def exact_def split: prod.splits)

section \<open>Transitions of the network\<close>

lemma outside_dials: "outside_step s s' \<Longrightarrow> cw_dials (snd s') = cw_dials (snd s) \<and> cw_pc (snd s') = cw_pc (snd s)"
  by (auto simp: outside_step_def split: prod.splits)

text \<open>Past the gate and not yet dialling: the attempt the gate can no longer hold.\<close>

fun past_gate :: "cloud_pc \<Rightarrow> nat" where
  "past_gate Starting = 1"
| "past_gate (Preparing u) = 1"
| "past_gate pc = 0"

lemma paused_no_dial:
  "rg_paused (cl_gate (fst s)) \<Longrightarrow>
   cw_dials (snd (loop_step ev s)) + past_gate (cw_pc (snd (loop_step ev s))) \<le> cw_dials (snd s) + past_gate (cw_pc (snd s))"
  by (cases s) (auto simp: loop_top_def connect_to_cloud_def attempt_over_def socket_gone_def Let_def
      split: cloud_pc.splits cloud_state.splits cloud_event.splits option.splits)

text \<open>The gate only moves forward, and stays closed until its last transition ends or it is forced open.\<close>

definition closed_since :: "nat \<Rightarrow> cloud_manager \<times> 'r cloud_world \<Rightarrow> bool" where
  "closed_since k s = (rg_paused (cl_gate (fst s)) \<and> k \<le> rg_generation (cl_gate (fst s)))"

lemma loop_gate: "cl_gate (fst (loop_step ev s)) = cl_gate (fst s)"
  by (cases s) (auto simp: loop_top_def connect_to_cloud_def attempt_over_def socket_gone_def set_state_def Let_def
      split: cloud_pc.splits cloud_state.splits cloud_event.splits option.splits)

lemma other_gate:
  "cl_gate (fst (snd (register_device cd io exchange token api s))) = cl_gate (fst s)"
  "cl_gate (fst (snd (rpc_deregister_device cd io answer s))) = cl_gate (fst s)"
  "cl_gate (fst (snd (rpc_set_cloud_url cd io' url api' app s))) = cl_gate (fst s)"
  by (cases s; simp add: register_device_def rpc_deregister_device_def rpc_set_cloud_url_def set_state_def Let_def
      split: prod.splits sum.splits)+

definition keeps_closed :: "nat \<Rightarrow> 'r cloud_action \<Rightarrow> bool" where
  "keeps_closed k a = (a \<noteq> ForceReconnect \<and> (\<forall>j \<ge> k. a \<noteq> EndTransition j))"

lemma closed_step: "closed_since k s \<Longrightarrow> keeps_closed k a \<Longrightarrow> closed_since k (cloud_step cd a s)"
proof (cases a)
  case BeginTransition
  assume "closed_since k s"
  with BeginTransition show ?thesis
    by (cases s) (auto simp: closed_since_def begin_network_transition_def gate_begin_def reconnect_after_network_change_def
        set_state_def)
next
  case (EndTransition j)
  assume c: "closed_since k s" and "keeps_closed k a"
  then have "j < k" using EndTransition by (auto simp: keeps_closed_def not_le [symmetric])
  with c EndTransition show ?thesis by (auto simp: closed_since_def end_network_transition_def gate_end_def)
qed (auto simp: closed_since_def loop_gate other_gate keeps_closed_def)

text \<open>
  C24: No connection attempt starts while the network is being changed: from the begin of a
  transition until it or a later one ends or a reconnect is forced, whatever operations and whatever
  late ends of earlier transitions come in between, the loop dials only if it had passed the gate
  before the transition began and not dialled yet, and then once.
\<close>

theorem no_dial_during_transition:
  assumes "begin_network_transition s = (k, s1)" "\<forall>a \<in> set acts. keeps_closed k a"
  shows "cw_dials (snd (cloud_run cd acts s1)) \<le> cw_dials (snd s) + past_gate (cw_pc (snd s))"
proof -
  let ?n = "\<lambda>s. cw_dials (snd s) + past_gate (cw_pc (snd s))"
  have run: "closed_since k s2 \<Longrightarrow> ?n (cloud_run cd acts s2) \<le> ?n s2" for s2
    using assms(2)
  proof (induction acts arbitrary: s2)
    case (Cons a acts)
    have "?n (cloud_step cd a s2) \<le> ?n s2"
      using Cons.prems(1) paused_no_dial [of s2] outside_dials [OF cloud_step_outside, of a cd s2]
      by (cases "\<exists>ev. a = LoopStep ev") (auto simp: closed_since_def simp del: loop_step.simps)
    moreover have "?n (cloud_run cd acts (cloud_step cd a s2)) \<le> ?n (cloud_step cd a s2)"
      using Cons closed_step [OF Cons.prems(1), of a cd] by simp
    ultimately show ?case by (simp add: cloud_run_def)
  qed (simp add: cloud_run_def)
  have "closed_since k s1" using assms(1)
    by (cases s) (auto simp: closed_since_def begin_network_transition_def gate_begin_def reconnect_after_network_change_def
        set_state_def split: if_splits)
  moreover have "?n s1 = ?n s"
    using outside_dials [OF gate_outside(1), of s] assms(1) by simp
  ultimately show ?thesis using run [of s1] by simp
qed

lemma loop_dials:
  assumes "honest (m, w)" "\<not> rg_paused (cl_gate m)" "cw_pc w = AtTop" "c_cloud_token (cm_config (cw_store w)) \<noteq> None"
    "c_cloud_url (cm_config (cw_store w)) \<noteq> []"
  shows "cw_pc (snd ((loop_step Prepared ^^ 4) (m, w))) = Dialing (cw_net w) (c_cloud_url (cm_config (cw_store w)))"
proof -
  consider "cl_state m = NotConfigured" | "cl_state m = Disconnected" using assms(1,3) by (cases "cl_state m") (auto simp: honest_def)
  then show ?thesis
    using assms(2-5)
    by cases (auto simp: eval_nat_numeral loop_top_def connect_to_cloud_def set_state_def Let_def split: option.splits)
qed

text \<open>
  The connection comes back: in every state the device reaches with the gate open and the device
  registered, a loop that waits at its top dials the configured cloud from the current address
  within four steps that go well, and one that reads from a socket that has been silent for 45
  seconds gives it up and dials.
\<close>

theorem cloud_reconnects:
  assumes "(m, w) = cloud_run cd acts (cloud_boot st)" "\<not> rg_paused (cl_gate m)"
    "c_cloud_token (cm_config (cw_store w)) \<noteq> None" "c_cloud_url (cm_config (cw_store w)) \<noteq> []"
  shows "(cw_pc w = AtTop \<longrightarrow>
      cw_pc (snd ((loop_step Prepared ^^ 4) (m, w))) = Dialing (cw_net w) (c_cloud_url (cm_config (cw_store w)))) \<and>
    (\<forall>n u seen now. cw_pc w = Reading n u seen \<longrightarrow> seen + 45 \<le> now \<longrightarrow>
      cw_pc (snd ((loop_step Prepared ^^ 4) (loop_step (Silence now) (m, w)))) = Dialing (cw_net w) (c_cloud_url (cm_config (cw_store w))))"
proof -
  have h: "honest (m, w)" using cloud_run_honest [OF cloud_boot_honest, of cd acts st] assms(1) by simp
  have "cw_pc (snd ((loop_step Prepared ^^ 4) (loop_step (Silence now) (m, w)))) = Dialing (cw_net w) (c_cloud_url (cm_config (cw_store w)))"
    if "cw_pc w = Reading n u seen" "seen + 45 \<le> now" for n u seen now
    using that assms(2-4)
    by (auto simp: eval_nat_numeral socket_gone_def attempt_over_def loop_top_def connect_to_cloud_def set_state_def LIVENESS_SECS_def Let_def
        split: option.splits)
  with loop_dials [OF h assms(2) _ assms(3,4)] show ?thesis by blast
qed

section \<open>Where it goes wrong\<close>

text \<open>
  A device that is taken out of the cloud never comes to rest: without a token the loop falls from
  NotConfigured back to Disconnected at once, so with the gate open it starts an attempt every other
  step, for ever.
\<close>

theorem unregistered_loop_restless:
  assumes "cw_pc w = AtTop" "cl_state m = Disconnected" "c_cloud_token (cm_config (cw_store w)) = None" "\<not> rg_paused (cl_gate m)"
  shows "(loop_step ev ^^ (2 * n)) (m, w) = (m, w) \<and> cw_pc (snd ((loop_step ev ^^ (2 * n + 1)) (m, w))) = Starting"
proof -
  have one: "loop_step ev (m, w) = (set_state Connecting m, w\<lparr>cw_pc := Starting\<rparr>)"
    using assms by (simp add: loop_top_def)
  have "w\<lparr>cw_pc := AtTop\<rparr> = w" "m\<lparr>cl_state := Disconnected\<rparr> = m" using assms by simp_all
  then have "loop_step ev (loop_step ev (m, w)) = (m, w)"
    using assms one by (simp add: connect_to_cloud_def attempt_over_def set_state_def Let_def)
  then have two: "(loop_step ev ^^ (2 * n)) (m, w) = (m, w)" by (induction n) simp_all
  with one show ?thesis by simp
qed

definition demo_cloud_store :: "unit config_manager" where
  "demo_cloud_store = \<lparr>cm_config = demo_config\<lparr>c_cloud_token := Some ''t''\<rparr>, cm_disk = empty_disk\<rparr>"

definition demo_dial :: "unit cloud_action list" where
  "demo_dial = replicate 4 (LoopStep Prepared)"

definition demo_connect :: "unit cloud_action list" where
  "demo_connect = demo_dial @ [LoopStep (DialDone 7), LoopStep Nothing]"

lemmas cloud_eval = cloud_run_def cloud_boot_def cloud_manager_new_def gate_new_def demo_cloud_store_def demo_dial_def demo_connect_def
  loop_top_def connect_to_cloud_def attempt_over_def socket_gone_def cloud_defs demo_config_def config_default_def eval_nat_numeral

theorem unregistered_loop_restless_witness:
  "cw_pc (snd ((loop_step Nothing ^^ 1001) (\<lparr>cl_state = Disconnected, cl_gate = gate_new\<rparr>,
     snd (cloud_boot \<lparr>cm_config = demo_config, cm_disk = empty_disk\<rparr>)))) = Starting"
proof -
  let ?m = "\<lparr>cl_state = Disconnected, cl_gate = gate_new\<rparr>" and ?w = "snd (cloud_boot \<lparr>cm_config = demo_config, cm_disk = empty_disk\<rparr>)"
  have h: "cw_pc ?w = AtTop" "cl_state ?m = Disconnected" "c_cloud_token (cm_config (cw_store ?w)) = None" "\<not> rg_paused (cl_gate ?m)"
    by (simp_all add: cloud_eval)
  from unregistered_loop_restless [OF h, of 500 Nothing] show ?thesis by simp
qed

theorem cloud_state_honest_witness:
  "cl_state (fst (cloud_run demo_codec demo_connect (cloud_boot demo_cloud_store))) = Connected
   \<and> socket_open (cw_pc (snd (cloud_run demo_codec demo_connect (cloud_boot demo_cloud_store))))"
proof -
  let ?s = "cloud_run demo_codec demo_connect (cloud_boot demo_cloud_store)"
  have r: "cw_pc (snd ?s) = Reading 0 ''https://api.arkkvm.com'' 7" by (simp add: cloud_eval)
  have u: "list_all undisturbed demo_connect" by (simp add: demo_connect_def demo_dial_def eval_nat_numeral)
  show ?thesis using cloud_state_honest [of "fst ?s" "snd ?s" demo_codec demo_connect demo_cloud_store] r u
    by simp
qed

theorem no_dial_during_transition_witness:
  "cw_dials (snd (cloud_run demo_codec (EndTransition 0 # demo_dial)
     (snd (begin_network_transition (cloud_boot demo_cloud_store))))) \<le> 0"
proof -
  have b: "begin_network_transition (cloud_boot demo_cloud_store) = (1, snd (begin_network_transition (cloud_boot demo_cloud_store)))"
    by (simp add: cloud_eval)
  have "\<forall>a \<in> set (EndTransition 0 # demo_dial). keeps_closed 1 a"
    by (simp add: keeps_closed_def demo_dial_def)
  from no_dial_during_transition [OF b this, of demo_codec] show ?thesis by (simp add: cloud_boot_def)
qed

theorem cloud_reconnects_witness:
  "cw_pc (snd ((loop_step Prepared ^^ 4) (cloud_run demo_codec [] (cloud_boot demo_cloud_store)))) =
     Dialing 0 ''https://api.arkkvm.com''"
proof -
  let ?s = "cloud_run demo_codec [] (cloud_boot demo_cloud_store)"
  have "cw_pc (snd ?s) = AtTop" "\<not> rg_paused (cl_gate (fst ?s))" "c_cloud_token (cm_config (cw_store (snd ?s))) \<noteq> None"
    "c_cloud_url (cm_config (cw_store (snd ?s))) = ''https://api.arkkvm.com''" "cw_net (snd ?s) = 0"
    by (simp_all add: cloud_eval)
  with cloud_reconnects [of "fst ?s" "snd ?s" demo_codec "[]" demo_cloud_store] show ?thesis by simp
qed

text \<open>
  The gate is looked at once, before the configuration and the versions are read: an attempt that is
  past it dials although a transition has begun in between.
\<close>

theorem dial_after_begin:
  "\<exists>s k s1. s = cloud_run demo_codec (replicate 2 (LoopStep Prepared)) (cloud_boot demo_cloud_store)
     \<and> begin_network_transition s = (k, s1) \<and> cw_dials (snd s) = 0
     \<and> cw_dials (snd (cloud_run demo_codec (replicate 2 (LoopStep Prepared)) s1)) = 1"
  by (simp add: cloud_eval)

text \<open>
  Nor does the gate stop a handshake that is under way: when a transition begins while the loop is
  dialling there is no socket to close, and when the handshake completes after the address has
  changed the manager is Connected through a socket of the old address, with the gate still closed.
\<close>

theorem handshake_outlives_transition:
  "\<exists>m w n u t. (m, w) = cloud_run demo_codec
       (demo_dial @ [BeginTransition, AddressChanged, LoopStep (DialDone 9), LoopStep Nothing]) (cloud_boot demo_cloud_store)
     \<and> rg_paused (cl_gate m) \<and> cl_state m = Connected \<and> cw_pc w = Reading n u t \<and> n < cw_net w"
  by (simp add: cloud_eval)

text \<open>
  Changing the cloud's URL does not end the connection to the old cloud: the handler sets the
  state of a manager of its own, so the device stays Connected to the old URL, whatever the new one.
\<close>

theorem url_change_keeps_socket:
  assumes "cw_pc w = Reading n u t"
  shows "\<exists>w'. rpc_set_cloud_url cd io url api app (m, w) = (fst (rpc_set_cloud_url cd io url api app (m, w)), m, w')
    \<and> cw_pc w' = Reading n u t \<and> cw_close_sent w' = cw_close_sent w"
  using assms
  by (auto simp: rpc_set_cloud_url_def Let_def dest!: set_cloud_url_fields split: prod.splits sum.splits)

theorem url_change_keeps_socket_witness:
  "\<exists>w'. snd (rpc_set_cloud_url demo_codec demo_io (\<lambda>x. Inr (''https'', x, x)) ''https://b'' ''https://b''
      (cloud_run demo_codec demo_connect (cloud_boot demo_cloud_store)))
    = (fst (cloud_run demo_codec demo_connect (cloud_boot demo_cloud_store)), w')
    \<and> cw_pc w' = Reading 0 ''https://api.arkkvm.com'' 7"
proof -
  let ?s = "cloud_run demo_codec demo_connect (cloud_boot demo_cloud_store)"
  have "cw_pc (snd ?s) = Reading 0 ''https://api.arkkvm.com'' 7" by (simp add: cloud_eval)
  from url_change_keeps_socket [OF this, of demo_codec demo_io "\<lambda>x. Inr (''https'', x, x)" "''https://b''" "''https://b''" "fst ?s"]
  show ?thesis by (metis (no_types, lifting) prod.collapse snd_conv)
qed

end
