(* ===== verification/Net_Conf.thy ===== *)
theory Net_Conf
  imports Cloud_Link Net_Adapter Image_Reader
begin

text \<open>
  The settings of the board's own network (\<^verbatim>\<open>config/types.rs\<close>) and the file \<^verbatim>\<open>network.conf\<close> that holds
  them, printed and parsed by \<^verbatim>\<open>network/network_conf.rs\<close>. The file is a list of named blocks of
  assignments; what is parsed from a printed file is what was printed, when no value carries a line
  end or surrounding white space.
\<close>

section \<open>Settings\<close>

datatype ipv4_mode = Dhcp4 | Static4
datatype ipv6_mode = Slaac6 | Static6

record static_ip_config =
  sip_ip_address :: string
  sip_subnet_mask :: string
  sip_gateway :: string
  sip_dns_servers :: "string list"

record vlan_endpoint =
  ve_vlan_id :: u16
  ve_ipv4_mode :: ipv4_mode
  ve_ipv6_mode :: "ipv6_mode option"
  ve_static_ipv4 :: "static_ip_config option"
  ve_static_ipv6 :: "static_ip_config option"

record vlan_settings =
  vs_enabled :: bool
  vs_primary :: "vlan_endpoint option"
  vs_secondary :: "vlan_endpoint option"

definition vlan_settings_default :: vlan_settings where
  "vlan_settings_default = \<lparr>vs_enabled = False, vs_primary = None, vs_secondary = None\<rparr>"

record network_config =
  nc_hostname :: "string option"
  nc_http_proxy :: "string option"
  nc_domain :: "string option"
  nc_ipv4_mode :: ipv4_mode
  nc_static_ipv4 :: "static_ip_config option"
  nc_ipv6_mode :: ipv6_mode
  nc_static_ipv6 :: "static_ip_config option"
  nc_lldp_mode :: string
  nc_lldp_tx_tlvs :: "string list"
  nc_mdns_mode :: string
  nc_time_sync_mode :: string
  nc_time_sync_ordering :: "string list"
  nc_time_sync_disable_fallback :: bool
  nc_time_sync_parallel :: u32
  nc_vlan_settings :: vlan_settings

definition network_config_default :: network_config where
  "network_config_default = \<lparr>nc_hostname = Some ''arkkvm'', nc_http_proxy = None, nc_domain = Some ''dhcp'',
     nc_ipv4_mode = Dhcp4, nc_static_ipv4 = None, nc_ipv6_mode = Slaac6, nc_static_ipv6 = None,
     nc_lldp_mode = ''basic'', nc_lldp_tx_tlvs = [''chassis'', ''port'', ''system'', ''vlan''], nc_mdns_mode = ''auto'',
     nc_time_sync_mode = ''ntp_and_http'', nc_time_sync_ordering = [''ntp'', ''http''],
     nc_time_sync_disable_fallback = False, nc_time_sync_parallel = 4, nc_vlan_settings = vlan_settings_default\<rparr>"

section \<open>Printing\<close>

definition NL :: char where "NL = CHR 0x0A"

definition ini_text :: "string list \<Rightarrow> string" where
  "ini_text ls = concat (map (\<lambda>l. l @ [NL]) ls)"

definition ini_block :: "string \<Rightarrow> (string \<times> string) list \<Rightarrow> string list" where
  "ini_block name kvs = (''['' @ name @ '']'') # map (\<lambda>(k, v). k @ ''='' @ v) kvs @ ['''']"

definition ipv4_mode_str :: "ipv4_mode \<Rightarrow> string" where
  "ipv4_mode_str m = (case m of Dhcp4 \<Rightarrow> ''dhcp'' | Static4 \<Rightarrow> ''static'')"

definition ipv6_mode_str :: "ipv6_mode \<Rightarrow> string" where
  "ipv6_mode_str m = (case m of Slaac6 \<Rightarrow> ''slaac'' | Static6 \<Rightarrow> ''static'')"

fun join_space :: "string list \<Rightarrow> string" where
  "join_space [] = ''''"
| "join_space [x] = x"
| "join_space (x # y # xs) = x @ '' '' @ join_space (y # xs)"

definition vlan_endpoint_fields :: "vlan_endpoint option \<Rightarrow> nat \<Rightarrow> (string \<times> string) list" where
  "vlan_endpoint_fields endpoint default_metric =
     (case endpoint of
        None \<Rightarrow> [(''id'', ''0''), (''ipv4_mode'', ''disabled''), (''ipv4_address'', ''''), (''ipv4_netmask'', ''''), (''ipv4_gateway'', ''''),
                 (''ipv4_dns'', ''''), (''ipv6_mode'', ''disabled'')]
      | Some ep \<Rightarrow>
          [(''id'', nat_to_dec (unat (ve_vlan_id ep))), (''ipv4_mode'', ipv4_mode_str (ve_ipv4_mode ep))]
          @ (case ve_static_ipv4 ep of
               Some s \<Rightarrow> [(''ipv4_address'', sip_ip_address s), (''ipv4_netmask'', sip_subnet_mask s), (''ipv4_gateway'', sip_gateway s),
                         (''ipv4_dns'', join_space (sip_dns_servers s))]
             | None \<Rightarrow> [(''ipv4_address'', ''''), (''ipv4_netmask'', ''''), (''ipv4_gateway'', ''''), (''ipv4_dns'', '''')])
          @ [(''ipv6_mode'', ipv6_mode_str (case ve_ipv6_mode ep of Some m \<Rightarrow> m | None \<Rightarrow> Slaac6))])
     @ [(''ipv6_prefix'', ''''), (''ipv6_gateway'', ''''), (''ipv6_dns'', ''''), (''route_metric'', nat_to_dec default_metric)]"

definition static_ipv4_fields :: "static_ip_config option \<Rightarrow> (string \<times> string) list" where
  "static_ipv4_fields st =
     (case st of
        Some s \<Rightarrow> [(''address'', sip_ip_address s), (''netmask'', sip_subnet_mask s), (''gateway'', sip_gateway s)]
          @ (if sip_dns_servers s \<noteq> [] then [(''dns'', join_space (sip_dns_servers s))] else [])
      | None \<Rightarrow> [(''address'', ''''), (''netmask'', ''''), (''gateway'', ''''), (''dns'', '''')])"

definition static_ipv6_fields :: "static_ip_config option \<Rightarrow> (string \<times> string) list" where
  "static_ipv6_fields st =
     (case st of
        Some s \<Rightarrow> [(''prefix'', sip_ip_address s), (''gateway'', sip_gateway s)]
          @ (if sip_dns_servers s \<noteq> [] then [(''dns'', join_space (sip_dns_servers s))] else [])
      | None \<Rightarrow> [(''prefix'', ''''), (''gateway'', ''''), (''dns'', '''')])"

definition or_else :: "'a option \<Rightarrow> 'a \<Rightarrow> 'a" where
  "or_else x d = (case x of Some v \<Rightarrow> v | None \<Rightarrow> d)"

definition network_blocks :: "network_config \<Rightarrow> string \<Rightarrow> (string \<times> (string \<times> string) list) list" where
  "network_blocks config vlan_apply_mode =
     [(''interface'', [(''name'', ''eth0'')]),
      (''system'', [(''hostname'', or_else (nc_hostname config) ''arkkvm''), (''domain'', or_else (nc_domain config) ''dhcp'')]),
      (''dhcp'', [(''client'', ''udhcpc'')]),
      (''ipv4'', (''mode'', ipv4_mode_str (nc_ipv4_mode config)) # static_ipv4_fields (nc_static_ipv4 config)),
      (''ipv6'', (''mode'', ipv6_mode_str (nc_ipv6_mode config)) # static_ipv6_fields (nc_static_ipv6 config)),
      (''dns'', [(''servers'', '''')]),
      (''vlan'', [(''enabled'', if vs_enabled (nc_vlan_settings config) then ''true'' else ''false''), (''parent'', ''eth0''),
                  (''apply_mode'', vlan_apply_mode)]),
      (''vlan.primary'', vlan_endpoint_fields (vs_primary (nc_vlan_settings config)) 0),
      (''vlan.secondary'', vlan_endpoint_fields (vs_secondary (nc_vlan_settings config)) 200)]"

definition INI_HEADER :: "string list" where
  "INI_HEADER = [''# network.conf '' @ [CHR 0xE2, CHR 0x80, CHR 0x94] @ '' managed by arkkvm_app'', ''# Apply: refresh-network.sh'', '''']"

definition network_config_to_ini :: "network_config \<Rightarrow> string \<Rightarrow> string" where
  "network_config_to_ini config vlan_apply_mode =
     ini_text (INI_HEADER @ concat (map (\<lambda>(n, kvs). ini_block n kvs) (network_blocks config vlan_apply_mode)))"

section \<open>Parsing\<close>

text \<open>The lines of a text: a final line end does not start another line, a carriage return before it belongs to it.\<close>

definition str_lines :: "string \<Rightarrow> string list" where
  "str_lines s =
     (let ls = split_on NL s; ls1 = (if last ls = [] then butlast ls else ls)
      in map (\<lambda>l. if l \<noteq> [] \<and> last l = CHR 0x0D then butlast l else l) ls1)"

definition split_whitespace :: "string \<Rightarrow> string list" where
  "split_whitespace s =
     filter (\<lambda>w. w \<noteq> []) (split_on (CHR '' '') (map (\<lambda>c. if is_ascii_space c then CHR '' '' else c) s))"

type_synonym ini = "(string, (string, string) hmap) hmap"

definition ini_section :: "ini \<Rightarrow> string \<Rightarrow> (string, string) hmap" where
  "ini_section secs name = (case hm_get secs name of Some m \<Rightarrow> m | None \<Rightarrow> [])"

definition ini_line :: "string \<Rightarrow> string \<times> ini \<Rightarrow> string \<times> ini" where
  "ini_line raw = (\<lambda>(current, secs).
     let line = trim raw in
     if line = [] \<or> starts_with line ''#'' then (current, secs)
     else if starts_with line ''['' \<and> last line = CHR '']''
     then let name = trim (butlast (tl line)) in (name, hm_insert name (ini_section secs name) secs)
     else case str_split_once (CHR ''='') line of
            Some (k, v) \<Rightarrow> (current, hm_insert current (hm_insert (trim k) (trim v) (ini_section secs current)) secs)
          | None \<Rightarrow> (current, secs))"

definition parse_ini :: "string \<Rightarrow> ini" where
  "parse_ini content = snd (fold ini_line (str_lines content) (''default'', []))"

definition get_str :: "(string, string) hmap \<Rightarrow> string \<Rightarrow> string option" where
  "get_str sec key = (case hm_get sec key of Some v \<Rightarrow> if v = [] then None else Some v | None \<Rightarrow> None)"

definition get_bool :: "(string, string) hmap \<Rightarrow> string \<Rightarrow> bool \<Rightarrow> bool" where
  "get_bool sec key dflt = (case hm_get sec key of Some v \<Rightarrow> v \<in> {''true'', ''1'', ''yes''} | None \<Rightarrow> dflt)"

definition parse_ipv4_mode :: "string \<Rightarrow> ipv4_mode" where
  "parse_ipv4_mode s = (if s = ''static'' then Static4 else Dhcp4)"

definition parse_ipv6_mode :: "string \<Rightarrow> ipv6_mode" where
  "parse_ipv6_mode s = (if s = ''static'' then Static6 else Slaac6)"

definition get_words :: "(string, string) hmap \<Rightarrow> string \<Rightarrow> string list" where
  "get_words sec key = (case get_str sec key of Some s \<Rightarrow> split_whitespace s | None \<Rightarrow> [])"

definition parse_static_ipv4 :: "(string, string) hmap \<Rightarrow> static_ip_config option" where
  "parse_static_ipv4 sec =
     (case get_str sec ''address'' of
        None \<Rightarrow> None
      | Some ip \<Rightarrow> Some \<lparr>sip_ip_address = ip, sip_subnet_mask = or_else (get_str sec ''netmask'') ''255.255.255.0'',
                       sip_gateway = or_else (get_str sec ''gateway'') '''', sip_dns_servers = get_words sec ''dns''\<rparr>)"

definition parse_vlan_endpoint :: "(string, string) hmap \<Rightarrow> vlan_endpoint option" where
  "parse_vlan_endpoint sec =
     (case Option.bind (hm_get sec ''id'') parse_u16 of
        None \<Rightarrow> None
      | Some n \<Rightarrow>
          if n = 0 then None
          else let ipv4_mode = parse_ipv4_mode (or_else (hm_get sec ''ipv4_mode'') ''dhcp'');
                   ipv6_mode = (case hm_get sec ''ipv6_mode'' of
                                  None \<Rightarrow> None
                                | Some v \<Rightarrow> let m = parse_ipv6_mode v in if m \<noteq> Slaac6 \<or> v \<noteq> ''disabled'' then Some m else None)
          in Some \<lparr>ve_vlan_id = word_of_nat n, ve_ipv4_mode = ipv4_mode,
                   ve_ipv6_mode = Some (or_else ipv6_mode Slaac6),
                   ve_static_ipv4 =
                     (if ipv4_mode = Static4
                      then Some \<lparr>sip_ip_address = or_else (get_str sec ''ipv4_address'') '''',
                                 sip_subnet_mask = or_else (get_str sec ''ipv4_netmask'') ''255.255.255.0'',
                                 sip_gateway = or_else (get_str sec ''ipv4_gateway'') '''', sip_dns_servers = get_words sec ''ipv4_dns''\<rparr>
                      else None),
                   ve_static_ipv6 = None\<rparr>)"

definition ini_to_network_config :: "string \<Rightarrow> network_config" where
  "ini_to_network_config content =
     (let secs = parse_ini content; sys = ini_section secs ''system''; ipv4 = ini_section secs ''ipv4'';
          ipv6 = ini_section secs ''ipv6''; vlan = ini_section secs ''vlan'';
          ipv4_mode = parse_ipv4_mode (or_else (hm_get ipv4 ''mode'') ''dhcp'');
          ipv6_mode = parse_ipv6_mode (or_else (hm_get ipv6 ''mode'') ''slaac'')
      in \<lparr>nc_hostname = get_str sys ''hostname'', nc_http_proxy = None, nc_domain = get_str sys ''domain'',
          nc_ipv4_mode = ipv4_mode, nc_static_ipv4 = (if ipv4_mode = Static4 then parse_static_ipv4 ipv4 else None),
          nc_ipv6_mode = ipv6_mode,
          nc_static_ipv6 =
            (if ipv6_mode = Static6
             then map_option (\<lambda>prefix. \<lparr>sip_ip_address = prefix, sip_subnet_mask = '''',
                    sip_gateway = or_else (get_str ipv6 ''gateway'') '''', sip_dns_servers = get_words ipv6 ''dns''\<rparr>)
                  (get_str ipv6 ''prefix'')
             else None),
          nc_lldp_mode = ''disabled'', nc_lldp_tx_tlvs = [], nc_mdns_mode = ''disabled'', nc_time_sync_mode = ''ntp'',
          nc_time_sync_ordering = [], nc_time_sync_disable_fallback = False, nc_time_sync_parallel = 1,
          nc_vlan_settings = \<lparr>vs_enabled = get_bool vlan ''enabled'' False,
            vs_primary = parse_vlan_endpoint (ini_section secs ''vlan.primary''),
            vs_secondary = parse_vlan_endpoint (ini_section secs ''vlan.secondary'')\<rparr>\<rparr>)"

definition merge_l3_from_file :: "network_config \<Rightarrow> network_config \<Rightarrow> network_config" where
  "merge_l3_from_file base f = base\<lparr>
     nc_hostname := (if nc_hostname f \<noteq> None then nc_hostname f else nc_hostname base),
     nc_domain := (if nc_domain f \<noteq> None then nc_domain f else nc_domain base),
     nc_ipv4_mode := nc_ipv4_mode f, nc_static_ipv4 := nc_static_ipv4 f, nc_ipv6_mode := nc_ipv6_mode f,
     nc_static_ipv6 := nc_static_ipv6 f, nc_vlan_settings := nc_vlan_settings f\<rparr>"

section \<open>What is printed is parsed\<close>

text \<open>A value survives the file when it has no line end and no white space around it.\<close>

definition clean :: "string \<Rightarrow> bool" where
  "clean v = (NL \<notin> set v \<and> trim v = v)"

lemma trim_start_length: "length (trim_start s) \<le> length s"
  by (simp add: trim_start_def length_dropWhile_le)

lemma trim_fixed_start: "trim s = s \<Longrightarrow> trim_start s = s"
proof -
  assume t: "trim s = s"
  have le: "length s \<le> length (dropWhile is_ascii_space s)"
    using trim_start_length [of "rev (trim_start s)"] arg_cong [OF t, of length] by (simp add: trim_def trim_start_def)
  have "length (takeWhile is_ascii_space s @ dropWhile is_ascii_space s) = length s" by (simp only: takeWhile_dropWhile_id)
  then have "length (takeWhile is_ascii_space s) = 0" using le unfolding length_append by linarith
  then show ?thesis using takeWhile_dropWhile_id [of is_ascii_space s] by (simp add: trim_start_def)
qed

lemma clean_ends:
  assumes "trim v = v" "v \<noteq> []"
  shows "\<not> is_ascii_space (hd v)" "\<not> is_ascii_space (last v)"
proof -
  have ts: "trim_start v = v" using assms(1) by (rule trim_fixed_start)
  then show "\<not> is_ascii_space (hd v)" using assms(2) hd_dropWhile [of is_ascii_space v] by (simp add: trim_start_def)
  have "trim_start (rev v) = rev v" using assms(1) ts by (simp add: trim_def rev_swap)
  then show "\<not> is_ascii_space (last v)"
    using assms(2) hd_dropWhile [of is_ascii_space "rev v"] by (simp add: trim_start_def hd_rev)
qed

lemma split_text: "\<forall>l \<in> set ls. d \<notin> set l \<Longrightarrow> split_on d (concat (map (\<lambda>l. l @ [d]) ls)) = ls @ [[]]"
  by (induction ls) (auto simp: split_on_append)

lemma str_lines_text:
  assumes "\<forall>l \<in> set ls. NL \<notin> set l \<and> (l \<noteq> [] \<longrightarrow> last l \<noteq> CHR 0x0D)"
  shows "str_lines (ini_text ls) = ls"
proof -
  have "split_on NL (ini_text ls) = ls @ [[]]" unfolding ini_text_def by (rule split_text) (use assms in auto)
  then show ?thesis using assms by (auto simp: str_lines_def Let_def intro!: map_idI)
qed

definition plain_key :: "string \<Rightarrow> bool" where
  "plain_key k = (k \<noteq> [] \<and> CHR ''='' \<notin> set k \<and> clean k \<and> hd k \<noteq> CHR ''#'' \<and> hd k \<noteq> CHR ''['')"

lemma ini_line_kv:
  assumes "plain_key k" "clean v"
  shows "ini_line (k @ ''='' @ v) (cur, secs) = (cur, hm_insert cur (hm_insert k v (ini_section secs cur)) secs)"
proof -
  have k: "k \<noteq> []" "CHR ''='' \<notin> set k" "trim k = k" "\<not> is_ascii_space (hd k)"
    using assms(1) clean_ends [of k] by (auto simp: plain_key_def clean_def)
  have v: "trim v = v" "v \<noteq> [] \<Longrightarrow> \<not> is_ascii_space (last v)" using assms(2) clean_ends [of v] by (auto simp: clean_def)
  have t: "trim (k @ ''='' @ v) = k @ ''='' @ v"
    by (rule trim_keeps) (use k v in \<open>auto simp: is_ascii_space_def [of "CHR ''=''"]\<close>)
  have s: "str_split_once (CHR ''='') (k @ ''='' @ v) = Some (k, v)" using split_once_append [OF k(2), of v] by simp
  have h: "\<not> starts_with (k @ ''='' @ v) ''#''" "\<not> starts_with (k @ ''='' @ v) ''[''"
    using assms(1) by (cases k; auto simp: plain_key_def starts_with_def)+
  show ?thesis unfolding ini_line_def t Let_def using s h k v by simp
qed

lemma ini_line_head:
  assumes "clean n"
  shows "ini_line (''['' @ n @ '']'') (cur, secs) = (n, hm_insert n (ini_section secs n) secs)"
proof -
  have t: "trim (''['' @ n @ '']'') = ''['' @ n @ '']''"
    by (rule trim_keeps) (simp_all add: is_ascii_space_def)
  show ?thesis unfolding ini_line_def t Let_def using assms by (simp add: starts_with_def clean_def)
qed

lemma ini_line_blank: "ini_line [] st = st"
  by (cases st) (simp add: ini_line_def trim_def trim_start_def)

abbreviation kv_lines :: "(string \<times> string) list \<Rightarrow> string list" where
  "kv_lines kvs \<equiv> map (\<lambda>(k, v). k @ ''='' @ v) kvs"

abbreviation kv_ins :: "(string \<times> string) list \<Rightarrow> (string, string) hmap \<Rightarrow> (string, string) hmap" where
  "kv_ins kvs m \<equiv> fold (\<lambda>(k, v). hm_insert k v) kvs m"

definition plain_kvs :: "(string \<times> string) list \<Rightarrow> bool" where
  "plain_kvs kvs = ((\<forall>(k, v) \<in> set kvs. plain_key k \<and> clean v) \<and> distinct (map fst kvs))"

lemma ini_kv_lines:
  assumes "\<forall>(k, v) \<in> set kvs. plain_key k \<and> clean v" "hm_get secs cur = Some m"
  shows "\<exists>secs'. fold ini_line (kv_lines kvs) (cur, secs) = (cur, secs') \<and> hm_get secs' = (hm_get secs)(cur \<mapsto> kv_ins kvs m)"
  using assms
proof (induction kvs arbitrary: secs m)
  case (Cons kv kvs)
  obtain k v where kv: "kv = (k, v)" by (cases kv)
  have "ini_line (k @ ''='' @ v) (cur, secs) = (cur, hm_insert cur (hm_insert k v m) secs)"
    using ini_line_kv [of k v cur secs] Cons.prems kv by (simp add: ini_section_def)
  with Cons.IH [of "hm_insert cur (hm_insert k v m) secs" "hm_insert k v m"] Cons.prems kv show ?case
    by (auto simp: fun_eq_iff)
qed auto

lemma ini_block_get:
  assumes "clean n" "plain_kvs kvs" "hm_get secs n = None"
  shows "\<exists>secs'. fold ini_line (ini_block n kvs) (cur, secs) = (n, secs') \<and> hm_get secs' = (hm_get secs)(n \<mapsto> kv_ins kvs [])"
proof -
  have h: "ini_line (''['' @ n @ '']'') (cur, secs) = (n, hm_insert n [] secs)"
    using ini_line_head [OF assms(1)] assms(3) by (simp add: ini_section_def)
  obtain secs' where "fold ini_line (kv_lines kvs) (n, hm_insert n [] secs) = (n, secs')"
    "hm_get secs' = (hm_get secs)(n \<mapsto> kv_ins kvs [])"
    using ini_kv_lines [of kvs "hm_insert n [] secs" n "[]"] assms(2) by (auto simp: plain_kvs_def)
  with h show ?thesis unfolding ini_block_def by (simp add: ini_line_blank)
qed

lemma kv_ins_get: "distinct (map fst kvs) \<Longrightarrow> hm_get (kv_ins kvs m) k = (case map_of kvs k of Some v \<Rightarrow> Some v | None \<Rightarrow> hm_get m k)"
proof (induction kvs arbitrary: m)
  case (Cons kv kvs)
  obtain a b where kv: "kv = (a, b)" by (cases kv)
  from Cons.prems kv have "map_of kvs a = None" by (auto simp: map_of_eq_None_iff)
  with Cons kv show ?case by (auto split: option.splits)
qed simp

lemma ini_blocks_get:
  assumes "\<forall>(n, kvs) \<in> set bs. clean n \<and> plain_kvs kvs" "distinct (map fst bs)" "\<forall>n \<in> fst ` set bs. hm_get secs n = None"
  shows "hm_get (snd (fold ini_line (concat (map (\<lambda>(n, kvs). ini_block n kvs) bs)) (cur, secs))) =
    (\<lambda>n. case map_of bs n of Some kvs \<Rightarrow> Some (kv_ins kvs []) | None \<Rightarrow> hm_get secs n)"
  using assms
proof (induction bs arbitrary: cur secs)
  case (Cons b bs)
  obtain n kvs where b: "b = (n, kvs)" by (cases b)
  obtain secs' where s: "fold ini_line (ini_block n kvs) (cur, secs) = (n, secs')" "hm_get secs' = (hm_get secs)(n \<mapsto> kv_ins kvs [])"
    using ini_block_get [of n kvs secs cur] Cons.prems b by auto
  have nn: "n \<notin> fst ` set bs" using Cons.prems(2) b by simp
  then have "map_of bs n = None" by (simp add: map_of_eq_None_iff)
  moreover have "\<forall>k \<in> fst ` set bs. hm_get secs' k = None" using Cons.prems(3) b s(2) nn by auto
  ultimately show ?case using Cons.IH [of secs' n] Cons.prems b s by (auto simp: fun_eq_iff split: option.splits)
qed (simp add: fun_eq_iff)

text \<open>Lists of words: separated by single blanks, none of them empty or with white space in it.\<close>

definition word_ok :: "string \<Rightarrow> bool" where
  "word_ok w = (w \<noteq> [] \<and> (\<forall>c \<in> set w. \<not> is_ascii_space c))"

lemma word_map: "word_ok w \<Longrightarrow> map (\<lambda>c. if is_ascii_space c then CHR '' '' else c) w = w"
  by (auto simp: word_ok_def intro!: map_idI)

lemma word_blank: "word_ok w \<Longrightarrow> CHR '' '' \<notin> set w"
  by (auto simp: word_ok_def is_ascii_space_def)

lemma split_whitespace_word: "word_ok w \<Longrightarrow> split_whitespace w = [w]"
  by (simp add: split_whitespace_def word_map split_on_no_sep word_blank) (simp add: word_ok_def)

lemma split_whitespace_join: "list_all word_ok ws \<Longrightarrow> split_whitespace (join_space ws) = ws"
proof (induction ws rule: join_space.induct)
  case (2 x)
  then show ?case by (simp add: split_whitespace_word)
next
  case (3 x y xs)
  let ?f = "\<lambda>c. if is_ascii_space c then CHR '' '' else c"
  have "map ?f (x @ '' '' @ join_space (y # xs)) = x @ CHR '' '' # map ?f (join_space (y # xs))"
    using 3(2) word_map [of x] by simp
  then have "split_whitespace (x @ '' '' @ join_space (y # xs)) = x # split_whitespace (join_space (y # xs))"
    using 3(2) by (simp add: split_whitespace_def split_on_append word_blank) (simp add: word_ok_def)
  with 3 show ?case by simp
qed (simp add: split_whitespace_def)

lemma join_space_ends:
  "list_all word_ok ws \<Longrightarrow> ws \<noteq> [] \<Longrightarrow> join_space ws \<noteq> [] \<and> \<not> is_ascii_space (hd (join_space ws)) \<and> \<not> is_ascii_space (last (join_space ws))"
  by (induction ws rule: join_space.induct) (auto simp: word_ok_def hd_append)

lemma join_space_NL: "list_all word_ok ws \<Longrightarrow> NL \<notin> set (join_space ws)"
  by (induction ws rule: join_space.induct) (auto simp: word_ok_def is_ascii_space_def NL_def)

lemma clean_empty: "clean []" by (simp add: clean_def trim_def trim_start_def)

lemma clean_join: "list_all word_ok ws \<Longrightarrow> clean (join_space ws)"
  using join_space_ends [of ws] join_space_NL [of ws] trim_keeps [of "join_space ws"] clean_empty
  by (cases "ws = []") (auto simp: clean_def)

lemma clean_dec: "clean (nat_to_dec n)"
proof -
  have d: "\<forall>c \<in> set (nat_to_dec n). is_digit c" using nat_to_dec_digits [of n] by (simp add: list_all_iff)
  then have "\<forall>c \<in> set (nat_to_dec n). \<not> is_ascii_space c" using is_digit_not_space by blast
  then show ?thesis using trim_id [of "nat_to_dec n"] d by (auto simp: clean_def NL_def is_digit_def)
qed

definition static_ok :: "static_ip_config \<Rightarrow> bool" where
  "static_ok s = (clean (sip_ip_address s) \<and> clean (sip_subnet_mask s) \<and> clean (sip_gateway s) \<and> list_all word_ok (sip_dns_servers s))"

definition endpoint_storable :: "vlan_endpoint \<Rightarrow> bool" where
  "endpoint_storable ep = (ve_vlan_id ep \<noteq> 0 \<and> ve_ipv6_mode ep \<noteq> None \<and> ve_static_ipv6 ep = None \<and>
     (ve_static_ipv4 ep \<noteq> None \<longleftrightarrow> ve_ipv4_mode ep = Static4) \<and>
     (\<forall>s. ve_static_ipv4 ep = Some s \<longrightarrow> static_ok s \<and> sip_subnet_mask s \<noteq> []))"

definition vlan_storable :: "vlan_settings \<Rightarrow> bool" where
  "vlan_storable v = (pred_option endpoint_storable (vs_primary v) \<and> pred_option endpoint_storable (vs_secondary v))"

definition storable :: "network_config \<Rightarrow> bool" where
  "storable c = ((\<exists>h. nc_hostname c = Some h \<and> clean h \<and> h \<noteq> []) \<and> (\<exists>d. nc_domain c = Some d \<and> clean d \<and> d \<noteq> []) \<and>
     (nc_static_ipv4 c \<noteq> None \<longleftrightarrow> nc_ipv4_mode c = Static4) \<and>
     (\<forall>s. nc_static_ipv4 c = Some s \<longrightarrow> static_ok s \<and> sip_ip_address s \<noteq> [] \<and> sip_subnet_mask s \<noteq> []) \<and>
     (nc_static_ipv6 c \<noteq> None \<longleftrightarrow> nc_ipv6_mode c = Static6) \<and>
     (\<forall>s. nc_static_ipv6 c = Some s \<longrightarrow> static_ok s \<and> sip_ip_address s \<noteq> [] \<and> sip_subnet_mask s = []) \<and>
     vlan_storable (nc_vlan_settings c))"

lemma clean_lit: "s \<noteq> [] \<Longrightarrow> \<not> is_ascii_space (hd s) \<Longrightarrow> \<not> is_ascii_space (last s) \<Longrightarrow> NL \<notin> set s \<Longrightarrow> clean s"
  by (simp add: clean_def trim_keeps)

lemma plain_lit:
  "s \<noteq> [] \<Longrightarrow> \<not> is_ascii_space (hd s) \<Longrightarrow> \<not> is_ascii_space (last s) \<Longrightarrow> NL \<notin> set s \<Longrightarrow> CHR ''='' \<notin> set s \<Longrightarrow>
   hd s \<noteq> CHR ''#'' \<Longrightarrow> hd s \<noteq> CHR ''['' \<Longrightarrow> plain_key s"
  by (simp add: plain_key_def clean_lit)

lemma ini_names:
  "clean ''interface''" "clean ''system''" "clean ''dhcp''" "clean ''ipv4''" "clean ''ipv6''" "clean ''dns''" "clean ''vlan''"
  "clean ''vlan.primary''" "clean ''vlan.secondary''" "clean ''eth0''" "clean ''arkkvm''" "clean ''udhcpc''" "clean ''true''" "clean ''false''"
  "clean ''0''" "clean ''disabled''" "clean ''static''" "clean ''slaac''" "clean ''dhcp''" "clean ''committed''"
  by (rule clean_lit; simp add: is_ascii_space_def NL_def)+

lemma ini_keys:
  "plain_key ''name''" "plain_key ''hostname''" "plain_key ''domain''" "plain_key ''client''" "plain_key ''mode''" "plain_key ''address''"
  "plain_key ''netmask''" "plain_key ''gateway''" "plain_key ''dns''" "plain_key ''prefix''" "plain_key ''servers''" "plain_key ''enabled''"
  "plain_key ''parent''" "plain_key ''apply_mode''" "plain_key ''id''" "plain_key ''ipv4_mode''" "plain_key ''ipv4_address''"
  "plain_key ''ipv4_netmask''" "plain_key ''ipv4_gateway''" "plain_key ''ipv4_dns''" "plain_key ''ipv6_mode''" "plain_key ''ipv6_prefix''"
  "plain_key ''ipv6_gateway''" "plain_key ''ipv6_dns''" "plain_key ''route_metric''"
  by (rule plain_lit; simp add: is_ascii_space_def NL_def)+

lemma plain_kvs_append: "plain_kvs (a @ b) = (plain_kvs a \<and> plain_kvs b \<and> fst ` set a \<inter> fst ` set b = {})"
  by (auto simp: plain_kvs_def)

lemma plain_kvs_Cons: "plain_kvs ((k, v) # b) = (plain_key k \<and> clean v \<and> k \<notin> fst ` set b \<and> plain_kvs b)"
  by (auto simp: plain_kvs_def)

lemma plain_kvs_Nil: "plain_kvs []" by (simp add: plain_kvs_def)

lemmas plain_rules = plain_kvs_append plain_kvs_Cons plain_kvs_Nil ini_keys ini_names clean_empty clean_dec

lemma clean_modes: "clean (ipv4_mode_str m)" "clean (ipv6_mode_str m')"
  by (cases m; simp add: ipv4_mode_str_def ini_names) (cases m'; simp add: ipv6_mode_str_def ini_names)

lemma plain_endpoint:
  assumes "pred_option endpoint_storable ep"
  shows "plain_kvs (vlan_endpoint_fields ep n)"
proof (cases ep)
  case (Some e)
  show ?thesis
  proof (cases "ve_static_ipv4 e")
    case (Some s)
    with assms \<open>ep = Some e\<close> have "static_ok s" by (auto simp: endpoint_storable_def)
    then show ?thesis using \<open>ep = Some e\<close> Some
      by (simp add: vlan_endpoint_fields_def plain_rules clean_modes static_ok_def clean_join)
  qed (use Some in \<open>simp add: vlan_endpoint_fields_def plain_rules clean_modes\<close>)
qed (simp add: vlan_endpoint_fields_def plain_rules)

lemma plain_statics:
  "pred_option static_ok st \<Longrightarrow> clean m \<Longrightarrow> plain_kvs ((''mode'', m) # static_ipv4_fields st)"
  "pred_option static_ok st \<Longrightarrow> clean m \<Longrightarrow> plain_kvs ((''mode'', m) # static_ipv6_fields st)"
  by (cases st; simp add: static_ipv4_fields_def static_ipv6_fields_def plain_rules static_ok_def clean_join)+

lemma plain_blocks:
  assumes "storable c" "clean mode"
  shows "\<forall>(n, kvs) \<in> set (network_blocks c mode). clean n \<and> plain_kvs kvs"
proof -
  have v: "plain_kvs (vlan_endpoint_fields (vs_primary (nc_vlan_settings c)) 0)"
    "plain_kvs (vlan_endpoint_fields (vs_secondary (nc_vlan_settings c)) 200)"
    using assms(1) by (simp_all add: storable_def vlan_storable_def plain_endpoint)
  have st: "pred_option static_ok (nc_static_ipv4 c)" "pred_option static_ok (nc_static_ipv6 c)"
    using assms(1) by (auto simp: storable_def pred_option_def split: option.splits)
  have sys: "clean (or_else (nc_hostname c) ''arkkvm'')" "clean (or_else (nc_domain c) ''dhcp'')"
    using assms(1) by (auto simp: storable_def or_else_def)
  show ?thesis using v plain_statics(1) [OF st(1) clean_modes(1)] plain_statics(2) [OF st(2) clean_modes(2)] sys assms(2)
    by (simp add: network_blocks_def plain_rules)
qed

lemma distinct_blocks: "distinct (map fst (network_blocks c mode))"
  by (simp add: network_blocks_def)

lemma header_lines: "fold ini_line INI_HEADER (cur, secs) = (cur, secs)"
proof -
  let ?h = "''# network.conf '' @ [CHR 0xE2, CHR 0x80, CHR 0x94] @ '' managed by arkkvm_app''" and ?g = "''# Apply: refresh-network.sh''"
  have "trim ?h = ?h" "trim ?g = ?g" by (rule trim_keeps; simp add: is_ascii_space_def)+
  then have "ini_line ?h st = st" "ini_line ?g st = st" for st
    unfolding ini_line_def by (cases st, simp add: starts_with_def Let_def)+
  then show ?thesis by (simp add: INI_HEADER_def ini_line_blank)
qed

definition line_ok :: "string \<Rightarrow> bool" where
  "line_ok l = (NL \<notin> set l \<and> (l \<noteq> [] \<longrightarrow> last l \<noteq> CHR 0x0D))"

lemma clean_last: "clean v \<Longrightarrow> v \<noteq> [] \<Longrightarrow> last v \<noteq> CHR 0x0D"
  using clean_ends(2) [of v] by (auto simp: clean_def is_ascii_space_def)

lemma kv_line_ok: "plain_key k \<Longrightarrow> clean v \<Longrightarrow> line_ok (k @ ''='' @ v)"
  using clean_last [of v] by (auto simp: line_ok_def plain_key_def clean_def NL_def)

lemma head_line_ok: "clean n \<Longrightarrow> line_ok (''['' @ n @ '']'')"
  by (auto simp: line_ok_def clean_def NL_def)

lemma block_lines:
  assumes "clean n" "plain_kvs kvs"
  shows "\<forall>l \<in> set (ini_block n kvs). line_ok l"
proof
  fix l assume "l \<in> set (ini_block n kvs)"
  then consider "l = ''['' @ n @ '']''" | "l = []" | k v where "(k, v) \<in> set kvs" "l = k @ ''='' @ v"
    unfolding ini_block_def by auto
  then show "line_ok l"
  proof cases
    case 1
    then show ?thesis using head_line_ok [OF assms(1)] by simp
  next
    case 3
    then have "plain_key k" "clean v" using assms(2) by (auto simp: plain_kvs_def)
    with 3 show ?thesis using kv_line_ok by simp
  qed (simp add: line_ok_def)
qed

lemma parse_printed:
  assumes "storable c" "clean mode"
  shows "hm_get (parse_ini (network_config_to_ini c mode)) n = map_option (\<lambda>kvs. kv_ins kvs []) (map_of (network_blocks c mode) n)"
proof -
  let ?ls = "INI_HEADER @ concat (map (\<lambda>(n, kvs). ini_block n kvs) (network_blocks c mode))"
  have "\<forall>l \<in> set INI_HEADER. line_ok l" by (simp add: INI_HEADER_def line_ok_def NL_def)
  moreover have "\<forall>l \<in> set (concat (map (\<lambda>(n, kvs). ini_block n kvs) (network_blocks c mode))). line_ok l"
    using plain_blocks [OF assms] block_lines by fastforce
  ultimately have "str_lines (ini_text ?ls) = ?ls" by (intro str_lines_text) (auto simp: line_ok_def)
  then have "parse_ini (network_config_to_ini c mode) =
      snd (fold ini_line (concat (map (\<lambda>(n, kvs). ini_block n kvs) (network_blocks c mode))) (''default'', []))"
    unfolding parse_ini_def network_config_to_ini_def by (simp add: header_lines)
  with ini_blocks_get [OF plain_blocks [OF assms] distinct_blocks, of "[]" "''default''"] show ?thesis
    by (simp split: option.splits)
qed

lemma section_printed:
  assumes "storable c" "clean mode" "map_of (network_blocks c mode) n = Some kvs"
  shows "hm_get (ini_section (parse_ini (network_config_to_ini c mode)) n) k = map_of kvs k"
proof -
  have "(n, kvs) \<in> set (network_blocks c mode)" using assms(3) by (rule map_of_SomeD)
  then have "distinct (map fst kvs)" using plain_blocks [OF assms(1,2)] by (auto simp: plain_kvs_def)
  from kv_ins_get [OF this, of "[]" k] parse_printed [OF assms(1,2), of n] assms(3)
  show ?thesis by (simp add: ini_section_def split: option.splits)
qed

lemma get_words_join: "hm_get sec k = Some (join_space ws) \<Longrightarrow> list_all word_ok ws \<Longrightarrow> get_words sec k = ws"
proof -
  assume h: "hm_get sec k = Some (join_space ws)" "list_all word_ok ws"
  show ?thesis
  proof (cases "ws = []")
    case False
    then have "join_space ws \<noteq> []" using join_space_ends [OF h(2)] by simp
    with h show ?thesis by (simp add: get_words_def get_str_def split_whitespace_join)
  qed (use h in \<open>simp add: get_words_def get_str_def\<close>)
qed

lemma or_else_get_str: "hm_get sec k = Some v \<Longrightarrow> or_else (get_str sec k) [] = v"
  by (simp add: get_str_def or_else_def)

lemma parse_u16_id: "parse_u16 (nat_to_dec (unat (x :: u16))) = Some (unat x)"
proof -
  have "unat x < 65536" using unsigned_less [of x] by simp
  then show ?thesis by (simp add: parse_u16_def parse_radix_dec)
qed

lemma endpoint_parsed:
  assumes g: "\<And>k. hm_get sec k = map_of (vlan_endpoint_fields ep n) k" and st: "pred_option endpoint_storable ep"
  shows "parse_vlan_endpoint sec = ep"
proof (cases ep)
  case None
  have "parse_u16 ''0'' = Some 0" by (simp add: parse_u16_def parse_radix_def radix_digit_def hex_digit_def)
  with g [of "''id''"] None show ?thesis by (simp add: parse_vlan_endpoint_def vlan_endpoint_fields_def)
next
  case (Some e)
  have i: "hm_get sec ''id'' = Some (nat_to_dec (unat (ve_vlan_id e)))" "hm_get sec ''ipv4_mode'' = Some (ipv4_mode_str (ve_ipv4_mode e))"
    using g [of "''id''"] g [of "''ipv4_mode''"] Some by (simp_all add: vlan_endpoint_fields_def)
  obtain m where m: "ve_ipv6_mode e = Some m" using st Some by (auto simp: endpoint_storable_def)
  then have i6: "hm_get sec ''ipv6_mode'' = Some (ipv6_mode_str m)"
    using g [of "''ipv6_mode''"] Some by (simp add: vlan_endpoint_fields_def split: option.splits)
  have nz: "unat (ve_vlan_id e) \<noteq> 0" using st Some by (auto simp: endpoint_storable_def unat_eq_0)
  have m6: "parse_ipv6_mode (ipv6_mode_str m) = m" "ipv6_mode_str m \<noteq> ''disabled''"
    by (cases m; simp add: parse_ipv6_mode_def ipv6_mode_str_def)+
  have m4: "parse_ipv4_mode (ipv4_mode_str x) = x" for x by (cases x) (simp_all add: parse_ipv4_mode_def ipv4_mode_str_def)
  have s6: "ve_static_ipv6 e = None" using st Some by (simp add: endpoint_storable_def)
  show ?thesis
  proof (cases "ve_static_ipv4 e")
    case None
    then have "ve_ipv4_mode e = Dhcp4" using st Some by (cases "ve_ipv4_mode e") (auto simp: endpoint_storable_def)
    with None i i6 m m6 m4 nz s6 Some show ?thesis
      by (simp add: parse_vlan_endpoint_def parse_u16_id or_else_def Let_def ipv4_mode_str_def parse_ipv4_mode_def)
  next
    case (Some s)
    then have md: "ve_ipv4_mode e = Static4" and ok: "static_ok s" "sip_subnet_mask s \<noteq> []"
      using st \<open>ep = Some e\<close> by (auto simp: endpoint_storable_def)
    have f: "hm_get sec ''ipv4_address'' = Some (sip_ip_address s)" "hm_get sec ''ipv4_netmask'' = Some (sip_subnet_mask s)"
      "hm_get sec ''ipv4_gateway'' = Some (sip_gateway s)" "hm_get sec ''ipv4_dns'' = Some (join_space (sip_dns_servers s))"
      using g [of "''ipv4_address''"] g [of "''ipv4_netmask''"] g [of "''ipv4_gateway''"] g [of "''ipv4_dns''"] Some \<open>ep = Some e\<close>
      by (simp_all add: vlan_endpoint_fields_def)
    have w: "get_words sec ''ipv4_dns'' = sip_dns_servers s" using f(4) ok(1) by (intro get_words_join) (simp_all add: static_ok_def)
    have mask: "or_else (get_str sec ''ipv4_netmask'') ''255.255.255.0'' = sip_subnet_mask s"
      using f(2) ok(2) by (simp add: get_str_def or_else_def)
    show ?thesis using i i6 m m6 m4 nz s6 Some md w mask or_else_get_str [OF f(1)] or_else_get_str [OF f(3)] \<open>ep = Some e\<close>
      by (simp add: parse_vlan_endpoint_def parse_u16_id or_else_def [of "Some _"] Let_def)
  qed
qed

lemma static4_parsed:
  assumes g: "\<And>k. hm_get sec k = map_of ((''mode'', m) # static_ipv4_fields (Some s)) k" "static_ok s" "sip_ip_address s \<noteq> []" "sip_subnet_mask s \<noteq> []"
  shows "parse_static_ipv4 sec = Some s"
proof -
  have f: "hm_get sec ''address'' = Some (sip_ip_address s)" "hm_get sec ''netmask'' = Some (sip_subnet_mask s)"
    "hm_get sec ''gateway'' = Some (sip_gateway s)"
    using g(1) by (simp_all add: static_ipv4_fields_def)
  have w: "get_words sec ''dns'' = sip_dns_servers s"
  proof (cases "sip_dns_servers s = []")
    case True
    then have "hm_get sec ''dns'' = None" using g(1) by (simp add: static_ipv4_fields_def)
    with True show ?thesis by (simp add: get_words_def get_str_def)
  next
    case False
    then have "hm_get sec ''dns'' = Some (join_space (sip_dns_servers s))" using g(1) by (simp add: static_ipv4_fields_def)
    then show ?thesis using g(2) by (intro get_words_join) (simp_all add: static_ok_def)
  qed
  show ?thesis using f w g(3,4) or_else_get_str [OF f(3)]
    by (simp add: parse_static_ipv4_def get_str_def [of sec "''address''"] get_str_def [of sec "''netmask''"] or_else_def [of "Some _"])
qed

lemma static6_parsed:
  assumes g: "\<And>k. hm_get sec k = map_of ((''mode'', m) # static_ipv6_fields (Some s)) k" "static_ok s" "sip_ip_address s \<noteq> []" "sip_subnet_mask s = []"
  shows "map_option (\<lambda>prefix. \<lparr>sip_ip_address = prefix, sip_subnet_mask = [], sip_gateway = or_else (get_str sec ''gateway'') [],
           sip_dns_servers = get_words sec ''dns''\<rparr>) (get_str sec ''prefix'') = Some s"
proof -
  have f: "hm_get sec ''prefix'' = Some (sip_ip_address s)" "hm_get sec ''gateway'' = Some (sip_gateway s)"
    using g(1) by (simp_all add: static_ipv6_fields_def)
  have w: "get_words sec ''dns'' = sip_dns_servers s"
  proof (cases "sip_dns_servers s = []")
    case True
    then have "hm_get sec ''dns'' = None" using g(1) by (simp add: static_ipv6_fields_def)
    with True show ?thesis by (simp add: get_words_def get_str_def)
  next
    case False
    then have "hm_get sec ''dns'' = Some (join_space (sip_dns_servers s))" using g(1) by (simp add: static_ipv6_fields_def)
    then show ?thesis using g(2) by (intro get_words_join) (simp_all add: static_ok_def)
  qed
  show ?thesis using f w g(3,4) or_else_get_str [OF f(2)] by (simp add: get_str_def [of sec "''prefix''"])
qed

text \<open>A configuration whose layer-3 settings are those of another one.\<close>

definition with_l3_of :: "network_config \<Rightarrow> network_config \<Rightarrow> network_config" where
  "with_l3_of b c = b\<lparr>nc_hostname := nc_hostname c, nc_domain := nc_domain c, nc_ipv4_mode := nc_ipv4_mode c,
     nc_static_ipv4 := nc_static_ipv4 c, nc_ipv6_mode := nc_ipv6_mode c, nc_static_ipv6 := nc_static_ipv6 c,
     nc_vlan_settings := nc_vlan_settings c\<rparr>"

lemma conf_merges_over:
  assumes "storable c" "clean mode"
  shows "merge_l3_from_file b (ini_to_network_config (network_config_to_ini c mode)) = with_l3_of b c"
proof -
  let ?S = "ini_section (parse_ini (network_config_to_ini c mode))"
  note sp = section_printed [OF assms]
  have sys: "get_str (?S ''system'') ''hostname'' = nc_hostname c" "get_str (?S ''system'') ''domain'' = nc_domain c"
    using assms(1) sp [of "''system''"] by (auto simp: storable_def network_blocks_def get_str_def or_else_def)
  have s4: "hm_get (?S ''ipv4'') k = map_of ((''mode'', ipv4_mode_str (nc_ipv4_mode c)) # static_ipv4_fields (nc_static_ipv4 c)) k" for k
    by (rule sp) (simp add: network_blocks_def)
  have s6: "hm_get (?S ''ipv6'') k = map_of ((''mode'', ipv6_mode_str (nc_ipv6_mode c)) # static_ipv6_fields (nc_static_ipv6 c)) k" for k
    by (rule sp) (simp add: network_blocks_def)
  have m4: "parse_ipv4_mode (or_else (hm_get (?S ''ipv4'') ''mode'') ''dhcp'') = nc_ipv4_mode c"
    using s4 [of "''mode''"] by (cases "nc_ipv4_mode c") (simp_all add: or_else_def parse_ipv4_mode_def ipv4_mode_str_def)
  have m6: "parse_ipv6_mode (or_else (hm_get (?S ''ipv6'') ''mode'') ''slaac'') = nc_ipv6_mode c"
    using s6 [of "''mode''"] by (cases "nc_ipv6_mode c") (simp_all add: or_else_def parse_ipv6_mode_def ipv6_mode_str_def)
  have st4: "(if nc_ipv4_mode c = Static4 then parse_static_ipv4 (?S ''ipv4'') else None) = nc_static_ipv4 c"
  proof (cases "nc_static_ipv4 c")
    case (Some s)
    then have "parse_static_ipv4 (?S ''ipv4'') = Some s"
      using assms(1) s4 by (intro static4_parsed) (auto simp: storable_def)
    with Some assms(1) show ?thesis by (auto simp: storable_def)
  qed (use assms(1) in \<open>auto simp: storable_def\<close>)
  have st6: "(if nc_ipv6_mode c = Static6 then map_option (\<lambda>prefix. \<lparr>sip_ip_address = prefix, sip_subnet_mask = [],
        sip_gateway = or_else (get_str (?S ''ipv6'') ''gateway'') [], sip_dns_servers = get_words (?S ''ipv6'') ''dns''\<rparr>)
      (get_str (?S ''ipv6'') ''prefix'') else None) = nc_static_ipv6 c"
  proof (cases "nc_static_ipv6 c")
    case (Some s)
    then have "nc_ipv6_mode c = Static6" "static_ok s" "sip_ip_address s \<noteq> []" "sip_subnet_mask s = []"
      using assms(1) by (auto simp: storable_def)
    with Some s6 static6_parsed [of "?S ''ipv6''" "ipv6_mode_str (nc_ipv6_mode c)" s] show ?thesis by simp
  qed (use assms(1) in \<open>auto simp: storable_def\<close>)
  have ve: "get_bool (?S ''vlan'') ''enabled'' False = vs_enabled (nc_vlan_settings c)"
    using sp [of "''vlan''" _ "''enabled''"] by (simp add: network_blocks_def get_bool_def)
  have vp: "parse_vlan_endpoint (?S ''vlan.primary'') = vs_primary (nc_vlan_settings c)"
    by (rule endpoint_parsed [where n = 0]) (use assms(1) in \<open>simp_all add: sp network_blocks_def storable_def vlan_storable_def\<close>)
  have vs: "parse_vlan_endpoint (?S ''vlan.secondary'') = vs_secondary (nc_vlan_settings c)"
    by (rule endpoint_parsed [where n = 200]) (use assms(1) in \<open>simp_all add: sp network_blocks_def storable_def vlan_storable_def\<close>)
  have nn: "nc_hostname c \<noteq> None" "nc_domain c \<noteq> None" using assms(1) by (auto simp: storable_def)
  show ?thesis unfolding merge_l3_from_file_def ini_to_network_config_def Let_def m4 m6
    by (simp add: sys st4 st6 ve vp vs nn with_l3_of_def)
qed

lemma conf_merges_back:
  "storable c \<Longrightarrow> clean mode \<Longrightarrow> merge_l3_from_file c (ini_to_network_config (network_config_to_ini c mode)) = c"
  by (simp add: conf_merges_over with_l3_of_def)

text \<open>
  C25: Settings survive their file: the \<^verbatim>\<open>network.conf\<close> printed for a configuration, parsed and merged
  over any other configuration, gives that one the host name and domain, the IPv4, IPv6 and VLAN
  settings of the first and leaves the rest of it alone. Provided the settings are of the kind the
  file can hold: a host name and a domain are set, no value has a line end or white space around it
  and no DNS server white space in it, an interface has a static address, with a netmask for IPv4 and
  none for IPv6, exactly in static mode, and every VLAN has an id, an IPv6 mode and no static IPv6
  address, which is never written.
\<close>

theorem network_conf_roundtrip:
  assumes "storable c" "clean mode"
  shows "merge_l3_from_file b (ini_to_network_config (network_config_to_ini c mode)) =
    b\<lparr>nc_hostname := nc_hostname c, nc_domain := nc_domain c, nc_ipv4_mode := nc_ipv4_mode c,
      nc_static_ipv4 := nc_static_ipv4 c, nc_ipv6_mode := nc_ipv6_mode c, nc_static_ipv6 := nc_static_ipv6 c,
      nc_vlan_settings := nc_vlan_settings c\<rparr>"
  using conf_merges_over [OF assms] by (simp add: with_l3_of_def)

definition demo_static :: static_ip_config where
  "demo_static = \<lparr>sip_ip_address = ''10.0.0.2'', sip_subnet_mask = ''255.0.0.0'', sip_gateway = ''10.0.0.1'',
     sip_dns_servers = [''1.1.1.1'', ''8.8.8.8'']\<rparr>"

definition demo_vlan :: vlan_settings where
  "demo_vlan = \<lparr>vs_enabled = True,
     vs_primary = Some \<lparr>ve_vlan_id = 7, ve_ipv4_mode = Static4, ve_ipv6_mode = Some Slaac6, ve_static_ipv4 = Some demo_static, ve_static_ipv6 = None\<rparr>,
     vs_secondary = None\<rparr>"

lemma demo_static_ok: "static_ok demo_static"
proof -
  have "clean ''10.0.0.2''" "clean ''255.0.0.0''" "clean ''10.0.0.1''"
    by (rule clean_lit; simp add: is_ascii_space_def NL_def)+
  then show ?thesis by (simp add: static_ok_def demo_static_def word_ok_def is_ascii_space_def)
qed

lemma demo_vlan_storable: "vlan_storable demo_vlan"
  using demo_static_ok by (simp add: vlan_storable_def demo_vlan_def endpoint_storable_def demo_static_def)

lemma demo_network_storable:
  "storable (network_config_default\<lparr>nc_ipv4_mode := Static4, nc_static_ipv4 := Some demo_static, nc_vlan_settings := demo_vlan\<rparr>)"
  "storable (network_config_default\<lparr>nc_vlan_settings := demo_vlan\<rparr>)"
  "storable network_config_default"
  using demo_static_ok demo_vlan_storable
  by (simp_all add: storable_def network_config_default_def ini_names demo_static_def vlan_storable_def vlan_settings_default_def)

theorem network_conf_roundtrip_witness:
  "let c = network_config_default\<lparr>nc_ipv4_mode := Static4, nc_static_ipv4 := Some demo_static, nc_vlan_settings := demo_vlan\<rparr>;
       b = network_config_default\<lparr>nc_hostname := Some ''other'', nc_mdns_mode := ''off''\<rparr>
   in merge_l3_from_file b (ini_to_network_config (network_config_to_ini c ''committed'')) = c\<lparr>nc_mdns_mode := ''off''\<rparr>"
  using network_conf_roundtrip [OF demo_network_storable(1) ini_names(20), of "network_config_default\<lparr>nc_hostname := Some ''other'', nc_mdns_mode := ''off''\<rparr>"]
  by (simp add: Let_def network_config_default_def)

end
