(* ===== verification/Image_Upload.thy ===== *)
theory Image_Upload
  imports Kvm_Prelude
begin

text \<open>
  Uploading an image to the device: file names, the sessions of \<^verbatim>\<open>hardware/usb/storage.rs\<close> (start or
  resume, append, complete, cancel), the data channel that feeds a session (\<^verbatim>\<open>data_channel.rs\<close>) and
  the HTTP endpoint that does (\<^verbatim>\<open>web.rs\<close>). A directory entry names a file by a number, so that an
  open handle keeps its file when the entry is renamed or removed. An operation of a session holds
  the session lock throughout and is one step. What an input or output operation does is the
  environment's choice (\<open>up_env\<close>): it may fail at every point, and bytes given to a file may stay in the
  handle's buffer until it is flushed.
\<close>

section \<open>File names\<close>

definition IMAGES_FOLDER :: string where "IMAGES_FOLDER = ''/userdata/arkkvm/images''"

definition path_components :: "string \<Rightarrow> string list" where
  "path_components p = filter (\<lambda>c. c \<noteq> [] \<and> c \<noteq> ''.'') (split_on (CHR ''/'') p)"

definition sanitize_filename :: "string \<Rightarrow> (string, string) result" where
  "sanitize_filename filename =
     (if starts_with filename ''/'' then Inl ''invalid filename''
      else if ''..'' \<in> set (path_components filename) then Inl ''invalid filename''
      else if path_components filename = [] then Inl ''invalid filename''
      else Inr (last (path_components filename)))"

definition images_path :: "string \<Rightarrow> string" where
  "images_path name = IMAGES_FOLDER @ ''/'' @ name"

section \<open>Sessions and files\<close>

type_synonym file_handle = "nat \<times> u8 list"

record pending_upload =
  pu_file :: "file_handle option"
  pu_size :: int
  pu_already :: int
  pu_upload_path :: string
  pu_final_path :: string
  pu_channel_open :: bool

record 'w up_state =
  up_pending :: "(string, pending_upload) hmap"
  up_closed :: "(string, pending_upload) hmap"
  up_names :: "(string, nat) hmap"
  up_data :: "(nat, u8 list) hmap"
  up_next :: nat
  up_w :: 'w

datatype io_op = CreateDir string | Stat string | OpenAppend string | RemoveFile string | RenameFile string string | SyncData nat

record 'w up_env =
  ue_io :: "io_op \<Rightarrow> 'w \<Rightarrow> string option \<times> 'w"
  ue_write :: "nat \<Rightarrow> 'w \<Rightarrow> (nat \<times> string option) \<times> 'w"
  ue_uuid :: "'w \<Rightarrow> string \<times> 'w"

definition io_try :: "'w up_env \<Rightarrow> io_op \<Rightarrow> 'w up_state \<Rightarrow> string option \<times> 'w up_state" where
  "io_try e p s = (case ue_io e p (up_w s) of (r, w) \<Rightarrow> (r, s\<lparr>up_w := w\<rparr>))"

definition file_exists :: "string \<Rightarrow> 'w up_state \<Rightarrow> bool" where
  "file_exists p s = (hm_get (up_names s) p \<noteq> None)"

definition inode_data :: "nat \<Rightarrow> 'w up_state \<Rightarrow> u8 list" where
  "inode_data i s = (case hm_get (up_data s) i of Some d \<Rightarrow> d | None \<Rightarrow> [])"

definition file_data :: "string \<Rightarrow> 'w up_state \<Rightarrow> u8 list" where
  "file_data p s = (case hm_get (up_names s) p of Some i \<Rightarrow> inode_data i s | None \<Rightarrow> [])"

definition append_inode :: "nat \<Rightarrow> u8 list \<Rightarrow> 'w up_state \<Rightarrow> 'w up_state" where
  "append_inode i bs s = s\<lparr>up_data := hm_insert i (inode_data i s @ bs) (up_data s)\<rparr>"

text \<open>The length on disk, as \<^verbatim>\<open>metadata\<close> gives it; no file has length zero.\<close>

definition disk_size :: "'w up_env \<Rightarrow> string \<Rightarrow> 'w up_state \<Rightarrow> (string, int) result \<times> 'w up_state" where
  "disk_size e p s =
     (if file_exists p s
      then case io_try e (Stat p) s of
             (Some err, s1) \<Rightarrow> (Inl err, s1)
           | (None, s1) \<Rightarrow> (Inr (int (length (file_data p s1))), s1)
      else (Inr 0, s))"

text \<open>Open for appending, creating the file if \<open>create\<close> is set and it is missing.\<close>

definition open_append :: "'w up_env \<Rightarrow> bool \<Rightarrow> string \<Rightarrow> 'w up_state \<Rightarrow> (string, file_handle) result \<times> 'w up_state" where
  "open_append e create p s =
     (case io_try e (OpenAppend p) s of
        (Some err, s1) \<Rightarrow> (Inl err, s1)
      | (None, s1) \<Rightarrow>
          (case hm_get (up_names s1) p of
             Some i \<Rightarrow> (Inr (i, []), s1)
           | None \<Rightarrow>
               if create
               then (Inr (up_next s1, []),
                     s1\<lparr>up_names := hm_insert p (up_next s1) (up_names s1), up_data := hm_insert (up_next s1) [] (up_data s1),
                        up_next := up_next s1 + 1\<rparr>)
               else (Inl ''No such file or directory'', s1)))"

text \<open>
  Give bytes to a handle: the environment says how many of the buffered ones have reached the file
  when the call returns, and whether it reports an error, after which the rest is lost.
\<close>

definition write_all :: "'w up_env \<Rightarrow> file_handle \<Rightarrow> u8 list \<Rightarrow> 'w up_state \<Rightarrow> string option \<times> file_handle \<times> 'w up_state" where
  "write_all e h bs s =
     (let buffered = snd h @ bs in
      case ue_write e (length buffered) (up_w s) of
        ((k, err), w) \<Rightarrow>
          (err, (fst h, if err = None then drop k buffered else []), append_inode (fst h) (take k buffered) (s\<lparr>up_w := w\<rparr>)))"

definition flush_file :: "'w up_env \<Rightarrow> file_handle \<Rightarrow> 'w up_state \<Rightarrow> string option \<times> file_handle \<times> 'w up_state" where
  "flush_file e h s =
     (case ue_write e (length (snd h)) (up_w s) of
        ((k, None), w) \<Rightarrow> (None, (fst h, []), append_inode (fst h) (snd h) (s\<lparr>up_w := w\<rparr>))
      | ((k, Some err), w) \<Rightarrow> (Some err, (fst h, []), append_inode (fst h) (take k (snd h)) (s\<lparr>up_w := w\<rparr>)))"

definition put_pending :: "string \<Rightarrow> pending_upload \<Rightarrow> 'w up_state \<Rightarrow> 'w up_state" where
  "put_pending uid u s = s\<lparr>up_pending := hm_insert uid u (up_pending s)\<rparr>"

section \<open>Starting and resuming\<close>

definition new_upload_id :: "'w up_env \<Rightarrow> 'w up_state \<Rightarrow> string \<times> 'w up_state" where
  "new_upload_id e s = (case ue_uuid e (up_w s) of (u, w) \<Rightarrow> (''upload_'' @ u, s\<lparr>up_w := w\<rparr>))"

definition start_fresh ::
  "'w up_env \<Rightarrow> string \<Rightarrow> string \<Rightarrow> int \<Rightarrow> 'w up_state \<Rightarrow> (string, int \<times> string) result \<times> 'w up_state" where
  "start_fresh e upload_path final_path size' s =
     (case open_append e True upload_path s of
        (Inl err, s1) \<Rightarrow> (Inl (''failed to open file for upload: '' @ upload_path @ '': '' @ err), s1)
      | (Inr h, s1) \<Rightarrow>
          (case new_upload_id e s1 of (uid, s2) \<Rightarrow>
             (Inr (0, uid),
              put_pending uid \<lparr>pu_file = Some h, pu_size = size', pu_already = 0, pu_upload_path = upload_path,
                pu_final_path = final_path, pu_channel_open = False\<rparr> s2)))"

definition start_resume ::
  "'w up_env \<Rightarrow> string \<Rightarrow> string \<Rightarrow> int \<Rightarrow> int \<Rightarrow> 'w up_state \<Rightarrow> (string, int \<times> string) result \<times> 'w up_state" where
  "start_resume e upload_path final_path size' disk s =
     (let matched = find (\<lambda>(uid, u). pu_final_path u = final_path \<and> pu_upload_path u = upload_path \<and> pu_size u = size') (up_closed s);
          (uid, s1) = (case matched of Some (uid, _) \<Rightarrow> (uid, s) | None \<Rightarrow> new_upload_id e s);
          (entry, s2) =
            (case hm_get (up_closed s1) uid of
               Some u \<Rightarrow> (u\<lparr>pu_channel_open := False, pu_size := size'\<rparr>, s1\<lparr>up_closed := hm_remove uid (up_closed s1)\<rparr>)
             | None \<Rightarrow> (\<lparr>pu_file = None, pu_size = size', pu_already = disk, pu_upload_path = upload_path,
                          pu_final_path = final_path, pu_channel_open = False\<rparr>,
                        s1\<lparr>up_closed := hm_retain (\<lambda>k u. pu_upload_path u \<noteq> upload_path) (up_closed s1)\<rparr>));
          entry1 = entry\<lparr>pu_already := disk\<rparr>
      in case open_append e False upload_path s2 of
           (Inl err, s3) \<Rightarrow>
             (Inl (''failed to reopen partial upload: '' @ upload_path @ '': '' @ err),
              if matched \<noteq> None then s3\<lparr>up_closed := hm_insert uid entry1 (up_closed s3)\<rparr> else s3)
         | (Inr h, s3) \<Rightarrow> (Inr (disk, uid), put_pending uid (entry1\<lparr>pu_file := Some h\<rparr>) s3))"

definition discard_overshot :: "'w up_env \<Rightarrow> string \<Rightarrow> 'w up_state \<Rightarrow> (string, unit) result \<times> 'w up_state" where
  "discard_overshot e upload_path s =
     (if \<exists>u \<in> set (map snd (up_pending s)). pu_upload_path u = upload_path \<and> pu_channel_open u
      then (Inl ''upload already in progress'', s)
      else let s1 = s\<lparr>up_pending := hm_retain (\<lambda>k u. \<not> (pu_upload_path u = upload_path \<and> \<not> pu_channel_open u)) (up_pending s),
                      up_closed := hm_retain (\<lambda>k u. pu_upload_path u \<noteq> upload_path) (up_closed s)\<rparr>
      in case io_try e (RemoveFile upload_path) s1 of
           (Some err, s2) \<Rightarrow> (Inl (''failed to remove overshot upload: '' @ upload_path @ '': '' @ err), s2)
         | (None, s2) \<Rightarrow> (Inr (), s2\<lparr>up_names := hm_remove upload_path (up_names s2)\<rparr>))"

definition start_storage_file_upload ::
  "'w up_env \<Rightarrow> string \<Rightarrow> int \<Rightarrow> 'w up_state \<Rightarrow> (string, int \<times> string) result \<times> 'w up_state" where
  "start_storage_file_upload e filename size' s =
     (case sanitize_filename filename of
        Inl err \<Rightarrow> (Inl err, s)
      | Inr name \<Rightarrow>
      (case io_try e (CreateDir IMAGES_FOLDER) s of
        (Some err, s1) \<Rightarrow> (Inl (''failed to create images folder: '' @ err), s1)
      | (None, s1) \<Rightarrow>
          let final_path = images_path name; upload_path = images_path (name @ ''.incomplete'') in
          if file_exists final_path s1 then (Inl (''file already exists: '' @ name), s1)
          else (case disk_size e upload_path s1 of
            (Inl err, s2) \<Rightarrow> (Inl err, s2)
          | (Inr disk, s2) \<Rightarrow>
              (case find (\<lambda>(uid, u). pu_upload_path u = upload_path \<and> pu_size u = size') (up_pending s2) of
                 Some (uid, u) \<Rightarrow>
                   if pu_channel_open u then (Inl ''upload already in progress'', s2)
                   else if disk > size' then (Inl ''incomplete upload larger than expected size'', s2)
                   else (Inr (disk, uid), put_pending uid (u\<lparr>pu_already := disk\<rparr>) s2)
               | None \<Rightarrow>
                   if file_exists upload_path s2
                   then if disk > size'
                        then (case discard_overshot e upload_path s2 of
                                (Inl err, s3) \<Rightarrow> (Inl err, s3)
                              | (Inr _, s3) \<Rightarrow> start_fresh e upload_path final_path size' s3)
                        else start_resume e upload_path final_path size' disk s2
                   else start_fresh e upload_path final_path size' s2))))"

definition claim_upload_channel :: "string \<Rightarrow> 'w up_state \<Rightarrow> (string, unit) result \<times> 'w up_state" where
  "claim_upload_channel uid s =
     (case hm_get (up_pending s) uid of
        None \<Rightarrow> (Inl ''upload not found'', s)
      | Some u \<Rightarrow>
          if pu_channel_open u then (Inl ''upload already in progress'', s)
          else (Inr (), put_pending uid (u\<lparr>pu_channel_open := True\<rparr>) s))"

section \<open>Appending and completing\<close>

definition bytes_within_size :: "int \<Rightarrow> int \<Rightarrow> u8 list \<Rightarrow> u8 list" where
  "bytes_within_size already size' data =
     (if already \<ge> size' then []
      else let room = size' - already in if room \<ge> int (length data) then data else take (nat room) data)"

definition append_upload_data ::
  "'w up_env \<Rightarrow> string \<Rightarrow> u8 list \<Rightarrow> 'w up_state \<Rightarrow> (string, int \<times> int) result \<times> 'w up_state" where
  "append_upload_data e uid data s =
     (case hm_get (up_pending s) uid of
        None \<Rightarrow> (Inl ''upload not found'', s)
      | Some u \<Rightarrow>
          let bs = bytes_within_size (pu_already u) (pu_size u) data in
          if bs = [] then (Inr (pu_size u, pu_already u), s)
          else (case pu_file u of
                  None \<Rightarrow> (Inl ''upload file handle not open'', s)
                | Some h \<Rightarrow>
                    (case write_all e h bs s of
                       (Some err, h1, s1) \<Rightarrow>
                         (Inl (''failed to write upload: '' @ uid @ '': '' @ err), put_pending uid (u\<lparr>pu_file := Some h1\<rparr>) s1)
                     | (None, h1, s1) \<Rightarrow>
                         let already = pu_already u + int (length bs)
                         in (Inr (pu_size u, already), put_pending uid (u\<lparr>pu_file := Some h1, pu_already := already\<rparr>) s1))))"

definition flush_and_sync :: "'w up_env \<Rightarrow> string \<Rightarrow> pending_upload \<Rightarrow> 'w up_state \<Rightarrow> (string, pending_upload) result \<times> 'w up_state" where
  "flush_and_sync e uid u s =
     (case pu_file u of
        None \<Rightarrow> (Inr u, s)
      | Some h \<Rightarrow>
          (case flush_file e h s of
             (Some err, h1, s1) \<Rightarrow> (Inl (''failed to flush upload: '' @ uid @ '': '' @ err), put_pending uid (u\<lparr>pu_file := Some h1\<rparr>) s1)
           | (None, h1, s1) \<Rightarrow>
               (case io_try e (SyncData (fst h)) s1 of
                  (Some err, s2) \<Rightarrow> (Inl (''failed to sync upload: '' @ uid @ '': '' @ err), put_pending uid (u\<lparr>pu_file := Some h1\<rparr>) s2)
                | (None, s2) \<Rightarrow> (Inr (u\<lparr>pu_file := Some h1\<rparr>), s2))))"

text \<open>A complete file gets its name; when that fails, it is opened again for another attempt, if it can be.\<close>

definition rename_file :: "'w up_env \<Rightarrow> string \<Rightarrow> string \<Rightarrow> 'w up_state \<Rightarrow> string option \<times> 'w up_state" where
  "rename_file e old new s =
     (case io_try e (RenameFile old new) s of
        (Some err, s1) \<Rightarrow> (Some err, s1)
      | (None, s1) \<Rightarrow>
          (case hm_get (up_names s1) old of
             None \<Rightarrow> (Some ''No such file or directory'', s1)
           | Some i \<Rightarrow> (None, s1\<lparr>up_names := hm_insert new i (hm_remove old (up_names s1))\<rparr>)))"

definition publish_upload :: "'w up_env \<Rightarrow> string \<Rightarrow> pending_upload \<Rightarrow> int \<Rightarrow> 'w up_state \<Rightarrow> (string, int) result \<times> 'w up_state" where
  "publish_upload e uid u already s =
     (let u1 = u\<lparr>pu_already := already, pu_file := None\<rparr>; up = pu_upload_path u; fp = pu_final_path u;
          s1 = put_pending uid u1 s in
      case rename_file e up fp s1 of
        (Some err, s2) \<Rightarrow>
          (Inl (''failed to rename uploaded file: '' @ up @ '' -> '' @ fp @ '': '' @ err),
           case open_append e False up s2 of
             (Inr h, s3) \<Rightarrow> put_pending uid (u1\<lparr>pu_file := Some h, pu_channel_open := False\<rparr>) s3
           | (Inl _, s3) \<Rightarrow> s3)
      | (None, s2) \<Rightarrow> (Inr already, s2\<lparr>up_pending := hm_remove uid (up_pending s2)\<rparr>))"

definition complete_upload :: "'w up_env \<Rightarrow> string \<Rightarrow> 'w up_state \<Rightarrow> (string, int) result \<times> 'w up_state" where
  "complete_upload e uid s =
     (case hm_get (up_pending s) uid of
        None \<Rightarrow> (Inl ''upload not found'', s)
      | Some u \<Rightarrow>
      (case disk_size e (pu_upload_path u) s of
        (Inl err, s1) \<Rightarrow> (Inl err, s1)
      | (Inr _, s1) \<Rightarrow>
      (case flush_and_sync e uid u s1 of
        (Inl err, s2) \<Rightarrow> (Inl err, s2)
      | (Inr u1, s2) \<Rightarrow>
      (case disk_size e (pu_upload_path u) s2 of
        (Inl err, s3) \<Rightarrow> (Inl err, put_pending uid u1 s3)
      | (Inr already, s3) \<Rightarrow>
          if already = pu_size u then publish_upload e uid u1 already s3
          else if already > pu_size u
          then (case io_try e (RemoveFile (pu_upload_path u)) s3 of
                  (r, s4) \<Rightarrow>
                    (Inr 0, s4\<lparr>up_names := (if r = None then hm_remove (pu_upload_path u) (up_names s4) else up_names s4),
                               up_pending := hm_remove uid (up_pending s4)\<rparr>))
          else (Inr already,
                s3\<lparr>up_pending := hm_remove uid (up_pending s3),
                   up_closed := hm_insert uid (u1\<lparr>pu_channel_open := False, pu_already := already, pu_file := None\<rparr>) (up_closed s3)\<rparr>)))))"

definition get_upload_progress :: "string \<Rightarrow> 'w up_state \<Rightarrow> (string, int \<times> int) result" where
  "get_upload_progress uid s =
     (case hm_get (up_pending s) uid of None \<Rightarrow> Inl ''upload not found'' | Some u \<Rightarrow> Inr (pu_size u, pu_already u))"

section \<open>Cancelling and deleting\<close>

text \<open>Sessions are taken from the active ones where they are there, else from the closed ones.\<close>

definition forget_session :: "'w up_env \<Rightarrow> string \<Rightarrow> 'w up_state \<Rightarrow> 'w up_state" where
  "forget_session e uid s =
     (case hm_get (up_pending s) uid of
        Some u \<Rightarrow>
          (let s1 = s\<lparr>up_pending := hm_remove uid (up_pending s)\<rparr>
           in case pu_file u of None \<Rightarrow> s1 | Some h \<Rightarrow> snd (snd (flush_file e h s1)))
      | None \<Rightarrow> s\<lparr>up_closed := hm_remove uid (up_closed s)\<rparr>)"

definition cancel_vm_upload :: "'w up_env \<Rightarrow> string \<Rightarrow> 'w up_state \<Rightarrow> (string, unit) result \<times> 'w up_state" where
  "cancel_vm_upload e file_name s =
     (case sanitize_filename file_name of
        Inl err \<Rightarrow> (Inl err, s)
      | Inr name \<Rightarrow>
          let upload_path = images_path (name @ ''.incomplete'');
              ids = (\<lambda>m. map fst (filter (\<lambda>(uid, u). pu_upload_path u = upload_path) m));
              s1 = fold (forget_session e) (ids (up_pending s) @ ids (up_closed s)) s
          in if file_exists upload_path s1
             then case io_try e (RemoveFile upload_path) s1 of
                    (Some err, s2) \<Rightarrow> (Inl err, s2)
                  | (None, s2) \<Rightarrow> (Inr (), s2\<lparr>up_names := hm_remove upload_path (up_names s2)\<rparr>)
             else (Inr (), s1))"

definition delete_storage_file :: "'w up_env \<Rightarrow> string \<Rightarrow> 'w up_state \<Rightarrow> (string, unit) result \<times> 'w up_state" where
  "delete_storage_file e file_name s =
     (case sanitize_filename file_name of
        Inl err \<Rightarrow> (Inl err, s)
      | Inr name \<Rightarrow>
          (case cancel_vm_upload e file_name s of
             (Inl err, s1) \<Rightarrow> (Inl err, s1)
           | (Inr _, s1) \<Rightarrow>
               if file_exists (images_path name) s1
               then case io_try e (RemoveFile (images_path name)) s1 of
                      (Some err, s2) \<Rightarrow> (Inl (''failed to delete file: '' @ name @ '': '' @ err), s2)
                    | (None, s2) \<Rightarrow> (Inr (), s2\<lparr>up_names := hm_remove (images_path name) (up_names s2)\<rparr>)
               else (Inr (), s1)))"

section \<open>The data channel and the HTTP endpoint\<close>

text \<open>Only the effect on the session is kept; the progress messages to the browser are left out.\<close>

datatype channel_event = OnMessage "u8 list" | OnError | OnClose

definition write_storage_chunk :: "'w up_env \<Rightarrow> string \<Rightarrow> u8 list \<Rightarrow> 'w up_state \<Rightarrow> bool \<times> 'w up_state" where
  "write_storage_chunk e uid data s =
     (case append_upload_data e uid data s of
        (Inl _, s1) \<Rightarrow> (False, s1)
      | (Inr (size', already), s1) \<Rightarrow> (already \<ge> size', s1))"

definition finalize_storage_upload :: "'w up_env \<Rightarrow> string \<Rightarrow> 'w up_state \<Rightarrow> 'w up_state" where
  "finalize_storage_upload e uid s = snd (complete_upload e uid s)"

fun channel_loop :: "'w up_env \<Rightarrow> string \<Rightarrow> bool \<Rightarrow> channel_event list \<Rightarrow> 'w up_state \<Rightarrow> 'w up_state" where
  "channel_loop e uid finished [] s = finalize_storage_upload e uid s"
| "channel_loop e uid finished (OnMessage data # evs) s =
     (if finished then channel_loop e uid finished evs s
      else case write_storage_chunk e uid data s of (fin, s1) \<Rightarrow> channel_loop e uid fin evs s1)"
| "channel_loop e uid finished (OnError # evs) s = finalize_storage_upload e uid s"
| "channel_loop e uid finished (OnClose # evs) s = finalize_storage_upload e uid s"

definition handle_upload_channel :: "'w up_env \<Rightarrow> string \<Rightarrow> channel_event list \<Rightarrow> 'w up_state \<Rightarrow> 'w up_state" where
  "handle_upload_channel e label evs s =
     (if \<not> starts_with label ''upload_'' then s
      else case claim_upload_channel label s of
             (Inl _, s1) \<Rightarrow> s1
           | (Inr _, s1) \<Rightarrow> channel_loop e label False evs s1)"

datatype body_frame = Data "u8 list" | NonData | ReadError

type_synonym http_status = "nat \<times> string"

fun body_loop :: "'w up_env \<Rightarrow> string \<Rightarrow> body_frame list \<Rightarrow> 'w up_state \<Rightarrow> http_status option \<times> 'w up_state" where
  "body_loop e uid [] s = (None, s)"
| "body_loop e uid (ReadError # fs) s = (Some (500, ''Failed to read upload data''), snd (complete_upload e uid s))"
| "body_loop e uid (NonData # fs) s = body_loop e uid fs s"
| "body_loop e uid (Data bs # fs) s =
     (if bs = [] then body_loop e uid fs s
      else case append_upload_data e uid bs s of
             (Inr _, s1) \<Rightarrow> body_loop e uid fs s1
           | (Inl _, s1) \<Rightarrow> (Some (500, ''Failed to write upload data''), snd (complete_upload e uid s1)))"

definition handle_storage_upload :: "'w up_env \<Rightarrow> string \<Rightarrow> body_frame list \<Rightarrow> 'w up_state \<Rightarrow> http_status \<times> 'w up_state" where
  "handle_storage_upload e uid frames s =
     (if uid = [] then ((404, ''Upload not found''), s)
      else case get_upload_progress uid s of
        Inl _ \<Rightarrow> ((404, ''Upload not found''), s)
      | Inr (size', _) \<Rightarrow>
          (case body_loop e uid frames s of
             (Some r, s1) \<Rightarrow> (r, s1)
           | (None, s1) \<Rightarrow>
               (case complete_upload e uid s1 of
                  (Inl _, s2) \<Rightarrow> ((500, ''Failed to finalize upload''), s2)
                | (Inr durable, s2) \<Rightarrow>
                    if durable = size' then ((200, ''Upload completed''), s2)
                    else ((202, ''Upload partial''), s2))))"


section \<open>Names stay in their folder\<close>

lemma split_on_parts: "x \<in> set (split_on d s) \<Longrightarrow> d \<notin> set x"
proof (induction s arbitrary: x)
  case (Cons c s)
  then show ?case by (cases "split_on d s") (auto split: if_splits)
qed simp

lemma split_on_id: "d \<notin> set s \<Longrightarrow> split_on d s = [s]"
  by (induction s) auto

lemma split_on_snoc: "d \<notin> set s \<Longrightarrow> split_on d (p @ d # s) = split_on d p @ [s]"
proof (induction p)
  case (Cons c p)
  then show ?case by (cases "split_on d p") auto
qed (simp add: split_on_id)

text \<open>
  A file name from the network never leaves the image folder: the name that is kept is one path
  component, neither empty nor a reference to this or the parent folder, so the path made from it has
  exactly the components of the folder and this one.
\<close>

theorem sanitize_filename_safe:
  assumes "sanitize_filename filename = Inr name"
  shows "name \<noteq> [] \<and> name \<noteq> ''.'' \<and> name \<noteq> ''..'' \<and> CHR ''/'' \<notin> set name \<and>
    path_components (images_path name) = [''userdata'', ''arkkvm'', ''images'', name] \<and> sanitize_filename name = Inr name"
proof -
  let ?cs = "path_components filename"
  have n: "?cs \<noteq> []" "name = last ?cs" "''..'' \<notin> set ?cs"
    using assms by (auto simp: sanitize_filename_def split: if_splits)
  then have m: "name \<in> set ?cs" by simp
  then have name: "name \<noteq> []" "name \<noteq> ''.''" "CHR ''/'' \<notin> set name"
    using split_on_parts by (auto simp: path_components_def)
  have dd: "name \<noteq> ''..''" using m n(3) by auto
  have own: "path_components name = [name]" using name by (simp add: path_components_def split_on_id)
  have "images_path name = IMAGES_FOLDER @ CHR ''/'' # name" by (simp add: images_path_def)
  then have path: "path_components (images_path name) = path_components IMAGES_FOLDER @ [name]"
    using name by (simp add: path_components_def split_on_snoc)
  have "path_components IMAGES_FOLDER = [''userdata'', ''arkkvm'', ''images'']"
    by (simp add: path_components_def IMAGES_FOLDER_def)
  moreover have "\<not> starts_with name ''/''" using name(3) by (cases name) (auto simp: starts_with_def)
  ultimately show ?thesis using name dd own path by (simp add: sanitize_filename_def)
qed

theorem sanitize_filename_safe_witness:
  "sanitize_filename ''isos/./debian.iso'' = Inr ''debian.iso'' \<and>
   path_components (images_path ''debian.iso'') = [''userdata'', ''arkkvm'', ''images'', ''debian.iso'']"
proof -
  have s: "sanitize_filename ''isos/./debian.iso'' = Inr ''debian.iso''"
    by (simp add: sanitize_filename_def path_components_def starts_with_def)
  show ?thesis using sanitize_filename_safe [OF s] s by blast
qed

section \<open>Uploading in several attempts\<close>

text \<open>
  An environment in which nothing fails; how long bytes stay in a buffer is still open. Between two
  attempts to upload the file named \<open>up\<close> while incomplete and \<open>fp\<close> afterwards, no session is active and
  the closed ones belong to it (\<open>between\<close>); during an attempt its session is the active one (\<open>feeding\<close>).
\<close>

definition reliable :: "'w up_env \<Rightarrow> bool" where
  "reliable e = ((\<forall>p w. fst (ue_io e p w) = None) \<and> (\<forall>n w. snd (fst (ue_write e n w)) = None))"

definition between :: "string \<Rightarrow> string \<Rightarrow> int \<Rightarrow> u8 list \<Rightarrow> 'w up_state \<Rightarrow> bool" where
  "between up fp size' c s =
     (up_pending s = [] \<and> hm_wf (up_closed s) \<and> hm_get (up_names s) fp = None \<and> file_data up s = c \<and>
      (\<forall>(k, u) \<in> set (up_closed s). starts_with k ''upload_'' \<and> pu_upload_path u = up \<and> pu_final_path u = fp \<and> pu_size u = size'))"

definition feeding :: "string \<Rightarrow> string \<Rightarrow> int \<Rightarrow> string \<Rightarrow> bool \<Rightarrow> u8 list \<Rightarrow> 'w up_state \<Rightarrow> bool" where
  "feeding up fp size' uid claimed c s =
     (starts_with uid ''upload_'' \<and> hm_wf (up_closed s) \<and> hm_get (up_names s) fp = None \<and>
      (\<forall>(k, u) \<in> set (up_closed s). starts_with k ''upload_'' \<and> pu_upload_path u = up \<and> pu_final_path u = fp \<and> pu_size u = size') \<and>
      (\<exists>i buf. hm_get (up_names s) up = Some i \<and> inode_data i s @ buf = c \<and>
         up_pending s = [(uid, \<lparr>pu_file = Some (i, buf), pu_size = size', pu_already = int (length c), pu_upload_path = up,
                            pu_final_path = fp, pu_channel_open = claimed\<rparr>)]))"

lemma io_try_ok:
  assumes "reliable e"
  obtains w where "io_try e p s = (None, s\<lparr>up_w := w\<rparr>)"
  using assms that by (cases "ue_io e p (up_w s)") (auto simp: io_try_def reliable_def, metis fst_conv)

lemma inode_frame [simp]:
  "inode_data i (s\<lparr>up_w := w\<rparr>) = inode_data i s" "inode_data i (put_pending uid u s) = inode_data i s"
  "inode_data i (s\<lparr>up_closed := m\<rparr>) = inode_data i s" "inode_data i (s\<lparr>up_pending := m\<rparr>) = inode_data i s"
  "inode_data i (s\<lparr>up_names := n\<rparr>) = inode_data i s"
  by (simp_all add: inode_data_def put_pending_def)

lemma file_frame [simp]:
  "file_data p (s\<lparr>up_w := w\<rparr>) = file_data p s" "file_exists p (s\<lparr>up_w := w\<rparr>) = file_exists p s"
  "file_data p (put_pending uid u s) = file_data p s" "file_exists p (put_pending uid u s) = file_exists p s"
  "file_data p (s\<lparr>up_closed := m\<rparr>) = file_data p s" "file_exists p (s\<lparr>up_closed := m\<rparr>) = file_exists p s"
  "file_data p (s\<lparr>up_pending := m\<rparr>) = file_data p s" "file_exists p (s\<lparr>up_pending := m\<rparr>) = file_exists p s"
  by (simp_all add: file_data_def file_exists_def put_pending_def split: option.split)

lemma inode_data_append [simp]: "inode_data j (append_inode i bs s) = (if j = i then inode_data i s @ bs else inode_data j s)"
  by (simp add: inode_data_def append_inode_def)

lemma hm_insert_single: "hm_insert k v [] = [(k, v)]" "hm_insert k v [(k, v')] = [(k, v)]" "hm_remove k [(k, v)] = []"
  by (simp_all add: hm_insert_def hm_remove_def)

lemma hm_insert_subset: "set (hm_insert k v m) \<subseteq> insert (k, v) (set m)"
  by (induction m) (auto simp: hm_insert_def)

lemma feeding_append:
  assumes "reliable e" "feeding up fp size' uid True c s" "int (length c) \<le> size'"
  shows "\<exists>s'. append_upload_data e uid data s = (Inr (size', int (length (take (nat size') (c @ data)))), s') \<and>
           feeding up fp size' uid True (take (nat size') (c @ data)) s'"
proof -
  obtain i buf where f: "hm_get (up_names s) up = Some i" "inode_data i s @ buf = c"
    "up_pending s = [(uid, \<lparr>pu_file = Some (i, buf), pu_size = size', pu_already = int (length c), pu_upload_path = up,
       pu_final_path = fp, pu_channel_open = True\<rparr>)]"
    using assms(2) by (auto simp: feeding_def)
  let ?bs = "bytes_within_size (int (length c)) size' data"
  have bs: "c @ ?bs = take (nat size') (c @ data)"
    using assms(3) by (auto simp: bytes_within_size_def Let_def nat_diff_distrib)
  show ?thesis
  proof (cases "?bs = []")
    case True
    with assms(2) f bs show ?thesis by (auto simp: append_upload_data_def Let_def)
  next
    case False
    obtain k w where wr: "ue_write e (length (buf @ ?bs)) (up_w s) = ((k, None), w)"
      using assms(1) by (auto simp: reliable_def) (metis prod.exhaust_sel)
    let ?s1 = "append_inode i (take k (buf @ ?bs)) (s\<lparr>up_w := w\<rparr>)"
    let ?u = "\<lparr>pu_file = Some (i, drop k (buf @ ?bs)), pu_size = size', pu_already = int (length (c @ ?bs)), pu_upload_path = up,
       pu_final_path = fp, pu_channel_open = True\<rparr>"
    have "append_upload_data e uid data s = (Inr (size', int (length (c @ ?bs))), put_pending uid ?u ?s1)"
      using False f(3) wr by (simp add: append_upload_data_def Let_def write_all_def)
    moreover have "inode_data i ?s1 @ drop k (buf @ ?bs) = c @ ?bs"
      using f(2) append_take_drop_id [of k "buf @ ?bs"] by (metis append_assoc inode_data_append inode_frame(1))
    then have "feeding up fp size' uid True (c @ ?bs) (put_pending uid ?u ?s1)"
      using assms(2) f(1,3) unfolding feeding_def
      by (intro conjI exI [of _ i] exI [of _ "drop k (buf @ ?bs)"])
        (simp_all add: append_inode_def put_pending_def hm_insert_single)
    ultimately show ?thesis unfolding bs by blast
  qed
qed


lemma feeding_loop:
  assumes "reliable e" "feeding up fp size' uid True c s" "int (length c) \<le> size'" "0 \<le> size'" "fin \<longrightarrow> int (length c) = size'"
  shows "\<exists>s'. channel_loop e uid fin (map OnMessage chunks @ [OnClose]) s = finalize_storage_upload e uid s' \<and>
           feeding up fp size' uid True (take (nat size') (c @ concat chunks)) s'"
  using assms
proof (induction chunks arbitrary: c s fin)
  case Nil
  then show ?case by (auto simp: le_nat_iff)
next
  case (Cons d ds)
  show ?case
  proof (cases fin)
    case True
    then have "length c = nat size'" using Cons.prems(5) by simp
    with Cons.IH [OF Cons.prems(1-5)] True show ?thesis by simp
  next
    case False
    let ?c1 = "take (nat size') (c @ d)"
    obtain s1 where a: "append_upload_data e uid d s = (Inr (size', int (length ?c1)), s1)" "feeding up fp size' uid True ?c1 s1"
      using feeding_append [OF Cons.prems(1-3)] by blast
    have l: "int (length ?c1) \<le> size'" using Cons.prems(4) by simp
    have "write_storage_chunk e uid d s = (int (length ?c1) \<ge> size', s1)" using a(1) by (simp add: write_storage_chunk_def)
    then have step: "channel_loop e uid fin (map OnMessage (d # ds) @ [OnClose]) s =
        channel_loop e uid (int (length ?c1) \<ge> size') (map OnMessage ds @ [OnClose]) s1"
      using False by simp
    have "int (length ?c1) \<ge> size' \<longrightarrow> int (length ?c1) = size'" using l by simp
    from Cons.IH [OF Cons.prems(1) a(2) l Cons.prems(4) this] obtain s'
      where "channel_loop e uid fin (map OnMessage (d # ds) @ [OnClose]) s = finalize_storage_upload e uid s'"
        "feeding up fp size' uid True (take (nat size') (?c1 @ concat ds)) s'"
      unfolding step by blast
    moreover have "take (nat size') (?c1 @ concat ds) = take (nat size') (c @ concat (d # ds))"
      by (cases "nat size' \<le> length (c @ d)") (simp_all add: min_def)
    ultimately show ?thesis by metis
  qed
qed

lemma disk_size_ok:
  assumes "reliable e"
  obtains w where "disk_size e p s = (Inr (int (length (file_data p s))), s\<lparr>up_w := w\<rparr>)"
proof (cases "file_exists p s")
  case True
  obtain w where "io_try e (Stat p) s = (None, s\<lparr>up_w := w\<rparr>)" using assms by (rule io_try_ok)
  with True that show ?thesis by (simp add: disk_size_def)
next
  case False
  then have "disk_size e p s = (Inr (int (length (file_data p s))), s\<lparr>up_w := up_w s\<rparr>)"
    by (simp add: disk_size_def file_exists_def file_data_def)
  then show ?thesis by (rule that)
qed

text \<open>At the end of an attempt the file has its final name when it is complete, and waits for the next attempt otherwise.\<close>

definition published :: "string \<Rightarrow> u8 list \<Rightarrow> string \<Rightarrow> 'w up_state \<Rightarrow> bool" where
  "published fp c up s = (file_exists fp s \<and> file_data fp s = c \<and> \<not> file_exists up s)"

lemma feeding_complete:
  assumes "reliable e" "feeding up fp size' uid claimed c s" "up \<noteq> fp" "int (length c) \<le> size'"
  shows "if int (length c) = size' then published fp c up (finalize_storage_upload e uid s)
         else between up fp size' c (finalize_storage_upload e uid s)"
proof -
  obtain i buf where f: "hm_get (up_names s) up = Some i" "inode_data i s @ buf = c"
    "up_pending s = [(uid, \<lparr>pu_file = Some (i, buf), pu_size = size', pu_already = int (length c), pu_upload_path = up,
       pu_final_path = fp, pu_channel_open = claimed\<rparr>)]"
    using assms(2) by (auto simp: feeding_def)
  obtain w1 where d1: "disk_size e up s = (Inr (int (length (file_data up s))), s\<lparr>up_w := w1\<rparr>)"
    using assms(1) by (rule disk_size_ok)
  obtain k w2 where w2: "ue_write e (length buf) w1 = ((k, None), w2)"
    using assms(1) by (auto simp: reliable_def) (metis prod.exhaust_sel)
  let ?s2 = "append_inode i buf (s\<lparr>up_w := w2\<rparr>)"
  obtain w3 where sy: "io_try e (SyncData i) ?s2 = (None, ?s2\<lparr>up_w := w3\<rparr>)" using assms(1) by (rule io_try_ok)
  let ?s3 = "?s2\<lparr>up_w := w3\<rparr>"
  obtain w4 where d2: "disk_size e up ?s3 = (Inr (int (length (file_data up ?s3))), ?s3\<lparr>up_w := w4\<rparr>)"
    using assms(1) by (rule disk_size_ok)
  have fd: "file_data up ?s3 = c" using f(1,2) by (simp add: file_data_def append_inode_def) (simp add: inode_data_def)
  let ?u = "\<lparr>pu_file = Some (i, []), pu_size = size', pu_already = int (length c), pu_upload_path = up,
       pu_final_path = fp, pu_channel_open = claimed\<rparr>"
  have fs: "flush_and_sync e uid \<lparr>pu_file = Some (i, buf), pu_size = size', pu_already = int (length c), pu_upload_path = up,
       pu_final_path = fp, pu_channel_open = claimed\<rparr> (s\<lparr>up_w := w1\<rparr>) = (Inr ?u, ?s3)"
    using w2 sy by (simp add: flush_and_sync_def flush_file_def)
  show ?thesis
  proof (cases "int (length c) = size'")
    case True
    obtain w5 where rn: "io_try e (RenameFile up fp) (put_pending uid (?u\<lparr>pu_already := int (length c), pu_file := None\<rparr>) (?s3\<lparr>up_w := w4\<rparr>)) =
        (None, put_pending uid (?u\<lparr>pu_already := int (length c), pu_file := None\<rparr>) (?s3\<lparr>up_w := w4\<rparr>)\<lparr>up_w := w5\<rparr>)"
      using assms(1) by (rule io_try_ok)
    have nm: "up_names ?s3 = up_names s" by (simp add: append_inode_def)
    have "finalize_storage_upload e uid s = snd (publish_upload e uid ?u (int (length c)) (?s3\<lparr>up_w := w4\<rparr>))"
      using d1 d2 fs fd f(3) True by (simp add: finalize_storage_upload_def complete_upload_def)
    also have "published fp c up \<dots>"
      using rn f(1,2) nm assms(3)
      by (simp add: publish_upload_def rename_file_def Let_def published_def file_exists_def file_data_def put_pending_def append_inode_def)
        (simp add: inode_data_def)
    finally show ?thesis using True by simp
  next
    case False
    then have lt: "int (length c) < size'" using assms(4) by simp
    have "finalize_storage_upload e uid s =
        ?s3\<lparr>up_w := w4, up_pending := [],
          up_closed := hm_insert uid (?u\<lparr>pu_channel_open := False, pu_already := int (length c), pu_file := None\<rparr>) (up_closed s)\<rparr>"
      using d1 d2 fs fd f(3) lt
      by (simp add: finalize_storage_upload_def complete_upload_def append_inode_def hm_insert_single)
    moreover have "between up fp size' c \<dots>"
      using assms(2) fd hm_insert_subset [of uid _ "up_closed s"] unfolding between_def feeding_def
      by (fastforce simp: append_inode_def)
    ultimately show ?thesis using False by simp
  qed
qed


lemma open_append_ok:
  assumes "reliable e" "hm_get (up_names s) p = Some i"
  obtains w where "open_append e create p s = (Inr (i, []), s\<lparr>up_w := w\<rparr>)"
proof -
  obtain w where "io_try e (OpenAppend p) s = (None, s\<lparr>up_w := w\<rparr>)" using assms(1) by (rule io_try_ok)
  with assms(2) that show ?thesis by (simp add: open_append_def)
qed

lemma start_fresh_feeding:
  assumes "reliable e" "between up fp size' [] s" "hm_get (up_names s) up = None" "up \<noteq> fp"
  shows "\<exists>uid s'. start_fresh e up fp size' s = (Inr (0, uid), s') \<and> feeding up fp size' uid False [] s'"
proof -
  obtain w where t: "io_try e (OpenAppend up) s = (None, s\<lparr>up_w := w\<rparr>)" using assms(1) by (rule io_try_ok)
  let ?s1 = "s\<lparr>up_w := w, up_names := hm_insert up (up_next s) (up_names s), up_data := hm_insert (up_next s) [] (up_data s),
     up_next := up_next s + 1\<rparr>"
  obtain uid w' where u: "ue_uuid e w = (uid, w')" by (rule prod.exhaust)
  have "start_fresh e up fp size' s = (Inr (0, ''upload_'' @ uid),
      put_pending (''upload_'' @ uid) \<lparr>pu_file = Some (up_next s, []), pu_size = size', pu_already = 0, pu_upload_path = up,
        pu_final_path = fp, pu_channel_open = False\<rparr> (?s1\<lparr>up_w := w'\<rparr>))"
    using t u assms(3) by (simp add: start_fresh_def open_append_def new_upload_id_def)
  moreover have "feeding up fp size' (''upload_'' @ uid) False [] (put_pending (''upload_'' @ uid)
      \<lparr>pu_file = Some (up_next s, []), pu_size = size', pu_already = 0, pu_upload_path = up,
        pu_final_path = fp, pu_channel_open = False\<rparr> (?s1\<lparr>up_w := w'\<rparr>))"
    using assms(2,4) unfolding feeding_def between_def
    by (auto simp: put_pending_def hm_insert_single starts_with_def inode_data_def)
  ultimately show ?thesis by blast
qed

lemma find_SomeD: "find P xs = Some x \<Longrightarrow> x \<in> set xs \<and> P x"
  by (induction xs) (auto split: if_splits)

lemma start_resume_feeding:
  assumes "reliable e" "between up fp size' c s" "hm_get (up_names s) up = Some i"
  shows "\<exists>uid s'. start_resume e up fp size' (int (length c)) s = (Inr (int (length c), uid), s') \<and> feeding up fp size' uid False c s'"
proof -
  let ?P = "\<lambda>(uid :: string, u). pu_final_path u = fp \<and> pu_upload_path u = up \<and> pu_size u = size'"
  have b: "up_pending s = []" "hm_wf (up_closed s)" "hm_get (up_names s) fp = None" "file_data up s = c"
    "\<forall>(k, u) \<in> set (up_closed s). starts_with k ''upload_'' \<and> pu_upload_path u = up \<and> pu_final_path u = fp \<and> pu_size u = size'"
    using assms(2) by (simp_all add: between_def)
  have c: "inode_data i s = c" using b(4) assms(3) by (simp add: file_data_def)
  show ?thesis
  proof (cases "find ?P (up_closed s)")
    case None
    then have empty: "up_closed s = []" using b(5) by (cases "up_closed s") (auto split: if_splits)
    obtain uid s1 where u: "new_upload_id e s = (''upload_'' @ uid, s1)" "\<exists>w. s1 = s\<lparr>up_w := w\<rparr>"
      by (cases "ue_uuid e (up_w s)") (auto simp: new_upload_id_def)
    then obtain w where s1: "s1 = s\<lparr>up_w := w\<rparr>" by blast
    let ?s2 = "s1\<lparr>up_closed := hm_retain (\<lambda>k u. pu_upload_path u \<noteq> up) (up_closed s1)\<rparr>"
    have "hm_get (up_names ?s2) up = Some i" using s1 assms(3) by simp
    with assms(1) obtain w2 where "open_append e False up ?s2 = (Inr (i, []), ?s2\<lparr>up_w := w2\<rparr>)" by (rule open_append_ok)
    then show ?thesis using None empty u(1) s1 b(1-4) assms(3) c
      by (auto simp: start_resume_def Let_def feeding_def put_pending_def hm_insert_single starts_with_def hm_retain_def inode_data_def)
  next
    case (Some x)
    obtain uid u where x: "x = (uid, u)" by (rule prod.exhaust)
    from find_SomeD [OF Some] x have m: "(uid, u) \<in> set (up_closed s)" "pu_final_path u = fp" "pu_upload_path u = up" "pu_size u = size'"
      by auto
    with b(2) have g: "hm_get (up_closed s) uid = Some u" by (simp add: hm_get_def hm_wf_def)
    let ?s2 = "s\<lparr>up_closed := hm_remove uid (up_closed s)\<rparr>"
    have "hm_get (up_names ?s2) up = Some i" using assms(3) by simp
    with assms(1) obtain w2 where o: "open_append e False up ?s2 = (Inr (i, []), ?s2\<lparr>up_w := w2\<rparr>)" by (rule open_append_ok)
    have sub: "set (hm_remove uid (up_closed s)) \<subseteq> set (up_closed s)" by (auto simp: hm_remove_def AList.delete_eq)
    have "start_resume e up fp size' (int (length c)) s = (Inr (int (length c), uid),
        put_pending uid \<lparr>pu_file = Some (i, []), pu_size = size', pu_already = int (length c), pu_upload_path = up,
          pu_final_path = fp, pu_channel_open = False\<rparr> (?s2\<lparr>up_w := w2\<rparr>))"
      using Some x g o m by (cases u) (simp add: start_resume_def Let_def)
    moreover have "starts_with uid ''upload_''" using b(5) m(1) by auto
    moreover have "\<forall>(k, u) \<in> set (hm_remove uid (up_closed s)). starts_with k ''upload_'' \<and> pu_upload_path u = up \<and> pu_final_path u = fp \<and> pu_size u = size'"
      using b(5) sub by blast
    ultimately show ?thesis using b(1-4) assms(3) c
      by (auto simp: feeding_def put_pending_def hm_insert_single inode_data_def)
  qed
qed

lemma start_feeding:
  assumes "reliable e" "sanitize_filename filename = Inr name"
    "between (images_path (name @ ''.incomplete'')) (images_path name) size' c s" "int (length c) \<le> size'"
  shows "\<exists>uid s'. start_storage_file_upload e filename size' s = (Inr (int (length c), uid), s') \<and>
           feeding (images_path (name @ ''.incomplete'')) (images_path name) size' uid False c s'"
proof -
  let ?up = "images_path (name @ ''.incomplete'')" and ?fp = "images_path name"
  have ne: "?up \<noteq> ?fp" by (simp add: images_path_def)
  obtain w1 where cd: "io_try e (CreateDir IMAGES_FOLDER) s = (None, s\<lparr>up_w := w1\<rparr>)" using assms(1) by (rule io_try_ok)
  obtain w2 where d: "disk_size e ?up (s\<lparr>up_w := w1\<rparr>) = (Inr (int (length (file_data ?up (s\<lparr>up_w := w1\<rparr>)))), s\<lparr>up_w := w1, up_w := w2\<rparr>)"
    using assms(1) by (rule disk_size_ok)
  have b: "up_pending s = []" "\<not> file_exists ?fp s" "file_data ?up s = c"
    using assms(3) by (simp_all add: between_def file_exists_def)
  have b2: "between ?up ?fp size' c (s\<lparr>up_w := w2\<rparr>)" using assms(3) by (simp add: between_def)
  show ?thesis
  proof (cases "hm_get (up_names s) ?up")
    case None
    then have "c = []" using b(3) by (simp add: file_data_def)
    with start_fresh_feeding [OF assms(1), of ?up ?fp size' "s\<lparr>up_w := w2\<rparr>"] b2 None ne b cd d assms(2,4) show ?thesis
      by (simp add: start_storage_file_upload_def Let_def file_exists_def)
  next
    case (Some i)
    with start_resume_feeding [OF assms(1) b2, of i] b cd d assms(2,4) show ?thesis
      by (simp add: start_storage_file_upload_def Let_def file_exists_def)
  qed
qed

text \<open>
  The browser's side of an attempt: it asks to start or resume, and sends the image from the offset it
  is given, in messages of the lengths \<open>ns\<close>, until it stops or the connection closes.
\<close>

fun slices :: "nat list \<Rightarrow> u8 list \<Rightarrow> u8 list list" where
  "slices [] bs = []"
| "slices (n # ns) bs = take n bs # slices ns (drop n bs)"

lemma concat_slices: "concat (slices ns bs) = take (sum_list ns) bs"
  by (induction ns arbitrary: bs) (simp_all add: take_add)

definition attempt :: "'w up_env \<Rightarrow> string \<Rightarrow> u8 list \<Rightarrow> nat list \<Rightarrow> 'w up_state \<Rightarrow> 'w up_state" where
  "attempt e filename img ns s =
     (case start_storage_file_upload e filename (int (length img)) s of
        (Inl _, s1) \<Rightarrow> s1
      | (Inr (off, uid), s1) \<Rightarrow> handle_upload_channel e uid (map OnMessage (slices ns (drop (nat off) img)) @ [OnClose]) s1)"

lemma attempt_step:
  fixes n :: nat
  assumes "reliable e" "sanitize_filename filename = Inr name" "n \<le> length img"
    "between (images_path (name @ ''.incomplete'')) (images_path name) (int (length img)) (take n img) s"
  shows "if n + sum_list ns \<ge> length img
         then published (images_path name) img (images_path (name @ ''.incomplete'')) (attempt e filename img ns s)
         else between (images_path (name @ ''.incomplete'')) (images_path name) (int (length img)) (take (n + sum_list ns) img)
                (attempt e filename img ns s)"
proof -
  let ?up = "images_path (name @ ''.incomplete'')" and ?fp = "images_path name" and ?z = "int (length img)"
  have ne: "?up \<noteq> ?fp" by (simp add: images_path_def)
  have lc: "length (take n img) = n" using assms(3) by simp
  obtain uid s1 where st: "start_storage_file_upload e filename ?z s = (Inr (int n, uid), s1)"
    and f: "feeding ?up ?fp ?z uid False (take n img) s1"
    using start_feeding [OF assms(1,2,4)] assms(3) lc by auto
  obtain i buf where i: "hm_get (up_names s1) ?up = Some i" "inode_data i s1 @ buf = take n img"
    "up_pending s1 = [(uid, \<lparr>pu_file = Some (i, buf), pu_size = ?z, pu_already = int (length (take n img)), pu_upload_path = ?up,
       pu_final_path = ?fp, pu_channel_open = False\<rparr>)]" and uid: "starts_with uid ''upload_''"
    using f by (auto simp: feeding_def)
  let ?s2 = "put_pending uid \<lparr>pu_file = Some (i, buf), pu_size = ?z, pu_already = int (length (take n img)), pu_upload_path = ?up,
       pu_final_path = ?fp, pu_channel_open = True\<rparr> s1"
  have cl: "claim_upload_channel uid s1 = (Inr (), ?s2)" using i(3) by (simp add: claim_upload_channel_def)
  have f2: "feeding ?up ?fp ?z uid True (take n img) ?s2"
    using f i unfolding feeding_def by (auto simp: put_pending_def hm_insert_single inode_data_def)
  let ?cs = "slices ns (drop n img)"
  obtain s3 where lp: "channel_loop e uid False (map OnMessage ?cs @ [OnClose]) ?s2 = finalize_storage_upload e uid s3"
    and f3: "feeding ?up ?fp ?z uid True (take (nat ?z) (take n img @ concat ?cs)) s3"
    using feeding_loop [OF assms(1) f2, of False ?cs] assms(3) lc by auto
  have c3: "take (nat ?z) (take n img @ concat ?cs) = take (n + sum_list ns) img"
    by (simp add: concat_slices take_add [symmetric] min_def)
  have at: "attempt e filename img ns s = finalize_storage_upload e uid s3"
    using st cl lp uid by (simp add: attempt_def handle_upload_channel_def)
  have "int (length (take (n + sum_list ns) img)) \<le> ?z" by simp
  from feeding_complete [OF assms(1) f3 [unfolded c3] ne this] show ?thesis unfolding at
    by (auto simp: min_def split: if_splits)
qed


lemma attempt_published:
  assumes "reliable e" "sanitize_filename filename = Inr name" "published (images_path name) img up s"
  shows "published (images_path name) img up (attempt e filename img' ns s)"
proof -
  obtain w where "io_try e (CreateDir IMAGES_FOLDER) s = (None, s\<lparr>up_w := w\<rparr>)" using assms(1) by (rule io_try_ok)
  with assms(2,3) show ?thesis by (simp add: attempt_def start_storage_file_upload_def Let_def published_def)
qed

lemma attempts_result:
  assumes "reliable e" "sanitize_filename filename = Inr name" "n \<le> length img"
    "between (images_path (name @ ''.incomplete'')) (images_path name) (int (length img)) (take n img) s"
  shows "if nss \<noteq> [] \<and> n + sum_list (concat nss) \<ge> length img
         then published (images_path name) img (images_path (name @ ''.incomplete'')) (fold (attempt e filename img) nss s)
         else between (images_path (name @ ''.incomplete'')) (images_path name) (int (length img))
                (take (n + sum_list (concat nss)) img) (fold (attempt e filename img) nss s)"
  using assms(3,4)
proof (induction nss arbitrary: n s)
  case (Cons ns nss)
  note st = attempt_step [OF assms(1,2) Cons.prems, of ns]
  show ?case
  proof (cases "n + sum_list ns \<ge> length img")
    case True
    with st have "published (images_path name) img (images_path (name @ ''.incomplete'')) (attempt e filename img ns s)" by simp
    then have "published (images_path name) img (images_path (name @ ''.incomplete'')) (fold (attempt e filename img) nss (attempt e filename img ns s))"
      by (induction nss arbitrary: ns s) (auto simp: attempt_published [OF assms(1,2)])
    with True show ?thesis by simp
  next
    case False
    with st have b: "between (images_path (name @ ''.incomplete'')) (images_path name) (int (length img))
        (take (n + sum_list ns) img) (attempt e filename img ns s)" by simp
    from Cons.IH [OF _ this] False show ?thesis by (auto simp: add.assoc split: if_splits)
  qed
qed simp

definition uploads_none :: "'w \<Rightarrow> 'w up_state" where
  "uploads_none w = \<lparr>up_pending = [], up_closed = [], up_names = [], up_data = [], up_next = 0, up_w = w\<rparr>"

text \<open>
  C12: An upload may be interrupted any number of times, at any byte, in messages of any length and
  with any buffering by the system: as long as no operation fails, the bytes kept after each attempt
  are the first ones of the image, the next attempt goes on exactly there, and as soon as all bytes
  have been sent the file has its final name and is the image, byte for byte.
\<close>

theorem upload_resumes_exactly:
  assumes "reliable e" "sanitize_filename filename = Inr name"
  shows "let s = fold (attempt e filename img) nss (uploads_none w); total' = sum_list (concat nss) in
    (nss \<noteq> [] \<and> total' \<ge> length img \<longrightarrow>
       file_exists (images_path name) s \<and> file_data (images_path name) s = img \<and> \<not> file_exists (images_path (name @ ''.incomplete'')) s) \<and>
    (total' < length img \<longrightarrow>
       \<not> file_exists (images_path name) s \<and> file_data (images_path (name @ ''.incomplete'')) s = take total' img)"
proof -
  have "between (images_path (name @ ''.incomplete'')) (images_path name) (int (length img)) (take 0 img) (uploads_none w)"
    by (simp add: between_def uploads_none_def file_data_def)
  from attempts_result [OF assms _ this, of nss] show ?thesis
    by (auto simp: Let_def published_def between_def file_exists_def split: if_splits)
qed

definition quiet_env :: "nat up_env" where
  "quiet_env = \<lparr>ue_io = \<lambda>p w. (None, w + 1), ue_write = \<lambda>n w. ((n div 2, None), w + 1), ue_uuid = \<lambda>w. (nat_to_dec w, w + 1)\<rparr>"

theorem upload_resumes_exactly_witness:
  "file_data (images_path ''a.iso'') (fold (attempt quiet_env ''a.iso'' [1, 2, 3, 4, 5]) [[1, 1], [], [2, 9]] (uploads_none 0)) = [1, 2, 3, 4, 5]"
proof -
  have r: "reliable quiet_env" by (simp add: reliable_def quiet_env_def)
  have n: "sanitize_filename ''a.iso'' = Inr ''a.iso''" by (simp add: sanitize_filename_def path_components_def starts_with_def)
  show ?thesis using upload_resumes_exactly [OF r n, of "[1, 2, 3, 4, 5]" "[[1, 1], [], [2, 9]]" 0] by (simp add: Let_def)
qed


section \<open>What fails\<close>

text \<open>An environment in which only the second write of the run fails, before any byte of it is written.\<close>

definition second_write_fails :: "nat up_env" where
  "second_write_fails = \<lparr>ue_io = \<lambda>p w. (None, w), ue_write = \<lambda>n w. (if w = 1 then (0, Some ''I/O error'') else (n, None), w + 1),
     ue_uuid = \<lambda>w. (''x'', w)\<rparr>"

text \<open>
  When one message of an upload cannot be written, the data channel goes on with the next: the
  bytes after the gap are appended where the lost ones belong. The file is short then, the next
  attempt fills up its length, and the image is published with its declared size and the wrong bytes.
\<close>

theorem lost_message_corrupts_image:
  "file_data (images_path ''a.iso'')
     (fold (attempt second_write_fails ''a.iso'' [1, 2, 3]) [[1, 1, 1], [3]] (uploads_none 0)) = [1, 3, 3]"
  by code_simp


text \<open>
  A flush or sync that fails while an upload is being completed leaves the session claimed: every
  later start of this upload is refused as already in progress, although no channel feeds it any more.
\<close>

theorem failed_sync_locks_upload:
  assumes "sanitize_filename filename = Inr name" "up_pending s = [(uid, u)]" "pu_channel_open u"
    "pu_upload_path u = images_path (name @ ''.incomplete'')" "complete_upload e uid s = (Inl err, s')"
    "fst (disk_size e (pu_upload_path u) s) = Inr d" "fst (flush_and_sync e uid u (snd (disk_size e (pu_upload_path u) s))) = Inl err"
    "reliable e'" "\<not> file_exists (images_path name) s'"
  shows "\<exists>s''. start_storage_file_upload e' filename (pu_size u) s' = (Inl ''upload already in progress'', s'')"
proof -
  let ?up = "images_path (name @ ''.incomplete'')"
  obtain s1 where d: "disk_size e (pu_upload_path u) s = (Inr d, s1)" using assms(6) by (metis prod.collapse)
  have p1: "up_pending s1 = up_pending s"
    using d by (auto simp: disk_size_def io_try_def split: if_splits option.splits prod.splits)
  obtain s2 where f: "flush_and_sync e uid u s1 = (Inl err, s2)" using assms(7) d by (metis prod.collapse snd_conv)
  have s': "s' = s2" using assms(2,5) d f by (simp add: complete_upload_def)
  obtain h where "up_pending s2 = [(uid, u\<lparr>pu_file := h\<rparr>)]"
    using f p1 assms(2)
    by (auto simp: flush_and_sync_def flush_file_def io_try_def put_pending_def append_inode_def hm_insert_single
        split: option.splits prod.splits)
  then have p2: "up_pending s' = [(uid, u\<lparr>pu_file := h\<rparr>)]" using s' by simp
  obtain w1 where cd: "io_try e' (CreateDir IMAGES_FOLDER) s' = (None, s'\<lparr>up_w := w1\<rparr>)" using assms(8) by (rule io_try_ok)
  obtain w2 where ds: "disk_size e' ?up (s'\<lparr>up_w := w1\<rparr>) = (Inr (int (length (file_data ?up (s'\<lparr>up_w := w1\<rparr>)))), s'\<lparr>up_w := w1, up_w := w2\<rparr>)"
    using assms(8) by (rule disk_size_ok)
  show ?thesis using assms(1,3,4,9) p2 cd ds by (simp add: start_storage_file_upload_def Let_def)
qed

definition sync_fails :: "nat up_env" where
  "sync_fails = \<lparr>ue_io = \<lambda>p w. (case p of SyncData _ \<Rightarrow> Some ''I/O error'' | _ \<Rightarrow> None, w), ue_write = \<lambda>n w. ((n, None), w),
     ue_uuid = \<lambda>w. (''x'', w)\<rparr>"

definition claimed_upload :: pending_upload where
  "claimed_upload = \<lparr>pu_file = Some (0, []), pu_size = 3, pu_already = 0, pu_upload_path = images_path ''a.iso.incomplete'',
     pu_final_path = images_path ''a.iso'', pu_channel_open = True\<rparr>"

definition claimed_state :: "nat up_state" where
  "claimed_state = \<lparr>up_pending = [(''upload_x'', claimed_upload)], up_closed = [], up_names = [(images_path ''a.iso.incomplete'', 0)],
     up_data = [(0, [])], up_next = 1, up_w = 0\<rparr>"

theorem failed_sync_locks_upload_witness:
  "\<exists>s''. start_storage_file_upload quiet_env ''a.iso'' 3 (snd (complete_upload sync_fails ''upload_x'' claimed_state)) =
     (Inl ''upload already in progress'', s'')"
proof -
  have r: "reliable quiet_env" by (simp add: reliable_def quiet_env_def)
  have n: "sanitize_filename ''a.iso'' = Inr ''a.iso''" by (simp add: sanitize_filename_def path_components_def starts_with_def)
  let ?err = "''failed to sync upload: upload_x: I/O error''"
  have c: "complete_upload sync_fails ''upload_x'' claimed_state = (Inl ?err, snd (complete_upload sync_fails ''upload_x'' claimed_state))"
    by code_simp
  have "\<exists>s''. start_storage_file_upload quiet_env ''a.iso'' (pu_size claimed_upload) (snd (complete_upload sync_fails ''upload_x'' claimed_state)) =
     (Inl ''upload already in progress'', s'')"
  proof (rule failed_sync_locks_upload [OF n _ _ _ c _ _ r])
    show "up_pending claimed_state = [(''upload_x'', claimed_upload)]" "pu_channel_open claimed_upload"
      "pu_upload_path claimed_upload = images_path (''a.iso'' @ ''.incomplete'')"
      by (simp_all add: claimed_state_def claimed_upload_def)
    show "fst (disk_size sync_fails (pu_upload_path claimed_upload) claimed_state) = Inr 0" by code_simp
    show "fst (flush_and_sync sync_fails ''upload_x'' claimed_upload (snd (disk_size sync_fails (pu_upload_path claimed_upload) claimed_state))) = Inl ?err"
      by code_simp
    show "\<not> file_exists (images_path ''a.iso'') (snd (complete_upload sync_fails ''upload_x'' claimed_state))" by code_simp
  qed
  then show ?thesis by (simp add: claimed_upload_def)
qed

text \<open>
  Whether an upload is in progress is looked up by name and size: while one channel is feeding the
  incomplete file, a start with another size is accepted and opens a second session on the same file,
  and the bytes of both end up in that file.
\<close>

theorem other_size_second_session:
  "let s1 = snd (start_storage_file_upload quiet_env ''a.iso'' 4 (uploads_none 0));
       uid1 = fst (hd (up_pending s1));
       s2 = snd (claim_upload_channel uid1 s1);
       s3 = snd (append_upload_data quiet_env uid1 [1, 1] s2);
       (r, s4) = start_storage_file_upload quiet_env ''a.iso'' 5 s3;
       uid2 = (case r of Inr (_, u) \<Rightarrow> u | Inl _ \<Rightarrow> []);
       s5 = snd (claim_upload_channel uid2 s4);
       s6 = snd (append_upload_data quiet_env uid2 [2, 2] s5);
       s7 = snd (append_upload_data quiet_env uid1 [1, 1] s6);
       s8 = snd (complete_upload quiet_env uid2 s7)
   in \<not> isl r \<and> uid1 \<noteq> uid2 \<and> map (pu_channel_open \<circ> snd) (up_pending s5) = [True, True] \<and>
      file_data (images_path ''a.iso.incomplete'') s8 = [1, 2, 1, 2]"
  by code_simp


lemma flush_and_sync_names:
  "flush_and_sync e uid u s = (r, s') \<Longrightarrow> up_names s' = up_names s"
  by (auto simp: flush_and_sync_def flush_file_def io_try_def put_pending_def append_inode_def split: option.splits prod.splits)

lemma flush_and_sync_paths:
  "flush_and_sync e uid u s = (Inr u1, s') \<Longrightarrow> pu_upload_path u1 = pu_upload_path u \<and> pu_final_path u1 = pu_final_path u"
  by (auto simp: flush_and_sync_def split: option.splits prod.splits)

lemma disk_size_frame: "disk_size e p s = (r, s') \<Longrightarrow> \<exists>w. s' = s\<lparr>up_w := w\<rparr>"
  by (auto simp: disk_size_def io_try_def split: if_splits option.splits prod.splits) (metis up_state.surjective up_state.update_convs(6))+

lemma disk_size_value: "disk_size e p s = (Inr n, s') \<Longrightarrow> n = int (length (file_data p s'))"
  by (auto simp: disk_size_def io_try_def file_exists_def file_data_def split: if_splits option.splits prod.splits)

text \<open>
  C18: However operations fail, a file gets its final name only when the bytes on disk are as many
  as were declared: if completing a session makes the final name appear, the file under it has
  exactly the declared size.
\<close>

theorem published_has_declared_size:
  assumes "hm_get (up_pending s) uid = Some u" "pu_upload_path u \<noteq> pu_final_path u"
    "\<not> file_exists (pu_final_path u) s" "file_exists (pu_final_path u) (snd (complete_upload e uid s))"
  shows "int (length (file_data (pu_final_path u) (snd (complete_upload e uid s)))) = pu_size u"
proof -
  let ?up = "pu_upload_path u" and ?fp = "pu_final_path u"
  obtain r1 s1 where d1: "disk_size e ?up s = (r1, s1)" by (rule prod.exhaust)
  obtain r2 s2 where f: "flush_and_sync e uid u s1 = (r2, s2)" by (rule prod.exhaust)
  obtain r3 s3 where d2: "disk_size e ?up s2 = (r3, s3)" by (rule prod.exhaust)
  have n1: "up_names s1 = up_names s" using disk_size_frame [OF d1] by auto
  have n2: "up_names s2 = up_names s" using flush_and_sync_names [OF f] n1 by simp
  have n3: "up_names s3 = up_names s" using disk_size_frame [OF d2] n2 by auto
  note eqn = complete_upload_def assms(1) d1 f d2
  have absent: "hm_get (up_names s) ?fp = None" using assms(3) by (simp add: file_exists_def)
  show ?thesis
  proof (cases r1; cases r2; cases r3)
    fix d u1 n assume r: "r1 = Inr d" "r2 = Inr u1" "r3 = Inr n"
    have p: "pu_upload_path u1 = ?up" "pu_final_path u1 = ?fp" using flush_and_sync_paths [OF f [unfolded r]] by simp_all
    have n: "n = int (length (file_data ?up s3))" using disk_size_value [OF d2 [unfolded r]] .
    show ?thesis
    proof (cases "n = pu_size u")
      case True
      have e1: "complete_upload e uid s = publish_upload e uid u1 n s3" using True by (simp add: eqn r)
      let ?s4 = "put_pending uid (u1\<lparr>pu_already := n, pu_file := None\<rparr>) s3"
      obtain x s5 where rn: "rename_file e ?up ?fp ?s4 = (x, s5)" by (rule prod.exhaust)
      show ?thesis
      proof (cases x)
        case None
        then obtain i where "hm_get (up_names s3) ?up = Some i" "up_names s5 = hm_insert ?fp i (hm_remove ?up (up_names s3))" "up_data s5 = up_data s3"
          using rn by (auto simp: rename_file_def io_try_def put_pending_def split: option.splits prod.splits)
        with None rn p n True assms(2) show ?thesis unfolding e1
          by (simp add: publish_upload_def Let_def file_data_def inode_data_def)
      next
        case (Some err)
        obtain y s6 where oa: "open_append e False ?up s5 = (y, s6)" by (rule prod.exhaust)
        have "up_names s5 = up_names s"
          using rn Some n3 by (auto simp: rename_file_def io_try_def put_pending_def split: option.splits prod.splits)
        then have "up_names s6 = up_names s"
          using oa by (auto simp: open_append_def io_try_def split: option.splits prod.splits)
        then have "\<not> file_exists ?fp (snd (complete_upload e uid s))"
          unfolding e1 using Some rn p oa absent \<open>up_names s5 = up_names s\<close>
          by (cases y) (simp_all add: publish_upload_def Let_def file_exists_def put_pending_def)
        with assms(4) show ?thesis by simp
      qed
    next
      case False
      then have "\<not> file_exists ?fp (snd (complete_upload e uid s))"
        using n3 absent by (auto simp: eqn r io_try_def file_exists_def split: prod.splits)
      with assms(4) show ?thesis by simp
    qed
  qed (use assms(4) n1 n2 n3 absent in \<open>simp_all add: eqn file_exists_def put_pending_def\<close>)
qed

theorem published_has_declared_size_witness:
  "int (length (file_data (images_path ''a.iso'') (snd (complete_upload quiet_env ''upload_x''
     (claimed_state\<lparr>up_data := [(0, [7, 8, 9])]\<rparr>))))) = pu_size claimed_upload"
proof -
  let ?s = "claimed_state\<lparr>up_data := [(0, [7, 8, 9])]\<rparr>"
  have fp: "pu_final_path claimed_upload = images_path ''a.iso''" by (simp add: claimed_upload_def)
  have "int (length (file_data (pu_final_path claimed_upload) (snd (complete_upload quiet_env ''upload_x'' ?s)))) = pu_size claimed_upload"
  proof (rule published_has_declared_size)
    show "hm_get (up_pending ?s) ''upload_x'' = Some claimed_upload" by (simp add: claimed_state_def)
    show "pu_upload_path claimed_upload \<noteq> pu_final_path claimed_upload" by code_simp
    show "\<not> file_exists (pu_final_path claimed_upload) ?s" by code_simp
    show "file_exists (pu_final_path claimed_upload) (snd (complete_upload quiet_env ''upload_x'' ?s))" by code_simp
  qed
  then show ?thesis unfolding fp .
qed

end
