(* ===== verification/Virtual_Media.thy ===== *)
theory Virtual_Media
  imports Usb_Facade Image_Device Image_Upload
begin

text \<open>
  Presenting images to the host: the mount operations of \<^verbatim>\<open>hardware/usb/storage.rs\<close> for virtual media
  (over HTTP, from the browser, from storage) and for the file-transfer drive, over the mass-storage
  queries of the sidecar (\<^verbatim>\<open>services/usb.rs\<close>, \<^verbatim>\<open>usb_devices/src/control/zenoh.rs\<close>) and the loop mount
  of \<^verbatim>\<open>hardware/fs_remote.rs\<close>. The sidecar is the model of \<open>Usb_Control\<close>; \<open>md_bus\<close> says what becomes of
  each query (an answer arrives when the list is used up), \<open>md_cmd\<close> how each system command ends
  (\<open>None\<close>: it succeeds).
\<close>

section \<open>State\<close>

datatype media_source = WebRTC | HTTP | Storage
datatype media_mode = MediaCDROM | MediaDisk

record media_info =
  mi_source :: media_source
  mi_mode :: media_mode
  mi_filename :: "string option"
  mi_url :: "string option"
  mi_size :: int

datatype ft_target = FtNone | FtKvm | FtRemoteUsb

datatype media_reader = HttpReader string int | DiskReader int

record remote_fs =
  rf_loop_device :: "string option"
  rf_mounted :: bool

record 'w media_state =
  md_usb :: bool
  md_sidecar :: "'w sidecar"
  md_bus :: "delivery list"
  md_cmd :: "string option list"
  md_media :: "media_info option"
  md_reader :: "media_reader option"
  md_nbd :: bool
  md_rfs :: remote_fs
  md_ft_config :: ft_target
  md_ft_uploads :: "string list"

record 'w media_env =
  mv_usb :: "'w usb_env"
  mv_stat :: "string \<Rightarrow> (string, int) result"
  mv_head :: "string \<Rightarrow> (string, string) result"
  mv_probe :: "string \<Rightarrow> (string, string \<times> http_response) result"

definition command :: "'w media_state \<Rightarrow> string option \<times> 'w media_state" where
  "command s = (case md_cmd s of [] \<Rightarrow> (None, s) | r # rs \<Rightarrow> (r, s\<lparr>md_cmd := rs\<rparr>))"

definition next_delivery :: "'w media_state \<Rightarrow> delivery \<times> 'w media_state" where
  "next_delivery s = (case md_bus s of [] \<Rightarrow> (Answered, s) | d # ds \<Rightarrow> (d, s\<lparr>md_bus := ds\<rparr>))"

section \<open>Mass-storage queries\<close>

definition control_ums_control ::
  "'w usb_env \<Rightarrow> ums_control_request \<Rightarrow> 'w sidecar \<Rightarrow> (usb_error, ums_control_response) result \<times> 'w sidecar" where
  "control_ums_control e req sc =
     (case sc of
        None \<Rightarrow> (Inl (InvalidArgument ''control service stopped''), None)
      | Some st \<Rightarrow>
          (case control_step e (UmsControl req) st of
             Some (RUms r, st') \<Rightarrow> (Inr r, Some st')
           | _ \<Rightarrow> (Inl (InvalidArgument ''control ums reply dropped''), None)))"

definition handle_ums_control_query ::
  "'w usb_env \<Rightarrow> (string, ums_control_request) result option \<Rightarrow> 'w sidecar \<Rightarrow> ums_control_response \<times> 'w sidecar" where
  "handle_ums_control_query e payload sc =
     (case payload of
        None \<Rightarrow> (ums_resp_err ''empty query payload'', sc)
      | Some (Inl err) \<Rightarrow> (ums_resp_err (''invalid UmsControlRequest: '' @ err), sc)
      | Some (Inr req) \<Rightarrow>
          (case control_ums_control e req sc of
             (Inr resp, sc') \<Rightarrow> (resp, sc')
           | (Inl err, sc') \<Rightarrow> (ums_resp_err (usb_error_to_string err), sc')))"

definition send_ums_control ::
  "'w media_env \<Rightarrow> ums_control_request \<Rightarrow> 'w media_state \<Rightarrow> (string, ums_control_response) result \<times> 'w media_state" where
  "send_ums_control e req s =
     (case next_delivery s of (dv, s1) \<Rightarrow>
      case dv of
        QueryLost err \<Rightarrow> (Inl err, s1)
      | ReplyLost err \<Rightarrow> (Inl err, s1\<lparr>md_sidecar := snd (handle_ums_control_query (mv_usb e) (Some (Inr req)) (md_sidecar s1))\<rparr>)
      | Answered \<Rightarrow>
          (case handle_ums_control_query (mv_usb e) (Some (Inr req)) (md_sidecar s1) of
             (resp, sc) \<Rightarrow> (Inr resp, s1\<lparr>md_sidecar := sc\<rparr>)))"

definition ums_control ::
  "'w media_env \<Rightarrow> ums_control_request \<Rightarrow> 'w media_state \<Rightarrow> (string, unit) result \<times> 'w media_state" where
  "ums_control e req s =
     (case send_ums_control e req s of
        (Inl err, s1) \<Rightarrow> (Inl err, s1)
      | (Inr resp, s1) \<Rightarrow>
          if us_ok resp then (Inr (), s1)
          else (Inl (''ums_control failed: '' @ (case us_error resp of Some m \<Rightarrow> m | None \<Rightarrow> [])), s1))"

definition vm_type_of :: "media_mode \<Rightarrow> int" where
  "vm_type_of m = (case m of MediaCDROM \<Rightarrow> 1 | MediaDisk \<Rightarrow> 2)"

definition ums_mount_vm :: "'w media_env \<Rightarrow> string \<Rightarrow> media_mode \<Rightarrow> 'w media_state \<Rightarrow> (string, unit) result \<times> 'w media_state" where
  "ums_mount_vm e path mode s =
     ums_control e \<lparr>ur_operation = 1, ur_target = 1, ur_image_path = path, ur_vm_type = vm_type_of mode\<rparr> s"

definition ums_unmount_vm :: "'w media_env \<Rightarrow> 'w media_state \<Rightarrow> (string, unit) result \<times> 'w media_state" where
  "ums_unmount_vm e s = ums_control e \<lparr>ur_operation = 2, ur_target = 1, ur_image_path = [], ur_vm_type = 1\<rparr> s"

definition ums_mount_ft :: "'w media_env \<Rightarrow> string \<Rightarrow> 'w media_state \<Rightarrow> (string, unit) result \<times> 'w media_state" where
  "ums_mount_ft e path s = ums_control e \<lparr>ur_operation = 1, ur_target = 2, ur_image_path = path, ur_vm_type = 1\<rparr> s"

definition ums_unmount_ft :: "'w media_env \<Rightarrow> 'w media_state \<Rightarrow> (string, unit) result \<times> 'w media_state" where
  "ums_unmount_ft e s = ums_control e \<lparr>ur_operation = 2, ur_target = 2, ur_image_path = [], ur_vm_type = 1\<rparr> s"

definition ums_switch_vm_mode :: "'w media_env \<Rightarrow> media_mode \<Rightarrow> 'w media_state \<Rightarrow> (string, unit) result \<times> 'w media_state" where
  "ums_switch_vm_mode e mode s =
     ums_control e \<lparr>ur_operation = 3, ur_target = 1, ur_image_path = [], ur_vm_type = vm_type_of mode\<rparr> s"

definition ums_get_mount_state ::
  "'w media_env \<Rightarrow> int \<Rightarrow> 'w media_state \<Rightarrow> (string, ums_control_response) result \<times> 'w media_state" where
  "ums_get_mount_state e target s =
     send_ums_control e \<lparr>ur_operation = 4, ur_target = target, ur_image_path = [], ur_vm_type = 1\<rparr> s"

definition NO_USB :: string where "NO_USB = ''USB sidecar not available''"

definition get_vm_mode_from_sidecar :: "'w media_env \<Rightarrow> 'w media_state \<Rightarrow> (string, media_mode) result \<times> 'w media_state" where
  "get_vm_mode_from_sidecar e s =
     (if \<not> md_usb s then (Inl NO_USB, s)
      else case ums_get_mount_state e 1 s of
             (Inl err, s1) \<Rightarrow> (Inl err, s1)
           | (Inr st, s1) \<Rightarrow> (Inr (if us_vm_type st = 2 then MediaDisk else MediaCDROM), s1))"

text \<open>The paths and the mode for the next configuration of the sidecar; a failed query counts as nothing mounted.\<close>

definition resolve_ums_paths_for_apply :: "'w media_env \<Rightarrow> 'w media_state \<Rightarrow> (string, string \<times> string \<times> int) result \<times> 'w media_state" where
  "resolve_ums_paths_for_apply e s =
     (if \<not> md_usb s then (Inl NO_USB, s)
      else case ums_get_mount_state e 1 s of (rv, s1) \<Rightarrow>
           case ums_get_mount_state e 2 s1 of (rf, s2) \<Rightarrow>
             let vm = (case rv of Inr r \<Rightarrow> r | Inl err \<Rightarrow> (ums_resp_err err)\<lparr>us_vm_type := 1\<rparr>);
                 ft = (case rf of Inr r \<Rightarrow> r | Inl err \<Rightarrow> ums_resp_err err)
             in (Inr (if us_mounted vm then us_mounted_path vm else [], if us_mounted ft then us_mounted_path ft else [],
                      if us_vm_type vm \<in> {0, 1, 2} then us_vm_type vm else 1), s2))"

section \<open>Virtual media\<close>

datatype usb_target = Usb0Lun0 | Usb1Lun0

definition is_ums_unmount_path :: "string \<Rightarrow> bool" where
  "is_ums_unmount_path p = (p = [] \<or> p = NEWLINE)"

definition get_mass_storage_image :: "'w media_env \<Rightarrow> usb_target \<Rightarrow> 'w media_state \<Rightarrow> (string, string option) result \<times> 'w media_state" where
  "get_mass_storage_image e t s =
     (if \<not> md_usb s then (Inl NO_USB, s)
      else case ums_get_mount_state e (case t of Usb0Lun0 \<Rightarrow> 1 | Usb1Lun0 \<Rightarrow> 2) s of
             (Inl err, s1) \<Rightarrow> (Inl err, s1)
           | (Inr st, s1) \<Rightarrow> (Inr (if us_mounted st \<and> us_mounted_path st \<noteq> [] then Some (us_mounted_path st) else None), s1))"

definition set_mass_storage_image :: "'w media_env \<Rightarrow> string \<Rightarrow> usb_target \<Rightarrow> 'w media_state \<Rightarrow> (string, unit) result \<times> 'w media_state" where
  "set_mass_storage_image e path t s =
     (if \<not> md_usb s then (Inl NO_USB, s)
      else case t of
        Usb0Lun0 \<Rightarrow>
          if is_ums_unmount_path path then ums_unmount_vm e s
          else (case md_media s of
                  Some i \<Rightarrow> ums_mount_vm e path (mi_mode i) s
                | None \<Rightarrow>
                    (case get_vm_mode_from_sidecar e s of
                       (Inl err, s1) \<Rightarrow> (Inl err, s1)
                     | (Inr m, s1) \<Rightarrow> ums_mount_vm e path m s1))
      | Usb1Lun0 \<Rightarrow> if is_ums_unmount_path path then ums_unmount_ft e s else ums_mount_ft e path s)"

definition set_mass_storage_mode :: "'w media_env \<Rightarrow> bool \<Rightarrow> usb_target \<Rightarrow> 'w media_state \<Rightarrow> (string, unit) result \<times> 'w media_state" where
  "set_mass_storage_mode e cdrom t s =
     (case t of
        Usb0Lun0 \<Rightarrow> if \<not> md_usb s then (Inl NO_USB, s) else ums_switch_vm_mode e (if cdrom then MediaCDROM else MediaDisk) s
      | Usb1Lun0 \<Rightarrow> (Inr (), s))"

text \<open>Starting the block device is one command, and so is waiting for the kernel to take it up.\<close>

definition start_nbd :: "'w media_state \<Rightarrow> (string, unit) result \<times> 'w media_state" where
  "start_nbd s =
     (if md_nbd s then (Inr (), s)
      else case command s of
             (Some err, s1) \<Rightarrow> (Inl (''failed to start nbd device: '' @ err), s1)
           | (None, s1) \<Rightarrow> (Inr (), s1\<lparr>md_nbd := True\<rparr>))"

definition stop_nbd :: "'w media_state \<Rightarrow> 'w media_state" where
  "stop_nbd s = s\<lparr>md_nbd := False\<rparr>"

definition wait_nbd_ready :: "'w media_state \<Rightarrow> (string, unit) result \<times> 'w media_state" where
  "wait_nbd_ready s = (case command s of (Some err, s1) \<Rightarrow> (Inl (''nbd ready timeout: '' @ err), s1) | (None, s1) \<Rightarrow> (Inr (), s1))"

definition ensure_images_folder :: "'w media_state \<Rightarrow> (string, unit) result \<times> 'w media_state" where
  "ensure_images_folder s =
     (case command s of (Some err, s1) \<Rightarrow> (Inl (''failed to create images folder: '' @ err), s1) | (None, s1) \<Rightarrow> (Inr (), s1))"

definition http_reader_new :: "'w media_env \<Rightarrow> string \<Rightarrow> (string, string \<times> int) result" where
  "http_reader_new e url =
     (if \<not> (starts_with url ''http://'' \<or> starts_with url ''https://'') then Inl ''unsupported url scheme''
      else let url1 = (case mv_head e url of Inr u \<Rightarrow> u | Inl _ \<Rightarrow> url) in
      case mv_probe e url1 of
        Inl err \<Rightarrow> Inl (''range probe GET failed: '' @ err)
      | Inr (url2, resp) \<Rightarrow>
          let has_cr = hp_content_range resp \<noteq> None; status = hp_status resp in
          if \<not> (status = 206 \<or> (200 \<le> status \<and> status < 300 \<and> has_cr))
          then Inl (''range probe: HTTP '' @ nat_to_dec status @ '' (need 206 or 2xx with Content-Range); byte ranges required for NBD'')
          else case Option.bind (hp_content_range resp) parse_content_range of
                 Some (start, end', tot) \<Rightarrow>
                   if start = 0 \<and> end' = 0
                   then (case hp_body_error resp of Some err \<Rightarrow> Inl (''range probe: read body: '' @ err) | None \<Rightarrow> Inr (url2, tot))
                   else Inl (''range probe: missing or invalid Content-Range header (got HTTP '' @ nat_to_dec status @ '')'')
               | None \<Rightarrow> Inl (''range probe: missing or invalid Content-Range header (got HTTP '' @ nat_to_dec status @ '')''))"

record url_check_result =
  uc_usable :: bool
  uc_reason :: "string option"
  uc_size :: int

definition check_mount_url :: "'w media_env \<Rightarrow> string \<Rightarrow> url_check_result" where
  "check_mount_url e url =
     (if \<not> (starts_with url ''http://'' \<or> starts_with url ''https://'')
      then \<lparr>uc_usable = False, uc_reason = Some ''unsupported scheme'', uc_size = 0\<rparr>
      else case http_reader_new e url of
             Inr (_, n) \<Rightarrow> \<lparr>uc_usable = True, uc_reason = None, uc_size = n\<rparr>
           | Inl err \<Rightarrow> \<lparr>uc_usable = False, uc_reason = Some err, uc_size = 0\<rparr>)"

text \<open>From the point where the medium is recorded: the reader, the block device, and the image for the host.\<close>

definition expose_nbd :: "'w media_env \<Rightarrow> media_reader \<Rightarrow> 'w media_state \<Rightarrow> (string, unit) result \<times> 'w media_state" where
  "expose_nbd e rd s =
     (case start_nbd (s\<lparr>md_reader := Some rd\<rparr>) of
        (Inl err, s1) \<Rightarrow> (Inl err, s1)
      | (Inr _, s1) \<Rightarrow>
          (case wait_nbd_ready s1 of
             (Inl err, s2) \<Rightarrow> (Inl err, s2)
           | (Inr _, s2) \<Rightarrow>
               (case set_mass_storage_image e ''/dev/nbd0'' Usb0Lun0 s2 of
                  (Inl err, s3) \<Rightarrow> (Inl (''failed to set mass storage image to nbd0: '' @ err), s3)
                | (Inr _, s3) \<Rightarrow> (Inr (), s3))))"

definition ALREADY_MOUNTED :: string where "ALREADY_MOUNTED = ''another virtual media is already mounted''"

definition mount_with_http :: "'w media_env \<Rightarrow> string \<Rightarrow> media_mode \<Rightarrow> 'w media_state \<Rightarrow> (string, unit) result \<times> 'w media_state" where
  "mount_with_http e url mode s =
     (case ensure_images_folder s of
        (Inl err, s1) \<Rightarrow> (Inl err, s1)
      | (Inr _, s1) \<Rightarrow>
      (case set_mass_storage_mode e (mode = MediaCDROM) Usb0Lun0 s1 of
        (Inl err, s2) \<Rightarrow> (Inl err, s2)
      | (Inr _, s2) \<Rightarrow>
      (case http_reader_new e url of
        Inl err \<Rightarrow> (Inl err, s2)
      | Inr (url', n) \<Rightarrow>
          if md_media s2 \<noteq> None then (Inl ALREADY_MOUNTED, s2)
          else expose_nbd e (HttpReader url' n)
                 (s2\<lparr>md_media := Some \<lparr>mi_source = HTTP, mi_mode = mode, mi_filename = None, mi_url = Some url, mi_size = n\<rparr>\<rparr>))))"

definition mount_with_webrtc ::
  "'w media_env \<Rightarrow> string \<Rightarrow> int \<Rightarrow> media_mode \<Rightarrow> 'w media_state \<Rightarrow> (string, unit) result \<times> 'w media_state" where
  "mount_with_webrtc e filename n mode s =
     (case set_mass_storage_mode e (mode = MediaCDROM) Usb0Lun0 s of
        (Inl err, s1) \<Rightarrow> (Inl (''failed to set mass storage mode: '' @ err), s1)
      | (Inr _, s1) \<Rightarrow>
          if md_media s1 \<noteq> None then (Inl ALREADY_MOUNTED, s1)
          else expose_nbd e (DiskReader n)
                 (s1\<lparr>md_media := Some \<lparr>mi_source = WebRTC, mi_mode = mode, mi_filename = Some filename, mi_url = None, mi_size = n\<rparr>\<rparr>))"

definition mount_with_storage :: "'w media_env \<Rightarrow> string \<Rightarrow> media_mode \<Rightarrow> 'w media_state \<Rightarrow> (string, unit) result \<times> 'w media_state" where
  "mount_with_storage e filename mode s =
     (case sanitize_filename filename of
        Inl err \<Rightarrow> (Inl err, s)
      | Inr name \<Rightarrow>
      (case ensure_images_folder s of
        (Inl err, s1) \<Rightarrow> (Inl err, s1)
      | (Inr _, s1) \<Rightarrow>
      (case mv_stat e (images_path name) of
        Inl err \<Rightarrow> (Inl (''failed to stat file: '' @ name @ '': '' @ err), s1)
      | Inr n \<Rightarrow>
      (case set_mass_storage_mode e (mode = MediaCDROM) Usb0Lun0 s1 of
        (Inl err, s2) \<Rightarrow> (Inl (''failed to set mass storage mode: '' @ err), s2)
      | (Inr _, s2) \<Rightarrow>
      (case set_mass_storage_image e (images_path name) Usb0Lun0 s2 of
        (Inl err, s3) \<Rightarrow> (Inl (''failed to set mass storage image: '' @ err), s3)
      | (Inr _, s3) \<Rightarrow>
          (Inr (), s3\<lparr>md_media := Some \<lparr>mi_source = Storage, mi_mode = mode, mi_filename = Some name, mi_url = None, mi_size = n\<rparr>\<rparr>))))))"

definition unmount_image :: "'w media_env \<Rightarrow> 'w media_state \<Rightarrow> (string, unit) result \<times> 'w media_state" where
  "unmount_image e s =
     (let s1 = (if md_usb s then snd (ums_unmount_vm e s) else s)
      in (Inr (), (stop_nbd s1)\<lparr>md_media := None, md_reader := None\<rparr>))"

section \<open>The file-transfer drive\<close>

definition FT_IMAGE :: string where "FT_IMAGE = ''/userdata/arkkvm/imgs/ft_disk.img''"

definition get_file_transfer_state :: "'w media_env \<Rightarrow> 'w media_state \<Rightarrow> ft_target \<times> 'w media_state" where
  "get_file_transfer_state e s =
     (if rf_mounted (md_rfs s) then (FtKvm, s)
      else if \<not> md_usb s then (FtNone, s)
      else case ums_get_mount_state e 2 s of
             (Inl _, s1) \<Rightarrow> (FtNone, s1)
           | (Inr ft, s1) \<Rightarrow> (if us_mounted ft \<and> us_mounted_path ft = FT_IMAGE then FtRemoteUsb else FtNone, s1))"

text \<open>
  The loop mount: create the mount point, ask whether it is in use, find a loop device and attach the
  image (two commands), mount it. A command that fails ends the operation where it stands.
\<close>

definition is_mount_point_in_use :: "bool \<Rightarrow> 'w media_state \<Rightarrow> (string, bool) result \<times> 'w media_state" where
  "is_mount_point_in_use in_use s =
     (case command s of (Some err, s1) \<Rightarrow> (Inl (''Failed to execute mountpoint command: '' @ err), s1) | (None, s1) \<Rightarrow> (Inr in_use, s1))"

definition setup_loop_device :: "string \<Rightarrow> 'w media_state \<Rightarrow> (string, string) result \<times> 'w media_state" where
  "setup_loop_device dev s =
     (case command s of
        (Some err, s1) \<Rightarrow> (Inl (''Failed to find available loop device: '' @ err), s1)
      | (None, s1) \<Rightarrow>
          (case command s1 of
             (Some err, s2) \<Rightarrow> (Inl (''Failed to associate image with loop device: '' @ err), s2)
           | (None, s2) \<Rightarrow> (Inr dev, s2)))"

definition mount_loop_device :: "'w media_state \<Rightarrow> (string, unit) result \<times> 'w media_state" where
  "mount_loop_device s =
     (case command s of (Some err, s1) \<Rightarrow> (Inl (''Failed to mount loop device: '' @ err), s1) | (None, s1) \<Rightarrow> (Inr (), s1))"

definition rfs_mount :: "'w media_env \<Rightarrow> bool \<Rightarrow> string \<Rightarrow> 'w media_state \<Rightarrow> (string, unit) result \<times> 'w media_state" where
  "rfs_mount e in_use dev s =
     (if rf_mounted (md_rfs s) then (Inr (), s)
      else if \<not> is_ok (mv_stat e FT_IMAGE) then (Inl ''Image file does not exist'', s)
      else case command s of
        (Some err, s1) \<Rightarrow> (Inl (''Failed to create mount point: '' @ err), s1)
      | (None, s1) \<Rightarrow>
      (case is_mount_point_in_use in_use s1 of
        (Inl err, s2) \<Rightarrow> (Inl err, s2)
      | (Inr used, s2) \<Rightarrow>
          if used then (Inl ''Mount point is already in use'', s2)
          else (case setup_loop_device dev s2 of
            (Inl err, s3) \<Rightarrow> (Inl err, s3)
          | (Inr d, s3) \<Rightarrow>
              (case mount_loop_device (s3\<lparr>md_rfs := (md_rfs s3)\<lparr>rf_loop_device := Some d\<rparr>\<rparr>) of
                 (Inl err, s4) \<Rightarrow> (Inl err, s4)
               | (Inr _, s4) \<Rightarrow> (Inr (), s4\<lparr>md_rfs := (md_rfs s4)\<lparr>rf_mounted := True\<rparr>\<rparr>)))))"

definition rfs_unmount :: "'w media_state \<Rightarrow> (string, unit) result \<times> 'w media_state" where
  "rfs_unmount s =
     (if \<not> rf_mounted (md_rfs s) then (Inr (), s)
      else case command s of
        (Some err, s1) \<Rightarrow> (Inl (''Failed to unmount filesystem error: '' @ err), s1)
      | (None, s1) \<Rightarrow>
          (case (if rf_loop_device (md_rfs s1) = None then (None, s1) else command s1) of
             (Some err, s2) \<Rightarrow> (Inl (''Failed to cleanup loop device: '' @ err), s2)
           | (None, s2) \<Rightarrow> (Inr (), s2\<lparr>md_rfs := \<lparr>rf_loop_device = None, rf_mounted = False\<rparr>\<rparr>)))"

text \<open>Uploads to the drive that are under way are closed before it is unmounted, whether that succeeds or not.\<close>

definition unload_with_file_img :: "'w media_state \<Rightarrow> (string, unit) result \<times> 'w media_state" where
  "unload_with_file_img s =
     (case rfs_unmount (s\<lparr>md_ft_uploads := []\<rparr>) of
        (Inl err, s1) \<Rightarrow> (Inl (''File Tranfser Unloading unmount fatfs error: '' @ err), s1)
      | (Inr _, s1) \<Rightarrow> (Inr (), s1))"

definition set_ft_mount_target :: "ft_target \<Rightarrow> 'w media_state \<Rightarrow> (string, unit) result \<times> 'w media_state" where
  "set_ft_mount_target t s =
     (case command s of (Some err, s1) \<Rightarrow> (Inl err, s1\<lparr>md_ft_config := t\<rparr>) | (None, s1) \<Rightarrow> (Inr (), s1\<lparr>md_ft_config := t\<rparr>))"

definition unmount_file_img :: "'w media_env \<Rightarrow> 'w media_state \<Rightarrow> (string, unit) result \<times> 'w media_state" where
  "unmount_file_img e s =
     (case get_file_transfer_state e s of
        (FtNone, s1) \<Rightarrow> (Inr (), s1)
      | (t, s1) \<Rightarrow>
          (case (if t = FtKvm then unload_with_file_img s1
                 else if md_usb s1 then ums_unmount_ft e s1 else (Inl NO_USB, s1)) of
             (Inl err, s2) \<Rightarrow> (Inl err, s2)
           | (Inr _, s2) \<Rightarrow> set_ft_mount_target FtNone s2))"

definition mount_with_file_img :: "'w media_env \<Rightarrow> 'w media_state \<Rightarrow> (string, unit) result \<times> 'w media_state" where
  "mount_with_file_img e s =
     (case get_file_transfer_state e s of (t, s1) \<Rightarrow>
      case t of
        FtRemoteUsb \<Rightarrow> (Inr (), s1)
      | _ \<Rightarrow>
          (case (if t = FtKvm then unload_with_file_img s1 else (Inr (), s1)) of
             (Inl err, s2) \<Rightarrow> (Inl err, s2)
           | (Inr _, s2) \<Rightarrow>
               (case mv_stat e FT_IMAGE of
                  Inl err \<Rightarrow> (Inl ''image file not found'', s2)
                | Inr _ \<Rightarrow>
                    (case set_mass_storage_mode e False Usb1Lun0 s2 of
                       (Inl err, s3) \<Rightarrow> (Inl (''failed to set mass storage mode: '' @ err), s3)
                     | (Inr _, s3) \<Rightarrow>
                    (case set_mass_storage_image e FT_IMAGE Usb1Lun0 s3 of
                       (Inl err, s4) \<Rightarrow> (Inl (''failed to set mass storage image: '' @ err), s4)
                     | (Inr _, s4) \<Rightarrow> set_ft_mount_target FtRemoteUsb s4)))))"

definition load_with_file_img :: "'w media_env \<Rightarrow> bool \<Rightarrow> string \<Rightarrow> 'w media_state \<Rightarrow> (string, unit) result \<times> 'w media_state" where
  "load_with_file_img e in_use dev s =
     (case get_file_transfer_state e s of (t, s1) \<Rightarrow>
      case t of
        FtKvm \<Rightarrow> (Inr (), s1)
      | _ \<Rightarrow>
          (case (if t = FtRemoteUsb then unmount_file_img e s1 else (Inr (), s1)) of
             (Inl err, s2) \<Rightarrow> (Inl err, s2)
           | (Inr _, s2) \<Rightarrow>
               (case rfs_mount e in_use dev s2 of
                  (Inl err, s3) \<Rightarrow> (Inl (''Failed to mount file system: '' @ err), s3)
                | (Inr _, s3) \<Rightarrow> set_ft_mount_target FtKvm s3)))"


section \<open>One side at a time\<close>

text \<open>
  The drive's image is exposed when the sidecar has given it to the host. When every query is
  answered, asking for the state tells where it is and changes nothing.
\<close>

definition ft_exposed :: "'w media_state \<Rightarrow> bool" where
  "ft_exposed s =
     (case md_sidecar s of
        Some (_, m, _) \<Rightarrow> (case sv_ums1 (mg_services m) of Some h \<Rightarrow> um_file_path h = Some FT_IMAGE | None \<Rightarrow> False)
      | None \<Rightarrow> False)"

definition answered :: "'w media_state \<Rightarrow> bool" where
  "answered s = (md_usb s \<and> md_bus s = [])"

lemma command_frame:
  "md_sidecar (snd (command s)) = md_sidecar s" "md_usb (snd (command s)) = md_usb s" "md_bus (snd (command s)) = md_bus s"
  "md_rfs (snd (command s)) = md_rfs s" "md_media (snd (command s)) = md_media s"
  by (simp_all add: command_def split: list.split)

lemma ft_exposed_frame:
  "md_sidecar s' = md_sidecar s \<Longrightarrow> ft_exposed s' = ft_exposed s"
  by (simp add: ft_exposed_def)

lemma ums_control_sidecar:
  "control_step e (UmsControl req) (li, m, w) = (case handle_ums_control e req (m, w) of (r, s') \<Rightarrow> Some (RUms r, li, s'))"
  by (simp add: control_step_def)

lemma get_ft_state_answered:
  assumes "answered s"
  shows "get_file_transfer_state e s =
    (if rf_mounted (md_rfs s) then FtKvm else if ft_exposed s then FtRemoteUsb else FtNone, s)"
proof -
  let ?req = "\<lparr>ur_operation = 4, ur_target = 2, ur_image_path = [], ur_vm_type = 1\<rparr> :: ums_control_request"
  have h: "handle_ums_control (mv_usb e) ?req t = (ums_ft_mount_state (fst t), t)" for t
    by (simp add: handle_ums_control_def ums_operation_from_i32_def ums_target_from_i32_def)
  have ne: "FT_IMAGE \<noteq> []" by (simp add: FT_IMAGE_def)
  show ?thesis
  proof (cases "md_sidecar s")
    case None
    with assms show ?thesis
      by (simp add: get_file_transfer_state_def ums_get_mount_state_def send_ums_control_def next_delivery_def answered_def
          handle_ums_control_query_def control_ums_control_def ft_exposed_def ums_resp_err_def)
  next
    case (Some st)
    obtain li m w where st: "st = (li, m, w)" by (metis prod.exhaust)
    have "ums_get_mount_state e 2 s = (Inr (ums_ft_mount_state m), s)"
      using assms Some st
      by (simp add: ums_get_mount_state_def send_ums_control_def next_delivery_def answered_def
          handle_ums_control_query_def control_ums_control_def ums_control_sidecar h)
    with assms Some st ne show ?thesis
      by (cases "sv_ums1 (mg_services m)")
        (auto simp: get_file_transfer_state_def answered_def ft_exposed_def ums_ft_mount_state_def ums_resp_mount_state_def Let_def
          split: option.split)
  qed
qed

lemma unmount_ums1_cases:
  assumes "unmount_ums1 e (h, w) = (r, h', w')"
  shows "(is_ok r \<longrightarrow> um_file_path h' = None) \<and> (\<not> is_ok r \<longrightarrow> um_file_path h' = um_file_path h)"
proof (cases "um_enabled h \<and> \<not> um_updating h")
  case True
  obtain g h1 where g: "get_lun_file_path e UMS_FT_INQUIRY_STRING (h, w) = (g, h1)" by fastforce
  note k = get_lun_keeps [OF g]
  show ?thesis
  proof (cases g)
    case (Inl err)
    with True g k assms show ?thesis by (auto simp: unmount_ums1_def)
  next
    case (Inr dev)
    obtain x w1 where x: "write_file e dev NEWLINE w = (x, w1)" by fastforce
    from True g k assms Inr x show ?thesis by (cases x) (auto simp: unmount_ums1_def split: if_splits)
  qed
qed (use assms in \<open>auto simp: unmount_ums1_def split: if_splits\<close>)

lemma ums_unmount_ft_effect:
  assumes "answered s" "ums_unmount_ft e s = (r, s')"
  shows "answered s'" "md_rfs s' = md_rfs s" "is_ok r \<Longrightarrow> \<not> ft_exposed s'" "ft_exposed s' \<Longrightarrow> ft_exposed s"
proof -
  let ?req = "\<lparr>ur_operation = 2, ur_target = 2, ur_image_path = [], ur_vm_type = 1\<rparr> :: ums_control_request"
  have h: "handle_ums_control (mv_usb e) ?req t = ums_ft_unmount (mv_usb e) t" for t
    by (simp add: handle_ums_control_def ums_operation_from_i32_def ums_target_from_i32_def)
  have "answered s' \<and> md_rfs s' = md_rfs s \<and> (is_ok r \<longrightarrow> \<not> ft_exposed s') \<and> (ft_exposed s' \<longrightarrow> ft_exposed s)"
  proof (cases "md_sidecar s")
    case None
    with assms show ?thesis
      by (auto simp: ums_unmount_ft_def ums_control_def send_ums_control_def next_delivery_def answered_def
          handle_ums_control_query_def control_ums_control_def ft_exposed_def ums_resp_err_def)
  next
    case (Some st)
    obtain li m w where st: "st = (li, m, w)" by (metis prod.exhaust)
    obtain resp m' w' where u: "ums_ft_unmount (mv_usb e) (m, w) = (resp, m', w')" by (metis prod.exhaust)
    have s': "s' = s\<lparr>md_sidecar := Some (li, m', w')\<rparr>" "is_ok r = us_ok resp"
      using assms Some st u
      by (auto simp: ums_unmount_ft_def ums_control_def send_ums_control_def next_delivery_def answered_def
          handle_ums_control_query_def control_ums_control_def ums_control_sidecar h split: if_splits)
    show ?thesis
    proof (cases "sv_ums1 (mg_services m)")
      case None
      with u s' Some st assms(1) show ?thesis by (auto simp: ums_ft_unmount_def ft_exposed_def answered_def)
    next
      case (Some h1)
      obtain x h2 w2 where x: "unmount_ums1 (ue_fs (mv_usb e)) (h1, w) = (x, h2, w2)" by (metis prod.exhaust)
      note c = unmount_ums1_cases [OF x]
      have "resp = ums_resp_of x" "m' = put_ums1 h2 m" using u Some x by (auto simp: ums_ft_unmount_def)
      with c s' Some st assms(1) \<open>md_sidecar s = Some st\<close> show ?thesis
        by (cases x) (auto simp: ft_exposed_def answered_def put_ums1_def ums_resp_of_def ums_resp_ok_def ums_resp_err_def)
    qed
  qed
  then show "answered s'" "md_rfs s' = md_rfs s" "is_ok r \<Longrightarrow> \<not> ft_exposed s'" "ft_exposed s' \<Longrightarrow> ft_exposed s" by simp_all
qed

lemma ums_mount_ft_frame:
  assumes "answered s" "ums_mount_ft e p s = (r, s')"
  shows "answered s'" "md_rfs s' = md_rfs s"
  using assms
  by (auto simp: ums_mount_ft_def ums_control_def send_ums_control_def next_delivery_def answered_def split: prod.splits if_splits)

lemma command_keeps:
  "command s = (r, s') \<Longrightarrow> ft_exposed s' = ft_exposed s \<and> answered s' = answered s \<and> md_rfs s' = md_rfs s"
  using command_frame [of s] ft_exposed_frame [of s' s] by (auto simp: answered_def)

lemma mount_parts_keep:
  "is_mount_point_in_use b s = (x, s') \<Longrightarrow> ft_exposed s' = ft_exposed s \<and> answered s' = answered s \<and> md_rfs s' = md_rfs s"
  "setup_loop_device dev s = (y, s') \<Longrightarrow> ft_exposed s' = ft_exposed s \<and> answered s' = answered s \<and> md_rfs s' = md_rfs s"
  "mount_loop_device s = (z, s') \<Longrightarrow> ft_exposed s' = ft_exposed s \<and> answered s' = answered s \<and> md_rfs s' = md_rfs s"
  by (auto simp: is_mount_point_in_use_def setup_loop_device_def mount_loop_device_def split: option.splits prod.splits dest!: command_keeps)

lemma rfs_mount_keeps:
  assumes "rfs_mount e in_use dev s = (r, s')"
  shows "ft_exposed s' = ft_exposed s \<and> answered s' = answered s \<and> (is_ok r \<longrightarrow> rf_mounted (md_rfs s')) \<and>
     (\<not> is_ok r \<longrightarrow> rf_mounted (md_rfs s') = rf_mounted (md_rfs s))"
proof (cases "rf_mounted (md_rfs s) \<or> \<not> is_ok (mv_stat e FT_IMAGE)")
  case True
  with assms show ?thesis by (auto simp: rfs_mount_def split: if_splits)
next
  case False
  obtain c1 s1 where c: "command s = (c1, s1)" by (rule prod.exhaust)
  obtain c2 s2 where u: "is_mount_point_in_use in_use s1 = (c2, s2)" by (rule prod.exhaust)
  obtain c3 s3 where l: "setup_loop_device dev s2 = (c3, s3)" by (rule prod.exhaust)
  obtain c4 s4 where m: "mount_loop_device (s3\<lparr>md_rfs := (md_rfs s3)\<lparr>rf_loop_device := Some (projr c3)\<rparr>\<rparr>) = (c4, s4)" by (rule prod.exhaust)
  note k = command_keeps [OF c] mount_parts_keep(1) [OF u] mount_parts_keep(2) [OF l] mount_parts_keep(3) [OF m]
  have f: "ft_exposed (t\<lparr>md_rfs := x\<rparr>) = ft_exposed t" "answered (t\<lparr>md_rfs := x\<rparr>) = answered t" for t :: "'a media_state" and x
    by (simp_all add: ft_exposed_def answered_def)
  show ?thesis
  proof (cases c1)
    case (Some err)
    with assms False c k(1) show ?thesis by (auto simp: rfs_mount_def)
  next
    case None
    show ?thesis
    proof (cases "\<exists>used. c2 = Inr used \<and> \<not> used \<and> is_ok c3")
      case True
      then obtain d where "c2 = Inr False" "c3 = Inr d" by (cases c3) auto
      with assms False None c u l m k f show ?thesis by (cases c4) (auto simp: rfs_mount_def)
    next
      case False
      with assms \<open>\<not> (rf_mounted (md_rfs s) \<or> \<not> is_ok (mv_stat e FT_IMAGE))\<close> None c u l k f show ?thesis
        by (cases c2; cases c3) (auto simp: rfs_mount_def split: if_splits)
    qed
  qed
qed

lemma rfs_unmount_keeps:
  "rfs_unmount s = (r, s') \<Longrightarrow> ft_exposed s' = ft_exposed s \<and> answered s' = answered s \<and> (is_ok r \<longrightarrow> \<not> rf_mounted (md_rfs s')) \<and>
     (rf_mounted (md_rfs s') \<longrightarrow> rf_mounted (md_rfs s))"
  by (auto simp: rfs_unmount_def command_def ft_exposed_def answered_def split: if_splits option.splits prod.splits list.splits)


lemma set_ft_target_keeps:
  "set_ft_mount_target t s = (r, s') \<Longrightarrow> ft_exposed s' = ft_exposed s \<and> answered s' = answered s \<and> md_rfs s' = md_rfs s"
  using command_frame [of s]
  by (auto simp: set_ft_mount_target_def ft_exposed_def answered_def split: prod.splits option.splits)

lemma unload_keeps:
  "unload_with_file_img s = (r, s') \<Longrightarrow> ft_exposed s' = ft_exposed s \<and> answered s' = answered s \<and> (is_ok r \<longrightarrow> \<not> rf_mounted (md_rfs s')) \<and>
     (rf_mounted (md_rfs s') \<longrightarrow> rf_mounted (md_rfs s))"
proof -
  assume a: "unload_with_file_img s = (r, s')"
  obtain x s1 where x: "rfs_unmount (s\<lparr>md_ft_uploads := []\<rparr>) = (x, s1)" by (rule prod.exhaust)
  have "ft_exposed (s\<lparr>md_ft_uploads := []\<rparr>) = ft_exposed s" "answered (s\<lparr>md_ft_uploads := []\<rparr>) = answered s"
    by (simp_all add: ft_exposed_def answered_def)
  with rfs_unmount_keeps [OF x] a x show ?thesis by (cases x) (auto simp: unload_with_file_img_def)
qed

definition one_sided :: "'w media_state \<Rightarrow> bool" where
  "one_sided s = (answered s \<and> \<not> (rf_mounted (md_rfs s) \<and> ft_exposed s))"

lemma unmount_file_img_one_sided:
  assumes "one_sided s" "unmount_file_img e s = (r, s')"
  shows "one_sided s'" "\<not> rf_mounted (md_rfs s) \<Longrightarrow> \<not> rf_mounted (md_rfs s')"
    "is_ok r \<Longrightarrow> \<not> rf_mounted (md_rfs s) \<Longrightarrow> \<not> ft_exposed s'"
proof -
  have an: "answered s" using assms(1) by (simp add: one_sided_def)
  note g = get_ft_state_answered [OF an]
  have "one_sided s' \<and> (\<not> rf_mounted (md_rfs s) \<longrightarrow> \<not> rf_mounted (md_rfs s')) \<and>
      (is_ok r \<longrightarrow> \<not> rf_mounted (md_rfs s) \<longrightarrow> \<not> ft_exposed s')"
  proof (cases "rf_mounted (md_rfs s)")
    case True
    obtain x s1 where u: "unload_with_file_img s = (x, s1)" by (rule prod.exhaust)
    obtain y s2 where t: "set_ft_mount_target FtNone s1 = (y, s2)" by (rule prod.exhaust)
    from assms True g u t unload_keeps [OF u] set_ft_target_keeps [OF t] show ?thesis
      by (cases x) (auto simp: unmount_file_img_def one_sided_def)
  next
    case False
    obtain x s1 where u: "ums_unmount_ft e s = (x, s1)" by (rule prod.exhaust)
    obtain y s2 where t: "set_ft_mount_target FtNone s1 = (y, s2)" by (rule prod.exhaust)
    from assms False g u t ums_unmount_ft_effect [OF an u] set_ft_target_keeps [OF t] an show ?thesis
      by (cases "ft_exposed s"; cases x) (auto simp: unmount_file_img_def one_sided_def answered_def)
  qed
  then show "one_sided s'" "\<not> rf_mounted (md_rfs s) \<Longrightarrow> \<not> rf_mounted (md_rfs s')"
    "is_ok r \<Longrightarrow> \<not> rf_mounted (md_rfs s) \<Longrightarrow> \<not> ft_exposed s'" by simp_all
qed

lemma load_one_sided:
  assumes "one_sided s" "load_with_file_img e in_use dev s = (r, s')"
  shows "one_sided s'"
proof -
  have an: "answered s" using assms(1) by (simp add: one_sided_def)
  note g = get_ft_state_answered [OF an]
  show ?thesis
  proof (cases "rf_mounted (md_rfs s)")
    case True
    with assms g show ?thesis by (auto simp: load_with_file_img_def)
  next
    case nm: False
    obtain x s1 where u: "(if ft_exposed s then unmount_file_img e s else (Inr (), s)) = (x, s1)" by (rule prod.exhaust)
    have s1: "one_sided s1" "\<not> rf_mounted (md_rfs s1)" "is_ok x \<Longrightarrow> \<not> ft_exposed s1"
      using u assms(1) nm unmount_file_img_one_sided [OF assms(1), of e x s1] by (auto split: if_splits)
    obtain y s2 where m: "rfs_mount e in_use dev s1 = (y, s2)" by (rule prod.exhaust)
    obtain z s3 where t: "set_ft_mount_target FtKvm s2 = (z, s3)" by (rule prod.exhaust)
    have "load_with_file_img e in_use dev s =
        (case (x, s1) of (Inl err, s2) \<Rightarrow> (Inl err, s2)
         | (Inr _, s2) \<Rightarrow> (case rfs_mount e in_use dev s2 of
             (Inl err, s3) \<Rightarrow> (Inl (''Failed to mount file system: '' @ err), s3) | (Inr _, s3) \<Rightarrow> set_ft_mount_target FtKvm s3))"
      using g nm u by (auto simp: load_with_file_img_def)
    with assms(2) s1 m t rfs_mount_keeps [OF m] set_ft_target_keeps [OF t] show ?thesis
      by (cases x; cases y) (auto simp: one_sided_def)
  qed
qed

lemma mount_one_sided:
  assumes "one_sided s" "mount_with_file_img e s = (r, s')"
  shows "one_sided s'"
proof -
  have an: "answered s" using assms(1) by (simp add: one_sided_def)
  note g = get_ft_state_answered [OF an]
  show ?thesis
  proof (cases "\<not> rf_mounted (md_rfs s) \<and> ft_exposed s")
    case True
    with assms g show ?thesis by (auto simp: mount_with_file_img_def)
  next
    case False
    obtain x s1 where u: "(if rf_mounted (md_rfs s) then unload_with_file_img s else (Inr (), s)) = (x, s1)" by (rule prod.exhaust)
    have s1: "one_sided s1" "answered s1" "is_ok x \<Longrightarrow> \<not> rf_mounted (md_rfs s1)"
      using u assms(1) False unload_keeps [of s x s1] by (auto simp: one_sided_def split: if_splits)
    have ip: "\<not> is_ums_unmount_path FT_IMAGE" by (simp add: is_ums_unmount_path_def FT_IMAGE_def NEWLINE_def)
    obtain y s2 where m: "ums_mount_ft e FT_IMAGE s1 = (y, s2)" by (rule prod.exhaust)
    obtain z s3 where t: "set_ft_mount_target FtRemoteUsb s2 = (z, s3)" by (rule prod.exhaust)
    have img: "set_mass_storage_image e FT_IMAGE Usb1Lun0 s1 = (y, s2)"
      using s1(2) ip m by (simp add: set_mass_storage_image_def answered_def)
    have "mount_with_file_img e s =
        (case (x, s1) of (Inl err, s2) \<Rightarrow> (Inl err, s2)
         | (Inr _, s2) \<Rightarrow> (case mv_stat e FT_IMAGE of Inl err \<Rightarrow> (Inl ''image file not found'', s2)
             | Inr _ \<Rightarrow> (case set_mass_storage_image e FT_IMAGE Usb1Lun0 s2 of
                 (Inl err, s4) \<Rightarrow> (Inl (''failed to set mass storage image: '' @ err), s4)
               | (Inr _, s4) \<Rightarrow> set_ft_mount_target FtRemoteUsb s4)))"
      using g False u by (auto simp: mount_with_file_img_def set_mass_storage_mode_def split: sum.split)
    with assms(2) s1 img m t ums_mount_ft_frame [OF s1(2) m] set_ft_target_keeps [OF t] show ?thesis
      by (cases x; cases y; cases "mv_stat e FT_IMAGE") (auto simp: one_sided_def)
  qed
qed

datatype ft_op = FtLoad bool string | FtMount | FtUnmount

fun ft_step :: "'w media_env \<Rightarrow> ft_op \<Rightarrow> 'w media_state \<Rightarrow> 'w media_state" where
  "ft_step e (FtLoad in_use dev) s = snd (load_with_file_img e in_use dev s)"
| "ft_step e FtMount s = snd (mount_with_file_img e s)"
| "ft_step e FtUnmount s = snd (unmount_file_img e s)"

text \<open>
  C13: The file system of the transfer drive has one user at a time: whatever sequence of loading it on
  the device, giving it to the host and releasing it is asked for, and however the system commands
  and the sidecar's operations fail on the way, the image is never mounted on the device while the
  host has it, provided the queries to the sidecar are answered.
\<close>

theorem ft_image_one_side:
  assumes "md_usb s" "md_bus s = []" "\<not> (rf_mounted (md_rfs s) \<and> ft_exposed s)"
  shows "\<not> (rf_mounted (md_rfs (fold (ft_step e) ops s)) \<and> ft_exposed (fold (ft_step e) ops s))"
proof -
  have "one_sided s" using assms by (simp add: one_sided_def answered_def)
  then have "one_sided (fold (ft_step e) ops s)"
  proof (induction ops arbitrary: s)
    case (Cons p ops)
    have "one_sided (ft_step e p s)"
    proof (cases p)
      case (FtLoad u d)
      then show ?thesis using load_one_sided [OF Cons.prems] by (metis ft_step.simps(1) prod.collapse)
    next
      case FtMount
      then show ?thesis using mount_one_sided [OF Cons.prems] by (metis ft_step.simps(2) prod.collapse)
    next
      case FtUnmount
      then show ?thesis using unmount_file_img_one_sided(1) [OF Cons.prems] by (metis ft_step.simps(3) prod.collapse)
    qed
    with Cons.IH show ?case by simp
  qed simp
  then show ?thesis by (simp add: one_sided_def)
qed


definition media_env_demo :: "unit media_env" where
  "media_env_demo = \<lparr>mv_usb = usb_demo_env, mv_stat = \<lambda>p. Inr 512, mv_head = \<lambda>u. Inl ''refused'', mv_probe = \<lambda>u. Inl ''refused''\<rparr>"

definition media_demo :: "unit media_state" where
  "media_demo = \<lparr>md_usb = True, md_sidecar = Some (Some info_demo, put_ums1 (ums1_new True) (manager_new base_demo), ()), md_bus = [],
     md_cmd = [], md_media = None, md_reader = None, md_nbd = False, md_rfs = \<lparr>rf_loop_device = None, rf_mounted = False\<rparr>,
     md_ft_config = FtNone, md_ft_uploads = []\<rparr>"

theorem ft_image_one_side_witness:
  "\<not> (rf_mounted (md_rfs (fold (ft_step media_env_demo) [FtLoad False ''/dev/loop0'', FtMount, FtUnmount] media_demo)) \<and>
      ft_exposed (fold (ft_step media_env_demo) [FtLoad False ''/dev/loop0'', FtMount, FtUnmount] media_demo))"
  by (rule ft_image_one_side) (simp_all add: media_demo_def)

lemma rfs_mount_ok:
  assumes "\<not> rf_mounted (md_rfs s)" "is_ok (mv_stat e FT_IMAGE)" "md_cmd s = []"
  shows "rfs_mount e False dev s = (Inr (), s\<lparr>md_rfs := \<lparr>rf_loop_device = Some dev, rf_mounted = True\<rparr>\<rparr>)"
  using assms
  by (simp add: rfs_mount_def command_def is_mount_point_in_use_def setup_loop_device_def mount_loop_device_def)

text \<open>
  A query to the sidecar that is lost counts as "nothing mounted". If that happens when the drive
  is loaded on the device while the host has it, both have the file system mounted at once.
\<close>

theorem lost_query_two_sides:
  assumes "md_usb s" "md_bus s = QueryLost err # ds" "ft_exposed s" "\<not> rf_mounted (md_rfs s)" "md_cmd s = []"
    "is_ok (mv_stat e FT_IMAGE)"
  shows "fst (load_with_file_img e False dev s) = Inr () \<and>
    rf_mounted (md_rfs (snd (load_with_file_img e False dev s))) \<and> ft_exposed (snd (load_with_file_img e False dev s))"
proof -
  have g: "get_file_transfer_state e s = (FtNone, s\<lparr>md_bus := ds\<rparr>)"
    using assms(1,2,4) by (simp add: get_file_transfer_state_def ums_get_mount_state_def send_ums_control_def next_delivery_def)
  have m: "rfs_mount e False dev (s\<lparr>md_bus := ds\<rparr>) =
      (Inr (), s\<lparr>md_bus := ds, md_rfs := \<lparr>rf_loop_device = Some dev, rf_mounted = True\<rparr>\<rparr>)"
    using rfs_mount_ok [of "s\<lparr>md_bus := ds\<rparr>" e dev] assms(4-6) by simp
  have "load_with_file_img e False dev s =
      (Inr (), s\<lparr>md_bus := ds, md_rfs := \<lparr>rf_loop_device = Some dev, rf_mounted = True\<rparr>, md_ft_config := FtKvm\<rparr>)"
    using g m assms(5) by (simp add: load_with_file_img_def set_ft_mount_target_def command_def)
  with assms(3) show ?thesis by (simp add: ft_exposed_def)
qed

definition media_exposed :: "unit media_state" where
  "media_exposed = media_demo\<lparr>md_sidecar := Some (Some info_demo,
     put_ums1 ((ums1_new True)\<lparr>um_file_path := Some FT_IMAGE\<rparr>) (manager_new base_demo), ()), md_bus := [QueryLost ''timeout'']\<rparr>"

theorem lost_query_two_sides_witness:
  "fst (load_with_file_img media_env_demo False ''/dev/loop0'' media_exposed) = Inr () \<and>
   rf_mounted (md_rfs (snd (load_with_file_img media_env_demo False ''/dev/loop0'' media_exposed))) \<and>
   ft_exposed (snd (load_with_file_img media_env_demo False ''/dev/loop0'' media_exposed))"
  by (rule lost_query_two_sides [where err = "''timeout''" and ds = "[]"])
    (simp_all add: media_exposed_def media_demo_def media_env_demo_def ft_exposed_def put_ums1_def)

section \<open>A mount that fails\<close>

datatype media_request = MountHttp string media_mode | MountWebrtc string int media_mode

fun media_mount :: "'w media_env \<Rightarrow> media_request \<Rightarrow> 'w media_state \<Rightarrow> (string, unit) result \<times> 'w media_state" where
  "media_mount e (MountHttp url mode) s = mount_with_http e url mode s"
| "media_mount e (MountWebrtc f n mode) s = mount_with_webrtc e f n mode s"

lemma ums_control_media:
  "md_media (snd (ums_control e req s)) = md_media s \<and> md_nbd (snd (ums_control e req s)) = md_nbd s \<and>
   md_cmd (snd (ums_control e req s)) = md_cmd s"
proof -
  have "md_media (snd (send_ums_control e req s)) = md_media s \<and> md_nbd (snd (send_ums_control e req s)) = md_nbd s \<and>
      md_cmd (snd (send_ums_control e req s)) = md_cmd s"
    by (auto simp: send_ums_control_def next_delivery_def split: list.splits delivery.splits prod.splits)
  then show ?thesis by (auto simp: ums_control_def split: prod.splits sum.splits)
qed

lemma set_mode_media:
  "md_media (snd (set_mass_storage_mode e b t s)) = md_media s" "md_nbd (snd (set_mass_storage_mode e b t s)) = md_nbd s"
  "md_cmd (snd (set_mass_storage_mode e b t s)) = md_cmd s"
  by (simp_all add: set_mass_storage_mode_def ums_switch_vm_mode_def ums_control_media split: usb_target.split)

lemma recorded_medium_refuses:
  assumes "md_media s \<noteq> None"
  shows "\<not> is_ok (fst (media_mount e q s)) \<and> md_media (snd (media_mount e q s)) = md_media s"
proof (cases q)
  case (MountHttp url mode)
  obtain r1 s1 where f: "ensure_images_folder s = (r1, s1)" by (rule prod.exhaust)
  have m1: "md_media s1 = md_media s"
    using f command_frame(5) [of s] by (auto simp: ensure_images_folder_def split: prod.splits option.splits)
  obtain r2 s2 where g: "set_mass_storage_mode e (mode = MediaCDROM) Usb0Lun0 s1 = (r2, s2)" by (rule prod.exhaust)
  have m2: "md_media s2 = md_media s" using set_mode_media [of e "mode = MediaCDROM" Usb0Lun0 s1] g m1 by simp
  show ?thesis using MountHttp f g m1 m2 assms
    by (cases r1; cases r2; cases "http_reader_new e url") (auto simp: mount_with_http_def)
next
  case (MountWebrtc f n mode)
  obtain r1 s1 where g: "set_mass_storage_mode e (mode = MediaCDROM) Usb0Lun0 s = (r1, s1)" by (rule prod.exhaust)
  have m1: "md_media s1 = md_media s" using set_mode_media [of e "mode = MediaCDROM" Usb0Lun0 s] g by simp
  show ?thesis using MountWebrtc g m1 assms by (cases r1) (auto simp: mount_with_webrtc_def)
qed

text \<open>
  The medium is recorded before the block device is started, and the record stays when that
  fails: after such a mount every further mount over HTTP or from the browser is refused, however
  often it is tried, although nothing is mounted, until the medium is unmounted.
\<close>

theorem failed_mount_blocks_mounts:
  assumes "fst (set_mass_storage_mode e (mode = MediaCDROM) Usb0Lun0 s) = Inr ()" "md_media s = None" "\<not> md_nbd s"
    "md_cmd s = Some err # cs"
  shows "\<not> is_ok (fst (mount_with_webrtc e f n mode s)) \<and>
    \<not> is_ok (fst (media_mount e' q (fold (\<lambda>q. snd \<circ> media_mount e' q) qs (snd (mount_with_webrtc e f n mode s)))))"
proof -
  obtain s1 where m: "set_mass_storage_mode e (mode = MediaCDROM) Usb0Lun0 s = (Inr (), s1)" using assms(1) by (metis prod.collapse)
  have m1: "md_media s1 = None" "md_nbd s1 = md_nbd s" "md_cmd s1 = md_cmd s"
    using set_mode_media [of e "mode = MediaCDROM" Usb0Lun0 s] m assms(2) by simp_all
  have r: "\<not> is_ok (fst (mount_with_webrtc e f n mode s)) \<and> md_media (snd (mount_with_webrtc e f n mode s)) \<noteq> None"
    using m m1 assms(3,4) by (simp add: mount_with_webrtc_def expose_nbd_def start_nbd_def command_def)
  have "md_media (fold (\<lambda>q. snd \<circ> media_mount e' q) qs t) \<noteq> None" if "md_media t \<noteq> None" for t
    using that by (induction qs arbitrary: t) (simp_all add: recorded_medium_refuses)
  with r show ?thesis using recorded_medium_refuses by blast
qed


definition media_no_nbd :: "unit media_state" where
  "media_no_nbd = media_demo\<lparr>md_sidecar := Some (Some info_demo, put_ums (ums_new CdRom True) (manager_new base_demo), ()),
     md_cmd := [Some ''no nbd device'']\<rparr>"

theorem failed_mount_blocks_mounts_witness:
  "\<not> is_ok (fst (mount_with_webrtc media_env_demo ''a.iso'' 512 MediaCDROM media_no_nbd)) \<and>
   \<not> is_ok (fst (media_mount media_env_demo (MountWebrtc ''a.iso'' 512 MediaCDROM)
      (fold (\<lambda>q. snd \<circ> media_mount media_env_demo q) [] (snd (mount_with_webrtc media_env_demo ''a.iso'' 512 MediaCDROM media_no_nbd)))))"
proof (rule failed_mount_blocks_mounts)
  show "fst (set_mass_storage_mode media_env_demo (MediaCDROM = MediaCDROM) Usb0Lun0 media_no_nbd) = Inr ()"
    by (simp add: set_mass_storage_mode_def ums_switch_vm_mode_def ums_control_def send_ums_control_def next_delivery_def
        handle_ums_control_query_def control_ums_control_def ums_control_sidecar handle_ums_control_def ums_operation_from_i32_def
        ums_target_from_i32_def ums_vm_switch_mode_def put_ums_def switch_mode_def ums_new_def proto_vm_type_to_ums_mode_def
        vm_type_of_def ums_resp_ok_def media_no_nbd_def media_demo_def)
qed (simp_all add: media_no_nbd_def media_demo_def)

end
