(* ===== verification/Drive_Files.thy ===== *)
theory Drive_Files
  imports File_Serve Net_Conf Virtual_Media
begin

text \<open>
  Files on the transfer drive while the device has it: the file operations, streams, statistics and
  repair of \<^verbatim>\<open>hardware/fs_remote.rs\<close>. A path is the list of its components below the mount point and
  whether it ends in a slash. A directory entry names a file by a number, so that an open stream keeps
  its file. Every system call may fail (\<open>de_io\<close>); of the bytes given to a file, \<open>de_write\<close> says how many
  reach it and whether the call reports an error, \<open>de_left\<close> what a failed removal of a tree leaves. Opening a directory as a file fails. Of error texts
  the part before the path is kept; names compare byte by byte.
\<close>

section \<open>The drive\<close>

type_synonym path = "string list"

datatype drive_op =
    MkDirs path | OpenFile path | CreateFile path | StatPath path | Unlink path | RemoveTree path
  | MovePath path path | CopyPath path path | ListDir path | ReadInode nat | SeekInode nat | SyncInode nat

record 'w drive =
  dv_mounted :: bool
  dv_dirs :: "path list"
  dv_files :: "(path, nat) hmap"
  dv_data :: "(nat, u8 list) hmap"
  dv_next :: nat
  dv_w :: 'w

record 'w drive_env =
  de_io :: "drive_op \<Rightarrow> 'w \<Rightarrow> string option \<times> 'w"
  de_write :: "nat \<Rightarrow> 'w \<Rightarrow> (nat \<times> string option) \<times> 'w"
  de_mtime :: "path \<Rightarrow> nat option"
  de_dirlen :: "path \<Rightarrow> nat"
  de_left :: "path \<Rightarrow> bool"

datatype entry = DirEntry | FileEntry nat

definition drive_try :: "'w drive_env \<Rightarrow> drive_op \<Rightarrow> 'w drive \<Rightarrow> string option \<times> 'w drive" where
  "drive_try e p d = (case de_io e p (dv_w d) of (r, w) \<Rightarrow> (r, d\<lparr>dv_w := w\<rparr>))"

definition lookup :: "'w drive \<Rightarrow> path \<times> bool \<Rightarrow> entry option" where
  "lookup d t =
     (if fst t \<in> set (dv_dirs d) then Some DirEntry
      else case hm_get (dv_files d) (fst t) of
             Some i \<Rightarrow> if snd t then None else Some (FileEntry i)
           | None \<Rightarrow> None)"

definition data_of :: "'w drive \<Rightarrow> nat \<Rightarrow> u8 list" where
  "data_of d i = (case hm_get (dv_data d) i of Some bs \<Rightarrow> bs | None \<Rightarrow> [])"

definition set_data :: "nat \<Rightarrow> u8 list \<Rightarrow> 'w drive \<Rightarrow> 'w drive" where
  "set_data i bs d = d\<lparr>dv_data := hm_insert i bs (dv_data d)\<rparr>"

definition ensure_mounted :: "'w drive \<Rightarrow> (string, unit) result" where
  "ensure_mounted d = (if \<not> dv_mounted d then Inl ''Filesystem is not mounted. Call mount() first.'' else Inr ())"

definition unsafe_component :: "string \<Rightarrow> bool" where
  "unsafe_component c = (c = ''..'' \<or> c = ''.'')"

definition resolve_path :: "string \<Rightarrow> (string, path \<times> bool) result" where
  "resolve_path user_path =
     (if user_path = [] \<or> user_path = ''/'' then Inr ([], False)
      else if starts_with user_path ''/'' then
        let cs = filter (\<lambda>c. c \<noteq> []) (split_on (CHR ''/'') (tl user_path)) in
        if list_ex unsafe_component cs then Inl ''Unsafe path component is not allowed'' else Inr (cs, False)
      else
        let cs = split_on (CHR ''/'') user_path in
        if list_ex unsafe_component cs then Inl ''Unsafe path component is not allowed''
        else Inr (filter (\<lambda>c. c \<noteq> []) cs, last cs = []))"

definition with_path ::
  "'w drive \<Rightarrow> string \<Rightarrow> (path \<times> bool \<Rightarrow> (string, 'b) result \<times> 'w drive) \<Rightarrow> (string, 'b) result \<times> 'w drive" where
  "with_path d p f =
     (case bind_res (ensure_mounted d) (\<lambda>_. resolve_path p) of Inl err \<Rightarrow> (Inl err, d) | Inr t \<Rightarrow> f t)"

text \<open>\<open>and_then\<close> of two steps on the drive.\<close>

definition drive_then ::
  "(string, 'a) result \<times> 'w drive \<Rightarrow> ('a \<Rightarrow> 'w drive \<Rightarrow> (string, 'b) result \<times> 'w drive) \<Rightarrow> (string, 'b) result \<times> 'w drive" where
  "drive_then r f = (case r of (Inl err, d) \<Rightarrow> (Inl err, d) | (Inr a, d) \<Rightarrow> f a d)"

section \<open>System calls\<close>

definition create_dir_all :: "'w drive_env \<Rightarrow> path \<Rightarrow> 'w drive \<Rightarrow> (string, unit) result \<times> 'w drive" where
  "create_dir_all e p d =
     (case drive_try e (MkDirs p) d of
        (Some err, d1) \<Rightarrow> (Inl err, d1)
      | (None, d1) \<Rightarrow>
          if list_ex (\<lambda>q. hm_get (dv_files d1) q \<noteq> None) (prefixes p) then (Inl ''Not a directory'', d1)
          else (Inr (), d1\<lparr>dv_dirs := dv_dirs d1 @ filter (\<lambda>q. q \<notin> set (dv_dirs d1)) (prefixes p)\<rparr>))"

definition create_parent :: "'w drive_env \<Rightarrow> path \<times> bool \<Rightarrow> 'w drive \<Rightarrow> (string, unit) result \<times> 'w drive" where
  "create_parent e t d =
     (case (if fst t = [] then (Inr (), d) else create_dir_all e (butlast (fst t)) d) of
        (Inl _, d1) \<Rightarrow> (Inl ''Failed to create parent directory'', d1)
      | (Inr _, d1) \<Rightarrow> (Inr (), d1))"

definition open_existing :: "'w drive_env \<Rightarrow> path \<times> bool \<Rightarrow> 'w drive \<Rightarrow> (string, nat) result \<times> 'w drive" where
  "open_existing e t d =
     (case drive_try e (OpenFile (fst t)) d of
        (Some err, d1) \<Rightarrow> (Inl err, d1)
      | (None, d1) \<Rightarrow>
          (case lookup d1 t of
             Some (FileEntry i) \<Rightarrow> (Inr i, d1)
           | Some DirEntry \<Rightarrow> (Inl ''Is a directory'', d1)
           | None \<Rightarrow> (Inl ''No such file or directory'', d1)))"

text \<open>Open for writing; a missing file is created in its directory, an old one emptied if \<open>trunc\<close> is set.\<close>

definition open_create :: "'w drive_env \<Rightarrow> bool \<Rightarrow> path \<times> bool \<Rightarrow> 'w drive \<Rightarrow> (string, nat) result \<times> 'w drive" where
  "open_create e trunc t d =
     (case drive_try e (CreateFile (fst t)) d of
        (Some err, d1) \<Rightarrow> (Inl err, d1)
      | (None, d1) \<Rightarrow>
          (case lookup d1 t of
             Some (FileEntry i) \<Rightarrow> (Inr i, if trunc then set_data i [] d1 else d1)
           | Some DirEntry \<Rightarrow> (Inl ''Is a directory'', d1)
           | None \<Rightarrow>
               if snd t then (Inl ''Is a directory'', d1)
               else if butlast (fst t) \<notin> set (dv_dirs d1) then (Inl ''No such file or directory'', d1)
               else (Inr (dv_next d1),
                     set_data (dv_next d1) [] (d1\<lparr>dv_files := hm_insert (fst t) (dv_next d1) (dv_files d1), dv_next := dv_next d1 + 1\<rparr>))))"

definition put_at :: "nat \<Rightarrow> u8 list \<Rightarrow> u8 list \<Rightarrow> u8 list" where
  "put_at pos bs old = (if bs = [] then old else take pos old @ replicate (pos - length old) 0 @ bs @ drop (pos + length bs) old)"

definition write_inode :: "'w drive_env \<Rightarrow> nat \<Rightarrow> nat \<Rightarrow> u8 list \<Rightarrow> 'w drive \<Rightarrow> string option \<times> 'w drive" where
  "write_inode e i pos bs d =
     (case de_write e (length bs) (dv_w d) of
        ((k, err), w) \<Rightarrow> (err, set_data i (put_at pos (take k bs) (data_of d i)) (d\<lparr>dv_w := w\<rparr>)))"

definition sync_inode :: "'w drive_env \<Rightarrow> nat \<Rightarrow> string \<Rightarrow> 'w drive \<Rightarrow> (string, unit) result \<times> 'w drive" where
  "sync_inode e i msg d =
     (case drive_try e (SyncInode i) d of (Some _, d1) \<Rightarrow> (Inl msg, d1) | (None, d1) \<Rightarrow> (Inr (), d1))"

definition fail_as :: "string \<Rightarrow> (string, 'a) result \<times> 'w drive \<Rightarrow> (string, 'a) result \<times> 'w drive" where
  "fail_as msg r = (case r of (Inl _, d) \<Rightarrow> (Inl msg, d) | (Inr a, d) \<Rightarrow> (Inr a, d))"

definition write_step :: "'w drive_env \<Rightarrow> string \<Rightarrow> nat \<Rightarrow> nat \<Rightarrow> u8 list \<Rightarrow> 'w drive \<Rightarrow> (string, unit) result \<times> 'w drive" where
  "write_step e msg i pos bs d = (case write_inode e i pos bs d of (Some _, d1) \<Rightarrow> (Inl msg, d1) | (None, d1) \<Rightarrow> (Inr (), d1))"

definition read_inode :: "'w drive_env \<Rightarrow> string \<Rightarrow> nat \<Rightarrow> nat \<Rightarrow> nat \<Rightarrow> 'w drive \<Rightarrow> (string, u8 list) result \<times> 'w drive" where
  "read_inode e msg i pos n d =
     (case drive_try e (ReadInode i) d of
        (Some _, d1) \<Rightarrow> (Inl msg, d1)
      | (None, d1) \<Rightarrow> (Inr (take n (drop pos (data_of d1 i))), d1))"

definition seek_inode :: "'w drive_env \<Rightarrow> string \<Rightarrow> nat \<Rightarrow> 'w drive \<Rightarrow> (string, unit) result \<times> 'w drive" where
  "seek_inode e msg i d = (case drive_try e (SeekInode i) d of (Some _, d1) \<Rightarrow> (Inl msg, d1) | (None, d1) \<Rightarrow> (Inr (), d1))"

section \<open>Whole files and ranges\<close>

definition read_file :: "'w drive_env \<Rightarrow> string \<Rightarrow> 'w drive \<Rightarrow> (string, u8 list) result \<times> 'w drive" where
  "read_file e p d = with_path d p (\<lambda>t.
     drive_then (fail_as ''Failed to open file for reading'' (open_existing e t d)) (\<lambda>i d1.
       read_inode e ''Failed to read file contents'' i 0 (length (data_of d1 i)) d1))"

definition write_file :: "'w drive_env \<Rightarrow> string \<Rightarrow> u8 list \<Rightarrow> 'w drive \<Rightarrow> (string, unit) result \<times> 'w drive" where
  "write_file e p bs d = with_path d p (\<lambda>t.
     drive_then (create_parent e t d) (\<lambda>_ d1.
     drive_then (fail_as ''Failed to create file for writing'' (open_create e True t d1)) (\<lambda>i d2.
     drive_then (write_step e ''Failed to write data to file'' i 0 bs d2) (\<lambda>_ d3.
       sync_inode e i ''Failed to sync file'' d3))))"

definition append_file :: "'w drive_env \<Rightarrow> string \<Rightarrow> u8 list \<Rightarrow> 'w drive \<Rightarrow> (string, unit) result \<times> 'w drive" where
  "append_file e p bs d = with_path d p (\<lambda>t.
     drive_then (create_parent e t d) (\<lambda>_ d1.
     drive_then (fail_as ''Failed to open file for appending'' (open_create e False t d1)) (\<lambda>i d2.
     drive_then (write_step e ''Failed to append data to file'' i (length (data_of d2 i)) bs d2) (\<lambda>_ d3.
       sync_inode e i ''Failed to sync file'' d3))))"

definition read_file_range :: "'w drive_env \<Rightarrow> string \<Rightarrow> nat \<Rightarrow> nat \<Rightarrow> 'w drive \<Rightarrow> (string, u8 list) result \<times> 'w drive" where
  "read_file_range e p offset n d = with_path d p (\<lambda>t.
     drive_then (fail_as ''Failed to open file for reading'' (open_existing e t d)) (\<lambda>i d1.
     drive_then (seek_inode e ''Failed to seek to offset'' i d1) (\<lambda>_ d2.
       read_inode e ''Failed to read file range'' i offset n d2)))"

definition write_file_range :: "'w drive_env \<Rightarrow> string \<Rightarrow> nat \<Rightarrow> u8 list \<Rightarrow> 'w drive \<Rightarrow> (string, nat) result \<times> 'w drive" where
  "write_file_range e p offset bs d = with_path d p (\<lambda>t.
     drive_then (create_parent e t d) (\<lambda>_ d1.
     drive_then (fail_as ''Failed to open file for writing'' (open_create e False t d1)) (\<lambda>i d2.
     drive_then (seek_inode e ''Failed to get file size'' i d2) (\<lambda>_ d3.
     let file_size = length (data_of d3 i) in
     drive_then (if offset > file_size
                 then drive_then (seek_inode e ''Failed to seek to end'' i d3) (\<lambda>_ d4.
                        write_step e ''Failed to fill gap'' i file_size (replicate (offset - file_size) 0) d4)
                 else (Inr (), d3)) (\<lambda>_ d5.
     drive_then (seek_inode e ''Failed to seek to offset'' i d5) (\<lambda>_ d6.
     drive_then (write_step e ''Failed to write data'' i offset bs d6) (\<lambda>_ d7.
     drive_then (sync_inode e i ''Failed to sync file'' d7) (\<lambda>_ d8. (Inr (length bs), d8)))))))))"

definition create_empty_file :: "'w drive_env \<Rightarrow> string \<Rightarrow> 'w drive \<Rightarrow> (string, unit) result \<times> 'w drive" where
  "create_empty_file e p d = with_path d p (\<lambda>t.
     drive_then (create_parent e t d) (\<lambda>_ d1.
     drive_then (fail_as ''Failed to create file'' (open_create e True t d1)) (\<lambda>_ d2. (Inr (), d2))))"


section \<open>Streams\<close>

record file_reader =
  fr_inode :: nat
  fr_chunk_size :: nat
  fr_position :: nat
  fr_file_size :: nat

definition create_async_reader :: "'w drive_env \<Rightarrow> string \<Rightarrow> nat \<Rightarrow> 'w drive \<Rightarrow> (string, file_reader) result \<times> 'w drive" where
  "create_async_reader e p chunk_size d = with_path d p (\<lambda>t.
     drive_then (fail_as ''Failed to open file for reading'' (open_existing e t d)) (\<lambda>i d1.
     drive_then (seek_inode e ''Failed to get file size'' i d1) (\<lambda>_ d2.
     drive_then (seek_inode e ''Failed to seek to beginning'' i d2) (\<lambda>_ d3.
       (Inr \<lparr>fr_inode = i, fr_chunk_size = chunk_size, fr_position = 0, fr_file_size = length (data_of d2 i)\<rparr>, d3)))))"

definition read_next_chunk :: "'w drive_env \<Rightarrow> file_reader \<Rightarrow> 'w drive \<Rightarrow> (string, u8 list option) result \<times> file_reader \<times> 'w drive" where
  "read_next_chunk e r d =
     (if fr_position r \<ge> fr_file_size r then (Inr None, r, d)
      else let read_size = min (fr_chunk_size r) (fr_file_size r - fr_position r) in
      case read_inode e ''Failed to read chunk at position'' (fr_inode r) (fr_position r) read_size d of
        (Inl err, d1) \<Rightarrow> (Inl err, r, d1)
      | (Inr bs, d1) \<Rightarrow> (Inr (if bs = [] then None else Some bs), r\<lparr>fr_position := fr_position r + length bs\<rparr>, d1))"

definition skip_bytes :: "'w drive_env \<Rightarrow> nat \<Rightarrow> file_reader \<Rightarrow> 'w drive \<Rightarrow> (string, nat) result \<times> file_reader \<times> 'w drive" where
  "skip_bytes e n r d =
     (let pos = min (fr_file_size r) (fr_position r + n); r1 = r\<lparr>fr_position := pos\<rparr>
      in case seek_inode e ''Failed to seek to position'' (fr_inode r) d of
           (Inl err, d1) \<Rightarrow> (Inl err, r1, d1)
         | (Inr _, d1) \<Rightarrow> (Inr (pos - fr_position r), r1, d1))"

definition is_eof :: "file_reader \<Rightarrow> bool" where
  "is_eof r = (fr_position r \<ge> fr_file_size r)"

definition remaining_bytes :: "file_reader \<Rightarrow> nat" where
  "remaining_bytes r = (if fr_position r \<ge> fr_file_size r then 0 else fr_file_size r - fr_position r)"

record file_writer =
  fw_inode :: nat
  fw_append :: bool
  fw_position :: nat
  fw_written :: nat

definition create_async_writer :: "'w drive_env \<Rightarrow> string \<Rightarrow> nat \<Rightarrow> 'w drive \<Rightarrow> (string, file_writer) result \<times> 'w drive" where
  "create_async_writer e p bytes_written d = with_path d p (\<lambda>t.
     drive_then (create_parent e t d) (\<lambda>_ d1.
     drive_then (open_create e (bytes_written = 0) t d1) (\<lambda>i d2.
       (Inr \<lparr>fw_inode = i, fw_append = (bytes_written > 0), fw_position = bytes_written, fw_written = bytes_written\<rparr>, d2))))"

text \<open>The stream seeks first; a file opened for appending takes the bytes at its end all the same.\<close>

definition write_chunk :: "'w drive_env \<Rightarrow> u8 list \<Rightarrow> file_writer \<Rightarrow> 'w drive \<Rightarrow> (string, nat) result \<times> file_writer \<times> 'w drive" where
  "write_chunk e bs f d =
     (case seek_inode e ''Failed to seek to position'' (fw_inode f) d of
        (Inl err, d1) \<Rightarrow> (Inl err, f, d1)
      | (Inr _, d1) \<Rightarrow>
          (case write_step e ''Failed to write chunk at position'' (fw_inode f)
                  (if fw_append f then length (data_of d1 (fw_inode f)) else fw_position f) bs d1 of
             (Inl err, d2) \<Rightarrow> (Inl err, f, d2)
           | (Inr _, d2) \<Rightarrow>
               (Inr (length bs), f\<lparr>fw_position := fw_position f + length bs, fw_written := fw_written f + length bs\<rparr>, d2)))"

definition writer_flush :: "'w drive_env \<Rightarrow> file_writer \<Rightarrow> 'w drive \<Rightarrow> (string, unit) result \<times> 'w drive" where
  "writer_flush e f d = sync_inode e (fw_inode f) ''Failed to flush file'' d"

definition set_size :: "'w drive_env \<Rightarrow> nat \<Rightarrow> file_writer \<Rightarrow> 'w drive \<Rightarrow> (string, unit) result \<times> 'w drive" where
  "set_size e n f d =
     drive_then (seek_inode e ''Failed to set file size to'' (fw_inode f) d) (\<lambda>_ d1.
       sync_inode e (fw_inode f) ''Failed to sync file after setting size'' d1)"

section \<open>Names and directories\<close>

definition metadata :: "'w drive_env \<Rightarrow> path \<times> bool \<Rightarrow> 'w drive \<Rightarrow> (string, entry) result \<times> 'w drive" where
  "metadata e t d =
     (case drive_try e (StatPath (fst t)) d of
        (Some err, d1) \<Rightarrow> (Inl err, d1)
      | (None, d1) \<Rightarrow> (case lookup d1 t of Some x \<Rightarrow> (Inr x, d1) | None \<Rightarrow> (Inl ''No such file or directory'', d1)))"

definition entry_len :: "'w drive_env \<Rightarrow> path \<Rightarrow> 'w drive \<Rightarrow> entry \<Rightarrow> nat" where
  "entry_len e p d x = (case x of FileEntry i \<Rightarrow> length (data_of d i) | DirEntry \<Rightarrow> de_dirlen e p)"

definition path_exists :: "'w drive_env \<Rightarrow> string \<Rightarrow> 'w drive \<Rightarrow> (string, bool) result \<times> 'w drive" where
  "path_exists e p d = with_path d p (\<lambda>t. case metadata e t d of (r, d1) \<Rightarrow> (Inr (is_ok r), d1))"

definition is_file :: "'w drive_env \<Rightarrow> string \<Rightarrow> 'w drive \<Rightarrow> (string, bool) result \<times> 'w drive" where
  "is_file e p d = with_path d p (\<lambda>t. case metadata e t d of
     (Inr (FileEntry _), d1) \<Rightarrow> (Inr True, d1) | (_, d1) \<Rightarrow> (Inr False, d1))"

definition is_directory :: "'w drive_env \<Rightarrow> string \<Rightarrow> 'w drive \<Rightarrow> (string, bool) result \<times> 'w drive" where
  "is_directory e p d = with_path d p (\<lambda>t. case metadata e t d of
     (Inr DirEntry, d1) \<Rightarrow> (Inr True, d1) | (_, d1) \<Rightarrow> (Inr False, d1))"

definition file_size :: "'w drive_env \<Rightarrow> string \<Rightarrow> 'w drive \<Rightarrow> (string, nat) result \<times> 'w drive" where
  "file_size e p d = with_path d p (\<lambda>t.
     drive_then (fail_as ''Failed to get file metadata'' (metadata e t d)) (\<lambda>x d1. (Inr (entry_len e (fst t) d1 x), d1)))"

record file_info =
  fi_name :: string
  fi_size :: nat
  fi_is_file :: bool
  fi_is_dir :: bool
  fi_modified :: "nat option"

definition info_of :: "'w drive_env \<Rightarrow> 'w drive \<Rightarrow> path \<Rightarrow> entry \<Rightarrow> file_info" where
  "info_of e d p x = \<lparr>fi_name = (if p = [] then ''ft_disk'' else last p), fi_size = entry_len e p d x,
     fi_is_file = (x \<noteq> DirEntry), fi_is_dir = (x = DirEntry), fi_modified = de_mtime e p\<rparr>"

definition get_file_info :: "'w drive_env \<Rightarrow> string \<Rightarrow> 'w drive \<Rightarrow> (string, file_info) result \<times> 'w drive" where
  "get_file_info e p d = with_path d p (\<lambda>t.
     drive_then (fail_as ''Failed to get file metadata'' (metadata e t d)) (\<lambda>x d1. (Inr (info_of e d1 (fst t) x), d1)))"

definition children :: "'w drive \<Rightarrow> path \<Rightarrow> (path \<times> entry) list" where
  "children d p =
     map (\<lambda>q. (q, DirEntry)) (filter (\<lambda>q. q \<noteq> [] \<and> butlast q = p) (dv_dirs d)) @
     map (\<lambda>(q, i). (q, FileEntry i)) (filter (\<lambda>(q, i). q \<noteq> [] \<and> butlast q = p) (dv_files d))"

definition list_directory :: "'w drive_env \<Rightarrow> string \<Rightarrow> 'w drive \<Rightarrow> (string, file_info list) result \<times> 'w drive" where
  "list_directory e p d =
     (case ensure_mounted d of
        Inl err \<Rightarrow> (Inl err, d)
      | Inr _ \<Rightarrow>
          if p = [] then (Inl ''dir_path is empty'', d)
          else with_path d p (\<lambda>t.
            case drive_try e (ListDir (fst t)) d of
              (Some _, d1) \<Rightarrow> (Inl ''Failed to read directory'', d1)
            | (None, d1) \<Rightarrow>
                if lookup d1 t \<noteq> Some DirEntry then (Inl ''Failed to read directory'', d1)
                else (Inr (map (\<lambda>(q, x). info_of e d1 q x)
                  (filter (\<lambda>(q, x). \<not> (p = ''/'' \<and> last q = ''System Volume Information'' \<and> x = DirEntry)) (children d1 (fst t)))), d1)))"

definition create_directory :: "'w drive_env \<Rightarrow> string \<Rightarrow> 'w drive \<Rightarrow> (string, unit) result \<times> 'w drive" where
  "create_directory e p d =
     (case ensure_mounted d of
        Inl err \<Rightarrow> (Inl err, d)
      | Inr _ \<Rightarrow> if p = [] then (Inl ''dir_path is empty'', d)
                 else with_path d p (\<lambda>t. fail_as ''Failed to create directory'' (create_dir_all e (fst t) d)))"

definition delete_file :: "'w drive_env \<Rightarrow> string \<Rightarrow> 'w drive \<Rightarrow> (string, unit) result \<times> 'w drive" where
  "delete_file e p d = with_path d p (\<lambda>t.
     case metadata e t d of
       (Inl _, d1) \<Rightarrow> (Inr (), d1)
     | (Inr x, d1) \<Rightarrow>
         (case drive_try e (Unlink (fst t)) d1 of
            (Some _, d2) \<Rightarrow> (Inl ''Failed to delete file'', d2)
          | (None, d2) \<Rightarrow> if x = DirEntry then (Inl ''Failed to delete file'', d2)
                        else (Inr (), d2\<lparr>dv_files := hm_remove (fst t) (dv_files d2)\<rparr>)))"

definition keep_entries :: "(path \<Rightarrow> bool) \<Rightarrow> 'w drive \<Rightarrow> 'w drive" where
  "keep_entries keep d = d\<lparr>dv_dirs := filter keep (dv_dirs d), dv_files := filter (\<lambda>(q, i). keep q) (dv_files d)\<rparr>"

text \<open>The mount point itself cannot be removed: its contents are gone when that is noticed.\<close>

definition delete_directory :: "'w drive_env \<Rightarrow> string \<Rightarrow> 'w drive \<Rightarrow> (string, unit) result \<times> 'w drive" where
  "delete_directory e p d =
     (case ensure_mounted d of
        Inl err \<Rightarrow> (Inl err, d)
      | Inr _ \<Rightarrow>
          if p = [] then (Inl ''dir_path is empty'', d)
          else with_path d p (\<lambda>t.
            if lookup d t \<noteq> Some DirEntry then (Inl ''Failed to delete directory'', d)
            else case drive_try e (RemoveTree (fst t)) d of
              (Some _, d1) \<Rightarrow> (Inl ''Failed to delete directory'', keep_entries (\<lambda>q. q = [] \<or> \<not> prefix (fst t) q \<or> de_left e q) d1)
            | (None, d1) \<Rightarrow>
                if fst t = [] then (Inl ''Failed to delete directory'', keep_entries (\<lambda>q. q = []) d1)
                else (Inr (), keep_entries (\<lambda>q. \<not> prefix (fst t) q) d1)))"

definition move_tree :: "path \<Rightarrow> path \<Rightarrow> 'w drive \<Rightarrow> 'w drive" where
  "move_tree old new d =
     (let move = (\<lambda>q. if prefix old q then new @ drop (length old) q else q); d1 = keep_entries (\<lambda>q. q \<noteq> new) d
      in d1\<lparr>dv_dirs := map move (dv_dirs d1), dv_files := map (\<lambda>(q, i). (move q, i)) (dv_files d1)\<rparr>)"

definition fs_rename :: "'w drive_env \<Rightarrow> path \<times> bool \<Rightarrow> path \<times> bool \<Rightarrow> 'w drive \<Rightarrow> (string, unit) result \<times> 'w drive" where
  "fs_rename e old new d =
     (case drive_try e (MovePath (fst old) (fst new)) d of
        (Some err, d1) \<Rightarrow> (Inl err, d1)
      | (None, d1) \<Rightarrow>
          (case lookup d1 old of
             None \<Rightarrow> (Inl ''No such file or directory'', d1)
           | Some (FileEntry i) \<Rightarrow>
               if fst new \<in> set (dv_dirs d1) then (Inl ''Is a directory'', d1)
               else if snd new then (Inl ''Not a directory'', d1)
               else (Inr (), d1\<lparr>dv_files := hm_insert (fst new) i (hm_remove (fst old) (dv_files d1))\<rparr>)
           | Some DirEntry \<Rightarrow>
               if fst old = [] then (Inl ''Device or resource busy'', d1)
               else if fst old = fst new then (Inr (), d1)
               else if prefix (fst old) (fst new) then (Inl ''Invalid argument'', d1)
               else if hm_get (dv_files d1) (fst new) \<noteq> None then (Inl ''Not a directory'', d1)
               else if fst new \<in> set (dv_dirs d1) \<and> children d1 (fst new) \<noteq> [] then (Inl ''Directory not empty'', d1)
               else (Inr (), move_tree (fst old) (fst new) d1)))"

definition rename_path :: "'w drive_env \<Rightarrow> string \<Rightarrow> string \<Rightarrow> 'w drive \<Rightarrow> (string, unit) result \<times> 'w drive" where
  "rename_path e old_path new_path d = with_path d old_path (\<lambda>old. with_path d new_path (\<lambda>new.
     drive_then (create_parent e new d) (\<lambda>_ d1. fail_as ''Failed to rename'' (fs_rename e old new d1))))"

text \<open>The target is opened, and emptied, before the first byte is copied, also when it is the source.\<close>

definition copy_file :: "'w drive_env \<Rightarrow> string \<Rightarrow> string \<Rightarrow> 'w drive \<Rightarrow> (string, unit) result \<times> 'w drive" where
  "copy_file e source_path dest_path d = with_path d source_path (\<lambda>src. with_path d dest_path (\<lambda>dst.
     drive_then (create_parent e dst d) (\<lambda>_ d1.
     fail_as ''Failed to copy file''
       (drive_then (open_existing e src d1) (\<lambda>i d2.
        drive_then (open_create e True dst d2) (\<lambda>j d3.
          write_step e ''copy'' j 0 (data_of d3 i) d3))))))"


section \<open>Statistics\<close>

text \<open>\<open>out\<close> is what \<^verbatim>\<open>df -k\<close> prints for the mount point, or why it failed. The products wrap.\<close>

definition df_sizes_bytes :: "(string, string) result \<Rightarrow> (string, nat \<times> nat \<times> nat) result" where
  "df_sizes_bytes out = bind_res out (\<lambda>text.
     let lines = split_on NL (trim text) in
     if length lines < 2 then Inl ''Invalid df output format''
     else let fields = split_whitespace (lines ! 1) in
     if length fields < 4 then Inl ''Invalid df output format: insufficient fields''
     else case (parse_u64 (fields ! 1), parse_u64 (fields ! 2), parse_u64 (fields ! 3)) of
       (None, _, _) \<Rightarrow> Inl (''Failed to parse total size: '' @ fields ! 1)
     | (_, None, _) \<Rightarrow> Inl (''Failed to parse used size: '' @ fields ! 2)
     | (_, _, None) \<Rightarrow> Inl (''Failed to parse available size: '' @ fields ! 3)
     | (Some a, Some b, Some c) \<Rightarrow> Inr (a * 1024 mod 2 ^ 64, b * 1024 mod 2 ^ 64, c * 1024 mod 2 ^ 64))"

record file_system_info =
  si_total_space :: nat
  si_free_space :: nat
  si_used_space :: nat

definition get_filesystem_usage :: "(string, string) result \<Rightarrow> 'w drive \<Rightarrow> (string, file_system_info) result" where
  "get_filesystem_usage out d = bind_res (ensure_mounted d) (\<lambda>_. bind_res (df_sizes_bytes out) (\<lambda>(tot, used, avail).
     Inr \<lparr>si_total_space = tot, si_free_space = avail, si_used_space = used\<rparr>))"

definition get_total_size :: "(string, string) result \<Rightarrow> 'w drive \<Rightarrow> (string, nat) result" where
  "get_total_size out d = bind_res (ensure_mounted d) (\<lambda>_. bind_res (df_sizes_bytes out) (\<lambda>(tot, used, avail). Inr tot))"

definition get_used_size :: "(string, string) result \<Rightarrow> 'w drive \<Rightarrow> (string, nat) result" where
  "get_used_size out d = bind_res (ensure_mounted d) (\<lambda>_. bind_res (df_sizes_bytes out) (\<lambda>(tot, used, avail). Inr used))"

definition get_available_size :: "(string, string) result \<Rightarrow> 'w drive \<Rightarrow> (string, nat) result" where
  "get_available_size out d = bind_res (ensure_mounted d) (\<lambda>_. bind_res (df_sizes_bytes out) (\<lambda>(tot, used, avail). Inr avail))"

section \<open>Repair and format\<close>

text \<open>
  Two programs are tried in turn on the image. Whatever they do to it, the flag and the loop device of
  the mount are what the later operations see; the state is the one of \<open>Virtual_Media\<close>.
\<close>

definition try_two :: "'w media_state \<Rightarrow> bool \<times> 'w media_state" where
  "try_two s =
     (case command s of
        (None, s1) \<Rightarrow> (True, s1)
      | (Some _, s1) \<Rightarrow> (case command s1 of (None, s2) \<Rightarrow> (True, s2) | (Some _, s2) \<Rightarrow> (False, s2)))"

definition repair_filesystem :: "'w media_env \<Rightarrow> bool \<Rightarrow> string \<Rightarrow> 'w media_state \<Rightarrow> (string, unit) result \<times> 'w media_state" where
  "repair_filesystem e in_use dev s =
     (let was_mounted = rf_mounted (md_rfs s) in
      case (if was_mounted then rfs_unmount s else (Inr (), s)) of
        (Inl err, s1) \<Rightarrow> (Inl err, s1)
      | (Inr _, s1) \<Rightarrow>
          (case try_two s1 of
             (False, s2) \<Rightarrow> (Inl ''Failed to repair filesystem. Tried: fsck.vfat, dosfsck'', s2)
           | (True, s2) \<Rightarrow> if was_mounted then rfs_mount e in_use dev s2 else (Inr (), s2)))"

definition format_filesystem :: "'w media_env \<Rightarrow> bool \<Rightarrow> string \<Rightarrow> 'w media_state \<Rightarrow> (string, unit) result \<times> 'w media_state" where
  "format_filesystem e in_use dev s =
     (let was_mounted = rf_mounted (md_rfs s) in
      case (if was_mounted then rfs_unmount s else (Inr (), s)) of
        (Inl err, s1) \<Rightarrow> (Inl err, s1)
      | (Inr _, s1) \<Rightarrow>
          if \<not> is_ok (mv_stat e FT_IMAGE) then (Inl ''Image file does not exist'', s1)
          else (case try_two s1 of
             (False, s2) \<Rightarrow> (Inl ''Failed to format filesystem. Tried: mkfs.vfat, mkdosfs'', s2)
           | (True, s2) \<Rightarrow> if was_mounted then rfs_mount e in_use dev s2 else (Inr (), s2)))"

section \<open>Paths stay on the drive\<close>

lemma split_on_slash_free: "c \<in> set (split_on (CHR ''/'') s) \<Longrightarrow> CHR ''/'' \<notin> set c"
  by (rule split_on_parts)

text \<open>
  A path a client names cannot leave the mount point: the path it is resolved to has only proper
  names as components, none empty and none a reference to this or the parent folder.
\<close>

theorem resolve_path_confined:
  assumes "resolve_path p = Inr (cs, slash)"
  shows "\<forall>c \<in> set cs. c \<noteq> [] \<and> c \<noteq> ''.'' \<and> c \<noteq> ''..'' \<and> CHR ''/'' \<notin> set c"
proof -
  have "cs = [] \<or> (\<exists>x. cs = filter (\<lambda>c. c \<noteq> []) (split_on (CHR ''/'') x) \<and> \<not> list_ex unsafe_component cs)"
  proof (cases "p = [] \<or> p = ''/''")
    case False
    then show ?thesis using assms unfolding resolve_path_def Let_def list_ex_iff
      by (cases "starts_with p ''/''") (auto split: if_split_asm simp del: split_on.simps)
  qed (use assms in \<open>simp add: resolve_path_def\<close>)
  then show ?thesis using split_on_slash_free by (fastforce simp: unsafe_component_def list_ex_iff)
qed

theorem resolve_path_confined_witness:
  "(''docs'' \<noteq> [] \<and> ''docs'' \<noteq> ''.'' \<and> ''docs'' \<noteq> ''..'' \<and> CHR ''/'' \<notin> set ''docs'') \<and> resolve_path ''/docs/a'' = Inr ([''docs'', ''a''], False)"
proof -
  have r: "resolve_path ''/docs/a'' = Inr ([''docs'', ''a''], False)"
    by (simp add: resolve_path_def starts_with_def unsafe_component_def)
  have "''docs'' \<noteq> [] \<and> ''docs'' \<noteq> ''.'' \<and> ''docs'' \<noteq> ''..'' \<and> CHR ''/'' \<notin> set ''docs''"
    by (rule bspec [OF resolve_path_confined [OF r]]) simp
  then show ?thesis using r by (rule conjI)
qed

lemma resolve_empty: "resolve_path [] = Inr ([], False)"
  by (simp add: resolve_path_def)

section \<open>Ranges\<close>

definition honest_drive :: "'w drive_env \<Rightarrow> bool" where
  "honest_drive e = ((\<forall>op w. fst (de_io e op w) = None) \<and> (\<forall>n w. fst (de_write e n w) = (n, None)))"

lemma honest_try: "honest_drive e \<Longrightarrow> \<exists>w. drive_try e p d = (None, d\<lparr>dv_w := w\<rparr>)"
proof -
  assume h: "honest_drive e"
  obtain r w where w: "de_io e p (dv_w d) = (r, w)" by force
  then have "r = None" using h unfolding honest_drive_def by (metis fst_conv)
  then show ?thesis by (auto simp: drive_try_def w)
qed

lemma honest_write: "honest_drive e \<Longrightarrow> \<exists>w. write_inode e i pos bs d = (None, set_data i (put_at pos bs (data_of d i)) (d\<lparr>dv_w := w\<rparr>))"
proof -
  assume h: "honest_drive e"
  obtain k err w where w: "de_write e (length bs) (dv_w d) = ((k, err), w)" by (metis prod.exhaust)
  then have "k = length bs" "err = None" using h unfolding honest_drive_def by (metis fst_conv prod.inject)+
  then show ?thesis by (auto simp: write_inode_def w)
qed

lemma data_of_w [simp]: "data_of (d\<lparr>dv_w := w\<rparr>) i = data_of d i" "lookup (d\<lparr>dv_w := w\<rparr>) t = lookup d t"
  by (simp_all add: data_of_def lookup_def)

lemma data_of_set [simp]: "data_of (set_data i bs d) j = (if i = j then bs else data_of d j)"
  by (simp add: data_of_def set_data_def)

lemma lookup_set_data [simp]: "lookup (set_data i bs d) t = lookup d t"
  by (simp add: lookup_def set_data_def)

lemma put_at_drop: "take (length bs) (drop pos (put_at pos bs old)) = bs"
  by (simp add: put_at_def)

lemma put_at_length: "length (put_at pos bs old) = (if bs = [] then length old else max (length old) (pos + length bs))"
  by (auto simp: put_at_def)

lemma put_at_end: "put_at (length old) bs old = old @ bs"
  by (simp add: put_at_def)

lemma put_at_else:
  assumes "n < length old" "n < pos \<or> pos + length bs \<le> n"
  shows "put_at pos bs old ! n = old ! n"
  using assms by (auto simp: put_at_def nth_append min_def)

lemma honest_steps:
  assumes "honest_drive e"
  shows "\<exists>w. seek_inode e msg i d = (Inr (), d\<lparr>dv_w := w\<rparr>)" "\<exists>w. sync_inode e i msg d = (Inr (), d\<lparr>dv_w := w\<rparr>)"
    "\<exists>w. write_step e msg i pos bs d = (Inr (), set_data i (put_at pos bs (data_of d i)) (d\<lparr>dv_w := w\<rparr>))"
    "\<exists>w. read_inode e msg i pos n d = (Inr (take n (drop pos (data_of d i))), d\<lparr>dv_w := w\<rparr>)"
proof -
  obtain w1 w2 w3 where "drive_try e (SeekInode i) d = (None, d\<lparr>dv_w := w1\<rparr>)" "drive_try e (SyncInode i) d = (None, d\<lparr>dv_w := w2\<rparr>)"
    "drive_try e (ReadInode i) d = (None, d\<lparr>dv_w := w3\<rparr>)" using honest_try [OF assms] by metis
  moreover obtain w4 where "write_inode e i pos bs d = (None, set_data i (put_at pos bs (data_of d i)) (d\<lparr>dv_w := w4\<rparr>))"
    using honest_write [OF assms] by metis
  ultimately show "\<exists>w. seek_inode e msg i d = (Inr (), d\<lparr>dv_w := w\<rparr>)" "\<exists>w. sync_inode e i msg d = (Inr (), d\<lparr>dv_w := w\<rparr>)"
    "\<exists>w. write_step e msg i pos bs d = (Inr (), set_data i (put_at pos bs (data_of d i)) (d\<lparr>dv_w := w\<rparr>))"
    "\<exists>w. read_inode e msg i pos n d = (Inr (take n (drop pos (data_of d i))), d\<lparr>dv_w := w\<rparr>)"
    by (auto simp: seek_inode_def sync_inode_def write_step_def read_inode_def)
qed

lemma open_existing_honest:
  assumes "honest_drive e" "lookup d t = Some (FileEntry i)"
  shows "\<exists>w. open_existing e t d = (Inr i, d\<lparr>dv_w := w\<rparr>)"
proof -
  obtain w where "drive_try e (OpenFile (fst t)) d = (None, d\<lparr>dv_w := w\<rparr>)" using honest_try [OF assms(1)] by blast
  then show ?thesis using assms(2) by (auto simp: open_existing_def)
qed

lemma with_path_mounted: "dv_mounted d \<Longrightarrow> resolve_path p = Inr t \<Longrightarrow> with_path d p f = f t"
  by (simp add: with_path_def ensure_mounted_def)

lemma read_range_honest:
  assumes "honest_drive e" "dv_mounted d" "resolve_path p = Inr t" "lookup d t = Some (FileEntry i)"
  shows "\<exists>d'. read_file_range e p offset n d = (Inr (take n (drop offset (data_of d i))), d')"
    "\<exists>d'. read_file e p d = (Inr (data_of d i), d')"
proof -
  obtain w where o: "open_existing e t d = (Inr i, d\<lparr>dv_w := w\<rparr>)" using open_existing_honest [OF assms(1,4)] by blast
  obtain w2 where k: "seek_inode e ''Failed to seek to offset'' i (d\<lparr>dv_w := w\<rparr>) = (Inr (), d\<lparr>dv_w := w2\<rparr>)"
    using honest_steps(1) [OF assms(1), of _ i "d\<lparr>dv_w := w\<rparr>"] by auto
  obtain d1 where r: "read_inode e ''Failed to read file range'' i offset n (d\<lparr>dv_w := w2\<rparr>) = (Inr (take n (drop offset (data_of d i))), d1)"
    using honest_steps(4) [OF assms(1), of _ i offset n "d\<lparr>dv_w := w2\<rparr>"] by auto
  obtain d2 where r2: "read_inode e ''Failed to read file contents'' i 0 (length (data_of d i)) (d\<lparr>dv_w := w\<rparr>) = (Inr (data_of d i), d2)"
    using honest_steps(4) [OF assms(1), of _ i 0 "length (data_of d i)" "d\<lparr>dv_w := w\<rparr>"] by auto
  show "\<exists>d'. read_file_range e p offset n d = (Inr (take n (drop offset (data_of d i))), d')"
    unfolding read_file_range_def with_path_mounted [OF assms(2,3)] by (simp add: o fail_as_def drive_then_def k r)
  show "\<exists>d'. read_file e p d = (Inr (data_of d i), d')"
    unfolding read_file_def with_path_mounted [OF assms(2,3)] by (simp add: o fail_as_def drive_then_def r2)
qed


lemma drive_try_frame: "drive_try e p d = (r, d1) \<Longrightarrow> \<exists>w. d1 = d\<lparr>dv_w := w\<rparr>"
  by (auto simp: drive_try_def split: prod.splits)

lemma create_parent_ok:
  assumes "create_parent e t d = (Inr u, d')"
  shows "lookup d' t = lookup d t" "dv_data d' = dv_data d" "dv_files d' = dv_files d" "dv_mounted d' = dv_mounted d"
proof -
  have n: "fst t \<notin> set (prefixes (butlast (fst t)))" if "fst t \<noteq> []"
  proof
    assume "fst t \<in> set (prefixes (butlast (fst t)))"
    then have "length (fst t) \<le> length (butlast (fst t))" by (intro prefix_length_le) simp
    moreover have "length (butlast (fst t)) < length (fst t)" using that by simp
    ultimately show False by linarith
  qed
  obtain r d1 where c: "(if fst t = [] then (Inr (), d) else create_dir_all e (butlast (fst t)) d) = (r, d1)" by force
  have r: "r = Inr () \<and> d1 = d'" using assms c by (auto simp: create_parent_def split: sum.splits)
  have "d' = d \<or> fst t \<noteq> [] \<and> (\<exists>w. d' = d\<lparr>dv_w := w, dv_dirs := dv_dirs d @ filter (\<lambda>q. q \<notin> set (dv_dirs d)) (prefixes (butlast (fst t)))\<rparr>)"
    using c r by (auto simp: create_dir_all_def split: if_splits option.splits prod.splits dest!: drive_try_frame)
  then show "lookup d' t = lookup d t" "dv_data d' = dv_data d" "dv_files d' = dv_files d" "dv_mounted d' = dv_mounted d"
    using n by (auto simp: lookup_def)
qed

lemma open_create_ok:
  assumes "open_create e trunc t d = (Inr i, d')"
  shows "lookup d' t = Some (FileEntry i)" "dv_mounted d' = dv_mounted d"
    "data_of d' i = (if trunc \<or> lookup d t = None then [] else data_of d i)" "lookup d t = None \<or> lookup d t = Some (FileEntry i)"
proof -
  obtain r d1 where t: "drive_try e (CreateFile (fst t)) d = (r, d1)" by force
  then obtain w where w: "d1 = d\<lparr>dv_w := w\<rparr>" using drive_try_frame by blast
  have r: "r = None" using assms t by (auto simp: open_create_def split: option.splits)
  show "lookup d' t = Some (FileEntry i)" "dv_mounted d' = dv_mounted d"
    "data_of d' i = (if trunc \<or> lookup d t = None then [] else data_of d i)" "lookup d t = None \<or> lookup d t = Some (FileEntry i)"
    using assms by (auto simp: open_create_def t r w set_data_def lookup_def data_of_def split: option.splits entry.splits if_splits)
qed

lemma drive_thenE:
  assumes "drive_then x f = (Inr r, d')"
  obtains a d1 where "x = (Inr a, d1)" "f a d1 = (Inr r, d')"
  using assms by (auto simp: drive_then_def split: prod.splits sum.splits)

lemma fail_as_ok: "fail_as msg x = (Inr a, d) \<Longrightarrow> x = (Inr a, d)"
  by (auto simp: fail_as_def split: prod.splits sum.splits)

section \<open>Where it goes wrong\<close>

text \<open>
  The stream's size cannot be set: a seek does not change a file, so the call reports success and the
  file keeps its bytes.
\<close>

theorem set_size_keeps_file:
  assumes "set_size e n f d = (r, d')"
  shows "data_of d' i = data_of d i"
proof -
  have k: "drive_try e p x = (b, y) \<Longrightarrow> data_of y i = data_of x i" for p x b y using drive_try_frame [of e p x b y] by auto
  show ?thesis using assms k
    by (auto simp: set_size_def drive_then_def seek_inode_def sync_inode_def split: prod.splits option.splits sum.splits)
qed

text \<open>
  Deleting the folder \<^verbatim>\<open>/\<close> empties the drive and reports a failure: the mount point cannot be removed,
  but its contents are.
\<close>

theorem delete_root_empties:
  assumes "honest_drive e" "dv_mounted d" "[] \<in> set (dv_dirs d)" "q \<noteq> []"
  shows "\<exists>d'. delete_directory e ''/'' d = (Inl ''Failed to delete directory'', d') \<and> lookup d' (q, slash) = None"
proof -
  have r: "resolve_path ''/'' = Inr ([], False)" by (simp add: resolve_path_def)
  obtain w where w: "drive_try e (RemoveTree []) d = (None, d\<lparr>dv_w := w\<rparr>)" using honest_try [OF assms(1)] by blast
  have l: "lookup d ([], False) = Some DirEntry" using assms(3) by (simp add: lookup_def)
  have "map_of (filter (\<lambda>(k, i). k = []) xs) q = None" for xs :: "(path \<times> nat) list" using assms(4) by (induction xs) auto
  then show ?thesis unfolding delete_directory_def with_path_mounted [OF assms(2) r]
    using assms(2-4) by (simp add: ensure_mounted_def l w keep_entries_def lookup_def hm_get_def)
qed

text \<open>
  A repair that fails leaves the drive unmounted: the drive the device was working on is gone until
  somebody mounts it again.
\<close>

theorem failed_repair_unmounts:
  assumes "rf_mounted (md_rfs s)" "rf_loop_device (md_rfs s) = Some lo" "md_cmd s = None # None # Some a # Some b # rest"
  shows "\<exists>s'. repair_filesystem e in_use dev s = (Inl ''Failed to repair filesystem. Tried: fsck.vfat, dosfsck'', s') \<and> \<not> rf_mounted (md_rfs s')"
  using assms by (simp add: repair_filesystem_def rfs_unmount_def try_two_def command_def)

text \<open>
  Formatting asks only whether the device has mounted the drive: while the host has it, the image
  under the host's feet is formatted and success reported, without a word to the sidecar.
\<close>

theorem format_ignores_host:
  assumes "\<not> rf_mounted (md_rfs s)" "is_ok (mv_stat e FT_IMAGE)" "md_cmd s = None # rest"
  shows "format_filesystem e in_use dev s = (Inr (), s\<lparr>md_cmd := rest\<rparr>)"
  using assms by (simp add: format_filesystem_def try_two_def command_def)

end
