(* ===== verification/Ft_Upload.thy ===== *)
theory Ft_Upload
  imports Drive_Files
begin

text \<open>
  Uploads to and downloads from the transfer drive: the sessions of \<^verbatim>\<open>hardware/usb/storage.rs\<close>, the data
  channel and the HTTP endpoint that feed them (\<^verbatim>\<open>data_channel.rs\<close>, \<^verbatim>\<open>web.rs\<close>) and the task that sends a
  file to the browser (\<^verbatim>\<open>jsonrpc.rs\<close>). A session writes to a cache file beside the final name and is
  kept, by its path, when its channel closes early. Requests are served one after the other.
  \<open>ft_root\<close> are the files of the device's own file system that the code looks at by mistake.
\<close>

section \<open>Sessions\<close>

record ft_upload =
  fu_writer :: "file_writer option"
  fu_size :: int
  fu_already :: int
  fu_upload_path :: string
  fu_final_path :: string
  fu_channel_open :: bool

record 'w ft_state =
  ft_drive :: "'w drive"
  ft_pending :: "(string, ft_upload) hmap"
  ft_closed :: "(string, ft_upload) hmap"
  ft_root :: "string list"

fun replace_slashes :: "string \<Rightarrow> string" where
  "replace_slashes (a # b # r) =
     (if a = CHR ''/'' \<and> b = CHR ''/'' then CHR ''/'' # replace_slashes r else a # replace_slashes (b # r))"
| "replace_slashes s = s"

definition ft_file_path :: "string \<Rightarrow> string \<Rightarrow> string" where
  "ft_file_path path name = replace_slashes (path @ ''/'' @ name)"

definition ft_cache_path :: "string \<Rightarrow> string \<Rightarrow> string" where
  "ft_cache_path path name = replace_slashes (path @ ''/'' @ name @ ''.ftcache'')"

text \<open>A step on the drive inside an operation on the sessions.\<close>

definition on_drive ::
  "(string, 'a) result \<times> 'w drive \<Rightarrow> 'w ft_state \<Rightarrow> ('a \<Rightarrow> 'w ft_state \<Rightarrow> (string, 'b) result \<times> 'w ft_state) \<Rightarrow> (string, 'b) result \<times> 'w ft_state" where
  "on_drive r s f = (case r of (Inl err, d) \<Rightarrow> (Inl err, s\<lparr>ft_drive := d\<rparr>) | (Inr a, d) \<Rightarrow> f a (s\<lparr>ft_drive := d\<rparr>))"

definition same_upload :: "string \<Rightarrow> int \<Rightarrow> string \<times> ft_upload \<Rightarrow> bool" where
  "same_upload file_path n = (\<lambda>(uid, u). fu_final_path u = file_path \<and> fu_size u = n)"

text \<open>
  The session of a file that is pending already: it is refused while a channel feeds it, else taken
  over; one with more bytes than declared is passed over where \<open>check\<close> is set.
\<close>

definition reuse_pending :: "bool \<Rightarrow> string \<Rightarrow> int \<Rightarrow> 'w ft_state \<Rightarrow> (string, int \<times> string) result option" where
  "reuse_pending check file_path n s =
     (case find (same_upload file_path n) (ft_pending s) of
        None \<Rightarrow> None
      | Some (uid, u) \<Rightarrow>
          if fu_channel_open u then Some (Inl ''upload already in progress'')
          else if check \<and> fu_already u > n then None
          else Some (Inr (fu_already u, uid)))"

definition closed_match :: "string \<Rightarrow> string \<Rightarrow> int \<Rightarrow> string \<times> ft_upload \<Rightarrow> bool" where
  "closed_match file_path cache_path cache_size =
     (\<lambda>(uid, u). fu_final_path u = file_path \<and> fu_upload_path u = cache_path \<and> fu_already u = cache_size)"

definition ft_closed_matches :: "string \<Rightarrow> string \<Rightarrow> int \<Rightarrow> 'w ft_state \<Rightarrow> bool" where
  "ft_closed_matches file_path cache_path cache_size s = list_ex (closed_match file_path cache_path cache_size) (ft_closed s)"

definition on_paths :: "string \<Rightarrow> string \<Rightarrow> string \<times> ft_upload \<Rightarrow> bool" where
  "on_paths file_path cache_path = (\<lambda>(uid, u). fu_final_path u = file_path \<or> fu_upload_path u = cache_path)"

text \<open>The sessions that come back when the cache file cannot be deleted have lost their writers.\<close>

definition without_writer :: "string \<times> ft_upload \<Rightarrow> string \<times> ft_upload" where
  "without_writer = (\<lambda>(uid, u). (uid, u\<lparr>fu_writer := None\<rparr>))"

definition discard_ft_cache :: "'w drive_env \<Rightarrow> string \<Rightarrow> string \<Rightarrow> 'w ft_state \<Rightarrow> (string, unit) result \<times> 'w ft_state" where
  "discard_ft_cache e file_path cache_path s =
     (if list_ex (\<lambda>x. fu_channel_open (snd x) \<and> on_paths file_path cache_path x) (ft_pending s) then (Inl ''upload already in progress'', s)
      else
        let gone = on_paths file_path cache_path;
            s1 = s\<lparr>ft_pending := filter (\<lambda>x. \<not> gone x) (ft_pending s), ft_closed := filter (\<lambda>x. \<not> gone x) (ft_closed s)\<rparr>;
            restored = (\<lambda>s'. s'\<lparr>ft_pending := ft_pending s' @ map without_writer (filter gone (ft_pending s)),
                                ft_closed := ft_closed s' @ map without_writer (filter gone (ft_closed s))\<rparr>)
        in case on_drive (path_exists e cache_path (ft_drive s1)) s1 (\<lambda>ex s2.
             if ex then on_drive (delete_file e cache_path (ft_drive s2)) s2 (\<lambda>_ s3. (Inr (), s3)) else (Inr (), s2)) of
             (Inl err, s4) \<Rightarrow> (Inl err, restored s4)
           | (Inr _, s4) \<Rightarrow> (Inr (), s4))"

definition start_new ::
  "'w drive_env \<Rightarrow> string \<Rightarrow> string \<Rightarrow> string \<Rightarrow> int \<Rightarrow> 'w ft_state \<Rightarrow> (string, int \<times> string) result \<times> 'w ft_state" where
  "start_new e uuid file_path cache_path n s =
     on_drive (create_empty_file e cache_path (ft_drive s)) s (\<lambda>_ s1.
     on_drive (create_async_writer e cache_path 0 (ft_drive s1)) s1 (\<lambda>f s2.
       case reuse_pending True file_path n s2 of
         Some r \<Rightarrow> (r, s2)
       | None \<Rightarrow>
           let uid = ''ft_upload_'' @ uuid
           in (Inr (0, uid), s2\<lparr>ft_pending := hm_insert uid \<lparr>fu_writer = Some f, fu_size = n, fu_already = 0,
                 fu_upload_path = cache_path, fu_final_path = file_path, fu_channel_open = False\<rparr> (ft_pending s2)\<rparr>)))"

definition start_resume ::
  "'w drive_env \<Rightarrow> string \<Rightarrow> string \<Rightarrow> string \<Rightarrow> int \<Rightarrow> int \<Rightarrow> 'w ft_state \<Rightarrow> (string, int \<times> string) result \<times> 'w ft_state" where
  "start_resume e uuid file_path cache_path cache_size n s =
     on_drive (create_async_writer e cache_path (nat cache_size) (ft_drive s)) s (\<lambda>f s1.
       case reuse_pending False file_path n s1 of
         Some r \<Rightarrow> (r, s1)
       | None \<Rightarrow>
           (case find (closed_match file_path cache_path cache_size) (ft_closed s1) of
              Some (uid, u) \<Rightarrow>
                (Inr (cache_size, uid), s1\<lparr>ft_closed := hm_remove uid (ft_closed s1),
                   ft_pending := hm_insert uid (u\<lparr>fu_channel_open := False, fu_already := cache_size, fu_writer := Some f\<rparr>) (ft_pending s1)\<rparr>)
            | None \<Rightarrow> start_new e uuid file_path cache_path n s1))"

definition start_ft_file_upload ::
  "'w drive_env \<Rightarrow> string \<Rightarrow> string \<Rightarrow> string \<Rightarrow> int \<Rightarrow> 'w ft_state \<Rightarrow> (string, int \<times> string) result \<times> 'w ft_state" where
  "start_ft_file_upload e uuid path name n s =
     (let file_path = ft_file_path path name; cache_path = ft_cache_path path name in
      on_drive (path_exists e file_path (ft_drive s)) s (\<lambda>ex s1.
      if ex then (Inl ''File already exists'', s1)
      else on_drive (path_exists e cache_path (ft_drive s1)) s1 (\<lambda>cached s2.
      on_drive (if cached then (case file_size e cache_path (ft_drive s2) of (r, d) \<Rightarrow> (bind_res r (\<lambda>k. Inr (int k)), d)) else (Inr (- 1), ft_drive s2)) s2
        (\<lambda>cache_size s3.
      case reuse_pending True file_path n s3 of
        Some r \<Rightarrow> (r, s3)
      | None \<Rightarrow>
          if cache_size \<ge> 0 \<and> (cache_size > n \<or> \<not> ft_closed_matches file_path cache_path cache_size s3)
          then (case discard_ft_cache e file_path cache_path s3 of
                  (Inl err, s4) \<Rightarrow> (Inl err, s4)
                | (Inr _, s4) \<Rightarrow> start_new e uuid file_path cache_path n s4)
          else if cache_size \<ge> 0 then start_resume e uuid file_path cache_path cache_size n s3
          else start_new e uuid file_path cache_path n s3))))"

section \<open>Data\<close>

definition claim_ft_upload_channel :: "string \<Rightarrow> 'w ft_state \<Rightarrow> (string, unit) result \<times> 'w ft_state" where
  "claim_ft_upload_channel uid s =
     (case hm_get (ft_pending s) uid of
        None \<Rightarrow> (Inl ''upload not found'', s)
      | Some u \<Rightarrow> if fu_channel_open u then (Inl ''upload already in progress'', s)
                  else (Inr (), s\<lparr>ft_pending := hm_insert uid (u\<lparr>fu_channel_open := True\<rparr>) (ft_pending s)\<rparr>))"

definition append_ft_upload_data :: "'w drive_env \<Rightarrow> string \<Rightarrow> u8 list \<Rightarrow> 'w ft_state \<Rightarrow> (string, int \<times> int) result \<times> 'w ft_state" where
  "append_ft_upload_data e uid data s =
     (case hm_get (ft_pending s) uid of
        None \<Rightarrow> (Inl ''upload not found'', s)
      | Some u \<Rightarrow>
          let bs = bytes_within_size (fu_already u) (fu_size u) data in
          if bs = [] then (Inr (fu_size u, fu_already u), s)
          else case fu_writer u of
            None \<Rightarrow> (Inl ''writer not found'', s)
          | Some f \<Rightarrow>
              (case write_chunk e bs f (ft_drive s) of
                 (Inl err, f', d) \<Rightarrow>
                   (Inl err, s\<lparr>ft_drive := d, ft_pending := hm_insert uid (u\<lparr>fu_writer := Some f'\<rparr>) (ft_pending s)\<rparr>)
               | (Inr written, f', d) \<Rightarrow>
                   if written \<noteq> length bs
                   then (Inl ''Failed to write all data in file'',
                         s\<lparr>ft_drive := d, ft_pending := hm_insert uid (u\<lparr>fu_writer := Some f'\<rparr>) (ft_pending s)\<rparr>)
                   else let u' = u\<lparr>fu_writer := Some f', fu_already := fu_already u + int (length bs)\<rparr>
                        in (Inr (fu_size u', fu_already u'), s\<lparr>ft_drive := d, ft_pending := hm_insert uid u' (ft_pending s)\<rparr>)))"

definition close_ft_upload :: "string \<Rightarrow> 'w ft_state \<Rightarrow> 'w ft_state" where
  "close_ft_upload uid s =
     (case hm_get (ft_pending s) uid of
        None \<Rightarrow> s
      | Some u \<Rightarrow> s\<lparr>ft_pending := hm_remove uid (ft_pending s),
                    ft_closed := hm_insert uid (u\<lparr>fu_channel_open := False\<rparr>) (ft_closed s)\<rparr>)"

definition complete_ft_upload :: "'w drive_env \<Rightarrow> string \<Rightarrow> 'w ft_state \<Rightarrow> (string, unit) result \<times> 'w ft_state" where
  "complete_ft_upload e uid s =
     (case hm_get (ft_pending s) uid of
        None \<Rightarrow> (Inl ''upload not found'', s)
      | Some u \<Rightarrow>
      (case (case fu_writer u of Some f \<Rightarrow> writer_flush e f (ft_drive s) | None \<Rightarrow> (Inr (), ft_drive s)) of
        (Inl err, d) \<Rightarrow> (Inl err, s\<lparr>ft_drive := d, ft_pending := hm_insert uid (u\<lparr>fu_channel_open := False\<rparr>) (ft_pending s)\<rparr>)
      | (Inr _, d) \<Rightarrow>
          let s1 = s\<lparr>ft_drive := d, ft_pending := hm_insert uid (u\<lparr>fu_writer := None\<rparr>) (ft_pending s)\<rparr> in
          if fu_already u = fu_size u
          then (case rename_path e (fu_upload_path u) (fu_final_path u) (ft_drive s1) of
                  (Inr _, d1) \<Rightarrow> (Inr (), s1\<lparr>ft_drive := d1, ft_pending := hm_remove uid (ft_pending s1)\<rparr>)
                | (Inl _, d1) \<Rightarrow> (Inl ''failed to rename uploaded file'', close_ft_upload uid (s1\<lparr>ft_drive := d1\<rparr>)))
          else if fu_already u > fu_size u
          then (case path_exists e (fu_upload_path u) (ft_drive s1) of
                  (r, d1) \<Rightarrow>
                    (Inr (), s1\<lparr>ft_drive := (if r = Inr True then snd (delete_file e (fu_upload_path u) d1) else d1),
                                ft_pending := hm_remove uid (ft_pending s1)\<rparr>))
          else (Inr (), close_ft_upload uid s1)))"

definition get_ft_upload_progress :: "string \<Rightarrow> 'w ft_state \<Rightarrow> (string, int \<times> int) result" where
  "get_ft_upload_progress uid s =
     (case hm_get (ft_pending s) uid of None \<Rightarrow> Inl ''upload not found'' | Some u \<Rightarrow> Inr (fu_size u, fu_already u))"

section \<open>The data channel and the HTTP endpoint\<close>

definition write_ft_chunk :: "'w drive_env \<Rightarrow> string \<Rightarrow> u8 list \<Rightarrow> 'w ft_state \<Rightarrow> bool \<times> 'w ft_state" where
  "write_ft_chunk e uid data s =
     (case append_ft_upload_data e uid data s of
        (Inl _, s1) \<Rightarrow> (False, s1)
      | (Inr (n, already), s1) \<Rightarrow> (already \<ge> n, s1))"

definition finalize_ft_upload :: "'w drive_env \<Rightarrow> string \<Rightarrow> 'w ft_state \<Rightarrow> 'w ft_state" where
  "finalize_ft_upload e uid s = snd (complete_ft_upload e uid s)"

fun ft_channel_loop :: "'w drive_env \<Rightarrow> string \<Rightarrow> bool \<Rightarrow> channel_event list \<Rightarrow> 'w ft_state \<Rightarrow> 'w ft_state" where
  "ft_channel_loop e uid finished [] s = finalize_ft_upload e uid s"
| "ft_channel_loop e uid finished (OnMessage data # evs) s =
     (if finished then ft_channel_loop e uid finished evs s
      else case write_ft_chunk e uid data s of (fin, s1) \<Rightarrow> ft_channel_loop e uid fin evs s1)"
| "ft_channel_loop e uid finished (OnError # evs) s = finalize_ft_upload e uid s"
| "ft_channel_loop e uid finished (OnClose # evs) s = finalize_ft_upload e uid s"

definition handle_ft_upload_channel :: "'w drive_env \<Rightarrow> string \<Rightarrow> channel_event list \<Rightarrow> 'w ft_state \<Rightarrow> 'w ft_state" where
  "handle_ft_upload_channel e label evs s =
     (if \<not> starts_with label ''ft_upload_'' then s
      else case claim_ft_upload_channel label s of
             (Inl _, s1) \<Rightarrow> s1
           | (Inr _, s1) \<Rightarrow> ft_channel_loop e label False evs s1)"

fun ft_body_loop :: "'w drive_env \<Rightarrow> string \<Rightarrow> int \<Rightarrow> body_frame list \<Rightarrow> 'w ft_state \<Rightarrow> (http_status, int) result \<times> 'w ft_state" where
  "ft_body_loop e uid n [] s = (Inr n, s)"
| "ft_body_loop e uid n (ReadError # fs) s = (Inl (500, ''Failed to read upload data''), snd (complete_ft_upload e uid s))"
| "ft_body_loop e uid n (NonData # fs) s = ft_body_loop e uid n fs s"
| "ft_body_loop e uid n (Data bs # fs) s =
     (if bs = [] then ft_body_loop e uid n fs s
      else case append_ft_upload_data e uid bs s of
             (Inr _, s1) \<Rightarrow> ft_body_loop e uid (n + int (length bs)) fs s1
           | (Inl _, s1) \<Rightarrow> (Inl (500, ''Failed to write upload data''), snd (complete_ft_upload e uid s1)))"

definition handle_ft_upload :: "'w drive_env \<Rightarrow> string \<Rightarrow> body_frame list \<Rightarrow> 'w ft_state \<Rightarrow> http_status \<times> 'w ft_state" where
  "handle_ft_upload e uid frames s =
     (if uid = [] \<or> \<not> starts_with uid ''ft_upload_'' then ((404, ''Upload not found''), s)
      else case get_ft_upload_progress uid s of
        Inl _ \<Rightarrow> ((404, ''Upload not found''), s)
      | Inr (n, already) \<Rightarrow>
          (case ft_body_loop e uid already frames s of
             (Inl r, s1) \<Rightarrow> (r, s1)
           | (Inr written, s1) \<Rightarrow>
               (case complete_ft_upload e uid s1 of
                  (Inl _, s2) \<Rightarrow> ((500, ''Failed to finalize upload''), s2)
                | (Inr _, s2) \<Rightarrow> if written < n then ((202, ''Upload partial''), s2) else ((200, ''Upload completed''), s2))))"

section \<open>Deleting\<close>

text \<open>
  The cache file of a cancelled session is looked for on the device's own file system; \<open>rm\<close> says how
  its removal there ends.
\<close>

definition remove_root_file :: "string option \<Rightarrow> string \<Rightarrow> 'w ft_state \<Rightarrow> (string, unit) result \<times> 'w ft_state" where
  "remove_root_file rm p s =
     (if p \<in> set (ft_root s) then (case rm of Some err \<Rightarrow> (Inl err, s) | None \<Rightarrow> (Inr (), s\<lparr>ft_root := filter (\<lambda>q. q \<noteq> p) (ft_root s)\<rparr>))
      else (Inr (), s))"

definition cancel_ft_upload :: "string option \<Rightarrow> string \<Rightarrow> 'w ft_state \<Rightarrow> (string, unit) result \<times> 'w ft_state" where
  "cancel_ft_upload rm path s =
     (case find (\<lambda>(uid, u). fu_final_path u = path) (ft_pending s) of
        None \<Rightarrow> (Inr (), s)
      | Some (uid, u) \<Rightarrow> remove_root_file rm (fu_upload_path u) (s\<lparr>ft_pending := hm_remove uid (ft_pending s)\<rparr>))"

definition remove_ft_closed_upload :: "string option \<Rightarrow> string \<Rightarrow> 'w ft_state \<Rightarrow> (string, unit) result \<times> 'w ft_state" where
  "remove_ft_closed_upload rm path s =
     (case find (\<lambda>(uid, u). fu_final_path u = path) (ft_closed s) of
        None \<Rightarrow> (Inr (), s)
      | Some (uid, u) \<Rightarrow> remove_root_file rm (fu_upload_path u) (s\<lparr>ft_closed := hm_remove uid (ft_closed s)\<rparr>))"

definition fs_del_file_with_file_img :: "'w drive_env \<Rightarrow> string option \<Rightarrow> string \<Rightarrow> 'w ft_state \<Rightarrow> (string, unit) result \<times> 'w ft_state" where
  "fs_del_file_with_file_img e rm path s =
     (case cancel_ft_upload rm path s of
        (Inl err, s1) \<Rightarrow> (Inl err, s1)
      | (Inr _, s1) \<Rightarrow>
          (case remove_ft_closed_upload rm path s1 of
             (Inl err, s2) \<Rightarrow> (Inl err, s2)
           | (Inr _, s2) \<Rightarrow> on_drive (delete_file e path (ft_drive s2)) s2 (\<lambda>_ s3. (Inr (), s3))))"

definition ft_drain :: "'w ft_state \<Rightarrow> 'w ft_state" where
  "ft_drain s = s\<lparr>ft_pending := []\<rparr>"


section \<open>Downloads\<close>

datatype download_msg =
    FileHeader string string nat nat nat nat nat
  | FileChunk "u8 list"
  | FileFinished string string nat nat

lemma read_next_chunk_moves:
  assumes "read_next_chunk e r d = (Inr (Some bs), r', d')"
  shows "fr_file_size r' = fr_file_size r \<and> fr_position r' = fr_position r + length bs \<and> bs \<noteq> [] \<and> fr_position r < fr_file_size r"
  using assms by (auto simp: read_next_chunk_def Let_def split: if_splits prod.splits sum.splits)

text \<open>
  The loop of the sending task; \<open>ok\<close> says which messages the channel accepts, by their number. It
  returns the chunks that were sent, how many bytes they carried and the number of the next message.
\<close>

function send_chunks ::
  "'w drive_env \<Rightarrow> (nat \<Rightarrow> bool) \<Rightarrow> nat \<Rightarrow> file_reader \<Rightarrow> 'w drive \<Rightarrow> (u8 list list \<times> nat \<times> nat) \<times> file_reader \<times> 'w drive" where
  "send_chunks e ok k r d =
     (case read_next_chunk e r d of
        (Inr (Some bs), r1, d1) \<Rightarrow>
          if \<not> ok k then (([], 0, k + 1), r1, d1)
          else (case send_chunks e ok (k + 1) r1 d1 of ((bss, n, j), x) \<Rightarrow> ((bs # bss, length bs + n, j), x))
      | (_, r1, d1) \<Rightarrow> (([], 0, k), r1, d1))"
  by pat_completeness auto
termination
  by (relation "measure (\<lambda>(e, ok, k, r, d). fr_file_size r - fr_position r)")
    (auto dest!: read_next_chunk_moves [OF sym] intro!: diff_less_mono2)

declare send_chunks.simps [simp del]

definition send_ft_file ::
  "'w drive_env \<Rightarrow> (nat \<Rightarrow> bool) \<Rightarrow> string \<Rightarrow> string \<Rightarrow> string \<Rightarrow> nat \<Rightarrow> nat \<Rightarrow> 'w drive \<Rightarrow> download_msg list \<times> 'w drive" where
  "send_ft_file e ok file_path path name offset file_size' d =
     (case create_async_reader e file_path 4096 d of
        (Inl _, d1) \<Rightarrow> ([], d1)
      | (Inr r, d1) \<Rightarrow>
      (case (if offset > 0 then skip_bytes e offset r d1 else (Inr 0, r, d1)) of
        (Inl _, r1, d2) \<Rightarrow> ([], d2)
      | (Inr _, r1, d2) \<Rightarrow>
          let len = file_size' - offset;
              count = (if len = 0 then 0 else (len + fr_chunk_size r1 - 1) div fr_chunk_size r1)
          in if \<not> ok 0 then ([], d2)
             else if len = 0
             then (FileHeader path name file_size' offset len count (fr_chunk_size r1) #
                   (if ok 1 then [FileFinished path name offset 0] else []), d2)
             else (case send_chunks e ok 1 r1 d2 of ((bss, n, j), r2, d3) \<Rightarrow>
                     (FileHeader path name file_size' offset len count (fr_chunk_size r1) # map FileChunk bss @
                      (if ok j then [FileFinished path name offset n] else []), d3))))"

definition download_ft_file ::
  "'w drive_env \<Rightarrow> string \<Rightarrow> string \<Rightarrow> nat \<Rightarrow> 'w drive \<Rightarrow> (string, nat) result \<times> 'w drive" where
  "download_ft_file e path name offset d =
     (let file_path = ft_file_path path name in
      drive_then (path_exists e file_path d) (\<lambda>ex d1.
        if \<not> ex then (Inl ''file not found'', d1)
        else drive_then (get_file_info e file_path d1) (\<lambda>i d2.
          if offset > fi_size i then (Inl ''offset beyond file size'', d2) else (Inr (fi_size i), d2))))"

section \<open>A download is the file\<close>

lemma read_next_honest:
  assumes "honest_drive e" "fr_file_size r = length (data_of d (fr_inode r))" "fr_position r < fr_file_size r" "fr_chunk_size r > 0"
  shows "\<exists>w. read_next_chunk e r d = (Inr (Some (take (fr_chunk_size r) (drop (fr_position r) (data_of d (fr_inode r))))),
     r\<lparr>fr_position := fr_position r + min (fr_chunk_size r) (fr_file_size r - fr_position r)\<rparr>, d\<lparr>dv_w := w\<rparr>)"
proof -
  let ?D = "data_of d (fr_inode r)" and ?n = "min (fr_chunk_size r) (fr_file_size r - fr_position r)"
  obtain w where w: "read_inode e ''Failed to read chunk at position'' (fr_inode r) (fr_position r) ?n d
      = (Inr (take ?n (drop (fr_position r) ?D)), d\<lparr>dv_w := w\<rparr>)"
    using honest_steps(4) [OF assms(1)] by blast
  have t: "take ?n (drop (fr_position r) ?D) = take (fr_chunk_size r) (drop (fr_position r) ?D)"
    using assms(2) by (simp add: min_def)
  have "length (take (fr_chunk_size r) (drop (fr_position r) ?D)) = ?n" "take (fr_chunk_size r) (drop (fr_position r) ?D) \<noteq> []"
    using assms(2-4) by auto
  then show ?thesis using assms(3) w unfolding t by (auto simp: read_next_chunk_def Let_def)
qed

lemma send_chunks_end: "fr_position r \<ge> fr_file_size r \<Longrightarrow> send_chunks e ok k r d = (([], 0, k), r, d)"
  by (subst send_chunks.simps) (simp add: read_next_chunk_def)

lemma packages_step:
  assumes "0 < (c::nat)" "0 < a"
  shows "Suc ((a - min c a + c - 1) div c) = (a + c - 1) div c"
proof -
  define b where "b = (if c \<le> a then a - c + c - 1 else a - 1)"
  have "a + c - 1 = b + c" using assms by (simp add: b_def)
  then have "(a + c - 1) div c = (b + c) div c" by (rule arg_cong)
  also have "\<dots> = b div c + 1" using assms(1) by (intro div_add_self2) simp
  also have "b div c = (a - min c a + c - 1) div c" using assms by (simp add: b_def min_def)
  finally show ?thesis by (simp only: Suc_eq_plus1)
qed

lemma send_chunks_exact:
  assumes "honest_drive e" "\<And>k. ok k" "fr_chunk_size r > 0" "fr_file_size r = length (data_of d (fr_inode r))"
  shows "\<exists>bss x. send_chunks e ok k r d = ((bss, fr_file_size r - fr_position r, k + length bss), x) \<and>
    concat bss = drop (fr_position r) (data_of d (fr_inode r)) \<and>
    length bss = (fr_file_size r - fr_position r + fr_chunk_size r - 1) div fr_chunk_size r"
  using assms(3,4)
proof (induction "fr_file_size r - fr_position r" arbitrary: k r d rule: less_induct)
  case less
  let ?D = "data_of d (fr_inode r)" and ?c = "fr_chunk_size r" and ?p = "fr_position r" and ?N = "fr_file_size r"
  show ?case
  proof (cases "?p < ?N")
    case True
    let ?r = "r\<lparr>fr_position := ?p + min ?c (?N - ?p)\<rparr>"
    obtain w where w: "read_next_chunk e r d = (Inr (Some (take ?c (drop ?p ?D))), ?r, d\<lparr>dv_w := w\<rparr>)"
      using read_next_honest [OF assms(1) less.prems(2) True less.prems(1)] by blast
    have m: "?N - fr_position ?r < ?N - ?p" using True less.prems(1) by (auto simp: min_def intro: diff_less_mono2)
    obtain bss x where i: "send_chunks e ok (k + 1) ?r (d\<lparr>dv_w := w\<rparr>) = ((bss, ?N - fr_position ?r, k + 1 + length bss), x)"
      "concat bss = drop (fr_position ?r) ?D" "length bss = (?N - fr_position ?r + ?c - 1) div ?c"
      using less.hyps [of ?r "d\<lparr>dv_w := w\<rparr>" "k + 1"] m less.prems by auto
    have "send_chunks e ok k r d = ((take ?c (drop ?p ?D) # bss, length (take ?c (drop ?p ?D)) + (?N - fr_position ?r), k + 1 + length bss), x)"
      by (subst send_chunks.simps) (simp only: w assms(2) i(1) prod.case sum.case option.case if_True not_True_eq_False if_False)
    moreover have "length (take ?c (drop ?p ?D)) + (?N - fr_position ?r) = ?N - ?p" using True less.prems(2) by (simp add: min_def)
    moreover have "take ?c (drop ?p ?D) @ concat bss = drop ?p ?D" unfolding i(2) using less.prems(2) True
      by (cases "?c \<le> ?N - ?p") (auto simp: min_def add.commute simp flip: drop_drop)
    moreover have "Suc (length bss) = (?N - ?p + ?c - 1) div ?c"
      unfolding i(3) using packages_step [OF less.prems(1), of "?N - ?p"] True by simp
    ultimately show ?thesis by (intro exI [of _ "take ?c (drop ?p ?D) # bss"] exI [of _ x]) simp
  qed (use less.prems in \<open>simp add: send_chunks_end\<close>)
qed

text \<open>
  C16: A download delivers the file: for a file of the drive and any offset in it, the task sends a header
  with the number of packages, as many chunks as it says, which together are the bytes from the
  offset on, and a final message with their number; provided no operation of the drive fails and the
  channel accepts every message (after a read error fewer chunks are sent, and the final message all
  the same).
\<close>

theorem ft_download_exact:
  assumes "honest_drive e" "\<And>k. ok k" "dv_mounted d" "resolve_path p = Inr t" "lookup d t = Some (FileEntry i)"
    and "data = data_of d i" "offset \<le> length data"
  shows "\<exists>bss d'. send_ft_file e ok p path name offset (length data) d =
     (FileHeader path name (length data) offset (length data - offset) (length bss) 4096 # map FileChunk bss @
      [FileFinished path name offset (length data - offset)], d') \<and> concat bss = drop offset data"
proof -
  obtain w where o: "open_existing e t d = (Inr i, d\<lparr>dv_w := w\<rparr>)" using open_existing_honest [OF assms(1,5)] by blast
  obtain w1 where s1: "seek_inode e ''Failed to get file size'' i (d\<lparr>dv_w := w\<rparr>) = (Inr (), d\<lparr>dv_w := w1\<rparr>)"
    using honest_steps(1) [OF assms(1), of _ i "d\<lparr>dv_w := w\<rparr>"] by auto
  obtain w2 where s2: "seek_inode e ''Failed to seek to beginning'' i (d\<lparr>dv_w := w1\<rparr>) = (Inr (), d\<lparr>dv_w := w2\<rparr>)"
    using honest_steps(1) [OF assms(1), of _ i "d\<lparr>dv_w := w1\<rparr>"] by auto
  let ?r = "\<lparr>fr_inode = i, fr_chunk_size = 4096, fr_position = 0, fr_file_size = length data\<rparr>"
  have c: "create_async_reader e p 4096 d = (Inr ?r, d\<lparr>dv_w := w2\<rparr>)"
    unfolding create_async_reader_def with_path_mounted [OF assms(3,4)] by (simp add: o fail_as_def drive_then_def s1 s2 assms(6))
  obtain w3 where s3: "seek_inode e ''Failed to seek to position'' i (d\<lparr>dv_w := w2\<rparr>) = (Inr (), d\<lparr>dv_w := w3\<rparr>)"
    using honest_steps(1) [OF assms(1), of _ i "d\<lparr>dv_w := w2\<rparr>"] by auto
  define w4 where "w4 = (if offset > 0 then w3 else w2)"
  have k: "\<exists>n. (if offset > 0 then skip_bytes e offset ?r (d\<lparr>dv_w := w2\<rparr>) else (Inr 0, ?r, d\<lparr>dv_w := w2\<rparr>)) =
      (Inr n, ?r\<lparr>fr_position := offset\<rparr>, d\<lparr>dv_w := w4\<rparr>)"
    using assms(7) by (auto simp: skip_bytes_def s3 w4_def Let_def)
  obtain bss x where b: "send_chunks e ok 1 (?r\<lparr>fr_position := offset\<rparr>) (d\<lparr>dv_w := w4\<rparr>) = ((bss, length data - offset, 1 + length bss), x)"
    "concat bss = drop offset data" "length bss = (length data - offset + 4096 - 1) div 4096"
    using send_chunks_exact [where e = e and ok = ok and r = "?r\<lparr>fr_position := offset\<rparr>" and d = "d\<lparr>dv_w := w4\<rparr>" and k = 1] assms(1,2,6)
    by auto
  show ?thesis
  proof (cases "length data - offset = 0")
    case True
    then show ?thesis using k assms(2,7) by (intro exI [of _ "[]"]) (auto simp: send_ft_file_def c Let_def)
  next
    case False
    then show ?thesis using k b assms(2)
      by (intro exI [of _ bss] exI [of _ "snd x"]) (cases x, auto simp: send_ft_file_def c Let_def)
  qed
qed


section \<open>An upload is the file\<close>

text \<open>A session in step: its writer, its count of bytes and its cache file agree.\<close>

definition in_step :: "string \<Rightarrow> ft_upload \<Rightarrow> file_writer \<Rightarrow> u8 list \<Rightarrow> 'w ft_state \<Rightarrow> bool" where
  "in_step uid u f c s = (hm_get (ft_pending s) uid = Some u \<and> fu_writer u = Some f \<and> fw_position f = length c \<and>
     fu_already u = int (length c) \<and> data_of (ft_drive s) (fw_inode f) = c)"

text \<open>What feeding a session leaves alone: the names on the drive and the session's own.\<close>

definition same_names :: "'w ft_state \<Rightarrow> 'w ft_state \<Rightarrow> bool" where
  "same_names s s' = (dv_mounted (ft_drive s') = dv_mounted (ft_drive s) \<and> dv_dirs (ft_drive s') = dv_dirs (ft_drive s) \<and>
     dv_files (ft_drive s') = dv_files (ft_drive s))"

definition same_session :: "ft_upload \<Rightarrow> ft_upload \<Rightarrow> bool" where
  "same_session u u' = (fu_size u' = fu_size u \<and> fu_upload_path u' = fu_upload_path u \<and> fu_final_path u' = fu_final_path u)"

lemma same_names_trans: "same_names s s1 \<Longrightarrow> same_names s1 s2 \<Longrightarrow> same_names s s2"
  by (simp add: same_names_def)

lemma same_session_trans: "same_session u v \<Longrightarrow> same_session v w \<Longrightarrow> same_session u w"
  by (simp add: same_session_def)

lemma same_names_lookup: "same_names s s' \<Longrightarrow> lookup (ft_drive s') t = lookup (ft_drive s) t"
  by (simp add: same_names_def lookup_def)

lemma write_chunk_in_step:
  assumes "honest_drive e" "fw_position f = length (data_of d (fw_inode f))"
  shows "\<exists>w. write_chunk e bs f d = (Inr (length bs),
     f\<lparr>fw_position := fw_position f + length bs, fw_written := fw_written f + length bs\<rparr>,
     set_data (fw_inode f) (data_of d (fw_inode f) @ bs) (d\<lparr>dv_w := w\<rparr>))"
proof -
  let ?i = "fw_inode f"
  obtain w1 where s: "seek_inode e ''Failed to seek to position'' ?i d = (Inr (), d\<lparr>dv_w := w1\<rparr>)"
    using honest_steps(1) [OF assms(1)] by blast
  obtain w2 where "write_step e ''Failed to write chunk at position'' ?i (length (data_of d ?i)) bs (d\<lparr>dv_w := w1\<rparr>)
      = (Inr (), set_data ?i (put_at (length (data_of d ?i)) bs (data_of d ?i)) (d\<lparr>dv_w := w2\<rparr>))"
    using honest_steps(3) [OF assms(1), of _ ?i _ bs "d\<lparr>dv_w := w1\<rparr>"] by auto
  then show ?thesis using s by (auto simp: write_chunk_def assms(2) put_at_end)
qed

lemma bytes_within_take:
  "int (length c) \<le> n \<Longrightarrow> c @ bytes_within_size (int (length c)) n bs = take (nat n) (c @ bs)"
  by (auto simp: bytes_within_size_def Let_def nat_diff_distrib)

lemma append_in_step:
  assumes "honest_drive e" "in_step uid u f c s" "int (length c) \<le> fu_size u"
  shows "\<exists>u' f' s'. append_ft_upload_data e uid bs s = (Inr (fu_size u, int (length (take (nat (fu_size u)) (c @ bs)))), s') \<and>
    in_step uid u' f' (take (nat (fu_size u)) (c @ bs)) s' \<and> fw_inode f' = fw_inode f \<and> same_session u u' \<and> same_names s s'"
proof -
  let ?b = "bytes_within_size (int (length c)) (fu_size u) bs" and ?i = "fw_inode f"
  have u: "hm_get (ft_pending s) uid = Some u" "fu_writer u = Some f" "fw_position f = length c" "fu_already u = int (length c)"
    "data_of (ft_drive s) ?i = c" using assms(2) by (simp_all add: in_step_def)
  have t: "take (nat (fu_size u)) (c @ bs) = c @ ?b" using bytes_within_take [OF assms(3)] by simp
  show ?thesis
  proof (cases "?b = []")
    case True
    then show ?thesis unfolding t
      by (intro exI [of _ u] exI [of _ f] exI [of _ s])
        (simp add: append_ft_upload_data_def Let_def u in_step_def same_session_def same_names_def)
  next
    case False
    obtain w where w: "write_chunk e ?b f (ft_drive s) = (Inr (length ?b),
        f\<lparr>fw_position := fw_position f + length ?b, fw_written := fw_written f + length ?b\<rparr>,
        set_data ?i (c @ ?b) (ft_drive s\<lparr>dv_w := w\<rparr>))"
      using write_chunk_in_step [OF assms(1), of f "ft_drive s" ?b] u by auto
    let ?f = "f\<lparr>fw_position := fw_position f + length ?b, fw_written := fw_written f + length ?b\<rparr>"
    let ?u = "u\<lparr>fu_writer := Some ?f, fu_already := fu_already u + int (length ?b)\<rparr>"
    let ?s = "s\<lparr>ft_drive := set_data ?i (c @ ?b) (ft_drive s\<lparr>dv_w := w\<rparr>), ft_pending := hm_insert uid ?u (ft_pending s)\<rparr>"
    have "append_ft_upload_data e uid bs s = (Inr (fu_size u, int (length (c @ ?b))), ?s)"
      using False by (simp add: append_ft_upload_data_def Let_def u w)
    moreover have "in_step uid ?u ?f (c @ ?b) ?s" using u by (simp add: in_step_def)
    moreover have "same_names s ?s" by (simp add: same_names_def set_data_def)
    ultimately show ?thesis unfolding t
      by (intro exI [of _ ?u] exI [of _ ?f] exI [of _ ?s]) (simp add: same_session_def)
  qed
qed

lemma loop_in_step:
  assumes "honest_drive e" "in_step uid u f c s" "int (length c) \<le> fu_size u" "fin \<Longrightarrow> int (length c) = fu_size u"
  shows "\<exists>u' f' s'. ft_channel_loop e uid fin (map OnMessage ms @ [OnClose]) s = finalize_ft_upload e uid s' \<and>
    in_step uid u' f' (take (nat (fu_size u)) (c @ concat ms)) s' \<and> fw_inode f' = fw_inode f \<and> same_session u u' \<and> same_names s s'"
  using assms(2-4)
proof (induction ms arbitrary: u f c s fin)
  case Nil
  then show ?case by (intro exI [of _ u] exI [of _ f] exI [of _ s]) (simp add: same_session_def same_names_def)
next
  case (Cons m ms)
  let ?c = "take (nat (fu_size u)) (c @ m)"
  show ?case
  proof (cases fin)
    case True
    then show ?thesis using Cons.IH [of u f c s True] Cons.prems by auto
  next
    case False
    obtain u1 f1 s1 where a: "append_ft_upload_data e uid m s = (Inr (fu_size u, int (length ?c)), s1)" "in_step uid u1 f1 ?c s1"
      "fw_inode f1 = fw_inode f" "same_session u u1" "same_names s s1" using append_in_step [OF assms(1) Cons.prems(1,2)] by blast
    have n: "fu_size u1 = fu_size u" using a(4) by (simp add: same_session_def)
    have l: "int (length ?c) \<le> fu_size u" using Cons.prems(2) by simp
    obtain u2 f2 s2 where b: "ft_channel_loop e uid (int (length ?c) \<ge> fu_size u) (map OnMessage ms @ [OnClose]) s1 = finalize_ft_upload e uid s2"
      "in_step uid u2 f2 (take (nat (fu_size u)) (?c @ concat ms)) s2" "fw_inode f2 = fw_inode f1" "same_session u1 u2" "same_names s1 s2"
      using Cons.IH [OF a(2), unfolded n, OF l, of "int (length ?c) \<ge> fu_size u"] order_antisym [OF l] by blast
    have c: "take (nat (fu_size u)) (?c @ concat ms) = take (nat (fu_size u)) (c @ concat (m # ms))" by (simp add: min_def)
    have "ft_channel_loop e uid fin (map OnMessage (m # ms) @ [OnClose]) s = finalize_ft_upload e uid s2"
      using False b(1) by (simp add: write_ft_chunk_def a(1))
    then show ?thesis using b a same_session_trans same_names_trans unfolding c
      by (intro exI [of _ u2] exI [of _ f2] exI [of _ s2]) (auto intro: same_session_trans same_names_trans)
  qed
qed

lemma create_parent_honest:
  assumes "honest_drive e" "\<not> list_ex (\<lambda>q. hm_get (dv_files d) q \<noteq> None) (prefixes (butlast (fst t)))"
  shows "\<exists>d'. create_parent e t d = (Inr (), d') \<and> dv_files d' = dv_files d \<and> dv_data d' = dv_data d \<and> dv_mounted d' = dv_mounted d \<and>
    set (dv_dirs d') \<subseteq> set (dv_dirs d) \<union> set (prefixes (butlast (fst t))) \<and> lookup d' t = lookup d t"
proof -
  obtain d' where d: "create_parent e t d = (Inr (), d')" "set (dv_dirs d') \<subseteq> set (dv_dirs d) \<union> set (prefixes (butlast (fst t)))"
  proof (cases "fst t = []")
    case True
    then show ?thesis using that [of d] by (auto simp: create_parent_def)
  next
    case False
    obtain w where "drive_try e (MkDirs (butlast (fst t))) d = (None, d\<lparr>dv_w := w\<rparr>)" using honest_try [OF assms(1)] by blast
    then have "create_parent e t d = (Inr (), d\<lparr>dv_w := w,
        dv_dirs := dv_dirs d @ filter (\<lambda>q. q \<notin> set (dv_dirs d)) (prefixes (butlast (fst t)))\<rparr>)"
      using False assms(2) by (simp add: create_parent_def create_dir_all_def)
    then show ?thesis by (rule that) auto
  qed
  then show ?thesis using create_parent_ok [OF d(1)] by blast
qed

lemma rename_honest:
  assumes "honest_drive e" "dv_mounted d" "resolve_path p = Inr old" "resolve_path q = Inr (new, False)"
    and "lookup d old = Some (FileEntry i)" "new \<notin> set (dv_dirs d)"
    and "\<not> list_ex (\<lambda>q. hm_get (dv_files d) q \<noteq> None) (prefixes (butlast new))"
  shows "\<exists>d'. rename_path e p q d = (Inr (), d') \<and> dv_mounted d' \<and> lookup d' (new, False) = Some (FileEntry i) \<and> data_of d' i = data_of d i"
proof -
  obtain d1 where c: "create_parent e (new, False) d = (Inr (), d1)" "dv_files d1 = dv_files d" "dv_data d1 = dv_data d" "dv_mounted d1 = dv_mounted d"
    "set (dv_dirs d1) \<subseteq> set (dv_dirs d) \<union> set (prefixes (butlast new))" "lookup d1 (new, False) = lookup d (new, False)"
    using create_parent_honest [OF assms(1), of d "(new, False)"] assms(7) by auto
  have f: "fst old \<notin> set (dv_dirs d)" "hm_get (dv_files d) (fst old) = Some i" "\<not> snd old"
    using assms(5) by (auto simp: lookup_def split: if_splits option.splits)
  have "fst old \<notin> set (prefixes (butlast new))" using assms(7) f(2) by (auto simp: list_ex_iff)
  then have o: "fst old \<notin> set (dv_dirs d1)" using f c(5) by blast
  have n: "new \<notin> set (dv_dirs d1)" using c(6) assms(6) by (auto simp: lookup_def split: if_splits option.splits)
  obtain w where w: "drive_try e (MovePath (fst old) new) d1 = (None, d1\<lparr>dv_w := w\<rparr>)" using honest_try [OF assms(1)] by blast
  have l: "lookup d1 old = Some (FileEntry i)" using o f c(2) by (simp add: lookup_def)
  have "rename_path e p q d = (Inr (), d1\<lparr>dv_w := w, dv_files := hm_insert new i (hm_remove (fst old) (dv_files d))\<rparr>)"
    unfolding rename_path_def with_path_mounted [OF assms(2,3)] with_path_mounted [OF assms(2,4)]
    using n by (simp add: c(1,2) drive_then_def fail_as_def fs_rename_def w l)
  then show ?thesis using n assms(2) by (simp add: lookup_def data_of_def c(3,4))
qed

lemma complete_in_step:
  assumes "honest_drive e" "in_step uid u f data s" "fu_size u = int (length data)" "dv_mounted (ft_drive s)"
    and "resolve_path (fu_upload_path u) = Inr old" "resolve_path (fu_final_path u) = Inr (new, False)"
    and "lookup (ft_drive s) old = Some (FileEntry (fw_inode f))" "new \<notin> set (dv_dirs (ft_drive s))"
    and "\<not> list_ex (\<lambda>q. hm_get (dv_files (ft_drive s)) q \<noteq> None) (prefixes (butlast new))"
  shows "\<exists>s'. complete_ft_upload e uid s = (Inr (), s') \<and> hm_get (ft_pending s') uid = None \<and> ft_closed s' = ft_closed s \<and>
    (\<exists>d'. read_file e (fu_final_path u) (ft_drive s') = (Inr data, d'))"
proof -
  have u: "hm_get (ft_pending s) uid = Some u" "fu_writer u = Some f" "fu_already u = fu_size u"
    "data_of (ft_drive s) (fw_inode f) = data" using assms(2,3) by (simp_all add: in_step_def)
  obtain w where w: "writer_flush e f (ft_drive s) = (Inr (), ft_drive s\<lparr>dv_w := w\<rparr>)"
    using honest_steps(2) [OF assms(1)] unfolding writer_flush_def by blast
  obtain d' where d: "rename_path e (fu_upload_path u) (fu_final_path u) (ft_drive s\<lparr>dv_w := w\<rparr>) = (Inr (), d')"
    "dv_mounted d'" "lookup d' (new, False) = Some (FileEntry (fw_inode f))" "data_of d' (fw_inode f) = data"
    using rename_honest [OF assms(1) _ assms(5,6), of "ft_drive s\<lparr>dv_w := w\<rparr>" "fw_inode f"] assms(4,7-9) u(4) by auto
  have "\<exists>x. read_file e (fu_final_path u) d' = (Inr data, x)"
    using read_range_honest(2) [OF assms(1) d(2) assms(6) d(3)] d(4) by simp
  then show ?thesis using u d(1) by (simp add: complete_ft_upload_def w Let_def)
qed

text \<open>
  C14: An upload publishes the file: a channel that feeds a session in step with its cache file, in messages
  of any length, and closes leaves under the final name the bytes that were in the cache followed by those
  that were sent, cut at the declared size, and the session is gone; provided at least as many bytes were
  sent as the declared size asks for, no operation of the drive fails, the drive is mounted and nothing
  stands in the way of the final name.
\<close>

theorem ft_upload_exact:
  assumes honest: "honest_drive e" and step: "in_step uid u f c s" and chan: "starts_with uid ''ft_upload_''" "\<not> fu_channel_open u"
    and data: "data = take (nat (fu_size u)) (c @ concat ms)" "fu_size u = int (length data)" "int (length c) \<le> fu_size u"
    and drive: "dv_mounted (ft_drive s)" "resolve_path (fu_upload_path u) = Inr old" "lookup (ft_drive s) old = Some (FileEntry (fw_inode f))"
    and free: "resolve_path (fu_final_path u) = Inr (new, False)" "new \<notin> set (dv_dirs (ft_drive s))"
      "\<not> list_ex (\<lambda>q. hm_get (dv_files (ft_drive s)) q \<noteq> None) (prefixes (butlast new))"
  shows "hm_get (ft_pending (handle_ft_upload_channel e uid (map OnMessage ms @ [OnClose]) s)) uid = None \<and>
    (\<exists>d'. read_file e (fu_final_path u) (ft_drive (handle_ft_upload_channel e uid (map OnMessage ms @ [OnClose]) s)) = (Inr data, d'))"
proof -
  let ?u = "u\<lparr>fu_channel_open := True\<rparr>"
  let ?s = "s\<lparr>ft_pending := hm_insert uid ?u (ft_pending s)\<rparr>"
  have c: "claim_ft_upload_channel uid s = (Inr (), ?s)"
    using step chan(2) by (simp add: claim_ft_upload_channel_def in_step_def)
  have i: "in_step uid ?u f c ?s" using step by (simp add: in_step_def)
  obtain v g s1 where l: "ft_channel_loop e uid False (map OnMessage ms @ [OnClose]) ?s = finalize_ft_upload e uid s1"
    "in_step uid v g data s1" "fw_inode g = fw_inode f" "same_session ?u v" "same_names ?s s1"
    unfolding data(1) using loop_in_step [OF honest i, of False ms] data(3) by auto
  have v: "fu_size v = int (length data)" "fu_upload_path v = fu_upload_path u" "fu_final_path v = fu_final_path u"
    using l(4) data(2) by (simp_all add: same_session_def)
  have n: "dv_mounted (ft_drive s1)" "dv_dirs (ft_drive s1) = dv_dirs (ft_drive s)" "dv_files (ft_drive s1) = dv_files (ft_drive s)"
    "lookup (ft_drive s1) old = Some (FileEntry (fw_inode g))"
    using l(5) same_names_lookup [OF l(5), of old] drive l(3) by (simp_all add: same_names_def)
  obtain s2 where "complete_ft_upload e uid s1 = (Inr (), s2)" "hm_get (ft_pending s2) uid = None"
    "\<exists>d'. read_file e (fu_final_path u) (ft_drive s2) = (Inr data, d')"
    using complete_in_step [OF honest l(2) v(1) n(1), of old new] drive free n v by auto
  then show ?thesis using chan(1) c l(1) by (simp add: handle_ft_upload_channel_def finalize_ft_upload_def)
qed

definition drive_env_demo :: "unit drive_env" where
  "drive_env_demo = \<lparr>de_io = \<lambda>_ w. (None, w), de_write = \<lambda>n w. ((n, None), w), de_mtime = \<lambda>_. None, de_dirlen = \<lambda>_. 4096, de_left = \<lambda>_. False\<rparr>"

definition drive_demo :: "unit drive" where
  "drive_demo = \<lparr>dv_mounted = True, dv_dirs = [[]], dv_files = [([''a.ftcache''], 0)], dv_data = [(0, [1, 2])], dv_next = 1, dv_w = ()\<rparr>"

definition writer_demo :: file_writer where
  "writer_demo = \<lparr>fw_inode = 0, fw_append = True, fw_position = 2, fw_written = 2\<rparr>"

definition upload_demo :: ft_upload where
  "upload_demo = \<lparr>fu_writer = Some writer_demo, fu_size = 5, fu_already = 2, fu_upload_path = ''/a.ftcache'', fu_final_path = ''/a'', fu_channel_open = False\<rparr>"

definition ft_demo :: "unit ft_state" where
  "ft_demo = \<lparr>ft_drive = drive_demo, ft_pending = [(''ft_upload_1'', upload_demo)], ft_closed = [], ft_root = []\<rparr>"

lemma honest_demo: "honest_drive drive_env_demo"
  by (simp add: honest_drive_def drive_env_demo_def)

lemma resolve_demo: "resolve_path ''/a'' = Inr ([''a''], False)" "resolve_path ''/a.ftcache'' = Inr ([''a.ftcache''], False)"
  by (simp_all add: resolve_path_def starts_with_def Let_def unsafe_component_def)

theorem ft_upload_exact_witness:
  "\<exists>d'. read_file drive_env_demo ''/a'' (ft_drive (handle_ft_upload_channel drive_env_demo ''ft_upload_1''
     (map OnMessage [[3], [4, 5, 6], [7]] @ [OnClose]) ft_demo)) = (Inr [1, 2, 3, 4, 5], d')"
  using ft_upload_exact [where e = drive_env_demo and uid = "''ft_upload_1''" and u = upload_demo and f = writer_demo and c = "[1, 2]"
      and s = ft_demo and data = "[1, 2, 3, 4, 5]" and ms = "[[3], [4, 5, 6], [7]]" and old = "([''a.ftcache''], False)" and new = "[''a'']"]
    honest_demo resolve_demo
  by (simp add: in_step_def ft_demo_def upload_demo_def writer_demo_def drive_demo_def data_of_def lookup_def starts_with_def)

definition download_drive :: "unit drive" where
  "download_drive = drive_demo\<lparr>dv_files := [([''a''], 0)]\<rparr>"

theorem ft_download_exact_witness:
  "\<exists>bss d'. send_ft_file drive_env_demo (\<lambda>_. True) ''/a'' '''' ''a'' 1 (length [1, 2 :: u8]) download_drive =
     (FileHeader '''' ''a'' (length [1, 2 :: u8]) 1 (length [1, 2 :: u8] - 1) (length bss) 4096 # map FileChunk bss @
      [FileFinished '''' ''a'' 1 (length [1, 2 :: u8] - 1)], d') \<and> concat bss = drop 1 [1, 2]"
  by (rule ft_download_exact [OF honest_demo TrueI _ resolve_demo(1), of _ 0])
    (simp_all add: download_drive_def drive_demo_def data_of_def lookup_def)

section \<open>What a start request answers\<close>

lemma with_path_ok:
  assumes "with_path d p f = (Inr y, d')"
  obtains t where "resolve_path p = Inr t" "f t = (Inr y, d')"
  using assms unfolding with_path_def
  by (cases "bind_res (ensure_mounted d) (\<lambda>_. resolve_path p)"; cases "ensure_mounted d") auto

lemma writer_opens:
  assumes "create_async_writer e p k d = (Inr f, d')"
  obtains t where "resolve_path p = Inr t" "lookup d' t = Some (FileEntry (fw_inode f))" "fw_position f = k"
    "data_of d' (fw_inode f) = (if k = 0 \<or> lookup d t = None then [] else data_of d (fw_inode f))"
    "lookup d t = None \<or> lookup d t = Some (FileEntry (fw_inode f))"
proof -
  obtain t where t: "resolve_path p = Inr t"
    "drive_then (create_parent e t d) (\<lambda>_ d1. drive_then (open_create e (k = 0) t d1) (\<lambda>i d2.
       (Inr \<lparr>fw_inode = i, fw_append = (k > 0), fw_position = k, fw_written = k\<rparr>, d2))) = (Inr f, d')"
    using assms unfolding create_async_writer_def by (rule with_path_ok)
  obtain u d1 where c: "create_parent e t d = (Inr u, d1)"
    "drive_then (open_create e (k = 0) t d1) (\<lambda>i d2. (Inr \<lparr>fw_inode = i, fw_append = (k > 0), fw_position = k, fw_written = k\<rparr>, d2)) = (Inr f, d')"
    using t(2) by (rule drive_thenE)
  obtain i where o: "open_create e (k = 0) t d1 = (Inr i, d')" "fw_inode f = i" "fw_position f = k" using c(2) by (rule drive_thenE) auto
  note q = open_create_ok [OF o(1)] create_parent_ok [OF c(1)]
  show thesis by (rule that [OF t(1)]) (use o q in \<open>auto simp: data_of_def\<close>)
qed

lemma file_size_ok:
  assumes "file_size e p d = (Inr n, d')"
  obtains t w where "resolve_path p = Inr t" "d' = d\<lparr>dv_w := w\<rparr>" "\<And>i. lookup d t = Some (FileEntry i) \<Longrightarrow> n = length (data_of d i)"
proof -
  obtain t where t: "resolve_path p = Inr t"
    "drive_then (fail_as ''Failed to get file metadata'' (metadata e t d)) (\<lambda>x d1. (Inr (entry_len e (fst t) d1 x), d1)) = (Inr n, d')"
    using assms unfolding file_size_def by (rule with_path_ok)
  obtain x where x: "metadata e t d = (Inr x, d')" "n = entry_len e (fst t) d' x"
    using t(2) by (auto elim!: drive_thenE dest!: fail_as_ok)
  obtain r d1 where r: "drive_try e (StatPath (fst t)) d = (r, d1)" by force
  obtain w where "d1 = d\<lparr>dv_w := w\<rparr>" using drive_try_frame [OF r] by blast
  then have "d' = d\<lparr>dv_w := w\<rparr>" "lookup d t = Some x" using x(1) by (auto simp: metadata_def r split: option.splits)
  then show thesis using x(2) by (intro that [OF t(1)]) (auto simp: entry_len_def)
qed

lemma on_drive_ok:
  assumes "on_drive r s f = (Inr y, s')"
  obtains a d where "r = (Inr a, d)" "f a (s\<lparr>ft_drive := d\<rparr>) = (Inr y, s')"
  using assms by (auto simp: on_drive_def split: prod.splits sum.splits)

lemma reuse_none: "find (same_upload p n) (ft_pending s) = None \<Longrightarrow> reuse_pending b p n s = None"
  by (simp add: reuse_pending_def)

lemma reuse_drive [simp]: "reuse_pending b p n (s\<lparr>ft_drive := d\<rparr>) = reuse_pending b p n s"
  by (simp add: reuse_pending_def)

text \<open>A session that can be fed: in step with the cache file of its name, with no channel yet.\<close>

definition ready_session :: "string \<Rightarrow> string \<Rightarrow> int \<Rightarrow> string \<Rightarrow> 'w ft_state \<Rightarrow> bool" where
  "ready_session file_path cache_path off uid s = (\<exists>u f c t. in_step uid u f c s \<and> off = int (length c) \<and> \<not> fu_channel_open u \<and>
     fu_final_path u = file_path \<and> fu_upload_path u = cache_path \<and> resolve_path cache_path = Inr t \<and>
     lookup (ft_drive s) t = Some (FileEntry (fw_inode f)))"

lemma start_new_ready:
  assumes "start_new e uuid fp cp n s = (Inr (off, uid), s')" "find (same_upload fp n) (ft_pending s) = None"
  shows "ready_session fp cp off uid s' \<and> (\<exists>u. hm_get (ft_pending s') uid = Some u \<and> fu_size u = n)"
proof -
  obtain d1 f d2 where w: "create_async_writer e cp 0 d1 = (Inr f, d2)" and o: "off = 0" "uid = ''ft_upload_'' @ uuid"
    "s' = s\<lparr>ft_drive := d2, ft_pending := hm_insert uid \<lparr>fu_writer = Some f, fu_size = n, fu_already = 0,
        fu_upload_path = cp, fu_final_path = fp, fu_channel_open = False\<rparr> (ft_pending s)\<rparr>"
    using assms(1) unfolding start_new_def by (elim on_drive_ok) (auto simp: reuse_none [OF assms(2)] Let_def)
  obtain t where t: "resolve_path cp = Inr t" "lookup d2 t = Some (FileEntry (fw_inode f))" "fw_position f = 0"
    "data_of d2 (fw_inode f) = []" using w by (rule writer_opens) auto
  show ?thesis using t unfolding o(3) ready_session_def in_step_def by (auto simp: o(1))
qed

lemma start_resume_ready:
  assumes "start_resume e uuid fp cp k n s = (Inr (off, uid), s')" "find (same_upload fp n) (ft_pending s) = None" "k \<ge> 0"
    and "resolve_path cp = Inr t" "\<And>i. lookup (ft_drive s) t = Some (FileEntry i) \<Longrightarrow> nat k = length (data_of (ft_drive s) i)"
    and "lookup (ft_drive s) t \<noteq> None"
  shows "ready_session fp cp off uid s'"
proof -
  obtain f d1 where w: "create_async_writer e cp (nat k) (ft_drive s) = (Inr f, d1)" and r:
    "(case find (closed_match fp cp k) (ft_closed s) of
        Some (uid, u) \<Rightarrow> (Inr (k, uid), s\<lparr>ft_drive := d1, ft_closed := hm_remove uid (ft_closed s),
          ft_pending := hm_insert uid (u\<lparr>fu_channel_open := False, fu_already := k, fu_writer := Some f\<rparr>) (ft_pending s)\<rparr>)
      | None \<Rightarrow> start_new e uuid fp cp n (s\<lparr>ft_drive := d1\<rparr>)) = (Inr (off, uid), s')"
    using assms(1) unfolding start_resume_def by (elim on_drive_ok) (simp add: reuse_none [OF assms(2)] cong: option.case_cong prod.case_cong)
  have p: "find (same_upload fp n) (ft_pending (s\<lparr>ft_drive := d1\<rparr>)) = None" using assms(2) by simp
  show ?thesis
  proof (cases "find (closed_match fp cp k) (ft_closed s)")
    case None
    then have "start_new e uuid fp cp n (s\<lparr>ft_drive := d1\<rparr>) = (Inr (off, uid), s')" using r by simp
    then show ?thesis using start_new_ready p by blast
  next
    case (Some x)
    obtain uid' u where x: "x = (uid', u)" by force
    have m: "fu_final_path u = fp" "fu_upload_path u = cp" using Some by (auto simp: find_Some_iff closed_match_def x)
    have o: "off = k" "uid = uid'" "s' = s\<lparr>ft_drive := d1, ft_closed := hm_remove uid (ft_closed s),
        ft_pending := hm_insert uid (u\<lparr>fu_channel_open := False, fu_already := k, fu_writer := Some f\<rparr>) (ft_pending s)\<rparr>"
      using r Some by (auto simp: x)
    have "fw_position f = nat k" "length (data_of d1 (fw_inode f)) = nat k" "lookup d1 t = Some (FileEntry (fw_inode f))"
      using w assms(4-6) by (auto elim!: writer_opens split: if_splits)
    then show ?thesis using assms(3,4) m unfolding o(3) ready_session_def in_step_def by (auto simp: o(1))
  qed
qed

lemma find_filter_None: "find P xs = None \<Longrightarrow> find P (filter Q xs) = None"
  by (auto simp: find_None_iff)

lemma discard_ok:
  assumes "discard_ft_cache e fp cp s = (Inr u, s')"
  shows "ft_pending s' = filter (\<lambda>x. \<not> on_paths fp cp x) (ft_pending s)"
  using assms by (auto simp: discard_ft_cache_def Let_def elim!: on_drive_ok split: if_splits prod.splits sum.splits)

lemma bind_ok: "bind_res r f = Inr y \<Longrightarrow> (\<And>a. r = Inr a \<Longrightarrow> f a = Inr y \<Longrightarrow> P) \<Longrightarrow> P"
  by (cases r) auto

lemma cache_seen:
  assumes "path_exists e p d = (Inr True, d')"
  obtains t w where "resolve_path p = Inr t" "d' = d\<lparr>dv_w := w\<rparr>" "lookup d t \<noteq> None"
proof -
  obtain t where t: "resolve_path p = Inr t" "(case metadata e t d of (r, d1) \<Rightarrow> (Inr (is_ok r) :: (string, bool) result, d1)) = (Inr True, d')"
    using assms unfolding path_exists_def by (rule with_path_ok)
  obtain r d1 where r: "drive_try e (StatPath (fst t)) d = (r, d1)" by force
  obtain w where "d1 = d\<lparr>dv_w := w\<rparr>" using drive_try_frame [OF r] by blast
  then show thesis using t by (intro that [OF t(1)]) (auto simp: metadata_def r split: option.splits)
qed

text \<open>
  C15: A start request for a file that no session is feeding answers a session that can be fed: the offset
  it reports is the length of the cache file the session's writer stands at the end of, a kept
  one or a fresh one, however the requests before it ended and whatever fails on the drive.
\<close>

theorem ft_start_in_step:
  assumes "start_ft_file_upload e uuid path name n s = (Inr (off, uid), s')"
    and "find (same_upload (ft_file_path path name) n) (ft_pending s) = None"
  shows "ready_session (ft_file_path path name) (ft_cache_path path name) off uid s'"
proof -
  let ?fp = "ft_file_path path name" and ?cp = "ft_cache_path path name"
  obtain ex d1 where s1: "(if ex then (Inl ''File already exists'', s\<lparr>ft_drive := d1\<rparr>)
      else on_drive (path_exists e ?cp (ft_drive (s\<lparr>ft_drive := d1\<rparr>))) (s\<lparr>ft_drive := d1\<rparr>) (\<lambda>cached s2.
      on_drive (if cached then (case file_size e ?cp (ft_drive s2) of (r, d) \<Rightarrow> (bind_res r (\<lambda>k. Inr (int k)), d)) else (Inr (- 1), ft_drive s2)) s2
        (\<lambda>k s3. case reuse_pending True ?fp n s3 of Some r \<Rightarrow> (r, s3)
      | None \<Rightarrow>
          if k \<ge> 0 \<and> (k > n \<or> \<not> ft_closed_matches ?fp ?cp k s3)
          then (case discard_ft_cache e ?fp ?cp s3 of (Inl err, s4) \<Rightarrow> (Inl err, s4) | (Inr _, s4) \<Rightarrow> start_new e uuid ?fp ?cp n s4)
          else if k \<ge> 0 then start_resume e uuid ?fp ?cp k n s3 else start_new e uuid ?fp ?cp n s3))) = (Inr (off, uid), s')"
    using assms(1) unfolding start_ft_file_upload_def Let_def by (rule on_drive_ok)
  then have "\<not> ex" by (auto split: if_splits)
  then obtain cached d2 k d3 where c: "path_exists e ?cp d1 = (Inr cached, d2)"
    and z: "(if cached then (case file_size e ?cp d2 of (r, d) \<Rightarrow> (bind_res r (\<lambda>k. Inr (int k)), d)) else (Inr (- 1), d2)) = (Inr k, d3)"
    and r: "(if k \<ge> 0 \<and> (k > n \<or> \<not> ft_closed_matches ?fp ?cp k (s\<lparr>ft_drive := d3\<rparr>))
       then (case discard_ft_cache e ?fp ?cp (s\<lparr>ft_drive := d3\<rparr>) of (Inl err, s4) \<Rightarrow> (Inl err, s4) | (Inr _, s4) \<Rightarrow> start_new e uuid ?fp ?cp n s4)
       else if k \<ge> 0 then start_resume e uuid ?fp ?cp k n (s\<lparr>ft_drive := d3\<rparr>) else start_new e uuid ?fp ?cp n (s\<lparr>ft_drive := d3\<rparr>)) = (Inr (off, uid), s')"
    using s1 by (auto simp: reuse_none [OF assms(2)] elim!: on_drive_ok cong: if_cong)
  have p: "find (same_upload ?fp n) (ft_pending (s\<lparr>ft_drive := d3\<rparr>)) = None" using assms(2) by simp
  consider (new) "start_new e uuid ?fp ?cp n (s\<lparr>ft_drive := d3\<rparr>) = (Inr (off, uid), s')"
    | (dropped) u s4 where "discard_ft_cache e ?fp ?cp (s\<lparr>ft_drive := d3\<rparr>) = (Inr u, s4)" "start_new e uuid ?fp ?cp n s4 = (Inr (off, uid), s')"
    | (resumed) "k \<ge> 0" "start_resume e uuid ?fp ?cp k n (s\<lparr>ft_drive := d3\<rparr>) = (Inr (off, uid), s')"
    using r by (auto split: if_splits prod.splits sum.splits)
  then show ?thesis
  proof cases
    case new
    then show ?thesis using start_new_ready p by blast
  next
    case dropped
    have "find (same_upload ?fp n) (ft_pending s4) = None" using discard_ok [OF dropped(1)] find_filter_None [OF p] by simp
    then show ?thesis using start_new_ready dropped(2) by blast
  next
    case resumed
    then have y: "cached" using z by (auto split: if_splits)
    then obtain t w where t: "resolve_path ?cp = Inr t" "d2 = d1\<lparr>dv_w := w\<rparr>" "lookup d1 t \<noteq> None" using c by (auto elim: cache_seen)
    obtain m where m: "file_size e ?cp d2 = (Inr m, d3)" "k = int m" using z y by (auto split: prod.splits elim!: bind_ok)
    obtain w' where w: "d3 = d2\<lparr>dv_w := w'\<rparr>" "\<And>i. lookup d2 t = Some (FileEntry i) \<Longrightarrow> m = length (data_of d2 i)"
      using m(1) t(1) by (auto elim: file_size_ok)
    show ?thesis by (rule start_resume_ready [OF resumed(2) p resumed(1) t(1)]) (use w t m in auto)
  qed
qed


definition ft_kept_demo :: "unit ft_state" where
  "ft_kept_demo = \<lparr>ft_drive = drive_demo, ft_pending = [], ft_closed = [(''ft_upload_1'', upload_demo\<lparr>fu_writer := None\<rparr>)], ft_root = []\<rparr>"

text \<open>A file of two bytes kept from an earlier session is taken up at its end.\<close>

lemma start_demo:
  "start_ft_file_upload drive_env_demo ''2'' '''' ''a'' 9 ft_kept_demo =
     (Inr (2, ''ft_upload_1''), ft_demo)"
  by (simp add: start_ft_file_upload_def ft_file_path_def ft_cache_path_def on_drive_def path_exists_def with_path_def ensure_mounted_def resolve_demo
      metadata_def drive_try_def file_size_def drive_then_def fail_as_def entry_len_def lookup_def data_of_def reuse_pending_def ft_closed_matches_def
      closed_match_def start_resume_def create_async_writer_def create_parent_def create_dir_all_def open_create_def hm_remove_def hm_insert_def
      ft_kept_demo_def ft_demo_def drive_demo_def upload_demo_def writer_demo_def drive_env_demo_def Let_def)

theorem ft_start_in_step_witness: "ready_session ''/a'' ''/a.ftcache'' 2 ''ft_upload_1'' ft_demo"
  using ft_start_in_step [OF start_demo] by (simp add: ft_kept_demo_def ft_file_path_def ft_cache_path_def)

text \<open>
  The size of a kept session is not compared with the size that is asked for: a file that has grown, or
  another of the same name, is resumed with the size of the earlier one, and is cut there when it is
  published. In the example nine bytes are announced and the session is still one of five.
\<close>

theorem ft_resume_keeps_size:
  assumes "start_resume e uuid fp cp k n s = (Inr (off, uid), s')" "find (same_upload fp n) (ft_pending s) = None"
    and "find (closed_match fp cp k) (ft_closed s) = Some (uid', u)"
  shows "uid = uid' \<and> (\<exists>u'. hm_get (ft_pending s') uid = Some u' \<and> fu_size u' = fu_size u)"
  using assms(1) unfolding start_resume_def by (elim on_drive_ok) (auto simp: reuse_none [OF assms(2)] assms(3))

end
