(* ===== verification/Ota_Update.thy ===== *)
theory Ota_Update
  imports Kvm_Prelude
begin

text \<open>
  Firmware update: the tasks of \<^verbatim>\<open>ota.rs\<close> and the download of \<^verbatim>\<open>cloud/manager.rs\<close>. Every spawned
  task is a value of \<open>ota_task\<close>, the point it has reached between two awaits; \<open>ota_step\<close> lets one task
  go on, or serves one request, so a run is any interleaving of them. What the network, the file
  system and the clock answer is in the world of each step. Log messages and the progress reports
  of a download are left out.
\<close>

section \<open>Downloading a package\<close>

definition MAX_RETRIES :: nat where "MAX_RETRIES = 12"

datatype net_event =
    IoDone "string option"
  | HeadAnswer "(string, nat) result"
  | SendFailed string
  | Answer nat
  | Chunk "u8 list" "(nat \<times> string) option"
  | ChunkFailed string
  | StreamEnd

datatype dl_phase = DlDir | DlHead | DlOpen | DlRequest | DlStream | DlSync | DlHash

record download =
  dl_phase :: dl_phase
  dl_total :: nat
  dl_downloaded :: nat
  dl_retry :: nat

definition download_new :: download where
  "download_new = \<lparr>dl_phase = DlDir, dl_total = 0, dl_downloaded = 0, dl_retry = 0\<rparr>"

text \<open>The \<open>Range\<close> header of the next request: none before the first byte, then from there on.\<close>

definition range_header :: "download \<Rightarrow> string option" where
  "range_header d =
     (if dl_downloaded d > 0 then Some (''bytes='' @ nat_to_dec (dl_downloaded d) @ ''-'') else None)"

datatype dl_result = Going download | Done "(string, string) result"

definition retry_or :: "string \<Rightarrow> download \<Rightarrow> dl_result" where
  "retry_or err d =
     (if dl_retry d + 1 > MAX_RETRIES then Done (Inl err)
      else Going (d\<lparr>dl_phase := DlRequest, dl_retry := dl_retry d + 1\<rparr>))"

definition append_package :: "u8 list \<Rightarrow> u8 list option \<Rightarrow> u8 list option" where
  "append_package bs p = map_option (\<lambda>d. d @ bs) p"

text \<open>
  One event of the download. The file is truncated when it is opened and grows with every chunk; a
  chunk that cannot be written ends the download after the bytes that still went through.
\<close>

definition download_step ::
  "(u8 list \<Rightarrow> string) \<Rightarrow> net_event \<Rightarrow> download \<Rightarrow> u8 list option \<Rightarrow> dl_result \<times> u8 list option" where
  "download_step sha ev d p =
     (case (dl_phase d, ev) of
        (DlDir, IoDone None) \<Rightarrow> (Going (d\<lparr>dl_phase := DlHead\<rparr>), p)
      | (DlDir, IoDone (Some err)) \<Rightarrow> (Done (Inl err), p)
      | (DlHead, HeadAnswer (Inr n)) \<Rightarrow> (Going (d\<lparr>dl_phase := DlOpen, dl_total := n\<rparr>), p)
      | (DlHead, HeadAnswer (Inl err)) \<Rightarrow> (Done (Inl err), p)
      | (DlOpen, IoDone None) \<Rightarrow> (Going (d\<lparr>dl_phase := DlRequest\<rparr>), Some [])
      | (DlOpen, IoDone (Some err)) \<Rightarrow> (Done (Inl err), p)
      | (DlRequest, SendFailed err) \<Rightarrow> (retry_or (''Failed to send download request after 12 retries: '' @ err) d, p)
      | (DlRequest, Answer st) \<Rightarrow>
          (if 200 \<le> st \<and> st < 300 then (Going (d\<lparr>dl_phase := DlStream\<rparr>), p)
           else (Done (Inl (''Download file failed: HTTP '' @ nat_to_dec st)), p))
      | (DlStream, Chunk bs None) \<Rightarrow>
          (Going (d\<lparr>dl_retry := 0, dl_downloaded := dl_downloaded d + length bs\<rparr>), append_package bs p)
      | (DlStream, Chunk bs (Some (n, err))) \<Rightarrow> (Done (Inl err), append_package (take n bs) p)
      | (DlStream, ChunkFailed err) \<Rightarrow> (retry_or (''Download failed after 12 retries: '' @ err) d, p)
      | (DlStream, StreamEnd) \<Rightarrow>
          (if dl_downloaded d \<ge> dl_total d then (Going (d\<lparr>dl_phase := DlSync\<rparr>), p)
           else (retry_or ''Download incomplete after 12 retries'' d, p))
      | (DlSync, IoDone None) \<Rightarrow> (Going (d\<lparr>dl_phase := DlHash\<rparr>), p)
      | (DlSync, IoDone (Some err)) \<Rightarrow> (Done (Inl err), p)
      | (DlHash, IoDone None) \<Rightarrow>
          (case p of Some data \<Rightarrow> (Done (Inr (sha data)), p) | None \<Rightarrow> (Done (Inl ''No such file or directory''), p))
      | (DlHash, IoDone (Some err)) \<Rightarrow> (Done (Inl err), p)
      | _ \<Rightarrow> (Going d, p))"

text \<open>The whole download over a list of events; \<open>None\<close> when the list ends before the download does.\<close>

primrec download_file ::
  "(u8 list \<Rightarrow> string) \<Rightarrow> net_event list \<Rightarrow> download \<Rightarrow> u8 list option \<Rightarrow> ((string, string) result \<times> u8 list option) option" where
  "download_file sha [] d p = None"
| "download_file sha (ev # evs) d p =
     (case download_step sha ev d p of
        (Done r, p') \<Rightarrow> Some (r, p')
      | (Going d', p') \<Rightarrow> download_file sha evs d' p')"

section \<open>State\<close>

record ota_info =
  oi_app_version :: "string option"
  oi_app_url :: "string option"
  oi_app_hash :: "string option"
  oi_system_version :: "string option"
  oi_system_summary :: "string option"
  oi_system_url :: "string option"
  oi_system_hash_signature :: "string option"

definition ota_info_default :: ota_info where
  "ota_info_default = \<lparr>oi_app_version = None, oi_app_url = None, oi_app_hash = None, oi_system_version = None,
     oi_system_summary = None, oi_system_url = None, oi_system_hash_signature = None\<rparr>"

record version_info =
  vi_app_version :: string
  vi_system_version :: string
  vi_system_summary :: string
  vi_web_version :: string

record update_info =
  ui_local :: version_info
  ui_update :: version_info
  ui_app_update_available :: bool
  ui_system_update_available :: bool

datatype ota_event = OtaVerified nat bool | OtaSystemUpdate nat | OtaError string

datatype ota_task =
    LoopTop
  | LoopWait int
  | LoopExit
  | ReadyRead bool
  | ReadyCheck bool string string
  | ReadyDownload bool string string download
  | ReadyWait bool string
  | ReadyExit
  | Retry
  | Rerun
  | TryInstall
  | InstallDir
  | InstallRun

record ota_state =
  os_auto :: bool
  os_info :: "ota_info option"
  os_switch :: bool
  os_running :: bool
  os_waiting :: bool
  os_updating :: bool
  os_by_user :: bool
  os_failed :: nat
  os_package :: "u8 list option"
  os_root :: bool
  os_tasks :: "ota_task list"
  os_events :: "ota_event list"
  os_installed :: "u8 list option list"
  os_reboots :: nat

record ota_env =
  oe_sha256_hex :: "u8 list \<Rightarrow> string"
  oe_key_error :: "string option"
  oe_b64_decode :: "string \<Rightarrow> (string, u8 list) result"
  oe_sig_decode :: "u8 list \<Rightarrow> (string, u8 list) result"
  oe_rsa_verify :: "string \<Rightarrow> u8 list \<Rightarrow> (string, unit) result"

record ota_world =
  ow_session :: bool
  ow_idle :: nat
  ow_now :: int
  ow_target :: int
  ow_versions :: "(string, version_info) result"
  ow_ota :: "(string, ota_info) result"
  ow_net :: net_event
  ow_read :: "string option"
  ow_remove :: "string option"
  ow_mkdir :: "string option"
  ow_rmdir :: "string option"
  ow_cmd :: "(string, string option) result"
  ow_save :: "string option"

definition OTA_WAIT_SECS :: nat where "OTA_WAIT_SECS = 1200"

section \<open>Tasks\<close>

definition spawn :: "ota_task \<Rightarrow> ota_state \<Rightarrow> ota_state" where
  "spawn t s = s\<lparr>os_tasks := os_tasks s @ [t]\<rparr>"

definition broadcast_ota_state :: "ota_event \<Rightarrow> ota_state \<Rightarrow> ota_state" where
  "broadcast_ota_state ev s = s\<lparr>os_events := os_events s @ [ev]\<rparr>"

definition remove_package :: "ota_world \<Rightarrow> ota_state \<Rightarrow> ota_state" where
  "remove_package w s = (if ow_remove w = None then s\<lparr>os_package := None\<rparr> else s)"

definition ready_update :: "bool \<Rightarrow> ota_state \<Rightarrow> ota_state" where
  "ready_update by_user s = (if os_waiting s then s else spawn (ReadyRead by_user) (s\<lparr>os_waiting := True\<rparr>))"

definition run_auto_update :: "ota_state \<Rightarrow> ota_state" where
  "run_auto_update s = (if os_running s then s else spawn LoopTop (s\<lparr>os_running := True\<rparr>))"

definition verify_package :: "ota_env \<Rightarrow> string \<Rightarrow> string \<Rightarrow> (string, unit) result" where
  "verify_package e system_hash_signature original =
     (case oe_key_error e of
        Some err \<Rightarrow> Inl (''PUBLIC_KEY parse: '' @ err)
      | None \<Rightarrow>
      (case oe_b64_decode e (trim system_hash_signature) of
        Inl err \<Rightarrow> Inl (''signature base64 decode: '' @ err)
      | Inr bytes \<Rightarrow>
      (case oe_sig_decode e bytes of
        Inl err \<Rightarrow> Inl (''signature decode: '' @ err)
      | Inr sg \<Rightarrow>
      (case oe_rsa_verify e original sg of
        Inl err \<Rightarrow> Inl (''failed to verify: '' @ err)
      | Inr _ \<Rightarrow> Inr ()))))"

definition need_download :: "ota_env \<Rightarrow> ota_world \<Rightarrow> string \<Rightarrow> ota_state \<Rightarrow> bool \<times> ota_state" where
  "need_download e w sg s =
     (case os_package s of
        None \<Rightarrow> (True, s)
      | Some data \<Rightarrow>
          (case ow_read w of
             Some _ \<Rightarrow> (True, remove_package w s)
           | None \<Rightarrow>
               (case verify_package e sg (oe_sha256_hex e data) of
                  Inr _ \<Rightarrow> (False, s)
                | Inl _ \<Rightarrow> (True, remove_package w s))))"

definition check_update :: "ota_world \<Rightarrow> bool \<Rightarrow> ota_state \<Rightarrow> (string, update_info) result \<times> ota_state" where
  "check_update w by_user s =
     (let auto_update = os_auto s in
      if \<not> by_user \<and> \<not> auto_update then (Inl ''Auto update is disabled'', s)
      else case ow_versions w of
        Inl err \<Rightarrow> (Inl err, s)
      | Inr current \<Rightarrow>
          let info = (case ow_ota w of Inr i \<Rightarrow> i | Inl _ \<Rightarrow> ota_info_default);
              s1 = s\<lparr>os_info := Some info\<rparr>;
              has_update = (oi_system_url info \<noteq> None);
              s2 = (if \<not> by_user \<and> auto_update
                    then run_auto_update (if has_update then ready_update False s1 else s1) else s1);
              or_empty = (\<lambda>x. case x of Some v \<Rightarrow> v | None \<Rightarrow> '''')
          in (Inr \<lparr>ui_local = current,
                   ui_update = \<lparr>vi_app_version = or_empty (oi_app_version info), vi_system_version = or_empty (oi_system_version info),
                                vi_system_summary = or_empty (oi_system_summary info), vi_web_version = ''''\<rparr>,
                   ui_app_update_available = (oi_app_url info \<noteq> None),
                   ui_system_update_available = has_update\<rparr>, s2))"

definition loop_task :: "ota_world \<Rightarrow> int option \<Rightarrow> ota_state \<Rightarrow> ota_task option \<times> ota_state" where
  "loop_task w target s =
     (case target of
        None \<Rightarrow> (Some (if os_switch s then LoopWait (ow_target w) else LoopExit), s)
      | Some t \<Rightarrow>
          if \<not> os_switch s then (Some LoopExit, s)
          else if ow_now w < t then (Some (LoopWait t), s)
          else (Some LoopTop, snd (check_update w False s)))"

definition ready_read :: "bool \<Rightarrow> ota_state \<Rightarrow> ota_task option \<times> ota_state" where
  "ready_read u s =
     (case os_info s of
        None \<Rightarrow> (None, s\<lparr>os_waiting := False\<rparr>)
      | Some info \<Rightarrow>
          (case (oi_system_url info, oi_system_hash_signature info) of
             (Some url, Some sg) \<Rightarrow> (Some (ReadyCheck u url sg), s)
           | _ \<Rightarrow> (None, s\<lparr>os_waiting := False\<rparr>)))"

definition download_failed :: "bool \<Rightarrow> ota_state \<Rightarrow> ota_state" where
  "download_failed u s =
     (if \<not> u \<and> \<not> os_by_user s
      then if os_failed s < 3 then spawn Retry (s\<lparr>os_failed := os_failed s + 1\<rparr>)
           else spawn Rerun (s\<lparr>os_failed := 0\<rparr>)
      else s)"

definition ready_download ::
  "ota_env \<Rightarrow> ota_world \<Rightarrow> bool \<Rightarrow> string \<Rightarrow> string \<Rightarrow> download \<Rightarrow> ota_state \<Rightarrow> ota_task option \<times> ota_state" where
  "ready_download e w u url sg d s =
     (case download_step (oe_sha256_hex e) (ow_net w) d (os_package s) of
        (Going d', p) \<Rightarrow> (Some (ReadyDownload u url sg d'), s\<lparr>os_package := p\<rparr>)
      | (Done (Inr hex), p) \<Rightarrow>
          (case verify_package e sg hex of
             Inr _ \<Rightarrow> (Some (ReadyWait u sg), broadcast_ota_state (OtaVerified 100 (os_by_user s)) (s\<lparr>os_package := p\<rparr>))
           | Inl err \<Rightarrow> (Some ReadyExit, broadcast_ota_state (OtaError err) (remove_package w (s\<lparr>os_package := p\<rparr>))))
      | (Done (Inl err), p) \<Rightarrow>
          (Some ReadyExit, download_failed u (broadcast_ota_state (OtaError err) (s\<lparr>os_package := p\<rparr>))))"

definition ready_wait :: "ota_world \<Rightarrow> bool \<Rightarrow> string \<Rightarrow> ota_state \<Rightarrow> ota_task option \<times> ota_state" where
  "ready_wait w u sg s =
     (if u \<or> os_by_user s then (Some ReadyExit, spawn TryInstall s)
      else if \<not> os_switch s then (Some ReadyExit, s)
      else if ow_session w \<and> ow_idle w < OTA_WAIT_SECS then (Some (ReadyWait u sg), s)
      else (Some ReadyExit, spawn TryInstall s))"

definition try_install :: "ota_state \<Rightarrow> ota_task option \<times> ota_state" where
  "try_install s = (if os_updating s then (None, s) else (Some InstallDir, s\<lparr>os_updating := True\<rparr>))"

definition install_dir :: "ota_world \<Rightarrow> ota_state \<Rightarrow> ota_task option \<times> ota_state" where
  "install_dir w s =
     (if os_root s then (Some InstallRun, s)
      else case ow_mkdir w of
             None \<Rightarrow> (Some InstallRun, s\<lparr>os_root := True\<rparr>)
           | Some err \<Rightarrow>
               (None, (broadcast_ota_state (OtaError (''Failed to create OTA package root directory: '' @ err)) s)\<lparr>os_updating := False\<rparr>))"

text \<open>The installer reads the package when it is started; \<open>os_installed\<close> collects what it was given.\<close>

definition install_run :: "ota_world \<Rightarrow> ota_state \<Rightarrow> ota_task option \<times> ota_state" where
  "install_run w s =
     (let s1 = (broadcast_ota_state (OtaSystemUpdate 50) s)\<lparr>os_installed := os_installed s @ [os_package s]\<rparr>;
          failed = (\<lambda>err. let s2 = broadcast_ota_state (OtaError err) s1 in if os_switch s2 then run_auto_update s2 else s2);
          s3 = (case ow_cmd w of
                  Inr None \<Rightarrow> (broadcast_ota_state (OtaSystemUpdate 100) s1)\<lparr>os_reboots := os_reboots s + 1\<rparr>
                | Inr (Some stderr) \<Rightarrow> failed stderr
                | Inl err \<Rightarrow> failed err)
      in (None, s3\<lparr>os_updating := False\<rparr>))"

fun run_task :: "ota_env \<Rightarrow> ota_world \<Rightarrow> ota_task \<Rightarrow> ota_state \<Rightarrow> ota_task option \<times> ota_state" where
  "run_task e w LoopTop s = loop_task w None s"
| "run_task e w (LoopWait t) s = loop_task w (Some t) s"
| "run_task e w LoopExit s = (None, s\<lparr>os_running := False\<rparr>)"
| "run_task e w (ReadyRead u) s = ready_read u s"
| "run_task e w (ReadyCheck u url sg) s =
     (case need_download e w sg s of
        (True, s1) \<Rightarrow> (Some (ReadyDownload u url sg download_new), s1)
      | (False, s1) \<Rightarrow> (Some (ReadyWait u sg), s1))"
| "run_task e w (ReadyDownload u url sg d) s = ready_download e w u url sg d s"
| "run_task e w (ReadyWait u sg) s = ready_wait w u sg s"
| "run_task e w ReadyExit s = (None, s\<lparr>os_waiting := False\<rparr>)"
| "run_task e w Retry s = (None, ready_update False s)"
| "run_task e w Rerun s = (None, run_auto_update s)"
| "run_task e w TryInstall s = try_install s"
| "run_task e w InstallDir s = install_dir w s"
| "run_task e w InstallRun s = install_run w s"

section \<open>Requests and runs\<close>

definition set_auto_update :: "ota_world \<Rightarrow> bool \<Rightarrow> ota_state \<Rightarrow> (string, unit) result \<times> ota_state" where
  "set_auto_update w enabled s =
     (let s1 = s\<lparr>os_auto := enabled\<rparr> in
      case ow_save w of
        Some err \<Rightarrow> (Inl err, s1)
      | None \<Rightarrow>
          if enabled
          then (case check_update w False (s1\<lparr>os_switch := True\<rparr>) of
                  (Inl err, s2) \<Rightarrow> (Inl err, s2) | (Inr _, s2) \<Rightarrow> (Inr (), s2))
          else (Inr (), s1\<lparr>os_switch := False\<rparr>))"

definition power_on_ota_update :: "ota_world \<Rightarrow> ota_state \<Rightarrow> ota_state" where
  "power_on_ota_update w s = (if os_auto s then snd (check_update w False (s\<lparr>os_switch := True\<rparr>)) else s)"

definition try_update_by_user :: "ota_state \<Rightarrow> ota_state" where
  "try_update_by_user s =
     (if os_waiting s then s\<lparr>os_by_user := True\<rparr> else ready_update True (s\<lparr>os_by_user := True\<rparr>))"

definition check_ota_update_finished :: "ota_world \<Rightarrow> ota_state \<Rightarrow> ota_state" where
  "check_ota_update_finished w s =
     (if os_root s then (remove_package w s)\<lparr>os_root := (ow_rmdir w \<noteq> None)\<rparr> else s)"

datatype ota_action =
    CheckUpdate bool ota_world
  | SetAutoUpdate bool ota_world
  | PowerOn ota_world
  | UserUpdate
  | CheckFinished ota_world
  | TaskStep nat ota_world

definition task_step :: "ota_env \<Rightarrow> ota_world \<Rightarrow> nat \<Rightarrow> ota_state \<Rightarrow> ota_state" where
  "task_step e w i s =
     (if i < length (os_tasks s)
      then case run_task e w (os_tasks s ! i) (s\<lparr>os_tasks := take i (os_tasks s) @ drop (Suc i) (os_tasks s)\<rparr>) of
             (None, s1) \<Rightarrow> s1
           | (Some t, s1) \<Rightarrow> spawn t s1
      else s)"

fun ota_step :: "ota_env \<Rightarrow> ota_action \<Rightarrow> ota_state \<Rightarrow> ota_state" where
  "ota_step e (CheckUpdate by_user w) s = snd (check_update w by_user s)"
| "ota_step e (SetAutoUpdate b w) s = snd (set_auto_update w b s)"
| "ota_step e (PowerOn w) s = power_on_ota_update w s"
| "ota_step e UserUpdate s = try_update_by_user s"
| "ota_step e (CheckFinished w) s = check_ota_update_finished w s"
| "ota_step e (TaskStep i w) s = task_step e w i s"

definition ota_run :: "ota_env \<Rightarrow> ota_action list \<Rightarrow> ota_state \<Rightarrow> ota_state" where
  "ota_run e acts s = fold (ota_step e) acts s"

definition ota_boot :: "bool \<Rightarrow> u8 list option \<Rightarrow> bool \<Rightarrow> ota_state" where
  "ota_boot auto package root = \<lparr>os_auto = auto, os_info = None, os_switch = False, os_running = False, os_waiting = False,
     os_updating = False, os_by_user = False, os_failed = 0, os_package = package, os_root = root, os_tasks = [],
     os_events = [], os_installed = [], os_reboots = 0\<rparr>"

section \<open>What is downloaded\<close>

text \<open>
  A server of one file that honours range requests, the way RFC 7233 describes it: it reads where to
  start from the header of the request it was sent, a header it cannot read counts as absent, and a
  start beyond the end is answered with status 416. Then it streams the file from there; \<open>pos\<close> is
  how far it has come. It knows nothing of what the downloader has counted or written.
\<close>

definition range_start :: "string \<Rightarrow> nat option" where
  "range_start h =
     (let rest = drop 6 h; ds = takeWhile is_digit rest in
      if take 6 h = ''bytes='' \<and> ds \<noteq> [] \<and> dropWhile is_digit rest = ''-'' then Some (dec_value ds) else None)"

definition server_start :: "u8 list \<Rightarrow> string option \<Rightarrow> nat option" where
  "server_start content h =
     (case Option.bind h range_start of
        None \<Rightarrow> Some 0
      | Some n \<Rightarrow> if n < length content then Some n else None)"

fun honest_event :: "u8 list \<Rightarrow> nat \<Rightarrow> download \<Rightarrow> net_event \<Rightarrow> bool" where
  "honest_event content pos d (HeadAnswer (Inr n)) = (n = length content)"
| "honest_event content pos d (Answer st) = (server_start content (range_header d) = None \<longrightarrow> st = 416)"
| "honest_event content pos d (Chunk bs err) = prefix bs (drop pos content)"
| "honest_event content pos d ev = True"

fun server_pos :: "u8 list \<Rightarrow> download \<Rightarrow> net_event \<Rightarrow> nat \<Rightarrow> nat" where
  "server_pos content d (Answer st) pos =
     (if dl_phase d = DlRequest then case server_start content (range_header d) of Some n \<Rightarrow> n | None \<Rightarrow> pos else pos)"
| "server_pos content d (Chunk bs err) pos = pos + length bs"
| "server_pos content d ev pos = pos"

fun honest_events ::
  "(u8 list \<Rightarrow> string) \<Rightarrow> u8 list \<Rightarrow> net_event list \<Rightarrow> nat \<Rightarrow> download \<Rightarrow> u8 list option \<Rightarrow> bool" where
  "honest_events sha content [] pos d p = True"
| "honest_events sha content (ev # evs) pos d p =
     (honest_event content pos d ev \<and>
      (case download_step sha ev d p of
         (Done r, p') \<Rightarrow> True
       | (Going d', p') \<Rightarrow> honest_events sha content evs (server_pos content d ev pos) d' p'))"

definition dl_consistent :: "u8 list \<Rightarrow> nat \<Rightarrow> download \<Rightarrow> u8 list option \<Rightarrow> bool" where
  "dl_consistent content pos d p =
     ((dl_phase d = DlStream \<longrightarrow> pos = dl_downloaded d) \<and>
      (dl_phase d \<in> {DlOpen, DlRequest, DlStream, DlSync, DlHash} \<longrightarrow> dl_total d = length content) \<and>
      (dl_phase d \<in> {DlDir, DlHead, DlOpen} \<longrightarrow> dl_downloaded d = 0) \<and>
      (dl_phase d \<in> {DlRequest, DlStream, DlSync, DlHash} \<longrightarrow>
         p = Some (take (dl_downloaded d) content) \<and> dl_downloaded d \<le> length content) \<and>
      (dl_phase d \<in> {DlSync, DlHash} \<longrightarrow> dl_downloaded d = length content))"

lemma take_add_prefix: "prefix bs (drop n xs) \<Longrightarrow> take (n + length bs) xs = take n xs @ bs"
  by (auto simp: prefix_def take_add)

lemma prefix_drop_length: "prefix bs (drop n xs) \<Longrightarrow> n \<le> length xs \<Longrightarrow> n + length bs \<le> length xs"
  using prefix_length_le [of bs "drop n xs"] by simp

lemma range_header_start:
  "range_header d = Some h \<Longrightarrow> range_start h = Some (dl_downloaded d)"
proof -
  let ?ds = "nat_to_dec (dl_downloaded d)"
  have "\<forall>c \<in> set ?ds. is_digit c" using nat_to_dec_digits [of "dl_downloaded d"] by (simp add: list_all_iff)
  then have "takeWhile is_digit (?ds @ ''-'') = ?ds" "dropWhile is_digit (?ds @ ''-'') = ''-''"
    by (simp_all add: is_digit_def)
  then show "range_header d = Some h \<Longrightarrow> ?thesis"
    by (auto simp: range_header_def range_start_def Let_def dec_value_nat_to_dec split: if_splits)
qed

lemma server_starts_there: "server_start content (range_header d) = Some n \<Longrightarrow> n = dl_downloaded d"
  using range_header_start [of d]
  by (cases "range_header d") (auto simp: server_start_def split: option.splits if_splits, simp add: range_header_def split: if_splits)

lemma download_step_consistent:
  assumes "dl_consistent content pos d p" "honest_event content pos d ev" "download_step sha ev d p = (Going d', p')"
  shows "dl_consistent content (server_pos content d ev pos) d' p'"
  using assms
  by (auto simp: dl_consistent_def download_step_def retry_or_def append_package_def take_add_prefix
      dest: prefix_drop_length server_starts_there
      split: dl_phase.splits net_event.splits option.splits sum.splits if_splits prod.splits)

lemma download_step_done:
  assumes "dl_consistent content pos d p" "download_step sha ev d p = (Done (Inr h), p')"
  shows "p' = Some content \<and> h = sha content"
  using assms
  by (auto simp: dl_consistent_def download_step_def retry_or_def
      split: dl_phase.splits net_event.splits option.splits sum.splits if_splits prod.splits)

lemma download_file_done:
  "dl_consistent content pos d p \<Longrightarrow> honest_events sha content evs pos d p \<Longrightarrow>
   download_file sha evs d p = Some (Inr h, p') \<Longrightarrow> p' = Some content \<and> h = sha content"
proof (induction evs arbitrary: pos d p)
  case (Cons ev evs)
  show ?case
  proof (cases "download_step sha ev d p")
    case (Pair r q)
    show ?thesis
    proof (cases r)
      case (Going d')
      with Pair Cons.prems download_step_consistent [OF Cons.prems(1), of ev sha d' q] show ?thesis
        by (intro Cons.IH [of "server_pos content d ev pos" d' q]) auto
    next
      case (Done x)
      with Pair Cons.prems download_step_done [OF Cons.prems(1), of sha ev h q] show ?thesis by auto
    qed
  qed
qed simp

text \<open>
  C26: An update package may be downloaded in any number of pieces, with lost connections and repeated
  requests in between: when the download reports success, the file is the package, byte for byte,
  and the reported hash is its hash, as long as the server holds one file, announces its length and
  honours the \<open>Range\<close> header of each request, so it is the header that makes the pieces meet.
\<close>

theorem download_exact:
  assumes "honest_events sha content evs 0 download_new p"
    and "download_file sha evs download_new p = Some (Inr h, p')"
  shows "p' = Some content \<and> h = sha content"
proof -
  have "dl_consistent content 0 download_new p" by (simp add: dl_consistent_def download_new_def)
  from download_file_done [OF this assms] show ?thesis .
qed

definition demo_events :: "net_event list" where
  "demo_events = [IoDone None, HeadAnswer (Inr 3), IoDone None, SendFailed ''reset'', Answer 200, Chunk [1] None,
     ChunkFailed ''reset'', Answer 206, Chunk [2, 3] None, StreamEnd, IoDone None, IoDone None]"

lemmas download_eval = demo_events_def download_new_def download_step_def retry_or_def MAX_RETRIES_def append_package_def

theorem download_exact_witness:
  "honest_events (\<lambda>d. ''h'') [1, 2, 3] demo_events 0 download_new (Some [9])
   \<and> download_file (\<lambda>d. ''h'') demo_events download_new (Some [9]) = Some (Inr ''h'', Some [1, 2, 3])"
proof -
  have h: "honest_events (\<lambda>d. ''h'') [1, 2, 3] demo_events 0 download_new (Some [9])" by code_simp
  obtain p' where d: "download_file (\<lambda>d. ''h'') demo_events download_new (Some [9]) = Some (Inr ''h'', p')"
    by (simp add: download_eval)
  from download_exact [OF h d] d h show ?thesis by simp
qed

text \<open>
  The status of the answer is not compared with the request: a server that ignores the header and
  sends the whole file again, with status 200, is taken for one that goes on where the last piece
  ended, and the download reports success with the hash of a file that holds the piece twice.
\<close>

theorem ignored_range_corrupts:
  "download_file sha [IoDone None, HeadAnswer (Inr 3), IoDone None, Answer 200, Chunk [1] None, ChunkFailed ''reset'',
     Answer 200, Chunk [1, 2, 3] None, StreamEnd, IoDone None, IoDone None] download_new None
   = Some (Inr (sha [1, 1, 2, 3]), Some [1, 1, 2, 3])"
  by (simp add: download_eval)

section \<open>What is installed\<close>

fun is_ready :: "ota_task \<Rightarrow> bool" where
  "is_ready (ReadyRead u) = True"
| "is_ready (ReadyCheck u url sg) = True"
| "is_ready (ReadyDownload u url sg d) = True"
| "is_ready (ReadyWait u sg) = True"
| "is_ready ReadyExit = True"
| "is_ready t = False"

definition is_install :: "ota_task \<Rightarrow> bool" where
  "is_install t = (t \<in> {TryInstall, InstallDir, InstallRun})"

definition installing :: "ota_state \<Rightarrow> bool" where
  "installing s = (\<exists>t \<in> set (os_tasks s). is_install t)"

definition vendor_signed :: "ota_env \<Rightarrow> string set \<Rightarrow> u8 list option \<Rightarrow> bool" where
  "vendor_signed e S p = (\<forall>d. p = Some d \<longrightarrow> (\<exists>sg \<in> S. verify_package e sg (oe_sha256_hex e d) = Inr ()))"

text \<open>The signature in the device's update information, and the one a task works with.\<close>

definition info_sigs :: "ota_state \<Rightarrow> string set" where
  "info_sigs s = (case os_info s of None \<Rightarrow> {} | Some i \<Rightarrow> set_option (oi_system_hash_signature i))"

fun task_sigs :: "ota_task \<Rightarrow> string set" where
  "task_sigs (ReadyCheck u url sg) = {sg}"
| "task_sigs (ReadyDownload u url sg d) = {sg}"
| "task_sigs (ReadyWait u sg) = {sg}"
| "task_sigs t = {}"

definition sigs_ok :: "string set \<Rightarrow> ota_state \<Rightarrow> bool" where
  "sigs_ok S s = (info_sigs s \<subseteq> S \<and> (\<forall>t \<in> set (os_tasks s). task_sigs t \<subseteq> S))"

definition tasks_ok :: "bool \<Rightarrow> bool \<Rightarrow> ota_task list \<Rightarrow> bool" where
  "tasks_ok waiting signd ts =
     (length (filter is_ready ts) = (if waiting then 1 else 0) \<and>
      ((\<exists>u sg. ReadyWait u sg \<in> set ts) \<longrightarrow> signd) \<and>
      ((\<exists>t \<in> set ts. is_install t) \<longrightarrow> signd \<and> (\<forall>t \<in> set ts. is_ready t \<longrightarrow> t = ReadyExit)))"

definition ota_inv :: "ota_env \<Rightarrow> string set \<Rightarrow> ota_state \<Rightarrow> bool" where
  "ota_inv e S s =
     (tasks_ok (os_waiting s) (vendor_signed e S (os_package s)) (os_tasks s) \<and>
      (\<forall>p \<in> set (os_installed s). vendor_signed e S p) \<and> sigs_ok S s)"

definition opt_task :: "ota_task option \<Rightarrow> ota_state \<Rightarrow> ota_state" where
  "opt_task t s = (case t of None \<Rightarrow> s | Some t \<Rightarrow> spawn t s)"

lemma ready_wait_ready: "ReadyWait u sg \<in> set ts \<Longrightarrow> filter is_ready ts \<noteq> []"
  by (force simp: filter_empty_conv)

lemma tasks_ok_move: "i < length ts \<Longrightarrow> tasks_ok b c ts = tasks_ok b c ((take i ts @ drop (Suc i) ts) @ [ts ! i])"
proof -
  assume i: "i < length ts"
  then have ts: "ts = take i ts @ ts ! i # drop (Suc i) ts" by (rule id_take_nth_drop)
  have "tasks_ok b c (xs @ t # ys) = tasks_ok b c ((xs @ ys) @ [t])" for xs t ys by (auto simp: tasks_ok_def)
  from this [of "take i ts" "ts ! i" "drop (Suc i) ts"] ts show ?thesis by simp
qed

lemma signed_none [simp]: "vendor_signed e S None" by (simp add: vendor_signed_def)

lemma signed_mono: "vendor_signed e S p \<Longrightarrow> S \<subseteq> S' \<Longrightarrow> vendor_signed e S' p"
  by (auto simp: vendor_signed_def)

lemma sigs_ok_mono: "sigs_ok S s \<Longrightarrow> S \<subseteq> S' \<Longrightarrow> sigs_ok S' s"
  unfolding sigs_ok_def by blast

lemma ota_inv_mono: "ota_inv e S s \<Longrightarrow> S \<subseteq> S' \<Longrightarrow> ota_inv e S' s"
  by (auto simp: ota_inv_def tasks_ok_def dest: signed_mono sigs_ok_mono)

lemma sigs_ok_simps [simp]:
  "sigs_ok S (spawn t s) = (task_sigs t \<subseteq> S \<and> sigs_ok S s)"
  "sigs_ok S (s\<lparr>os_waiting := b\<rparr>) = sigs_ok S s" "sigs_ok S (s\<lparr>os_running := b\<rparr>) = sigs_ok S s"
  "sigs_ok S (s\<lparr>os_package := p\<rparr>) = sigs_ok S s" "sigs_ok S (s\<lparr>os_failed := n\<rparr>) = sigs_ok S s"
  "sigs_ok S (broadcast_ota_state ev s) = sigs_ok S s" "sigs_ok S (remove_package w s) = sigs_ok S s"
  by (auto simp: sigs_ok_def spawn_def info_sigs_def broadcast_ota_state_def remove_package_def)

lemma signed_verified: "sg \<in> S \<Longrightarrow> verify_package e sg (oe_sha256_hex e d) = Inr u \<Longrightarrow> vendor_signed e S (Some d)"
  by (auto simp: vendor_signed_def)

lemmas ota_task_defs = loop_task_def ready_read_def ready_download_def ready_wait_def try_install_def install_dir_def install_run_def
  need_download_def check_update_def ready_update_def run_auto_update_def remove_package_def download_failed_def spawn_def
  broadcast_ota_state_def Let_def

lemma ready_update_inv: "ota_inv e S s \<Longrightarrow> \<not> (installing s \<and> \<not> os_waiting s) \<Longrightarrow> ota_inv e S (ready_update u s)"
  by (auto simp: ota_inv_def tasks_ok_def ready_update_def spawn_def installing_def is_install_def filter_empty_conv
      sigs_ok_def info_sigs_def)

lemma run_auto_update_inv: "ota_inv e S s \<Longrightarrow> ota_inv e S (run_auto_update s)"
  by (auto simp: ota_inv_def tasks_ok_def run_auto_update_def spawn_def is_install_def sigs_ok_def info_sigs_def)

lemma ota_inv_cong:
  "os_tasks s' = os_tasks s \<Longrightarrow> os_waiting s' = os_waiting s \<Longrightarrow> os_package s' = os_package s \<Longrightarrow>
   os_installed s' = os_installed s \<Longrightarrow> info_sigs s' \<subseteq> S \<Longrightarrow> ota_inv e S s \<Longrightarrow> ota_inv e S s'"
  by (simp add: ota_inv_def sigs_ok_def)

definition calm :: "ota_state \<Rightarrow> ota_state \<Rightarrow> bool" where
  "calm s s' = (installing s \<longrightarrow> \<not> os_waiting s \<longrightarrow> \<not> os_waiting s')"

lemma check_update_inv:
  assumes "ota_inv e S s" "calm s (snd (check_update w b s))" "info_sigs (snd (check_update w b s)) \<subseteq> S"
  shows "ota_inv e S (snd (check_update w b s))"
proof -
  have i: "ota_inv e S (s\<lparr>os_info := x\<rparr>)" if "info_sigs (s\<lparr>os_info := x\<rparr>) \<subseteq> S" for x
    using assms(1) that by (intro ota_inv_cong [of "s\<lparr>os_info := x\<rparr>" s]) simp_all
  have n: "info_sigs (ready_update u s') = info_sigs s'" "info_sigs (run_auto_update s') = info_sigs s'" for u s'
    by (simp_all add: info_sigs_def run_auto_update_def ready_update_def spawn_def)
  have "os_waiting (run_auto_update (ready_update False s'))" for s'
    by (simp add: run_auto_update_def ready_update_def spawn_def)
  then show ?thesis using assms i
    by (auto simp: n check_update_def Let_def calm_def installing_def intro!: run_auto_update_inv ready_update_inv
        split: sum.splits if_splits option.splits)
qed

text \<open>A task that is neither preparing nor installing an update leaves what matters alone.\<close>

lemma spawn_other_inv:
  "\<not> is_ready t \<Longrightarrow> \<not> is_install t \<Longrightarrow> ota_inv e S (spawn t s) = ota_inv e S s"
  by (cases t) (auto simp: ota_inv_def tasks_ok_def spawn_def is_install_def sigs_ok_def info_sigs_def)

lemma spawn_other_calm: "\<not> is_install t \<Longrightarrow> installing (spawn t s) = installing s"
  by (auto simp: installing_def spawn_def)

lemma spawn_waiting [simp]: "os_waiting (spawn t s) = os_waiting s" "os_by_user (spawn t s) = os_by_user s"
  by (simp_all add: spawn_def)

lemma loop_task_inv:
  assumes "ota_inv e S s" "loop_task w t s = (r, s1)" "calm s s1" "info_sigs s1 \<subseteq> S"
  shows "ota_inv e S (opt_task r s1)"
  using assms check_update_inv [of e S s w False]
  by (auto simp: loop_task_def opt_task_def spawn_other_inv is_install_def split: option.splits if_splits)

text \<open>Only one task prepares an update, and none does while one is being installed.\<close>

definition alone :: "ota_env \<Rightarrow> string set \<Rightarrow> ota_state \<Rightarrow> bool" where
  "alone e S s = (os_waiting s \<and> (\<forall>t \<in> set (os_tasks s). \<not> is_ready t) \<and> (\<forall>p \<in> set (os_installed s). vendor_signed e S p) \<and>
     sigs_ok S s)"

lemma alone_intro:
  assumes "ota_inv e S (spawn t s)" "is_ready t"
  shows "alone e S s" "t \<noteq> ReadyExit \<Longrightarrow> \<not> installing s" "t = ReadyWait u sg \<Longrightarrow> vendor_signed e S (os_package s)"
    "installing s \<Longrightarrow> vendor_signed e S (os_package s)" "task_sigs t \<subseteq> S"
  using assms
  by (auto simp: ota_inv_def tasks_ok_def spawn_def alone_def installing_def filter_empty_conv sigs_ok_def info_sigs_def split: if_splits)

lemma ready_next:
  assumes "alone e S s" "is_ready t" "t \<noteq> ReadyExit \<Longrightarrow> \<not> installing s" "\<And>u sg. t = ReadyWait u sg \<Longrightarrow> vendor_signed e S (os_package s)"
    "installing s \<Longrightarrow> vendor_signed e S (os_package s)" "task_sigs t \<subseteq> S"
  shows "ota_inv e S (spawn t s)"
proof -
  have f: "filter is_ready (os_tasks s) = []" using assms(1) by (auto simp: alone_def filter_empty_conv)
  have nw: "ReadyWait u sg \<notin> set (os_tasks s)" for u sg using f ready_wait_ready by blast
  show ?thesis using assms f nw
    by (auto simp: ota_inv_def tasks_ok_def spawn_def alone_def installing_def is_install_def sigs_ok_def info_sigs_def)
qed

lemma ready_gone:
  assumes "alone e S s" "installing s \<Longrightarrow> vendor_signed e S (os_package s)"
  shows "ota_inv e S (s\<lparr>os_waiting := False\<rparr>)"
proof -
  have f: "filter is_ready (os_tasks s) = []" using assms(1) by (auto simp: alone_def filter_empty_conv)
  have nw: "ReadyWait u sg \<notin> set (os_tasks s)" for u sg using f ready_wait_ready by blast
  show ?thesis using assms f nw by (auto simp: ota_inv_def tasks_ok_def alone_def installing_def)
qed

lemma alone_simps [simp]:
  "alone e S (s\<lparr>os_package := p\<rparr>) = alone e S s" "alone e S (s\<lparr>os_failed := n\<rparr>) = alone e S s"
  "alone e S (broadcast_ota_state ev s) = alone e S s" "alone e S (remove_package w s) = alone e S s"
  "\<not> is_ready t \<Longrightarrow> alone e S (spawn t s) = alone e S s"
  by (cases t; auto simp: alone_def broadcast_ota_state_def remove_package_def spawn_def sigs_ok_def info_sigs_def)+

lemma installing_simps [simp]:
  "installing (s\<lparr>os_package := p\<rparr>) = installing s" "installing (s\<lparr>os_failed := n\<rparr>) = installing s"
  "installing (broadcast_ota_state ev s) = installing s" "installing (remove_package w s) = installing s"
  "installing (spawn t s) = (is_install t \<or> installing s)"
  by (auto simp: installing_def broadcast_ota_state_def remove_package_def spawn_def)

lemma is_install_simps [simp]:
  "\<not> is_install Retry" "\<not> is_install Rerun" "is_install TryInstall" "\<not> is_install LoopTop"
  by (simp_all add: is_install_def)

lemma package_simps [simp]:
  "os_package (broadcast_ota_state ev s) = os_package s" "os_package (spawn t s) = os_package s"
  by (simp_all add: broadcast_ota_state_def spawn_def)

lemma download_failed_simps [simp]:
  "alone e S (download_failed u s) = alone e S s" "installing (download_failed u s) = installing s"
  by (simp_all add: download_failed_def)

lemma download_done_hash:
  "download_step sha ev d p = (Done (Inr h), p') \<Longrightarrow> \<exists>data. p' = Some data \<and> h = sha data"
  by (auto simp: download_step_def retry_or_def
      split: dl_phase.splits net_event.splits option.splits sum.splits if_splits prod.splits)

lemma ready_download_inv:
  assumes "alone e S s" "\<not> installing s" "ready_download e w u url sg d s = (r, s1)" "sg \<in> S"
  shows "ota_inv e S (opt_task r s1)"
proof -
  obtain x p where st: "download_step (oe_sha256_hex e) (ow_net w) d (os_package s) = (x, p)" by fastforce
  show ?thesis
  proof (cases x)
    case (Going d')
    with st assms show ?thesis by (auto simp: ready_download_def opt_task_def intro!: ready_next)
  next
    case (Done y)
    show ?thesis
    proof (cases y)
      case (Inl err)
      with st Done assms show ?thesis by (auto simp: ready_download_def opt_task_def intro!: ready_next)
    next
      case (Inr h)
      with st Done obtain data where dt: "p = Some data" "h = oe_sha256_hex e data" using download_done_hash by blast
      then have "vendor_signed e S p" if "verify_package e sg h = Inr ()" using that assms(4) signed_verified by blast
      with st Done Inr assms show ?thesis
        by (auto simp: ready_download_def opt_task_def intro!: ready_next split: sum.splits)
    qed
  qed
qed

lemma ready_check_inv:
  assumes "alone e S s" "\<not> installing s" "run_task e w (ReadyCheck u url sg) s = (r, s1)" "sg \<in> S"
  shows "ota_inv e S (opt_task r s1)"
  using assms
  by (auto simp: need_download_def opt_task_def intro!: ready_next intro: signed_verified split: option.splits sum.splits)

lemma ready_wait_inv:
  assumes "alone e S s" "vendor_signed e S (os_package s)" "\<not> installing s" "ready_wait w u sg s = (r, s1)" "sg \<in> S"
  shows "ota_inv e S (opt_task r s1)"
  using assms by (auto simp: ready_wait_def opt_task_def intro!: ready_next split: if_splits)

lemma ready_read_inv:
  assumes "alone e S s" "\<not> installing s" "ready_read u s = (r, s1)"
  shows "ota_inv e S (opt_task r s1)"
  using assms
  by (auto simp: ready_read_def opt_task_def alone_def sigs_ok_def info_sigs_def intro!: ready_next ready_gone split: option.splits)

lemma ready_step_inv:
  assumes "ota_inv e S (spawn t s)" "is_ready t" "run_task e w t s = (r, s1)"
  shows "ota_inv e S (opt_task r s1)"
proof -
  note al = alone_intro [OF assms(1,2)]
  show ?thesis
  proof (cases t)
    case (ReadyRead u)
    with al assms(3) show ?thesis by (intro ready_read_inv [of e S s u]) auto
  next
    case (ReadyCheck u url sg)
    with al assms(3) show ?thesis by (intro ready_check_inv [of e S s w u url sg]) auto
  next
    case (ReadyDownload u url sg d)
    with al assms(3) show ?thesis by (intro ready_download_inv [of e S s w u url sg d]) auto
  next
    case (ReadyWait u sg)
    with al assms(3) show ?thesis by (intro ready_wait_inv [of e S s w u sg]) auto
  next
    case ReadyExit
    with al assms(3) show ?thesis by (auto simp: opt_task_def intro!: ready_gone)
  qed (use assms(2) in auto)
qed

text \<open>The installer changes neither the package nor who prepares one.\<close>

lemma install_step_inv:
  assumes "ota_inv e S (spawn t s)" "is_install t" "run_task e w t s = (r, s1)"
  shows "ota_inv e S (opt_task r s1)"
proof -
  have so: "sigs_ok S s" and ok: "tasks_ok (os_waiting s) True (os_tasks s)" and sg: "vendor_signed e S (os_package s)"
    and ex: "\<forall>t \<in> set (os_tasks s). is_ready t \<longrightarrow> t = ReadyExit"
    and ins: "\<forall>p \<in> set (os_installed s). vendor_signed e S p"
    using assms(1,2) by (auto simp: ota_inv_def tasks_ok_def spawn_def is_install_def sigs_ok_def info_sigs_def)
  have keep: "ota_inv e S s'"
    if "os_tasks s' = os_tasks s @ extra" "\<forall>t \<in> set extra. \<not> is_ready t" "os_waiting s' = os_waiting s"
      "os_package s' = os_package s" "os_info s' = os_info s" "\<forall>p \<in> set (os_installed s'). vendor_signed e S p" for s' extra
  proof -
    have "filter is_ready (os_tasks s') = filter is_ready (os_tasks s)" using that by (simp add: filter_empty_conv)
    moreover have "task_sigs t = {}" if "\<not> is_ready t" for t using that by (cases t) simp_all
    then have "sigs_ok S s'" using so that by (auto simp: sigs_ok_def info_sigs_def)
    ultimately show ?thesis using ok sg ex that by (auto simp: ota_inv_def tasks_ok_def)
  qed
  from assms(2) consider "t = TryInstall" | "t = InstallDir" | "t = InstallRun" by (auto simp: is_install_def)
  then show ?thesis
  proof cases
    case 1
    with assms(3) ins show ?thesis
      by (intro keep [of _ "if os_updating s then [] else [InstallDir]"])
         (auto simp: try_install_def opt_task_def spawn_def split: if_splits)
  next
    case 2
    with assms(3) ins show ?thesis
      by (intro keep [of _ "if os_root s \<or> ow_mkdir w = None then [InstallRun] else []"])
         (auto simp: install_dir_def opt_task_def spawn_def broadcast_ota_state_def split: if_splits option.splits)
  next
    case 3
    with assms(3) ins sg show ?thesis
      by (intro keep [of _ "if ow_cmd w \<noteq> Inr None \<and> os_switch s \<and> \<not> os_running s then [LoopTop] else []"])
         (auto simp: install_run_def run_auto_update_def Let_def opt_task_def spawn_def broadcast_ota_state_def
           split: if_splits option.splits sum.splits)
  qed
qed

lemma other_step_inv:
  assumes "ota_inv e S (spawn t s)" "\<not> is_ready t" "\<not> is_install t" "run_task e w t s = (r, s1)" "calm s s1"
    "info_sigs s1 \<subseteq> S"
  shows "ota_inv e S (opt_task r s1)"
proof -
  have i: "ota_inv e S s" using assms(1-3) spawn_other_inv by blast
  have c: "\<not> (installing s \<and> \<not> os_waiting s)" if "s1 = ready_update False s"
    using assms(5) that by (auto simp: calm_def ready_update_def spawn_def split: if_splits)
  show ?thesis
  proof (cases t)
    case LoopExit
    with assms(4) i show ?thesis by (auto simp: opt_task_def ota_inv_def sigs_ok_def info_sigs_def)
  next
    case Retry
    with assms(4) i c show ?thesis by (auto simp: opt_task_def intro!: ready_update_inv)
  next
    case LoopTop
    with assms(4-6) i show ?thesis by (auto intro: loop_task_inv)
  next
    case LoopWait
    with assms(4-6) i show ?thesis by (auto intro: loop_task_inv)
  qed (use assms i in \<open>auto simp: is_install_def opt_task_def intro: run_auto_update_inv\<close>)
qed

lemma task_step_inv:
  assumes "ota_inv e S s" "calm s (task_step e w i s)" "info_sigs (task_step e w i s) \<subseteq> S"
  shows "ota_inv e S (task_step e w i s)"
proof (cases "i < length (os_tasks s)")
  case True
  let ?s = "s\<lparr>os_tasks := take i (os_tasks s) @ drop (Suc i) (os_tasks s)\<rparr>" and ?t = "os_tasks s ! i"
  obtain r s1 where run: "run_task e w ?t ?s = (r, s1)" by fastforce
  then have st: "task_step e w i s = opt_task r s1" using True by (simp add: task_step_def opt_task_def split: option.splits)
  have inv: "ota_inv e S (spawn ?t ?s)"
    using assms(1) tasks_ok_move [OF True] True
    by (auto simp: ota_inv_def spawn_def sigs_ok_def info_sigs_def dest: in_set_takeD in_set_dropD)
  consider "is_ready ?t" | "is_install ?t" | "\<not> is_ready ?t" "\<not> is_install ?t" by blast
  then show ?thesis
  proof cases
    case 3
    have "installing ?s \<Longrightarrow> installing s" by (auto simp: installing_def dest: in_set_takeD in_set_dropD)
    then have "calm ?s s1" using assms(2) st by (auto simp: calm_def opt_task_def split: option.splits)
    moreover have "info_sigs s1 \<subseteq> S" using assms(3) st by (auto simp: info_sigs_def opt_task_def spawn_def split: option.splits)
    ultimately show ?thesis using other_step_inv [OF inv 3 run] st by simp
  qed (use st ready_step_inv [OF inv _ run] install_step_inv [OF inv _ run] in auto)
qed (use assms(1) in \<open>simp add: task_step_def\<close>)

lemma ota_step_inv:
  assumes "ota_inv e S s" "calm s (ota_step e a s)" "info_sigs (ota_step e a s) \<subseteq> S"
  shows "ota_inv e S (ota_step e a s)"
proof (cases a)
  case (CheckUpdate b w)
  with assms check_update_inv show ?thesis by simp
next
  case (SetAutoUpdate b w)
  have "ota_inv e S (s\<lparr>os_auto := x, os_switch := y\<rparr>)" "ota_inv e S (s\<lparr>os_auto := x\<rparr>)" for x y
    using assms(1) by (simp_all add: ota_inv_def sigs_ok_def info_sigs_def)
  moreover have "calm (s\<lparr>os_auto := x, os_switch := y\<rparr>) s' = calm s s'" for x y s' by (simp add: calm_def installing_def)
  ultimately show ?thesis using SetAutoUpdate assms(2,3) check_update_inv [of e S "s\<lparr>os_auto := True, os_switch := True\<rparr>" w False]
    by (auto simp: set_auto_update_def Let_def split: option.splits prod.splits sum.splits)
next
  case (PowerOn w)
  have "ota_inv e S (s\<lparr>os_switch := True\<rparr>)" using assms(1) by (simp add: ota_inv_def sigs_ok_def info_sigs_def)
  moreover have "calm (s\<lparr>os_switch := True\<rparr>) s' = calm s s'" for s' by (simp add: calm_def installing_def)
  ultimately show ?thesis using PowerOn assms check_update_inv [of e S "s\<lparr>os_switch := True\<rparr>" w False]
    by (auto simp: power_on_ota_update_def)
next
  case UserUpdate
  have "ota_inv e S (s\<lparr>os_by_user := True\<rparr>)" using assms(1) by (simp add: ota_inv_def sigs_ok_def info_sigs_def)
  moreover have "installing (s\<lparr>os_by_user := True\<rparr>) = installing s" by (simp add: installing_def)
  ultimately show ?thesis using UserUpdate assms(2)
    by (auto simp: try_update_by_user_def calm_def intro!: ready_update_inv) (simp add: ready_update_def)
next
  case (CheckFinished w)
  have "tasks_ok b c ts \<Longrightarrow> tasks_ok b True ts" for b c ts by (auto simp: tasks_ok_def)
  with CheckFinished assms(1) show ?thesis
    by (auto simp: check_ota_update_finished_def remove_package_def ota_inv_def sigs_ok_def info_sigs_def)
next
  case (TaskStep i w)
  with assms task_step_inv show ?thesis by simp
qed

text \<open>A run, with the signatures the device has had in its update information so far.\<close>

inductive calm_run :: "ota_env \<Rightarrow> ota_state \<Rightarrow> string set \<Rightarrow> ota_state \<Rightarrow> bool" for e s0 where
  start: "calm_run e s0 (info_sigs s0) s0"
| step: "calm_run e s0 S s \<Longrightarrow> calm s (ota_step e a s) \<Longrightarrow> calm_run e s0 (S \<union> info_sigs (ota_step e a s)) (ota_step e a s)"

text \<open>
  C20: What is given to the installer carries a signature the vendor announced: in every run of
  checks, user requests, downloads and installations, however they interleave, its hash verifies
  under the public key against the signature of an update information the device received in this
  run, as long as no new update is prepared between the decision to install one and the installer's
  start.
\<close>

theorem ota_installs_signed:
  assumes "calm_run e (ota_boot auto package root) S s" "Some data \<in> set (os_installed s)"
  shows "\<exists>sg \<in> S. verify_package e sg (oe_sha256_hex e data) = Inr ()"
proof -
  have "ota_inv e S s" using assms(1)
  proof induction
    case start
    show ?case by (simp add: ota_inv_def tasks_ok_def ota_boot_def sigs_ok_def)
  next
    case (step S s a)
    then have "ota_inv e (S \<union> info_sigs (ota_step e a s)) s" using ota_inv_mono by blast
    with step.hyps show ?case by (intro ota_step_inv) auto
  qed
  then show ?thesis using assms(2) by (auto simp: ota_inv_def vendor_signed_def)
qed

definition demo_ota_env :: ota_env where
  "demo_ota_env = \<lparr>oe_sha256_hex = (\<lambda>d. if d = [1] then ''a'' else if d = [2, 2] then ''b'' else ''x''),
     oe_key_error = None, oe_b64_decode = (\<lambda>t. Inr (if t = ''s1'' then [1] else [2])), oe_sig_decode = Inr,
     oe_rsa_verify = (\<lambda>h sg. if (h, sg) \<in> {(''a'', [1]), (''b'', [2])} then Inr () else Inl ''bad'')\<rparr>"

definition demo_world :: ota_world where
  "demo_world = \<lparr>ow_session = True, ow_idle = 0, ow_now = 0, ow_target = 0,
     ow_versions = Inr \<lparr>vi_app_version = ''1'', vi_system_version = ''1'', vi_system_summary = '''', vi_web_version = ''1''\<rparr>,
     ow_ota = Inl ''offline'', ow_net = IoDone None, ow_read = None, ow_remove = None, ow_mkdir = None, ow_rmdir = None,
     ow_cmd = Inr None, ow_save = None\<rparr>"

definition announce :: "string \<Rightarrow> ota_action" where
  "announce sg = CheckUpdate True (demo_world\<lparr>ow_ota := Inr (ota_info_default\<lparr>oi_system_url := Some ''u'', oi_system_hash_signature := Some sg\<rparr>)\<rparr>)"

definition net :: "nat \<Rightarrow> net_event \<Rightarrow> ota_action" where
  "net i ev = TaskStep i (demo_world\<lparr>ow_net := ev\<rparr>)"

text \<open>Up to the point where the user's update is downloaded, verified and handed to the installing task.\<close>

definition user_updates :: "ota_action list" where
  "user_updates = [announce ''s1'', UserUpdate] @ replicate 2 (TaskStep 0 demo_world) @
     map (net 0) [IoDone None, HeadAnswer (Inr 1), IoDone None, Answer 200, Chunk [1] None, StreamEnd, IoDone None, IoDone None] @
     [TaskStep 0 demo_world, TaskStep 1 demo_world]"

lemmas ota_eval = ota_run_def demo_world_def demo_ota_env_def ota_boot_def announce_def net_def user_updates_def task_step_def
  ota_task_defs try_update_by_user_def ota_info_default_def verify_package_def download_new_def download_step_def retry_or_def
  MAX_RETRIES_def append_package_def OTA_WAIT_SECS_def

lemma user_updates_ready:
  "os_tasks (ota_run demo_ota_env user_updates (ota_boot False None False)) = [TryInstall]"
  by code_simp

primrec calm_fold :: "ota_env \<Rightarrow> ota_action list \<Rightarrow> ota_state \<Rightarrow> bool" where
  "calm_fold e [] s = True"
| "calm_fold e (a # acts) s = (calm s (ota_step e a s) \<and> calm_fold e acts (ota_step e a s))"

primrec seen_sigs :: "ota_env \<Rightarrow> ota_action list \<Rightarrow> ota_state \<Rightarrow> string set" where
  "seen_sigs e [] s = {}"
| "seen_sigs e (a # acts) s = info_sigs (ota_step e a s) \<union> seen_sigs e acts (ota_step e a s)"

lemma calm_fold_run:
  "calm_run e s0 S s \<Longrightarrow> calm_fold e acts s \<Longrightarrow> calm_run e s0 (S \<union> seen_sigs e acts s) (ota_run e acts s)"
proof (induction acts arbitrary: S s)
  case (Cons a acts)
  then have "calm_run e s0 (S \<union> info_sigs (ota_step e a s)) (ota_step e a s)" by (simp add: calm_run.step)
  from Cons.IH [OF this] Cons.prems(2) show ?case by (simp add: ota_run_def Un_assoc)
qed (simp add: ota_run_def)

theorem ota_installs_signed_witness:
  "\<exists>s. calm_run demo_ota_env (ota_boot False None False) {''s1''} s \<and> Some [1] \<in> set (os_installed s)
     \<and> verify_package demo_ota_env ''s1'' (oe_sha256_hex demo_ota_env [1]) = Inr ()"
proof -
  let ?acts = "user_updates @ replicate 3 (TaskStep 0 demo_world)" and ?s0 = "ota_boot False None False"
  have "calm_fold demo_ota_env ?acts ?s0" by code_simp
  from calm_fold_run [OF calm_run.start this]
  have r: "calm_run demo_ota_env ?s0 (info_sigs ?s0 \<union> seen_sigs demo_ota_env ?acts ?s0) (ota_run demo_ota_env ?acts ?s0)" .
  moreover have "info_sigs ?s0 \<union> seen_sigs demo_ota_env ?acts ?s0 = {''s1''}" by code_simp
  moreover have i: "Some [1] \<in> set (os_installed (ota_run demo_ota_env ?acts ?s0))" by code_simp
  ultimately show ?thesis using ota_installs_signed [OF r i] by auto
qed

definition race :: "ota_action list" where
  "race = user_updates @ [announce ''s2'', UserUpdate] @ replicate 2 (TaskStep 1 demo_world) @
     map (net 1) [IoDone None, HeadAnswer (Inr 2), IoDone None, Answer 200, Chunk [2] None] @
     [TaskStep 0 demo_world, TaskStep 1 demo_world, TaskStep 1 demo_world]"

lemma race_installs: "os_installed (ota_run demo_ota_env race (ota_boot False None False)) = [Some [2]]"
  by code_simp

text \<open>
  The proviso of the previous property is needed, for nothing in the code enforces it: once the
  installing task is spawned the flag that keeps updates apart is cleared, so another request may
  start to download over the package before the installer reads it. Here the installer is given the
  first byte of a download, which no signature covers.
\<close>

theorem ota_install_race:
  "\<exists>e acts data. Some data \<in> set (os_installed (ota_run e acts (ota_boot False None False)))
     \<and> (\<forall>sg. verify_package e sg (oe_sha256_hex e data) \<noteq> Inr ())"
proof -
  have "Some [2] \<in> set (os_installed (ota_run demo_ota_env race (ota_boot False None False)))" by (simp add: race_installs)
  moreover have "\<forall>sg. verify_package demo_ota_env sg (oe_sha256_hex demo_ota_env [2]) \<noteq> Inr ()"
    by (simp add: verify_package_def demo_ota_env_def)
  ultimately show ?thesis by blast
qed

section \<open>Who decides\<close>

lemma run_task_by_user: "os_by_user s \<Longrightarrow> run_task e w t s = (r, s1) \<Longrightarrow> os_by_user s1"
  by (cases t) (auto simp: ota_task_defs split: option.splits sum.splits prod.splits if_splits dl_result.splits)

lemma check_update_by_user: "os_by_user (snd (check_update w b s)) = os_by_user s"
  by (simp add: check_update_def run_auto_update_def ready_update_def spawn_def Let_def split: sum.splits option.splits)

lemma ota_step_by_user: "os_by_user s \<Longrightarrow> os_by_user (ota_step e a s)"
proof (cases a)
  case (SetAutoUpdate b w)
  assume "os_by_user s"
  with SetAutoUpdate check_update_by_user [of w False "s\<lparr>os_auto := True, os_switch := True\<rparr>"] show ?thesis
    by (auto simp: set_auto_update_def Let_def split: option.splits prod.splits sum.splits)
next
  case (TaskStep i w)
  assume "os_by_user s"
  let ?s = "s\<lparr>os_tasks := take i (os_tasks s) @ drop (Suc i) (os_tasks s)\<rparr>"
  obtain r s1 where run: "run_task e w (os_tasks s ! i) ?s = (r, s1)" by fastforce
  moreover have "os_by_user s1" using \<open>os_by_user s\<close> run_task_by_user [OF _ run] by simp
  ultimately have "os_by_user (task_step e w i s)" using \<open>os_by_user s\<close>
    by (cases r) (simp_all add: task_step_def)
  with TaskStep show ?thesis by simp
qed (auto simp: check_update_by_user power_on_ota_update_def try_update_by_user_def ready_update_def check_ota_update_finished_def
      remove_package_def)

lemma ota_run_by_user: "os_by_user s \<Longrightarrow> os_by_user (ota_run e acts s)"
  by (induction acts arbitrary: s) (auto simp: ota_run_def ota_step_by_user)

text \<open>
  A user's request for an update is remembered for good. Whatever happens after it, every update
  that is prepared later, by the nightly check too, goes to the installer without waiting: while
  somebody is working on the host, and with automatic updates switched off.
\<close>

theorem user_request_sticks:
  "let s' = ota_run e acts (try_update_by_user s)
   in os_by_user s' \<and> (\<forall>w u sg. ready_wait w u sg s' = (Some ReadyExit, spawn TryInstall s'))"
proof -
  have "os_by_user (try_update_by_user s)" by (simp add: try_update_by_user_def ready_update_def)
  from ota_run_by_user [OF this] show ?thesis by (simp add: ready_wait_def Let_def)
qed

end
