(* ===== verification/Net_Settings.thy ===== *)
theory Net_Settings
  imports Net_Conf
begin

text \<open>
  The operations on the board's network: \<^verbatim>\<open>network/settings.rs\<close> for the flat network, \<^verbatim>\<open>network/vlan.rs\<close>
  for VLANs, \<^verbatim>\<open>network/legacy_migrate.rs\<close> for files of older firmware. They work on the configuration
  store, on \<^verbatim>\<open>network.conf\<close> (\<open>Net_Conf\<close>) and, around a change of address, on the gate of the cloud
  connection (\<open>Cloud_Link\<close>). \<open>net_io\<close> says how each system call of one operation ends (\<open>None\<close>: well);
  \<open>nt_applied\<close> is the file the refresh script applied last.
\<close>

section \<open>State\<close>

datatype net_call =
    MdnsOptions string string string
  | TlsReload
  | MdnsRefresh
  | HostnameApplied string string
  | DhcpRenew string

record 'q net_state =
  nt_cloud :: "cloud_manager \<times> (network_config \<times> 'q) cloud_world"
  nt_conf :: "string option"
  nt_pending :: bool
  nt_applied :: "string option"
  nt_proxy :: "string option"
  nt_wan_gen :: nat
  nt_calls :: "net_call list"

record net_io =
  ni_read :: "string option"
  ni_write :: "string option"
  ni_rename :: "string option"
  ni_remove :: "string option"
  ni_refresh :: "string option"
  ni_hostname :: "string option"
  ni_renew :: "string option"
  ni_store :: io_env
  ni_proxy_url :: "string \<Rightarrow> bool"
  ni_iface_ipv4 :: "string \<Rightarrow> string option"

definition net_config :: "'q net_state \<Rightarrow> network_config" where
  "net_config s = fst (c_rest (cm_config (cw_store (snd (nt_cloud s)))))"

definition update_net ::
  "(network_config \<times> 'q) codec \<Rightarrow> net_io \<Rightarrow> (network_config \<Rightarrow> network_config) \<Rightarrow> 'q net_state \<Rightarrow> (string, unit) result \<times> 'q net_state" where
  "update_net cd io f s =
     (case nt_cloud s of (m, w) \<Rightarrow>
      case update_store (manager_update cd (ni_store io) (\<lambda>c. c\<lparr>c_rest := (f (fst (c_rest c)), snd (c_rest c))\<rparr>) (cw_store w)) w of
        (r, w') \<Rightarrow> (r, s\<lparr>nt_cloud := (m, w')\<rparr>))"

definition call :: "net_call \<Rightarrow> 'q net_state \<Rightarrow> 'q net_state" where
  "call c s = s\<lparr>nt_calls := nt_calls s @ [c]\<rparr>"

section \<open>The file and the scripts\<close>

definition read_network_conf :: "net_io \<Rightarrow> 'q net_state \<Rightarrow> (string, network_config) result" where
  "read_network_conf io s =
     (case (ni_read io, nt_conf s) of
        (None, Some text) \<Rightarrow> Inr (ini_to_network_config text)
      | _ \<Rightarrow> Inl ''Failed to read /userdata/arkkvm/network.conf'')"

definition write_network_conf :: "net_io \<Rightarrow> network_config \<Rightarrow> string \<Rightarrow> 'q net_state \<Rightarrow> (string, unit) result \<times> 'q net_state" where
  "write_network_conf io config mode s =
     (case ni_write io of
        Some err \<Rightarrow> (Inl (''Failed to write /userdata/arkkvm/network.conf.tmp: '' @ err), s)
      | None \<Rightarrow>
          (case ni_rename io of
             Some err \<Rightarrow> (Inl (''Failed to rename /userdata/arkkvm/network.conf.tmp: '' @ err), s)
           | None \<Rightarrow> (Inr (), s\<lparr>nt_conf := Some (network_config_to_ini config mode)\<rparr>)))"

definition remove_pending :: "net_io \<Rightarrow> 'q net_state \<Rightarrow> 'q net_state" where
  "remove_pending io s = (if nt_pending s \<and> ni_remove io = None then s\<lparr>nt_pending := False\<rparr> else s)"

definition refresh_committed :: "net_io \<Rightarrow> 'q net_state \<Rightarrow> (string, unit) result \<times> 'q net_state" where
  "refresh_committed io s = (case ni_refresh io of Some err \<Rightarrow> (Inl err, s) | None \<Rightarrow> (Inr (), s\<lparr>nt_applied := nt_conf s\<rparr>))"

definition apply_hostname :: "net_io \<Rightarrow> string \<Rightarrow> string \<Rightarrow> 'q net_state \<Rightarrow> (string, unit) result \<times> 'q net_state" where
  "apply_hostname io name domain s =
     (let name' = (if trim name = [] then ''arkkvm'' else trim name); domain' = (if trim domain = [] then ''lan'' else trim domain)
      in case ni_hostname io of
           Some err \<Rightarrow> (Inl err, s)
         | None \<Rightarrow> (Inr (), call (HostnameApplied name' domain') s))"

section \<open>Validation\<close>

definition check_valid_ipv4 :: "string \<Rightarrow> bool" where
  "check_valid_ipv4 address = (case ipv4_parse address of Some a \<Rightarrow> a \<noteq> 0 | None \<Rightarrow> False)"

text \<open>
  The standard library's IPv6 syntax: up to eight groups of one to four hexadecimal digits, the last
  two of which may be an IPv4 address; one double colon stands for at least one group of zeros.
\<close>

definition read_hex_group :: "string \<Rightarrow> (nat \<times> string) option" where
  "read_hex_group s =
     (let ds = takeWhile (\<lambda>c. hex_digit c \<noteq> None) s in
      if ds = [] \<or> length ds > 4 then None
      else map_option (\<lambda>n. (n, drop (length ds) s)) (radix_value 16 0 ds))"

fun read_groups :: "nat \<Rightarrow> bool \<Rightarrow> string \<Rightarrow> nat list \<times> bool \<times> string" where
  "read_groups 0 first s = ([], False, s)"
| "read_groups (Suc limit) first s =
     (let body = (if first then Some s else (case s of c # r \<Rightarrow> if c = CHR '':'' then Some r else None | [] \<Rightarrow> None))
      in case body of
           None \<Rightarrow> ([], False, s)
         | Some r \<Rightarrow>
             (case (if limit > 0 then ipv4_parse r else None) of
                Some a \<Rightarrow> ([u32_octet a 3 * 256 + u32_octet a 2, u32_octet a 1 * 256 + u32_octet a 0], True, [])
              | None \<Rightarrow>
                  (case read_hex_group r of
                     None \<Rightarrow> ([], False, s)
                   | Some (n, rest) \<Rightarrow> (case read_groups limit False rest of (ns, v4, t) \<Rightarrow> (n # ns, v4, t)))))"

definition ipv6_parse :: "string \<Rightarrow> nat list option" where
  "ipv6_parse s =
     (case read_groups 8 True s of (hs, v4, rest) \<Rightarrow>
      if length hs = 8 then if rest = [] then Some hs else None
      else if v4 \<or> \<not> starts_with rest ''::'' then None
      else case read_groups (7 - length hs) True (drop 2 rest) of (ts, _, rest') \<Rightarrow>
             if rest' = [] then Some (hs @ replicate (8 - length hs - length ts) 0 @ ts) else None)"

definition check_valid_ipv6 :: "string \<Rightarrow> bool" where
  "check_valid_ipv6 address = (case ipv6_parse address of Some gs \<Rightarrow> \<exists>g \<in> set gs. g \<noteq> 0 | None \<Rightarrow> False)"

fun validate_dns :: "(string \<Rightarrow> bool) \<Rightarrow> (string \<Rightarrow> string) \<Rightarrow> string list \<Rightarrow> (string, unit) result" where
  "validate_dns ok msg [] = Inr ()"
| "validate_dns ok msg (d # ds) = (if \<not> ok d then Inl (msg d) else validate_dns ok msg ds)"

definition validate_static_ipv4 :: "static_ip_config option \<Rightarrow> string \<Rightarrow> (string, unit) result" where
  "validate_static_ipv4 st label =
     (case st of
        None \<Rightarrow> Inl (''Missing '' @ label @ '' static IP settings'')
      | Some s \<Rightarrow>
          if \<not> check_valid_ipv4 (sip_ip_address s) then Inl (''Invalid '' @ label @ '' IP address'')
          else if \<not> check_valid_ipv4 (sip_subnet_mask s) then Inl (''Invalid '' @ label @ '' subnet mask'')
          else if \<not> check_valid_ipv4 (sip_gateway s) then Inl (''Invalid '' @ label @ '' gateway'')
          else validate_dns check_valid_ipv4 (\<lambda>_. ''Invalid '' @ label @ '' DNS server'') (sip_dns_servers s))"

definition validate_vlan_endpoint :: "vlan_endpoint \<Rightarrow> string \<Rightarrow> (string, unit) result" where
  "validate_vlan_endpoint ep label =
     (if ve_vlan_id ep = 0 \<or> ve_vlan_id ep > 4094 then Inl (''Invalid '' @ label @ '' VLAN ID (1-4094)'')
      else case ve_ipv4_mode ep of Static4 \<Rightarrow> validate_static_ipv4 (ve_static_ipv4 ep) label | Dhcp4 \<Rightarrow> Inr ())"

definition validate_vlan_settings :: "vlan_settings \<Rightarrow> (string, unit) result" where
  "validate_vlan_settings v =
     (if \<not> vs_enabled v then Inr ()
      else case vs_primary v of
        None \<Rightarrow> Inl ''Primary VLAN is required''
      | Some p \<Rightarrow>
          bind_res (validate_vlan_endpoint p ''primary'') (\<lambda>_.
            case vs_secondary v of
              None \<Rightarrow> Inr ()
            | Some q \<Rightarrow>
                bind_res (validate_vlan_endpoint q ''secondary'') (\<lambda>_.
                  if ve_vlan_id q = ve_vlan_id p then Inl ''Primary and secondary VLAN IDs must differ'' else Inr ())))"

definition validate_flat_ipv4 :: "network_config \<Rightarrow> (string, unit) result" where
  "validate_flat_ipv4 c =
     (if nc_ipv4_mode c \<noteq> Static4 then Inr ()
      else case nc_static_ipv4 c of
        None \<Rightarrow> Inl ''Static IPv4 mode missing static IP configuration''
      | Some s \<Rightarrow>
          if \<not> check_valid_ipv4 (sip_ip_address s) then Inl (''Invalid IPv4 address: '' @ sip_ip_address s)
          else if \<not> check_valid_ipv4 (sip_subnet_mask s) then Inl (''Invalid subnet mask: '' @ sip_subnet_mask s)
          else if \<not> check_valid_ipv4 (sip_gateway s) then Inl (''Invalid gateway: '' @ sip_gateway s)
          else validate_dns check_valid_ipv4 (\<lambda>d. ''Invalid DNS server: '' @ d) (sip_dns_servers s))"

definition validate_flat_ipv6 :: "network_config \<Rightarrow> (string, unit) result" where
  "validate_flat_ipv6 c =
     (if nc_ipv6_mode c \<noteq> Static6 then Inr ()
      else case nc_static_ipv6 c of
        None \<Rightarrow> Inl ''Static IPv6 mode missing static IP configuration''
      | Some s \<Rightarrow>
          if \<not> check_valid_ipv6 (sip_ip_address s) then Inl (''Invalid IPv6 address: '' @ sip_ip_address s)
          else validate_dns check_valid_ipv6 (\<lambda>d. ''Invalid DNS server: '' @ d) (sip_dns_servers s))"

section \<open>VLANs\<close>

definition vlan_iface_name :: "u16 \<Rightarrow> string" where
  "vlan_iface_name n = ''eth0.'' @ nat_to_dec (unat n)"

definition read_vlan_settings_from_conf :: "net_io \<Rightarrow> 'q net_state \<Rightarrow> vlan_settings" where
  "read_vlan_settings_from_conf io s =
     (case read_network_conf io s of Inr c \<Rightarrow> nc_vlan_settings c | Inl _ \<Rightarrow> nc_vlan_settings (net_config s))"

definition open_l3_ifaces :: "net_io \<Rightarrow> 'q net_state \<Rightarrow> string list" where
  "open_l3_ifaces io s =
     (let v = read_vlan_settings_from_conf io s;
          ids = (case vs_primary v of Some p \<Rightarrow> [ve_vlan_id p] | None \<Rightarrow> []) @ (case vs_secondary v of Some q \<Rightarrow> [ve_vlan_id q] | None \<Rightarrow> [])
      in if \<not> vs_enabled v \<or> ids = [] then [''eth0''] else map vlan_iface_name ids)"

text \<open>\<open>and_then\<close> of a step with the next: an error ends the operation with the state it left.\<close>

definition net_then ::
  "(string, 'a) result \<times> 'q net_state \<Rightarrow> ('a \<Rightarrow> 'q net_state \<Rightarrow> (string, 'b) result \<times> 'q net_state) \<Rightarrow> (string, 'b) result \<times> 'q net_state" where
  "net_then r f = (case r of (Inl err, s) \<Rightarrow> (Inl err, s) | (Inr a, s) \<Rightarrow> f a s)"

definition apply_vlan_committed :: "net_io \<Rightarrow> vlan_settings \<Rightarrow> 'q net_state \<Rightarrow> (string, unit) result \<times> 'q net_state" where
  "apply_vlan_committed io v s =
     net_then (write_network_conf io ((net_config s)\<lparr>nc_vlan_settings := v\<rparr>) ''committed'' s) (\<lambda>_ s1.
       refresh_committed io (remove_pending io s1))"

definition sync_encrypted_vlan_from_conf_if_needed ::
  "(network_config \<times> 'q) codec \<Rightarrow> net_io \<Rightarrow> 'q net_state \<Rightarrow> (string, unit) result \<times> 'q net_state" where
  "sync_encrypted_vlan_from_conf_if_needed cd io s =
     (case read_network_conf io s of
        Inl _ \<Rightarrow> (Inr (), s)
      | Inr f \<Rightarrow>
          if nc_vlan_settings f = nc_vlan_settings (net_config s) then (Inr (), s)
          else update_net cd io (\<lambda>c. merge_l3_from_file (c\<lparr>nc_vlan_settings := nc_vlan_settings f\<rparr>) f) s)"

record vlan_redirect_endpoint =
  vr_vlan_id :: u16
  vr_interface_name :: string
  vr_ipv4 :: "string option"

definition build_vlan_redirect :: "net_io \<Rightarrow> vlan_settings \<Rightarrow> vlan_redirect_endpoint option \<times> vlan_redirect_endpoint option" where
  "build_vlan_redirect io v =
     (let endpoint = map_option (\<lambda>ep. let iface = vlan_iface_name (ve_vlan_id ep) in
            \<lparr>vr_vlan_id = ve_vlan_id ep, vr_interface_name = iface, vr_ipv4 = ni_iface_ipv4 io iface\<rparr>)
      in if \<not> vs_enabled v then (None, None) else (endpoint (vs_primary v), endpoint (vs_secondary v)))"

definition get_vlan_settings_response ::
  "(network_config \<times> 'q) codec \<Rightarrow> net_io \<Rightarrow> 'q net_state \<Rightarrow>
   (string, vlan_settings \<times> (vlan_redirect_endpoint option \<times> vlan_redirect_endpoint option) option) result \<times> 'q net_state" where
  "get_vlan_settings_response cd io s =
     net_then (sync_encrypted_vlan_from_conf_if_needed cd io s) (\<lambda>_ s1.
       let committed = nc_vlan_settings (net_config s1)
       in (Inr (committed, if vs_enabled committed then Some (build_vlan_redirect io committed) else None), s1))"

definition schedule_cloud_reconnect_after_apply :: "'q net_state \<Rightarrow> 'q net_state" where
  "schedule_cloud_reconnect_after_apply s = s\<lparr>nt_wan_gen := nt_wan_gen s + 1\<rparr>"

definition cloud_reconnect_task :: "nat \<Rightarrow> 'q net_state \<Rightarrow> 'q net_state" where
  "cloud_reconnect_task poll_gen s =
     (if nt_wan_gen s \<noteq> poll_gen then s
      else if cl_state (fst (nt_cloud s)) = NotConfigured then s
      else s\<lparr>nt_cloud := force_reconnect (nt_cloud s)\<rparr>)"

definition set_vlan_settings ::
  "(network_config \<times> 'q) codec \<Rightarrow> net_io \<Rightarrow> vlan_settings \<Rightarrow> 'q net_state \<Rightarrow>
   (string, vlan_redirect_endpoint option \<times> vlan_redirect_endpoint option) result \<times> 'q net_state" where
  "set_vlan_settings cd io v s =
     (case validate_vlan_settings v of
        Inl err \<Rightarrow> (Inl err, s)
      | Inr _ \<Rightarrow>
      (case apply_vlan_committed io v s of
        (Inl _, s1) \<Rightarrow> (Inl ''Failed to apply VLAN settings'', s1)
      | (Inr _, s1) \<Rightarrow>
      (case update_net cd io (\<lambda>c. c\<lparr>nc_vlan_settings := v\<rparr>) s1 of
        (Inl _, s2) \<Rightarrow> (Inl ''Failed to save VLAN settings'', s2)
      | (Inr _, s2) \<Rightarrow> (Inr (build_vlan_redirect io v), call MdnsRefresh (schedule_cloud_reconnect_after_apply s2)))))"

definition reapply_current_vlan_settings where
  "reapply_current_vlan_settings cd io s =
     (let v = read_vlan_settings_from_conf io s in
      if \<not> vs_enabled v then (Inl ''VLAN mode is not enabled'', s) else set_vlan_settings cd io v s)"

definition set_primary_vlan_id_and_apply where
  "set_primary_vlan_id_and_apply cd io vlan_id s =
     (if vlan_id = 0 \<or> vlan_id > 4094 then (Inl ''VLAN ID must be between 1 and 4094'', s)
      else let v = read_vlan_settings_from_conf io s in
      if \<not> vs_enabled v then (Inl ''VLAN mode is not enabled'', s)
      else case vs_primary v of
        None \<Rightarrow> (Inl ''Primary VLAN is not configured'', s)
      | Some p \<Rightarrow>
          if (case vs_secondary v of Some q \<Rightarrow> ve_vlan_id q = vlan_id | None \<Rightarrow> False)
          then (Inl ''Primary and Secondary VLAN IDs must be different'', s)
          else set_vlan_settings cd io (v\<lparr>vs_primary := Some (p\<lparr>ve_vlan_id := vlan_id\<rparr>)\<rparr>) s)"

definition dhcp_endpoint :: "u16 \<Rightarrow> vlan_endpoint" where
  "dhcp_endpoint n = \<lparr>ve_vlan_id = n, ve_ipv4_mode = Dhcp4, ve_ipv6_mode = Some Slaac6, ve_static_ipv4 = None, ve_static_ipv6 = None\<rparr>"

definition apply_vlan_dhcp_lab where
  "apply_vlan_dhcp_lab cd io primary_id secondary_id s =
     (if primary_id = 0 \<or> primary_id > 4094 then (Inl ''Primary VLAN ID must be between 1 and 4094'', s)
      else if (case secondary_id of Some n \<Rightarrow> n = 0 \<or> n > 4094 | None \<Rightarrow> False)
      then (Inl ''Secondary VLAN ID must be between 1 and 4094'', s)
      else if secondary_id = Some primary_id then (Inl ''Primary and Secondary VLAN IDs must be different'', s)
      else set_vlan_settings cd io \<lparr>vs_enabled = True, vs_primary = Some (dhcp_endpoint primary_id),
             vs_secondary = map_option dhcp_endpoint secondary_id\<rparr> s)"

definition apply_vlan_off_lab where
  "apply_vlan_off_lab cd io s = set_vlan_settings cd io \<lparr>vs_enabled = False, vs_primary = None, vs_secondary = None\<rparr> s"

datatype vlan_role = PrimaryVlan | SecondaryVlan

definition vlan_role_from_str :: "string \<Rightarrow> (string, vlan_role) result" where
  "vlan_role_from_str r =
     (if r = ''primary'' then Inr PrimaryVlan else if r = ''secondary'' then Inr SecondaryVlan
      else Inl (''Invalid VLAN role: '' @ r @ '' (expected primary or secondary)''))"

definition renew_vlan_dhcp_lease :: "net_io \<Rightarrow> string \<Rightarrow> 'q net_state \<Rightarrow> (string, unit) result \<times> 'q net_state" where
  "renew_vlan_dhcp_lease io role_str s =
     (case vlan_role_from_str role_str of
        Inl err \<Rightarrow> (Inl err, s)
      | Inr role \<Rightarrow>
          let v = read_vlan_settings_from_conf io s in
          if \<not> vs_enabled v then (Inl ''VLAN mode is not enabled'', s)
          else case (case role of PrimaryVlan \<Rightarrow> vs_primary v | SecondaryVlan \<Rightarrow> vs_secondary v) of
            None \<Rightarrow> (Inl (case role of PrimaryVlan \<Rightarrow> ''Primary VLAN is not configured'' | SecondaryVlan \<Rightarrow> ''Secondary VLAN is not configured''), s)
          | Some ep \<Rightarrow>
              if ve_ipv4_mode ep \<noteq> Dhcp4
              then (Inl ((case role of PrimaryVlan \<Rightarrow> ''primary'' | SecondaryVlan \<Rightarrow> ''secondary'')
                         @ '' VLAN uses static IPv4; DHCP lease renewal is not applicable''), s)
              else case ni_renew io of
                     Some err \<Rightarrow> (Inl err, s)
                   | None \<Rightarrow> (Inr (), call (DhcpRenew (vlan_iface_name (ve_vlan_id ep))) s))"

definition init_vlan_settings ::
  "(network_config \<times> 'q) codec \<Rightarrow> net_io \<Rightarrow> 'q net_state \<Rightarrow> (string, unit) result \<times> 'q net_state" where
  "init_vlan_settings cd io s = sync_encrypted_vlan_from_conf_if_needed cd io (remove_pending io s)"

section \<open>The flat network\<close>

definition get_network_settings :: "net_io \<Rightarrow> 'q net_state \<Rightarrow> network_config" where
  "get_network_settings io s =
     (case read_network_conf io s of Inr f \<Rightarrow> merge_l3_from_file (net_config s) f | Inl _ \<Rightarrow> net_config s)"

definition update_proxy :: "net_io \<Rightarrow> string option \<Rightarrow> 'q net_state \<Rightarrow> (string, unit) result \<times> 'q net_state" where
  "update_proxy io proxy s =
     (case proxy of
        None \<Rightarrow> (Inr (), s\<lparr>nt_proxy := None\<rparr>)
      | Some p \<Rightarrow> if ni_proxy_url io p then (Inr (), s\<lparr>nt_proxy := Some p\<rparr>)
                 else (Inl (''Invalid proxy URL: '' @ p), s\<lparr>nt_proxy := None\<rparr>))"

definition apply_non_l3_settings ::
  "net_io \<Rightarrow> network_config option \<Rightarrow> network_config \<Rightarrow> 'q net_state \<Rightarrow> (string, unit) result \<times> 'q net_state" where
  "apply_non_l3_settings io old c s =
     (let changed = (\<lambda>f. case old of Some old \<Rightarrow> f old | None \<Rightarrow> True)
      in net_then (if changed (\<lambda>old. nc_http_proxy old \<noteq> nc_http_proxy c) then update_proxy io (nc_http_proxy c) s else (Inr (), s)) (\<lambda>_ s1.
         if changed (\<lambda>old. nc_hostname old \<noteq> nc_hostname c \<or> nc_domain old \<noteq> nc_domain c \<or> nc_mdns_mode old \<noteq> nc_mdns_mode c)
         then let s2 = call (MdnsOptions (or_else (nc_hostname c) []) (or_else (nc_domain c) []) (nc_mdns_mode c)) s1
              in (Inr (), if (case old of Some old \<Rightarrow> nc_hostname old \<noteq> nc_hostname c \<or> nc_domain old \<noteq> nc_domain c | None \<Rightarrow> False)
                          then call TlsReload s2 else s2)
         else (Inr (), s1)))"

text \<open>A change of address happens between the begin and the end of a transition of the cloud connection.\<close>

definition in_transition ::
  "('q net_state \<Rightarrow> (string, unit) result \<times> 'q net_state) \<Rightarrow> 'q net_state \<Rightarrow> (string, unit) result \<times> 'q net_state" where
  "in_transition body s =
     (case begin_network_transition (nt_cloud s) of (k, cl) \<Rightarrow>
      case body (s\<lparr>nt_cloud := cl\<rparr>) of (r, s1) \<Rightarrow>
        (r, s1\<lparr>nt_cloud := (end_network_transition k (fst (nt_cloud s1)), snd (nt_cloud s1))\<rparr>))"

definition apply_flat_network :: "net_io \<Rightarrow> network_config \<Rightarrow> 'q net_state \<Rightarrow> (string, unit) result \<times> 'q net_state" where
  "apply_flat_network io c s =
     (case bind_res (validate_flat_ipv4 c) (\<lambda>_. validate_flat_ipv6 c) of
        Inl err \<Rightarrow> (Inl err, s)
      | Inr _ \<Rightarrow>
          net_then (in_transition (\<lambda>s1. net_then (write_network_conf io c ''committed'' s1) (\<lambda>_. refresh_committed io)) s) (\<lambda>_ s2.
            (Inr (), call MdnsRefresh s2)))"

definition apply_hostname_domain_only :: "net_io \<Rightarrow> network_config \<Rightarrow> 'q net_state \<Rightarrow> (string, unit) result \<times> 'q net_state" where
  "apply_hostname_domain_only io c s =
     (let conf = (case read_network_conf io s of Inr f \<Rightarrow> f | Inl _ \<Rightarrow> c)
      in net_then (write_network_conf io (conf\<lparr>nc_hostname := nc_hostname c, nc_domain := nc_domain c\<rparr>) ''committed'' s) (\<lambda>_.
           apply_hostname io (or_else (nc_hostname c) ''arkkvm'') (or_else (nc_domain c) ''dhcp'')))"

definition on_config_changed ::
  "net_io \<Rightarrow> network_config option \<Rightarrow> network_config \<Rightarrow> 'q net_state \<Rightarrow> (string, unit) result \<times> 'q net_state" where
  "on_config_changed io old c s =
     (let changed = (\<lambda>f. case old of Some old \<Rightarrow> f old | None \<Rightarrow> True);
          names = (\<lambda>old. nc_hostname old \<noteq> nc_hostname c \<or> nc_domain old \<noteq> nc_domain c)
      in net_then (apply_non_l3_settings io old c s) (\<lambda>_ s1.
         if vs_enabled (nc_vlan_settings c)
         then if changed names then apply_hostname_domain_only io c s1 else (Inr (), s1)
         else if changed (\<lambda>old. names old \<or> nc_ipv4_mode old \<noteq> nc_ipv4_mode c \<or> nc_static_ipv4 old \<noteq> nc_static_ipv4 c
                \<or> nc_ipv6_mode old \<noteq> nc_ipv6_mode c \<or> nc_static_ipv6 old \<noteq> nc_static_ipv6 c)
         then apply_flat_network io c s1 else (Inr (), s1)))"

definition set_network_settings ::
  "(network_config \<times> 'q) codec \<Rightarrow> net_io \<Rightarrow> network_config \<Rightarrow> 'q net_state \<Rightarrow> (string, unit) result \<times> 'q net_state" where
  "set_network_settings cd io settings s =
     (let c1 = (if nc_http_proxy settings = Some [] then settings\<lparr>nc_http_proxy := None\<rparr> else settings);
          old = net_config s;
          c2 = (if nc_vlan_settings c1 = vlan_settings_default \<and> nc_vlan_settings old \<noteq> vlan_settings_default
                then c1\<lparr>nc_vlan_settings := nc_vlan_settings old\<rparr> else c1)
      in if old = c2 then (Inr (), s)
         else net_then (on_config_changed io (Some old) c2 s) (\<lambda>_. update_net cd io (\<lambda>_. c2)))"

definition reset_network_to_factory ::
  "(network_config \<times> 'q) codec \<Rightarrow> net_io \<Rightarrow> 'q net_state \<Rightarrow> (string, unit) result \<times> 'q net_state" where
  "reset_network_to_factory cd io s =
     net_then (in_transition (\<lambda>s1.
         net_then (apply_non_l3_settings io (Some (net_config s)) network_config_default s1) (\<lambda>_ s2.
         net_then (write_network_conf io network_config_default ''committed'' s2) (\<lambda>_ s3.
         refresh_committed io (remove_pending io s3)))) s) (\<lambda>_ s4.
       net_then (update_net cd io (\<lambda>_. network_config_default) s4) (\<lambda>_ s5.
         (Inr (), call MdnsRefresh s5)))"


section \<open>Files of older firmware\<close>

text \<open>
  \<^verbatim>\<open>legacy_migrate.rs\<close>. \<open>static_file\<close> is the contents of \<^verbatim>\<open>static_ip.conf\<close> if it exists; \<open>lg_read\<close> and
  \<open>lg_archive\<close> say how reading it and moving it away end.
\<close>

definition trim_matches :: "char \<Rightarrow> string \<Rightarrow> string" where
  "trim_matches d s = rev (dropWhile (\<lambda>c. c = d) (rev (dropWhile (\<lambda>c. c = d) s)))"

record legacy_fields =
  lf_ip :: "string option"
  lf_netmask :: "string option"
  lf_gateway :: "string option"
  lf_dns :: "string list"

definition legacy_line :: "string \<Rightarrow> legacy_fields \<Rightarrow> legacy_fields" where
  "legacy_line raw st =
     (let line = trim raw in
      if line = [] \<or> starts_with line ''#'' then st
      else case str_split_once (CHR ''='') line of
        None \<Rightarrow> st
      | Some (k, v) \<Rightarrow>
          let key = to_ascii_lowercase (trim k); val = trim_matches (CHR 0x27) (trim_matches (CHR 0x22) (trim v))
          in if key = ''ip'' then st\<lparr>lf_ip := Some val\<rparr>
             else if key = ''netmask'' then st\<lparr>lf_netmask := Some val\<rparr>
             else if key = ''gateway'' then st\<lparr>lf_gateway := Some val\<rparr>
             else if key = ''dns'' then st\<lparr>lf_dns := split_whitespace val\<rparr>
             else st)"

definition parse_static_ip_conf :: "string \<Rightarrow> static_ip_config option" where
  "parse_static_ip_conf content =
     (let st = fold legacy_line (str_lines content) \<lparr>lf_ip = None, lf_netmask = None, lf_gateway = None, lf_dns = []\<rparr>
      in map_option (\<lambda>ip. \<lparr>sip_ip_address = ip, sip_subnet_mask = or_else (lf_netmask st) ''255.255.255.0'',
           sip_gateway = or_else (lf_gateway st) '''', sip_dns_servers = lf_dns st\<rparr>) (lf_ip st))"

definition is_provisional_or_default_template :: "string \<Rightarrow> bool" where
  "is_provisional_or_default_template content =
     (if str_contains content ''provisional-template'' then True
      else list_ex (\<lambda>l. trim l = ''mode=dhcp'' \<or> starts_with (trim l) ''mode=dhcp '') (str_lines content) \<and>
           \<not> (str_contains content ''Migrated from'' \<or> str_contains content ''managed by arkkvm_app''))"

record legacy_io =
  lg_read :: "string option"
  lg_archive :: "string option"

definition maybe_migrate_legacy_network_config ::
  "net_io \<Rightarrow> legacy_io \<Rightarrow> string option \<times> 'q net_state \<Rightarrow> (string, unit) result \<times> string option \<times> 'q net_state" where
  "maybe_migrate_legacy_network_config io lg = (\<lambda>(static_file, s).
     case (case nt_conf s of
             None \<Rightarrow> Inr False
           | Some text \<Rightarrow> (case ni_read io of Some err \<Rightarrow> Inl err | None \<Rightarrow> Inr (is_provisional_or_default_template text))) of
       Inl err \<Rightarrow> (Inl err, static_file, s)
     | Inr provisional \<Rightarrow>
         let fresh = (nt_conf s = None \<or> provisional) in
         if \<not> fresh \<and> static_file = None then (Inr (), static_file, s)
         else
           let base = (if fresh then net_config s else case read_network_conf io s of Inr c \<Rightarrow> c | Inl _ \<Rightarrow> net_config s);
               static_cfg = (case static_file of Some t \<Rightarrow> if lg_read lg = None then parse_static_ip_conf t else None | None \<Rightarrow> None);
               config = (case static_cfg of Some st \<Rightarrow> base\<lparr>nc_ipv4_mode := Static4, nc_static_ipv4 := Some st\<rparr> | None \<Rightarrow> base)
           in if \<not> (fresh \<or> static_cfg \<noteq> None) then (Inr (), static_file, s)
              else case net_then (write_network_conf io config ''committed'' s) (\<lambda>_. refresh_committed io) of
                     (Inl err, s1) \<Rightarrow> (Inl err, static_file, s1)
                   | (Inr _, s1) \<Rightarrow>
                       if static_cfg = None then (Inr (), static_file, s1)
                       else case lg_archive lg of
                              Some err \<Rightarrow> (Inl (''Failed to archive /userdata/arkkvm/static_ip.conf: '' @ err), static_file, s1)
                            | None \<Rightarrow> (Inr (), None, s1))"

section \<open>What each operation keeps\<close>

lemma update_net_frame:
  "\<exists>w. snd (update_net cd io f s) = s\<lparr>nt_cloud := (fst (nt_cloud s), w)\<rparr> \<and> net_config (s\<lparr>nt_cloud := (fst (nt_cloud s), w)\<rparr>) = f (net_config s)"
proof -
  obtain m w where c: "nt_cloud s = (m, w)" by force
  let ?u = "\<lambda>c. c\<lparr>c_rest := (f (fst (c_rest c)), snd (c_rest c))\<rparr>"
  obtain ms where ms: "snd (config_validate (?u (cm_config (cw_store w)))) = (?u (cm_config (cw_store w)))\<lparr>c_keyboard_macros := ms\<rparr>"
    using config_validate_frame by blast
  have "c_rest (cm_config (snd (manager_update cd (ni_store io) ?u (cw_store w)))) = (f (fst (c_rest (cm_config (cw_store w)))), snd (c_rest (cm_config (cw_store w))))"
    using ms by (auto simp: manager_update_def manager_save_def split: prod.splits sum.splits)
  then show ?thesis
    by (auto simp: update_net_def c update_store_def net_config_def split: prod.splits sum.splits)
qed

lemma update_net_keeps:
  assumes "update_net cd io f s = (r, s')"
  shows "net_config s' = f (net_config s)" "nt_conf s' = nt_conf s" "nt_applied s' = nt_applied s"
    "fst (nt_cloud s') = fst (nt_cloud s)" "nt_pending s' = nt_pending s"
  using update_net_frame [of cd io f s] assms by auto

lemmas net_step_defs = net_then_def call_def remove_pending_def refresh_committed_def write_network_conf_def apply_hostname_def
  schedule_cloud_reconnect_after_apply_def

lemma net_config_more [simp]:
  "net_config (s\<lparr>nt_conf := a\<rparr>) = net_config s" "net_config (s\<lparr>nt_pending := b\<rparr>) = net_config s"
  "net_config (s\<lparr>nt_applied := a\<rparr>) = net_config s" "net_config (s\<lparr>nt_calls := l\<rparr>) = net_config s"
  "net_config (s\<lparr>nt_wan_gen := n\<rparr>) = net_config s" "net_config (s\<lparr>nt_proxy := a\<rparr>) = net_config s"
  by (simp_all add: net_config_def)

lemma file_holds_vlan:
  assumes "storable c"
  shows "nc_vlan_settings (ini_to_network_config (network_config_to_ini c ''committed'')) = nc_vlan_settings c"
  using arg_cong [OF conf_merges_back [OF assms ini_names(20)], of nc_vlan_settings] by (simp add: merge_l3_from_file_def)

lemma apply_vlan_ok:
  assumes "apply_vlan_committed io v s = (Inr u, s')"
  shows "nt_conf s' = Some (network_config_to_ini ((net_config s)\<lparr>nc_vlan_settings := v\<rparr>) ''committed'')"
    "nt_applied s' = nt_conf s'" "net_config s' = net_config s"
  using assms by (auto simp: apply_vlan_committed_def net_step_defs split: option.splits if_splits)

lemma set_vlan_ok:
  assumes "set_vlan_settings cd io v s = (Inr r, s')"
  shows "nt_conf s' = Some (network_config_to_ini ((net_config s)\<lparr>nc_vlan_settings := v\<rparr>) ''committed'')"
    "nt_applied s' = nt_conf s'" "net_config s' = (net_config s)\<lparr>nc_vlan_settings := v\<rparr>"
    "validate_vlan_settings v = Inr ()" "r = build_vlan_redirect io v"
proof -
  obtain s1 s2 where a: "apply_vlan_committed io v s = (Inr (), s1)" and u: "update_net cd io (\<lambda>c. c\<lparr>nc_vlan_settings := v\<rparr>) s1 = (Inr (), s2)"
    and e: "s' = call MdnsRefresh (schedule_cloud_reconnect_after_apply s2)"
    and v: "validate_vlan_settings v = Inr ()" "r = build_vlan_redirect io v"
    using assms by (auto simp: set_vlan_settings_def split: sum.splits prod.splits)
  show "nt_conf s' = Some (network_config_to_ini ((net_config s)\<lparr>nc_vlan_settings := v\<rparr>) ''committed'')"
    "nt_applied s' = nt_conf s'" "net_config s' = (net_config s)\<lparr>nc_vlan_settings := v\<rparr>"
    "validate_vlan_settings v = Inr ()" "r = build_vlan_redirect io v"
    using apply_vlan_ok [OF a] update_net_keeps [OF u] v by (simp_all add: e net_step_defs)
qed


section \<open>VLAN settings, the file and the store\<close>

lemma read_conf_some: "nt_conf s = Some t \<Longrightarrow> ni_read io = None \<Longrightarrow> read_network_conf io s = Inr (ini_to_network_config t)"
  by (simp add: read_network_conf_def)

text \<open>
  C21: VLAN settings that were accepted, and that are of the kind the file can hold, are in force
  everywhere: the store holds them, the refresh script applied the file that holds them, and a later
  query that can read the file, and first copies it over the store, answers them and changes
  nothing. The file can hold them when every VLAN has an id, an IPv6 mode and no static IPv6 address,
  static IPv4 goes with static mode, and no value has a line end or white space around it (the other
  settings of the configuration likewise).
\<close>

theorem vlan_settings_in_step:
  assumes "set_vlan_settings cd io v s = (Inr r, s')" "storable ((net_config s)\<lparr>nc_vlan_settings := v\<rparr>)" "ni_read io' = None"
  shows "nt_applied s' = nt_conf s' \<and> nc_vlan_settings (net_config s') = v \<and> read_vlan_settings_from_conf io' s' = v \<and>
    get_vlan_settings_response cd io' s' = (Inr (v, if vs_enabled v then Some (build_vlan_redirect io' v) else None), s')"
proof -
  note ok = set_vlan_ok [OF assms(1)]
  have "read_network_conf io' s' = Inr (ini_to_network_config (network_config_to_ini ((net_config s)\<lparr>nc_vlan_settings := v\<rparr>) ''committed''))"
    by (rule read_conf_some [OF ok(1) assms(3)])
  then show ?thesis using ok(2,3) file_holds_vlan [OF assms(2)]
    by (simp add: read_vlan_settings_from_conf_def get_vlan_settings_response_def sync_encrypted_vlan_from_conf_if_needed_def net_then_def)
qed

lemma sync_takes_file:
  assumes "ni_read io = None" "nt_conf s = Some t" "sync_encrypted_vlan_from_conf_if_needed cd io s = (r, s')"
  shows "nc_vlan_settings (net_config s') = nc_vlan_settings (ini_to_network_config t)"
  using assms(3) by (auto simp: sync_encrypted_vlan_from_conf_if_needed_def read_conf_some [OF assms(2,1)] merge_l3_from_file_def
      dest: update_net_keeps(1) split: if_splits)

text \<open>
  C40: VLAN settings of the kind the file can hold (see the previous property), whose refresh fails
  after the file was written, are refused, and the store keeps the old ones; but the file already
  holds the new ones, so the next query that can read it takes them over into the store.
\<close>

theorem refused_vlan_adopted:
  assumes "validate_vlan_settings v = Inr ()" "ni_write io = None" "ni_rename io = None" "ni_refresh io = Some err"
    and "storable ((net_config s)\<lparr>nc_vlan_settings := v\<rparr>)" "ni_read io' = None"
  shows "\<exists>s'. set_vlan_settings cd io v s = (Inl ''Failed to apply VLAN settings'', s') \<and> net_config s' = net_config s \<and> nt_applied s' = nt_applied s \<and>
    nc_vlan_settings (net_config (snd (get_vlan_settings_response cd io' s'))) = v"
proof -
  let ?t = "network_config_to_ini ((net_config s)\<lparr>nc_vlan_settings := v\<rparr>) ''committed''"
  define s' where "s' = remove_pending io (s\<lparr>nt_conf := Some ?t\<rparr>)"
  have f: "nt_conf s' = Some ?t" "net_config s' = net_config s" "nt_applied s' = nt_applied s"
    by (simp_all add: s'_def remove_pending_def)
  have "set_vlan_settings cd io v s = (Inl ''Failed to apply VLAN settings'', s')"
    using assms(1-4) by (simp add: set_vlan_settings_def apply_vlan_committed_def s'_def net_then_def write_network_conf_def refresh_committed_def)
  moreover obtain r s2 where sy: "sync_encrypted_vlan_from_conf_if_needed cd io' s' = (r, s2)" by force
  moreover have "snd (get_vlan_settings_response cd io' s') = s2"
    by (cases r) (simp_all add: get_vlan_settings_response_def sy net_then_def Let_def)
  ultimately show ?thesis using f sync_takes_file [OF assms(6) f(1) sy] file_holds_vlan [OF assms(5)] by auto
qed

lemma parsed_vlan_no_ipv6:
  "pred_option (\<lambda>ep. ve_static_ipv6 ep = None) (vs_primary (nc_vlan_settings (ini_to_network_config t)))"
  by (simp add: ini_to_network_config_def parse_vlan_endpoint_def Let_def split: option.split)

text \<open>
  A static IPv6 address of a VLAN is lost: settings that carry one are accepted and reported as
  applied, and the next query that can read the file answers settings without it.
\<close>

theorem vlan_static_ipv6_lost:
  assumes "set_vlan_settings cd io v s = (Inr r, s')" "vs_primary v = Some p" "ve_static_ipv6 p \<noteq> None" "ni_read io' = None"
    and "get_vlan_settings_response cd io' s' = (Inr (v', red), s2)"
  shows "v' \<noteq> v \<and> pred_option (\<lambda>ep. ve_static_ipv6 ep = None) (vs_primary v')"
proof -
  obtain sr s3 where sy: "sync_encrypted_vlan_from_conf_if_needed cd io' s' = (sr, s3)" by force
  then have "v' = nc_vlan_settings (net_config s3)"
    using assms(5) by (cases sr) (auto simp: get_vlan_settings_response_def net_then_def Let_def)
  then have "pred_option (\<lambda>ep. ve_static_ipv6 ep = None) (vs_primary v')"
    using sync_takes_file [OF assms(4) set_vlan_ok(1) [OF assms(1)] sy] parsed_vlan_no_ipv6 by simp
  then show ?thesis using assms(2,3) by auto
qed

section \<open>The cloud connection is let go\<close>

abbreviation gate_open :: "'q net_state \<Rightarrow> bool" where
  "gate_open s \<equiv> \<not> rg_paused (cl_gate (fst (nt_cloud s)))"

lemma begin_gate:
  assumes "begin_network_transition c = (k, c')"
  shows "rg_paused (cl_gate (fst c')) \<and> rg_generation (cl_gate (fst c')) = k"
  using assms by (cases c) (auto simp: begin_network_transition_def gate_begin_def reconnect_after_network_change_def set_state_def split: if_splits)

lemma end_gate:
  "rg_paused (cl_gate m) \<and> rg_generation (cl_gate m) = k \<Longrightarrow> \<not> rg_paused (cl_gate (end_network_transition k m))"
  by (simp add: end_network_transition_def gate_end_def set_state_def Let_def)

lemma in_transition_opens:
  assumes "\<And>s r s'. body s = (r, s') \<Longrightarrow> nt_cloud s' = nt_cloud s"
  shows "gate_open (snd (in_transition body s))"
proof -
  obtain k cl where b: "begin_network_transition (nt_cloud s) = (k, cl)" by (metis surj_pair)
  obtain r s1 where body: "body (s\<lparr>nt_cloud := cl\<rparr>) = (r, s1)" by force
  then have "nt_cloud s1 = cl" using assms by fastforce
  then show ?thesis using begin_gate [OF b] end_gate [of "fst cl" k] by (simp add: in_transition_def b body)
qed

lemma keeps_cloud:
  "write_network_conf io c mode s = (r, s') \<Longrightarrow> nt_cloud s' = nt_cloud s"
  "refresh_committed io s = (r, s') \<Longrightarrow> nt_cloud s' = nt_cloud s"
  "apply_hostname io name domain s = (r, s') \<Longrightarrow> nt_cloud s' = nt_cloud s"
  "apply_non_l3_settings io old c s = (r, s') \<Longrightarrow> nt_cloud s' = nt_cloud s"
  by (auto simp: net_step_defs apply_non_l3_settings_def update_proxy_def Let_def split: option.splits if_splits prod.splits sum.splits)

lemma keeps_cloud_simps [simp]:
  "nt_cloud (remove_pending io s) = nt_cloud s" "nt_cloud (call e s) = nt_cloud s" "fst (nt_cloud (snd (update_net cd io f s))) = fst (nt_cloud s)"
  using update_net_frame [of cd io f s] by (auto simp: remove_pending_def call_def)

lemma net_then_open:
  assumes "gate_open (snd x)" "\<And>a s1. gate_open s1 \<Longrightarrow> gate_open (snd (f a s1))"
  shows "gate_open (snd (net_then x f))"
  using assms by (auto simp: net_then_def split: prod.splits sum.splits)

lemma net_thenE:
  assumes "net_then x f = (r, s')"
  obtains err where "x = (Inl err, s')" | a s1 where "x = (Inr a, s1)" "f a s1 = (r, s')"
  using assms by (auto simp: net_then_def split: prod.splits sum.splits)

lemma flat_network_opens:
  assumes "gate_open s"
  shows "gate_open (snd (apply_flat_network io c s))"
proof -
  let ?b = "\<lambda>s1. net_then (write_network_conf io c ''committed'' s1) (\<lambda>_. refresh_committed io)"
  have "nt_cloud s' = nt_cloud s1" if "?b s1 = (r, s')" for s1 :: "'a net_state" and r s'
    using that by (elim net_thenE) (auto dest!: keeps_cloud)
  then have "gate_open (snd (in_transition ?b s))" by (rule in_transition_opens)
  then show ?thesis using assms
    by (simp add: apply_flat_network_def net_then_open split: sum.split)
qed

lemma config_changed_opens:
  assumes "gate_open s"
  shows "gate_open (snd (on_config_changed io old c s))"
proof -
  obtain r s1 where a: "apply_non_l3_settings io old c s = (r, s1)" by force
  have o: "gate_open s1" using assms keeps_cloud(4) [OF a] by simp
  obtain r2 s2 where h: "apply_hostname_domain_only io c s1 = (r2, s2)" by force
  have "nt_cloud s2 = nt_cloud s1"
    using h unfolding apply_hostname_domain_only_def Let_def by (elim net_thenE) (auto dest!: keeps_cloud)
  then show ?thesis using o flat_network_opens [OF o, of io c]
    by (cases r) (auto simp: on_config_changed_def a h net_then_def Let_def)
qed

text \<open>
  C22: A change of the board's address pauses the cloud connection and always lets it go again: after
  new settings or a factory reset, accepted or failed at whichever step, the gate is open.
\<close>

theorem network_change_reopens_gate:
  assumes "gate_open s"
  shows "gate_open (snd (set_network_settings cd io c s)) \<and> gate_open (snd (reset_network_to_factory cd io s'))"
proof
  show "gate_open (snd (set_network_settings cd io c s))"
    using config_changed_opens [OF assms] assms by (simp add: set_network_settings_def Let_def net_then_open)
next
  let ?b = "\<lambda>s1. net_then (apply_non_l3_settings io (Some (net_config s')) network_config_default s1) (\<lambda>_ s2.
         net_then (write_network_conf io network_config_default ''committed'' s2) (\<lambda>_ s3. refresh_committed io (remove_pending io s3)))"
  have "nt_cloud s2 = nt_cloud s1" if "?b s1 = (r, s2)" for s1 :: "'b net_state" and r s2
    using that by (elim net_thenE) (auto dest!: keeps_cloud)
  then have "gate_open (snd (in_transition ?b s'))" by (rule in_transition_opens)
  then show "gate_open (snd (reset_network_to_factory cd io s'))"
    unfolding reset_network_to_factory_def by (simp add: net_then_open)
qed

section \<open>Migration\<close>

lemma contains_prefix: "prefix p s \<Longrightarrow> str_contains s p"
  by (cases s) auto

lemma contains_append: "str_contains b p \<Longrightarrow> str_contains (a @ b) p"
  by (induction a) auto

lemma printed_managed: "str_contains (network_config_to_ini c mode) ''managed by arkkvm_app''"
proof -
  have "\<exists>a b. network_config_to_ini c mode = a @ ''managed by arkkvm_app'' @ b"
    by (simp add: network_config_to_ini_def INI_HEADER_def ini_text_def)
      (rule exI [of _ "''# network.conf '' @ [CHR 0xE2, CHR 0x80, CHR 0x94] @ '' ''"], simp)
  then show ?thesis using contains_append contains_prefix by fastforce
qed

lemma printed_not_template:
  "\<not> str_contains (network_config_to_ini c mode) ''provisional-template'' \<Longrightarrow> \<not> is_provisional_or_default_template (network_config_to_ini c mode)"
  using printed_managed by (simp add: is_provisional_or_default_template_def)

lemma write_refresh_ok:
  assumes "net_then (write_network_conf io c ''committed'' s) (\<lambda>_. refresh_committed io) = (Inr u, s1)"
  shows "nt_conf s1 = Some (network_config_to_ini c ''committed'')" "nt_applied s1 = nt_conf s1"
  using assms by (auto simp: net_step_defs split: option.splits)

text \<open>
  C29: The file of older firmware is put away only once its address is in force: when the migration
  removes \<^verbatim>\<open>static_ip.conf\<close>, the applied \<^verbatim>\<open>network.conf\<close> was printed from settings with that static
  address, and the migration reported success.
\<close>

theorem migration_keeps_address:
  assumes "maybe_migrate_legacy_network_config io lg (Some t, s) = (r, None, s')"
  shows "r = Inr () \<and> (\<exists>st c. parse_static_ip_conf t = Some st \<and> nc_ipv4_mode c = Static4 \<and> nc_static_ipv4 c = Some st \<and>
    nt_conf s' = Some (network_config_to_ini c ''committed'') \<and> nt_applied s' = nt_conf s')"
proof -
  obtain st b where "parse_static_ip_conf t = Some st" "r = Inr ()"
    "net_then (write_network_conf io (b\<lparr>nc_ipv4_mode := Static4, nc_static_ipv4 := Some st\<rparr>) ''committed'' s) (\<lambda>_. refresh_committed io) = (Inr (), s')"
    using assms by (auto simp: maybe_migrate_legacy_network_config_def Let_def split: option.splits sum.splits if_splits prod.splits)
  then show ?thesis using write_refresh_ok by force
qed

lemma migration_cases:
  assumes "maybe_migrate_legacy_network_config io lg (f, s) = (Inr (), f', s')"
  shows "(\<exists>c. nt_conf s' = Some (network_config_to_ini c ''committed'')) \<and>
      (f' = None \<or> lg_read lg \<noteq> None \<or> parse_static_ip_conf (the f') = None) \<or>
    s' = s \<and> (\<exists>t. nt_conf s = Some t \<and> \<not> is_provisional_or_default_template t) \<and>
      (f' = None \<or> lg_read lg \<noteq> None \<or> parse_static_ip_conf (the f') = None)"
  using assms
  by (auto simp: maybe_migrate_legacy_network_config_def Let_def dest: write_refresh_ok(1) split: option.splits sum.splits if_splits prod.splits)

text \<open>
  The migration happens once: after it succeeded, running it again, as every boot does, changes
  neither the files nor the network, unless the marker of the provisional template is in the file.
\<close>

theorem migration_settles:
  assumes "maybe_migrate_legacy_network_config io lg (f, s) = (Inr (), f', s')" "ni_read io' = None" "lg_read lg' = lg_read lg"
    and "\<not> str_contains (the (nt_conf s')) ''provisional-template''"
  shows "maybe_migrate_legacy_network_config io' lg' (f', s') = (Inr (), f', s')"
proof -
  have "\<exists>t. nt_conf s' = Some t \<and> \<not> is_provisional_or_default_template t"
    using migration_cases [OF assms(1)] assms(4) printed_not_template by fastforce
  then show ?thesis using migration_cases [OF assms(1)] assms(2,3)
    by (auto simp: maybe_migrate_legacy_network_config_def Let_def split: option.split)
qed


section \<open>Concrete instances\<close>

definition net_demo_codec :: "(network_config \<times> unit) codec" where
  "net_demo_codec = \<lparr>cd_to_json = (\<lambda>c. Inr ''{cfg}''), cd_from_json = (\<lambda>j. Inl ''bad''),
     cd_encrypt = (\<lambda>k n p. Inr (rev p)), cd_decrypt = (\<lambda>k n p. Inr (rev p)), cd_sha256 = (\<lambda>b. replicate 32 7),
     cd_hex = (\<lambda>b. ''00''), cd_device_id = ''dev1'', cd_rest = (network_config_default, ())\<rparr>"

definition net_demo :: "unit net_state" where
  "net_demo = \<lparr>nt_cloud = cloud_boot \<lparr>cm_config = (config_default ''dev1'' (network_config_default, ()))\<lparr>c_local_auth_mode := ''noPassword''\<rparr>,
     cm_disk = empty_disk\<rparr>, nt_conf = None, nt_pending = False, nt_applied = None, nt_proxy = None, nt_wan_gen = 0, nt_calls = []\<rparr>"

definition net_demo_io :: net_io where
  "net_demo_io = \<lparr>ni_read = None, ni_write = None, ni_rename = None, ni_remove = None, ni_refresh = None, ni_hostname = None,
     ni_renew = None, ni_store = demo_io, ni_proxy_url = (\<lambda>u. True), ni_iface_ipv4 = (\<lambda>i. None)\<rparr>"

definition dhcp_vlan :: vlan_settings where
  "dhcp_vlan = \<lparr>vs_enabled = True, vs_primary = Some (dhcp_endpoint 7), vs_secondary = None\<rparr>"

lemma net_demo_config: "net_config net_demo = network_config_default"
  by (simp add: net_config_def net_demo_def cloud_boot_def config_default_def)

lemma dhcp_vlan_storable: "storable ((net_config net_demo)\<lparr>nc_vlan_settings := dhcp_vlan\<rparr>)"
  using demo_network_storable(3)
  by (simp add: net_demo_config storable_def vlan_storable_def dhcp_vlan_def dhcp_endpoint_def endpoint_storable_def network_config_default_def)

lemma net_demo_update:
  assumes "cm_config (cw_store (snd (nt_cloud s))) = (cm_config (cw_store (snd (nt_cloud net_demo))))\<lparr>c_rest := x\<rparr>"
  shows "\<exists>s' x'. update_net net_demo_codec net_demo_io f s = (Inr (), s') \<and>
    cm_config (cw_store (snd (nt_cloud s'))) = (cm_config (cw_store (snd (nt_cloud net_demo))))\<lparr>c_rest := x'\<rparr>"
proof -
  obtain m w where c: "nt_cloud s = (m, w)" by force
  show ?thesis using assms
    by (simp add: update_net_def c net_demo_def cloud_boot_def manager_update_def config_validate_def config_default_def
        MAX_MACROS_PER_DEVICE_def manager_save_def persistence_save_def net_demo_codec_def net_demo_io_def demo_io_def config_encode_def
        after_write_def update_store_def Let_def)
qed

lemma net_demo_set:
  assumes "validate_vlan_settings v = Inr ()"
  shows "\<exists>r s' x. set_vlan_settings net_demo_codec net_demo_io v net_demo = (Inr r, s') \<and>
    cm_config (cw_store (snd (nt_cloud s'))) = (cm_config (cw_store (snd (nt_cloud net_demo))))\<lparr>c_rest := x\<rparr>"
proof -
  obtain s1 where a: "apply_vlan_committed net_demo_io v net_demo = (Inr (), s1)" "nt_cloud s1 = nt_cloud net_demo"
    by (simp add: apply_vlan_committed_def net_step_defs net_demo_io_def)
  then have "cm_config (cw_store (snd (nt_cloud s1))) = (cm_config (cw_store (snd (nt_cloud net_demo))))\<lparr>c_rest := (network_config_default, ())\<rparr>"
    by (simp add: net_demo_def cloud_boot_def config_default_def)
  from net_demo_update [OF this, of "\<lambda>c. c\<lparr>nc_vlan_settings := v\<rparr>"] show ?thesis
    by (auto simp: set_vlan_settings_def assms a(1) net_step_defs)
qed

lemma dhcp_vlan_valid: "validate_vlan_settings dhcp_vlan = Inr ()"
  by (simp add: validate_vlan_settings_def dhcp_vlan_def validate_vlan_endpoint_def dhcp_endpoint_def)

theorem vlan_settings_in_step_witness:
  "\<exists>r s'. set_vlan_settings net_demo_codec net_demo_io dhcp_vlan net_demo = (Inr r, s') \<and>
     nt_applied s' = nt_conf s' \<and> read_vlan_settings_from_conf net_demo_io s' = dhcp_vlan"
proof -
  obtain r s' where s: "set_vlan_settings net_demo_codec net_demo_io dhcp_vlan net_demo = (Inr r, s')"
    using net_demo_set [OF dhcp_vlan_valid] by blast
  show ?thesis using vlan_settings_in_step [OF s dhcp_vlan_storable, of net_demo_io] s by (simp add: net_demo_io_def)
qed

theorem refused_vlan_adopted_witness:
  "\<exists>s'. set_vlan_settings net_demo_codec (net_demo_io\<lparr>ni_refresh := Some ''timeout''\<rparr>) dhcp_vlan net_demo
       = (Inl ''Failed to apply VLAN settings'', s') \<and> net_config s' = network_config_default \<and>
     nc_vlan_settings (net_config (snd (get_vlan_settings_response net_demo_codec net_demo_io s'))) = dhcp_vlan"
  using refused_vlan_adopted [OF dhcp_vlan_valid, of "net_demo_io\<lparr>ni_refresh := Some ''timeout''\<rparr>" "''timeout''" net_demo net_demo_io net_demo_codec]
    dhcp_vlan_storable by (auto simp: net_demo_io_def net_demo_config)

theorem vlan_static_ipv6_lost_witness:
  "\<exists>v r s' v' red s2. set_vlan_settings net_demo_codec net_demo_io v net_demo = (Inr r, s') \<and>
     get_vlan_settings_response net_demo_codec net_demo_io s' = (Inr (v', red), s2) \<and> v' \<noteq> v"
proof -
  let ?p = "(dhcp_endpoint 7)\<lparr>ve_static_ipv6 := Some demo_static\<rparr>"
  let ?v = "dhcp_vlan\<lparr>vs_primary := Some ?p\<rparr>"
  have "validate_vlan_settings ?v = Inr ()"
    by (simp add: validate_vlan_settings_def dhcp_vlan_def validate_vlan_endpoint_def dhcp_endpoint_def)
  then obtain r s' x where s: "set_vlan_settings net_demo_codec net_demo_io ?v net_demo = (Inr r, s')"
    and x: "cm_config (cw_store (snd (nt_cloud s'))) = (cm_config (cw_store (snd (nt_cloud net_demo))))\<lparr>c_rest := x\<rparr>"
    using net_demo_set by blast
  have "\<exists>s2. sync_encrypted_vlan_from_conf_if_needed net_demo_codec net_demo_io s' = (Inr (), s2)"
    using net_demo_update [OF x] by (auto simp: sync_encrypted_vlan_from_conf_if_needed_def split: sum.split)
  then obtain v' red s2 where g: "get_vlan_settings_response net_demo_codec net_demo_io s' = (Inr (v', red), s2)"
    by (auto simp: get_vlan_settings_response_def net_then_def Let_def)
  have "v' \<noteq> ?v \<and> pred_option (\<lambda>ep. ve_static_ipv6 ep = None) (vs_primary v')"
    using vlan_static_ipv6_lost [OF s, of ?p, OF _ _ _ g] by (simp add: net_demo_io_def)
  then show ?thesis using s g by blast
qed

theorem network_change_reopens_gate_witness:
  "gate_open (snd (set_network_settings net_demo_codec (net_demo_io\<lparr>ni_refresh := Some ''timeout''\<rparr>)
     (network_config_default\<lparr>nc_hostname := Some ''kvm''\<rparr>) net_demo))"
  using network_change_reopens_gate [of net_demo] by (simp add: net_demo_def cloud_boot_def cloud_manager_new_def gate_new_def)

lemma demo_legacy: "parse_static_ip_conf ''ip=10.0.0.2'' = Some \<lparr>sip_ip_address = ''10.0.0.2'', sip_subnet_mask = ''255.255.255.0'',
    sip_gateway = '''', sip_dns_servers = []\<rparr>"
proof -
  have l: "str_lines ''ip=10.0.0.2'' = [''ip=10.0.0.2'']" by (simp add: str_lines_def NL_def)
  have t: "trim ''ip=10.0.0.2'' = ''ip=10.0.0.2''" "trim ''ip'' = ''ip''" "trim ''10.0.0.2'' = ''10.0.0.2''"
    by (rule trim_keeps; simp add: is_ascii_space_def)+
  show ?thesis
    by (simp add: parse_static_ip_conf_def l legacy_line_def t Let_def starts_with_def str_split_once_def to_ascii_lowercase_def
        ascii_lower_def trim_matches_def or_else_def)
qed

lemma demo_migrates:
  "\<exists>s'. maybe_migrate_legacy_network_config net_demo_io \<lparr>lg_read = None, lg_archive = None\<rparr> (Some ''ip=10.0.0.2'', net_demo) = (Inr (), None, s')"
  by (simp add: maybe_migrate_legacy_network_config_def net_demo_def net_demo_io_def demo_legacy net_step_defs Let_def)

theorem migration_keeps_address_witness:
  "\<exists>s' c. maybe_migrate_legacy_network_config net_demo_io \<lparr>lg_read = None, lg_archive = None\<rparr> (Some ''ip=10.0.0.2'', net_demo)
       = (Inr (), None, s') \<and> nt_conf s' = Some (network_config_to_ini c ''committed'') \<and> nt_applied s' = nt_conf s' \<and> nc_ipv4_mode c = Static4"
  using demo_migrates migration_keeps_address [of net_demo_io "\<lparr>lg_read = None, lg_archive = None\<rparr>" "''ip=10.0.0.2''" net_demo "Inr ()"]
  by blast

theorem migration_settles_witness:
  "\<exists>s'. maybe_migrate_legacy_network_config net_demo_io \<lparr>lg_read = None, lg_archive = None\<rparr> (None, net_demo) = (Inr (), None, s') \<and>
     maybe_migrate_legacy_network_config net_demo_io \<lparr>lg_read = None, lg_archive = None\<rparr> (None, s') = (Inr (), None, s')"
proof -
  let ?t = "network_config_to_ini network_config_default ''committed''"
  obtain s' where m: "maybe_migrate_legacy_network_config net_demo_io \<lparr>lg_read = None, lg_archive = None\<rparr> (None, net_demo) = (Inr (), None, s')"
    and t: "nt_conf s' = Some ?t"
    using net_demo_config by (simp add: maybe_migrate_legacy_network_config_def net_demo_def net_demo_io_def net_step_defs Let_def)
  have n: "nat_to_dec 200 = ''200''" "nat_to_dec 0 = ''0''" by code_simp+
  have "\<not> str_contains ?t ''provisional-template''"
    by (simp add: network_config_to_ini_def network_blocks_def INI_HEADER_def ini_text_def ini_block_def network_config_default_def
        vlan_settings_default_def ipv4_mode_str_def ipv6_mode_str_def or_else_def NL_def static_ipv4_fields_def static_ipv6_fields_def
        vlan_endpoint_fields_def n)
  with migration_settles [OF m, of net_demo_io "\<lparr>lg_read = None, lg_archive = None\<rparr>"] t m show ?thesis by (simp add: net_demo_io_def)
qed

end
