(* ===== verification/Net_State.thy ===== *)
theory Net_State
  imports Net_Settings
begin

text \<open>
  What the board tells about its interfaces: addresses and their kind, the DHCP lease put together
  from the client's file and from the running system (\<^verbatim>\<open>network/mod.rs\<close>), the reports on VLANs
  (\<^verbatim>\<open>network/vlan.rs\<close>) and the names under which the board is announced (\<^verbatim>\<open>network/fqdn.rs\<close>).
  \<open>net_probe\<close> is what the system answers: addresses of interfaces, attributes from the kernel, files
  and the output of \<^verbatim>\<open>ip\<close>; \<open>np_envy\<close> fills a lease from assignments (the \<^verbatim>\<open>envy\<close> crate), \<open>np_plus\<close> adds
  seconds to a point of time and is \<open>None\<close> where the \<^verbatim>\<open>chrono\<close> crate panics. Points of time count
  nanoseconds.
\<close>

section \<open>IPv6 addresses\<close>

datatype ipv6_address_type = GlobalAddr | UniqueLocal | LinkLocal | Loopback | Unspecified | Multicast | UnknownAddr

definition ipv6_octets :: "nat list \<Rightarrow> u8 list" where
  "ipv6_octets gs = concat (map (\<lambda>g. [word_of_nat (g div 256), word_of_nat (g mod 256)]) gs)"

definition is_stable_ula_address :: "int \<Rightarrow> string \<Rightarrow> u8 option \<Rightarrow> int option \<Rightarrow> bool" where
  "is_stable_ula_address now ip_str ifa_flags valid_lifetime =
     (let by_flags =
        (case ifa_flags of
           Some f \<Rightarrow> if f AND 0x01 \<noteq> 0 then Some False else if f AND 0x80 \<noteq> 0 then Some True else if f = 0 then Some True else None
         | None \<Rightarrow> None);
        long_lived = (case valid_lifetime of Some v \<Rightarrow> v > now \<and> (v - now) div 1000000000 > 604800 | None \<Rightarrow> False);
        by_format =
          (case ipv6_parse ip_str of
             Some gs \<Rightarrow> (let os = ipv6_octets gs; interface_id = foldl (\<lambda>a b. a * 256 + unat b) 0 (drop 8 os)
                        in interface_id < 0x10000 \<or> (os ! 11 = 0xff \<and> os ! 12 = 0xfe))
           | None \<Rightarrow> False)
      in case by_flags of
           Some b \<Rightarrow> b
         | None \<Rightarrow> if long_lived then True else if by_format then True else ifa_flags = None)"

definition classify_ipv6_address :: "string \<Rightarrow> ipv6_address_type" where
  "classify_ipv6_address ip_str =
     (case ipv6_parse ip_str of
        None \<Rightarrow> UnknownAddr
      | Some gs \<Rightarrow>
          let first_byte = ipv6_octets gs ! 0; second_byte = ipv6_octets gs ! 1 in
          if gs = replicate 8 0 then Unspecified
          else if gs = replicate 7 0 @ [1] then Loopback
          else if first_byte = 0xff then Multicast
          else if first_byte = 0xfe \<and> second_byte AND 0xc0 = 0x80 then LinkLocal
          else if first_byte AND 0xfe = 0xfc then UniqueLocal
          else if first_byte AND 0xe0 = 0x20 then GlobalAddr
          else UnknownAddr)"

datatype ipv6_address_state = Preferred | Deprecated | Invalid

definition ipv6_address_state :: "int \<Rightarrow> int option \<Rightarrow> int option \<Rightarrow> ipv6_address_state option" where
  "ipv6_address_state now valid_lifetime preferred_lifetime =
     (case (valid_lifetime, preferred_lifetime) of
        (Some valid, Some pref) \<Rightarrow> Some (if now > valid then Invalid else if now > pref then Deprecated else Preferred)
      | _ \<Rightarrow> None)"

record rpc_ipv6_address =
  r6_address :: string
  r6_valid_lifetime :: "int option"
  r6_preferred_lifetime :: "int option"
  r6_scope :: u8
  r6_address_type :: "ipv6_address_type option"
  r6_flags :: "u8 option"
  r6_is_stable :: "bool option"
  r6_state :: "ipv6_address_state option"

section \<open>Leases\<close>

record dhcp_lease =
  dl_ip :: "string option"
  dl_netmask :: "string option"
  dl_broadcast :: "string option"
  dl_ttl :: "int option"
  dl_mtu :: "int option"
  dl_hostname :: "string option"
  dl_domain :: "string option"
  dl_bootp_next_server :: "string option"
  dl_bootp_server_name :: "string option"
  dl_bootp_file :: "string option"
  dl_timezone :: "string option"
  dl_routers :: "string list option"
  dl_dns_servers :: "string list option"
  dl_ntp_servers :: "string list option"
  dl_lpr_servers :: "string list option"
  dl_time_servers :: "string list option"
  dl_name_servers :: "string list option"
  dl_log_servers :: "string list option"
  dl_cookie_servers :: "string list option"
  dl_wins_servers :: "string list option"
  dl_swap_server :: "string option"
  dl_bootsize :: "int option"
  dl_root_path :: "string option"
  dl_lease :: "u64 option"
  dl_dhcp_type :: "string option"
  dl_server_id :: "string option"
  dl_reason :: "string option"
  dl_tftp :: "string option"
  dl_bootfile :: "string option"
  dl_uptime :: "u64 option"
  dl_lease_expiry :: "int option"
  dl_is_empty :: "(string, bool) hmap option"
  dl_ipv4_addresses :: "string list option"

datatype if_addr = V4 string | V6 string

record net_probe =
  np_if_addrs :: "(string \<times> if_addr) list option"
  np_rtnetlink :: "string \<Rightarrow> (string, u8 option \<times> int option \<times> int option \<times> u8 option) hmap option"
  np_mac :: "string \<Rightarrow> string option"
  np_file :: "string \<Rightarrow> string option"
  np_ip_addr :: "string \<Rightarrow> string option"
  np_route_dev :: "string \<Rightarrow> string option"
  np_route_get :: "string \<Rightarrow> string \<Rightarrow> string option"
  np_route :: "string option"
  np_uptime :: "int option"
  np_now :: int
  np_envy :: "(string \<times> string) list \<Rightarrow> dhcp_lease option"
  np_plus :: "int \<Rightarrow> int \<Rightarrow> int option"

text \<open>
  A line of the DHCP client's file: an optional \<^verbatim>\<open>export\<close>, a name, an equals sign and the value; the
  regular expression of the code can match such a line in one way only.
\<close>

definition ident_char :: "char \<Rightarrow> bool" where
  "ident_char c = (let n = (of_char c :: nat) in (65 \<le> n \<and> n \<le> 90) \<or> (97 \<le> n \<and> n \<le> 122) \<or> (48 \<le> n \<and> n \<le> 57) \<or> n = 95)"

definition match_line :: "string \<Rightarrow> (string \<times> string) option" where
  "match_line line =
     (let body = (if starts_with line ''export'' \<and> drop 6 line \<noteq> [] \<and> is_ascii_space (hd (drop 6 line)) then trim_start (drop 6 line) else line);
          key = takeWhile ident_char body
      in if key = [] \<or> is_digit (hd key) then None
         else case drop (length key) body of c # v \<Rightarrow> if c = CHR ''='' then Some (key, v) else None | [] \<Rightarrow> None)"

definition parse_udhcpc_info :: "string \<Rightarrow> (string \<times> string) list" where
  "parse_udhcpc_info content =
     List.map_filter (\<lambda>raw.
       let line = trim raw in
       if line = [] \<or> starts_with line ''#'' then None
       else map_option (\<lambda>(key, v).
         let raw_value = trim v;
             quoted = (length raw_value \<ge> 2 \<and> (\<exists>q \<in> {CHR 0x22, CHR 0x27}. hd raw_value = q \<and> last raw_value = q))
         in (to_ascii_lowercase key, if quoted then butlast (tl raw_value) else raw_value)) (match_line line))
     (str_lines content)"

definition cidr_mask :: "nat \<Rightarrow> u32" where
  "cidr_mask pfx = (let p = min pfx 32 in if p = 0 then 0 else push_bit (32 - p) (NOT 0))"

definition cidr_to_netmask :: "nat \<Rightarrow> string" where
  "cidr_to_netmask pfx = ipv4_to_string (cidr_mask pfx)"

definition ipv4_broadcast :: "string \<Rightarrow> nat \<Rightarrow> string option" where
  "ipv4_broadcast ip pfx = map_option (\<lambda>a. ipv4_to_string (a OR NOT (cidr_mask pfx))) (ipv4_parse ip)"

definition valid_or_none :: "string option \<Rightarrow> string option" where
  "valid_or_none v = (case v of Some a \<Rightarrow> if check_valid_ipv4 a then Some a else None | None \<Rightarrow> None)"

definition sanitize_dhcp_lease_ipv4_fields :: "dhcp_lease \<Rightarrow> dhcp_lease" where
  "sanitize_dhcp_lease_ipv4_fields l = l\<lparr>
     dl_routers := (case dl_routers l of
        Some rs \<Rightarrow> (let rs' = filter check_valid_ipv4 rs in if rs' = [] then None else Some rs') | None \<Rightarrow> None),
     dl_server_id := valid_or_none (dl_server_id l),
     dl_bootp_next_server := valid_or_none (dl_bootp_next_server l)\<rparr>"

definition first_of :: "'a list option \<Rightarrow> 'a option" where
  "first_of xs = (case xs of Some (x # _) \<Rightarrow> Some x | _ \<Rightarrow> None)"

definition merge_option :: "'a option \<Rightarrow> 'a option \<Rightarrow> 'a option" where
  "merge_option dst src = (if dst = None then src else dst)"

definition merge_option_vec :: "string list option \<Rightarrow> string list option \<Rightarrow> string list option" where
  "merge_option_vec dst src = (if dst = None \<or> dst = Some [] then src else dst)"

definition fill_dhcp_lease_gateway_fallbacks :: "dhcp_lease \<Rightarrow> dhcp_lease" where
  "fill_dhcp_lease_gateway_fallbacks l =
     (let l1 = sanitize_dhcp_lease_ipv4_fields l;
          l2 = l1\<lparr>dl_server_id := merge_option (dl_server_id l1) (first_of (dl_routers l1))\<rparr>
      in l2\<lparr>dl_bootp_next_server := merge_option (dl_bootp_next_server l2) (dl_server_id l2)\<rparr>)"

definition no_string :: "string option \<Rightarrow> bool" where
  "no_string x = (x = None \<or> x = Some [])"

definition no_vec :: "string list option \<Rightarrow> bool" where
  "no_vec x = (x = None \<or> x = Some [])"

definition build_is_empty_map :: "dhcp_lease \<Rightarrow> (string, bool) hmap" where
  "build_is_empty_map l = fold (\<lambda>(k, b). hm_insert k b)
     [(''ip'', no_string (dl_ip l)), (''subnet'', no_string (dl_netmask l)), (''broadcast'', no_string (dl_broadcast l)),
      (''ttl'', dl_ttl l = None), (''mtu'', dl_mtu l = None), (''hostname'', no_string (dl_hostname l)),
      (''domain'', no_string (dl_domain l)), (''siaddr'', no_string (dl_bootp_next_server l)),
      (''sname'', no_string (dl_bootp_server_name l)), (''boot_file'', no_string (dl_bootp_file l)),
      (''timezone'', no_string (dl_timezone l)), (''router'', no_vec (dl_routers l)), (''dns'', no_vec (dl_dns_servers l)),
      (''ntpsrv'', no_vec (dl_ntp_servers l)), (''lprsvr'', no_vec (dl_lpr_servers l)), (''timesvr'', no_vec (dl_time_servers l)),
      (''namesvr'', no_vec (dl_name_servers l)), (''logsvr'', no_vec (dl_log_servers l)), (''cookiesvr'', no_vec (dl_cookie_servers l)),
      (''wins'', no_vec (dl_wins_servers l)), (''swapsvr'', no_string (dl_swap_server l)), (''bootsize'', dl_bootsize l = None),
      (''rootpath'', no_string (dl_root_path l)), (''lease'', dl_lease l = None), (''dhcptype'', no_string (dl_dhcp_type l)),
      (''serverid'', no_string (dl_server_id l)), (''message'', no_string (dl_reason l)), (''tftp'', no_string (dl_tftp l)),
      (''bootfile'', no_string (dl_bootfile l)), (''uptime'', dl_uptime l = None), (''lease_expiry'', dl_lease_expiry l = None)] []"

definition with_is_empty :: "dhcp_lease \<Rightarrow> dhcp_lease" where
  "with_is_empty l = l\<lparr>dl_is_empty := Some (build_is_empty_map l)\<rparr>"

definition has_any :: "dhcp_lease \<Rightarrow> bool" where
  "has_any l = (dl_ip l \<noteq> None \<or> dl_netmask l \<noteq> None \<or> dl_broadcast l \<noteq> None \<or> dl_ttl l \<noteq> None \<or> dl_mtu l \<noteq> None \<or>
     dl_hostname l \<noteq> None \<or> dl_domain l \<noteq> None \<or> dl_bootp_next_server l \<noteq> None \<or> dl_bootp_server_name l \<noteq> None \<or>
     dl_bootp_file l \<noteq> None \<or> dl_timezone l \<noteq> None \<or>
     \<not> no_vec (dl_routers l) \<or> \<not> no_vec (dl_dns_servers l) \<or> \<not> no_vec (dl_ntp_servers l) \<or> \<not> no_vec (dl_lpr_servers l) \<or>
     \<not> no_vec (dl_time_servers l) \<or> \<not> no_vec (dl_name_servers l) \<or> \<not> no_vec (dl_log_servers l) \<or> \<not> no_vec (dl_cookie_servers l) \<or>
     \<not> no_vec (dl_wins_servers l) \<or> dl_swap_server l \<noteq> None \<or> dl_bootsize l \<noteq> None \<or> dl_root_path l \<noteq> None \<or> dl_lease l \<noteq> None \<or>
     dl_dhcp_type l \<noteq> None \<or> dl_server_id l \<noteq> None \<or> dl_reason l \<noteq> None \<or> dl_tftp l \<noteq> None \<or> dl_bootfile l \<noteq> None \<or> dl_uptime l \<noteq> None)"

text \<open>
  When the lease runs out: the client noted how long the system was up when it got the lease. The
  outer option is \<open>None\<close> for a panic of the time arithmetic.
\<close>

definition lease_expiry :: "net_probe \<Rightarrow> u64 \<Rightarrow> u64 option \<Rightarrow> int option" where
  "lease_expiry pr secs obtained =
     (case (obtained, np_uptime pr) of
        (Some up, Some current) \<Rightarrow>
          (let elapsed = sint (word_of_int current - up)
           in case np_plus pr (np_now pr) (- max elapsed 0) of
                None \<Rightarrow> None
              | Some t \<Rightarrow> np_plus pr t (sint secs))
      | _ \<Rightarrow> np_plus pr (np_now pr) (sint secs))"

definition parse_dhcp_lease_from_info :: "net_probe \<Rightarrow> string \<Rightarrow> dhcp_lease option option" where
  "parse_dhcp_lease_from_info pr content =
     (let pairs = parse_udhcpc_info content in
      if pairs = [] then Some None
      else case np_envy pr pairs of
        None \<Rightarrow> Some None
      | Some l \<Rightarrow>
          let l1 = l\<lparr>dl_netmask := map_option (\<lambda>m. case parse_u8 m of Some p \<Rightarrow> cidr_to_netmask p | None \<Rightarrow> m) (dl_netmask l)\<rparr>;
              l2 = sanitize_dhcp_lease_ipv4_fields l1
          in if \<not> has_any l2 then Some None
             else case dl_lease l2 of
                    None \<Rightarrow> Some (Some (with_is_empty l2))
                  | Some secs \<Rightarrow> map_option (\<lambda>t. Some (with_is_empty (l2\<lparr>dl_lease_expiry := Some t\<rparr>))) (lease_expiry pr secs (dl_uptime l2)))"

definition read_udhcpc_info_file :: "net_probe \<Rightarrow> string \<Rightarrow> string option" where
  "read_udhcpc_info_file pr iface =
     (let try_path = (\<lambda>path. case np_file pr path of Some c \<Rightarrow> if trim c \<noteq> [] then Some c else None | None \<Rightarrow> None)
      in merge_option (try_path (''/run/udhcpc.'' @ iface @ ''.info'')) (try_path (''/var/run/udhcpc.'' @ iface @ ''.info'')))"


text \<open>\<^verbatim>\<open>/etc/resolv.conf\<close>, and the answers of \<^verbatim>\<open>ip\<close>.\<close>

definition strip_prefix :: "string \<Rightarrow> string \<Rightarrow> string option" where
  "strip_prefix s p = (if starts_with s p then Some (drop (length p) s) else None)"

fun domain_of_lines :: "string list \<Rightarrow> string option" where
  "domain_of_lines [] = None"
| "domain_of_lines (raw # rest) =
     (case strip_prefix (trim raw) ''search '' of
        Some r \<Rightarrow> (case split_whitespace r of [] \<Rightarrow> None | w # _ \<Rightarrow> Some w)
      | None \<Rightarrow>
          (case strip_prefix (trim raw) ''domain '' of
             Some r \<Rightarrow> (case split_whitespace r of [] \<Rightarrow> None | w # _ \<Rightarrow> Some w)
           | None \<Rightarrow> domain_of_lines rest))"

definition read_domain_from_resolv_conf :: "net_probe \<Rightarrow> string option" where
  "read_domain_from_resolv_conf pr =
     (case np_file pr ''/etc/resolv.conf'' of None \<Rightarrow> None | Some c \<Rightarrow> domain_of_lines (str_lines c))"

definition read_dns_servers_from_resolv_conf :: "net_probe \<Rightarrow> string list option" where
  "read_dns_servers_from_resolv_conf pr =
     (case np_file pr ''/etc/resolv.conf'' of
        None \<Rightarrow> None
      | Some c \<Rightarrow>
          let servers = filter (\<lambda>s. s \<noteq> []) (List.map_filter (\<lambda>l. map_option trim (strip_prefix (trim l) ''nameserver '')) (str_lines c))
          in if servers = [] then None else Some servers)"

definition read_ipv4_dns_servers_from_resolv_conf :: "net_probe \<Rightarrow> string list option" where
  "read_ipv4_dns_servers_from_resolv_conf pr =
     (case read_dns_servers_from_resolv_conf pr of
        None \<Rightarrow> None
      | Some all \<Rightarrow> (let servers = filter (\<lambda>s. ipv4_parse s \<noteq> None) all in if servers = [] then None else Some servers))"

definition read_system_hostname :: "net_probe \<Rightarrow> string option" where
  "read_system_hostname pr =
     (case np_file pr ''/etc/hostname'' of None \<Rightarrow> None | Some c \<Rightarrow> if trim c = [] then None else Some (trim c))"

definition inet_entry :: "string \<Rightarrow> (string \<times> nat) option" where
  "inet_entry line =
     (case dropWhile (\<lambda>p. p \<noteq> ''inet'') (split_whitespace line) of
        _ # cidr # _ \<Rightarrow>
          (case str_split_once (CHR ''/'') cidr of
             None \<Rightarrow> None
           | Some (ip, pfx) \<Rightarrow> map_option (\<lambda>n. (ip, n)) (parse_u8 pfx))
      | _ \<Rightarrow> None)"

definition get_ipv4_entries_via_ip :: "net_probe \<Rightarrow> string \<Rightarrow> (string \<times> nat) list" where
  "get_ipv4_entries_via_ip pr iface =
     (case np_ip_addr pr iface of None \<Rightarrow> [] | Some out \<Rightarrow> List.map_filter inet_entry (str_lines out))"

definition parse_via_gateway :: "string \<Rightarrow> string option" where
  "parse_via_gateway line =
     (case dropWhile (\<lambda>p. p \<noteq> ''via'') (split_whitespace line) of
        _ # gw # _ \<Rightarrow> if check_valid_ipv4 gw then Some gw else None
      | _ \<Rightarrow> None)"

definition first_gateway :: "string option \<Rightarrow> string option" where
  "first_gateway out =
     (case out of
        None \<Rightarrow> None
      | Some text \<Rightarrow> (case List.map_filter parse_via_gateway (str_lines text) of [] \<Rightarrow> None | gw # _ \<Rightarrow> Some gw))"

definition get_gateway_for_interface :: "net_probe \<Rightarrow> string \<Rightarrow> string \<Rightarrow> string option" where
  "get_gateway_for_interface pr iface src_ip =
     merge_option (first_gateway (np_route_dev pr iface))
       (merge_option (case np_route_get pr src_ip iface of None \<Rightarrow> None | Some line \<Rightarrow> parse_via_gateway line)
         (first_gateway (np_route pr)))"

definition build_dhcp_lease_from_runtime :: "net_probe \<Rightarrow> string \<Rightarrow> dhcp_lease option" where
  "build_dhcp_lease_from_runtime pr iface =
     (case get_ipv4_entries_via_ip pr iface of
        [] \<Rightarrow> None
      | (ip, pfx) # others \<Rightarrow>
          let gateway = get_gateway_for_interface pr iface ip
          in Some (with_is_empty \<lparr>dl_ip = Some ip, dl_netmask = Some (cidr_to_netmask pfx), dl_broadcast = ipv4_broadcast ip pfx,
            dl_ttl = None, dl_mtu = None, dl_hostname = read_system_hostname pr, dl_domain = read_domain_from_resolv_conf pr,
            dl_bootp_next_server = gateway, dl_bootp_server_name = None, dl_bootp_file = None, dl_timezone = None,
            dl_routers = map_option (\<lambda>gw. [gw]) gateway, dl_dns_servers = read_ipv4_dns_servers_from_resolv_conf pr,
            dl_ntp_servers = None, dl_lpr_servers = None, dl_time_servers = None, dl_name_servers = None, dl_log_servers = None,
            dl_cookie_servers = None, dl_wins_servers = None, dl_swap_server = None, dl_bootsize = None, dl_root_path = None,
            dl_lease = None, dl_dhcp_type = None, dl_server_id = gateway, dl_reason = None, dl_tftp = None, dl_bootfile = None,
            dl_uptime = None, dl_lease_expiry = None, dl_is_empty = None, dl_ipv4_addresses = Some (map fst ((ip, pfx) # others))\<rparr>))"

definition merge_fields :: "dhcp_lease \<Rightarrow> dhcp_lease \<Rightarrow> dhcp_lease" where
  "merge_fields p f = p\<lparr>
     dl_ip := merge_option (dl_ip p) (dl_ip f), dl_netmask := merge_option (dl_netmask p) (dl_netmask f),
     dl_broadcast := merge_option (dl_broadcast p) (dl_broadcast f), dl_ttl := merge_option (dl_ttl p) (dl_ttl f),
     dl_mtu := merge_option (dl_mtu p) (dl_mtu f), dl_hostname := merge_option (dl_hostname p) (dl_hostname f),
     dl_domain := merge_option (dl_domain p) (dl_domain f),
     dl_bootp_next_server := merge_option (dl_bootp_next_server p) (dl_bootp_next_server f),
     dl_bootp_server_name := merge_option (dl_bootp_server_name p) (dl_bootp_server_name f),
     dl_bootp_file := merge_option (dl_bootp_file p) (dl_bootp_file f), dl_timezone := merge_option (dl_timezone p) (dl_timezone f),
     dl_routers := merge_option_vec (dl_routers p) (dl_routers f), dl_dns_servers := merge_option_vec (dl_dns_servers p) (dl_dns_servers f),
     dl_ntp_servers := merge_option_vec (dl_ntp_servers p) (dl_ntp_servers f),
     dl_lpr_servers := merge_option_vec (dl_lpr_servers p) (dl_lpr_servers f),
     dl_time_servers := merge_option_vec (dl_time_servers p) (dl_time_servers f),
     dl_name_servers := merge_option_vec (dl_name_servers p) (dl_name_servers f),
     dl_log_servers := merge_option_vec (dl_log_servers p) (dl_log_servers f),
     dl_cookie_servers := merge_option_vec (dl_cookie_servers p) (dl_cookie_servers f),
     dl_wins_servers := merge_option_vec (dl_wins_servers p) (dl_wins_servers f),
     dl_swap_server := merge_option (dl_swap_server p) (dl_swap_server f), dl_bootsize := merge_option (dl_bootsize p) (dl_bootsize f),
     dl_root_path := merge_option (dl_root_path p) (dl_root_path f), dl_lease := merge_option (dl_lease p) (dl_lease f),
     dl_dhcp_type := merge_option (dl_dhcp_type p) (dl_dhcp_type f), dl_server_id := merge_option (dl_server_id p) (dl_server_id f),
     dl_reason := merge_option (dl_reason p) (dl_reason f), dl_tftp := merge_option (dl_tftp p) (dl_tftp f),
     dl_bootfile := merge_option (dl_bootfile p) (dl_bootfile f), dl_uptime := merge_option (dl_uptime p) (dl_uptime f),
     dl_lease_expiry := merge_option (dl_lease_expiry p) (dl_lease_expiry f),
     dl_ipv4_addresses := merge_option_vec (dl_ipv4_addresses p) (dl_ipv4_addresses f)\<rparr>"

definition merge_dhcp_leases :: "dhcp_lease option \<Rightarrow> dhcp_lease option \<Rightarrow> dhcp_lease option" where
  "merge_dhcp_leases primary fallback =
     (case (primary, fallback) of
        (None, None) \<Rightarrow> None
      | (None, Some f) \<Rightarrow> Some (with_is_empty (fill_dhcp_lease_gateway_fallbacks f))
      | (Some p, None) \<Rightarrow> Some (with_is_empty (fill_dhcp_lease_gateway_fallbacks p))
      | (Some p, Some f) \<Rightarrow>
          let m = merge_fields p f;
              m1 = m\<lparr>dl_server_id := merge_option (dl_server_id m) (merge_option (first_of (dl_routers m)) (dl_server_id f))\<rparr>;
              m2 = m1\<lparr>dl_bootp_next_server := merge_option (dl_bootp_next_server m1) (merge_option (dl_server_id m1) (dl_bootp_next_server f))\<rparr>
          in Some (with_is_empty (fill_dhcp_lease_gateway_fallbacks m2)))"

definition get_dhcp_lease :: "net_probe \<Rightarrow> string \<Rightarrow> dhcp_lease option option" where
  "get_dhcp_lease pr iface =
     (case (case read_udhcpc_info_file pr iface of Some c \<Rightarrow> parse_dhcp_lease_from_info pr c | None \<Rightarrow> Some None) of
        None \<Rightarrow> None
      | Some from_file \<Rightarrow> Some (merge_dhcp_leases from_file (build_dhcp_lease_from_runtime pr iface)))"

section \<open>The state of an interface\<close>

definition v4_of :: "net_probe \<Rightarrow> string \<Rightarrow> string list" where
  "v4_of pr iface =
     List.map_filter (\<lambda>(n, a). if n = iface then (case a of V4 s \<Rightarrow> Some s | V6 _ \<Rightarrow> None) else None)
       (case np_if_addrs pr of Some l \<Rightarrow> l | None \<Rightarrow> [])"

definition v6_of :: "net_probe \<Rightarrow> string \<Rightarrow> string list" where
  "v6_of pr iface =
     List.map_filter (\<lambda>(n, a). if n = iface then (case a of V6 s \<Rightarrow> Some s | V4 _ \<Rightarrow> None) else None)
       (case np_if_addrs pr of Some l \<Rightarrow> l | None \<Rightarrow> [])"

definition get_ipv4_addresses :: "net_probe \<Rightarrow> string \<Rightarrow> string list" where
  "get_ipv4_addresses pr iface =
     (let addrs = v4_of pr iface in if addrs = [] then map fst (get_ipv4_entries_via_ip pr iface) else addrs)"

definition get_ipv6_address :: "net_probe \<Rightarrow> string \<Rightarrow> string option" where
  "get_ipv6_address pr iface = find (\<lambda>s. \<not> starts_with s ''fe80'') (v6_of pr iface)"

definition get_ipv6_link_local_address :: "net_probe \<Rightarrow> string \<Rightarrow> string option" where
  "get_ipv6_link_local_address pr iface = find (\<lambda>s. starts_with s ''fe80'') (v6_of pr iface)"

definition get_ipv6_addresses :: "net_probe \<Rightarrow> string \<Rightarrow> rpc_ipv6_address list" where
  "get_ipv6_addresses pr iface =
     (let enrich = (case np_rtnetlink pr iface of Some m \<Rightarrow> m | None \<Rightarrow> [])
      in map (\<lambda>s. case (case hm_get enrich s of Some x \<Rightarrow> x | None \<Rightarrow> (None, None, None, None)) of (scope_opt, valid, preferred, fl) \<Rightarrow>
           let t = classify_ipv6_address s
           in \<lparr>r6_address = s, r6_valid_lifetime = valid, r6_preferred_lifetime = preferred,
               r6_scope = or_else scope_opt (if starts_with s ''fe80'' then 253 else 0), r6_address_type = Some t, r6_flags = fl,
               r6_is_stable = (if t = UniqueLocal then Some (is_stable_ula_address (np_now pr) s fl valid) else None),
               r6_state = ipv6_address_state (np_now pr) valid preferred\<rparr>) (v6_of pr iface))"

definition get_ipv6_addresses_by_type :: "net_probe \<Rightarrow> ipv6_address_type \<Rightarrow> string \<Rightarrow> string list" where
  "get_ipv6_addresses_by_type pr t iface = map r6_address (filter (\<lambda>a. r6_address_type a = Some t) (get_ipv6_addresses pr iface))"

definition get_global_ipv6_address :: "net_probe \<Rightarrow> string \<Rightarrow> string option" where
  "get_global_ipv6_address pr iface =
     map_option r6_address (find (\<lambda>a. r6_address_type a = Some GlobalAddr) (get_ipv6_addresses pr iface))"

definition get_unique_local_ipv6_address :: "net_probe \<Rightarrow> string \<Rightarrow> string option" where
  "get_unique_local_ipv6_address pr iface =
     map_option r6_address (find (\<lambda>a. r6_address_type a = Some UniqueLocal) (get_ipv6_addresses pr iface))"

definition is_stable_ula :: "rpc_ipv6_address \<Rightarrow> bool" where
  "is_stable_ula a = (r6_address_type a = Some UniqueLocal \<and> r6_is_stable a = Some True)"

definition get_stable_unique_local_ipv6_address :: "net_probe \<Rightarrow> string \<Rightarrow> string option" where
  "get_stable_unique_local_ipv6_address pr iface = map_option r6_address (find is_stable_ula (get_ipv6_addresses pr iface))"

definition get_stable_unique_local_ipv6_addresses :: "net_probe \<Rightarrow> string \<Rightarrow> string list" where
  "get_stable_unique_local_ipv6_addresses pr iface = map r6_address (filter is_stable_ula (get_ipv6_addresses pr iface))"

record rpc_network_state =
  rs_interface_name :: string
  rs_mac_address :: string
  rs_ipv4 :: "string option"
  rs_ipv6 :: "string option"
  rs_ipv6_link_local :: "string option"
  rs_ipv4_addresses :: "string list option"
  rs_ipv6_addresses :: "rpc_ipv6_address list option"
  rs_dhcp_lease :: "dhcp_lease option"

definition some_list :: "'a list \<Rightarrow> 'a list option" where
  "some_list xs = (if xs = [] then None else Some xs)"

definition rpc_get_network_state :: "net_probe \<Rightarrow> string \<Rightarrow> rpc_network_state option" where
  "rpc_get_network_state pr iface =
     map_option (\<lambda>l. \<lparr>rs_interface_name = iface, rs_mac_address = or_else (np_mac pr iface) '''',
       rs_ipv4 = first_of (Some (get_ipv4_addresses pr iface)), rs_ipv6 = get_ipv6_address pr iface,
       rs_ipv6_link_local = get_ipv6_link_local_address pr iface, rs_ipv4_addresses = some_list (get_ipv4_addresses pr iface),
       rs_ipv6_addresses = some_list (get_ipv6_addresses pr iface), rs_dhcp_lease = l\<rparr>) (get_dhcp_lease pr iface)"


section \<open>Reports on VLANs\<close>

record vlan_config_report =
  vc_vlan_enabled :: bool
  vc_primary_vlan_id :: "u16 option"
  vc_secondary_vlan_id :: "u16 option"

definition get_effective_vlan_config_report :: "net_io \<Rightarrow> 'q net_state \<Rightarrow> vlan_config_report" where
  "get_effective_vlan_config_report io s =
     (let v = read_vlan_settings_from_conf io s
      in \<lparr>vc_vlan_enabled = vs_enabled v, vc_primary_vlan_id = map_option ve_vlan_id (vs_primary v),
          vc_secondary_vlan_id = map_option ve_vlan_id (vs_secondary v)\<rparr>)"

definition collect_vlan_ipv6_entry :: "net_probe \<Rightarrow> u16 \<Rightarrow> u16 \<times> rpc_ipv6_address list" where
  "collect_vlan_ipv6_entry pr vlan_id = (vlan_id, get_ipv6_addresses pr (vlan_iface_name vlan_id))"

definition get_effective_vlan_ipv6_addresses_report ::
  "net_probe \<Rightarrow> net_io \<Rightarrow> 'q net_state \<Rightarrow> (u16 \<times> rpc_ipv6_address list) list" where
  "get_effective_vlan_ipv6_addresses_report pr io s =
     (let v = read_vlan_settings_from_conf io s in
      if \<not> vs_enabled v then []
      else map (collect_vlan_ipv6_entry pr)
        ((case vs_primary v of Some p \<Rightarrow> [ve_vlan_id p] | None \<Rightarrow> []) @ (case vs_secondary v of Some q \<Rightarrow> [ve_vlan_id q] | None \<Rightarrow> [])))"

record vlan_endpoint_response =
  vp_endpoint :: vlan_endpoint
  vp_interface_name :: "string option"
  vp_ipv4 :: "string option"
  vp_ipv6 :: "string option"
  vp_ipv6_link_local :: "string option"
  vp_ipv4_addresses :: "string list option"
  vp_ipv6_addresses :: "rpc_ipv6_address list option"
  vp_dhcp_lease :: "dhcp_lease option"

text \<open>A panic while the lease is read is \<open>None\<close> here too.\<close>

definition enrich_endpoint :: "net_probe \<Rightarrow> vlan_endpoint \<Rightarrow> vlan_endpoint_response option" where
  "enrich_endpoint pr c =
     (let iface = vlan_iface_name (ve_vlan_id c) in
      case (rpc_get_network_state pr iface, if ve_ipv4_mode c = Dhcp4 then get_dhcp_lease pr iface else Some None) of
        (Some st, Some l) \<Rightarrow>
          Some \<lparr>vp_endpoint = c, vp_interface_name = Some iface, vp_ipv4 = rs_ipv4 st, vp_ipv6 = rs_ipv6 st,
                vp_ipv6_link_local = rs_ipv6_link_local st, vp_ipv4_addresses = rs_ipv4_addresses st,
                vp_ipv6_addresses = rs_ipv6_addresses st, vp_dhcp_lease = l\<rparr>
      | _ \<Rightarrow> None)"

definition enrich_vlan_settings ::
  "net_probe \<Rightarrow> vlan_settings \<Rightarrow> (bool \<times> vlan_endpoint_response option \<times> vlan_endpoint_response option) option" where
  "enrich_vlan_settings pr v =
     (let enrich = (\<lambda>ep. case ep of None \<Rightarrow> Some None | Some c \<Rightarrow> map_option Some (enrich_endpoint pr c))
      in case (enrich (vs_primary v), enrich (vs_secondary v)) of
           (Some p, Some q) \<Rightarrow> Some (vs_enabled v, p, q)
         | _ \<Rightarrow> None)"

definition renew_dhcp_lease :: "net_io \<Rightarrow> string \<Rightarrow> 'q net_state \<Rightarrow> (string, unit) result \<times> 'q net_state" where
  "renew_dhcp_lease io interface_name s =
     (let report = get_effective_vlan_config_report io s;
          iface = (if vc_vlan_enabled report
                   then (case vc_primary_vlan_id report of Some n \<Rightarrow> vlan_iface_name n | None \<Rightarrow> interface_name) else interface_name)
      in case ni_renew io of Some err \<Rightarrow> (Inl err, s) | None \<Rightarrow> (Inr (), call (DhcpRenew iface) s))"

section \<open>Names\<close>

definition dhcp_lease_for_domain_lookup :: "net_probe \<Rightarrow> net_io \<Rightarrow> 'q net_state \<Rightarrow> dhcp_lease option option" where
  "dhcp_lease_for_domain_lookup pr io s =
     (let report = get_effective_vlan_config_report io s
      in case (vc_vlan_enabled report, vc_primary_vlan_id report) of
           (True, Some n) \<Rightarrow> get_dhcp_lease pr (vlan_iface_name n)
         | _ \<Rightarrow> get_dhcp_lease pr ''eth0'')"

definition resolve_domain :: "net_probe \<Rightarrow> net_io \<Rightarrow> 'q net_state \<Rightarrow> string \<Rightarrow> string option" where
  "resolve_domain pr io s domain =
     (let given = trim (if domain = ''dhcp'' then '''' else domain);
          from_lease = (if given = []
                        then map_option (\<lambda>l. case l of Some d \<Rightarrow> or_else (dl_domain d) '''' | None \<Rightarrow> '''') (dhcp_lease_for_domain_lookup pr io s)
                        else Some given)
      in map_option (\<lambda>d. if d = [] then ''local'' else d) from_lease)"

definition trim_end_dots :: "string \<Rightarrow> string" where
  "trim_end_dots s = rev (dropWhile (\<lambda>c. c = CHR ''.'') (rev s))"

definition is_ascii :: "string \<Rightarrow> bool" where
  "is_ascii s = list_all (\<lambda>c. (of_char c :: nat) < 128) s"

definition normalize_hostname_label :: "string \<Rightarrow> (string, string) result" where
  "normalize_hostname_label hostname =
     (let h = trim_end_dots (trim hostname); h' = (if h = [] then ''arkkvm'' else h)
      in if \<not> is_ascii h' then Inl ''the hostname is not ascii'' else Inr (to_ascii_lowercase h'))"

definition format_fqdn :: "string \<Rightarrow> string \<Rightarrow> (string, string) result" where
  "format_fqdn hostname domain =
     (let d = trim_end_dots (trim domain);
          fqdn = (if d = ''local'' then hostname @ ''.local.'' else hostname @ ''.'' @ d @ ''.local.'')
      in if is_ascii fqdn then Inr fqdn else Inl ''the fqdn is not ascii'')"

definition format_fqdn_from_parts :: "string \<Rightarrow> string \<Rightarrow> (string, string) result" where
  "format_fqdn_from_parts hostname domain = bind_res (normalize_hostname_label hostname) (\<lambda>h. format_fqdn h domain)"

definition build_network_fqdn :: "net_probe \<Rightarrow> net_io \<Rightarrow> 'q net_state \<Rightarrow> string \<Rightarrow> string \<Rightarrow> (string, string) result option" where
  "build_network_fqdn pr io s hostname domain =
     (case normalize_hostname_label hostname of
        Inl err \<Rightarrow> Some (Inl err)
      | Inr h \<Rightarrow> map_option (format_fqdn h) (resolve_domain pr io s domain))"

definition build_hostname_and_fqdn ::
  "net_probe \<Rightarrow> net_io \<Rightarrow> 'q net_state \<Rightarrow> string \<Rightarrow> string \<Rightarrow> (string, string \<times> string) result option" where
  "build_hostname_and_fqdn pr io s hostname domain =
     (case normalize_hostname_label hostname of
        Inl err \<Rightarrow> Some (Inl err)
      | Inr h \<Rightarrow> map_option (\<lambda>d. bind_res (format_fqdn h d) (\<lambda>f. Inr (h, f))) (resolve_domain pr io s domain))"


section \<open>Leases that are reported\<close>

definition gateways_valid :: "dhcp_lease \<Rightarrow> bool" where
  "gateways_valid l = (pred_option (\<lambda>rs. rs \<noteq> [] \<and> list_all check_valid_ipv4 rs) (dl_routers l) \<and>
     pred_option check_valid_ipv4 (dl_server_id l) \<and> pred_option check_valid_ipv4 (dl_bootp_next_server l))"

lemma valid_or_none_ok: "pred_option check_valid_ipv4 (valid_or_none v)"
  by (simp add: valid_or_none_def split: option.split)

lemma sanitize_valid: "gateways_valid (sanitize_dhcp_lease_ipv4_fields l)"
  by (auto simp: gateways_valid_def sanitize_dhcp_lease_ipv4_fields_def valid_or_none_ok list_all_iff Let_def split: option.split)

lemma merge_option_pred: "pred_option P a \<Longrightarrow> pred_option P b \<Longrightarrow> pred_option P (merge_option a b)"
  by (simp add: merge_option_def)

lemma first_of_pred: "pred_option (\<lambda>rs. rs \<noteq> [] \<and> list_all P rs) xs \<Longrightarrow> pred_option P (first_of xs)"
  by (cases xs) (auto simp: first_of_def split: list.split)

lemma fill_valid:
  "gateways_valid (fill_dhcp_lease_gateway_fallbacks l) \<and>
   (dl_routers (fill_dhcp_lease_gateway_fallbacks l) \<noteq> None \<longrightarrow> dl_server_id (fill_dhcp_lease_gateway_fallbacks l) \<noteq> None) \<and>
   (dl_server_id (fill_dhcp_lease_gateway_fallbacks l) \<noteq> None \<longrightarrow> dl_bootp_next_server (fill_dhcp_lease_gateway_fallbacks l) \<noteq> None)"
proof -
  let ?l = "sanitize_dhcp_lease_ipv4_fields l"
  have v: "pred_option (\<lambda>rs. rs \<noteq> [] \<and> list_all check_valid_ipv4 rs) (dl_routers ?l)" "pred_option check_valid_ipv4 (dl_server_id ?l)"
    "pred_option check_valid_ipv4 (dl_bootp_next_server ?l)"
    using sanitize_valid [of l] by (simp_all add: gateways_valid_def)
  have "dl_routers ?l \<noteq> None \<Longrightarrow> first_of (dl_routers ?l) \<noteq> None"
    using v(1) by (auto simp: first_of_def split: list.split)
  then show ?thesis using v first_of_pred [OF v(1)]
    by (auto simp: fill_dhcp_lease_gateway_fallbacks_def Let_def gateways_valid_def merge_option_def)
qed

lemma is_empty_map_ignores: "build_is_empty_map (l\<lparr>dl_is_empty := x\<rparr>) = build_is_empty_map l"
  by (simp add: build_is_empty_map_def)

lemma merged_is_filled: "merge_dhcp_leases p f = Some l \<Longrightarrow> \<exists>m. l = with_is_empty (fill_dhcp_lease_gateway_fallbacks m)"
  by (auto simp: merge_dhcp_leases_def Let_def split: option.splits)

text \<open>
  C28: The lease that is reported for an interface, whatever the client's file and the system say, has
  only valid addresses as its routers, its DHCP server and its BOOTP next server, no empty list of
  routers, a DHCP server whenever it has a router and a next server whenever it has a DHCP server, and
  the table of empty fields that belongs to it. (The addresses of name, time and other servers are
  passed on from the client's file unchecked.)
\<close>

theorem reported_lease_sane:
  assumes "get_dhcp_lease pr iface = Some (Some l)"
  shows "gateways_valid l \<and> (dl_routers l \<noteq> None \<longrightarrow> dl_server_id l \<noteq> None) \<and> (dl_server_id l \<noteq> None \<longrightarrow> dl_bootp_next_server l \<noteq> None) \<and>
    dl_is_empty l = Some (build_is_empty_map l)"
proof -
  obtain m where m: "l = with_is_empty (fill_dhcp_lease_gateway_fallbacks m)"
    using assms merged_is_filled by (auto simp: get_dhcp_lease_def split: option.splits)
  have "gateways_valid (with_is_empty x) = gateways_valid x" "dl_routers (with_is_empty x) = dl_routers x" "dl_server_id (with_is_empty x) = dl_server_id x"
    "dl_bootp_next_server (with_is_empty x) = dl_bootp_next_server x" "dl_is_empty (with_is_empty x) = Some (build_is_empty_map (with_is_empty x))" for x
    by (simp_all add: with_is_empty_def gateways_valid_def is_empty_map_ignores)
  then show ?thesis unfolding m using fill_valid [of m] by simp
qed

section \<open>Masks\<close>

lemma cidr_mask_bits: "bit (cidr_mask p) n = (n < 32 \<and> 32 - min p 32 \<le> n)"
  by (auto simp: cidr_mask_def Let_def bit_push_bit_iff bit_not_iff bit_mask_iff)

lemma same_net_below:
  fixes a c m :: u32
  assumes "c AND m = a AND m"
  shows "c \<le> (a OR NOT m)"
proof -
  have "c OR (a OR NOT m) = a OR NOT m"
  proof (rule bit_eqI)
    fix n assume "possible_bit TYPE(u32) n"
    moreover have "bit (c AND m) n = bit (a AND m) n" using assms by simp
    ultimately show "bit (c OR (a OR NOT m)) n = bit (a OR NOT m) n"
      by (auto simp: bit_or_iff bit_and_iff bit_not_iff)
  qed
  then show ?thesis using le_word_or2 by metis
qed

text \<open>
  Netmask and broadcast address of a prefix belong together: the printed mask parses to a word of
  as many leading ones as the prefix says, and the printed broadcast address is the largest address
  of the network of the given one.
\<close>

theorem broadcast_tops_network:
  assumes "ipv4_parse ip = Some a"
  shows "\<exists>m b. ipv4_parse (cidr_to_netmask p) = Some m \<and> (\<forall>n. bit m n \<longleftrightarrow> n < 32 \<and> 32 - min p 32 \<le> n) \<and>
    map_option ipv4_parse (ipv4_broadcast ip p) = Some (Some b) \<and> b AND m = a AND m \<and> (\<forall>c. c AND m = a AND m \<longrightarrow> c \<le> b)"
proof -
  let ?m = "cidr_mask p"
  have "(a OR NOT ?m) AND ?m = a AND ?m" by (rule bit_eqI) (auto simp: bit_or_iff bit_and_iff bit_not_iff)
  then show ?thesis using assms cidr_mask_bits [of p] same_net_below [of _ ?m a]
    by (intro exI [of _ ?m] exI [of _ "a OR NOT ?m"]) (simp add: cidr_to_netmask_def ipv4_broadcast_def)
qed

section \<open>Names\<close>

lemma bind_res_Inr: "bind_res x f = Inr b \<longleftrightarrow> (\<exists>a. x = Inr a \<and> f a = Inr b)"
  by (cases x) simp_all

text \<open>
  The board is always announced under the local domain: a name that is built is in ASCII and ends
  in \<^verbatim>\<open>.local.\<close>, whichever domain was given or leased.
\<close>

theorem fqdn_is_local:
  assumes "build_hostname_and_fqdn pr io s hostname domain = Some (Inr (h, f))"
  shows "h \<noteq> [] \<and> is_ascii f \<and> suffix ''.local.'' f \<and> prefix (h @ ''.'') f \<and> build_network_fqdn pr io s hostname domain = Some (Inr f)"
proof -
  obtain d where d: "normalize_hostname_label hostname = Inr h" "resolve_domain pr io s domain = Some d" "format_fqdn h d = Inr f"
    using assms by (auto simp: build_hostname_and_fqdn_def bind_res_Inr split: sum.splits)
  have "h \<noteq> []" using d(1) by (auto simp: normalize_hostname_label_def to_ascii_lowercase_def Let_def split: if_splits)
  moreover have "is_ascii f \<and> (\<exists>x. f = h @ ''.'' @ x) \<and> (\<exists>y. f = y @ ''.local.'')"
    using d(3) unfolding format_fqdn_def Let_def by (auto split: if_splits)
  ultimately show ?thesis using d by (auto simp: build_network_fqdn_def suffix_def prefix_def)
qed

section \<open>Kinds of IPv6 addresses\<close>

lemma radix_digit_less: "radix_digit r c = Some d \<Longrightarrow> d < r"
  by (auto simp: radix_digit_def split: option.splits if_splits)

lemma radix_value_less: "radix_value r acc s = Some n \<Longrightarrow> acc < k \<Longrightarrow> n < k * r ^ length s"
proof (induction s arbitrary: acc k)
  case (Cons c s)
  then obtain d where d: "radix_digit r c = Some d" "radix_value r (acc * r + d) s = Some n" by (auto split: option.splits)
  have "acc * r + d < (acc + 1) * r" using radix_digit_less [OF d(1)] by simp
  also have "\<dots> \<le> k * r" using Cons.prems(2) by (intro mult_right_mono) auto
  finally show ?case using Cons.IH [OF d(2), of "k * r"] by (simp add: mult.assoc)
qed simp

lemma read_hex_group_less:
  assumes "read_hex_group s = Some (n, t)"
  shows "n < 65536"
proof -
  let ?ds = "takeWhile (\<lambda>c. hex_digit c \<noteq> None) s"
  have "radix_value 16 0 ?ds = Some n" "length ?ds \<le> 4" using assms by (auto simp: read_hex_group_def Let_def split: if_splits)
  then have "n < 16 ^ length ?ds" "(16 :: nat) ^ length ?ds \<le> 16 ^ 4"
    using radix_value_less [of 16 0 ?ds n 1] power_increasing [of "length ?ds" 4 "16 :: nat"] by simp_all
  then show ?thesis by simp
qed

lemma octets_less: "u32_octet a i * 256 + u32_octet a j < 65536"
proof -
  have "u32_octet a i < 256" "u32_octet a j < 256" by (simp_all add: u32_octet_def)
  then show ?thesis by linarith
qed

lemma read_groups_shape: "read_groups k first s = (gs, v4, t) \<Longrightarrow> length gs \<le> k \<and> list_all (\<lambda>g. g < 65536) gs"
proof (induction k first s arbitrary: gs v4 t rule: read_groups.induct)
  case (2 limit first s)
  then show ?case
    by (auto simp: Let_def octets_less split: option.splits list.splits prod.splits if_splits dest!: read_hex_group_less)
qed simp

lemma ipv6_parse_shape:
  assumes "ipv6_parse s = Some gs"
  shows "length gs = 8 \<and> list_all (\<lambda>g. g < 65536) gs"
  using assms
  by (auto simp: ipv6_parse_def list_all_iff split: prod.splits if_splits dest!: read_groups_shape)

text \<open>The ranges that the comments of the source name, by the first group; the last one is \<^verbatim>\<open>2000::/3\<close>, the global addresses assigned so far.\<close>

definition address_range_type :: "nat list \<Rightarrow> ipv6_address_type" where
  "address_range_type gs =
     (if gs = replicate 8 0 then Unspecified
      else if gs = replicate 7 0 @ [1] then Loopback
      else if 0xff00 \<le> hd gs then Multicast
      else if 0xfe80 \<le> hd gs \<and> hd gs \<le> 0xfebf then LinkLocal
      else if 0xfc00 \<le> hd gs \<and> hd gs \<le> 0xfdff then UniqueLocal
      else if 0x2000 \<le> hd gs \<and> hd gs \<le> 0x3fff then GlobalAddr
      else UnknownAddr)"

lemma byte_masks_all:
  "list_all (\<lambda>b. ((word_of_nat b :: u8) AND 0xc0 = 0x80 \<longleftrightarrow> 128 \<le> b \<and> b < 192) \<and> ((word_of_nat b :: u8) AND 0xfe = 0xfc \<longleftrightarrow> 252 \<le> b \<and> b < 254) \<and>
     ((word_of_nat b :: u8) AND 0xe0 = 0x20 \<longleftrightarrow> 32 \<le> b \<and> b < 64) \<and> ((word_of_nat b :: u8) = 0xff \<longleftrightarrow> b = 255) \<and> ((word_of_nat b :: u8) = 0xfe \<longleftrightarrow> b = 254)) [0..<256]"
  by code_simp

lemma byte_masks:
  assumes "b < 256"
  shows "(word_of_nat b :: u8) AND 0xc0 = 0x80 \<longleftrightarrow> 128 \<le> b \<and> b < 192" "(word_of_nat b :: u8) AND 0xfe = 0xfc \<longleftrightarrow> 252 \<le> b \<and> b < 254"
    "(word_of_nat b :: u8) AND 0xe0 = 0x20 \<longleftrightarrow> 32 \<le> b \<and> b < 64" "(word_of_nat b :: u8) = 0xff \<longleftrightarrow> b = 255" "(word_of_nat b :: u8) = 0xfe \<longleftrightarrow> b = 254"
proof -
  have "b \<in> set [0..<256]" using assms by (simp only: set_upt atLeastLessThan_iff zero_le simp_thms)
  note m = byte_masks_all [unfolded list_all_iff, rule_format, OF this]
  show "(word_of_nat b :: u8) AND 0xc0 = 0x80 \<longleftrightarrow> 128 \<le> b \<and> b < 192" "(word_of_nat b :: u8) AND 0xfe = 0xfc \<longleftrightarrow> 252 \<le> b \<and> b < 254"
    "(word_of_nat b :: u8) AND 0xe0 = 0x20 \<longleftrightarrow> 32 \<le> b \<and> b < 64" "(word_of_nat b :: u8) = 0xff \<longleftrightarrow> b = 255" "(word_of_nat b :: u8) = 0xfe \<longleftrightarrow> b = 254"
    using m by blast+
qed

lemma group_bytes:
  fixes q r :: nat
  assumes "r < 256"
  shows "q = 255 \<longleftrightarrow> 0xff00 \<le> 256 * q + r \<and> q \<le> 255"
    "q = 254 \<and> 128 \<le> r \<and> r < 192 \<longleftrightarrow> 0xfe80 \<le> 256 * q + r \<and> 256 * q + r \<le> 0xfebf"
    "252 \<le> q \<and> q < 254 \<longleftrightarrow> 0xfc00 \<le> 256 * q + r \<and> 256 * q + r \<le> 0xfdff"
    "32 \<le> q \<and> q < 64 \<longleftrightarrow> 0x2000 \<le> 256 * q + r \<and> 256 * q + r \<le> 0x3fff"
proof -
  show "q = 255 \<longleftrightarrow> 0xff00 \<le> 256 * q + r \<and> q \<le> 255" using assms by auto
  show "q = 254 \<and> 128 \<le> r \<and> r < 192 \<longleftrightarrow> 0xfe80 \<le> 256 * q + r \<and> 256 * q + r \<le> 0xfebf"
  proof
    assume a: "0xfe80 \<le> 256 * q + r \<and> 256 * q + r \<le> 0xfebf"
    then have "q = 254" using assms by linarith
    then show "q = 254 \<and> 128 \<le> r \<and> r < 192" using a by simp
  qed simp
  show "252 \<le> q \<and> q < 254 \<longleftrightarrow> 0xfc00 \<le> 256 * q + r \<and> 256 * q + r \<le> 0xfdff" using assms by auto
  show "32 \<le> q \<and> q < 64 \<longleftrightarrow> 0x2000 \<le> 256 * q + r \<and> 256 * q + r \<le> 0x3fff" using assms by auto
qed

text \<open>
  C27: Addresses are sorted into kinds by the ranges the source names: the tests on the first two
  bytes agree with the ranges \<^verbatim>\<open>ff00::/8\<close>, \<^verbatim>\<open>fe80::/10\<close>, \<^verbatim>\<open>fc00::/7\<close> and \<^verbatim>\<open>2000::/3\<close> of the first group, for
  every address the parser accepts.
\<close>

theorem classify_by_ranges:
  assumes "ipv6_parse s = Some gs"
  shows "classify_ipv6_address s = address_range_type gs"
proof -
  obtain g r where g: "gs = g # r" "g < 65536" using ipv6_parse_shape [OF assms] by (cases gs) auto
  have d: "g div 256 < 256" "g mod 256 < 256" using g(2) by (auto simp: less_mult_imp_div_less)
  have o: "ipv6_octets gs ! 0 = word_of_nat (g div 256)" "ipv6_octets gs ! 1 = word_of_nat (g mod 256)" by (simp_all add: ipv6_octets_def g(1))
  have h: "hd gs = g" by (simp add: g(1))
  have "g = 256 * (g div 256) + g mod 256" by simp
  note k = group_bytes [OF d(2), of "g div 256", folded this]
  show ?thesis
    unfolding classify_ipv6_address_def address_range_type_def assms option.case Let_def o h byte_masks [OF d(1)] byte_masks [OF d(2)] k using d(1) by simp
qed

section \<open>Concrete instances\<close>

definition demo_probe :: net_probe where
  "demo_probe = \<lparr>np_if_addrs = Some [], np_rtnetlink = (\<lambda>i. None), np_mac = (\<lambda>i. None), np_file = (\<lambda>p. None),
     np_ip_addr = (\<lambda>i. Some ''2: eth0 inet 10.0.0.2/8''), np_route_dev = (\<lambda>i. Some ''default via 10.0.0.1''), np_route_get = (\<lambda>a b. None),
     np_route = None, np_uptime = None, np_now = 0, np_envy = (\<lambda>ps. None), np_plus = (\<lambda>t n. Some (t + n * 1000000000))\<rparr>"


lemma demo_ipv4: "ipv4_parse ''10.0.0.2'' = Some 167772162" "ipv4_parse ''10.0.0.1'' = Some 167772161"
  by (simp_all add: ipv4_parse_eval)

lemma demo_gateway: "parse_via_gateway ''default via 10.0.0.1'' = Some ''10.0.0.1''"
  by (simp add: parse_via_gateway_def split_whitespace_def is_ascii_space_def check_valid_ipv4_def demo_ipv4)

theorem broadcast_tops_network_witness:
  "\<exists>b. map_option ipv4_parse (ipv4_broadcast ''10.0.0.2'' 8) = Some (Some b) \<and> (\<forall>c. c AND cidr_mask 8 = 167772162 AND cidr_mask 8 \<longrightarrow> c \<le> b)"
  using broadcast_tops_network [OF demo_ipv4(1), of 8] by (auto simp: cidr_to_netmask_def)

lemma demo_entry: "inet_entry ''2: eth0 inet 10.0.0.2/8'' = Some (''10.0.0.2'', 8)"
proof -
  have "parse_u8 ''8'' = Some 8" by (simp add: parse_u8_def parse_radix_def radix_digit_def hex_digit_def)
  then show ?thesis by (simp add: inet_entry_def split_whitespace_def is_ascii_space_def str_split_once_def)
qed

theorem reported_lease_sane_witness:
  "\<exists>l. get_dhcp_lease demo_probe ''eth0'' = Some (Some l) \<and> gateways_valid l \<and> dl_is_empty l = Some (build_is_empty_map l)"
proof -
  have "get_ipv4_entries_via_ip demo_probe ''eth0'' = [(''10.0.0.2'', 8)]"
    by (simp add: get_ipv4_entries_via_ip_def demo_probe_def str_lines_def NL_def demo_entry List.map_filter_simps)
  moreover have "get_gateway_for_interface demo_probe ''eth0'' ''10.0.0.2'' = Some ''10.0.0.1''"
    by (simp add: get_gateway_for_interface_def first_gateway_def demo_probe_def str_lines_def NL_def demo_gateway List.map_filter_simps merge_option_def)
  ultimately have "build_dhcp_lease_from_runtime demo_probe ''eth0'' \<noteq> None" by (simp add: build_dhcp_lease_from_runtime_def Let_def)
  then obtain l where "get_dhcp_lease demo_probe ''eth0'' = Some (Some l)"
    by (auto simp: get_dhcp_lease_def read_udhcpc_info_file_def demo_probe_def merge_option_def merge_dhcp_leases_def split: option.splits)
  then show ?thesis using reported_lease_sane by blast
qed

theorem fqdn_is_local_witness:
  "build_hostname_and_fqdn demo_probe net_demo_io net_demo ''Kvm.'' ''lan'' = Some (Inr (''kvm'', ''kvm.lan.local.'')) \<and>
   build_network_fqdn demo_probe net_demo_io net_demo ''Kvm.'' ''lan'' = Some (Inr ''kvm.lan.local.'')"
proof -
  have t: "trim ''Kvm.'' = ''Kvm.''" "trim ''lan'' = ''lan''" by (rule trim_keeps; simp add: is_ascii_space_def)+
  have l: "to_ascii_lowercase ''Kvm'' = ''kvm''" by code_simp
  have h: "normalize_hostname_label ''Kvm.'' = Inr ''kvm''"
    by (simp add: normalize_hostname_label_def t trim_end_dots_def is_ascii_def l Let_def)
  have d: "resolve_domain demo_probe net_demo_io net_demo ''lan'' = Some ''lan''" by (simp add: resolve_domain_def t Let_def)
  have "format_fqdn ''kvm'' ''lan'' = Inr ''kvm.lan.local.''" by (simp add: format_fqdn_def t trim_end_dots_def is_ascii_def Let_def)
  with h d have "build_hostname_and_fqdn demo_probe net_demo_io net_demo ''Kvm.'' ''lan'' = Some (Inr (''kvm'', ''kvm.lan.local.''))"
    by (simp add: build_hostname_and_fqdn_def)
  with fqdn_is_local [OF this] show ?thesis by blast
qed

lemma zeros: "replicate 6 (0 :: nat) = [0, 0, 0, 0, 0, 0]" "replicate 7 (0 :: nat) = [0, 0, 0, 0, 0, 0, 0]" "replicate 8 (0 :: nat) = [0, 0, 0, 0, 0, 0, 0, 0]"
  by code_simp+

lemma demo_ula: "ipv6_parse ''fd00::1'' = Some [0xfd00, 0, 0, 0, 0, 0, 0, 1]"
proof -
  have i: "ipv4_parse ''fd00::1'' = None" "ipv4_parse '':1'' = None" "ipv4_parse ''1'' = None" by (simp_all add: ipv4_parse_def)
  have x: "radix_value 16 0 ''fd00'' = Some 0xfd00" "radix_value 16 0 ''1'' = Some 1" by (simp_all add: radix_digit_def hex_digit_def)
  have g: "read_hex_group ''fd00::1'' = Some (0xfd00, ''::1'')" "read_hex_group '':1'' = None" "read_hex_group ''1'' = Some (1, [])"
    using x by (simp_all add: read_hex_group_def hex_digit_def)
  have "read_groups 7 False ''::1'' = ([], False, ''::1'')" using read_groups.simps(2) [of 6 False "''::1''"] by (simp add: i g)
  then have r: "read_groups 8 True ''fd00::1'' = ([0xfd00], False, ''::1'')"
    using read_groups.simps(2) [of 7 True "''fd00::1''"] by (simp add: i g)
  have "read_groups 5 False [] = ([], False, [])" using read_groups.simps(2) [of 4 False "[]"] by simp
  then have "read_groups 6 True ''1'' = ([1], False, [])" using read_groups.simps(2) [of 5 True "''1''"] by (simp add: i g)
  then show ?thesis by (simp add: ipv6_parse_def r starts_with_def zeros)
qed

theorem classify_by_ranges_witness: "classify_ipv6_address ''fd00::1'' = UniqueLocal"
  unfolding classify_by_ranges [OF demo_ula] by (simp add: address_range_type_def zeros)

end
