(* ===== verification/Spec2Isabelle.thy ===== *)
theory Spec2Isabelle
  imports Web_Auth Ft_Upload Ota_Update Net_State
begin

text \<open>
  ArkKVM is the firmware of a network KVM: browsers and agents connect to it over WebRTC, see the
  screen of a controlled host and send it keyboard, mouse and media through a USB gadget. Two
  programs make it up: the application (\<^verbatim>\<open>arkkvm/src\<close>), which keeps the sessions and decides who may
  send input, and a sidecar (\<^verbatim>\<open>crates/usb_devices/src\<close>), which owns the USB gadget. They talk over a
  message bus. This development models the core of both and the seam between them.

  \<^bold>\<open>The application.\<close>
  \<^item> \<open>Kvm_Session\<close>: a session object, its role, terminal slot and channels (\<^verbatim>\<open>session.rs\<close>).
  \<^item> \<open>App_State\<close>: the registry of sessions, the slot of each role, the queues of ICE candidates
    (\<^verbatim>\<open>state.rs\<close>). Session objects live in an explicit heap, because the code compares them by
    pointer and a session id can be reused.
  \<^item> \<open>Control_Lease\<close>: which role may send input; requests, decisions, take-over and timeouts
    (\<^verbatim>\<open>control_lease.rs\<close>).
  \<^item> \<open>Ip_Forward\<close>: one-time tickets for forwarding and the choice of the target host (\<^verbatim>\<open>ip_forward/\<close>).
  \<^item> \<open>Kvm_Device\<close>: the parts above put together as one device: registration, claim and takeover,
    removal, ICE callbacks, media sinks (\<^verbatim>\<open>webrtc/mod.rs\<close>, \<^verbatim>\<open>webrtc/handler.rs\<close>), the MCP and SSH
    switches (\<^verbatim>\<open>hardware/usb/mcp_ssh.rs\<close>); \<open>device_step\<close> is one action of the device and
    \<open>device_reachable\<close> the states it can be in, \<open>device_steady\<close> those of runs in which no connection changes its role.
  \<^item> \<open>Json_Rpc\<close>: the dispatcher of the RPC and input channels with the input gate (\<^verbatim>\<open>jsonrpc.rs\<close>).
  \<^item> \<open>Config_Store\<close>: the configuration, its validation and update, the encrypted file with its backup
    (\<^verbatim>\<open>config/\<close>). Saving all or nothing for the primary file, loading what was saved.
  \<^item> \<open>Web_Auth\<close>: log-in, tokens, middlewares and set-up (\<^verbatim>\<open>middleware.rs\<close>, \<^verbatim>\<open>web.rs\<close>): who gets through.

  \<^bold>\<open>Media and files.\<close>
  \<^item> \<open>Image_Reader\<close>: the reader of remote images over HTTP ranges, with its block cache and prefetch
    buffer (\<^verbatim>\<open>hardware/usb/storage.rs\<close>). \<open>Image_Device\<close>: the block device in front of it and the disk
    offered by a browser (\<^verbatim>\<open>hardware/block_device.rs\<close>, \<^verbatim>\<open>remote_mount.rs\<close>); the locale of an exact reader
    carries the proof that a host sees the bytes of the image.
  \<^item> \<open>Image_Upload\<close>: resumable uploads over data channels and HTTP (\<^verbatim>\<open>storage.rs\<close>, \<^verbatim>\<open>data_channel.rs\<close>).
  \<^item> \<open>Virtual_Media\<close>: mounting and unmounting, the transfer drive and its loop mount.
  \<^item> \<open>File_Serve\<close>: files of the device served to others (\<^verbatim>\<open>services/local_file.rs\<close>), the other end of
    \<open>Image_Reader\<close>: a range asked for in its words is answered with exactly those bytes, once the request
    has passed the middlewares of \<open>Web_Auth\<close>.
  \<^item> \<open>Drive_Files\<close>: the files of the transfer drive while the device has it mounted: paths, streams, names
    and folders, usage, repair and format (\<^verbatim>\<open>hardware/fs_remote.rs\<close>). The drive is a map of names to
    inodes, so that an open stream survives renaming and deleting; \<open>honest_drive\<close> is a drive on which
    no system call fails. No path leaves the mount point.
  \<^item> \<open>Ft_Upload\<close>: uploads to that drive and downloads from it (\<^verbatim>\<open>storage.rs\<close>, \<^verbatim>\<open>data_channel.rs\<close>,
    \<^verbatim>\<open>web.rs\<close>, \<^verbatim>\<open>jsonrpc.rs\<close>): the offset a client is told is where the writer stands, what is
    published is what was sent, what is downloaded is the file.

  \<^bold>\<open>The board.\<close>
  \<^item> \<open>Ota_Update\<close>: firmware update as interleaved tasks, the download that resumes with \<open>Range\<close> requests
    (\<^verbatim>\<open>ota.rs\<close>, \<^verbatim>\<open>cloud/manager.rs\<close>): only packages with an announced signature are installed, and
    where two tasks get in each other's way.
  \<^item> \<open>Cloud_Link\<close>: the connection to the cloud, its state and the gate that network changes close
    (\<^verbatim>\<open>cloud/manager.rs\<close>, \<^verbatim>\<open>cloud/websocket.rs\<close>). The connection loop moves from one await to the next, so
    the gate is passed several steps before the dial.
  \<^item> \<open>Net_Conf\<close>: the file \<^verbatim>\<open>network.conf\<close>, printed and parsed (\<^verbatim>\<open>network/network_conf.rs\<close>).
    \<open>Net_Settings\<close>: flat and VLAN settings over file, store and cloud connection, and the migration
    of older files (\<^verbatim>\<open>network/settings.rs\<close>, \<^verbatim>\<open>vlan.rs\<close>, \<^verbatim>\<open>legacy_migrate.rs\<close>). \<open>Net_State\<close>:
    addresses, DHCP leases and names as they are reported (\<^verbatim>\<open>network/mod.rs\<close>, \<^verbatim>\<open>network/fqdn.rs\<close>).

  \<^bold>\<open>The sidecar.\<close>
  \<^item> \<open>Usb_Config\<close>: switches, endpoint budget, the gadget that is built, look-ups in configfs
    (\<^verbatim>\<open>config.rs\<close>, \<^verbatim>\<open>devices/mod.rs\<close>), and the locale \<open>change_handler\<close>: what every function promises
    during a change of the gadget.
  \<^item> \<open>Hid_Devices\<close>, \<open>Ums_Devices\<close>, \<open>Uac_Device\<close>, \<open>Net_Adapter\<close>: keyboard and mice, mass storage,
    microphone, network adapter (\<^verbatim>\<open>devices/\<close>). Each interprets \<open>change_handler\<close>.
  \<^item> \<open>Usb_Manager\<close>: the services, the change protocol, binding and unbinding, the state of the USB
    controller, media control (\<^verbatim>\<open>manager.rs\<close>); the locale \<open>handler_bus\<close> is what the manager needs of
    the broadcast to its handlers.
  \<^item> \<open>Usb_Lifecycle\<close>: the properties of whole changes and of the states the manager reaches.
  \<^item> \<open>Usb_Control\<close>: the command loop in front of the manager (\<^verbatim>\<open>control/service.rs\<close>): a configuration
    request takes effect or is not remembered.
  \<^item> \<open>Usb_Bridge\<close>: the application's client of the sidecar (\<^verbatim>\<open>services/usb.rs\<close>).
  \<^item> \<open>Usb_Facade\<close>: what the application stores, asks for and reconciles (\<^verbatim>\<open>hardware/usb/mod.rs\<close>).

  \<^bold>\<open>How the code is modelled.\<close> A struct is a record, an enum a datatype, \<open>Result\<close> is
  \<open>('e, 'a) result\<close> (\<open>Inl\<close> is \<open>Err\<close>), a hash map is an association list without duplicate keys behind
  the locale \<open>hash_map\<close> of \<open>Kvm_Prelude\<close>. A locked section is one function on the state it locks.
  Machine integers are words where they can wrap or saturate. What the system, the kernel, the
  WebRTC library or the message bus answers is an argument: the \<open>_env\<close> records. A panic is \<open>None\<close>.

  \<^bold>\<open>Fuel.\<close> Two loops poll. \<open>write_all_with_timeout\<close> recurses over the list of poll outcomes; \<open>bounded_write\<close>
  shows how many are enough. The wait for
  the controller gets 200 rounds of 100 ms for its deadline of 20 s; \<open>udc_wait_ends\<close> shows that more
  rounds change nothing when the clock advances by what a sleep asks for.

  \<^bold>\<open>Error texts\<close> keep their fixed part; what a library or the system adds to one is part of the argument
  that makes the call fail.

  \<^bold>\<open>Not modelled.\<close> Peer connections, codecs and the media pipelines (libraries and native encoders); the
  HTTP server's transport, TLS, static files and the signalling over web sockets; the encoding of
  messages and the bus; terminals (pty I/O), time synchronisation, mDNS, wake-on-LAN, the mouse
  jiggler, the display and the VPN plug-in (timers and processes around system calls); statistics and
  clearing of storage, and \<^verbatim>\<open>fs_fat32.rs\<close>, whose module declaration is commented out. Log messages are
  left out everywhere.
\<close>

section \<open>Properties across components\<close>

lemma find_map: "find P (map f xs) = map_option f (find (P \<circ> f) xs)"
  by (induction xs) simp_all

lemma max_by_key_is_Max:
  "xs \<noteq> [] \<Longrightarrow> \<exists>b. max_by_key f xs = Some b \<and> f b = Max (set (map f xs))"
  using max_by_key_Some [of f xs] by (cases xs) (auto intro!: Max_eqI [symmetric])

text \<open>
  C37: The overlay for network forwarding always fits the controller. Whatever devices are
  preferred, as long as the camera is off, what is asked of the sidecar respects its endpoint
  budget, with forwarding on (when the relative mouse and the microphone are taken out) and off.
  The overlay is needed: when every other device is preferred, the stored preference with
  forwarding on, sent as it is, would exceed the budget.
\<close>

theorem overlay_fits_budget:
  assumes "\<not> ud_camera pref"
  shows "check_endpoint_budget (switches_from_devices (devices_for_apply pref ssh)) = Inr ()
    \<and> (ud_keyboard pref \<and> ud_absolute_mouse pref \<and> ud_relative_mouse pref \<and> ud_mass_storage_vm pref
       \<and> ud_mass_storage_ft pref \<and> ud_microphone pref
       \<longrightarrow> check_endpoint_budget (switches_from_devices (devices_for_persist pref True)) \<noteq> Inr ())"
  using assms
  by (auto simp: devices_for_persist_def budget_functions_iff [of _ Disk] switches_from_devices_def devices_for_apply_def gadget_functions_def
      total_endpoints_append total_endpoints_if uac_channel_def total_endpoints_def Let_def)

theorem overlay_fits_budget_witness:
  "check_endpoint_budget (switches_from_devices (devices_for_apply
     \<lparr>ud_absolute_mouse = True, ud_relative_mouse = True, ud_keyboard = True, ud_mass_storage_vm = True,
      ud_mass_storage_ft = True, ud_microphone = True, ud_camera = False,
      ud_network_adapter = \<lparr>na_enable = False, na_adapter_type = Rndis,
        na_l3_config = \<lparr>network_adapter_l3.l3_ip_address = '''', l3_subnet_mask = '''', l3_gateway = None, l3_dns_servers = None\<rparr>\<rparr>\<rparr>
     True)) = Inr ()"
  by (rule overlay_fits_budget [THEN conjunct1]) simp

text \<open>
  C38: Application and sidecar pick the same controlled host. The application chooses a peer from
  the leases the sidecar lists, the sidecar chooses one from the same file for its own use; both
  take the first lease with the longest remaining time.
\<close>

theorem peer_choice_agrees:
  "select_usb_peer (map lease_to_proto ls) = map_option lease_to_proto (select_controlled_host_lease ls)"
proof (cases "ls = []")
  case False
  have k: "ul_expires_in_secs \<circ> lease_to_proto = dl_expires_in_secs" by (auto simp: lease_to_proto_def)
  from max_by_key_is_Max [of "map lease_to_proto ls" ul_expires_in_secs] False
  obtain b where "max_by_key ul_expires_in_secs (map lease_to_proto ls) = Some b"
    "ul_expires_in_secs b = Max (set (map dl_expires_in_secs ls))" by (auto simp: k)
  with False show ?thesis
    by (simp add: select_usb_peer_def select_lease_eq find_map comp_def lease_to_proto_def)
qed (simp add: select_usb_peer_def select_controlled_host_lease_def)

end
